(* ===== verification/Prelude.thy ===== *)
theory Prelude
  imports Complex_Main "HOL-Library.Sublist" "HOL-Library.Multiset"
    "HOL-Library.Code_Target_Nat"
begin

text \<open>
  What every theory of the development shares: the collections of simplification facts,
  the result type of code that throws, JavaScript's optional values, and generic facts
  about lists. Nothing here is about the program itself.
\<close>

section \<open>Collections\<close>

named_theorems text_simps \<open>facts about JavaScript texts and their slices\<close>
named_theorems map_simps \<open>facts about insertion-ordered maps\<close>
named_theorems step_simps \<open>unfolded transitions of the state machines\<close>

section \<open>Results and optional values\<close>

text \<open>
  A function that may throw returns a sum: \<open>Inl\<close> the thrown error, \<open>Inr\<close> the value.
  An absent property (\<open>undefined\<close>) or \<open>null\<close> is \<open>None\<close>.
\<close>

type_synonym ('e, 'a) result = "'e + 'a"

text \<open>The nullish operator \<open>a ?? b\<close>.\<close>

definition nullish :: "'a option \<Rightarrow> 'a \<Rightarrow> 'a" where
  "nullish a b = (case a of None \<Rightarrow> b | Some x \<Rightarrow> x)"

lemma nullish_simps [simp]: "nullish None b = b" "nullish (Some x) b = x"
  by (simp_all add: nullish_def)

section \<open>Lists\<close>

lemma dropWhile_length_less [simp, intro]: "length (dropWhile P xs) < Suc (length xs)"
  using length_dropWhile_le [of P xs] by simp

lemma takeWhile_nonempty: "xs \<noteq> [] \<Longrightarrow> P (hd xs) \<Longrightarrow> takeWhile P xs \<noteq> []"
  by (cases xs) auto

lemma nth_take_drop_eq: "i + n \<le> length xs \<Longrightarrow> length (take n (drop i xs)) = n"
  by simp

lemma take_drop_split: "i \<le> j \<Longrightarrow> take i xs @ take (j - i) (drop i xs) = take j xs"
  by (metis le_add_diff_inverse take_add)

lemma last_in_set_snoc: "xs \<noteq> [] \<Longrightarrow> last xs \<in> set xs"
  by simp

lemma set_dropWhile_subset: "set (dropWhile P xs) \<subseteq> set xs"
  using set_dropWhileD by fast

lemma distinct_map_filter_neq:
  "distinct (map f xs) \<Longrightarrow> distinct (map f (filter P xs))"
  by (rule distinct_map_filter)

lemma find_Some_in: "List.find P xs = Some x \<Longrightarrow> x \<in> set xs \<and> P x"
  by (induction xs) (auto split: if_splits)

lemma find_distinct_key:
  assumes "distinct (map f xs)" and "x \<in> set xs"
  shows "List.find (\<lambda>y. f y = f x) xs = Some x"
  using assms by (induction xs) (auto simp: rev_image_eqI)

lemma upt_split: "i \<le> j \<Longrightarrow> j \<le> k \<Longrightarrow> [i..<k] = [i..<j] @ [j..<k]"
  by (metis le_add_diff_inverse upt_add_eq_append)

lemma map_upt_const: "(\<And>k. i \<le> k \<Longrightarrow> k < j \<Longrightarrow> f k = c) \<Longrightarrow> map f [i..<j] = replicate (j - i) c"
  by (rule nth_equalityI) simp_all

lemma find_listed:
  assumes "x \<in> fst ` set xs"
  shows "map_option fst (List.find (\<lambda>(v, _). v = x) xs) = Some x"
  using assms by (induction xs) auto

text \<open>The first position whose element satisfies a test (\<open>findIndex\<close>).\<close>

fun find_index :: "('a \<Rightarrow> bool) \<Rightarrow> 'a list \<Rightarrow> nat option" where
  "find_index P [] = None"
| "find_index P (x # xs) = (if P x then Some 0 else map_option Suc (find_index P xs))"

lemma find_index_Some:
  "find_index P xs = Some i \<Longrightarrow> i < length xs \<and> P (xs ! i) \<and> (\<forall>j < i. \<not> P (xs ! j))"
proof (induction xs arbitrary: i)
  case (Cons x xs)
  then show ?case
    by (fastforce split: if_splits simp: nth_Cons less_Suc_eq_0_disj split: nat.splits)
qed simp

lemma find_index_None: "find_index P xs = None \<longleftrightarrow> (\<forall>x \<in> set xs. \<not> P x)"
  by (induction xs) auto

end
