(* ===== verification/JsText.thy ===== *)
theory JsText
  imports Prelude
begin

text \<open>
  JavaScript strings. A string is the list of its UTF-16 code units, so lengths, slices
  and offsets count what the code counts; the regular expressions with the \<open>u\<close> flag
  read code points, so decoding and encoding of surrogate pairs is written out. The
  operations of \<open>String.prototype\<close> the program uses follow: \<open>trim\<close>, \<open>split\<close> on one
  character, \<open>join\<close>, \<open>slice\<close>, \<open>startsWith\<close>, \<open>includes\<close> and \<open>indexOf\<close>.
\<close>

type_synonym jstring = "nat list"

text \<open>An ASCII literal of the source.\<close>

definition js :: "string \<Rightarrow> jstring" where
  "js s = map of_char s"

section \<open>Code units and code points\<close>

definition high_surrogate :: "nat \<Rightarrow> bool" where
  "high_surrogate u \<longleftrightarrow> 55296 \<le> u \<and> u < 56320"

definition low_surrogate :: "nat \<Rightarrow> bool" where
  "low_surrogate u \<longleftrightarrow> 56320 \<le> u \<and> u < 57344"

definition units_of :: "nat \<Rightarrow> jstring" where
  "units_of c =
     (if c < 65536 then [c]
      else [55296 + (c - 65536) div 1024, 56320 + (c - 65536) mod 1024])"

fun code_points :: "jstring \<Rightarrow> nat list" where
  "code_points [] = []"
| "code_points [u] = [u]"
| "code_points (u # v # us) =
     (if high_surrogate u \<and> low_surrogate v
      then ((u - 55296) * 1024 + (v - 56320) + 65536) # code_points us
      else u # code_points (v # us))"

definition from_code_points :: "nat list \<Rightarrow> jstring" where
  "from_code_points cs = concat (map units_of cs)"

definition valid_text :: "jstring \<Rightarrow> bool" where
  "valid_text s \<longleftrightarrow> (\<forall>u \<in> set s. u < 65536)"

lemma from_code_points_simps [simp, text_simps]:
  "from_code_points [] = []"
  "from_code_points (c # cs) = units_of c @ from_code_points cs"
  "from_code_points (cs @ ds) = from_code_points cs @ from_code_points ds"
  by (simp_all add: from_code_points_def)

lemma units_of_small [simp]: "c < 65536 \<Longrightarrow> units_of c = [c]"
  by (simp add: units_of_def)

lemma units_of_pair:
  assumes "high_surrogate u" and "low_surrogate v"
  shows "units_of ((u - 55296) * 1024 + (v - 56320) + 65536) = [u, v]"
proof -
  have u: "55296 \<le> u" and v: "56320 \<le> v" "v - 56320 < 1024"
    using assms by (auto simp: high_surrogate_def low_surrogate_def)
  define c where "c = (u - 55296) * 1024 + (v - 56320)"
  have "c div 1024 = u - 55296" and "c mod 1024 = v - 56320"
    using v(2) by (simp_all add: c_def)
  moreover have "units_of (c + 65536) = [55296 + c div 1024, 56320 + c mod 1024]"
    by (simp add: units_of_def)
  ultimately show ?thesis using u v(1) by (simp add: c_def)
qed

lemma units_of_not_Nil [simp]: "units_of c \<noteq> []"
  by (simp add: units_of_def)

text \<open>Decoding and encoding a valid text gives it back, surrogates paired or not.\<close>

lemma from_code_points_code_points: "valid_text s \<Longrightarrow> from_code_points (code_points s) = s"
  by (induction s rule: code_points.induct)
     (auto simp: valid_text_def units_of_pair simp del: units_of_small intro: units_of_small)

lemma valid_text_simps [simp]:
  "valid_text []"
  "valid_text (u # s) \<longleftrightarrow> u < 65536 \<and> valid_text s"
  "valid_text (s @ t) \<longleftrightarrow> valid_text s \<and> valid_text t"
  by (auto simp: valid_text_def)

text \<open>Texts without surrogates are their own code points.\<close>

definition plain_text :: "jstring \<Rightarrow> bool" where
  "plain_text s \<longleftrightarrow> (\<forall>u \<in> set s. u < 55296)"

lemma plain_text_simps [simp]:
  "plain_text []"
  "plain_text (u # s) \<longleftrightarrow> u < 55296 \<and> plain_text s"
  "plain_text (s @ t) \<longleftrightarrow> plain_text s \<and> plain_text t"
  by (auto simp: plain_text_def)

lemma code_points_plain [simp]: "plain_text s \<Longrightarrow> code_points s = s"
  by (induction s rule: code_points.induct) (auto simp: high_surrogate_def)

lemma from_code_points_plain [simp]: "plain_text s \<Longrightarrow> from_code_points s = s"
  by (induction s) auto

section \<open>Characters\<close>

definition is_digit :: "nat \<Rightarrow> bool" where  \<comment> \<open>\<open>[0-9]\<close>\<close>
  "is_digit c \<longleftrightarrow> 48 \<le> c \<and> c \<le> 57"

definition is_az :: "nat \<Rightarrow> bool" where  \<comment> \<open>\<open>[a-z]\<close>\<close>
  "is_az c \<longleftrightarrow> 97 \<le> c \<and> c \<le> 122"

definition is_upper_az :: "nat \<Rightarrow> bool" where  \<comment> \<open>\<open>[A-Z]\<close>\<close>
  "is_upper_az c \<longleftrightarrow> 65 \<le> c \<and> c \<le> 90"

text \<open>White space and line terminators: what \<open>trim\<close> strips and \<open>\s\<close> matches.\<close>

definition js_space :: "nat \<Rightarrow> bool" where
  "js_space c \<longleftrightarrow>
     (9 \<le> c \<and> c \<le> 13) \<or> c = 32 \<or> c = 160 \<or> c = 5760 \<or> (8192 \<le> c \<and> c \<le> 8202) \<or>
     c = 8232 \<or> c = 8233 \<or> c = 8239 \<or> c = 8287 \<or> c = 12288 \<or> c = 65279"

section \<open>String operations\<close>

definition js_trim :: "jstring \<Rightarrow> jstring" where
  "js_trim s = rev (dropWhile js_space (rev (dropWhile js_space s)))"

text \<open>\<open>s.slice(a, b)\<close> for indexes that are not negative.\<close>

definition slice :: "jstring \<Rightarrow> nat \<Rightarrow> nat \<Rightarrow> jstring" where
  "slice s a b = take (b - a) (drop a s)"

text \<open>\<open>s.split(c)\<close> for a single character; an empty text gives one empty part.\<close>

fun split_on :: "nat \<Rightarrow> jstring \<Rightarrow> jstring list" where
  "split_on c [] = [[]]"
| "split_on c (u # s) =
     (if u = c then [] # split_on c s
      else (case split_on c s of [] \<Rightarrow> [[u]] | p # ps \<Rightarrow> (u # p) # ps))"

fun join :: "jstring \<Rightarrow> jstring list \<Rightarrow> jstring" where
  "join sep [] = []"
| "join sep [p] = p"
| "join sep (p # q # ps) = p @ sep @ join sep (q # ps)"

definition starts_with :: "jstring \<Rightarrow> jstring \<Rightarrow> bool" where
  "starts_with s p \<longleftrightarrow> take (length p) s = p"

fun text_includes :: "jstring \<Rightarrow> jstring \<Rightarrow> bool" where
  "text_includes [] p \<longleftrightarrow> p = []"
| "text_includes (u # s) p \<longleftrightarrow> starts_with (u # s) p \<or> text_includes s p"

text \<open>
  \<open>s.indexOf(p, from)\<close>; \<open>None\<close> is the code's -1. A position beyond the end counts as the end,
  where the empty text is found.
\<close>

fun index_from :: "jstring \<Rightarrow> jstring \<Rightarrow> nat option" where
  "index_from [] p = (if p = [] then Some 0 else None)"
| "index_from (u # s) p =
     (if starts_with (u # s) p then Some 0 else map_option Suc (index_from s p))"

definition index_of :: "jstring \<Rightarrow> jstring \<Rightarrow> nat \<Rightarrow> nat option" where
  "index_of s p from =
     map_option (\<lambda>i. min from (length s) + i) (index_from (drop (min from (length s)) s) p)"

section \<open>Facts\<close>

lemma split_on_not_Nil [simp]: "split_on c s \<noteq> []"
  by (induction s) (auto split: list.splits)

lemma starts_with_prefix: "starts_with s p \<longleftrightarrow> prefix p s"
  by (auto simp: starts_with_def prefix_def) (metis append_take_drop_id)

lemma text_includes_sublist: "text_includes s p \<longleftrightarrow> sublist p s"
  by (induction s) (auto simp: starts_with_prefix sublist_Cons_right)

lemma slice_empty [simp]: "slice s a a = []"
  by (simp add: slice_def)

lemma slice_append: "a \<le> b \<Longrightarrow> b \<le> c \<Longrightarrow> slice s a b @ slice s b c = slice s a c"
proof -
  assume ab: "a \<le> b" and bc: "b \<le> c"
  have "take (b - a) (drop a s) @ take (c - b) (drop (b - a) (drop a s)) = take (c - a) (drop a s)"
    using take_drop_split [of "b - a" "c - a" "drop a s"] ab bc by simp
  with ab show ?thesis by (simp add: slice_def)
qed

lemma slice_full: "slice s 0 (length s) = s"
  by (simp add: slice_def)

lemma length_slice: "b \<le> length s \<Longrightarrow> length (slice s a b) = b - a"
  by (simp add: slice_def)

lemma index_from_Some:
  "index_from s p = Some i \<Longrightarrow> starts_with (drop i s) p \<and> i + length p \<le> length s"
proof (induction s arbitrary: i)
  case (Cons u s)
  show ?case
  proof (cases "starts_with (u # s) p")
    case True
    with Cons.prems show ?thesis
      by (auto simp: starts_with_prefix dest: prefix_length_le)
  next
    case False
    with Cons show ?thesis by auto
  qed
qed (auto simp: starts_with_def split: if_splits)

lemma index_of_Some:
  assumes "index_of s p from = Some i"
  shows "min from (length s) \<le> i \<and> i + length p \<le> length s"
proof -
  let ?f = "min from (length s)"
  obtain k where k: "index_from (drop ?f s) p = Some k" "i = ?f + k"
    using assms by (auto simp: index_of_def)
  then have "k + length p \<le> length s - ?f" using index_from_Some by fastforce
  with k show ?thesis by simp
qed

lemma index_of_empty: "index_of s [] from = Some (min from (length s))"
proof -
  have "index_from t [] = Some 0" for t by (cases t) (simp_all add: starts_with_def)
  then show ?thesis by (simp add: index_of_def)
qed

lemma index_of_first:
  assumes "c \<notin> set s"
  shows "index_of (s @ c # t) [c] 0 = Some (length s)"
proof -
  have "index_from (s @ c # t) [c] = Some (length s)"
    using assms by (induction s) (auto simp: starts_with_def)
  then show ?thesis by (simp add: index_of_def)
qed

lemma index_of_None_iff: "index_of s p 0 = None \<longleftrightarrow> \<not> text_includes s p"
proof -
  have "index_from s p = None \<longleftrightarrow> \<not> text_includes s p"
    by (induction s) auto
  then show ?thesis by (simp add: index_of_def)
qed

lemma js_trim_idem_ends:
  "js_trim s \<noteq> [] \<Longrightarrow> \<not> js_space (hd (js_trim s)) \<and> \<not> js_space (last (js_trim s))"
proof -
  assume ne: "js_trim s \<noteq> []"
  let ?d = "dropWhile js_space s"
  have d_ne: "?d \<noteq> []"
  proof
    assume "?d = []"
    then have "js_trim s = []" by (simp only: js_trim_def rev.simps dropWhile.simps)
    with ne show False ..
  qed
  have head: "\<not> js_space (hd ?d)" using d_ne by (rule hd_dropWhile)
  have back_ne: "dropWhile js_space (rev ?d) \<noteq> []"
    using ne unfolding js_trim_def by (simp only: rev_is_Nil_conv not_False_eq_True)
  have last: "\<not> js_space (last (js_trim s))"
    using hd_dropWhile [OF back_ne] back_ne unfolding js_trim_def by (simp only: last_rev simp_thms)
  obtain ws where split: "?d = js_trim s @ ws"
    by (metis js_trim_def rev_append rev_rev_ident takeWhile_dropWhile_id)
  from split ne have "hd ?d = hd (js_trim s)" by simp
  with head last show ?thesis by simp
qed

lemma js_trim_sublist: "sublist (js_trim s) s"
proof -
  have "suffix (dropWhile js_space s) s" by (rule suffix_dropWhile)
  moreover have "prefix (js_trim s) (dropWhile js_space s)"
    unfolding js_trim_def
    by (metis rev_rev_ident suffix_dropWhile suffix_to_prefix)
  ultimately show ?thesis
    by (meson prefix_imp_sublist sublist_order.order_trans suffix_imp_sublist)
qed

lemma set_js_trim: "set (js_trim s) \<subseteq> set s"
  by (rule set_mono_sublist) (rule js_trim_sublist)

lemma js_trim_id:
  "s \<noteq> [] \<Longrightarrow> \<not> js_space (hd s) \<Longrightarrow> \<not> js_space (last s) \<Longrightarrow> js_trim s = s"
proof -
  assume ne: "s \<noteq> []" and h: "\<not> js_space (hd s)" and l: "\<not> js_space (last s)"
  from ne h have "dropWhile js_space s = s" by (cases s) auto
  moreover from ne l have "dropWhile js_space (rev s) = rev s"
    by (cases "rev s") (auto simp: last_rev [of "rev s", simplified])
  ultimately show ?thesis by (simp add: js_trim_def)
qed

lemma js_trim_Nil [simp]: "js_trim [] = []"
  by (simp add: js_trim_def)

lemma join_append:
  "ps \<noteq> [] \<Longrightarrow> qs \<noteq> [] \<Longrightarrow> join sep (ps @ qs) = join sep ps @ sep @ join sep qs"
proof (induction sep ps rule: join.induct)
  case (2 sep p)
  then show ?case by (cases qs) auto
qed auto

lemma split_on_append_sep: "split_on c (s @ c # t) = split_on c s @ split_on c t"
  by (induction s) (auto split: list.splits)

lemma split_on_no_sep: "c \<notin> set s \<Longrightarrow> split_on c s = [s]"
  by (induction s) auto

lemma join_split_on: "join [c] (split_on c s) = s"
proof (induction s)
  case (Cons u s)
  then show ?case
    by (cases "split_on c s") (auto split: list.splits, (cases "tl (split_on c s)"; simp)+)
qed simp

lemma sublist_split_on: "p \<in> set (split_on c s) \<Longrightarrow> sublist p s"
proof (induction s arbitrary: p)
  case (Cons u s)
  show ?case
  proof (cases "u = c")
    case True
    with Cons show ?thesis by (auto simp: sublist_Cons_right)
  next
    case False
    obtain q qs where qs: "split_on c s = q # qs"
      by (meson neq_Nil_conv split_on_not_Nil)
    have "prefix q s"
      using join_split_on [of c s] qs by (cases qs) (auto simp: prefix_def)
    with Cons qs False show ?thesis
      by (auto simp: sublist_Cons_right)
  qed
qed simp

end
