(* ===== verification/Search.thy ===== *)
theory Search
  imports JsText
begin

text \<open>
  The library's search (\<open>web/src/app/core/search.ts\<close>): the fold of a text, the search terms
  of a text with catalogue numbers and keys written one way, the stored search text, and
  matching. The Unicode data behind \<open>normalize('NFKD')\<close>, \<open>toLowerCase\<close>, \<open>\p{L}\<close>, \<open>\p{N}\<close>
  and \<open>\p{M}\<close> is the record \<open>unicode\<close>, an argument of every definition that reads it; what a
  property needs of it is a named hypothesis (\<open>ascii_ok\<close>, \<open>unicode_stable\<close>).
\<close>

section \<open>Unicode data\<close>

record unicode =
  is_letter :: "nat \<Rightarrow> bool"
  is_number :: "nat \<Rightarrow> bool"
  is_mark :: "nat \<Rightarrow> bool"
  nfkd :: "nat list \<Rightarrow> nat list"
  lower :: "nat list \<Rightarrow> nat list"

definition searchable :: "unicode \<Rightarrow> nat \<Rightarrow> bool" where  \<comment> \<open>\<open>[\p{L}\p{N}]\<close>\<close>
  "searchable U c \<longleftrightarrow> is_letter U c \<or> is_number U c"

definition word_char :: "unicode \<Rightarrow> nat \<Rightarrow> bool" where  \<comment> \<open>\<open>[\p{L}\p{N}\p{M}]\<close>\<close>
  "word_char U c \<longleftrightarrow> is_letter U c \<or> is_number U c \<or> is_mark U c"

section \<open>The fold\<close>

definition LEFTOVERS :: "(nat \<times> nat list) list" where
  "LEFTOVERS =
    [(248, js ''o''), (322, js ''l''), (223, js ''ss''), (230, js ''ae''), (339, js ''oe''),
     (273, js ''d''), (240, js ''d''), (254, js ''th''), (305, js ''i''), (962, [963]),
     (9839, js '' sharp ''), (35, js '' sharp ''), (9837, js '' flat '')]"

definition leftover :: "nat \<Rightarrow> nat list" where
  "leftover c = nullish (map_of LEFTOVERS c) [c]"

text \<open>\<open>.replace(/[nN][\<degree>\<ordmasculine>]/gu, 'no ')\<close>\<close>

definition degree_pair :: "nat \<Rightarrow> nat \<Rightarrow> bool" where
  "degree_pair n d \<longleftrightarrow> (n = 110 \<or> n = 78) \<and> (d = 176 \<or> d = 186)"

fun degree_no :: "nat list \<Rightarrow> nat list" where
  "degree_no (n # d # cs) =
     (if degree_pair n d then js ''no '' @ degree_no cs else n # degree_no (d # cs))"
| "degree_no cs = cs"

definition normalize_letters :: "unicode \<Rightarrow> nat list \<Rightarrow> nat list" where
  "normalize_letters U cs = concat (map leftover (lower U (nfkd U (degree_no cs))))"

text \<open>\<open>.replace(/[^\p{L}\p{N}]+/gu, ' ')\<close>: every run of other characters is one space.\<close>

function squash :: "(nat \<Rightarrow> bool) \<Rightarrow> nat list \<Rightarrow> nat list" where
  "squash P [] = []"
| "squash P (c # cs) =
     (if P c then c # squash P cs else 32 # squash P (dropWhile (\<lambda>d. \<not> P d) cs))"
  by pat_completeness auto
termination
  by (relation "measure (\<lambda>(P, cs). length cs)") auto

definition fold_letters_points :: "unicode \<Rightarrow> nat list \<Rightarrow> nat list" where
  "fold_letters_points U cs =
     squash (searchable U) (filter (\<lambda>c. \<not> is_mark U c) (normalize_letters U cs))"

definition foldLetters :: "unicode \<Rightarrow> jstring \<Rightarrow> jstring" where
  "foldLetters U text = from_code_points (fold_letters_points U (code_points text))"

definition fold_text :: "unicode \<Rightarrow> jstring \<Rightarrow> jstring" where
  "fold_text U text = js_trim (foldLetters U text)"

section \<open>The fold with offsets\<close>

record FoldedText =
  folded :: jstring
  starts :: "nat list"
  ends :: "nat list"

text \<open>The letter a text starts with: \<open>n\<degree>\<close> as one, a surrogate pair as one.\<close>

definition next_letter :: "jstring \<Rightarrow> jstring" where
  "next_letter rest =
     (case rest of n # d # _ \<Rightarrow> if degree_pair n d then [n, d] else units_of (hd (code_points rest))
      | _ \<Rightarrow> units_of (hd (code_points rest)))"

definition fold_letter_step :: "unicode \<Rightarrow> nat \<Rightarrow> jstring \<Rightarrow> FoldedText \<Rightarrow> FoldedText" where
  "fold_letter_step U pos letter acc =
     (let end' = pos + length letter;
          f = foldLetters U letter;
          es = (if f = [] \<and> ends acc \<noteq> [] then butlast (ends acc) @ [end'] else ends acc)
      in \<lparr>folded = folded acc @ f,
          starts = starts acc @ replicate (length f) pos,
          ends = es @ replicate (length f) end'\<rparr>)"

function fold_offsets_loop :: "unicode \<Rightarrow> nat \<Rightarrow> jstring \<Rightarrow> FoldedText \<Rightarrow> FoldedText" where
  "fold_offsets_loop U pos [] acc = acc"
| "fold_offsets_loop U pos (u # us) acc =
     (let letter = next_letter (u # us)
      in fold_offsets_loop U (pos + length letter) (drop (length letter) (u # us))
           (fold_letter_step U pos letter acc))"
  by pat_completeness auto
termination
  by (relation "measure (\<lambda>(U, pos, rest, acc). length rest)")
     (auto simp: next_letter_def split: list.splits)

definition foldWithOffsets :: "unicode \<Rightarrow> jstring \<Rightarrow> FoldedText" where
  "foldWithOffsets U text = fold_offsets_loop U 0 text \<lparr>folded = [], starts = [], ends = []\<rparr>"

section \<open>Catalogue and key words\<close>

definition CATALOGUES :: "jstring \<Rightarrow> jstring option" where
  "CATALOGUES = map_of
    [(js ''op'', js ''op''), (js ''opus'', js ''op''), (js ''no'', js ''no''), (js ''nr'', js ''no''),
     (js ''bwv'', js ''bwv''), (js ''k'', js ''k''), (js ''kv'', js ''k''), (js ''hob'', js ''hob''),
     (js ''d'', js ''d''), (js ''l'', js ''l''), (js ''s'', js ''s''), (js ''hwv'', js ''hwv''),
     (js ''rv'', js ''rv''), (js ''bb'', js ''bb''), (js ''woo'', js ''woo''), (js ''sz'', js ''sz'')]"

definition GERMAN_KEYS :: "jstring \<Rightarrow> jstring option" where
  "GERMAN_KEYS = map_of
    [(js ''c'', js ''c''), (js ''d'', js ''d''), (js ''e'', js ''e''), (js ''f'', js ''f''),
     (js ''g'', js ''g''), (js ''a'', js ''a''), (js ''h'', js ''b''), (js ''b'', js ''b flat''),
     (js ''cis'', js ''c sharp''), (js ''dis'', js ''d sharp''), (js ''eis'', js ''e sharp''),
     (js ''fis'', js ''f sharp''), (js ''gis'', js ''g sharp''), (js ''ais'', js ''a sharp''),
     (js ''his'', js ''b sharp''), (js ''ces'', js ''c flat''), (js ''des'', js ''d flat''),
     (js ''es'', js ''e flat''), (js ''fes'', js ''f flat''), (js ''ges'', js ''g flat''),
     (js ''as'', js ''a flat'')]"

definition GERMAN_MODES :: "jstring \<Rightarrow> jstring option" where
  "GERMAN_MODES = map_of [(js ''dur'', js ''major''), (js ''moll'', js ''minor'')]"

definition CATALOGUE_NUMBER :: "jstring \<Rightarrow> bool" where  \<comment> \<open>\<open>/^[0-9]+[a-z]?$/\<close>\<close>
  "CATALOGUE_NUMBER w \<longleftrightarrow>
     takeWhile is_digit w \<noteq> [] \<and>
     (case dropWhile is_digit w of [] \<Rightarrow> True | [c] \<Rightarrow> is_az c | _ \<Rightarrow> False)"

definition GLUED_CATALOGUE :: "jstring \<Rightarrow> (jstring \<times> jstring) option" where
  \<comment> \<open>\<open>/^([a-z]+)([0-9]+[a-z]?)$/\<close> and its two groups\<close>
  "GLUED_CATALOGUE w =
     (let head = takeWhile is_az w; number = dropWhile is_az w
      in if head \<noteq> [] \<and> CATALOGUE_NUMBER number then Some (head, number) else None)"

definition OPUS_PART :: "jstring \<Rightarrow> bool" where  \<comment> \<open>\<open>/^[0-9]{1,3}$/\<close>\<close>
  "OPUS_PART w \<longleftrightarrow> 1 \<le> length w \<and> length w \<le> 3 \<and> list_all is_digit w"

definition ROMAN_NUMERAL :: "jstring \<Rightarrow> bool" where  \<comment> \<open>\<open>/^[ivxl]+$/\<close>\<close>
  "ROMAN_NUMERAL w \<longleftrightarrow> w \<noteq> [] \<and> list_all (\<lambda>c. c \<in> set (js ''ivxl'')) w"

definition note_letter :: "nat \<Rightarrow> bool" where  \<comment> \<open>\<open>[a-g]\<close>\<close>
  "note_letter c \<longleftrightarrow> 97 \<le> c \<and> c \<le> 103"

definition ENGLISH_FLAT :: "jstring \<Rightarrow> bool" where  \<comment> \<open>\<open>/^[a-g]b$/\<close>\<close>
  "ENGLISH_FLAT w \<longleftrightarrow> (case w of [c, b] \<Rightarrow> note_letter c \<and> b = 98 | _ \<Rightarrow> False)"

definition single_note :: "jstring \<Rightarrow> bool" where  \<comment> \<open>\<open>/^[a-g]$/\<close>\<close>
  "single_note w \<longleftrightarrow> (case w of [c] \<Rightarrow> note_letter c | _ \<Rightarrow> False)"

definition shortCatalogue :: "jstring \<Rightarrow> bool" where
  "shortCatalogue w \<longleftrightarrow> w \<in> set [js ''s'', js ''d'', js ''l'']"

definition key_mode :: "jstring \<Rightarrow> bool" where
  "key_mode w \<longleftrightarrow> w = js ''major'' \<or> w = js ''minor''"

definition accidental :: "jstring \<Rightarrow> bool" where
  "accidental w \<longleftrightarrow> w = js ''sharp'' \<or> w = js ''flat''"

section \<open>The words of a text\<close>

text \<open>
  Every match of \<open>/[\p{L}\p{N}\p{M}]+/gu\<close>, with the text before and after it.
\<close>

function word_matches ::
  "(nat \<Rightarrow> bool) \<Rightarrow> nat list \<Rightarrow> nat list \<Rightarrow> (nat list \<times> nat list \<times> nat list) list" where
  "word_matches W pre [] = []"
| "word_matches W pre (c # cs) =
     (if W c
      then (let run = c # takeWhile W cs; rest = dropWhile W cs
            in (pre, run, rest) # word_matches W (pre @ run) rest)
      else word_matches W (pre @ [c]) cs)"
  by pat_completeness auto
termination
  by (relation "measure (\<lambda>(W, pre, cs). length cs)") auto

text \<open>A word as its catalogue and number when glued, each with whether a short catalogue
  name may stand there.\<close>

definition split_glued :: "jstring \<Rightarrow> bool \<Rightarrow> (jstring \<times> bool) list" where
  "split_glued word allowed =
     (case GLUED_CATALOGUE word of
        Some (head, number) \<Rightarrow>
          (if CATALOGUES head \<noteq> None \<and> (\<not> shortCatalogue head \<or> allowed)
           then [(head, allowed), (number, False)] else [(word, allowed)])
      | None \<Rightarrow> [(word, allowed)])"

definition match_words :: "unicode \<Rightarrow> nat list \<times> nat list \<times> nat list \<Rightarrow> (jstring \<times> bool) list" where
  "match_words U m =
     (case m of (pre, run, rest) \<Rightarrow>
        split_glued (fold_text U (from_code_points run))
          (js_trim pre = [] \<or> starts_with rest (js ''.'')))"

definition catalogue_words :: "unicode \<Rightarrow> jstring \<Rightarrow> (jstring \<times> bool) list" where
  "catalogue_words U text =
     concat (map (match_words U)
       (word_matches (word_char U) [] (normalize_letters U (code_points text))))"

section \<open>Search terms\<close>

text \<open>\<open>words[i] ?? ''\<close> among the words after the current one.\<close>

definition word_at :: "(jstring \<times> bool) list \<Rightarrow> nat \<Rightarrow> jstring" where
  "word_at ws i = (if i < length ws then fst (ws ! i) else [])"

text \<open>One turn of the loop: the terms it pushes and how many further words it consumes.\<close>

definition catalogue_step ::
  "bool \<Rightarrow> jstring \<Rightarrow> bool \<Rightarrow> (jstring \<times> bool) list \<Rightarrow> jstring list \<times> nat" where
  "catalogue_step opusParts word allowed ws =
     (let next' = word_at ws 0;
          third = word_at ws 1;
          catalogue = (if shortCatalogue word \<and> \<not> allowed then None else CATALOGUES word)
      in if catalogue = Some (js ''hob'') \<and> ROMAN_NUMERAL next' \<and> CATALOGUE_NUMBER third
         then ([js ''hob'' @ next' @ third], 2)
         else if catalogue \<noteq> None \<and> CATALOGUE_NUMBER next'
         then (if opusParts \<and> catalogue = Some (js ''op'') \<and> OPUS_PART third
               then ([the catalogue @ next', js ''no'' @ third], 2)
               else ([the catalogue @ next'], 1))
         else if GERMAN_KEYS word \<noteq> None \<and> GERMAN_MODES next' \<noteq> None
         then ([filter (\<lambda>c. c \<noteq> 32) (the (GERMAN_KEYS word)) @ the (GERMAN_MODES next')], 1)
         else if ENGLISH_FLAT word
         then (if key_mode next' then ([take 1 word @ js ''flat'' @ next'], 1)
               else ([take 1 word @ js ''flat''], 0))
         else if single_note word \<and> accidental next'
         then (if third = js ''m'' then ([word @ next' @ js ''minor''], 2)
               else if key_mode third then ([word @ next' @ third], 2)
               else ([word @ next'], 1))
         else if single_note word \<and> key_mode next' then ([word @ next'], 1)
         else ([word], 0))"

function catalogue_loop :: "bool \<Rightarrow> (jstring \<times> bool) list \<Rightarrow> jstring list" where
  "catalogue_loop opusParts [] = []"
| "catalogue_loop opusParts ((word, allowed) # ws) =
     (let (terms, extra) = catalogue_step opusParts word allowed ws
      in terms @ catalogue_loop opusParts (drop extra ws))"
  by pat_completeness auto
termination
  by (relation "measure (\<lambda>(p, ws). length ws)") auto

definition catalogueTerms :: "unicode \<Rightarrow> jstring \<Rightarrow> bool \<Rightarrow> jstring list" where
  "catalogueTerms U text opusParts = catalogue_loop opusParts (catalogue_words U text)"

definition searchTerms :: "unicode \<Rightarrow> jstring \<Rightarrow> jstring list" where
  "searchTerms U text = catalogueTerms U text False"

section \<open>The stored search text\<close>

definition add_term :: "jstring \<Rightarrow> jstring \<times> jstring set \<Rightarrow> jstring \<times> jstring set" where
  "add_term term acc =
     (case acc of (index, seen) \<Rightarrow>
        if term \<in> seen then (index, seen)
        else (index @ (if index = [] then [] else js '' '') @ term, insert term seen))"

definition searchIndex :: "unicode \<Rightarrow> jstring list \<Rightarrow> jstring" where
  "searchIndex U texts =
     (let index = join (js '' '') (filter (\<lambda>f. f \<noteq> []) (map (fold_text U) texts));
          terms = concat (map (\<lambda>t. catalogueTerms U t True) texts)
      in fst (fold add_term terms (index, set (split_on 32 index))))"

section \<open>Matching\<close>

definition key_tails :: "jstring list" where
  "key_tails = [js ''major'', js ''minor'', js ''sharpmajor'', js ''sharpminor'',
     js ''flatmajor'', js ''flatminor'', js ''sharp'', js ''flat'']"

definition isKeyTerm :: "jstring \<Rightarrow> bool" where
  "isKeyTerm term \<longleftrightarrow> (case term of [] \<Rightarrow> False | c # rest \<Rightarrow> note_letter c \<and> rest \<in> set key_tails)"

definition ends_with_mode :: "jstring \<Rightarrow> bool" where  \<comment> \<open>\<open>/(?:major|minor)$/\<close>\<close>
  "ends_with_mode term \<longleftrightarrow>
     drop (length term - 5) term = js ''major'' \<or> drop (length term - 5) term = js ''minor''"

definition matchesSearchTerm :: "jstring \<Rightarrow> jstring \<Rightarrow> bool" where
  "matchesSearchTerm index term =
     (if \<not> isKeyTerm term then text_includes index term
      else list_ex (\<lambda>word. word = term \<or> \<not> ends_with_mode term \<and> starts_with word term)
             (split_on 32 index))"

definition exactTermRank :: "jstring \<Rightarrow> jstring list \<Rightarrow> nat" where
  "exactTermRank index terms =
     length (filter (\<lambda>term. term \<notin> set (split_on 32 index)) terms)"

section \<open>What the properties need of the Unicode data\<close>

definition scalar :: "nat \<Rightarrow> bool" where
  "scalar c \<longleftrightarrow> c < 55296 \<or> (57344 \<le> c \<and> c < 1114112)"

text \<open>
  Word characters are scalar values, white space is no letter or number, and normalised
  words are in normal form: normalising a run of word characters of a normalised text
  again changes nothing (NFKD and lower case are idempotent and closed under substrings).
\<close>

definition unicode_stable :: "unicode \<Rightarrow> bool" where
  "unicode_stable U \<longleftrightarrow>
     (\<forall>c. word_char U c \<longrightarrow> scalar c) \<and>
     (\<forall>c. js_space c \<longrightarrow> \<not> searchable U c) \<and>
     (\<forall>cs r. sublist r (normalize_letters U cs) \<longrightarrow> (\<forall>c \<in> set r. word_char U c) \<longrightarrow>
        normalize_letters U r = r)"

definition ascii_lower :: "nat \<Rightarrow> nat" where
  "ascii_lower c = (if is_upper_az c then c + 32 else c)"

text \<open>On ASCII texts: letters and digits as usual, no marks, NFKD the identity.\<close>

definition ascii_ok :: "unicode \<Rightarrow> bool" where
  "ascii_ok U \<longleftrightarrow>
     (\<forall>c < 128. (is_letter U c \<longleftrightarrow> is_az c \<or> is_upper_az c) \<and> (is_number U c \<longleftrightarrow> is_digit c) \<and>
        \<not> is_mark U c) \<and>
     (\<forall>s. (\<forall>c \<in> set s. c < 128) \<longrightarrow> nfkd U s = s \<and> lower U s = map ascii_lower s)"

section \<open>Facts about the fold\<close>

lemma surrogates_not_space: "55296 \<le> u \<Longrightarrow> u < 57344 \<Longrightarrow> \<not> js_space u"
  by (auto simp: js_space_def)

lemma set_squash: "set (squash P cs) \<subseteq> insert 32 {c \<in> set cs. P c}"
  by (induction P cs rule: squash.induct) (auto dest: set_dropWhileD)

lemma squash_all [simp]: "\<forall>c \<in> set cs. P c \<Longrightarrow> squash P cs = cs"
  by (induction P cs rule: squash.induct) auto

lemma dropWhile_not_append:
  "t \<noteq> [] \<Longrightarrow> P (hd t) \<Longrightarrow>
   dropWhile (\<lambda>d. \<not> P d) (cs @ t) = dropWhile (\<lambda>d. \<not> P d) cs @ t"
  by (induction cs) (cases t; auto)+

lemma squash_append:
  assumes "t \<noteq> []" and "\<forall>c \<in> set t. P c"
  shows "squash P (a @ t @ b) = squash P a @ t @ squash P b"
proof -
  have block: "squash P (t @ b) = t @ squash P b"
    using assms(2) by (induction t) auto
  have hd: "P (hd (t @ b))" using assms by simp
  show ?thesis using block hd assms
  proof (induction P a rule: squash.induct)
    case (2 P c cs)
    then show ?case by (auto simp: dropWhile_not_append)
  qed simp
qed

section \<open>Words of an index\<close>

text \<open>A text standing as a word: at the ends or between spaces.\<close>

definition word_of :: "jstring \<Rightarrow> jstring \<Rightarrow> bool" where
  "word_of t s \<longleftrightarrow>
     (\<exists>pre post. s = pre @ t @ post \<and> (pre = [] \<or> last pre = 32) \<and> (post = [] \<or> hd post = 32))"

lemma word_of_in_split:
  assumes "32 \<notin> set t" and "word_of t s"
  shows "t \<in> set (split_on 32 s)"
proof -
  obtain pre post where s: "s = pre @ t @ post"
    and pre: "pre = [] \<or> last pre = 32" and post: "post = [] \<or> hd post = 32"
    using assms(2) by (auto simp: word_of_def)
  have tail: "t \<in> set (split_on 32 (t @ post))"
  proof (cases post)
    case Nil
    then show ?thesis using assms(1) by (simp add: split_on_no_sep)
  next
    case (Cons c cs)
    then show ?thesis using post assms(1) by (simp add: split_on_append_sep split_on_no_sep)
  qed
  show ?thesis
  proof (cases pre rule: rev_cases)
    case Nil
    then show ?thesis using s tail by simp
  next
    case (snoc ps c)
    then have "s = ps @ 32 # (t @ post)" using s pre by simp
    then show ?thesis using tail by (simp only: split_on_append_sep) simp
  qed
qed

lemma split_on_word_of: "t \<in> set (split_on 32 s) \<Longrightarrow> word_of t s"
proof -
  assume "t \<in> set (split_on 32 s)"
  then obtain ps qs where split: "split_on 32 s = ps @ t # qs"
    by (meson split_list)
  have s: "s = join [32] (ps @ t # qs)"
    using join_split_on [of 32 s] split by simp
  define post where "post = (if qs = [] then [] else 32 # join [32] qs)"
  have tail: "join [32] (t # qs) = t @ post"
    by (cases qs) (simp_all add: post_def)
  define pre where "pre = (if ps = [] then [] else join [32] ps @ [32])"
  have "s = pre @ t @ post"
    using s tail join_append [of ps "t # qs" "[32]"] by (auto simp: pre_def)
  then show ?thesis unfolding word_of_def
    by (intro exI [of _ pre] exI [of _ post]) (auto simp: pre_def post_def)
qed

lemma word_of_append:
  assumes "word_of t s" and "t \<noteq> []" and "rest = [] \<or> hd rest = 32"
  shows "word_of t (s @ rest)"
proof -
  obtain pre post where s: "s = pre @ t @ post" "pre = [] \<or> last pre = 32" "post = [] \<or> hd post = 32"
    using assms(1) by (auto simp: word_of_def)
  then show ?thesis unfolding word_of_def
    using assms(3) by (intro exI [of _ pre] exI [of _ "post @ rest"]) (cases post; auto)
qed

lemma word_of_includes: "word_of t s \<Longrightarrow> text_includes s t"
  by (auto simp: word_of_def text_includes_sublist sublist_def)

text \<open>Adding terms keeps the index as a prefix and makes every term a word of it.\<close>

lemma add_terms_prefix: "prefix (fst acc) (fst (fold add_term ts acc))"
proof (induction ts arbitrary: acc)
  case (Cons t ts)
  have "prefix (fst acc) (fst (add_term t acc))"
    by (auto simp: add_term_def split: prod.splits)
  also have "prefix \<dots> (fst (fold add_term (t # ts) acc))"
    using Cons by simp
  finally show ?case .
qed simp

definition seen_words :: "jstring \<times> jstring set \<Rightarrow> bool" where
  "seen_words acc \<longleftrightarrow> (\<forall>t \<in> snd acc. t \<noteq> [] \<longrightarrow> word_of t (fst acc))"

lemma add_term_seen_words: "seen_words acc \<Longrightarrow> seen_words (add_term t acc)"
proof -
  assume inv: "seen_words acc"
  obtain index seen where acc: "acc = (index, seen)" by fastforce
  show ?thesis
  proof (cases "t \<in> seen")
    case True
    with inv acc show ?thesis by (simp add: add_term_def)
  next
    case False
    let ?sep = "if index = [] then [] else js '' ''"
    have new: "word_of t (index @ ?sep @ t)"
      unfolding word_of_def by (intro exI [of _ "index @ ?sep"] exI [of _ "[]"]) (simp add: js_def)
    have old: "word_of w (index @ ?sep @ t)" if "w \<in> seen" "w \<noteq> []" for w
    proof -
      have w: "word_of w index" using inv acc that by (simp add: seen_words_def)
      then have "index \<noteq> []" using that(2) by (auto simp: word_of_def)
      with w that(2) show ?thesis
        by (intro word_of_append) (simp_all add: js_def)
    qed
    from False acc new old show ?thesis
      by (auto simp: add_term_def seen_words_def)
  qed
qed

lemma add_terms_seen_words: "seen_words acc \<Longrightarrow> seen_words (fold add_term ts acc)"
proof (induction ts arbitrary: acc)
  case (Cons t ts)
  then show ?case using add_term_seen_words [of acc t] by simp
qed simp

lemma add_terms_seen:
  "snd acc \<union> set ts \<subseteq> snd (fold add_term ts acc)"
proof (induction ts arbitrary: acc)
  case (Cons t ts)
  have "insert t (snd acc) \<subseteq> snd (add_term t acc)"
    by (auto simp: add_term_def split: prod.splits)
  with Cons [of "add_term t acc"] show ?case by auto
qed simp

lemma add_terms_word_of:
  "seen_words acc \<Longrightarrow> t \<in> set ts \<Longrightarrow> t \<noteq> [] \<Longrightarrow> word_of t (fst (fold add_term ts acc))"
  using add_terms_seen_words [of acc ts] add_terms_seen [of acc ts] by (auto simp: seen_words_def)

lemma searchIndex_word_of:
  assumes "text \<in> set texts" and "t \<in> set (catalogueTerms U text True)" and "t \<noteq> []"
  shows "word_of t (searchIndex U texts)"
  unfolding searchIndex_def Let_def
  by (rule add_terms_word_of)
     (use assms in \<open>auto simp: seen_words_def split_on_word_of\<close>)

lemma sublist_join: "p \<in> set ps \<Longrightarrow> sublist p (join sep ps)"
proof (induction sep ps rule: join.induct)
  case (3 sep p q ps)
  then show ?case by (auto simp: sublist_append intro: sublist_order.order_trans)
qed auto

lemma searchIndex_fold_sublist:
  assumes "text \<in> set texts"
  shows "sublist (fold_text U text) (searchIndex U texts)"
proof (cases "fold_text U text = []")
  case False
  let ?index = "join (js '' '') (filter (\<lambda>f. f \<noteq> []) (map (fold_text U) texts))"
  have "sublist (fold_text U text) ?index"
    using assms False by (intro sublist_join) auto
  also have "sublist ?index (searchIndex U texts)"
    unfolding searchIndex_def Let_def
    using add_terms_prefix [of "(?index, set (split_on 32 ?index))"] by (simp add: prefix_imp_sublist)
  finally show ?thesis .
qed simp


section \<open>Words of a text\<close>

lemma word_matches_sound:
  "(p, r, q) \<in> set (word_matches W pre cs) \<Longrightarrow>
   pre @ cs = p @ r @ q \<and> r \<noteq> [] \<and> (\<forall>c \<in> set r. W c)"
proof (induction W pre cs rule: word_matches.induct)
  case (2 W pre c cs)
  show ?case
  proof (cases "W c")
    case True
    from "2.prems" True consider (here) "(p, r, q) = (pre, c # takeWhile W cs, dropWhile W cs)"
      | (later) "(p, r, q) \<in> set (word_matches W (pre @ c # takeWhile W cs) (dropWhile W cs))"
      by (auto simp: Let_def)
    then show ?thesis
    proof cases
      case here
      then show ?thesis using True by (auto dest: set_takeWhileD)
    next
      case later
      show ?thesis using "2.IH"(1) [OF True refl refl later] by simp
    qed
  next
    case False
    then show ?thesis using "2.IH"(2) "2.prems" by simp
  qed
qed simp

lemma word_matches_run:
  assumes "run \<noteq> []" and "\<forall>c \<in> set run. W c" and "rest = [] \<or> \<not> W (hd rest)"
  shows "word_matches W pre (run @ rest) = (pre, run, rest) # word_matches W (pre @ run) rest"
proof -
  obtain c cs where run: "run = c # cs" using assms(1) by (cases run) auto
  have stop: "takeWhile W rest = []" "dropWhile W rest = rest"
    using assms(3) by (cases rest; simp)+
  have "takeWhile W (cs @ rest) = cs" "dropWhile W (cs @ rest) = rest"
    using assms(2) run stop by (auto simp: takeWhile_append dropWhile_append)
  then show ?thesis using assms(2) run by (simp add: Let_def)
qed

lemma code_points_cons_single: "c < 55296 \<or> 57344 \<le> c \<Longrightarrow> code_points (c # us) = c # code_points us"
  by (cases us) (auto simp: high_surrogate_def)

lemma code_points_from_code_points:
  "\<forall>c \<in> set cs. scalar c \<Longrightarrow> code_points (from_code_points cs) = cs"
proof (induction cs)
  case (Cons c cs)
  then have IH: "code_points (from_code_points cs) = cs" and c: "scalar c" by auto
  show ?case
  proof (cases "c < 65536")
    case True
    then show ?thesis using IH c by (auto simp: scalar_def code_points_cons_single)
  next
    case False
    define d where "d = c - 65536"
    have d: "c = d + 65536" "d < 1048576"
      using False c by (auto simp: d_def scalar_def)
    have hi: "high_surrogate (55296 + d div 1024)" using d(2) by (auto simp: high_surrogate_def)
    have lo: "low_surrogate (56320 + d mod 1024)" by (auto simp: low_surrogate_def)
    have "units_of c = [55296 + d div 1024, 56320 + d mod 1024]"
      using d by (simp add: units_of_def)
    then show ?thesis using IH hi lo d(1) by simp
  qed
qed simp

lemma units_of_not_space: "scalar c \<Longrightarrow> \<not> js_space c \<Longrightarrow> u \<in> set (units_of c) \<Longrightarrow> \<not> js_space u"
proof -
  assume c: "scalar c" and ns: "\<not> js_space c" and u: "u \<in> set (units_of c)"
  show ?thesis
  proof (cases "c < 65536")
    case True
    then show ?thesis using ns u by simp
  next
    case False
    then have "55296 \<le> u" "u < 57344"
      using c u by (auto simp: units_of_def scalar_def split: if_splits)
    then show ?thesis by (rule surrogates_not_space)
  qed
qed

lemma from_code_points_not_space:
  "\<forall>c \<in> set cs. scalar c \<and> \<not> js_space c \<Longrightarrow> u \<in> set (from_code_points cs) \<Longrightarrow> \<not> js_space u"
  by (induction cs) (auto dest: units_of_not_space)

lemma js_trim_no_space [simp]: "\<forall>c \<in> set s. \<not> js_space c \<Longrightarrow> js_trim s = s"
  by (cases "s = []") (auto intro!: js_trim_id)

lemma sublist_js_trim:
  assumes "x \<noteq> []" and "\<forall>c \<in> set x. \<not> js_space c" and "sublist x y"
  shows "sublist x (js_trim y)"
proof -
  obtain p q where y: "y = p @ x @ q" using assms(3) by (auto simp: sublist_def)
  have keep: "\<exists>p'. dropWhile js_space (p @ z @ q) = p' @ z @ q"
    if "z \<noteq> []" "\<not> js_space (hd z)" for p z q
    using that by (induction p) (cases z; auto)+
  obtain p' where p': "dropWhile js_space y = p' @ x @ q"
    using keep [of x p q] assms(1,2) y by auto
  obtain q' where q': "dropWhile js_space (rev q @ rev x @ rev p') = q' @ rev x @ rev p'"
    using keep [of "rev x" "rev q" "rev p'"] assms(1,2) by (auto simp: hd_rev)
  have "js_trim y = p' @ x @ rev q'"
    using p' q' by (simp add: js_trim_def)
  then show ?thesis by (auto simp: sublist_def)
qed

text \<open>A word of a text, folded, stands in the text's fold.\<close>

lemma word_match_fold_sublist:
  assumes U: "unicode_stable U"
    and m: "(p, run, q) \<in> set (word_matches (word_char U) [] (normalize_letters U (code_points text)))"
  shows "sublist (fold_text U (from_code_points run)) (fold_text U text)"
proof -
  let ?N = "normalize_letters U (code_points text)"
  let ?x = "filter (\<lambda>c. \<not> is_mark U c) run"
  have split: "?N = p @ run @ q" and chars: "\<forall>c \<in> set run. word_char U c"
    using word_matches_sound [OF m] by auto
  have scal: "\<forall>c \<in> set run. scalar c" using U chars by (auto simp: unicode_stable_def)
  have "normalize_letters U run = run"
    using U chars split unfolding unicode_stable_def by (metis sublist_appendI)
  moreover have srch: "\<forall>c \<in> set ?x. searchable U c"
    using chars by (auto simp: word_char_def searchable_def)
  ultimately have fold_run: "foldLetters U (from_code_points run) = from_code_points ?x"
    using scal by (simp add: foldLetters_def fold_letters_points_def code_points_from_code_points)
  have ok: "\<forall>c \<in> set ?x. scalar c \<and> \<not> js_space c"
    using scal srch U unfolding unicode_stable_def by (metis filter_is_subset subsetD)
  have nospace: "\<forall>c \<in> set (from_code_points ?x). \<not> js_space c"
    using from_code_points_not_space [OF ok] by blast
  show ?thesis
  proof (cases "?x = []")
    case True
    then show ?thesis using fold_run by (simp add: fold_text_def)
  next
    case False
    have "fold_letters_points U (code_points text) =
        squash (searchable U) (filter (\<lambda>c. \<not> is_mark U c) p) @ ?x @
        squash (searchable U) (filter (\<lambda>c. \<not> is_mark U c) q)"
      using split squash_append [OF False srch] by (simp add: fold_letters_points_def)
    then have "sublist (from_code_points ?x) (foldLetters U text)"
      by (auto simp: foldLetters_def sublist_def)
    moreover have "from_code_points ?x \<noteq> []"
      using False by (cases ?x) auto
    ultimately show ?thesis
      using nospace fold_run by (simp add: fold_text_def sublist_js_trim)
  qed
qed

lemma split_glued_sublist: "(t, b) \<in> set (split_glued word allowed) \<Longrightarrow> sublist t word"
proof -
  assume t: "(t, b) \<in> set (split_glued word allowed)"
  have "word = takeWhile is_az word @ dropWhile is_az word" by simp
  then have "sublist (takeWhile is_az word) word" "sublist (dropWhile is_az word) word"
    by (metis sublist_append_rightI, metis sublist_append_leftI)
  with t show ?thesis
    by (auto simp: split_glued_def GLUED_CATALOGUE_def Let_def split: if_splits)
qed

lemma catalogue_word_sublist:
  assumes "unicode_stable U" and "(t, b) \<in> set (catalogue_words U text)"
  shows "sublist t (fold_text U text)"
proof -
  from assms(2) obtain p run q where
    m: "(p, run, q) \<in> set (word_matches (word_char U) [] (normalize_letters U (code_points text)))"
    and t: "(t, b) \<in> set (match_words U (p, run, q))"
    by (auto simp: catalogue_words_def)
  from t have "sublist t (fold_text U (from_code_points run))"
    by (auto simp: match_words_def dest: split_glued_sublist)
  also have "sublist \<dots> (fold_text U text)"
    using assms(1) m by (rule word_match_fold_sublist)
  finally show ?thesis .
qed

section \<open>Search terms with and without opus parts\<close>

lemma OPUS_PART_digits: "OPUS_PART w \<Longrightarrow> \<exists>c cs. w = c # cs \<and> is_digit c"
  by (cases w) (auto simp: OPUS_PART_def)

lemma catalogue_step_digit:
  assumes "is_digit c"
  shows "catalogue_step p (c # cs) b ws = ([c # cs], 0)"
proof -
  have "c \<le> 57" using assms by (simp add: is_digit_def)
  then show ?thesis
    by (auto simp: catalogue_step_def CATALOGUES_def GERMAN_KEYS_def ENGLISH_FLAT_def
        single_note_def note_letter_def js_def split: list.splits)
qed

lemma catalogue_step_parts:
  "catalogue_step True word b ws = catalogue_step False word b ws \<or>
   (\<exists>t. OPUS_PART (word_at ws 1) \<and> catalogue_step False word b ws = ([t], 1) \<and>
      catalogue_step True word b ws = ([t, js ''no'' @ word_at ws 1], 2))"
  by (simp add: catalogue_step_def Let_def)

lemma OPUS_PART_word_at: "OPUS_PART (word_at ws i) \<Longrightarrow> i < length ws"
  by (auto simp: word_at_def OPUS_PART_def split: if_splits)

lemma catalogue_loop_parts:
  "t \<in> set (catalogue_loop False ws) \<Longrightarrow>
   t \<in> set (catalogue_loop True ws) \<or> (OPUS_PART t \<and> t \<in> fst ` set ws)"
proof (induction "length ws" arbitrary: ws rule: less_induct)
  case less
  show ?case
  proof (cases ws)
    case Nil
    with less.prems show ?thesis by simp
  next
    case (Cons w ws')
    obtain word b where w: "w = (word, b)" by fastforce
    have IH: "t \<in> set (catalogue_loop True (drop k ws')) \<or> (OPUS_PART t \<and> t \<in> fst ` set ws')"
      if "t \<in> set (catalogue_loop False (drop k ws'))" for k
    proof -
      have "fst ` set (drop k ws') \<subseteq> fst ` set ws'" by (intro image_mono set_drop_subset)
      then show ?thesis using less.hyps [OF _ that] Cons by auto
    qed
    consider (same) "catalogue_step True word b ws' = catalogue_step False word b ws'"
      | (part) u where "OPUS_PART (word_at ws' 1)" "catalogue_step False word b ws' = ([u], 1)"
          "catalogue_step True word b ws' = ([u, js ''no'' @ word_at ws' 1], 2)"
      using catalogue_step_parts by blast
    then show ?thesis
    proof cases
      case same
      then show ?thesis
        using less.prems Cons w IH by (auto split: prod.splits)
    next
      case part
      have len: "1 < length ws'" using part(1) by (rule OPUS_PART_word_at)
      obtain v b' where v: "ws' ! 1 = (v, b')" by fastforce
      have word1: "word_at ws' 1 = v" using len v by (simp add: word_at_def)
      have drop1: "drop 1 ws' = (v, b') # drop 2 ws'"
        using len v by (metis Cons_nth_drop_Suc Suc_1)
      obtain c cs where "v = c # cs" "is_digit c"
        using OPUS_PART_digits part(1) word1 by blast
      then have "catalogue_loop False (drop 1 ws') = v # catalogue_loop False (drop 2 ws')"
        unfolding drop1 by (simp add: catalogue_step_digit numeral_2_eq_2)
      then consider "t = u" | "t = v" | "t \<in> set (catalogue_loop False (drop 2 ws'))"
        using less.prems Cons w part(2) by auto
      then show ?thesis
      proof cases
        case 2
        have "v \<in> fst ` set ws'" using len v by (metis fst_conv image_eqI nth_mem)
        then show ?thesis using 2 part(1) word1 Cons by auto
      qed (use IH [of 2] Cons w part(3) in auto)
    qed
  qed
qed


lemma isKeyTerm_no_space: "isKeyTerm t \<Longrightarrow> 32 \<notin> set t \<and> t \<noteq> []"
proof (cases t)
  case (Cons c rest)
  assume "isKeyTerm t"
  then have "note_letter c" and rest: "rest \<in> set key_tails"
    using Cons by (simp_all add: isKeyTerm_def)
  moreover have "list_all (\<lambda>r. 32 \<notin> set r) key_tails" by code_simp
  then have "32 \<notin> set rest" using rest by (auto simp: list_all_iff)
  ultimately show ?thesis using Cons by (auto simp: note_letter_def)
qed (simp add: isKeyTerm_def)

lemma isKeyTerm_not_OPUS_PART: "isKeyTerm t \<Longrightarrow> \<not> OPUS_PART t"
  by (cases t) (auto simp: isKeyTerm_def OPUS_PART_def note_letter_def is_digit_def)

lemma matches_word: "t = [] \<or> word_of t index \<Longrightarrow> matchesSearchTerm index t"
proof -
  assume t: "t = [] \<or> word_of t index"
  show ?thesis
  proof (cases "isKeyTerm t")
    case True
    then have "32 \<notin> set t" "t \<noteq> []" by (simp_all add: isKeyTerm_no_space)
    then have "t \<in> set (split_on 32 index)" using t by (auto intro: word_of_in_split)
    with True show ?thesis by (auto simp: matchesSearchTerm_def list_ex_iff)
  next
    case False
    have "text_includes index t"
      using t by (auto simp: text_includes_sublist dest: word_of_includes)
    with False show ?thesis by (simp add: matchesSearchTerm_def)
  qed
qed

lemma text_terms_match:
  assumes "unicode_stable U" and "text \<in> set texts" and "t \<in> set (searchTerms U text)"
  shows "matchesSearchTerm (searchIndex U texts) t"
proof -
  have "t \<in> set (catalogueTerms U text True) \<or> (OPUS_PART t \<and> t \<in> fst ` set (catalogue_words U text))"
    using assms(3) catalogue_loop_parts by (simp add: searchTerms_def catalogueTerms_def)
  then show ?thesis
  proof
    assume "t \<in> set (catalogueTerms U text True)"
    then show ?thesis using assms(2) searchIndex_word_of by (blast intro: matches_word)
  next
    assume part: "OPUS_PART t \<and> t \<in> fst ` set (catalogue_words U text)"
    then obtain b where "(t, b) \<in> set (catalogue_words U text)" by auto
    then have "sublist t (fold_text U text)" using assms(1) by (rule catalogue_word_sublist [rotated])
    also have "sublist \<dots> (searchIndex U texts)" using assms(2) by (rule searchIndex_fold_sublist)
    finally have "text_includes (searchIndex U texts) t" by (simp add: text_includes_sublist)
    moreover have "\<not> isKeyTerm t" using part isKeyTerm_not_OPUS_PART by blast
    ultimately show ?thesis by (simp add: matchesSearchTerm_def)
  qed
qed

section \<open>ASCII texts\<close>

lemma ascii_okD:
  assumes "ascii_ok U"
  shows "c < 128 \<Longrightarrow> searchable U c \<longleftrightarrow> is_az c \<or> is_upper_az c \<or> is_digit c"
    and "c < 128 \<Longrightarrow> word_char U c \<longleftrightarrow> is_az c \<or> is_upper_az c \<or> is_digit c"
    and "c < 128 \<Longrightarrow> \<not> is_mark U c"
    and "\<forall>c \<in> set s. c < 128 \<Longrightarrow> nfkd U s = s"
    and "\<forall>c \<in> set s. c < 128 \<Longrightarrow> lower U s = map ascii_lower s"
  using assms by (auto simp: ascii_ok_def searchable_def word_char_def)

lemma degree_no_ascii [simp]: "\<forall>c \<in> set s. c < 128 \<Longrightarrow> degree_no s = s"
  by (induction s rule: degree_no.induct) (auto simp: degree_pair_def)

lemma leftover_ascii: "c < 128 \<Longrightarrow> c \<noteq> 35 \<Longrightarrow> leftover c = [c]"
  by (simp add: leftover_def LEFTOVERS_def)

lemma ascii_lower_simps [simp]:
  "is_az c \<Longrightarrow> ascii_lower c = c" "is_digit c \<Longrightarrow> ascii_lower c = c"
  "c < 65 \<Longrightarrow> ascii_lower c = c"
  by (auto simp: ascii_lower_def is_az_def is_digit_def is_upper_az_def)

lemma concat_map_single: "\<forall>c \<in> set cs. f c = [g c] \<Longrightarrow> concat (map f cs) = map g cs"
  by (induction cs) auto

lemma normalize_letters_ascii:
  assumes "ascii_ok U" and "\<forall>c \<in> set s. c < 128 \<and> c \<noteq> 35"
  shows "normalize_letters U s = map ascii_lower s"
proof -
  have "\<forall>c \<in> set s. leftover (ascii_lower c) = [ascii_lower c]"
    using assms(2) by (auto simp: ascii_lower_def is_upper_az_def intro!: leftover_ascii)
  then have "concat (map leftover (map ascii_lower s)) = map ascii_lower s"
    using concat_map_single [of s "\<lambda>c. leftover (ascii_lower c)" ascii_lower] by (simp add: comp_def)
  then show ?thesis
    using assms by (simp add: normalize_letters_def ascii_okD)
qed

definition ascii_word :: "nat list \<Rightarrow> bool" where
  "ascii_word w \<longleftrightarrow> w \<noteq> [] \<and> (\<forall>c \<in> set w. is_az c \<or> is_digit c)"

lemma ascii_word_chars:
  assumes "ascii_ok U" and "ascii_word w" and "c \<in> set w"
  shows "c < 128 \<and> c \<noteq> 35 \<and> ascii_lower c = c \<and> searchable U c \<and> word_char U c \<and> \<not> is_mark U c \<and>
    \<not> js_space c"
proof -
  have c: "is_az c \<or> is_digit c" using assms(2,3) by (auto simp: ascii_word_def)
  then have lt: "c < 128" "c \<noteq> 35" by (auto simp: is_az_def is_digit_def)
  then show ?thesis using c ascii_okD(1-3) [OF assms(1) lt(1)] by (auto simp: js_space_def is_az_def is_digit_def)
qed

lemma fold_text_ascii_word:
  assumes U: "ascii_ok U" and w: "ascii_word w"
  shows "fold_text U w = w"
proof -
  note chars = ascii_word_chars [OF U w]
  have plain: "plain_text w"
    using chars by (fastforce simp: plain_text_def)
  have "map ascii_lower w = w" using chars by (simp add: map_idI)
  then have "normalize_letters U w = w"
    using normalize_letters_ascii [OF U, of w] chars by simp
  then have "foldLetters U w = w"
    using plain chars by (simp add: foldLetters_def fold_letters_points_def)
  then show ?thesis using chars by (simp add: fold_text_def)
qed

lemma match_words_ascii:
  "ascii_ok U \<Longrightarrow> ascii_word run \<Longrightarrow>
   match_words U (pre, run, rest) = split_glued run (js_trim pre = [] \<or> starts_with rest (js ''.''))"
proof -
  assume U: "ascii_ok U" and w: "ascii_word run"
  have "plain_text run" using ascii_word_chars [OF U w] by (fastforce simp: plain_text_def)
  then show ?thesis using U w by (simp add: match_words_def fold_text_ascii_word)
qed

lemma word_matches_skip: "\<not> W c \<Longrightarrow> word_matches W pre (c # cs) = word_matches W (pre @ [c]) cs"
  by simp

lemma digits_word: "n \<noteq> [] \<Longrightarrow> list_all is_digit n \<Longrightarrow> ascii_word n"
  by (auto simp: ascii_word_def list_all_iff)

lemma while_all:
  "\<forall>x \<in> set xs. P x \<Longrightarrow> takeWhile P xs = xs" "\<forall>x \<in> set xs. P x \<Longrightarrow> dropWhile P xs = []"
  by (simp_all add: takeWhile_eq_all_conv)

lemma digits_number:
  assumes "n \<noteq> []" and "list_all is_digit n"
  shows "CATALOGUE_NUMBER n" and "takeWhile is_az n = []" and "dropWhile is_az n = n"
proof -
  show "CATALOGUE_NUMBER n"
    using assms by (simp add: CATALOGUE_NUMBER_def while_all list_all_iff)
  obtain c cs where "n = c # cs" "is_digit c" using assms by (cases n) auto
  then show "takeWhile is_az n = []" "dropWhile is_az n = n" by (auto simp: is_digit_def is_az_def)
qed

lemma split_glued_digits:
  "n \<noteq> [] \<Longrightarrow> list_all is_digit n \<Longrightarrow> split_glued n b = [(n, b)]"
  by (simp add: split_glued_def GLUED_CATALOGUE_def digits_number)

lemma split_glued_letters:
  "\<forall>c \<in> set w. is_az c \<Longrightarrow> split_glued w b = [(w, b)]"
  by (simp add: split_glued_def GLUED_CATALOGUE_def CATALOGUE_NUMBER_def while_all)

lemma split_glued_op:
  "n \<noteq> [] \<Longrightarrow> list_all is_digit n \<Longrightarrow> split_glued (js ''op'' @ n) b = [(js ''op'', b), (n, False)]"
  by (simp add: split_glued_def GLUED_CATALOGUE_def digits_number shortCatalogue_def CATALOGUES_def
      js_def is_az_def)

lemma catalogue_step_op:
  assumes "n \<noteq> []" and "list_all is_digit n"
  shows "catalogue_step p (js ''op'') b ((n, b') # ws) =
    (if p \<and> OPUS_PART (word_at ws 0) then ([js ''op'' @ n, js ''no'' @ word_at ws 0], 2)
     else ([js ''op'' @ n], 1))"
  using digits_number(1) [OF assms]
  by (simp add: catalogue_step_def word_at_def shortCatalogue_def CATALOGUES_def js_def Let_def)

lemma catalogue_step_no:
  assumes "n \<noteq> []" and "list_all is_digit n"
  shows "catalogue_step p (js ''no'') b ((n, b') # ws) = ([js ''no'' @ n], 1)"
  using digits_number(1) [OF assms]
  by (simp add: catalogue_step_def word_at_def shortCatalogue_def CATALOGUES_def js_def)

text \<open>The words of an ASCII text from a position on, run by run.\<close>

definition words_from :: "unicode \<Rightarrow> nat list \<Rightarrow> nat list \<Rightarrow> (jstring \<times> bool) list" where
  "words_from U pre cs = concat (map (match_words U) (word_matches (word_char U) pre cs))"

lemma words_from_Nil: "words_from U pre [] = []"
  by (simp add: words_from_def)

lemma words_from_skip: "\<not> word_char U c \<Longrightarrow> words_from U pre (c # cs) = words_from U (pre @ [c]) cs"
  by (simp add: words_from_def)

lemma words_from_run:
  assumes "ascii_ok U" and "ascii_word run" and "rest = [] \<or> \<not> word_char U (hd rest)"
  shows "words_from U pre (run @ rest) =
    split_glued run (js_trim pre = [] \<or> starts_with rest (js ''.'')) @ words_from U (pre @ run) rest"
proof -
  have "\<forall>c \<in> set run. word_char U c" using ascii_word_chars [OF assms(1,2)] by blast
  moreover have "run \<noteq> []" using assms(2) by (simp add: ascii_word_def)
  ultimately show ?thesis
    using assms by (simp add: words_from_def word_matches_run match_words_ascii)
qed

lemma catalogue_words_ascii:
  assumes U: "ascii_ok U" and s: "\<forall>c \<in> set s. c < 128 \<and> c \<noteq> 35"
  shows "catalogue_words U s = words_from U [] (map ascii_lower s)"
proof -
  have "plain_text s" using s by (fastforce simp: plain_text_def)
  then show ?thesis
    using normalize_letters_ascii [OF U s] by (simp add: catalogue_words_def words_from_def)
qed

section \<open>A concrete instance of the Unicode data\<close>

definition ascii_db :: unicode where
  "ascii_db = \<lparr>is_letter = \<lambda>c. is_az c \<or> is_upper_az c, is_number = is_digit,
     is_mark = \<lambda>c. 768 \<le> c \<and> c \<le> 879, nfkd = \<lambda>s. s, lower = map ascii_lower\<rparr>"

lemma ascii_db_simps:
  "is_letter ascii_db = (\<lambda>c. is_az c \<or> is_upper_az c)" "is_number ascii_db = is_digit"
  "is_mark ascii_db = (\<lambda>c. 768 \<le> c \<and> c \<le> 879)" "nfkd ascii_db = (\<lambda>s. s)"
  "lower ascii_db = map ascii_lower"
  by (simp_all add: ascii_db_def)

lemma ascii_db_ok: "ascii_ok ascii_db"
  by (auto simp: ascii_ok_def ascii_db_simps)

lemma degree_no_plain: "\<forall>c \<in> set s. c \<noteq> 176 \<and> c \<noteq> 186 \<Longrightarrow> degree_no s = s"
  by (induction s rule: degree_no.induct) (auto simp: degree_pair_def)

lemma leftover_other: "c \<notin> fst ` set LEFTOVERS \<Longrightarrow> leftover c = [c]"
  unfolding leftover_def by (metis map_of_eq_None_iff nullish_simps(1))

lemma leftover_not_upper: "\<not> is_upper_az c \<Longrightarrow> u \<in> set (leftover c) \<Longrightarrow> \<not> is_upper_az u"
proof (cases "c \<in> fst ` set LEFTOVERS")
  case True
  assume u: "u \<in> set (leftover c)"
  have "list_all (\<lambda>p. list_all (\<lambda>v. \<not> is_upper_az v) (leftover (fst p))) LEFTOVERS" by code_simp
  with True u show ?thesis by (auto simp: list_all_iff)
qed (simp add: leftover_other)

lemma ascii_db_stable: "unicode_stable ascii_db"
proof -
  have "normalize_letters ascii_db r = r"
    if sub: "sublist r (normalize_letters ascii_db cs)" and w: "\<forall>c \<in> set r. word_char ascii_db c" for cs r
  proof -
    have "\<forall>c \<in> set (normalize_letters ascii_db cs). \<not> is_upper_az c"
      by (auto simp: normalize_letters_def ascii_db_simps ascii_lower_def leftover_not_upper is_upper_az_def)
         (auto dest!: leftover_not_upper [rotated] simp: is_upper_az_def)
    then have up: "\<forall>c \<in> set r. \<not> is_upper_az c" using set_mono_sublist [OF sub] by blast
    have c: "is_az c \<or> is_digit c \<or> (768 \<le> c \<and> c \<le> 879)" if "c \<in> set r" for c
      using up w that by (auto simp: word_char_def ascii_db_simps)
    have "map ascii_lower r = r" using up by (simp add: map_idI ascii_lower_def)
    moreover have "degree_no r = r" using c by (intro degree_no_plain) (fastforce simp: is_az_def is_digit_def)
    moreover have "leftover c = [c]" if "c \<in> set r" for c
      using c [OF that] by (intro leftover_other) (auto simp: LEFTOVERS_def is_az_def is_digit_def)
    ultimately show ?thesis
      using concat_map_single [of r leftover "\<lambda>c. c"] by (simp add: normalize_letters_def ascii_db_simps)
  qed
  moreover have "scalar c" if "word_char ascii_db c" for c
    using that by (auto simp: word_char_def ascii_db_simps scalar_def is_az_def is_upper_az_def is_digit_def)
  moreover have "\<not> searchable ascii_db c" if "js_space c" for c
    using that by (auto simp: searchable_def ascii_db_simps js_space_def is_az_def is_upper_az_def is_digit_def)
  ultimately show ?thesis unfolding unicode_stable_def by blast
qed

section \<open>Properties\<close>

text \<open>C16: A text is found by its own search terms. Every term that a search for one of the
  texts of a piece produces matches the piece's stored search text, whatever the other texts
  are. So pasting a piece's title, composer or source into the search shows the piece.\<close>

theorem own_text_found:
  assumes "unicode_stable U" and "text \<in> set texts" and "t \<in> set (searchTerms U text)"
  shows "matchesSearchTerm (searchIndex U texts) t"
  using assms by (rule text_terms_match)

theorem own_text_found_witness:
  "matchesSearchTerm (searchIndex ascii_db [js ''Waltz'', js ''Op. 64 No. 2'']) (js ''op64'')"
  by (rule own_text_found [OF ascii_db_stable, of "js ''Op. 64 No. 2''"]) code_simp+

text \<open>The words of the two spellings.\<close>

lemma opus_words:
  assumes U: "ascii_ok U" and n: "n \<noteq> []" "list_all is_digit n" and m: "OPUS_PART m"
  obtains b1 b2 b3 b4 b5 where
    "catalogue_words U (js ''Op. '' @ n @ js '' No. '' @ m) = [(js ''op'', b1), (n, b2), (js ''no'', b3), (m, b4)]"
    and "catalogue_words U (js ''op'' @ n @ js ''/'' @ m) = [(js ''op'', True), (n, False), (m, b5)]"
proof -
  have m': "m \<noteq> []" "list_all is_digit m" using m by (auto simp: OPUS_PART_def)
  have wn: "ascii_word n" and wm: "ascii_word m" using n m' by (simp_all add: digits_word)
  have ow: "ascii_word (js ''op'')" "ascii_word (js ''no'')" "ascii_word (js ''op'' @ n)"
    using wn by (auto simp: ascii_word_def js_def is_az_def)
  have small: "\<forall>c \<in> set w. c < 128 \<and> c \<noteq> 35" and same: "map ascii_lower w = w" if "ascii_word w" for w
    using ascii_word_chars [OF U that] by (blast, simp add: map_idI)
  have sep: "\<not> word_char U 46" "\<not> word_char U 32" "\<not> word_char U 47"
    using ascii_okD(2) [OF U] by (simp_all add: is_az_def is_upper_az_def is_digit_def)
  note run = words_from_run [OF U]
  note skip = words_from_skip [OF sep(1)] words_from_skip [OF sep(2)] words_from_skip [OF sep(3)]
  note eval = sep words_from_Nil split_glued_digits [OF n] split_glued_digits [OF m'] split_glued_letters split_glued_op [OF n]
  let ?a = "js ''Op. '' @ n @ js '' No. '' @ m" and ?b = "js ''op'' @ n @ js ''/'' @ m"
  have letters: "\<forall>c \<in> set (js ''op''). is_az c" "\<forall>c \<in> set (js ''no''). is_az c"
    by (simp_all add: js_def is_az_def)
  have "catalogue_words U ?a =
      words_from U [] (js ''op'' @ 46 # 32 # (n @ 32 # (js ''no'' @ 46 # 32 # m @ [])))"
    using catalogue_words_ascii [OF U, of ?a] small [OF wn] small [OF wm] same [OF wn] same [OF wm]
    by (simp add: js_def ascii_lower_def is_upper_az_def ball_Un)
  also obtain b1 where "\<dots> =
      (js ''op'', b1) # words_from U [111, 112] (46 # 32 # n @ 32 # js ''no'' @ 46 # 32 # m @ [])"
    using run [OF ow(1), of "46 # _" "[]"] sep letters by (simp add: split_glued_letters js_def)
  also have "\<dots> = (js ''op'', b1) # words_from U [111, 112, 46, 32] (n @ 32 # js ''no'' @ 46 # 32 # m @ [])"
    by (simp add: skip)
  also obtain b2 where "\<dots> =
      [(js ''op'', b1), (n, b2)] @ words_from U ([111, 112, 46, 32] @ n) (32 # js ''no'' @ 46 # 32 # m @ [])"
    using run [OF wn, of "32 # _"] sep by (simp add: split_glued_digits n)
  also have "\<dots> = [(js ''op'', b1), (n, b2)] @
      words_from U ([111, 112, 46, 32] @ n @ [32]) (js ''no'' @ 46 # 32 # m @ [])"
    by (simp add: skip)
  also obtain b3 where "\<dots> = [(js ''op'', b1), (n, b2), (js ''no'', b3)] @
      words_from U (([111, 112, 46, 32] @ n @ [32]) @ js ''no'') (46 # 32 # m @ [])"
    using run [OF ow(2), of "46 # _"] sep letters by (simp add: split_glued_letters)
  also obtain b4 where "\<dots> = [(js ''op'', b1), (n, b2), (js ''no'', b3), (m, b4)]"
    using run [OF wm, of "[]"] by (simp add: skip split_glued_digits m' words_from_Nil)
  finally have a: "catalogue_words U ?a = [(js ''op'', b1), (n, b2), (js ''no'', b3), (m, b4)]" .
  have "catalogue_words U ?b = words_from U [] ((js ''op'' @ n) @ 47 # (m @ []))"
    using catalogue_words_ascii [OF U, of ?b] small [OF wn] small [OF wm] same [OF wn] same [OF wm]
    by (simp add: js_def ascii_lower_def is_upper_az_def ball_Un)
  moreover obtain b5 where "words_from U ((js ''op'' @ n) @ [47]) (m @ []) = [(m, b5)]"
    using run [OF wm, of "[]"] by (simp add: split_glued_digits m' words_from_Nil)
  ultimately have b: "catalogue_words U ?b = [(js ''op'', True), (n, False), (m, b5)]"
    using ow by (simp add: run eval skip del: append_assoc)
  show thesis by (rule that [OF a b])
qed

text \<open>C36: "Op. 28 No. 4" and "op28/4" are the same catalogue terms, op28 and no4, for every opus
  number and every number of one to three digits within it.\<close>

theorem catalogue_spellings:
  assumes U: "ascii_ok U" and n: "n \<noteq> []" "list_all is_digit n" and m: "OPUS_PART m"
  shows "catalogueTerms U (js ''Op. '' @ n @ js '' No. '' @ m) True = [js ''op'' @ n, js ''no'' @ m] \<and>
    catalogueTerms U (js ''op'' @ n @ js ''/'' @ m) True = [js ''op'' @ n, js ''no'' @ m]"
proof -
  have m': "m \<noteq> []" "list_all is_digit m" using m by (auto simp: OPUS_PART_def)
  have "\<not> word_char U 46" "\<not> word_char U 32" "\<not> word_char U 47"
    using ascii_okD(2) [OF U] by (simp_all add: is_az_def is_upper_az_def is_digit_def)
  note eval = this catalogue_step_op [OF n] catalogue_step_no [OF m'] word_at_def catalogueTerms_def
  obtain b1 b2 b3 b4 b5 where words:
    "catalogue_words U (js ''Op. '' @ n @ js '' No. '' @ m) = [(js ''op'', b1), (n, b2), (js ''no'', b3), (m, b4)]"
    "catalogue_words U (js ''op'' @ n @ js ''/'' @ m) = [(js ''op'', True), (n, False), (m, b5)]"
    using opus_words [OF U n m] by metis
  have "\<not> OPUS_PART (js ''no'')" by (simp add: OPUS_PART_def js_def is_digit_def)
  then show ?thesis using m by (simp add: eval words)
qed

theorem catalogue_spellings_witness:
  "catalogueTerms ascii_db (js ''Op. '' @ js ''28'' @ js '' No. '' @ js ''4'') True =
     [js ''op'' @ js ''28'', js ''no'' @ js ''4''] \<and>
   catalogueTerms ascii_db (js ''op'' @ js ''28'' @ js ''/'' @ js ''4'') True =
     [js ''op'' @ js ''28'', js ''no'' @ js ''4'']"
  by (rule catalogue_spellings [OF ascii_db_ok]) code_simp+
end
