(* ===== verification/Models.thy ===== *)
theory Models
  imports JsText
begin

text \<open>
  The shared data of the client (\<open>web/src/app/core/models.ts\<close>). An interface is a record
  whose fields carry a prefix, because record fields share one name space; \<open>null\<close> and a
  missing property are \<open>None\<close>. A union of string literals is a datatype with the function
  that gives the literal. JavaScript numbers that are measures of a page are \<open>real\<close>;
  counts, sizes and revisions are \<open>nat\<close>.
\<close>

section \<open>Accounts\<close>

record User =
  user_id :: jstring
  user_email :: jstring
  user_displayName :: jstring
  user_avatarUrl :: "jstring option"

datatype AuthMode = Development | Google

record Session =
  ses_authenticated :: bool
  ses_authMode :: AuthMode
  ses_development :: bool
  ses_user :: "User option"

record ShortcutToken =
  sct_active :: bool
  sct_createdAt :: "jstring option"
  sct_lastUsedAt :: "jstring option"

record ShortcutTokenCreated =
  scc_token :: jstring
  scc_createdAt :: jstring

section \<open>Pieces\<close>

record PiecePdf =
  pdf_originalFilename :: jstring
  pdf_sizeBytes :: nat
  pdf_checksumSha256 :: jstring
  pdf_pageCount :: nat
  pdf_uploadedAt :: jstring
  pdf_contentUrl :: jstring

datatype PieceStatus = Learning | Playing | Shelved

fun status_value :: "PieceStatus \<Rightarrow> jstring" where
  "status_value Learning = js ''learning''"
| "status_value Playing = js ''playing''"
| "status_value Shelved = js ''shelved''"

definition PIECE_STATUSES :: "(PieceStatus \<times> jstring) list" where
  "PIECE_STATUSES =
     [(Learning, js ''Learning''), (Playing, js ''Playing''), (Shelved, js ''Shelved'')]"

datatype LibraryFilter = Current | AllPieces | Favorites | WithStatus PieceStatus

fun filter_value :: "LibraryFilter \<Rightarrow> jstring" where
  "filter_value Current = js ''current''"
| "filter_value AllPieces = js ''all''"
| "filter_value Favorites = js ''favorites''"
| "filter_value (WithStatus s) = status_value s"

definition LIBRARY_FILTERS :: "(LibraryFilter \<times> jstring) list" where
  "LIBRARY_FILTERS =
     [(Current, js ''Learning & Playing''), (AllPieces, js ''All''), (Favorites, js ''Favorites'')] @
     map (\<lambda>(s, label). (WithStatus s, label)) PIECE_STATUSES"

datatype LibrarySort = ByTitle | ByComposer | ByRecent | ByAdded | ByFresh

fun sort_value :: "LibrarySort \<Rightarrow> jstring" where
  "sort_value ByTitle = js ''title''"
| "sort_value ByComposer = js ''composer''"
| "sort_value ByRecent = js ''recent''"
| "sort_value ByAdded = js ''added''"
| "sort_value ByFresh = js ''fresh''"

definition LIBRARY_SORTS :: "(LibrarySort \<times> jstring \<times> jstring option) list" where
  "LIBRARY_SORTS =
     [(ByTitle, js ''Title'', None), (ByComposer, js ''Composer'', None),
      (ByRecent, js ''Recently played'', None), (ByAdded, js ''Recently added'', None),
      (ByFresh, js ''Fresh'', Some (js ''least recently played first''))]"

record Preferences =
  pref_libraryFilter :: LibraryFilter
  pref_librarySort :: LibrarySort

record Piece =
  p_opus :: "jstring option"
  p_musicKey :: "jstring option"
  p_id :: jstring
  p_title :: jstring
  p_composer :: jstring
  p_favorite :: bool
  p_status :: PieceStatus
  p_sourceUrl :: jstring
  p_listeningUrl :: jstring
  p_notes :: jstring
  p_aliases :: jstring
  p_createdAt :: jstring
  p_updatedAt :: jstring
  p_pdf :: "PiecePdf option"
  p_lastPlayedAt :: "jstring option"

text \<open>The part of a PDF a library row carries.\<close>

record RowPdf =
  row_pageCount :: nat
  row_contentUrl :: jstring

record PieceSummary =
  s_id :: jstring
  s_title :: jstring
  s_composer :: jstring
  s_aliases :: jstring
  s_favorite :: bool
  s_status :: PieceStatus
  s_listeningUrl :: jstring
  s_lastPlayedAt :: "jstring option"
  s_createdAt :: jstring
  s_pdf :: "RowPdf option"
  s_searchText :: jstring

record PieceInput =
  in_opus :: "jstring option"
  in_musicKey :: "jstring option"
  in_title :: jstring
  in_composer :: jstring
  in_favorite :: bool
  in_status :: "PieceStatus option"
  in_sourceUrl :: jstring
  in_listeningUrl :: jstring
  in_notes :: jstring
  in_aliases :: "jstring option"

section \<open>The reader\<close>

datatype ReaderMode = PageMode | ScrollMode

record ReaderState =
  rs_pieceId :: jstring
  rs_pdfChecksum :: jstring
  rs_mode :: ReaderMode
  rs_lastPage :: int
  rs_scrollPosition :: real
  rs_zoom :: real
  rs_scrollSpeed :: real
  rs_scrollPaused :: bool

section \<open>Preparation\<close>

definition MAX_PREPARED_PAGES :: nat where
  "MAX_PREPARED_PAGES = 10"

record PageEdit =
  e_fitEdges :: "bool option"
  e_margins :: "real list option"
  e_paperCleanupStrength :: "real option"
  e_paperCleanup :: "bool option"
  e_id :: jstring
  e_sourceId :: jstring
  e_page :: nat
  e_angle :: "real option"
  e_rotation :: "real option"
  e_outputWidth :: "real option"
  e_outputHeight :: "real option"
  e_scale :: "real option"
  e_x :: "real option"
  e_y :: "real option"
  e_crop :: "real list option"
  e_corners :: "real list list option"

record EditManifest =
  m_version :: nat
  m_pages :: "PageEdit list"

record ImportAsset =
  a_id :: jstring
  a_filename :: jstring
  a_mime :: jstring
  a_size :: nat
  a_checksum :: jstring
  a_pageCount :: nat
  a_width :: nat
  a_height :: nat

record IMSLPAutoFill =
  fill_title :: "jstring option"
  fill_composer :: "jstring option"
  fill_titleEdited :: bool
  fill_composerEdited :: bool

record ImportDraft =
  d_id :: jstring
  d_pieceId :: "jstring option"
  d_revision :: nat
  d_metadata :: PieceInput
  d_imslpAutoFill :: "IMSLPAutoFill option"
  d_manifest :: EditManifest
  d_initialManifest :: EditManifest
  d_sources :: "ImportAsset list"
  d_finalized :: bool
  d_updatedAt :: jstring
  d_maxFileBytes :: nat

record IMSLPWork =
  w_title :: jstring
  w_composer :: jstring
  w_url :: jstring

datatype IMSLPStatus = Ready | Unavailable | Throttled

record IMSLPSearch =
  imslp_status :: IMSLPStatus
  imslp_results :: "IMSLPWork list"

section \<open>Composers\<close>

record ComposerPiece =
  cp_id :: jstring
  cp_title :: jstring
  cp_composer :: jstring
  cp_hasPdf :: bool

record ComposerEntry =
  ce_name :: jstring
  ce_key :: jstring
  ce_group :: jstring
  ce_count :: nat
  ce_pieces :: "ComposerPiece list"

record ComposerMerge =
  cm_spellings :: "jstring list"
  cm_target :: jstring
  cm_fingerprint :: "jstring option"

record ComposerPreview =
  cv_fingerprint :: jstring
  cv_count :: nat
  cv_pieces :: "ComposerPiece list"

section \<open>Facts\<close>

lemma status_value_inject [simp]: "status_value s = status_value t \<longleftrightarrow> s = t"
  by (cases s; cases t) (simp_all add: js_def)

lemma status_value_other:
  "status_value s \<noteq> js ''current''" "status_value s \<noteq> js ''all''" "status_value s \<noteq> js ''favorites''"
  by (cases s; simp add: js_def)+

lemma filter_value_inject [simp]: "filter_value f = filter_value g \<longleftrightarrow> f = g"
  using status_value_other by (cases f; cases g) (simp_all add: js_def, metis+)

lemma sort_value_inject [simp]: "sort_value s = sort_value t \<longleftrightarrow> s = t"
  by (cases s; cases t) (simp_all add: js_def)

lemma filter_listed: "f \<in> fst ` set LIBRARY_FILTERS"
proof (cases f)
  case (WithStatus s)
  then show ?thesis by (cases s) (simp_all add: LIBRARY_FILTERS_def PIECE_STATUSES_def)
qed (simp_all add: LIBRARY_FILTERS_def)

lemma sort_listed: "s \<in> fst ` set LIBRARY_SORTS"
  by (cases s) (simp_all add: LIBRARY_SORTS_def)

end
