(* ===== verification/JsSort.thy ===== *)
theory JsSort
  imports Prelude
begin

text \<open>
  \<open>Array.prototype.sort\<close> with a comparison function. The language fixes the result for a
  consistent comparison: a permutation in order in which equal elements keep their places.
  The locale states consistency on a set of values; the comparisons of the program are
  instances, put together with the combinators below. The sort is modelled by stable
  insertion, and the last section shows that any sort with the language's promise gives
  the same list.
\<close>

section \<open>Consistent comparisons\<close>

locale comparator =
  fixes cmp :: "'a \<Rightarrow> 'a \<Rightarrow> int" and A :: "'a set"
  assumes flip: "a \<in> A \<Longrightarrow> b \<in> A \<Longrightarrow> sgn (cmp b a) = - sgn (cmp a b)"
    and trans_le: "a \<in> A \<Longrightarrow> b \<in> A \<Longrightarrow> c \<in> A \<Longrightarrow> cmp a b \<le> 0 \<Longrightarrow> cmp b c \<le> 0 \<Longrightarrow> cmp a c \<le> 0"
begin

lemma le_flip: "a \<in> A \<Longrightarrow> b \<in> A \<Longrightarrow> cmp b a \<le> 0 \<longleftrightarrow> 0 \<le> cmp a b"
  using flip [of a b] by (auto simp: sgn_if split: if_splits)

lemma total: "a \<in> A \<Longrightarrow> b \<in> A \<Longrightarrow> cmp a b \<le> 0 \<or> cmp b a \<le> 0"
  using le_flip [of a b] by linarith

lemma zero_flip: "a \<in> A \<Longrightarrow> b \<in> A \<Longrightarrow> cmp b a = 0 \<longleftrightarrow> cmp a b = 0"
  using flip [of a b] by (auto simp: sgn_if split: if_splits)

lemma refl_zero: "a \<in> A \<Longrightarrow> cmp a a = 0"
  using flip [of a a] by (auto simp: sgn_if split: if_splits)

lemma zero_trans: "a \<in> A \<Longrightarrow> b \<in> A \<Longrightarrow> c \<in> A \<Longrightarrow> cmp a b = 0 \<Longrightarrow> cmp b c = 0 \<Longrightarrow> cmp a c = 0"
proof -
  assume abc: "a \<in> A" "b \<in> A" "c \<in> A" and eq: "cmp a b = 0" "cmp b c = 0"
  then have "cmp a c \<le> 0" "cmp c a \<le> 0"
    using trans_le [of a b c] trans_le [of c b a] zero_flip [of a b] zero_flip [of b c] by simp_all
  then show ?thesis using le_flip [of a c] abc by simp
qed

lemma less_le_trans: "a \<in> A \<Longrightarrow> b \<in> A \<Longrightarrow> c \<in> A \<Longrightarrow> cmp a b < 0 \<Longrightarrow> cmp b c \<le> 0 \<Longrightarrow> cmp a c < 0"
  using trans_le [of b c a] le_flip [of a b] le_flip [of a c] by fastforce

lemma le_less_trans: "a \<in> A \<Longrightarrow> b \<in> A \<Longrightarrow> c \<in> A \<Longrightarrow> cmp a b \<le> 0 \<Longrightarrow> cmp b c < 0 \<Longrightarrow> cmp a c < 0"
  using trans_le [of c a b] le_flip [of b c] le_flip [of a c] by fastforce

end

section \<open>Building comparisons\<close>

text \<open>\<open>f(a, b) || g(a, b)\<close>: the second decides where the first finds no difference.\<close>

definition cmp_or :: "('a \<Rightarrow> 'a \<Rightarrow> int) \<Rightarrow> ('a \<Rightarrow> 'a \<Rightarrow> int) \<Rightarrow> 'a \<Rightarrow> 'a \<Rightarrow> int" where
  "cmp_or f g a b = (if f a b \<noteq> 0 then f a b else g a b)"

definition cmp_on :: "('a \<Rightarrow> 'b) \<Rightarrow> ('b \<Rightarrow> 'b \<Rightarrow> int) \<Rightarrow> 'a \<Rightarrow> 'a \<Rightarrow> int" where
  "cmp_on f cmp a b = cmp (f a) (f b)"

definition cmp_neg :: "('a \<Rightarrow> 'a \<Rightarrow> int) \<Rightarrow> 'a \<Rightarrow> 'a \<Rightarrow> int" where
  "cmp_neg cmp a b = - cmp a b"

text \<open>\<open>a - b\<close> for whole numbers.\<close>

definition cmp_int :: "int \<Rightarrow> int \<Rightarrow> int" where
  "cmp_int a b = a - b"

lemma comparator_int: "comparator cmp_int A"
  by unfold_locales (auto simp: cmp_int_def sgn_if)

lemma comparator_on:
  assumes "comparator cmp B" and "\<And>a. a \<in> A \<Longrightarrow> f a \<in> B"
  shows "comparator (cmp_on f cmp) A"
proof
  show "sgn (cmp_on f cmp b a) = - sgn (cmp_on f cmp a b)" if "a \<in> A" "b \<in> A" for a b
    unfolding cmp_on_def using that assms(2) by (intro comparator.flip [OF assms(1)])
  show "cmp_on f cmp a c \<le> 0"
    if "a \<in> A" "b \<in> A" "c \<in> A" "cmp_on f cmp a b \<le> 0" "cmp_on f cmp b c \<le> 0" for a b c
    using that comparator.trans_le [OF assms(1), of "f a" "f b" "f c"] assms(2) by (simp add: cmp_on_def)
qed

lemma comparator_neg:
  assumes "comparator cmp A"
  shows "comparator (cmp_neg cmp) A"
proof
  fix a b assume "a \<in> A" "b \<in> A"
  then show "sgn (cmp_neg cmp b a) = - sgn (cmp_neg cmp a b)"
    using comparator.flip [OF assms, of a b] by (simp add: cmp_neg_def sgn_minus)
next
  fix a b c assume abc: "a \<in> A" "b \<in> A" "c \<in> A"
    and le: "cmp_neg cmp a b \<le> 0" "cmp_neg cmp b c \<le> 0"
  have "cmp b a \<le> 0" "cmp c b \<le> 0"
    using le abc comparator.le_flip [OF assms, of a b] comparator.le_flip [OF assms, of b c]
    by (simp_all add: cmp_neg_def)
  then have "cmp c a \<le> 0" using comparator.trans_le [OF assms, of c b a] abc by simp
  then show "cmp_neg cmp a c \<le> 0" using comparator.le_flip [OF assms, of a c] abc by (simp add: cmp_neg_def)
qed

lemma comparator_or:
  assumes "comparator f A" and "comparator g A"
  shows "comparator (cmp_or f g) A"
proof
  fix a b assume "a \<in> A" "b \<in> A"
  then show "sgn (cmp_or f g b a) = - sgn (cmp_or f g a b)"
    using comparator.flip [OF assms(1), of a b] comparator.flip [OF assms(2), of a b]
      comparator.zero_flip [OF assms(1), of a b]
    by (simp add: cmp_or_def)
next
  fix a b c assume abc: "a \<in> A" "b \<in> A" "c \<in> A" and le: "cmp_or f g a b \<le> 0" "cmp_or f g b c \<le> 0"
  note f = comparator.zero_trans [OF assms(1) abc] comparator.less_le_trans [OF assms(1) abc]
    comparator.le_less_trans [OF assms(1) abc]
  note g = comparator.trans_le [OF assms(2) abc]
  have "f a b \<le> 0" "f b c \<le> 0" using le by (auto simp: cmp_or_def split: if_splits)
  then consider "f a b < 0" | "f b c < 0" | "f a b = 0" "f b c = 0" by linarith
  then show "cmp_or f g a c \<le> 0"
  proof cases
    case 1
    then show ?thesis using f(2) \<open>f b c \<le> 0\<close> by (simp add: cmp_or_def)
  next
    case 2
    then show ?thesis using f(3) \<open>f a b \<le> 0\<close> by (simp add: cmp_or_def)
  next
    case 3
    then have "f a c = 0" "g a b \<le> 0" "g b c \<le> 0" using f(1) le by (auto simp: cmp_or_def)
    then show ?thesis using g by (simp add: cmp_or_def)
  qed
qed

section \<open>The sort\<close>

fun insert_sorted :: "('a \<Rightarrow> 'a \<Rightarrow> int) \<Rightarrow> 'a \<Rightarrow> 'a list \<Rightarrow> 'a list" where
  "insert_sorted cmp x [] = [x]"
| "insert_sorted cmp x (y # ys) =
     (if cmp x y \<le> 0 then x # y # ys else y # insert_sorted cmp x ys)"

definition js_sort :: "('a \<Rightarrow> 'a \<Rightarrow> int) \<Rightarrow> 'a list \<Rightarrow> 'a list" where
  "js_sort cmp xs = foldr (insert_sorted cmp) xs []"

lemma js_sort_simps [simp]:
  "js_sort cmp [] = []" "js_sort cmp (x # xs) = insert_sorted cmp x (js_sort cmp xs)"
  by (simp_all add: js_sort_def)

lemma mset_insert_sorted [simp]: "mset (insert_sorted cmp x xs) = add_mset x (mset xs)"
  by (induction xs) auto

lemma mset_js_sort [simp]: "mset (js_sort cmp xs) = mset xs"
  by (induction xs) auto

lemma set_js_sort [simp]: "set (js_sort cmp xs) = set xs"
  by (metis mset_js_sort set_mset_mset)

definition in_order :: "('a \<Rightarrow> 'a \<Rightarrow> int) \<Rightarrow> 'a list \<Rightarrow> bool" where
  "in_order cmp xs \<longleftrightarrow> sorted_wrt (\<lambda>a b. cmp a b \<le> 0) xs"

lemma in_order_simps [simp]:
  "in_order cmp []"
  "in_order cmp (x # xs) \<longleftrightarrow> (\<forall>y \<in> set xs. cmp x y \<le> 0) \<and> in_order cmp xs"
  by (simp_all add: in_order_def)

context comparator
begin

lemma insert_sorted_in_order:
  "x \<in> A \<Longrightarrow> set xs \<subseteq> A \<Longrightarrow> in_order cmp xs \<Longrightarrow> in_order cmp (insert_sorted cmp x xs)"
proof (induction xs)
  case (Cons y ys)
  then have y: "y \<in> A" and ys: "set ys \<subseteq> A" by auto
  have sets: "set (insert_sorted cmp x ys) = insert x (set ys)"
    by (metis mset_insert_sorted set_mset_add_mset_insert set_mset_mset)
  show ?case
  proof (cases "cmp x y \<le> 0")
    case True
    then show ?thesis using Cons.prems y ys by (auto intro: trans_le [of x y])
  next
    case False
    then have "cmp y x \<le> 0" using total [of x y] Cons.prems(1) y by blast
    then show ?thesis using False Cons y ys sets by auto
  qed
qed simp

lemma sort_in_order: "set xs \<subseteq> A \<Longrightarrow> in_order cmp (js_sort cmp xs)"
  by (induction xs) (simp_all add: insert_sorted_in_order)

text \<open>Equal elements keep their order.\<close>

lemma insert_sorted_class:
  "x \<in> A \<Longrightarrow> set xs \<subseteq> A \<Longrightarrow> z \<in> A \<Longrightarrow> in_order cmp xs \<Longrightarrow>
   filter (\<lambda>y. cmp z y = 0) (insert_sorted cmp x xs) = filter (\<lambda>y. cmp z y = 0) (x # xs)"
proof (induction xs)
  case (Cons y ys)
  have y: "y \<in> A" using Cons.prems by simp
  have "\<not> (cmp z x = 0 \<and> cmp z y = 0)" if "\<not> cmp x y \<le> 0"
    using that zero_trans [of x z y] zero_flip Cons.prems y by force
  then show ?case using Cons by auto
qed simp

lemma sort_stable:
  "set xs \<subseteq> A \<Longrightarrow> z \<in> A \<Longrightarrow>
   filter (\<lambda>y. cmp z y = 0) (js_sort cmp xs) = filter (\<lambda>y. cmp z y = 0) xs"
proof (induction xs)
  case (Cons x xs)
  then show ?case using insert_sorted_class [of x "js_sort cmp xs" z] sort_in_order by simp
qed simp

end

section \<open>The language's promise determines the result\<close>

definition stable_sort_of :: "('a \<Rightarrow> 'a \<Rightarrow> int) \<Rightarrow> 'a list \<Rightarrow> 'a list \<Rightarrow> bool" where
  "stable_sort_of cmp xs ys \<longleftrightarrow>
     mset ys = mset xs \<and> in_order cmp ys \<and>
     (\<forall>z \<in> set xs. filter (\<lambda>y. cmp z y = 0) ys = filter (\<lambda>y. cmp z y = 0) xs)"

context comparator
begin

lemma js_sort_stable_sort: "set xs \<subseteq> A \<Longrightarrow> stable_sort_of cmp xs (js_sort cmp xs)"
  using sort_in_order sort_stable by (simp add: stable_sort_of_def subset_iff)

lemma in_order_class_unique:
  "set xs \<subseteq> A \<Longrightarrow> mset xs = mset ys \<Longrightarrow> in_order cmp xs \<Longrightarrow> in_order cmp ys \<Longrightarrow>
   \<forall>z \<in> set xs. filter (\<lambda>y. cmp z y = 0) xs = filter (\<lambda>y. cmp z y = 0) ys \<Longrightarrow> xs = ys"
proof (induction xs arbitrary: ys)
  case (Cons x xs)
  have sets: "set ys = insert x (set xs)" using Cons.prems(2) by (metis list.simps(15) set_mset_mset)
  then obtain y ys' where ys: "ys = y # ys'" by (cases ys) auto
  have A: "x \<in> A" "y \<in> A" using Cons.prems(1) sets ys by auto
  have "y = x \<or> y \<in> set xs" "x = y \<or> x \<in> set ys'" using sets ys by auto
  then have "cmp x y \<le> 0" "cmp y x \<le> 0" using Cons.prems(3,4) ys refl_zero A by auto
  then have xy: "cmp x y = 0" using le_flip [of x y] A by simp
  have "filter (\<lambda>y. cmp x y = 0) (x # xs) = filter (\<lambda>y. cmp x y = 0) (y # ys')"
    using Cons.prems(5) ys by simp
  then have eq: "x = y" using xy refl_zero A by simp
  have "xs = ys'"
  proof (rule Cons.IH)
    show "\<forall>z \<in> set xs. filter (\<lambda>y. cmp z y = 0) xs = filter (\<lambda>y. cmp z y = 0) ys'"
      using Cons.prems(5) ys eq by (auto split: if_splits)
  qed (use Cons.prems ys eq in auto)
  then show ?case using ys eq by simp
qed simp

lemma stable_sort_unique:
  assumes "set xs \<subseteq> A" and "stable_sort_of cmp xs ys"
  shows "ys = js_sort cmp xs"
proof (rule in_order_class_unique)
  have sets: "set ys = set xs" using assms(2) by (metis stable_sort_of_def set_mset_mset)
  then show "set ys \<subseteq> A" using assms(1) by simp
  show "\<forall>z \<in> set ys. filter (\<lambda>y. cmp z y = 0) ys = filter (\<lambda>y. cmp z y = 0) (js_sort cmp xs)"
    using assms sets js_sort_stable_sort by (simp add: stable_sort_of_def)
qed (use assms js_sort_stable_sort in \<open>auto simp: stable_sort_of_def\<close>)

end

text \<open>Where only an element compares equal to itself, the order of the input does not matter.\<close>

lemma filter_eq_replicate: "filter (\<lambda>y. y = z) xs = replicate (count (mset xs) z) z"
  by (induction xs) auto

lemma js_sort_cong:
  "\<forall>a \<in> set xs. \<forall>b \<in> set xs. cmp a b = cmp' a b \<Longrightarrow> js_sort cmp xs = js_sort cmp' xs"
proof (induction xs)
  case (Cons x xs)
  have "insert_sorted cmp x ys = insert_sorted cmp' x ys" if "set ys \<subseteq> set xs" for ys
    using that Cons.prems by (induction ys) auto
  then show ?case using Cons by simp
qed simp

context comparator
begin

lemma js_sort_permuted:
  assumes "set xs \<subseteq> A" and "mset ys = mset xs"
    and anti: "\<forall>a \<in> set xs. \<forall>b \<in> set xs. cmp a b = 0 \<longrightarrow> a = b"
  shows "js_sort cmp ys = js_sort cmp xs"
proof (rule in_order_class_unique)
  have sets: "set ys = set xs" using assms(2) by (metis set_mset_mset)
  then show "set (js_sort cmp ys) \<subseteq> A" using assms(1) by simp
  show "\<forall>z \<in> set (js_sort cmp ys). filter (\<lambda>y. cmp z y = 0) (js_sort cmp ys) =
      filter (\<lambda>y. cmp z y = 0) (js_sort cmp xs)"
  proof
    fix z assume "z \<in> set (js_sort cmp ys)"
    then have z: "z \<in> set xs" using sets by simp
    have iff: "cmp z y = 0 \<longleftrightarrow> y = z" if "y \<in> set xs" for y
      using anti z that refl_zero assms(1) by blast
    have "filter (\<lambda>y. cmp z y = 0) zs = filter (\<lambda>y. y = z) zs" if "set zs \<subseteq> set xs" for zs
      using that iff by (intro filter_cong) auto
    then show "filter (\<lambda>y. cmp z y = 0) (js_sort cmp ys) = filter (\<lambda>y. cmp z y = 0) (js_sort cmp xs)"
      using sets assms(2) by (simp add: filter_eq_replicate)
  qed
qed (use assms sort_in_order in \<open>simp_all, metis set_mset_mset\<close>)

end

interpretation int_order: comparator cmp_int UNIV
  by (rule comparator_int)

end
