(* ===== verification/LibraryUtils.thy ===== *)
theory LibraryUtils
  imports Search Models JsSort JsNumber
begin

text \<open>
  The library list (\<open>web/src/app/features/library/library.utils.ts\<close>): which pieces a view
  shows and in which order, the address of a view, the surname a piece is filed under, and
  the small texts of a row. What the browser provides beyond the language is the record
  \<open>browser\<close>: the collator, \<open>Date.parse\<close>, the viewer's time zone and the URL parser.
\<close>

section \<open>What the browser provides\<close>

record browser =
  collate :: "jstring \<Rightarrow> jstring \<Rightarrow> int"
  date_parse :: "jstring \<Rightarrow> int option"
  local_date :: "int \<Rightarrow> int \<times> nat \<times> nat"
  local_midnight :: "int \<times> nat \<times> nat \<Rightarrow> int"
  parse_url :: "jstring \<Rightarrow> (jstring \<times> jstring) option"

section \<open>Views\<close>

record LibraryView =
  v_query :: jstring
  v_filter :: LibraryFilter
  v_sort :: LibrarySort

fun inFilter :: "PieceSummary \<Rightarrow> LibraryFilter \<Rightarrow> bool \<Rightarrow> bool" where
  "inFilter piece Current searching \<longleftrightarrow> s_status piece \<noteq> Shelved \<or> searching"
| "inFilter piece AllPieces searching \<longleftrightarrow> True"
| "inFilter piece Favorites searching \<longleftrightarrow> s_favorite piece"
| "inFilter piece (WithStatus s) searching \<longleftrightarrow> s_status piece = s"

record TitlePrefix =
  t_folded :: jstring
  t_terms :: jstring
  t_parts :: jstring

definition matchRank :: "unicode \<Rightarrow> PieceSummary \<Rightarrow> TitlePrefix \<Rightarrow> jstring list \<Rightarrow> int" where
  "matchRank U piece pre words =
     (if starts_with (fold_text U (s_title piece)) (t_folded pre) \<or>
         starts_with (join (js '' '') (searchTerms U (s_title piece))) (t_terms pre) \<or>
         starts_with (join (js '' '') (catalogueTerms U (s_title piece) True)) (t_parts pre)
      then 0
      else if list_all (\<lambda>word. text_includes (js '' '' @ s_searchText piece) (js '' '' @ word)) words
      then 1 else 2)"

section \<open>Orders\<close>

text \<open>\<open>a < b\<close> for strings: by code units.\<close>

fun text_less :: "jstring \<Rightarrow> jstring \<Rightarrow> bool" where
  "text_less [] t \<longleftrightarrow> t \<noteq> []"
| "text_less (a # s) [] \<longleftrightarrow> False"
| "text_less (a # s) (b # t) \<longleftrightarrow> a < b \<or> a = b \<and> text_less s t"

definition cmp_text :: "jstring \<Rightarrow> jstring \<Rightarrow> int" where
  "cmp_text a b = (if text_less a b then -1 else if text_less b a then 1 else 0)"

definition titleOrder :: "browser \<Rightarrow> PieceSummary \<Rightarrow> PieceSummary \<Rightarrow> int" where
  "titleOrder B =
     cmp_or (cmp_on s_title (collate B)) (cmp_or (cmp_on s_composer (collate B)) (cmp_on s_id cmp_text))"

text \<open>
  Newest first, a missing time last. Where a time does not parse the difference is \<open>NaN\<close>,
  which every use of the result takes as no difference: 0 here.
\<close>

definition newestFirst :: "browser \<Rightarrow> jstring option \<Rightarrow> jstring option \<Rightarrow> int" where
  "newestFirst B a b =
     (if a = b then 0
      else case (a, b) of
        (None, _) \<Rightarrow> 1
      | (_, None) \<Rightarrow> -1
      | (Some s, Some t) \<Rightarrow>
          (case (date_parse B s, date_parse B t) of (Some x, Some y) \<Rightarrow> y - x | _ \<Rightarrow> 0))"

section \<open>Surnames\<close>

text \<open>\<open>/\([^)]*\)|\[[^\]]*\]/g\<close>, each match replaced by a space.\<close>

definition drop_through :: "nat \<Rightarrow> jstring \<Rightarrow> jstring option" where
  "drop_through c s =
     (case dropWhile (\<lambda>d. d \<noteq> c) s of [] \<Rightarrow> None | _ # rest \<Rightarrow> Some rest)"

definition aside_end :: "nat \<Rightarrow> jstring \<Rightarrow> jstring option" where
  "aside_end c s = (if c = 40 then drop_through 41 s else if c = 91 then drop_through 93 s else None)"

lemma drop_through_length: "drop_through c s = Some r \<Longrightarrow> length r < length s"
  using length_dropWhile_le [of "\<lambda>u. u \<noteq> c" s] by (auto simp: drop_through_def split: list.splits)

lemma aside_end_length: "aside_end c s = Some r \<Longrightarrow> length r < length s"
  by (auto simp: aside_end_def dest: drop_through_length split: if_splits)

function strip_asides :: "jstring \<Rightarrow> jstring" where
  "strip_asides [] = []"
| "strip_asides (c # s) =
     (case aside_end c s of Some r \<Rightarrow> 32 # strip_asides r | None \<Rightarrow> c # strip_asides s)"
  by pat_completeness auto
termination
  by (relation "measure length") (auto dest: aside_end_length)

text \<open>\<open>/\s+(?:&|and)\s+|\s*[/;+]\s*/i\<close>, tried at the start of a text.\<close>

definition starts_join :: "jstring \<Rightarrow> bool" where
  "starts_join s =
     (let rest = dropWhile js_space s;
          after = (\<lambda>k. drop k rest \<noteq> [] \<and> js_space (hd (drop k rest)))
      in (s \<noteq> [] \<and> js_space (hd s) \<and>
            (take 1 rest = js ''&'' \<and> after 1 \<or> map ascii_lower (take 3 rest) = js ''and'' \<and> after 3)) \<or>
         (rest \<noteq> [] \<and> hd rest \<in> set (js ''/;+'')))"

text \<open>\<open>split(COMPOSER_JOINS)[0]\<close>: the text before the first join.\<close>

fun before_join :: "jstring \<Rightarrow> jstring" where
  "before_join [] = []"
| "before_join (c # s) = (if starts_join (c # s) then [] else c # before_join s)"

definition name_words :: "jstring \<Rightarrow> jstring list" where
  "name_words s = filter (\<lambda>w. w \<noteq> []) (split_on 32 (map (\<lambda>c. if js_space c then 32 else c) s))"

definition strip_ends :: "nat list \<Rightarrow> jstring \<Rightarrow> jstring" where
  "strip_ends cs s = rev (dropWhile (\<lambda>c. c \<in> set cs) (rev (dropWhile (\<lambda>c. c \<in> set cs) s)))"

definition COMPOSER_SUFFIXES :: "jstring list" where
  "COMPOSER_SUFFIXES = [js ''jr'', js ''sr'', js ''ii'', js ''iii'', js ''iv'']"

definition toLowerCase :: "unicode \<Rightarrow> jstring \<Rightarrow> jstring" where
  "toLowerCase U s = from_code_points (lower U (code_points s))"

definition isComposerSuffix :: "unicode \<Rightarrow> jstring \<Rightarrow> bool" where
  "isComposerSuffix U word \<longleftrightarrow> toLowerCase U (strip_ends (js '' .,'') word) \<in> set COMPOSER_SUFFIXES"

text \<open>\<open>while (named.length > 1 && isComposerSuffix(last)) named.pop()\<close>\<close>

function drop_suffixes :: "unicode \<Rightarrow> jstring list \<Rightarrow> jstring list" where
  "drop_suffixes U named =
     (if length named > 1 \<and> isComposerSuffix U (last named) then drop_suffixes U (butlast named) else named)"
  by pat_completeness auto
termination
  by (relation "measure (\<lambda>(U, named). length named)") auto

declare drop_suffixes.simps [simp del]

definition last_name :: "unicode \<Rightarrow> jstring \<Rightarrow> jstring" where
  "last_name U name =
     (let named = drop_suffixes U (name_words name)
      in if named = [] then [] else strip_ends (js ''.,'') (last named))"

definition composerSurname :: "unicode \<Rightarrow> jstring \<Rightarrow> jstring" where
  "composerSurname U composer =
     (let name = before_join (js_trim (strip_asides composer))
      in case index_of name (js '','') 0 of
           None \<Rightarrow> last_name U name
         | Some comma \<Rightarrow>
             (if \<not> isComposerSuffix U (drop (comma + 1) name)
              then (let head = name_words (slice name 0 comma)
                    in if head \<noteq> [] then join (js '' '') head else last_name U name)
              else last_name U (slice name 0 comma)))"

definition composerOrder :: "browser \<Rightarrow> unicode \<Rightarrow> jstring \<Rightarrow> jstring \<Rightarrow> int" where
  "composerOrder B U a b =
     (let aSurname = composerSurname U a; bSurname = composerSurname U b
      in if (aSurname = []) \<noteq> (bSurname = []) then (if aSurname \<noteq> [] then -1 else 1)
         else if collate B aSurname bSurname \<noteq> 0 then collate B aSurname bSurname
         else collate B (js_trim a) (js_trim b))"

definition pdf_number :: "PieceSummary \<Rightarrow> int" where  \<comment> \<open>\<open>Number(!piece.pdf)\<close>\<close>
  "pdf_number piece = (if s_pdf piece = None then 1 else 0)"

fun ORDERS :: "browser \<Rightarrow> unicode \<Rightarrow> LibrarySort \<Rightarrow> PieceSummary \<Rightarrow> PieceSummary \<Rightarrow> int" where
  "ORDERS B U ByTitle = titleOrder B"
| "ORDERS B U ByComposer = cmp_or (cmp_on s_composer (composerOrder B U)) (titleOrder B)"
| "ORDERS B U ByRecent = cmp_or (cmp_on s_lastPlayedAt (newestFirst B)) (titleOrder B)"
| "ORDERS B U ByAdded = cmp_or (cmp_on (\<lambda>p. Some (s_createdAt p)) (newestFirst B)) (titleOrder B)"
| "ORDERS B U ByFresh =
     cmp_or (cmp_on pdf_number cmp_int)
       (cmp_or (cmp_neg (cmp_on s_lastPlayedAt (newestFirst B))) (titleOrder B))"

section \<open>The pieces a view shows\<close>

definition shown_by :: "jstring list \<Rightarrow> LibraryFilter \<Rightarrow> PieceSummary \<Rightarrow> bool" where
  "shown_by words flt piece \<longleftrightarrow>
     inFilter piece flt (words \<noteq> []) \<and> list_all (matchesSearchTerm (s_searchText piece)) words"

text \<open>The search's order: exact terms, then the rank kept per piece id, then the chosen sort.\<close>

definition search_order ::
  "browser \<Rightarrow> unicode \<Rightarrow> LibraryView \<Rightarrow> PieceSummary list \<Rightarrow> PieceSummary \<Rightarrow> PieceSummary \<Rightarrow> int" where
  "search_order B U view shown =
     (let words = searchTerms U (v_query view);
          pre = \<lparr>t_folded = fold_text U (v_query view), t_terms = join (js '' '') words,
                    t_parts = join (js '' '') (catalogueTerms U (v_query view) True)\<rparr>;
          ranks = map_of (rev (map (\<lambda>piece. (s_id piece, matchRank U piece pre words)) shown))
      in cmp_or (cmp_on (\<lambda>piece. int (exactTermRank (s_searchText piece) words)) cmp_int)
           (cmp_or (cmp_on (\<lambda>piece. the (ranks (s_id piece))) cmp_int) (ORDERS B U (v_sort view))))"

definition filterAndSort :: "browser \<Rightarrow> unicode \<Rightarrow> PieceSummary list \<Rightarrow> LibraryView \<Rightarrow> PieceSummary list" where
  "filterAndSort B U pieces view =
     (let words = searchTerms U (v_query view);
          shown = filter (shown_by words (v_filter view)) pieces
      in if words = [] then js_sort (ORDERS B U (v_sort view)) shown
         else js_sort (search_order B U view shown) shown)"

section \<open>The address of a view\<close>

text \<open>The query parameters of the library's address; a missing one is \<open>None\<close>.\<close>

record LibraryParams =
  par_q :: "jstring option"
  par_show :: "jstring option"
  par_sort :: "jstring option"

record PartialView =
  pv_query :: "jstring option"
  pv_filter :: "LibraryFilter option"
  pv_sort :: "LibrarySort option"

definition viewFromParams :: "LibraryParams \<Rightarrow> PartialView" where
  "viewFromParams params =
     (let query = par_q params;
          flt = find (\<lambda>(value, _). Some (filter_value value) = par_show params) LIBRARY_FILTERS;
          srt = find (\<lambda>(value, _). Some (sort_value value) = par_sort params) LIBRARY_SORTS
      in \<lparr>pv_query = (if query = None \<or> query = Some [] then None else query),
          pv_filter = map_option fst flt, pv_sort = map_option fst srt\<rparr>)"

definition paramsOfView ::
  "LibraryView \<Rightarrow> LibraryFilter \<times> LibrarySort \<Rightarrow> bool \<times> bool \<Rightarrow> LibraryParams" where
  "paramsOfView view remembered explicit =
     \<lparr>par_q = (if v_query view \<noteq> [] then Some (v_query view) else None),
      par_show =
        (if fst explicit \<and> (v_filter view \<noteq> Current \<or> v_filter view \<noteq> fst remembered)
         then Some (filter_value (v_filter view)) else None),
      par_sort =
        (if snd explicit \<and> (v_sort view \<noteq> ByTitle \<or> v_sort view \<noteq> snd remembered)
         then Some (sort_value (v_sort view)) else None)\<rparr>"

text \<open>The view a visit opens on: the address's parts, or else the remembered ones.\<close>

definition opened_view :: "PartialView \<Rightarrow> LibraryFilter \<times> LibrarySort \<Rightarrow> LibraryView" where
  "opened_view addressed remembered =
     \<lparr>v_query = nullish (pv_query addressed) [],
      v_filter = nullish (pv_filter addressed) (fst remembered),
      v_sort = nullish (pv_sort addressed) (snd remembered)\<rparr>"

section \<open>Rows and their texts\<close>

definition summaryOf :: "unicode \<Rightarrow> Piece \<Rightarrow> PieceSummary" where
  "summaryOf U piece =
     \<lparr>s_id = p_id piece, s_title = p_title piece, s_composer = p_composer piece,
      s_aliases = p_aliases piece, s_favorite = p_favorite piece, s_status = p_status piece,
      s_listeningUrl = p_listeningUrl piece, s_lastPlayedAt = p_lastPlayedAt piece,
      s_createdAt = p_createdAt piece,
      s_pdf = map_option (\<lambda>pdf. \<lparr>row_pageCount = pdf_pageCount pdf, row_contentUrl = pdf_contentUrl pdf\<rparr>)
                (p_pdf piece),
      s_searchText = searchIndex U
        [p_title piece, p_composer piece, p_aliases piece, p_notes piece,
         nullish (p_opus piece) [], nullish (p_musicKey piece) []]\<rparr>"

definition listeningUrlError :: "browser \<Rightarrow> jstring \<Rightarrow> jstring" where
  "listeningUrlError B value =
     (let candidate = js_trim value;
          invalid = js ''listening URL must be an http or https URL''
      in if candidate = [] then []
         else if length candidate > 2000 then js ''listening URL must be at most 2000 characters''
         else case parse_url B candidate of
           Some (protocol, hostname) \<Rightarrow>
             (if (protocol = js ''http:'' \<or> protocol = js ''https:'') \<and> hostname \<noteq> [] then [] else invalid)
         | None \<Rightarrow> invalid)"

definition MONTHS :: "jstring list" where
  "MONTHS = map js [''Jan'', ''Feb'', ''Mar'', ''Apr'', ''May'', ''Jun'', ''Jul'', ''Aug'', ''Sep'',
     ''Oct'', ''Nov'', ''Dec'']"

text \<open>The text of a day, its month counted from 0. An unreadable time gives \<open>NaN\<close>s.\<close>

definition formatDay :: "browser \<Rightarrow> jstring \<Rightarrow> jstring" where
  "formatDay B time =
     (case date_parse B time of
        None \<Rightarrow> js ''NaN undefined NaN''
      | Some t \<Rightarrow> (case local_date B t of (y, m, d) \<Rightarrow>
          nat_digits d @ js '' '' @ (if m < length MONTHS then MONTHS ! m else js ''undefined'') @
          js '' '' @ int_text y))"

definition lastUsedText :: "browser \<Rightarrow> jstring option \<Rightarrow> int \<Rightarrow> jstring" where
  "lastUsedText B time now =
     (if time = None \<or> time = Some [] then js ''never''
      else case date_parse B (the time) of
        None \<Rightarrow> formatDay B (the time)
      | Some used \<Rightarrow>
          (let day = (\<lambda>t. local_midnight B (local_date B t));
               days = js_round (real_of_int (day now - day used) / 86400000)
           in if days \<le> 0 then js ''today''
              else if days = 1 then js ''yesterday''
              else formatDay B (the time)))"

definition playedText :: "browser \<Rightarrow> jstring option \<Rightarrow> int \<Rightarrow> jstring" where
  "playedText B lastPlayedAt now =
     (if lastPlayedAt = None \<or> lastPlayedAt = Some [] then js ''Not played yet''
      else js ''Played '' @ lastUsedText B lastPlayedAt now)"

section \<open>The comparisons are consistent\<close>

lemma text_less_irrefl: "\<not> text_less s s"
  by (induction s) auto

lemma text_less_trans: "text_less s t \<Longrightarrow> text_less t u \<Longrightarrow> text_less s u"
proof (induction s t arbitrary: u rule: text_less.induct)
  case (1 t)
  then show ?case by (cases t; cases u) auto
next
  case (3 a s b t)
  then show ?case by (cases u) auto
qed simp

lemma text_less_total: "s = t \<or> text_less s t \<or> text_less t s"
proof (induction s t rule: text_less.induct)
  case (1 t)
  show ?case by (cases t) simp_all
next
  case (3 a s b t)
  then show ?case by (cases "a = b") auto
qed simp

lemma cmp_text_cases:
  "(text_less a b \<and> cmp_text a b = -1 \<and> cmp_text b a = 1) \<or> (a = b \<and> cmp_text a b = 0) \<or>
   (text_less b a \<and> cmp_text a b = 1 \<and> cmp_text b a = -1)"
  using text_less_total [of a b] text_less_trans [of a b a] text_less_irrefl [of a]
  by (auto simp: cmp_text_def)

lemma comparator_text: "comparator cmp_text A"
proof
  show "sgn (cmp_text b a) = - sgn (cmp_text a b)" for a b
    using cmp_text_cases [of a b] by auto
  show "cmp_text a c \<le> 0" if "cmp_text a b \<le> 0" "cmp_text b c \<le> 0" for a b c
  proof -
    have "text_less a b \<or> a = b" "text_less b c \<or> b = c"
      using that cmp_text_cases [of a b] cmp_text_cases [of b c] by auto
    then have "text_less a c \<or> a = c" using text_less_trans by blast
    then show ?thesis using cmp_text_cases [of a c] text_less_irrefl [of a] text_less_trans [of a c a] by auto
  qed
qed

lemma cmp_text_zero: "cmp_text a b = 0 \<longleftrightarrow> a = b"
  using cmp_text_cases [of a b] text_less_irrefl [of a] by auto

interpretation id_order: comparator cmp_text UNIV
  by (rule comparator_text)

text \<open>What the orders rely on: the collator is consistent, and the times parse.\<close>

definition collator_ok :: "browser \<Rightarrow> bool" where
  "collator_ok B \<longleftrightarrow> comparator (collate B) UNIV"

definition time_ok :: "browser \<Rightarrow> jstring option \<Rightarrow> bool" where
  "time_ok B t \<longleftrightarrow> (case t of None \<Rightarrow> True | Some s \<Rightarrow> date_parse B s \<noteq> None)"

definition times_ok :: "browser \<Rightarrow> PieceSummary \<Rightarrow> bool" where
  "times_ok B p \<longleftrightarrow> time_ok B (s_lastPlayedAt p) \<and> time_ok B (Some (s_createdAt p))"

lemma comparator_newestFirst: "comparator (newestFirst B) {t. time_ok B t}"
  by unfold_locales (auto simp: newestFirst_def time_ok_def sgn_if split: option.splits if_splits)

lemma comparator_titleOrder: "collator_ok B \<Longrightarrow> comparator (titleOrder B) A"
  unfolding titleOrder_def collator_ok_def
  by (intro comparator_or comparator_on [where B = UNIV]) (simp_all add: comparator_text)

lemma composerOrder_or:
  "composerOrder B U =
    cmp_or (cmp_on (\<lambda>c. if composerSurname U c = [] then 1 else 0) cmp_int)
      (cmp_or (cmp_on (composerSurname U) (collate B)) (cmp_on js_trim (collate B)))"
  by (intro ext) (simp add: composerOrder_def cmp_or_def cmp_on_def cmp_int_def Let_def)

lemma comparator_composerOrder: "collator_ok B \<Longrightarrow> comparator (composerOrder B U) A"
  unfolding composerOrder_or collator_ok_def
  by (intro comparator_or comparator_on [where B = UNIV]) (simp_all add: comparator_int)

lemma comparator_on_UNIV: "comparator cmp UNIV \<Longrightarrow> comparator (cmp_on f cmp) A"
  by (erule comparator_on) simp

lemma comparator_ORDERS:
  assumes "collator_ok B"
  shows "comparator (ORDERS B U s) {p. times_ok B p}"
proof -
  note titles = comparator_titleOrder [OF assms]
  have played: "comparator (cmp_on s_lastPlayedAt (newestFirst B)) {p. times_ok B p}"
    and added: "comparator (cmp_on (\<lambda>p. Some (s_createdAt p)) (newestFirst B)) {p. times_ok B p}"
    by (rule comparator_on [OF comparator_newestFirst], simp add: times_ok_def)+
  note composers = comparator_on_UNIV [OF comparator_composerOrder [OF assms]]
  note numbers = comparator_on_UNIV [OF comparator_int]
  show ?thesis
    by (cases s; simp; intro comparator_or comparator_neg titles played added composers numbers)
qed

lemma ORDERS_zero: "ORDERS B U s p q = 0 \<Longrightarrow> s_id p = s_id q"
proof -
  assume zero: "ORDERS B U s p q = 0"
  have "cmp_or f (titleOrder B) p q = 0 \<Longrightarrow> titleOrder B p q = 0" for f
    by (simp add: cmp_or_def split: if_splits)
  then have "titleOrder B p q = 0" using zero by (cases s) (auto simp: cmp_or_def split: if_splits)
  then show ?thesis by (simp add: titleOrder_def cmp_or_def cmp_on_def cmp_text_zero split: if_splits)
qed

section \<open>The list a view shows\<close>

lemma comparator_search_order:
  "collator_ok B \<Longrightarrow> comparator (search_order B U view shown) {p. times_ok B p}"
  unfolding search_order_def Let_def
  by (intro comparator_or comparator_on_UNIV [OF comparator_int] comparator_ORDERS)

lemma search_order_zero: "search_order B U view shown p q = 0 \<Longrightarrow> s_id p = s_id q"
  using ORDERS_zero by (auto simp: search_order_def cmp_or_def Let_def split: if_splits)

text \<open>The comparison a view sorts by.\<close>

definition view_order ::
  "browser \<Rightarrow> unicode \<Rightarrow> PieceSummary list \<Rightarrow> LibraryView \<Rightarrow> PieceSummary \<Rightarrow> PieceSummary \<Rightarrow> int" where
  "view_order B U pieces view =
     (if searchTerms U (v_query view) = [] then ORDERS B U (v_sort view)
      else search_order B U view
        (filter (shown_by (searchTerms U (v_query view)) (v_filter view)) pieces))"

lemma filterAndSort_view_order:
  "filterAndSort B U pieces view =
    js_sort (view_order B U pieces view)
      (filter (shown_by (searchTerms U (v_query view)) (v_filter view)) pieces)"
  by (simp add: filterAndSort_def view_order_def Let_def)

lemma comparator_view_order: "collator_ok B \<Longrightarrow> comparator (view_order B U pieces view) {p. times_ok B p}"
  by (simp add: view_order_def comparator_search_order comparator_ORDERS)

lemma set_filterAndSort:
  "p \<in> set (filterAndSort B U pieces view) \<longleftrightarrow>
   p \<in> set pieces \<and> shown_by (searchTerms U (v_query view)) (v_filter view) p"
  by (auto simp: filterAndSort_view_order)

text \<open>Ranks by piece id are the ranks of the pieces themselves when ids are distinct.\<close>

lemma map_of_rev_key:
  assumes "distinct (map f xs)" and "x \<in> set xs"
  shows "map_of (rev (map (\<lambda>x. (f x, g x)) xs)) (f x) = Some (g x)"
proof -
  have "distinct (map fst (map (\<lambda>x. (f x, g x)) xs))" using assms(1) by (simp add: comp_def)
  moreover have "(f x, g x) \<in> set (map (\<lambda>x. (f x, g x)) xs)" using assms(2) by auto
  ultimately show ?thesis by (intro map_of_is_SomeI) (simp_all flip: rev_map)
qed

lemma search_order_ranks:
  assumes "distinct (map s_id shown)" and "p \<in> set shown" and "q \<in> set shown"
    and "words = searchTerms U (v_query view)"
    and "pre = \<lparr>t_folded = fold_text U (v_query view), t_terms = join (js '' '') words,
      t_parts = join (js '' '') (catalogueTerms U (v_query view) True)\<rparr>"
  shows "search_order B U view shown p q =
    cmp_or (cmp_on (\<lambda>piece. int (exactTermRank (s_searchText piece) words)) cmp_int)
      (cmp_or (cmp_on (\<lambda>piece. matchRank U piece pre words) cmp_int) (ORDERS B U (v_sort view))) p q"
  using map_of_rev_key [OF assms(1,2), of "\<lambda>piece. matchRank U piece pre words"]
    map_of_rev_key [OF assms(1,3), of "\<lambda>piece. matchRank U piece pre words"]
  by (simp add: search_order_def assms(4,5) Let_def cmp_or_def cmp_on_def)

section \<open>Surnames\<close>

lemma strip_asides_id: "\<forall>c \<in> set s. c \<noteq> 40 \<and> c \<noteq> 91 \<Longrightarrow> strip_asides s = s"
  by (induction s) (auto simp: aside_end_def)

lemma strip_ends_id: "\<forall>c \<in> set s. c \<notin> set cs \<Longrightarrow> strip_ends cs s = s"
proof -
  assume none: "\<forall>c \<in> set s. c \<notin> set cs"
  then have "dropWhile (\<lambda>c. c \<in> set cs) s = s" "dropWhile (\<lambda>c. c \<in> set cs) (rev s) = rev s"
    by (cases s; auto) (cases "rev s"; simp add: none; metis list.set_intros(1) none set_rev)
  then show ?thesis by (simp add: strip_ends_def)
qed

text \<open>A name's word: no space, bracket, comma, dot or join sign, not "and" and no suffix.\<close>

definition plain_name :: "unicode \<Rightarrow> jstring \<Rightarrow> bool" where
  "plain_name U w \<longleftrightarrow>
     w \<noteq> [] \<and> (\<forall>c \<in> set w. \<not> js_space c \<and> c \<notin> set (js ''()[]&/;+,.'')) \<and>
     map ascii_lower w \<noteq> js ''and'' \<and> \<not> isComposerSuffix U w"

lemma name_words_join:
  assumes "\<forall>w \<in> set ws. w \<noteq> [] \<and> (\<forall>c \<in> set w. \<not> js_space c)"
  shows "name_words (join [32] ws) = ws"
proof -
  let ?blank = "map (\<lambda>c. if js_space c then 32 else c)"
  have "split_on 32 (?blank (join [32] ws)) = ws" if "ws \<noteq> []"
    using assms that
  proof (induction ws)
    case (Cons w ws)
    have w: "?blank w = w" using Cons.prems by (intro map_idI) auto
    have "32 \<notin> set w" using Cons.prems by (auto simp: js_space_def)
    then show ?case
      using Cons w by (cases ws) (auto simp: js_space_def split_on_no_sep split_on_append_sep)
  qed simp
  moreover have "filter (\<lambda>w. w \<noteq> []) ws = ws" using assms by (simp add: filter_id_conv)
  ultimately show ?thesis by (cases "ws = []") (simp_all add: name_words_def)
qed

lemma before_join_no_join:
  "(\<And>p q. s = p @ q \<Longrightarrow> q \<noteq> [] \<Longrightarrow> \<not> starts_join q) \<Longrightarrow> before_join s = s"
proof (induction s)
  case (Cons c s)
  have "\<not> starts_join (c # s)" using Cons.prems [of "[]" "c # s"] by simp
  moreover have "before_join s = s"
    using Cons.prems [of "c # p" q for p q] by (intro Cons.IH) simp
  ultimately show ?case by simp
qed simp

lemma no_join_inside:
  "q \<noteq> [] \<Longrightarrow> \<not> js_space (hd q) \<Longrightarrow> hd q \<notin> set (js ''/;+'') \<Longrightarrow> \<not> starts_join q"
  by (cases q) (auto simp: starts_join_def)

lemma no_join_before_name:
  assumes w: "plain_name U w" and rest: "rest = [] \<or> hd rest = 32"
  shows "\<not> starts_join (32 # w @ rest)"
proof -
  have chars: "\<forall>c \<in> set w. \<not> js_space c \<and> c \<notin> set (js ''()[]&/;+,.'')" and "w \<noteq> []"
    using w by (auto simp: plain_name_def)
  then obtain c cs where cs: "w = c # cs" by (cases w) auto
  have drop: "dropWhile js_space (32 # w @ rest) = w @ rest"
  proof -
    have "js_space 32" "\<not> js_space c" using cs chars by (auto simp: js_space_def)
    then show ?thesis using cs by simp
  qed
  have hd: "c \<noteq> 38" "c \<notin> set (js ''/;+'')" using cs chars by (auto simp: js_def)
  have "\<not> (map ascii_lower (take 3 (w @ rest)) = js ''and'' \<and> drop 3 (w @ rest) \<noteq> [] \<and>
      js_space (hd (drop 3 (w @ rest))))"
  proof
    assume a: "map ascii_lower (take 3 (w @ rest)) = js ''and'' \<and> drop 3 (w @ rest) \<noteq> [] \<and>
      js_space (hd (drop 3 (w @ rest)))"
    consider "length w > 3" | "length w = 3" | "length w < 3" by linarith
    then show False
    proof cases
      case 1
      then have "hd (drop 3 (w @ rest)) = w ! 3" "w ! 3 \<in> set w" by (simp_all add: hd_drop_conv_nth nth_append)
      then show False using a chars by auto
    next
      case 2
      then show False using a w by (simp add: plain_name_def)
    next
      case 3
      have "3 < length (w @ rest)" using a by auto
      then have "rest \<noteq> []" using 3 by auto
      then have "hd rest \<in> set (take 3 (w @ rest))" using 3 by (cases rest; cases "3 - length w") auto
      then have "ascii_lower 32 \<in> set (js ''and'')"
        using a rest \<open>rest \<noteq> []\<close> by (metis image_eqI set_map)
      then show False by (simp add: ascii_lower_def js_def is_upper_az_def)
    qed
  qed
  then show ?thesis unfolding starts_join_def drop Let_def using cs hd by (simp add: js_def)
qed

lemma join_names_hd: "\<forall>w \<in> set ws. plain_name U w \<Longrightarrow> ws \<noteq> [] \<Longrightarrow>
  \<exists>w r. join [32] ws = w @ r \<and> plain_name U w \<and> (r = [] \<or> hd r = 32)"
proof -
  assume ws: "\<forall>w \<in> set ws. plain_name U w" "ws \<noteq> []"
  then obtain w us where w: "ws = w # us" by (cases ws) auto
  then have "join [32] ws = w @ (if us = [] then [] else 32 # join [32] us)" by (cases us) auto
  moreover have "plain_name U w" using ws w by simp
  moreover have "(if us = [] then [] else 32 # join [32] us) = [] \<or>
      hd (if us = [] then [] else 32 # join [32] us) = 32" by simp
  ultimately show ?thesis by blast
qed

lemma no_join_in_names:
  "\<forall>w \<in> set ws. plain_name U w \<Longrightarrow> join [32] ws = p @ q \<Longrightarrow> q \<noteq> [] \<Longrightarrow> \<not> starts_join q"
proof (induction ws arbitrary: p)
  case (Cons w ws)
  have w: "plain_name U w" using Cons.prems by simp
  have inside: "\<not> starts_join (w2 @ r)" if "w = w1 @ w2" "w2 \<noteq> []" for w1 w2 r
    by (rule no_join_inside) (use that w in \<open>auto simp: plain_name_def js_def\<close>)
  show ?case
  proof (cases "ws = []")
    case True
    then show ?thesis using Cons.prems inside [of p q "[]"] by simp
  next
    case False
    then have eq: "w @ 32 # join [32] ws = p @ q" using Cons.prems by (cases ws) auto
    then consider us where "w = p @ us" "us @ 32 # join [32] ws = q"
      | us where "p = w @ us" "32 # join [32] ws = us @ q"
      by (auto simp: append_eq_append_conv2)
    then show ?thesis
    proof cases
      case 1
      show ?thesis
      proof (cases "us = []")
        case True
        obtain v r where "join [32] ws = v @ r" "plain_name U v" "r = [] \<or> hd r = 32"
          using join_names_hd [of ws U] Cons.prems False by auto
        then show ?thesis using no_join_before_name [of U v r] 1 True by auto
      next
        case False
        then show ?thesis using inside 1 by blast
      qed
    next
      case 2
      show ?thesis
      proof (cases us)
        case Nil
        obtain v r where "join [32] ws = v @ r" "plain_name U v" "r = [] \<or> hd r = 32"
          using join_names_hd [of ws U] Cons.prems False by auto
        then show ?thesis using no_join_before_name [of U v r] 2 Nil by auto
      next
        case (Cons c us')
        then have "join [32] ws = us' @ q" using 2 by simp
        then show ?thesis using Cons.IH Cons.prems by simp
      qed
    qed
  qed
qed simp

lemma set_join: "c \<in> set (join sep ws) \<Longrightarrow> c \<in> set sep \<or> (\<exists>w \<in> set ws. c \<in> set w)"
  by (induction sep ws rule: join.induct) auto

lemma join_names_chars:
  "\<forall>w \<in> set ws. plain_name U w \<Longrightarrow> c \<in> set (join [32] ws) \<Longrightarrow> c \<notin> set (js ''()[]&/;+,.'')"
proof -
  assume ws: "\<forall>w \<in> set ws. plain_name U w" and c: "c \<in> set (join [32] ws)"
  have "32 \<notin> set (js ''()[]&/;+,.'')" by (simp add: js_def)
  moreover have "c \<notin> set (js ''()[]&/;+,.'')" if "w \<in> set ws" "c \<in> set w" for w
    using ws that by (simp add: plain_name_def)
  ultimately show ?thesis using set_join [OF c] by (metis empty_iff list.set(1) set_ConsD)
qed

lemma names_trim: "\<forall>w \<in> set ws. plain_name U w \<Longrightarrow> js_trim (join [32] ws) = join [32] ws"
proof (cases "ws = []")
  case False
  assume ws: "\<forall>w \<in> set ws. plain_name U w"
  obtain w r where hd: "join [32] ws = w @ r" "plain_name U w" using join_names_hd [OF ws False] by auto
  obtain us v where v: "ws = us @ [v]" using False by (metis rev_exhaust)
  then have v': "plain_name U v" using ws by simp
  have "\<exists>l. join [32] ws = l @ v"
    using v by (cases "us = []") (auto simp: join_append)
  then obtain l where l: "join [32] ws = l @ v" by blast
  have ne: "w \<noteq> []" "v \<noteq> []" "\<not> js_space (hd w)" "\<not> js_space (last v)"
    using hd(2) v' by (simp_all add: plain_name_def)
  have "hd (join [32] ws) = hd w" using hd(1) ne(1) by simp
  moreover have "last (join [32] ws) = last v" using l ne(2) by simp
  ultimately show ?thesis using ne l by (intro js_trim_id) simp_all
qed simp

lemma last_name_names:
  assumes "\<forall>w \<in> set (ws @ [v]). plain_name U w"
  shows "last_name U (join [32] (ws @ [v])) = v"
proof -
  have "\<forall>w \<in> set (ws @ [v]). w \<noteq> [] \<and> (\<forall>c \<in> set w. \<not> js_space c)"
    using assms by (simp add: plain_name_def)
  then have names: "name_words (join [32] (ws @ [v])) = ws @ [v]" by (rule name_words_join)
  have v: "\<not> isComposerSuffix U v" "\<forall>c \<in> set v. c \<notin> set (js ''.,'')"
    using assms by (auto simp: plain_name_def js_def)
  then have "drop_suffixes U (ws @ [v]) = ws @ [v]" by (simp add: drop_suffixes.simps)
  then show ?thesis using names v(2) by (simp add: last_name_def strip_ends_id)
qed

section \<open>A plain browser\<close>

text \<open>For the witnesses: texts by code units, times as decimal numbers, days of 86400000 ms.\<close>

definition plain_browser :: browser where
  "plain_browser =
     \<lparr>collate = cmp_text, date_parse = (\<lambda>s. Some (int (digits_value s))),
      local_date = (\<lambda>t. (1970, 0, nat (t div 86400000) + 1)),
      local_midnight = (\<lambda>(y, m, d). (int d - 1) * 86400000),
      parse_url = (\<lambda>s. if starts_with s (js ''https://'') then Some (js ''https:'', drop 8 s) else None)\<rparr>"

lemma plain_browser_simps [simp]:
  "collate plain_browser = cmp_text" "date_parse plain_browser s = Some (int (digits_value s))"
  "local_midnight plain_browser (y, m, d) = (int d - 1) * 86400000"
  by (simp_all add: plain_browser_def)

lemma plain_browser_ok: "collator_ok plain_browser" "times_ok plain_browser p"
  by (simp_all add: collator_ok_def comparator_text times_ok_def time_ok_def split: option.split)

definition some_piece :: "string \<Rightarrow> string \<Rightarrow> PieceSummary" where
  "some_piece name title =
     \<lparr>s_id = js name, s_title = js title, s_composer = js ''Chopin'', s_aliases = [], s_favorite = False,
      s_status = Playing, s_listeningUrl = [], s_lastPlayedAt = None, s_createdAt = js ''1'',
      s_pdf = None, s_searchText = searchIndex ascii_db [js title, js ''Chopin'']\<rparr>"

section \<open>Properties of the list\<close>



text \<open>The order of the list does not depend on the order in which the server sent the pieces:
  ties are broken down to the piece id, so the same pieces always give the same list.\<close>

theorem library_order_unique:
  assumes "collator_ok B" and "list_all (times_ok B) pieces" and "distinct (map s_id pieces)"
    and "mset pieces' = mset pieces"
  shows "filterAndSort B U pieces' view = filterAndSort B U pieces view"
proof -
  let ?words = "searchTerms U (v_query view)"
  let ?show = "filter (shown_by ?words (v_filter view))"
  have perm: "mset (?show pieces') = mset (?show pieces)" by (simp add: assms(4))
  have sets: "set (?show pieces') = set (?show pieces)" using perm by (metis set_mset_mset)
  have "distinct (map s_id pieces')"
    using assms(3,4) by (metis mset_map mset_eq_imp_distinct_iff)
  then have dist: "distinct (map s_id (?show pieces))" "distinct (map s_id (?show pieces'))"
    using assms(3) by (auto intro: distinct_map_filter)
  have same: "view_order B U pieces' view p q = view_order B U pieces view p q"
    if "p \<in> set (?show pieces')" "q \<in> set (?show pieces')" for p q
  proof -
    have "p \<in> set (?show pieces)" "q \<in> set (?show pieces)" using that sets by blast+
    then have "search_order B U view (?show pieces') p q = search_order B U view (?show pieces) p q"
      using search_order_ranks [OF dist(1) _ _ refl refl] search_order_ranks [OF dist(2) that refl refl]
      by (simp only:)
    then show ?thesis by (simp add: view_order_def)
  qed
  have anti: "\<forall>p \<in> set (?show pieces). \<forall>q \<in> set (?show pieces). view_order B U pieces view p q = 0 \<longrightarrow> p = q"
    using ORDERS_zero search_order_zero dist(1) by (auto simp: view_order_def inj_on_def distinct_map)
  have sub: "set (?show pieces) \<subseteq> {p. times_ok B p}" using assms(2) by (auto simp: list_all_iff)
  have "filterAndSort B U pieces' view = js_sort (view_order B U pieces view) (?show pieces')"
    unfolding filterAndSort_view_order using same by (intro js_sort_cong) blast
  also have "\<dots> = filterAndSort B U pieces view"
    unfolding filterAndSort_view_order
    by (rule comparator.js_sort_permuted [OF comparator_view_order [OF assms(1)] sub perm anti])
  finally show ?thesis .
qed

theorem library_order_unique_witness:
  "let view = \<lparr>v_query = js ''chopin'', v_filter = Current, v_sort = ByFresh\<rparr>
   in filterAndSort plain_browser ascii_db [some_piece ''a'' ''Ballade'', some_piece ''b'' ''Waltz''] view =
      filterAndSort plain_browser ascii_db [some_piece ''b'' ''Waltz'', some_piece ''a'' ''Ballade''] view"
  unfolding Let_def
  by (rule library_order_unique) (simp_all add: plain_browser_ok some_piece_def js_def)

text \<open>C23: Searching for a piece by one of its own texts finds it. With the search typed as its
  title, composer, another name, notes, opus or key, a row made from the piece is shown under
  the default filter and under All, shelved or not.\<close>

theorem search_shows_piece:
  assumes "unicode_stable U" and "summaryOf U piece \<in> set pieces"
    and "v_query view \<in> {p_title piece, p_composer piece, p_aliases piece, p_notes piece,
      nullish (p_opus piece) [], nullish (p_musicKey piece) []}"
    and "v_filter view \<in> {Current, AllPieces}"
    and "searchTerms U (v_query view) \<noteq> []"
  shows "summaryOf U piece \<in> set (filterAndSort B U pieces view)"
proof -
  let ?texts = "[p_title piece, p_composer piece, p_aliases piece, p_notes piece,
      nullish (p_opus piece) [], nullish (p_musicKey piece) []]"
  have "v_query view \<in> set ?texts" using assms(3) by simp
  then have "list_all (matchesSearchTerm (searchIndex U ?texts)) (searchTerms U (v_query view))"
    using text_terms_match [OF assms(1)] by (simp only: list_all_iff ball_simps) blast
  then have "shown_by (searchTerms U (v_query view)) (v_filter view) (summaryOf U piece)"
    using assms(4,5) by (auto simp: shown_by_def summaryOf_def)
  then show ?thesis using assms(2) by (simp add: set_filterAndSort)
qed

definition some_whole_piece :: Piece where
  "some_whole_piece =
     \<lparr>p_opus = Some (js ''Op. 64 No. 2''), p_musicKey = None, p_id = js ''a'', p_title = js ''Waltz'',
      p_composer = js ''Chopin'', p_favorite = False, p_status = Shelved, p_sourceUrl = [],
      p_listeningUrl = [], p_notes = [], p_aliases = [], p_createdAt = js ''1'', p_updatedAt = js ''1'',
      p_pdf = None, p_lastPlayedAt = None\<rparr>"

theorem search_shows_piece_witness:
  "summaryOf ascii_db some_whole_piece \<in> set (filterAndSort plain_browser ascii_db
     [summaryOf ascii_db some_whole_piece]
     \<lparr>v_query = js ''Op. 64 No. 2'', v_filter = Current, v_sort = ByTitle\<rparr>)"
proof (rule search_shows_piece [OF ascii_db_stable])
  have "searchTerms ascii_db (js ''Op. 64 No. 2'') \<noteq> []" by code_simp
  then show "searchTerms ascii_db
      (v_query \<lparr>v_query = js ''Op. 64 No. 2'', v_filter = Current, v_sort = ByTitle\<rparr>) \<noteq> []" by simp
qed (simp_all add: some_whole_piece_def)

text \<open>
  The address written for a view opens again on the same search, filter and sort, where each of
  the two is either chosen in this tab or the one that is remembered.
\<close>

lemma address_reopens:
  assumes "fst explicit \<or> v_filter view = fst remembered" and "snd explicit \<or> v_sort view = snd remembered"
  shows "opened_view (viewFromParams (paramsOfView view remembered explicit)) remembered = view"
proof -
  obtain rf rs ef es where r: "remembered = (rf, rs)" "explicit = (ef, es)" by fastforce
  have f: "map_option fst (find (\<lambda>(value, _). value = f) LIBRARY_FILTERS) = Some f" for f
    by (rule find_listed) (rule filter_listed)
  have s: "map_option fst (find (\<lambda>(value, _). value = t) LIBRARY_SORTS) = Some t" for t
    by (rule find_listed) (rule sort_listed)
  have none: "find (\<lambda>(value, _). False) xs = None" for xs :: "('a \<times> 'b) list"
    by (induction xs) auto
  show ?thesis using assms
    by (cases view; cases ef; cases es)
       (simp_all add: opened_view_def viewFromParams_def paramsOfView_def Let_def f s none r
         del: map_option_eq_Some)
qed

text \<open>A composer is filed under the same surname however the name is written. For names without
  brackets, joins or suffixes, "Johann Sebastian Bach" and "Bach, Johann Sebastian" both give
  "Bach".\<close>

theorem surname_both_ways:
  assumes "list_all (plain_name U) (firsts @ [surname])" and "firsts \<noteq> []"
    and "\<not> isComposerSuffix U (js '' '' @ join (js '' '') firsts)"
  shows "composerSurname U (join (js '' '') (firsts @ [surname])) = surname \<and>
    composerSurname U (surname @ js '', '' @ join (js '' '') firsts) = surname"
proof
  have names: "\<forall>w \<in> set (firsts @ [surname]). plain_name U w" using assms(1) by (simp add: list_all_iff)
  have sp: "js '' '' = [32]" and comma: "js '','' = [44]" and cs: "js '', '' = [44, 32]" by (simp_all add: js_def)
  let ?a = "join [32] (firsts @ [surname])" and ?f = "join [32] firsts"
  have chars: "c \<noteq> 40 \<and> c \<noteq> 91 \<and> c \<noteq> 44" if "c \<in> set ?a" for c
    using join_names_chars [OF names that] by (simp add: js_def)
  have "strip_asides ?a = ?a" using chars by (intro strip_asides_id) blast
  moreover have "js_trim ?a = ?a" using names by (rule names_trim)
  moreover have "before_join ?a = ?a"
    using no_join_in_names [OF names] by (intro before_join_no_join) blast
  moreover have "index_of ?a [44] 0 = None"
    using chars by (simp add: index_of_None_iff text_includes_sublist sublist_def) fastforce
  ultimately show "composerSurname U (join (js '' '') (firsts @ [surname])) = surname"
    unfolding composerSurname_def sp comma Let_def using last_name_names [OF names] by simp
  let ?b = "surname @ 44 # 32 # ?f"
  have sn: "plain_name U surname" and fn: "\<forall>w \<in> set firsts. plain_name U w" using names by auto
  have sur: "surname \<noteq> []" "\<forall>c \<in> set surname. \<not> js_space c \<and> c \<noteq> 40 \<and> c \<noteq> 91 \<and> c \<noteq> 44 \<and> c \<notin> set (js ''/;+'')"
    using sn by (auto simp: plain_name_def js_def)
  obtain v r where f: "?f = v @ r" "plain_name U v" "r = [] \<or> hd r = 32"
    using join_names_hd [OF fn assms(2)] by blast
  then have f_ne: "?f \<noteq> []" by (auto simp: plain_name_def)
  have "strip_asides ?b = ?b"
    using sur(2) join_names_chars [OF fn] by (intro strip_asides_id) (auto simp: js_def)
  moreover have "js_trim ?b = ?b"
    using sur js_trim_idem_ends [of ?f] f_ne names_trim [OF fn] by (intro js_trim_id) simp_all
  moreover have "before_join ?b = ?b"
  proof (rule before_join_no_join)
    fix p q assume "?b = p @ q" and q: "q \<noteq> []"
    then consider us where "surname = p @ us" "q = us @ 44 # 32 # ?f" "us \<noteq> []"
      | "q = 44 # 32 # ?f" | "q = 32 # ?f" | us where "?f = us @ q"
      by (auto simp: append_eq_append_conv2 append_eq_Cons_conv Cons_eq_append_conv)
    then show "\<not> starts_join q"
    proof cases
      case 1
      have "hd us \<in> set surname" using 1 by simp
      then show ?thesis using sur(2) 1 by (intro no_join_inside) auto
    next
      case 2
      show ?thesis unfolding 2 by (rule no_join_inside) (simp_all add: js_def js_space_def)
    next
      case 3
      then show ?thesis using no_join_before_name [OF f(2,3)] f(1) by simp
    next
      case 4
      then show ?thesis using no_join_in_names [OF fn] q by blast
    qed
  qed
  moreover have "index_of ?b [44] 0 = Some (length surname)"
    using sur(2) by (intro index_of_first) auto
  moreover have "name_words surname = [surname]"
    using name_words_join [of "[surname]"] sur by simp
  ultimately show "composerSurname U (surname @ js '', '' @ join (js '' '') firsts) = surname"
    unfolding composerSurname_def sp comma cs Let_def
    using assms(3) by (simp add: slice_def sp)
qed

theorem surname_both_ways_witness:
  "composerSurname ascii_db (join (js '' '') ([js ''Johann'', js ''Sebastian''] @ [js ''Bach''])) = js ''Bach'' \<and>
   composerSurname ascii_db (js ''Bach'' @ js '', '' @ join (js '' '') [js ''Johann'', js ''Sebastian'']) = js ''Bach''"
  by (rule surname_both_ways) code_simp+

text \<open>"today", "yesterday" and dates follow the viewer's calendar, also across changes of the
  clock. If local midnights are a day number times 24 hours plus an offset that never moves by
  half a day, the text is "yesterday" exactly for the calendar day before.\<close>

theorem last_used_by_calendar_day:
  assumes "date_parse B time = Some used" and "time \<noteq> []"
    and "\<And>d. local_midnight B d = 86400000 * dayno d + off d"
    and "\<And>d e. 2 * \<bar>off d - off e\<bar> < 86400000"
    and "gap = dayno (local_date B now) - dayno (local_date B used)"
  shows "lastUsedText B (Some time) now =
    (if gap \<le> 0 then js ''today'' else if gap = 1 then js ''yesterday'' else formatDay B time)"
proof -
  let ?n = "local_date B now" and ?u = "local_date B used"
  have diff: "real_of_int (local_midnight B ?n - local_midnight B ?u) / 86400000 =
      of_int gap + of_int (off ?n - off ?u) / 86400000"
    by (simp add: assms(3,5) field_simps)
  have "\<bar>real_of_int (off ?n - off ?u)\<bar> < 43200000"
    using assms(4) [of ?n ?u] unfolding of_int_abs [symmetric] of_int_less_numeral_iff by simp
  then have "js_round (real_of_int (local_midnight B ?n - local_midnight B ?u) / 86400000) = gap"
    unfolding diff by (intro js_round_near) (simp add: field_simps abs_if split: if_splits)
  then show ?thesis using assms(1,2) by (simp add: lastUsedText_def Let_def)
qed

theorem last_used_by_calendar_day_witness:
  "lastUsedText plain_browser (Some (js ''86300000'')) 86500000 = js ''yesterday''"
  using last_used_by_calendar_day [of plain_browser "js ''86300000''" 86300000
      "\<lambda>d. int (snd (snd d)) - 1" "\<lambda>d. 0" 1 86500000]
  by (simp add: plain_browser_def digits_value_def js_def split: prod.splits)

end
