(* ===== verification/SearchSpans.thy ===== *)
theory SearchSpans
  imports Search
begin

text \<open>
  Marking matches in a text as written (\<open>web/src/app/core/search.ts\<close>, \<open>foldedWords\<close> and
  \<open>searchTermSpans\<close>): the folded words of a text mapped back to where they stand, and the
  spans of the catalogue numbers and keys it writes. The lemmas show that the offsets of the
  fold are those of letters of the text, in order, and so every span is a non-empty
  stretch of it.
\<close>

section \<open>Folded words\<close>

record FoldedWord =
  fw_word :: jstring
  fw_start :: nat
  fw_end :: nat
  fw_shortAllowed :: bool

record SearchSpan =
  span_term :: jstring
  span_start :: nat
  span_end :: nat

text \<open>The words pushed for the run of the fold from \<open>i\<close> to \<open>j\<close>.\<close>

definition folded_word :: "jstring \<Rightarrow> FoldedText \<Rightarrow> nat \<Rightarrow> nat \<Rightarrow> FoldedWord list" where
  "folded_word text F i j =
     (let start = starts F ! i;
          end' = ends F ! (j - 1);
          word = slice (folded F) i j;
          allowed = (js_trim (slice text 0 start) = [] \<or> slice text end' (end' + 1) = js ''.'')
      in case GLUED_CATALOGUE word of
           Some (head, number) \<Rightarrow>
             (if CATALOGUES head \<noteq> None \<and> (\<not> shortCatalogue head \<or> allowed)
              then [\<lparr>fw_word = head, fw_start = start, fw_end = ends F ! (i + length head - 1),
                      fw_shortAllowed = allowed\<rparr>,
                    \<lparr>fw_word = number, fw_start = starts F ! (i + length head), fw_end = end',
                      fw_shortAllowed = False\<rparr>]
              else [\<lparr>fw_word = word, fw_start = start, fw_end = end', fw_shortAllowed = allowed\<rparr>])
         | None \<Rightarrow> [\<lparr>fw_word = word, fw_start = start, fw_end = end', fw_shortAllowed = allowed\<rparr>])"

lemma run_after_spaces:
  assumes "a = i + length (takeWhile (\<lambda>c. c = (32::nat)) (drop i s))" and "a < length s"
  shows "takeWhile (\<lambda>c. c \<noteq> 32) (drop a s) \<noteq> []"
proof -
  have "drop a s = dropWhile (\<lambda>c. c = 32) (drop i s)"
    using assms(1) by (simp add: dropWhile_eq_drop add.commute)
  moreover have "drop a s \<noteq> []" using assms(2) by simp
  ultimately have "hd (drop a s) \<noteq> 32"
    by (metis (mono_tags) hd_dropWhile)
  then show ?thesis using \<open>drop a s \<noteq> []\<close> by (intro takeWhile_nonempty)
qed

function folded_words_loop :: "jstring \<Rightarrow> FoldedText \<Rightarrow> nat \<Rightarrow> FoldedWord list" where
  "folded_words_loop text F i =
     (let a = i + length (takeWhile (\<lambda>c. c = 32) (drop i (folded F)))
      in if length (folded F) \<le> a then []
         else (let j = a + length (takeWhile (\<lambda>c. c \<noteq> 32) (drop a (folded F)))
               in folded_word text F a j @ folded_words_loop text F j))"
  by pat_completeness auto

termination folded_words_loop
proof (relation "measure (\<lambda>(text, F, i). length (folded F) - i)", goal_cases)
  case (2 t F i a j)
  have "i \<le> a" using 2(1) by simp
  moreover have "a < length (folded F)" using 2(2) by simp
  moreover have "a < j" using run_after_spaces [OF 2(1)] 2(3) calculation(2) by simp
  ultimately show ?case by simp
qed simp

declare folded_words_loop.simps [simp del]

definition foldedWords :: "unicode \<Rightarrow> jstring \<Rightarrow> FoldedWord list" where
  "foldedWords U text = folded_words_loop text (foldWithOffsets U text) 0"

section \<open>The spans\<close>

definition span :: "jstring \<Rightarrow> nat \<Rightarrow> nat \<Rightarrow> SearchSpan" where
  "span term s e = \<lparr>span_term = term, span_start = s, span_end = e\<rparr>"

text \<open>
  One turn of the loop on a word and the words after it: the spans it pushes and how many
  further words it consumes.
\<close>

definition span_step :: "FoldedWord \<Rightarrow> FoldedWord list \<Rightarrow> SearchSpan list \<times> nat" where
  "span_step word ws =
     (let w = fw_word word; s = fw_start word;
          has1 = (1 \<le> length ws); has2 = (2 \<le> length ws);
          next' = ws ! 0; third = ws ! 1;
          catalogue = (if shortCatalogue w \<and> \<not> fw_shortAllowed word then None else CATALOGUES w)
      in if catalogue = Some (js ''hob'') \<and> has1 \<and> has2 \<and>
            ROMAN_NUMERAL (fw_word next') \<and> CATALOGUE_NUMBER (fw_word third)
         then ([span (the catalogue @ fw_word next' @ fw_word third) s (fw_end third)], 2)
         else if catalogue \<noteq> None \<and> has1 \<and> CATALOGUE_NUMBER (fw_word next')
         then ([span (the catalogue @ fw_word next') s (fw_end next')], 1)
         else if has1 \<and> GERMAN_KEYS w \<noteq> None \<and> GERMAN_MODES (fw_word next') \<noteq> None
         then (let key = filter (\<lambda>c. c \<noteq> 32) (the (GERMAN_KEYS w))
               in ([span key s (fw_end word),
                    span (key @ the (GERMAN_MODES (fw_word next'))) s (fw_end next')], 1))
         else if ENGLISH_FLAT w
         then (let head = take 1 w @ js ''flat''
               in if has1 \<and> key_mode (fw_word next')
                  then ([span head s (fw_end word), span (head @ fw_word next') s (fw_end next')], 1)
                  else ([span head s (fw_end word)], 0))
         else if has1 \<and> single_note w \<and> accidental (fw_word next')
         then (let head = w @ fw_word next'
               in if has2 \<and> (key_mode (fw_word third) \<or> fw_word third = js ''m'')
                  then ([span head s (fw_end next'),
                         span (head @ (if fw_word third = js ''m'' then js ''minor'' else fw_word third))
                           s (fw_end third)], 2)
                  else ([span head s (fw_end next')], 1))
         else if has1 \<and> single_note w \<and> key_mode (fw_word next')
         then ([span (w @ fw_word next') s (fw_end next')], 1)
         else ([], 0))"

function span_loop :: "FoldedWord list \<Rightarrow> SearchSpan list" where
  "span_loop [] = []"
| "span_loop (word # ws) =
     (let (spans, extra) = span_step word ws in spans @ span_loop (drop extra ws))"
  by pat_completeness auto
termination
  by (relation "measure length") auto

definition searchTermSpans :: "unicode \<Rightarrow> jstring \<Rightarrow> SearchSpan list" where
  "searchTermSpans U text = span_loop (foldedWords U text)"

section \<open>Offsets of the fold\<close>

definition offsets_ok :: "nat \<Rightarrow> FoldedText \<Rightarrow> bool" where
  "offsets_ok pos F \<longleftrightarrow>
     length (starts F) = length (folded F) \<and> list_all2 (<) (starts F) (ends F) \<and>
     (\<forall>e \<in> set (ends F). e \<le> pos) \<and> sorted (starts F) \<and> sorted (ends F)"

lemma list_all2_less_bound:
  assumes "list_all2 (<) ss (es :: nat list)" and "\<forall>e \<in> set es. e \<le> p"
  shows "\<forall>s \<in> set ss. s < p"
proof
  fix s assume "s \<in> set ss"
  then obtain k where k: "k < length ss" "ss ! k = s" by (auto simp: in_set_conv_nth)
  then have "s < es ! k" "es ! k \<in> set es"
    using assms(1) by (auto simp: list_all2_conv_all_nth)
  with assms(2) show "s < p" by force
qed

lemma fold_letter_step_offsets:
  assumes ok: "offsets_ok pos F" and ne: "letter \<noteq> []"
  shows "offsets_ok (pos + length letter) (fold_letter_step U pos letter F)"
proof -
  let ?e = "pos + length letter"
  have bounds: "\<forall>s \<in> set (starts F). s < pos" "\<forall>e \<in> set (ends F). e \<le> pos"
    using ok list_all2_less_bound [of "starts F" "ends F" pos] by (simp_all add: offsets_ok_def)
  define es where
    "es = (if foldLetters U letter = [] \<and> ends F \<noteq> [] then butlast (ends F) @ [?e] else ends F)"
  have es: "list_all2 (<) (starts F) es \<and> sorted es \<and> (\<forall>e \<in> set es. e \<le> ?e)"
  proof (cases "foldLetters U letter = [] \<and> ends F \<noteq> []")
    case True
    then obtain es' e where e: "ends F = es' @ [e]" by (metis rev_exhaust)
    then obtain ss s where s: "starts F = ss @ [s]" "list_all2 (<) ss es'" "s < e"
      using ok by (auto simp: offsets_ok_def list_all2_append2 list_all2_Cons2)
    have eq: "es = es' @ [?e]" using True e by (simp add: es_def)
    have "sorted es'" "\<forall>x \<in> set es'. x \<le> ?e"
      using ok bounds(2) e by (auto simp: offsets_ok_def sorted_append)
    moreover have "s < ?e" using bounds(1) s(1) by auto
    ultimately show ?thesis using s(1,2) eq by (auto simp: sorted_append list_all2_appendI)
  next
    case False
    then show ?thesis using ok by (fastforce simp: es_def offsets_ok_def)
  qed
  let ?n = "length (foldLetters U letter)"
  have step: "fold_letter_step U pos letter F =
      \<lparr>folded = folded F @ foldLetters U letter, starts = starts F @ replicate ?n pos,
       ends = es @ replicate ?n ?e\<rparr>"
    by (simp add: fold_letter_step_def es_def Let_def)
  have "list_all2 (<) (replicate ?n pos) (replicate ?n ?e)"
    using ne by (auto simp: list_all2_conv_all_nth)
  moreover have "sorted (starts F @ replicate ?n pos)" "sorted (es @ replicate ?n ?e)"
    using es ok bounds(1) by (auto simp: sorted_append offsets_ok_def less_imp_le)
  ultimately show ?thesis
    using es ok unfolding step offsets_ok_def by (auto intro: list_all2_appendI)
qed

lemma next_letter_length:
  "valid_text (u # us) \<Longrightarrow> next_letter (u # us) \<noteq> [] \<and> length (next_letter (u # us)) \<le> length (u # us)"
  by (cases us) (auto simp: next_letter_def units_of_pair)

lemma fold_offsets_loop_ok:
  "valid_text rest \<Longrightarrow> offsets_ok pos acc \<Longrightarrow>
   offsets_ok (pos + length rest) (fold_offsets_loop U pos rest acc)"
proof (induction U pos rest acc rule: fold_offsets_loop.induct)
  case (2 U pos u us acc)
  let ?letter = "next_letter (u # us)"
  have letter: "?letter \<noteq> []" "length ?letter \<le> length (u # us)"
    using next_letter_length "2.prems"(1) by blast+
  have "valid_text (drop (length ?letter) (u # us))"
    using "2.prems"(1) set_drop_subset unfolding valid_text_def by fast
  moreover have "offsets_ok (pos + length ?letter) (fold_letter_step U pos ?letter acc)"
    using fold_letter_step_offsets "2.prems"(2) letter(1) by blast
  ultimately have "offsets_ok (pos + length ?letter + length (drop (length ?letter) (u # us)))
      (fold_offsets_loop U pos (u # us) acc)"
    using "2.IH" by (simp add: Let_def)
  moreover have "pos + length ?letter + length (drop (length ?letter) (u # us)) = pos + length (u # us)"
    using letter(2) by simp
  ultimately show ?case by (simp only:)
qed simp

lemma foldWithOffsets_ok: "valid_text text \<Longrightarrow> offsets_ok (length text) (foldWithOffsets U text)"
  using fold_offsets_loop_ok [of "text" 0 "\<lparr>folded = [], starts = [], ends = []\<rparr>" U]
  by (simp add: foldWithOffsets_def offsets_ok_def)

section \<open>Words of the fold\<close>

text \<open>A folded word stands for the letters \<open>a\<close> to \<open>b\<close> of the fold.\<close>

definition word_between :: "FoldedText \<Rightarrow> nat \<Rightarrow> nat \<Rightarrow> FoldedWord \<Rightarrow> bool" where
  "word_between F i j w \<longleftrightarrow>
     (\<exists>a b. i \<le> a \<and> a < b \<and> b \<le> j \<and> fw_word w = slice (folded F) a b \<and>
        fw_start w = starts F ! a \<and> fw_end w = ends F ! (b - 1))"

definition word_order :: "FoldedWord \<Rightarrow> FoldedWord \<Rightarrow> bool" where
  "word_order w v \<longleftrightarrow> fw_start w \<le> fw_start v \<and> fw_end w \<le> fw_end v"

lemma word_between_order:
  assumes "offsets_ok n F" and "word_between F i j w" and "word_between F j k v" and "k \<le> length (folded F)"
  shows "word_order w v"
proof -
  obtain a b where w: "a < b" "b \<le> j" "fw_start w = starts F ! a" "fw_end w = ends F ! (b - 1)"
    using assms(2) by (auto simp: word_between_def)
  obtain c d where v: "j \<le> c" "c < d" "d \<le> k" "fw_start v = starts F ! c" "fw_end v = ends F ! (d - 1)"
    using assms(3) by (auto simp: word_between_def)
  have "length (ends F) = length (folded F)"
    using assms(1) by (auto simp: offsets_ok_def dest: list_all2_lengthD)
  then show ?thesis
    using w v assms by (simp add: word_order_def offsets_ok_def sorted_nth_mono)
qed

lemma word_between_bounds:
  assumes "offsets_ok n F" and "word_between F i j w" and "j \<le> length (folded F)"
  shows "fw_start w < fw_end w" and "fw_end w \<le> n"
proof -
  obtain a b where w: "a < b" "b \<le> j" "fw_start w = starts F ! a" "fw_end w = ends F ! (b - 1)"
    using assms(2) by (auto simp: word_between_def)
  have len: "length (ends F) = length (folded F)" "length (starts F) = length (folded F)"
    using assms(1) by (auto simp: offsets_ok_def dest: list_all2_lengthD)
  have "starts F ! a < ends F ! a" "ends F ! a \<le> ends F ! (b - 1)"
    using assms w len by (auto simp: offsets_ok_def list_all2_conv_all_nth sorted_nth_mono)
  with w show "fw_start w < fw_end w" by simp
  show "fw_end w \<le> n" using assms w len by (simp add: offsets_ok_def)
qed

lemma GLUED_CATALOGUE_Some:
  "GLUED_CATALOGUE w = Some (head, number) \<Longrightarrow> w = head @ number \<and> head \<noteq> [] \<and> number \<noteq> []"
  by (auto simp: GLUED_CATALOGUE_def CATALOGUE_NUMBER_def Let_def split: if_splits)

lemma slice_split_at:
  assumes "slice s a j = h @ t"
  shows "slice s a (a + length h) = h" and "slice s (a + length h) j = t"
proof -
  have "length h \<le> j - a" using arg_cong [OF assms, of length] by (simp add: slice_def)
  then have "take (length h) (slice s a j) = take (length h) (drop a s)"
    by (simp add: slice_def min_def)
  moreover have "take (length h) (slice s a j) = h" using assms by simp
  ultimately show "slice s a (a + length h) = h" by (simp add: slice_def)
  have "t = drop (length h) (slice s a j)" using assms by simp
  then show "slice s (a + length h) j = t" by (simp add: slice_def drop_take ac_simps)
qed

lemma folded_word_between:
  assumes "a < j" and "j \<le> length (folded F)"
  shows "(\<forall>w \<in> set (folded_word text F a j). word_between F a j w) \<and>
    (offsets_ok n F \<longrightarrow> sorted_wrt word_order (folded_word text F a j))"
proof -
  let ?word = "slice (folded F) a j"
  define allowed where "allowed = (js_trim (slice text 0 (starts F ! a)) = [] \<or>
      slice text (ends F ! (j - 1)) (ends F ! (j - 1) + 1) = js ''.'')"
  have whole: "word_between F a j \<lparr>fw_word = ?word, fw_start = starts F ! a, fw_end = ends F ! (j - 1),
      fw_shortAllowed = allowed\<rparr>"
    using assms(1) by (auto simp: word_between_def)
  show ?thesis
  proof (cases "GLUED_CATALOGUE ?word")
    case None
    then show ?thesis using whole
      by (simp add: folded_word_def Let_def allowed_def)
  next
    case (Some p)
    obtain h t where p: "p = (h, t)" by fastforce
    have word: "?word = h @ t" "h \<noteq> []" "t \<noteq> []" using GLUED_CATALOGUE_Some Some p by auto
    have "length h + length t = j - a"
      using arg_cong [OF word(1), of length] assms by (simp add: slice_def)
    then have cut: "a < a + length h" "a + length h < j" using word(2,3) by (auto simp flip: length_greater_0_conv)
    note parts = slice_split_at [OF word(1)]
    let ?h = "\<lparr>fw_word = h, fw_start = starts F ! a, fw_end = ends F ! (a + length h - 1),
        fw_shortAllowed = allowed\<rparr>"
    let ?t = "\<lparr>fw_word = t, fw_start = starts F ! (a + length h), fw_end = ends F ! (j - 1),
        fw_shortAllowed = False\<rparr>"
    have h: "word_between F a (a + length h) ?h"
      unfolding word_between_def
      by (intro exI [of _ a] exI [of _ "a + length h"]) (use cut parts in simp)
    have t: "word_between F (a + length h) j ?t"
      unfolding word_between_def
      by (intro exI [of _ "a + length h"] exI [of _ j]) (use cut parts in simp)
    have "word_between F a j ?h" "word_between F a j ?t"
      using h t cut unfolding word_between_def by (meson le_trans less_imp_le)+
    moreover have "offsets_ok n F \<Longrightarrow> word_order ?h ?t"
      using word_between_order [OF _ h t assms(2)] .
    ultimately show ?thesis using whole Some p
      by (simp add: folded_word_def Let_def allowed_def)
  qed
qed

lemma folded_words_loop_between:
  "offsets_ok n F \<Longrightarrow>
   (\<forall>w \<in> set (folded_words_loop text F i). word_between F i (length (folded F)) w) \<and>
   sorted_wrt word_order (folded_words_loop text F i)"
proof (induction "text" F i rule: folded_words_loop.induct)
  case (1 t F i)
  define a where "a = i + length (takeWhile (\<lambda>c. c = 32) (drop i (folded F)))"
  define j where "j = a + length (takeWhile (\<lambda>c. c \<noteq> 32) (drop a (folded F)))"
  note unf = folded_words_loop.simps [of t F i, folded a_def, unfolded Let_def, folded j_def]
  show ?case
  proof (cases "length (folded F) \<le> a")
    case True
    then show ?thesis unfolding unf by simp
  next
    case False
    have ia: "i \<le> a" by (simp add: a_def)
    have aj: "a < j" using run_after_spaces [OF a_def] False by (simp add: j_def)
    have "length (takeWhile (\<lambda>c. c \<noteq> 32) (drop a (folded F))) \<le> length (drop a (folded F))"
      by (rule length_takeWhile_le)
    then have jn: "j \<le> length (folded F)" using False by (simp add: j_def)
    note first = folded_word_between [OF aj jn, of t n]
    have rest: "(\<forall>w \<in> set (folded_words_loop t F j). word_between F j (length (folded F)) w) \<and>
        sorted_wrt word_order (folded_words_loop t F j)"
      using "1.IH" [OF a_def] False j_def "1.prems" by blast
    have wide: "word_between F i (length (folded F)) w"
      if "word_between F a j w \<or> word_between F j (length (folded F)) w" for w
      using that ia aj jn unfolding word_between_def by (meson le_trans less_imp_le)
    have "word_order w v" if "w \<in> set (folded_word t F a j)" "v \<in> set (folded_words_loop t F j)" for w v
      using word_between_order [OF "1.prems", of a j w "length (folded F)" v] first rest that by blast
    then show ?thesis
      unfolding unf using False first rest wide "1.prems" by (auto simp: sorted_wrt_append)
  qed
qed

section \<open>Spans\<close>

lemma span_simps [simp]:
  "span_term (span t s e) = t" "span_start (span t s e) = s" "span_end (span t s e) = e"
  by (simp_all add: span_def)

definition ends_at :: "FoldedWord \<Rightarrow> FoldedWord list \<Rightarrow> SearchSpan list \<times> nat \<Rightarrow> bool" where
  "ends_at word ws r \<longleftrightarrow>
     (\<forall>sp \<in> set (fst r). span_start sp = fw_start word \<and> (\<exists>w \<in> set (word # ws). span_end sp = fw_end w))"

lemma ends_at_if: "(c \<Longrightarrow> ends_at w ws a) \<Longrightarrow> (\<not> c \<Longrightarrow> ends_at w ws b) \<Longrightarrow> ends_at w ws (if c then a else b)"
  by simp

lemma span_step_ends_at: "ends_at word ws (span_step word ws)"
proof -
  have at0: "1 \<le> length ws \<Longrightarrow> ws ! 0 \<in> set ws" and at1: "2 \<le> length ws \<Longrightarrow> ws ! 1 \<in> set ws"
    by (rule nth_mem, linarith)+
  show ?thesis
    unfolding span_step_def Let_def
    by (intro ends_at_if; (elim conjE)?; (drule at1)?; (drule at0)?; simp add: ends_at_def; blast)
qed

lemma span_step_ends:
  "sp \<in> set (fst (span_step word ws)) \<Longrightarrow>
   span_start sp = fw_start word \<and> (\<exists>w \<in> set (word # ws). span_end sp = fw_end w)"
  using span_step_ends_at unfolding ends_at_def by blast

definition spans_of :: "nat \<Rightarrow> FoldedWord list \<Rightarrow> bool" where
  "spans_of n ws \<longleftrightarrow>
     (\<forall>w \<in> set ws. fw_start w < fw_end w \<and> fw_end w \<le> n) \<and> sorted_wrt word_order ws"

lemma span_loop_bounds:
  "spans_of n ws \<Longrightarrow>
   (\<forall>s \<in> set (span_loop ws). span_start s < span_end s \<and> span_end s \<le> n \<and>
      (\<exists>w \<in> set ws. span_start s = fw_start w)) \<and>
   sorted (map span_start (span_loop ws))"
proof (induction ws rule: span_loop.induct)
  case (2 word ws)
  obtain spans extra where step: "span_step word ws = (spans, extra)" by fastforce
  have sub: "set (drop extra ws) \<subseteq> set ws" by (rule set_drop_subset)
  have "spans_of n (drop extra ws)"
    using "2.prems" sub sorted_wrt_drop [of word_order ws extra] by (simp add: spans_of_def) blast
  then have IH: "(\<forall>s \<in> set (span_loop (drop extra ws)). span_start s < span_end s \<and> span_end s \<le> n \<and>
      (\<exists>w \<in> set (drop extra ws). span_start s = fw_start w)) \<and>
      sorted (map span_start (span_loop (drop extra ws)))"
    using "2.IH" [OF step [symmetric] refl] by simp
  have mono: "fw_start word \<le> fw_start w \<and> fw_end word \<le> fw_end w" if "w \<in> set (word # ws)" for w
    using "2.prems" that by (auto simp: spans_of_def word_order_def)
  have here: "span_start s = fw_start word \<and> span_start s < span_end s \<and> span_end s \<le> n"
    if "s \<in> set spans" for s
  proof -
    obtain w where w: "span_start s = fw_start word" "w \<in> set (word # ws)" "span_end s = fw_end w"
      using span_step_ends [of s word ws] \<open>s \<in> set spans\<close> step by auto
    have "fw_start word < fw_end word" "fw_end w \<le> n"
      using "2.prems" w(2) by (auto simp: spans_of_def)
    then show ?thesis using w mono [OF w(2)] by simp
  qed
  have eq: "span_loop (word # ws) = spans @ span_loop (drop extra ws)" using step by simp
  have "sorted (map span_start spans)"
    using here by (simp add: sorted_iff_nth_mono)
  moreover have "span_start s \<le> span_start s'"
    if "s \<in> set spans" "s' \<in> set (span_loop (drop extra ws))" for s s'
    using here [OF that(1)] IH that(2) mono sub by (metis set_subset_Cons subsetD)
  moreover have "\<exists>w \<in> set (word # ws). span_start s = fw_start w" if "s \<in> set (span_loop (word # ws))" for s
  proof -
    from that consider "s \<in> set spans" | "s \<in> set (span_loop (drop extra ws))"
      unfolding eq set_append by blast
    then show ?thesis
    proof cases
      case 1
      then show ?thesis using here by simp
    next
      case 2
      then show ?thesis using IH sub by (meson list.set_intros(2) subsetD)
    qed
  qed
  ultimately have order: "sorted (map span_start (span_loop (word # ws)))"
      and mem: "\<forall>s \<in> set (span_loop (word # ws)). \<exists>w \<in> set (word # ws). span_start s = fw_start w"
    using IH unfolding eq by (simp_all only: map_append sorted_append set_map) blast+
  have "span_start s < span_end s \<and> span_end s \<le> n" if "s \<in> set (span_loop (word # ws))" for s
    using that here IH unfolding eq set_append by blast
  with order mem show ?case by blast
qed simp

lemma foldedWords_spans_of:
  assumes "valid_text text"
  shows "spans_of (length text) (foldedWords U text)"
proof -
  let ?F = "foldWithOffsets U text"
  have ok: "offsets_ok (length text) ?F" using assms by (rule foldWithOffsets_ok)
  have "fw_start w < fw_end w \<and> fw_end w \<le> length text" if "word_between ?F 0 (length (folded ?F)) w" for w
    using word_between_bounds [OF ok that] by simp
  with folded_words_loop_between [OF ok, of "text" 0] show ?thesis
    by (simp add: spans_of_def foldedWords_def)
qed

section \<open>The offset fold and the fold\<close>

text \<open>
  \<open>foldWithOffsets\<close> folds one character at a time, so a run of other characters is several
  spaces where the fold has one. Collapsing them gives the fold.
\<close>

fun squash_from :: "(nat \<Rightarrow> bool) \<Rightarrow> bool \<Rightarrow> nat list \<Rightarrow> nat list" where
  "squash_from P b [] = []"
| "squash_from P b (c # cs) =
     (if P c then c # squash_from P False cs
      else if b then squash_from P True cs else 32 # squash_from P True cs)"

fun squash_state :: "(nat \<Rightarrow> bool) \<Rightarrow> bool \<Rightarrow> nat list \<Rightarrow> bool" where
  "squash_state P b [] = b"
| "squash_state P b (c # cs) = squash_state P (\<not> P c) cs"

lemma squash_from_True: "squash_from P True cs = squash_from P False (dropWhile (\<lambda>d. \<not> P d) cs)"
  by (induction cs) auto

lemma squash_is_from: "squash P cs = squash_from P False cs"
  by (induction P cs rule: squash.induct) (auto simp: squash_from_True)

lemma squash_from_append:
  "squash_from P b (xs @ ys) = squash_from P b xs @ squash_from P (squash_state P b xs) ys"
  by (induction xs arbitrary: b) auto

lemma squash_state_append: "squash_state P b (xs @ ys) = squash_state P (squash_state P b xs) ys"
  by (induction xs arbitrary: b) auto

lemma squash_from_twice:
  assumes "\<And>c. P c \<Longrightarrow> N c" and "\<not> N 32" and "b' \<longrightarrow> b"
  shows "squash_from N b (squash_from P b' xs) = squash_from P b xs \<and>
    squash_state N b (squash_from P b' xs) = squash_state P b xs"
  using assms(3)
proof (induction xs arbitrary: b b')
  case (Cons c cs)
  then show ?case
    using Cons.IH [of False False] Cons.IH [of True True] assms(1,2) by auto
qed simp

lemma squash_pieces:
  assumes "\<And>c. P c \<Longrightarrow> N c" and "\<not> N 32"
  shows "squash_from N b (concat (map (squash P) parts)) = squash_from P b (concat parts)"
proof (induction parts arbitrary: b)
  case (Cons p parts)
  show ?case
    using Cons squash_from_twice [of P N False b p] assms
    by (simp add: squash_from_append squash_is_from)
qed simp

lemma normalize_letters_ascii_sharp:
  assumes "ascii_ok U" and "\<forall>c \<in> set s. c < 128"
  shows "normalize_letters U s = concat (map (\<lambda>c. leftover (ascii_lower c)) s)"
  using assms by (simp add: normalize_letters_def ascii_okD comp_def)

lemma leftover_ascii_small: "c < 128 \<Longrightarrow> d \<in> set (leftover (ascii_lower c)) \<Longrightarrow> d < 128"
proof (cases "ascii_lower c = 35")
  case False
  assume c: "c < 128" and d: "d \<in> set (leftover (ascii_lower c))"
  have "ascii_lower c < 128" using c by (auto simp: ascii_lower_def is_upper_az_def)
  then show ?thesis using d False by (simp add: leftover_ascii)
qed (auto simp: leftover_def LEFTOVERS_def js_def)

lemma foldLetters_ascii:
  assumes U: "ascii_ok U" and s: "\<forall>c \<in> set s. c < 128"
  shows "foldLetters U s = squash (searchable U) (concat (map (\<lambda>c. leftover (ascii_lower c)) s))"
proof -
  let ?n = "concat (map (\<lambda>c. leftover (ascii_lower c)) s)"
  have small: "\<forall>d \<in> set ?n. d < 128" using s leftover_ascii_small by fastforce
  then have "filter (\<lambda>d. \<not> is_mark U d) ?n = ?n"
    using ascii_okD(3) [OF U] by (simp add: filter_id_conv)
  moreover have "plain_text (squash (searchable U) ?n)"
    using small set_squash [of "searchable U" ?n] by (fastforce simp: plain_text_def)
  moreover have "plain_text s" using s by (fastforce simp: plain_text_def)
  ultimately show ?thesis
    using U s by (simp add: foldLetters_def fold_letters_points_def normalize_letters_ascii_sharp)
qed

lemma next_letter_ascii: "\<forall>c \<in> set (u # us). c < 128 \<Longrightarrow> next_letter (u # us) = [u]"
  by (cases us) (auto simp: next_letter_def degree_pair_def high_surrogate_def)

lemma fold_offsets_loop_ascii:
  "\<forall>c \<in> set rest. c < 128 \<Longrightarrow>
   folded (fold_offsets_loop U pos rest acc) = folded acc @ concat (map (\<lambda>c. foldLetters U [c]) rest)"
proof (induction U pos rest acc rule: fold_offsets_loop.induct)
  case (2 U pos u us acc)
  then have "next_letter (u # us) = [u]" by (simp only: next_letter_ascii)
  moreover have "folded (fold_letter_step U pos [u] acc) = folded acc @ foldLetters U [u]"
    by (simp add: fold_letter_step_def Let_def)
  ultimately show ?case using 2 by simp
qed simp

section \<open>Properties\<close>

text \<open>The spans marked for a text are non-empty stretches of it, in the order in which they
  start, so highlighting them never leaves the text.\<close>

theorem search_spans_in_text:
  assumes "valid_text text"
  shows "list_all (\<lambda>s. span_start s < span_end s \<and> span_end s \<le> length text) (searchTermSpans U text) \<and>
    sorted (map span_start (searchTermSpans U text))"
  using span_loop_bounds [OF foldedWords_spans_of [OF assms]] by (simp add: searchTermSpans_def list_all_iff)

theorem search_spans_in_text_witness:
  "list_all (\<lambda>s. span_start s < span_end s \<and> span_end s \<le> length (js ''Op. 28''))
      (searchTermSpans ascii_db (js ''Op. 28'')) \<and>
    sorted (map span_start (searchTermSpans ascii_db (js ''Op. 28'')))"
  by (rule search_spans_in_text) code_simp

text \<open>For a text in ASCII, the fold with offsets that the highlighter reads is the fold that
  search compares, up to runs of spaces: with every run collapsed and the ends trimmed they are
  the same text.\<close>

theorem offset_fold_is_fold:
  assumes U: "ascii_ok U" and s: "\<forall>c \<in> set text. c < 128"
  shows "js_trim (squash (\<lambda>c. c \<noteq> 32) (folded (foldWithOffsets U text))) = fold_text U text"
proof -
  let ?P = "searchable U" and ?l = "\<lambda>c. leftover (ascii_lower c)"
  have "folded (foldWithOffsets U text) = concat (map (squash ?P) (map ?l text))"
    using foldLetters_ascii [OF U] s
    by (simp add: foldWithOffsets_def fold_offsets_loop_ascii comp_def cong: map_cong)
  moreover have "?P c \<Longrightarrow> c \<noteq> 32" for c
    using ascii_okD(1) [OF U, of 32] by (auto simp: is_az_def is_upper_az_def is_digit_def)
  ultimately have "squash (\<lambda>c. c \<noteq> 32) (folded (foldWithOffsets U text)) = foldLetters U text"
    using squash_pieces [of ?P "\<lambda>c. c \<noteq> 32" False "map ?l text"] foldLetters_ascii [OF U s]
    by (simp add: squash_is_from)
  then show ?thesis by (simp add: fold_text_def)
qed

theorem offset_fold_is_fold_witness:
  "js_trim (squash (\<lambda>c. c \<noteq> 32) (folded (foldWithOffsets ascii_db (js ''C#, No. 1!'')))) =
    fold_text ascii_db (js ''C#, No. 1!'')"
  by (rule offset_fold_is_fold [OF ascii_db_ok]) code_simp

end
