(* ===== verification/MatchParts.thy ===== *)
theory MatchParts
  imports LibraryUtils SearchSpans
begin

text \<open>
  Marking a row's text where it matches the search (\<open>matchParts\<close> of
  \<open>web/src/app/features/library/library.utils.ts\<close>). The loop over the occurrences of a word
  is a partial function: for the empty word \<open>indexOf\<close> always finds a position, and the loop
  does not end.
\<close>

section \<open>Occurrences of a word\<close>

partial_function (option) occurrences :: "jstring \<Rightarrow> jstring \<Rightarrow> nat \<Rightarrow> nat list option" where
  "occurrences s word pos =
     (case index_of s word pos of
        None \<Rightarrow> Some []
      | Some i \<Rightarrow> Option.bind (occurrences s word (i + 1)) (\<lambda>rest. Some (i # rest)))"

definition is_space_at :: "jstring \<Rightarrow> nat \<Rightarrow> bool" where
  "is_space_at s i \<longleftrightarrow> length s \<le> i \<or> s ! i = 32"

definition word_starts_at :: "jstring \<Rightarrow> nat \<Rightarrow> bool" where  \<comment> \<open>\<open>isSpace(at - 1)\<close>\<close>
  "word_starts_at s i \<longleftrightarrow> i = 0 \<or> is_space_at s (i - 1)"

definition found_at :: "jstring \<Rightarrow> jstring \<Rightarrow> nat list option" where
  "found_at s word =
     Option.bind (occurrences s word 0) (\<lambda>hits.
       let letter = (length word = 1);
           found = filter (\<lambda>i. word_starts_at s i \<and> (\<not> letter \<or> is_space_at s (i + 1))) hits
       in Some (if found = [] \<and> \<not> letter \<and> text_includes s word
                then [the (index_of s word 0)] else found))"

text \<open>The ranges the words mark in the fold, and the words found nowhere.\<close>

fun word_ranges ::
  "FoldedText \<Rightarrow> jstring list \<Rightarrow> ((nat \<times> nat) list \<times> jstring list) option" where
  "word_ranges F [] = Some ([], [])"
| "word_ranges F (word # ws) =
     Option.bind (found_at (folded F) word) (\<lambda>found.
       Option.bind (word_ranges F ws) (\<lambda>(ranges, unmatched).
         Some (map (\<lambda>i. (starts F ! i, ends F ! (i + length word - 1))) found @ ranges,
               if found = [] then word # unmatched else unmatched)))"

section \<open>The parts\<close>

record MatchPart =
  part_text :: jstring
  part_mark :: bool

text \<open>One turn of the loop over the sorted ranges, on the parts so far and the length shown.\<close>

definition add_range ::
  "jstring \<Rightarrow> MatchPart list \<times> nat \<Rightarrow> nat \<times> nat \<Rightarrow> MatchPart list \<times> nat" where
  "add_range text acc rng =
     (case (acc, rng) of ((parts, shown), (start, end')) \<Rightarrow>
        if end' \<le> shown then (parts, shown)
        else (let first = max start shown;
                  parts = (if first > shown
                    then parts @ [\<lparr>part_text = slice text shown first, part_mark = False\<rparr>] else parts);
                  marked = slice text first end'
              in if parts \<noteq> [] \<and> part_mark (last parts) \<and> first = shown
                 then (butlast parts @
                        [(last parts)\<lparr>part_text := part_text (last parts) @ marked\<rparr>], end')
                 else (parts @ [\<lparr>part_text = marked, part_mark = True\<rparr>], end')))"

definition parts_of_ranges :: "jstring \<Rightarrow> (nat \<times> nat) list \<Rightarrow> MatchPart list" where
  "parts_of_ranges text ranges =
     (case foldl (add_range text) ([], 0) ranges of (parts, shown) \<Rightarrow>
        if shown < length text
        then parts @ [\<lparr>part_text = drop shown text, part_mark = False\<rparr>] else parts)"

definition match_ranges :: "unicode \<Rightarrow> jstring \<Rightarrow> jstring list \<Rightarrow> (nat \<times> nat) list option" where
  "match_ranges U text words =
     Option.bind (word_ranges (foldWithOffsets U text) words) (\<lambda>(ranges, unmatched).
       let spans = (if unmatched = [] then []
             else filter (\<lambda>s. span_term s \<in> set unmatched) (searchTermSpans U text))
       in Some (js_sort (cmp_on (\<lambda>r. int (fst r)) cmp_int)
                  (ranges @ map (\<lambda>s. (span_start s, span_end s)) spans)))"

definition matchParts :: "unicode \<Rightarrow> jstring \<Rightarrow> jstring \<Rightarrow> MatchPart list option" where
  "matchParts U text query =
     (let words = searchTerms U query
      in if words = [] \<or> text = [] then Some [\<lparr>part_text = text, part_mark = False\<rparr>]
         else map_option (parts_of_ranges text) (match_ranges U text words))"

section \<open>When the loop over the occurrences ends\<close>

lemma index_from_later: "p \<noteq> [] \<Longrightarrow> index_from s p = Some i \<Longrightarrow> i < length s"
  using index_from_Some [of s p i] by (cases p) auto

lemma occurrences_end:
  "word \<noteq> [] \<Longrightarrow>
   \<exists>hits. occurrences s word pos = Some hits \<and> (\<forall>i \<in> set hits. i + length word \<le> length s)"
proof (induction "Suc (length s) - pos" arbitrary: pos rule: less_induct)
  case less
  show ?case
  proof (cases "index_of s word pos")
    case None
    then show ?thesis by (simp add: occurrences.simps)
  next
    case (Some i)
    have i: "min pos (length s) \<le> i" "i + length word \<le> length s"
      using index_of_Some [OF Some] by simp_all
    moreover have "0 < length word" using less.prems by simp
    ultimately have "pos \<le> i" "i < length s" by linarith+
    then have "Suc (length s) - (i + 1) < Suc (length s) - pos" by linarith
    then obtain hits where "occurrences s word (i + 1) = Some hits"
        "\<forall>i \<in> set hits. i + length word \<le> length s"
      using less.hyps [of "i + 1"] less.prems by blast
    then show ?thesis using Some i by (simp add: occurrences.simps [of s word pos])
  qed
qed

lemma occurrences_empty_word: "occurrences s [] pos = None"
proof -
  have "w \<noteq> []" if "occurrences s w pos = Some hits" for w hits
    by (rule occurrences.raw_induct [where P = "\<lambda>s w pos hits. w \<noteq> []", OF _ that])
       (auto simp: index_of_empty split: option.splits Option.bind_splits)
  then show ?thesis by (cases "occurrences s [] pos") auto
qed

lemma found_at_end:
  assumes "word \<noteq> []"
  shows "\<exists>found. found_at s word = Some found \<and> (\<forall>i \<in> set found. i + length word \<le> length s)"
proof -
  obtain hits where hits: "occurrences s word 0 = Some hits" "\<forall>i \<in> set hits. i + length word \<le> length s"
    using occurrences_end [OF assms] by blast
  have "i + length word \<le> length s" if "text_includes s word" "i = the (index_of s word 0)" for i
    using that index_of_Some [of s word 0] index_of_None_iff [of s word] by fastforce
  then show ?thesis using hits by (auto simp: found_at_def Let_def)
qed

lemma word_ranges_end:
  assumes F: "offsets_ok n F"
  shows "[] \<notin> set ws \<Longrightarrow>
    \<exists>ranges unmatched. word_ranges F ws = Some (ranges, unmatched) \<and> (\<forall>(s, e) \<in> set ranges. s < e \<and> e \<le> n)"
proof (induction ws)
  case (Cons word ws)
  have len: "length (starts F) = length (folded F)" "length (ends F) = length (folded F)"
    using F by (auto simp: offsets_ok_def dest: list_all2_lengthD)
  obtain found where found: "found_at (folded F) word = Some found"
      "\<forall>i \<in> set found. i + length word \<le> length (folded F)"
    using found_at_end [of word "folded F"] Cons.prems by auto
  have "starts F ! i < ends F ! (i + length word - 1) \<and> ends F ! (i + length word - 1) \<le> n"
    if "i \<in> set found" for i
  proof -
    have i: "i \<le> i + length word - 1" "i + length word - 1 < length (folded F)" "i < length (folded F)"
    proof -
      have "0 < length word" using Cons.prems by auto
      moreover have "i + length word \<le> length (folded F)" using that found(2) by blast
      ultimately show "i \<le> i + length word - 1" "i + length word - 1 < length (folded F)" "i < length (folded F)"
        by linarith+
    qed
    have "starts F ! i < ends F ! i" "ends F ! i \<le> ends F ! (i + length word - 1)"
      using F i len by (auto simp: offsets_ok_def list_all2_conv_all_nth sorted_nth_mono)
    moreover have "ends F ! (i + length word - 1) \<le> n" using F i len by (simp add: offsets_ok_def)
    ultimately show ?thesis by linarith
  qed
  moreover obtain ranges unmatched where "word_ranges F ws = Some (ranges, unmatched)"
      "\<forall>(s, e) \<in> set ranges. s < e \<and> e \<le> n"
    using Cons by auto
  ultimately show ?case using found by auto
qed simp

definition ranges_ok :: "nat \<Rightarrow> (nat \<times> nat) list \<Rightarrow> bool" where
  "ranges_ok n rs \<longleftrightarrow> (\<forall>(s, e) \<in> set rs. s < e \<and> e \<le> n) \<and> sorted (map fst rs)"

lemma sorted_starts: "sorted (map fst (js_sort (cmp_on (\<lambda>r. int (fst r)) cmp_int) (rs :: (nat \<times> nat) list)))"
proof -
  have "comparator (cmp_on (\<lambda>r :: nat \<times> nat. int (fst r)) cmp_int) UNIV"
    by (rule comparator_on [OF comparator_int [of UNIV]]) simp
  from comparator.sort_in_order [OF this, of rs]
  show ?thesis
    by (auto simp: in_order_def cmp_on_def cmp_int_def sorted_map elim: sorted_wrt_mono_rel [rotated])
qed

lemma match_ranges_end:
  assumes "valid_text text" and "[] \<notin> set ws"
  shows "\<exists>rs. match_ranges U text ws = Some rs \<and> ranges_ok (length text) rs"
proof -
  obtain ranges unmatched where r: "word_ranges (foldWithOffsets U text) ws = Some (ranges, unmatched)"
      "\<forall>(s, e) \<in> set ranges. s < e \<and> e \<le> length text"
    using word_ranges_end [OF foldWithOffsets_ok [OF assms(1)] assms(2)] by blast
  have spans: "span_start s < span_end s \<and> span_end s \<le> length text" if "s \<in> set (searchTermSpans U text)" for s
    using span_loop_bounds [OF foldedWords_spans_of [OF assms(1)]] that by (simp add: searchTermSpans_def)
  show ?thesis
    using r spans by (auto simp: match_ranges_def ranges_ok_def sorted_starts Let_def)
qed

lemma match_ranges_empty_word: "[] \<in> set ws \<Longrightarrow> match_ranges U text ws = None"
proof -
  have "found_at s [] = None" for s by (simp add: found_at_def occurrences_empty_word)
  then have "[] \<in> set ws \<Longrightarrow> word_ranges F ws = None" for F
    by (induction ws) (auto split: Option.bind_splits)
  then show "[] \<in> set ws \<Longrightarrow> match_ranges U text ws = None" by (simp add: match_ranges_def)
qed

section \<open>What the parts hold\<close>

definition marks :: "MatchPart list \<Rightarrow> bool list" where
  "marks parts = concat (map (\<lambda>p. replicate (length (part_text p)) (part_mark p)) parts)"

definition covered :: "(nat \<times> nat) list \<Rightarrow> nat \<Rightarrow> bool" where
  "covered rs k \<longleftrightarrow> list_ex (\<lambda>(s, e). s \<le> k \<and> k < e) rs"

lemma covered_append [simp]: "covered (rs @ rs') k \<longleftrightarrow> covered rs k \<or> covered rs' k"
  by (simp add: covered_def)

lemma covered_single [simp]: "covered [(s, e)] k \<longleftrightarrow> s \<le> k \<and> k < e"
  by (simp add: covered_def)

text \<open>After the ranges \<open>rs\<close>: the parts are the text shown, and mark what the ranges cover.\<close>

definition parts_inv :: "jstring \<Rightarrow> (nat \<times> nat) list \<Rightarrow> MatchPart list \<times> nat \<Rightarrow> bool" where
  "parts_inv text rs acc \<longleftrightarrow>
     (case acc of (parts, shown) \<Rightarrow>
        concat (map part_text parts) = take shown text \<and> shown \<le> length text \<and>
        (\<forall>p \<in> set parts. part_text p \<noteq> []) \<and>
        marks parts = map (covered rs) [0..<shown] \<and>
        (\<forall>(s, e) \<in> set rs. e \<le> shown) \<and> (shown = 0 \<or> shown \<in> snd ` set rs))"

lemma parts_inv_covered:
  assumes inv: "parts_inv text rs (parts, shown)" and first: "\<forall>(s', e') \<in> set rs. s' \<le> s"
    and k: "s \<le> k" "k < shown"
  shows "covered rs k"
proof -
  have "shown \<in> snd ` set rs" using inv k(2) by (auto simp: parts_inv_def)
  then obtain s' where "(s', shown) \<in> set rs" by force
  then have "s' \<le> k \<and> k < shown" using first k by force
  with \<open>(s', shown) \<in> set rs\<close> show ?thesis by (auto simp: covered_def list_ex_iff)
qed

lemma marks_simps [simp]:
  "marks [] = []" "marks (ps @ qs) = marks ps @ marks qs"
  "marks [\<lparr>part_text = t, part_mark = m\<rparr>] = replicate (length t) m"
  by (simp_all add: marks_def)

text \<open>Extending the last, marked part is adding a marked part.\<close>

lemma extend_last:
  assumes "ps \<noteq> []" and "part_mark (last ps)"
    and qs_def: "qs = butlast ps @ [(last ps)\<lparr>part_text := part_text (last ps) @ m\<rparr>]"
  shows "concat (map part_text qs) = concat (map part_text ps) @ m"
    and "marks qs = marks ps @ replicate (length m) True"
    and "(\<forall>p \<in> set ps. part_text p \<noteq> []) \<Longrightarrow> \<forall>p \<in> set qs. part_text p \<noteq> []"
proof -
  obtain rs p where ps: "ps = rs @ [p]" using assms(1) by (metis rev_exhaust)
  show "concat (map part_text qs) = concat (map part_text ps) @ m" by (simp add: qs_def ps)
  show "marks qs = marks ps @ replicate (length m) True"
    using assms(2) by (simp add: qs_def ps marks_def replicate_add)
  show "(\<forall>p \<in> set ps. part_text p \<noteq> []) \<Longrightarrow> \<forall>p \<in> set qs. part_text p \<noteq> []"
    by (auto simp: qs_def ps)
qed

lemma add_range_inv:
  assumes inv: "parts_inv text rs (parts, shown)" and first: "\<forall>(s', e') \<in> set rs. s' \<le> s"
    and r: "s < e" "e \<le> length text"
  shows "parts_inv text (rs @ [(s, e)]) (add_range text (parts, shown) (s, e))"
proof (cases "e \<le> shown")
  case True
  have "covered rs k \<longleftrightarrow> covered (rs @ [(s, e)]) k" if "k < shown" for k
    using parts_inv_covered [OF inv first] that by auto
  then have "map (covered rs) [0..<shown] = map (covered (rs @ [(s, e)])) [0..<shown]" by simp
  then show ?thesis using inv True by (auto simp: parts_inv_def add_range_def)
next
  case False
  let ?f = "max s shown"
  have old: "covered (rs @ [(s, e)]) k \<longleftrightarrow> covered rs k" if "k < shown" for k
    using parts_inv_covered [OF inv first] that False by auto
  have gap: "\<not> covered (rs @ [(s, e)]) k" if "shown \<le> k" "k < ?f" for k
    using that inv by (auto simp: covered_def list_ex_iff parts_inv_def split: if_splits)
  have new: "covered (rs @ [(s, e)]) k" if "?f \<le> k" "k < e" for k using that by simp
  have le: "shown \<le> ?f" "?f < e" using False r(1) by auto
  have "[0..<e] = [0..<shown] @ [shown..<?f] @ [?f..<e]"
    using le upt_split [of 0 shown e] upt_split [of shown ?f e] by simp
  then have cov: "map (covered (rs @ [(s, e)])) [0..<e] =
      map (covered rs) [0..<shown] @ replicate (?f - shown) False @ replicate (e - ?f) True"
    using map_upt_const [of shown ?f "covered (rs @ [(s, e)])" False]
      map_upt_const [of ?f e "covered (rs @ [(s, e)])" True] old gap new by simp
  define parts1 where "parts1 =
    (if ?f > shown then parts @ [\<lparr>part_text = slice text shown ?f, part_mark = False\<rparr>] else parts)"
  have flen: "?f \<le> length text" using le r by linarith
  have p1: "concat (map part_text parts1) = take ?f text" "\<forall>p \<in> set parts1. part_text p \<noteq> []"
    "marks parts1 = map (covered rs) [0..<shown] @ replicate (?f - shown) False"
  proof -
    have "take shown text @ slice text shown ?f = take ?f text"
      using take_drop_split [OF le(1)] by (simp add: slice_def)
    then show "concat (map part_text parts1) = take ?f text"
      using inv le(1) by (auto simp: parts1_def parts_inv_def)
    show "\<forall>p \<in> set parts1. part_text p \<noteq> []"
      using inv flen by (auto simp: parts1_def parts_inv_def slice_def)
    show "marks parts1 = map (covered rs) [0..<shown] @ replicate (?f - shown) False"
      using inv flen by (auto simp: parts1_def parts_inv_def length_slice)
  qed
  let ?m = "slice text ?f e"
  have m: "take ?f text @ ?m = take e text" "length ?m = e - ?f" "?m \<noteq> []"
    using le(2) r(2) take_drop_split [of ?f e "text"] by (auto simp: slice_def)
  define parts2 where "parts2 =
    (if parts1 \<noteq> [] \<and> part_mark (last parts1) \<and> ?f = shown
     then butlast parts1 @ [(last parts1)\<lparr>part_text := part_text (last parts1) @ ?m\<rparr>]
     else parts1 @ [\<lparr>part_text = ?m, part_mark = True\<rparr>])"
  have p2: "concat (map part_text parts2) = take e text" "\<forall>p \<in> set parts2. part_text p \<noteq> []"
    "marks parts2 = marks parts1 @ replicate (e - ?f) True"
    using p1(1,2) m extend_last [of parts1 _ ?m, OF _ _ refl] by (auto simp: parts2_def)
  have "add_range text (parts, shown) (s, e) = (parts2, e)"
    using False by (simp add: add_range_def parts2_def parts1_def Let_def)
  moreover have "\<forall>(s', e') \<in> set (rs @ [(s, e)]). e' \<le> e"
    using inv False by (auto simp: parts_inv_def)
  ultimately show ?thesis
    using p2 p1(3) cov r(2) by (simp add: parts_inv_def)
qed

lemma add_ranges_inv:
  "ranges_ok (length text) (done @ rs) \<Longrightarrow> parts_inv text done acc \<Longrightarrow>
   parts_inv text (done @ rs) (foldl (add_range text) acc rs)"
proof (induction rs arbitrary: "done" acc)
  case (Cons r rs)
  obtain s e where r: "r = (s, e)" by fastforce
  obtain parts shown where acc: "acc = (parts, shown)" by fastforce
  have "\<forall>(s', e') \<in> set done. s' \<le> s" "s < e" "e \<le> length text"
    using Cons.prems(1) r by (auto simp: ranges_ok_def sorted_append)
  then have "parts_inv text (done @ [r]) (add_range text acc r)"
    using add_range_inv Cons.prems(2) r acc by blast
  then show ?case using Cons.IH [of "done @ [r]"] Cons.prems(1) by simp
qed simp

lemma parts_of_ranges:
  assumes "ranges_ok (length text) rs"
  shows "concat (map part_text (parts_of_ranges text rs)) = text"
    and "\<forall>p \<in> set (parts_of_ranges text rs). part_text p \<noteq> []"
    and "marks (parts_of_ranges text rs) = map (covered rs) [0..<length text]"
proof -
  obtain parts shown where fold: "foldl (add_range text) ([], 0) rs = (parts, shown)" by fastforce
  have "parts_inv text [] ([], 0)" by (simp add: parts_inv_def)
  then have inv: "parts_inv text rs (parts, shown)"
    using add_ranges_inv [of "text" "[]" rs "([], 0)"] assms fold by simp
  have rest: "\<not> covered rs k" if "shown \<le> k" for k
    using that inv by (auto simp: covered_def list_ex_iff parts_inv_def)
  have "[0..<length text] = [0..<shown] @ [shown..<length text]"
    using inv by (intro upt_split) (auto simp: parts_inv_def)
  then have "map (covered rs) [0..<length text] =
      map (covered rs) [0..<shown] @ replicate (length text - shown) False"
    using map_upt_const [of shown "length text" "covered rs" False] rest by simp
  then show "marks (parts_of_ranges text rs) = map (covered rs) [0..<length text]"
    using inv by (auto simp: parts_of_ranges_def fold parts_inv_def)
  show "concat (map part_text (parts_of_ranges text rs)) = text"
    using inv by (auto simp: parts_of_ranges_def fold parts_inv_def)
  show "\<forall>p \<in> set (parts_of_ranges text rs). part_text p \<noteq> []"
    using inv by (auto simp: parts_of_ranges_def fold parts_inv_def)
qed

section \<open>Properties\<close>



text \<open>The highlighter hangs on an empty search term. Where one of the terms of the search is
  empty, as for a search that is only a combining mark, splitting any text that is not empty
  never returns: the loop over the occurrences of the empty word has no end.\<close>

theorem match_parts_empty_term_hangs:
  assumes "[] \<in> set (searchTerms U query)" and "text \<noteq> []"
  shows "matchParts U text query = None"
  using assms match_ranges_empty_word [OF assms(1)] by (auto simp: matchParts_def Let_def)

theorem match_parts_empty_term_hangs_witness:
  "searchTerms ascii_db [769] = [[]] \<and> matchParts ascii_db (js ''Waltz'') [769] = None"
proof
  show terms: "searchTerms ascii_db [769] = [[]]" by code_simp
  show "matchParts ascii_db (js ''Waltz'') [769] = None"
    by (rule match_parts_empty_term_hangs) (simp_all add: terms js_def)
qed

end
