(* ===== verification/Exif.thy ===== *)
theory Exif
  imports JsText "HOL-Library.Monad_Syntax"
begin

text \<open>
  Reading the EXIF orientation of a JPEG (\<open>jpegOrientation\<close> of
  \<open>web/src/app/features/prepare/processing-algorithms.ts\<close>). A \<open>DataView\<close> read beyond the
  buffer throws: every read here is partial, \<open>None\<close> being the \<open>RangeError\<close>, and the whole
  function is \<open>None\<close> where a read throws. Its value is an orientation or \<open>undefined\<close>.
\<close>

section \<open>Reads that may throw\<close>

definition getUint8 :: "nat list \<Rightarrow> nat \<Rightarrow> nat option" where
  "getUint8 v p = (if p < length v then Some (v ! p) else None)"

definition getUint16 :: "nat list \<Rightarrow> nat \<Rightarrow> bool \<Rightarrow> nat option" where
  "getUint16 v p little =
     do { a \<leftarrow> getUint8 v p; b \<leftarrow> getUint8 v (p + 1);
          Some (if little then a + 256 * b else 256 * a + b) }"

definition getUint32 :: "nat list \<Rightarrow> nat \<Rightarrow> bool \<Rightarrow> nat option" where
  "getUint32 v p little =
     do { a \<leftarrow> getUint16 v p little; b \<leftarrow> getUint16 v (p + 2) little;
          Some (if little then a + 65536 * b else 65536 * a + b) }"

section \<open>The orientation\<close>

text \<open>The entries of the directory from index \<open>n\<close> on.\<close>

function ifd_entries :: "nat list \<Rightarrow> bool \<Rightarrow> nat \<Rightarrow> nat \<Rightarrow> nat \<Rightarrow> nat option option" where
  "ifd_entries v little ifd entries n =
     (if n < entries
      then (let q = ifd + 2 + n * 12 in
        do { tag \<leftarrow> getUint16 v q little;
             if tag \<noteq> 274 then ifd_entries v little ifd entries (n + 1)
             else do { kind \<leftarrow> getUint16 v (q + 2) little;
                  number \<leftarrow> (if kind \<noteq> 3 then Some 0 else getUint32 v (q + 4) little);
                  if kind \<noteq> 3 \<or> number \<noteq> 1 then Some None
                  else do { orientation \<leftarrow> getUint16 v (q + 8) little;
                       Some (if 1 \<le> orientation \<and> orientation \<le> 8 then Some orientation else None) } } })
      else Some (Some 1))"
  by pat_completeness auto
termination
  by (relation "measure (\<lambda>(v, little, ifd, entries, n). entries - n)") auto

declare ifd_entries.simps [simp del]

text \<open>The TIFF header and directory of an EXIF segment that ends at \<open>fin\<close>.\<close>

definition exif_segment :: "nat list \<Rightarrow> nat \<Rightarrow> nat \<Rightarrow> nat option option" where
  "exif_segment v t fin =
     do { order \<leftarrow> getUint16 v t False;
          let little = (order = 18761);
          if \<not> little \<and> order \<noteq> 19789 then Some None
          else do { magic \<leftarrow> getUint16 v (t + 2) little;
               if magic \<noteq> 42 then Some None
               else do { offset \<leftarrow> getUint32 v (t + 4) little;
                    let ifd = t + offset;
                    if ifd < t \<or> ifd + 2 > fin then Some None
                    else do { entries \<leftarrow> getUint16 v ifd little;
                         if entries > 1024 \<or> ifd + 2 + entries * 12 > fin then Some None
                         else ifd_entries v little ifd entries 0 } } } }"

text \<open>Whether the segment at \<open>p\<close> is EXIF; the reads stop at the first test that fails.\<close>

definition is_exif :: "nat list \<Rightarrow> nat \<Rightarrow> nat \<Rightarrow> nat \<Rightarrow> bool option" where
  "is_exif v p marker len =
     (if \<not> (marker = 225 \<and> len \<ge> 8) then Some False
      else do { signature \<leftarrow> getUint32 v (p + 4) False;
           if signature \<noteq> 1165519206 then Some False
           else do { zero \<leftarrow> getUint16 v (p + 8) False; Some (zero = 0) } })"

function scan_segments :: "nat list \<Rightarrow> nat \<Rightarrow> nat option option" where
  "scan_segments v p =
     (if p + 4 \<le> length v
      then do { ff \<leftarrow> getUint8 v p;
        if ff \<noteq> 255 then Some None
        else do { marker \<leftarrow> getUint8 v (p + 1);
          if marker = 218 \<or> marker = 217 then Some (Some 1)
          else do { len \<leftarrow> getUint16 v (p + 2) False;
            let fin = p + 2 + len;
            if len < 2 \<or> fin > length v then Some None
            else do { exif \<leftarrow> is_exif v p marker len;
              if exif then (if len < 16 then Some None else exif_segment v (p + 10) fin)
              else scan_segments v fin } } } }
      else Some None)"
  by pat_completeness auto
termination
  by (relation "measure (\<lambda>(v, p). Suc (length v) - p)") auto

declare scan_segments.simps [simp del]

definition jpegOrientation :: "nat list \<Rightarrow> nat option option" where
  "jpegOrientation v =
     (if length v < 4 then Some None
      else do { start \<leftarrow> getUint16 v 0 False;
           if start \<noteq> 65496 then Some None else scan_segments v 2 })"

section \<open>No read throws\<close>

lemma getUint8_inside: "p < length v \<Longrightarrow> getUint8 v p = Some (v ! p)"
  by (simp add: getUint8_def)

lemma getUint16_inside: "p + 2 \<le> length v \<Longrightarrow> \<exists>x. getUint16 v p little = Some x"
  by (simp add: getUint16_def getUint8_def)

lemma getUint32_inside: "p + 4 \<le> length v \<Longrightarrow> \<exists>x. getUint32 v p little = Some x"
  using getUint16_inside [of p v little] getUint16_inside [of "p + 2" v little]
  by (auto simp: getUint32_def)

definition orientation_result :: "nat option option \<Rightarrow> bool" where
  "orientation_result r \<longleftrightarrow>
     (case r of None \<Rightarrow> False | Some None \<Rightarrow> True | Some (Some n) \<Rightarrow> 1 \<le> n \<and> n \<le> 8)"

lemma orientation_result_simps [simp]:
  "orientation_result (Some None)" "orientation_result (Some (Some n)) \<longleftrightarrow> 1 \<le> n \<and> n \<le> 8"
  "\<not> orientation_result None"
  by (simp_all add: orientation_result_def)

lemma ifd_entries_result:
  "ifd + 2 + entries * 12 \<le> length v \<Longrightarrow> orientation_result (ifd_entries v little ifd entries n)"
proof (induction v little ifd entries n rule: ifd_entries.induct)
  case (1 v little ifd entries n)
  show ?case
  proof (cases "n < entries")
    case True
    define q where "q = ifd + 2 + n * 12"
    have "(n + 1) * 12 \<le> entries * 12" using True by simp
    then have q: "q + 12 \<le> length v" using "1.prems" by (simp add: q_def)
    obtain tag kind number orientation where reads: "getUint16 v q little = Some tag"
        "getUint16 v (q + 2) little = Some kind" "getUint32 v (q + 4) little = Some number"
        "getUint16 v (q + 8) little = Some orientation"
      using q getUint16_inside [of q v little] getUint16_inside [of "q + 2" v little]
        getUint32_inside [of "q + 4" v little] getUint16_inside [of "q + 8" v little] by fastforce
    have IH: "orientation_result (ifd_entries v little ifd entries (n + 1))" if "tag \<noteq> 274"
      using "1.IH" [OF True q_def reads(1) that "1.prems"] .
    show ?thesis
      unfolding ifd_entries.simps [of v little ifd entries n] q_def [symmetric] Let_def
      using True reads IH by auto
  next
    case False
    then show ?thesis by (simp add: ifd_entries.simps [of v little ifd entries n])
  qed
qed

lemma exif_segment_result:
  assumes "t + 8 \<le> fin" and "fin \<le> length v"
  shows "orientation_result (exif_segment v t fin)"
proof -
  obtain order where order: "getUint16 v t False = Some order"
    using assms getUint16_inside [of t v False] by auto
  define little where "little \<longleftrightarrow> order = 18761"
  obtain magic where magic: "getUint16 v (t + 2) little = Some magic"
    using assms getUint16_inside [of "t + 2" v little] by auto
  obtain offset where offset: "getUint32 v (t + 4) little = Some offset"
    using assms getUint32_inside [of "t + 4" v little] by auto
  have "orientation_result (do { entries \<leftarrow> getUint16 v (t + offset) little;
      if entries > 1024 \<or> t + offset + 2 + entries * 12 > fin then Some None
      else ifd_entries v little (t + offset) entries 0 })" if "\<not> t + offset + 2 > fin"
  proof -
    have "t + offset + 2 \<le> length v" using that assms(2) by linarith
    then obtain entries where "getUint16 v (t + offset) little = Some entries"
      using getUint16_inside by blast
    then show ?thesis using assms(2) by (auto intro: ifd_entries_result)
  qed
  then show ?thesis
    by (simp only: exif_segment_def order Let_def Option.bind.bind_lunit little_def [symmetric] magic offset)
      (cases little; simp)
qed

lemma is_exif_inside:
  assumes "p + 2 + len \<le> length v"
  shows "\<exists>b. is_exif v p marker len = Some b \<and> (b \<longrightarrow> 8 \<le> len)"
proof (cases "marker = 225 \<and> 8 \<le> len")
  case True
  then obtain s z where "getUint32 v (p + 4) False = Some s" "getUint16 v (p + 8) False = Some z"
    using assms getUint32_inside [of "p + 4" v False] getUint16_inside [of "p + 8" v False] by auto
  then show ?thesis using True by (cases "s = 1165519206") (auto simp: is_exif_def)
qed (auto simp: is_exif_def)

lemma scan_segments_result: "orientation_result (scan_segments v p)"
proof (induction v p rule: scan_segments.induct)
  case (1 v p)
  show ?case
  proof (cases "p + 4 \<le> length v")
    case True
    then obtain ff marker len where reads: "getUint8 v p = Some ff" "getUint8 v (p + 1) = Some marker"
        "getUint16 v (p + 2) False = Some len"
      using getUint16_inside [of "p + 2" v False] by (auto simp: getUint8_def)
    have rest: "orientation_result (do { exif \<leftarrow> is_exif v p marker len;
        if exif then (if len < 16 then Some None else exif_segment v (p + 10) (p + 2 + len))
        else scan_segments v (p + 2 + len) })"
      if ok: "\<not> ff \<noteq> 255" "\<not> (marker = 218 \<or> marker = 217)" "\<not> (len < 2 \<or> p + 2 + len > length v)"
    proof -
      obtain exif where exif: "is_exif v p marker len = Some exif"
        using is_exif_inside [of p len v marker] ok(3) by auto
      have "orientation_result (scan_segments v (p + 2 + len))" if "\<not> exif"
        using "1.IH" [OF True reads(1) ok(1) reads(2) ok(2) reads(3) refl ok(3) exif that] .
      moreover have "orientation_result (exif_segment v (p + 10) (p + 2 + len))" if "\<not> len < 16"
        using that ok(3) by (intro exif_segment_result) simp_all
      ultimately show ?thesis using exif by simp
    qed
    show ?thesis
      unfolding scan_segments.simps [of v p] Let_def
      using True reads rest by auto
  next
    case False
    then show ?thesis by (simp add: scan_segments.simps [of v p])
  qed
qed

section \<open>Properties\<close>

text \<open>Reading the orientation never throws and never loops, whatever the bytes: it returns
  \<open>undefined\<close> or an orientation from 1 to 8, so the table of matrices always has it.\<close>

theorem jpeg_orientation_safe:
  "\<exists>r. jpegOrientation v = Some r \<and> (case r of None \<Rightarrow> True | Some n \<Rightarrow> 1 \<le> n \<and> n \<le> 8)"
proof -
  have "orientation_result (jpegOrientation v)"
    using scan_segments_result [of v 2] getUint16_inside [of 0 v False]
    by (auto simp: jpegOrientation_def)
  then show ?thesis by (auto simp: orientation_result_def split: option.splits)
qed

section \<open>Finding the orientation\<close>

lemma getUint_shift:
  "getUint8 (pre @ w) (length pre + k) = getUint8 w k"
  "getUint16 (pre @ w) (length pre + k) little = getUint16 w k little"
  "getUint32 (pre @ w) (length pre + k) little = getUint32 w k little"
proof -
  show one: "getUint8 (pre @ w) (length pre + k) = getUint8 w k" for k
    by (simp add: getUint8_def nth_append)
  show two: "getUint16 (pre @ w) (length pre + k) little = getUint16 w k little" for k
    using one [of k] one [of "k + 1"] by (simp add: getUint16_def)
  show "getUint32 (pre @ w) (length pre + k) little = getUint32 w k little"
    using two [of k] two [of "k + 2"] by (simp add: getUint32_def)
qed

text \<open>A segment of another kind: its marker, its length and its payload.\<close>

definition other_segment :: "nat \<Rightarrow> nat list \<Rightarrow> nat list" where
  "other_segment marker payload =
     [255, marker, (length payload + 2) div 256, (length payload + 2) mod 256] @ payload"

definition other_ok :: "nat \<times> nat list \<Rightarrow> bool" where
  "other_ok s \<longleftrightarrow> fst s \<notin> {217, 218, 225} \<and> length (snd s) + 2 < 65536"

text \<open>An EXIF segment whose directory holds the orientation, in either byte order.\<close>

definition exif_app1 :: "bool \<Rightarrow> nat \<Rightarrow> nat list" where
  "exif_app1 little n =
     [255, 225, 0, 30, 69, 120, 105, 102, 0, 0] @
     (if little
      then [73, 73, 42, 0, 8, 0, 0, 0, 1, 0, 18, 1, 3, 0, 1, 0, 0, 0, n, 0, 0, 0]
      else [77, 77, 0, 42, 0, 0, 0, 8, 0, 1, 1, 18, 0, 3, 0, 0, 0, 1, 0, n, 0, 0])"

lemma length_exif_app1 [simp]: "length (exif_app1 little n) = 32"
  by (simp add: exif_app1_def)

text \<open>A scan reads forward only: what stands before its position does not matter.\<close>

lemma ifd_entries_shift:
  "ifd_entries (pre @ w) little (length pre + ifd) entries n = ifd_entries w little ifd entries n"
proof (induction w little ifd entries n rule: ifd_entries.induct)
  case (1 w little ifd entries n)
  define q where "q = ifd + 2 + n * 12"
  have q: "length pre + ifd + 2 + n * 12 = length pre + q" by (simp add: q_def)
  show ?case
  proof (cases "n < entries")
    case True
    note IH = "1.IH" [OF True q_def]
    show ?thesis
      unfolding ifd_entries.simps [of "pre @ w" little "length pre + ifd" entries n]
        ifd_entries.simps [of w little ifd entries n] Let_def q
        q_def [symmetric] add.assoc [of "length pre"] getUint_shift
      using True IH by (auto intro!: Option.bind_cong)
  next
    case False
    then show ?thesis by (simp add: ifd_entries.simps [of "pre @ w" little "length pre + ifd" entries n]
          ifd_entries.simps [of w little ifd entries n])
  qed
qed

lemma exif_segment_shift:
  "exif_segment (pre @ w) (length pre + t) (length pre + fin) = exif_segment w t fin"
proof -
  have le: "length pre + a < length pre + b \<longleftrightarrow> a < b" for a b by simp
  show ?thesis
    unfolding exif_segment_def Let_def add.assoc [of "length pre"] getUint_shift le ifd_entries_shift ..
qed

lemma is_exif_shift: "is_exif (pre @ w) (length pre + p) marker len = is_exif w p marker len"
  unfolding is_exif_def add.assoc [of "length pre"] getUint_shift ..

lemma scan_shift: "scan_segments (pre @ w) (length pre + p) = scan_segments w p"
proof (induction w p rule: scan_segments.induct)
  case (1 w p)
  have len: "length pre + p + 4 \<le> length (pre @ w) \<longleftrightarrow> p + 4 \<le> length w"
    "length pre + (p + 2 + k) > length (pre @ w) \<longleftrightarrow> p + 2 + k > length w" for k by auto
  have assoc: "length pre + p + 2 + k = length pre + (p + 2 + k)" "length pre + p + 10 = length pre + (p + 10)" for k
    by simp_all
  show ?case
  proof (cases "p + 4 \<le> length w")
    case True
    note IH = "1.IH" [OF True]
    show ?thesis
      unfolding scan_segments.simps [of "pre @ w" "length pre + p"] scan_segments.simps [of w p] Let_def len assoc
        add.assoc [of "length pre" p 1] add.assoc [of "length pre" p 2] add.assoc [of "length pre" "p + 2"]
        getUint_shift is_exif_shift exif_segment_shift
      using True IH unfolding add.assoc [of "length pre"] by (auto intro!: Option.bind_cong simp: add.assoc)
  next
    case False
    then show ?thesis using len by (simp add: scan_segments.simps [of "pre @ w" "length pre + p"] scan_segments.simps [of w p])
  qed
qed

lemma scan_other_segment:
  assumes "other_ok (marker, payload)"
  shows "scan_segments (other_segment marker payload @ rest) 0 = scan_segments rest 0"
proof -
  let ?w = "other_segment marker payload @ rest" and ?len = "length payload + 2"
  have at: "getUint8 ?w 0 = Some 255" "getUint8 ?w 1 = Some marker" "getUint16 ?w 2 False = Some ?len"
    by (simp_all add: other_segment_def getUint8_def getUint16_def)
  have "is_exif ?w 0 marker ?len = Some False"
    using assms by (simp add: is_exif_def other_ok_def)
  moreover have "length (other_segment marker payload) = 2 + ?len" by (simp add: other_segment_def)
  ultimately have "scan_segments ?w 0 = scan_segments ?w (length (other_segment marker payload) + 0)"
    unfolding scan_segments.simps [of ?w 0] Let_def
    using assms at at(3) [unfolded numeral_2_eq_2] by (simp add: other_ok_def)
  then show ?thesis by (simp only: scan_shift)
qed

lemma scan_exif_app1:
  assumes "1 \<le> n" and "n \<le> 8"
  shows "scan_segments (exif_app1 little n @ rest) 0 = Some (Some n)"
proof -
  let ?w = "exif_app1 little n @ rest"
  have reads: "getUint8 ?w 0 = Some 255" "getUint8 ?w 1 = Some 225" "getUint16 ?w 2 False = Some 30"
    by (simp_all add: exif_app1_def getUint8_def getUint16_def)
  have exif: "is_exif ?w 0 225 30 = Some True"
    by (simp add: is_exif_def exif_app1_def getUint8_def getUint16_def getUint32_def)
  have tag: "getUint16 ?w 20 little = Some 274" "getUint16 ?w 22 little = Some 3"
    "getUint32 ?w 24 little = Some 1" "getUint16 ?w 28 little = Some n"
    by (simp_all add: exif_app1_def getUint8_def getUint16_def getUint32_def)
  have entry: "ifd_entries ?w little 18 1 0 = Some (Some n)"
    using assms tag by (subst ifd_entries.simps) simp
  have header: "getUint16 ?w 10 False = Some (if little then 18761 else 19789)"
    "getUint16 ?w 12 little = Some 42" "getUint32 ?w 14 little = Some 8" "getUint16 ?w 18 little = Some 1"
    by (simp_all add: exif_app1_def getUint8_def getUint16_def getUint32_def)
  have "exif_segment ?w 10 32 = Some (Some n)"
    using entry header by (cases little) (simp_all add: exif_segment_def Let_def)
  then show ?thesis
    using reads reads(3) [unfolded numeral_2_eq_2] exif by (subst scan_segments.simps) simp
qed

lemma scan_to_exif:
  assumes "list_all other_ok segments" and "1 \<le> n" and "n \<le> 8"
  shows "scan_segments (concat (map (\<lambda>(m, p). other_segment m p) segments) @ exif_app1 little n @ rest) 0 =
    Some (Some n)"
  using assms(1)
proof (induction segments)
  case Nil
  then show ?case using scan_exif_app1 [OF assms(2,3)] by simp
next
  case (Cons s segments)
  then show ?case by (cases s) (simp add: scan_other_segment)
qed

text \<open>The orientation a camera writes is the one that is read. In a JPEG whose EXIF segment,
  after any other segments and before any image data, holds orientation 1 to 8 in either byte
  order, \<open>jpegOrientation\<close> returns it.\<close>

theorem jpeg_orientation_found:
  assumes "list_all other_ok segments" and "1 \<le> n" and "n \<le> 8"
  shows "jpegOrientation ([255, 216] @ concat (map (\<lambda>(m, p). other_segment m p) segments) @
    exif_app1 little n @ rest) = Some (Some n)"
proof -
  let ?w = "concat (map (\<lambda>(m, p). other_segment m p) segments) @ exif_app1 little n @ rest"
  have "scan_segments ([255, 216] @ ?w) (length [255, 216 :: nat] + 0) = Some (Some n)"
    unfolding scan_shift by (rule scan_to_exif [OF assms])
  then have "scan_segments ([255, 216] @ ?w) 2 = Some (Some n)" by (simp add: numeral_2_eq_2)
  moreover have "getUint16 ([255, 216] @ ?w) 0 False = Some 65496"
    by (simp add: getUint16_def getUint8_def)
  moreover have "\<not> length ([255, 216] @ ?w) < 4" by simp
  ultimately show ?thesis unfolding jpegOrientation_def by simp
qed

theorem jpeg_orientation_found_witness:
  "jpegOrientation ([255, 216] @ concat (map (\<lambda>(m, p). other_segment m p) [(224, [1, 2, 3])]) @
    exif_app1 False 6 @ []) = Some (Some 6)"
  by (rule jpeg_orientation_found) (simp_all add: other_ok_def)

end
