(* ===== verification/PageGeometry.thy ===== *)
theory PageGeometry
  imports Models JsNumber
begin

text \<open>
  The geometry and pixel rules of the processing worker
  (\<open>web/src/app/features/prepare/processing-algorithms.ts\<close>): which pages are copied as they
  are, the working size of a photo, lightening paper, the placement of a page on its output
  page, and the check for ink that would be cut off. Measures are real numbers.
\<close>

section \<open>Truth of optional values\<close>

text \<open>A missing number or 0 is false, a missing list or flag too.\<close>

definition truthy :: "real option \<Rightarrow> bool" where
  "truthy v \<longleftrightarrow> (case v of None \<Rightarrow> False | Some x \<Rightarrow> x \<noteq> 0)"

definition or_else :: "real option \<Rightarrow> real \<Rightarrow> real" where  \<comment> \<open>\<open>v || d\<close>\<close>
  "or_else v d = (if truthy v then the v else d)"

definition has_items :: "'a list option \<Rightarrow> bool" where  \<comment> \<open>\<open>v?.length\<close>\<close>
  "has_items v \<longleftrightarrow> (case v of None \<Rightarrow> False | Some xs \<Rightarrow> xs \<noteq> [])"

definition some_nonzero :: "real list option \<Rightarrow> bool" where  \<comment> \<open>\<open>v?.some(Boolean)\<close>\<close>
  "some_nonzero v \<longleftrightarrow> (case v of None \<Rightarrow> False | Some xs \<Rightarrow> list_ex (\<lambda>x. x \<noteq> 0) xs)"

definition flag :: "bool option \<Rightarrow> bool" where
  "flag v \<longleftrightarrow> v = Some True"

lemma truthy_simps [simp]: "\<not> truthy None" "truthy (Some x) \<longleftrightarrow> x \<noteq> 0"
  by (simp_all add: truthy_def)

lemma or_else_simps [simp]: "or_else None d = d" "or_else (Some x) d = (if x \<noteq> 0 then x else d)"
  by (simp_all add: or_else_def)

section \<open>Pages copied as they are\<close>

definition cleanupStrength :: "PageEdit \<Rightarrow> real" where
  "cleanupStrength edit = nullish (e_paperCleanupStrength edit) (if flag (e_paperCleanup edit) then 1 else 0)"

definition isPlain :: "PageEdit \<Rightarrow> bool" where
  "isPlain edit \<longleftrightarrow>
     \<not> truthy (e_angle edit) \<and> \<not> truthy (e_rotation edit) \<and>
     (\<not> truthy (e_scale edit) \<or> e_scale edit = Some 1) \<and>
     \<not> truthy (e_x edit) \<and> \<not> truthy (e_y edit) \<and>
     \<not> has_items (e_crop edit) \<and> \<not> has_items (e_corners edit) \<and>
     \<not> truthy (e_outputWidth edit) \<and> cleanupStrength edit = 0 \<and>
     \<not> flag (e_fitEdges edit) \<and> \<not> some_nonzero (e_margins edit)"

definition needsGeometry :: "PageEdit \<Rightarrow> bool" where
  "needsGeometry edit \<longleftrightarrow>
     some_nonzero (e_margins edit) \<or> flag (e_fitEdges edit) \<or> truthy (e_angle edit) \<or>
     truthy (e_x edit) \<or> truthy (e_y edit) \<or>
     (truthy (e_scale edit) \<and> e_scale edit \<noteq> Some 1) \<or>
     has_items (e_crop edit) \<or> truthy (e_outputWidth edit)"

section \<open>The PDF matrix of an EXIF orientation\<close>

record pdf_matrix =
  mat_a :: real
  mat_b :: real
  mat_c :: real
  mat_d :: real
  mat_e :: real
  mat_f :: real

definition pdf_matrix_of :: "real list \<Rightarrow> pdf_matrix" where
  "pdf_matrix_of m = \<lparr>mat_a = m ! 0, mat_b = m ! 1, mat_c = m ! 2, mat_d = m ! 3, mat_e = m ! 4, mat_f = m ! 5\<rparr>"

text \<open>The numbers of the code's table; an orientation it does not list has no matrix.\<close>

definition orientationMatrix :: "nat \<Rightarrow> real \<Rightarrow> real \<Rightarrow> real list option" where
  "orientationMatrix orientation w h =
     map_of [(1, [1, 0, 0, 1, 0, 0]), (2, [-1, 0, 0, 1, w, 0]), (3, [-1, 0, 0, -1, w, h]),
       (4, [1, 0, 0, -1, 0, h]), (5, [0, -1, -1, 0, h, w]), (6, [0, -1, 1, 0, 0, w]),
       (7, [0, 1, 1, 0, 0, 0]), (8, [0, 1, -1, 0, h, 0])] orientation"

text \<open>A PDF matrix takes \<open>(x, y)\<close> to \<open>(a x + c y + e, b x + d y + f)\<close>.\<close>

definition apply_matrix :: "real list \<Rightarrow> real \<times> real \<Rightarrow> real \<times> real" where
  "apply_matrix m p =
     (let t = pdf_matrix_of m
      in (mat_a t * fst p + mat_c t * snd p + mat_e t, mat_b t * fst p + mat_d t * snd p + mat_f t))"

section \<open>Working sizes\<close>

definition PHOTO_WORK_PIXELS :: real where
  "PHOTO_WORK_PIXELS = 4000000"

definition PHOTO_WORK_EDGE :: real where
  "PHOTO_WORK_EDGE = 2800"

definition MAX_PHOTO_PIXELS :: real where
  "MAX_PHOTO_PIXELS = 20000000"

definition photoWorkSize :: "real \<Rightarrow> real \<Rightarrow> real \<Rightarrow> real \<Rightarrow> int \<times> int" where
  "photoWorkSize width height maxPixels maxEdge =
     (let ratio = min (min (min 1 (sqrt (maxPixels / (width * height)))) (maxEdge / width)) (maxEdge / height)
      in (max 1 \<lfloor>width * ratio\<rfloor>, max 1 \<lfloor>height * ratio\<rfloor>))"

definition point_distance :: "real \<times> real \<Rightarrow> real \<times> real \<Rightarrow> real" where
  "point_distance a b = hypot (fst a - fst b) (snd a - snd b)"

definition fittedQuadSize :: "real list list \<Rightarrow> real \<Rightarrow> real \<Rightarrow> real \<Rightarrow> real \<Rightarrow> int \<times> int" where
  "fittedQuadSize corners width height maxPixels maxEdge =
     (let points = map (\<lambda>c. (c ! 0 * (width - 1), c ! 1 * (height - 1))) corners;
          targetWidth = max 2 (js_round
            ((point_distance (points ! 0) (points ! 1) + point_distance (points ! 3) (points ! 2)) / 2));
          targetHeight = max 2 (js_round
            ((point_distance (points ! 0) (points ! 3) + point_distance (points ! 1) (points ! 2)) / 2))
      in photoWorkSize (of_int targetWidth) (of_int targetHeight) maxPixels maxEdge)"

section \<open>Lightening paper\<close>

text \<open>
  One colour value: lightened against the background and stored in a clamped byte. The
  loop visits the bytes whose index is not 3 modulo 4; each is read and written once.
\<close>

definition lighten_byte :: "real \<Rightarrow> int \<Rightarrow> int \<Rightarrow> int" where
  "lighten_byte strength original background =
     (let corrected = min 255 (of_int original * 255 / max 80 (of_int background))
      in clamp 0 255 (js_round (of_int original + (corrected - of_int original) * strength)))"

definition lightenPixels :: "int list \<Rightarrow> int list \<Rightarrow> real \<Rightarrow> int list" where
  "lightenPixels pixels background strength =
     map (\<lambda>i. if i mod 4 < 3 then lighten_byte strength (pixels ! i) (background ! i) else pixels ! i)
       [0..<length pixels]"

section \<open>Placing a page\<close>

record PageLayout =
  lay_scale :: real
  lay_angle :: real
  lay_baseWidth :: real
  lay_baseHeight :: real
  lay_outputWidth :: real
  lay_outputHeight :: real
  lay_center :: "real \<times> real"
  lay_transform :: "real \<Rightarrow> real \<Rightarrow> real \<times> real"

text \<open>\<open>n % 180 !== 0\<close> for a rotation in degrees.\<close>

definition quarter_turned :: "real \<Rightarrow> bool" where
  "quarter_turned rotation \<longleftrightarrow> of_int \<lfloor>rotation / 180\<rfloor> * 180 \<noteq> rotation"

definition pageLayout :: "real \<Rightarrow> real \<Rightarrow> PageEdit \<Rightarrow> PageLayout" where
  "pageLayout width height edit =
     (let fit = flag (e_fitEdges edit);
          scale = (if fit then 1 else or_else (e_scale edit) 1);
          angle = or_else (e_angle edit) 0 + or_else (e_rotation edit) 0;
          r = angle * pi / 180;
          quarter = quarter_turned (or_else (e_rotation edit) 0);
          baseWidth = (if fit then \<bar>width * cos r\<bar> + \<bar>height * sin r\<bar>
            else or_else (e_outputWidth edit) (if quarter then height else width));
          baseHeight = (if fit then \<bar>width * sin r\<bar> + \<bar>height * cos r\<bar>
            else or_else (e_outputHeight edit) (if quarter then width else height));
          margins = nullish (e_margins edit) [0, 0, 0, 0];
          mt = margins ! 0; mr = margins ! 1; mb = margins ! 2; ml = margins ! 3;
          outputWidth = baseWidth + ml + mr;
          outputHeight = baseHeight + mt + mb;
          cx = width / 2; cy = height / 2;
          dx = (if fit then 0 else or_else (e_x edit) 0) * baseWidth;
          dy = - (if fit then 0 else or_else (e_y edit) 0) * baseHeight;
          transform = (\<lambda>x y.
            (ml + baseWidth / 2 + dx + scale * ((x - cx) * cos r - (y - cy) * sin r),
             mb + baseHeight / 2 + dy + scale * ((x - cx) * sin r + (y - cy) * cos r)))
      in \<lparr>lay_scale = scale, lay_angle = angle, lay_baseWidth = baseWidth, lay_baseHeight = baseHeight,
          lay_outputWidth = outputWidth, lay_outputHeight = outputHeight,
          lay_center = transform cx cy, lay_transform = transform\<rparr>)"

section \<open>Ink outside the page\<close>

definition ink_at :: "int list \<Rightarrow> nat \<Rightarrow> bool" where
  "ink_at data n \<longleftrightarrow> \<not> (data ! (n + 3) < 128 \<or> min (min (data ! n) (data ! (n + 1))) (data ! (n + 2)) > 200)"

definition inkOutsidePage ::
  "int list \<Rightarrow> nat \<Rightarrow> nat \<Rightarrow> real \<Rightarrow> real \<Rightarrow> real list \<Rightarrow> (real \<Rightarrow> real \<Rightarrow> real \<times> real) \<Rightarrow> real \<Rightarrow> real \<Rightarrow> bool" where
  "inkOutsidePage data canvasWidth canvasHeight pageWidth pageHeight edges transform outputWidth outputHeight \<longleftrightarrow>
     list_ex (\<lambda>y. list_ex (\<lambda>x.
       let n = (y * canvasWidth + x) * 4;
           u = (of_nat x + 1 / 2) / of_nat canvasWidth;
           v = (of_nat y + 1 / 2) / of_nat canvasHeight;
           p = transform ((u - edges ! 0) * pageWidth) ((edges ! 3 - v) * pageHeight)
       in ink_at data n \<and>
          \<not> (u < edges ! 0 \<or> u > edges ! 2 \<or> v < edges ! 1 \<or> v > edges ! 3) \<and>
          (fst p < - (3 / 4) \<or> snd p < - (3 / 4) \<or> fst p > outputWidth + 3 / 4 \<or> snd p > outputHeight + 3 / 4))
       [0..<canvasWidth]) [0..<canvasHeight]"

section \<open>Staff analysis\<close>

record StaffSuggestion =
  st_confident :: bool
  st_angle :: "real option"
  st_bounds :: "real list option"
  st_reason :: "jstring option"

definition unsure :: "string \<Rightarrow> StaffSuggestion" where
  "unsure reason = \<lparr>st_confident = False, st_angle = None, st_bounds = None, st_reason = Some (js reason)\<rparr>"

text \<open>The row of a pixel in deskewed coordinates.\<close>

definition staff_row :: "real \<Rightarrow> nat \<Rightarrow> nat \<Rightarrow> nat \<Rightarrow> int" where
  "staff_row radians width x y = js_round (of_nat y * cos radians - of_nat x * sin radians) + int width"

definition dark_pixels :: "int list \<Rightarrow> nat \<Rightarrow> nat \<Rightarrow> (nat \<times> nat) list" where
  "dark_pixels gray width height =
     filter (\<lambda>(x, y). gray ! (y * width + x) < 200)
       (concat (map (\<lambda>y. map (\<lambda>x. (x, y)) [0..<width]) [0..<height]))"

text \<open>\<open>rows[n]\<close>: how many dark pixels lie in row \<open>n\<close>.\<close>

definition row_count :: "real \<Rightarrow> nat \<Rightarrow> (nat \<times> nat) list \<Rightarrow> int \<Rightarrow> nat" where
  "row_count radians width dark n = length (filter (\<lambda>(x, y). staff_row radians width x y = n) dark)"

definition staff_pixels :: "real \<Rightarrow> int list \<Rightarrow> nat \<Rightarrow> nat \<Rightarrow> (nat \<times> nat) list" where
  "staff_pixels radians gray width height =
     (let dark = dark_pixels gray width height
      in filter (\<lambda>(x, y).
           let n = staff_row radians width x y
           in \<not> real (row_count radians width dark (n - 1) + row_count radians width dark n +
                row_count radians width dark (n + 1)) < real width / 4) dark)"

definition analyzeStaff :: "real list \<Rightarrow> int list \<Rightarrow> nat \<Rightarrow> nat \<Rightarrow> StaffSuggestion" where
  "analyzeStaff angles gray width height =
     (let candidates = sort (filter (\<lambda>angle. \<bar>angle\<bar> \<le> 10) angles)
      in if length candidates < 10
         then unsure ''No consistent staff lines found. Adjust this page manually.''
         else (let angle = candidates ! (length candidates div 2);
                   agree = filter (\<lambda>other. \<bar>other - angle\<bar> < 3 / 10) candidates
           in if real (length agree) < real (length candidates) * (8 / 10)
              then unsure ''The page has mixed angles. Adjust it manually.''
              else (let pixels = staff_pixels (angle * pi / 180) gray width height;
                        left = fold min (map fst pixels) width;
                        right = fold max (map fst pixels) 0;
                        top = fold min (map snd pixels) height;
                        bottom = fold max (map snd pixels) 0
                in if right \<le> left \<or> bottom \<le> top
                   then unsure ''Staff boundaries were unclear. Adjust this page manually.''
                   else \<lparr>st_confident = True, st_angle = Some angle,
                     st_bounds = Some [real left / real width, real top / real height,
                       real right / real width, real bottom / real height],
                     st_reason = None\<rparr>)))"

section \<open>Matching a reference page\<close>

record MeasuredPage =
  mp_angle :: real
  mp_bounds :: "real list"
  mp_width :: real
  mp_height :: real

definition scale_message :: jstring where
  "scale_message = js ''Matching requires a scale outside the supported range. Adjust this page manually.''"

definition alignToReference ::
  "PageEdit \<Rightarrow> MeasuredPage \<Rightarrow> MeasuredPage \<Rightarrow> (jstring, PageEdit) result" where
  "alignToReference edit measured reference =
     (let scale = ((mp_bounds reference ! 2 - mp_bounds reference ! 0) * mp_width reference) /
            ((mp_bounds measured ! 2 - mp_bounds measured ! 0) * mp_width measured);
          oldScale = or_else (e_scale edit) 1;
          centerX = (mp_bounds measured ! 0 - 1 / 2 - or_else (e_x edit) 0) * mp_width measured;
          centerY = (mp_bounds measured ! 1 - 1 / 2 - or_else (e_y edit) 0) * mp_height measured;
          newScale = oldScale * scale
      in if newScale > 3 \<or> newScale \<le> 0 then Inl scale_message
         else Inr (edit\<lparr>e_scale := Some newScale,
                e_outputWidth := Some (mp_width reference), e_outputHeight := Some (mp_height reference),
                e_x := Some (mp_bounds reference ! 0 - 1 / 2 - centerX * scale / mp_width reference),
                e_y := Some (mp_bounds reference ! 1 - 1 / 2 - centerY * scale / mp_height reference)\<rparr>))"

section \<open>Properties: pages copied as they are\<close>

text \<open>A page counts as plain exactly when it needs no new canvas, is not rotated, has no
  perspective corners and is not cleaned up. So a plain page never needs geometry, and a page
  that is only rotated is copied, never redrawn.\<close>

theorem plain_iff_no_geometry:
  "isPlain edit \<longleftrightarrow>
    \<not> needsGeometry edit \<and> \<not> truthy (e_rotation edit) \<and> \<not> has_items (e_corners edit) \<and>
    cleanupStrength edit = 0"
  unfolding isPlain_def needsGeometry_def by blast

section \<open>Properties: EXIF orientation\<close>

text \<open>
  What the EXIF standard says of orientation \<open>n\<close>: where the stored point \<open>u\<close> from the left
  and \<open>v\<close> from the top of a \<open>w\<close> by \<open>h\<close> image stands, from the left and from the top.
\<close>

fun exif_display :: "nat \<Rightarrow> real \<Rightarrow> real \<Rightarrow> real \<times> real \<Rightarrow> real \<times> real" where
  "exif_display n w h (u, v) =
     (if n = 1 then (u, v) else if n = 2 then (w - u, v) else if n = 3 then (w - u, h - v)
      else if n = 4 then (u, h - v) else if n = 5 then (v, u) else if n = 6 then (h - v, u)
      else if n = 7 then (h - v, w - u) else (v, w - u))"

text \<open>The PDF matrix for an orientation draws every point of the photo where the EXIF standard
  shows it, on a page whose sides are swapped for the orientations that turn the photo. PDF
  points count from the bottom left.\<close>

theorem orientation_matrix_exif:
  assumes "1 \<le> n" and "n \<le> 8" and "page_h = (if n \<ge> 5 then w else h)"
  shows "\<exists>m. orientationMatrix n w h = Some m \<and>
    apply_matrix m (u, h - v) =
      (fst (exif_display n w h (u, v)), page_h - snd (exif_display n w h (u, v)))"
proof -
  have "n \<in> {1, 2, 3, 4, 5, 6, 7, 8}" using assms(1,2) by auto
  then show ?thesis
    using assms(3) by (auto simp: orientationMatrix_def apply_matrix_def pdf_matrix_of_def)
qed

theorem orientation_matrix_exif_witness:
  "\<exists>m. orientationMatrix 6 300 200 = Some m \<and>
    apply_matrix m (10, 200 - 20) =
      (fst (exif_display 6 300 200 (10, 20)), 300 - snd (exif_display 6 300 200 (10, 20)))"
  by (rule orientation_matrix_exif) simp_all

section \<open>Properties: working sizes\<close>

lemma floor_part_le: "0 \<le> (x::real) \<Longrightarrow> 0 \<le> r \<Longrightarrow> x * r \<le> c \<Longrightarrow> 1 \<le> c \<Longrightarrow> real_of_int (max 1 \<lfloor>x * r\<rfloor>) \<le> c"
  by (simp add: max_def) linarith

text \<open>A photo's working canvas stays within the limits. Each side is at least one pixel, at
  most the edge limit and never larger than the photo's; the area is at most the pixel limit,
  or the edge limit where a very thin photo is widened to one pixel.\<close>

theorem photo_work_size_limits:
  assumes "1 \<le> width" and "1 \<le> height" and "1 \<le> maxEdge" and "0 < maxPixels"
    and "photoWorkSize width height maxPixels maxEdge = (w, h)"
  shows "1 \<le> w \<and> 1 \<le> h \<and> real_of_int w \<le> min width maxEdge \<and> real_of_int h \<le> min height maxEdge \<and>
    real_of_int (w * h) \<le> max maxPixels maxEdge"
proof -
  define r where "r = min (min (min 1 (sqrt (maxPixels / (width * height)))) (maxEdge / width)) (maxEdge / height)"
  have wh: "w = max 1 \<lfloor>width * r\<rfloor>" "h = max 1 \<lfloor>height * r\<rfloor>"
    using assms(5) by (simp_all add: photoWorkSize_def r_def Let_def)
  have r: "0 < r" "r \<le> 1" "r \<le> maxEdge / width" "r \<le> maxEdge / height" "r \<le> sqrt (maxPixels / (width * height))"
    using assms(1-4) by (simp_all add: r_def)
  have rw: "width * r \<le> maxEdge" "height * r \<le> maxEdge"
    using r assms(1,2) by (simp_all add: field_simps)
  have rs: "width * r \<le> width" "height * r \<le> height"
    using r assms(1,2) by (simp_all add: mult_left_le)
  have "w \<le> min width maxEdge" "h \<le> min height maxEdge"
    unfolding wh using floor_part_le [of width r] floor_part_le [of height r] r rw rs assms(1-3) by simp_all
  moreover have "real_of_int (w * h) \<le> max maxPixels maxEdge"
  proof (cases "\<lfloor>width * r\<rfloor> < 1 \<or> \<lfloor>height * r\<rfloor> < 1")
    case True
    then have "w = 1 \<or> h = 1" unfolding wh by auto
    then have "real_of_int (w * h) \<le> maxEdge" using calculation by auto
    then show ?thesis by simp
  next
    case False
    then have "real_of_int w \<le> width * r" "real_of_int h \<le> height * r" "0 \<le> real_of_int h"
      unfolding wh by (simp_all add: max_def)
    then have "real_of_int (w * h) \<le> (width * r) * (height * r)"
      using r assms(1) by (simp add: mult_mono)
    also have "\<dots> = (width * height) * r\<^sup>2" by (simp add: power2_eq_square)
    also have "r\<^sup>2 \<le> maxPixels / (width * height)"
      using r(1,5) assms(1,2,4) by (simp add: real_le_rsqrt real_sqrt_ge_zero abs_le_square_iff [symmetric] sqrt_ge_absD)
    then have "(width * height) * r\<^sup>2 \<le> maxPixels"
      using assms(1,2) by (simp add: field_simps)
    finally show ?thesis by simp
  qed
  ultimately show ?thesis by (simp add: wh)
qed

theorem photo_work_size_limits_witness:
  "1 \<le> fst (photoWorkSize 4 1 100 2) \<and> 1 \<le> snd (photoWorkSize 4 1 100 2) \<and>
   real_of_int (fst (photoWorkSize 4 1 100 2)) \<le> min 4 2 \<and>
   real_of_int (snd (photoWorkSize 4 1 100 2)) \<le> min 1 2 \<and>
   real_of_int (fst (photoWorkSize 4 1 100 2) * snd (photoWorkSize 4 1 100 2)) \<le> max 100 2"
  by (rule photo_work_size_limits) simp_all

section \<open>Properties: lightening paper\<close>

definition is_byte :: "int \<Rightarrow> bool" where
  "is_byte b \<longleftrightarrow> 0 \<le> b \<and> b \<le> 255"

lemma lighten_byte_bounds:
  assumes "is_byte v" and "is_byte b" and "0 \<le> s" and "s \<le> 1"
  shows "v \<le> lighten_byte s v b \<and> lighten_byte s v b \<le> 255"
proof -
  define c where "c = min 255 (of_int v * 255 / max 80 (of_int b :: real))"
  have v: "0 \<le> real_of_int v" "real_of_int v \<le> 255" and b: "real_of_int b \<le> 255"
    using assms(1,2) by (simp_all add: is_byte_def)
  have m: "0 < max 80 (real_of_int b)" "max 80 (real_of_int b) \<le> 255" using b by simp_all
  have "real_of_int v * max 80 (real_of_int b) \<le> real_of_int v * 255"
    using v(1) m(2) by (rule mult_left_mono [rotated])
  then have c: "real_of_int v \<le> c" "c \<le> 255"
    using v m(1) by (simp_all add: c_def pos_le_divide_eq)
  have "0 \<le> (c - of_int v) * s" using c(1) assms(3) by simp
  moreover have "(c - of_int v) * s \<le> (255 - of_int v) * 1"
    using c assms(3,4) v(2) by (intro mult_mono) simp_all
  ultimately have "v \<le> js_round (of_int v + (c - of_int v) * s)" "js_round (of_int v + (c - of_int v) * s) \<le> 255"
    using js_round_mono [of "of_int v" "of_int v + (c - of_int v) * s"]
      js_round_mono [of "of_int v + (c - of_int v) * s" "of_int 255"]
    by (simp_all only: js_round_of_int) simp_all
  then show ?thesis using assms(1) by (simp add: lighten_byte_def c_def is_byte_def clamp_id)
qed

lemma lighten_byte_mono:
  assumes "v \<le> w" and "0 \<le> s" and "s \<le> 1"
  shows "lighten_byte s v b \<le> lighten_byte s w b"
proof -
  define f where "f x = min 255 (of_int x * 255 / max 80 (of_int b :: real))" for x
  have "f v \<le> f w" unfolding f_def using assms(1)
    by (intro min.mono order_refl divide_right_mono) simp_all
  then have "(1 - s) * of_int v + s * f v \<le> (1 - s) * of_int w + s * f w"
    using assms by (intro add_mono mult_left_mono) simp_all
  then have "of_int v + (f v - of_int v) * s \<le> of_int w + (f w - of_int w) * s"
    by (simp add: algebra_simps)
  then show ?thesis by (simp add: lighten_byte_def f_def clamp_mono js_round_mono)
qed

text \<open>Lightening paper only ever lightens. With a strength between 0 and 1 no colour value gets
  darker or leaves the byte range, the alpha of every pixel stays, paper at least as light as its
  background becomes white at full strength, and strength 0 changes nothing.\<close>

theorem lighten_pixels_lightens:
  assumes "list_all is_byte pixels" and "list_all is_byte background"
    and "length background = length pixels" and "0 \<le> s" and "s \<le> 1" and "i < length pixels"
  shows "length (lightenPixels pixels background s) = length pixels \<and>
    pixels ! i \<le> lightenPixels pixels background s ! i \<and> lightenPixels pixels background s ! i \<le> 255 \<and>
    (i mod 4 = 3 \<or> s = 0 \<longrightarrow> lightenPixels pixels background s ! i = pixels ! i) \<and>
    (i mod 4 \<noteq> 3 \<and> s = 1 \<and> 80 \<le> background ! i \<and> background ! i \<le> pixels ! i \<longrightarrow>
      lightenPixels pixels background s ! i = 255)"
proof -
  have byte: "is_byte (pixels ! i)" "is_byte (background ! i)"
    using assms(1-3,6) by (simp_all add: list_all_length)
  have at: "lightenPixels pixels background s ! i =
      (if i mod 4 < 3 then lighten_byte s (pixels ! i) (background ! i) else pixels ! i)"
    using assms(6) by (simp add: lightenPixels_def)
  have zero: "lighten_byte 0 (pixels ! i) (background ! i) = pixels ! i"
    using byte(1) by (simp add: lighten_byte_def is_byte_def clamp_id)
  have white: "lighten_byte 1 (pixels ! i) (background ! i) = 255"
    if "80 \<le> background ! i" "background ! i \<le> pixels ! i"
  proof -
    have "min 255 (real_of_int (pixels ! i) * 255 / max 80 (of_int (background ! i))) = 255"
      using that by (simp add: min_def max_def field_simps)
    then show ?thesis
      using js_round_of_int [of 255] by (simp add: lighten_byte_def clamp_def)
  qed
  have mod: "i mod 4 < 3 \<longleftrightarrow> i mod 4 \<noteq> 3" using mod_less_divisor [of 4 i] by linarith
  show ?thesis
    using lighten_byte_bounds [OF byte assms(4,5)] byte(1) zero white at mod
    by (auto simp: lightenPixels_def is_byte_def)
qed

theorem lighten_pixels_lightens_witness:
  "length (lightenPixels [100, 30, 200, 255] [120, 120, 120, 255] 1) = 4 \<and>
   100 \<le> lightenPixels [100, 30, 200, 255] [120, 120, 120, 255] 1 ! 0"
  using lighten_pixels_lightens [of "[100, 30, 200, 255]" "[120, 120, 120, 255]" 1 0]
  by (simp add: is_byte_def)

section \<open>Properties: placing a page\<close>

lemma rotated_extent:
  fixes dx dy w h :: real
  assumes "\<bar>dx\<bar> \<le> w" and "\<bar>dy\<bar> \<le> h"
  shows "\<bar>dx * c - dy * s\<bar> \<le> w * \<bar>c\<bar> + h * \<bar>s\<bar>" and "\<bar>dx * s + dy * c\<bar> \<le> w * \<bar>s\<bar> + h * \<bar>c\<bar>"
proof -
  have p: "\<bar>dx * c\<bar> \<le> w * \<bar>c\<bar>" "\<bar>dy * s\<bar> \<le> h * \<bar>s\<bar>" "\<bar>dx * s\<bar> \<le> w * \<bar>s\<bar>" "\<bar>dy * c\<bar> \<le> h * \<bar>c\<bar>"
    using assms by (simp_all add: abs_mult mult_right_mono)
  show "\<bar>dx * c - dy * s\<bar> \<le> w * \<bar>c\<bar> + h * \<bar>s\<bar>" using p(1,2) by linarith
  show "\<bar>dx * s + dy * c\<bar> \<le> w * \<bar>s\<bar> + h * \<bar>c\<bar>" using p(3,4) by linarith
qed

lemma centred_inside:
  fixes d b :: real
  shows "\<bar>d\<bar> \<le> b / 2 \<Longrightarrow> m \<le> m + b / 2 + d \<and> m + b / 2 + d \<le> b + m + m' - m'"
  by (simp add: abs_le_iff) linarith

lemma fitted_page_inside:
  assumes "flag (e_fitEdges edit)" and "nullish (e_margins edit) [0, 0, 0, 0] = [mt, mr, mb, ml]"
    and "0 \<le> x" "x \<le> width" "0 \<le> y" "y \<le> height"
    and "lay_transform (pageLayout width height edit) x y = (px, py)"
  shows "ml \<le> px \<and> px \<le> lay_outputWidth (pageLayout width height edit) - mr \<and>
    mb \<le> py \<and> py \<le> lay_outputHeight (pageLayout width height edit) - mt"
proof -
  let ?r = "(or_else (e_angle edit) 0 + or_else (e_rotation edit) 0) * pi / 180"
  have half: "\<bar>x - width / 2\<bar> \<le> width / 2" "\<bar>y - height / 2\<bar> \<le> height / 2"
    using assms(3-6) by linarith+
  have wh: "0 \<le> width" "0 \<le> height" using assms(3-6) by linarith+
  note ext = rotated_extent [OF half, where c = "cos ?r" and s = "sin ?r"]
  have bw: "\<bar>width * cos ?r\<bar> = width * \<bar>cos ?r\<bar>" "\<bar>height * sin ?r\<bar> = height * \<bar>sin ?r\<bar>"
    "\<bar>width * sin ?r\<bar> = width * \<bar>sin ?r\<bar>" "\<bar>height * cos ?r\<bar> = height * \<bar>cos ?r\<bar>"
    using wh by (simp_all add: abs_mult)
  have p: "px = ml + (width * \<bar>cos ?r\<bar> + height * \<bar>sin ?r\<bar>) / 2 +
      ((x - width / 2) * cos ?r - (y - height / 2) * sin ?r)"
    "py = mb + (width * \<bar>sin ?r\<bar> + height * \<bar>cos ?r\<bar>) / 2 +
      ((x - width / 2) * sin ?r + (y - height / 2) * cos ?r)"
    using assms(1,2,7) by (simp_all add: pageLayout_def Let_def bw)
  have out: "lay_outputWidth (pageLayout width height edit) = (width * \<bar>cos ?r\<bar> + height * \<bar>sin ?r\<bar>) + ml + mr"
    "lay_outputHeight (pageLayout width height edit) = (width * \<bar>sin ?r\<bar> + height * \<bar>cos ?r\<bar>) + mt + mb"
    using assms(1,2) by (simp_all add: pageLayout_def Let_def bw)
  have "width / 2 * \<bar>cos ?r\<bar> + height / 2 * \<bar>sin ?r\<bar> = (width * \<bar>cos ?r\<bar> + height * \<bar>sin ?r\<bar>) / 2"
    "width / 2 * \<bar>sin ?r\<bar> + height / 2 * \<bar>cos ?r\<bar> = (width * \<bar>sin ?r\<bar> + height * \<bar>cos ?r\<bar>) / 2"
    by (simp_all add: field_simps)
  with ext have "\<bar>(x - width / 2) * cos ?r - (y - height / 2) * sin ?r\<bar> \<le> (width * \<bar>cos ?r\<bar> + height * \<bar>sin ?r\<bar>) / 2"
    "\<bar>(x - width / 2) * sin ?r + (y - height / 2) * cos ?r\<bar> \<le> (width * \<bar>sin ?r\<bar> + height * \<bar>cos ?r\<bar>) / 2"
    by simp_all
  from centred_inside [OF this(1), of ml mr] centred_inside [OF this(2), of mb mt]
  show ?thesis unfolding out p by (simp add: add.assoc add.commute [of mt mb])
qed

text \<open>C31: A page fitted to its edges is never clipped. Whatever the angle, every point of the source
  region lands on the output page inside the margins, so the worker is right to skip the ink
  check there: with margins that are not negative it finds no ink outside, on any render.\<close>

theorem fitted_page_keeps_ink:
  assumes "flag (e_fitEdges edit)" and "nullish (e_margins edit) [0, 0, 0, 0] = [mt, mr, mb, ml]"
    and "0 \<le> mt" "0 \<le> mr" "0 \<le> mb" "0 \<le> ml" and "0 \<le> pageWidth" "0 \<le> pageHeight"
    and "layout = pageLayout ((e2 - e0) * pageWidth) ((e3 - e1) * pageHeight) edit"
  shows "\<not> inkOutsidePage data canvasWidth canvasHeight pageWidth pageHeight [e0, e1, e2, e3]
    (lay_transform layout) (lay_outputWidth layout) (lay_outputHeight layout)"
proof
  assume "inkOutsidePage data canvasWidth canvasHeight pageWidth pageHeight [e0, e1, e2, e3]
    (lay_transform layout) (lay_outputWidth layout) (lay_outputHeight layout)"
  then obtain y x where yx: "let u = (real x + 1 / 2) / real canvasWidth; v = (real y + 1 / 2) / real canvasHeight;
      p = lay_transform layout ((u - e0) * pageWidth) ((e3 - v) * pageHeight)
    in \<not> (u < e0 \<or> u > e2 \<or> v < e1 \<or> v > e3) \<and>
      (fst p < - (3 / 4) \<or> snd p < - (3 / 4) \<or> fst p > lay_outputWidth layout + 3 / 4 \<or>
       snd p > lay_outputHeight layout + 3 / 4)"
    by (auto simp: inkOutsidePage_def list_ex_iff Let_def numeral_2_eq_2 numeral_3_eq_3)
  define u where "u = (real x + 1 / 2) / real canvasWidth"
  define v where "v = (real y + 1 / 2) / real canvasHeight"
  have uv: "e0 \<le> u" "u \<le> e2" "e1 \<le> v" "v \<le> e3"
    using yx by (simp_all add: Let_def flip: u_def v_def)
  obtain px py where p: "lay_transform layout ((u - e0) * pageWidth) ((e3 - v) * pageHeight) = (px, py)"
    by fastforce
  have "0 \<le> (u - e0) * pageWidth" "(u - e0) * pageWidth \<le> (e2 - e0) * pageWidth"
    "0 \<le> (e3 - v) * pageHeight" "(e3 - v) * pageHeight \<le> (e3 - e1) * pageHeight"
    using uv assms(7,8) by (simp_all add: mult_right_mono)
  from fitted_page_inside [OF assms(1,2) this p [unfolded assms(9)]]
  show False using yx p assms(3-6) unfolding assms(9) Let_def by (auto simp flip: u_def v_def)
qed

definition blank_edit :: "string \<Rightarrow> PageEdit" where
  "blank_edit name =
     \<lparr>e_fitEdges = None, e_margins = None, e_paperCleanupStrength = None, e_paperCleanup = None,
      e_id = js name, e_sourceId = js ''s'', e_page = 0, e_angle = None, e_rotation = None,
      e_outputWidth = None, e_outputHeight = None, e_scale = None, e_x = None, e_y = None,
      e_crop = None, e_corners = None\<rparr>"

theorem fitted_page_keeps_ink_witness:
  "\<not> inkOutsidePage [0, 0, 0, 255] 1 1 600 800 [0, 0, 1, 1]
    (lay_transform (pageLayout ((1 - 0) * 600) ((1 - 0) * 800) (blank_edit ''a''\<lparr>e_fitEdges := Some True, e_angle := Some 3\<rparr>)))
    (lay_outputWidth (pageLayout ((1 - 0) * 600) ((1 - 0) * 800) (blank_edit ''a''\<lparr>e_fitEdges := Some True, e_angle := Some 3\<rparr>)))
    (lay_outputHeight (pageLayout ((1 - 0) * 600) ((1 - 0) * 800) (blank_edit ''a''\<lparr>e_fitEdges := Some True, e_angle := Some 3\<rparr>)))"
  by (rule fitted_page_keeps_ink [where mt = 0 and mr = 0 and mb = 0 and ml = 0])
     (simp_all add: blank_edit_def flag_def)

section \<open>Properties: matching a reference page\<close>

lemma layout_not_fitted:
  assumes "\<not> flag (e_fitEdges edit)" and "nullish (e_margins edit) [0, 0, 0, 0] = [0, 0, 0, 0]"
    and "r = (or_else (e_angle edit) 0 + or_else (e_rotation edit) 0) * pi / 180"
    and "bw = lay_outputWidth (pageLayout w h edit)" and "bh = lay_outputHeight (pageLayout w h edit)"
  shows "lay_transform (pageLayout w h edit) x y =
    (bw / 2 + or_else (e_x edit) 0 * bw +
       or_else (e_scale edit) 1 * ((x - w / 2) * cos r - (y - h / 2) * sin r),
     bh / 2 - or_else (e_y edit) 0 * bh +
       or_else (e_scale edit) 1 * ((x - w / 2) * sin r + (y - h / 2) * cos r))"
  unfolding assms(3-5) using assms(1,2) by (simp add: pageLayout_def Let_def)

text \<open>The edit that matching returns, and where its scale and shift put a point.\<close>

lemma align_result:
  assumes "alignToReference edit measured reference = Inr edit'"
    and "mp_bounds measured = [ml, mt, mr, mb']" and "mp_bounds reference = [rl, rt, rr, rb']"
    and "k = ((rr - rl) * mp_width reference) / ((mr - ml) * mp_width measured)" and "s = or_else (e_scale edit) 1"
    and "cX = (ml - 1 / 2 - or_else (e_x edit) 0) * mp_width measured"
    and "cY = (mt - 1 / 2 - or_else (e_y edit) 0) * mp_height measured"
  shows "0 < s * k" and "s * k \<le> 3" and "edit' = edit\<lparr>e_scale := Some (s * k),
      e_outputWidth := Some (mp_width reference), e_outputHeight := Some (mp_height reference),
      e_x := Some (rl - 1 / 2 - cX * k / mp_width reference),
      e_y := Some (rt - 1 / 2 - cY * k / mp_height reference)\<rparr>"
proof -
  have three: "[a, b, c, d] ! 2 = c" for a b c d :: real by simp
  show "0 < s * k" "s * k \<le> 3" "edit' = edit\<lparr>e_scale := Some (s * k),
      e_outputWidth := Some (mp_width reference), e_outputHeight := Some (mp_height reference),
      e_x := Some (rl - 1 / 2 - cX * k / mp_width reference),
      e_y := Some (rt - 1 / 2 - cY * k / mp_height reference)\<rparr>"
    using assms(1) unfolding alignToReference_def Let_def assms(2-7) three by (auto split: if_splits)
qed

lemma placed_left: "s * p = c \<Longrightarrow> 0 < v \<Longrightarrow> v / 2 + (l - 1 / 2 - c * k / v) * v + s * k * p = l * v" for v :: real
  by (auto simp: field_simps)

lemma placed_top: "s * q = - c \<Longrightarrow> 0 < v \<Longrightarrow> v / 2 - (t - 1 / 2 - c * k / v) * v + s * k * q = (1 - t) * v" for v :: real
proof -
  assume q: "s * q = - c" and v: "0 < v"
  have "s * k * q = - c * k" by (simp add: q [symmetric])
  with v show ?thesis by (simp add: field_simps)
qed

lemma placed_right:
  fixes v u :: real
  assumes "s * p = (mr - 1 / 2 - x) * u" and "k * ((mr - ml) * u) = (rr - rl) * v" and "0 < v" and "c = (ml - 1 / 2 - x) * u"
  shows "v / 2 + (rl - 1 / 2 - c * k / v) * v + s * k * p = rr * v"
proof -
  have "k * (s * p) - k * c = k * ((mr - ml) * u)" unfolding assms(1,4) by (simp add: algebra_simps)
  then have "s * k * p = (rr - rl) * v + k * c" unfolding assms(2) by (simp add: ac_simps)
  moreover have "(rl - 1 / 2 - c * k / v) * v = rl * v - v / 2 - k * c" using assms(3) by (simp add: field_simps)
  ultimately show ?thesis by (simp add: algebra_simps)
qed



section \<open>Properties: staff analysis\<close>

lemma fold_max_cases: "fold max xs a = a \<or> fold max xs a \<in> set xs"
  for a :: nat
  by (induction xs arbitrary: a) (auto simp: max_def)

lemma dark_pixels_bounds: "(x, y) \<in> set (dark_pixels gray width height) \<Longrightarrow> x < width \<and> y < height"
  by (auto simp: dark_pixels_def)

text \<open>A confident staff suggestion is usable as it is. Its angle is one of the measured line
  angles and at most 10 degrees either way, four fifths of the near-horizontal lines lie within
  0.3 degrees of it, and the bounds are fractions of the page with left before right and top
  before bottom.\<close>

theorem staff_suggestion_usable:
  assumes "st_confident (analyzeStaff angles gray width height)"
  shows "\<exists>angle l t r b. st_angle (analyzeStaff angles gray width height) = Some angle \<and>
    angle \<in> set angles \<and> \<bar>angle\<bar> \<le> 10 \<and>
    length (filter (\<lambda>a. \<bar>a\<bar> \<le> 10) angles) * 8 \<le> length (filter (\<lambda>a. \<bar>a\<bar> \<le> 10 \<and> \<bar>a - angle\<bar> < 3 / 10) angles) * 10 \<and>
    st_bounds (analyzeStaff angles gray width height) = Some [l, t, r, b] \<and>
    0 \<le> l \<and> l < r \<and> r < 1 \<and> 0 \<le> t \<and> t < b \<and> b < 1"
proof -
  define cs where "cs = sort (filter (\<lambda>angle. \<bar>angle\<bar> \<le> 10) angles)"
  define angle where "angle = cs ! (length cs div 2)"
  define ps where "ps = staff_pixels (angle * pi / 180) gray width height"
  define l where "l = fold min (map fst ps) width"
  define r where "r = fold max (map fst ps) 0"
  define t where "t = fold min (map snd ps) height"
  define b where "b = fold max (map snd ps) 0"
  note defs = cs_def [symmetric] angle_def [symmetric] ps_def [symmetric] l_def [symmetric] r_def [symmetric]
    t_def [symmetric] b_def [symmetric]
  have len: "\<not> length cs < 10" and agree: "\<not> real (length (filter (\<lambda>a. \<bar>a - angle\<bar> < 3 / 10) cs)) < real (length cs) * (8 / 10)"
    and order: "l < r" "t < b"
    and result: "analyzeStaff angles gray width height = \<lparr>st_confident = True, st_angle = Some angle,
      st_bounds = Some [real l / real width, real t / real height, real r / real width, real b / real height],
      st_reason = None\<rparr>"
    using assms unfolding analyzeStaff_def Let_def defs by (auto simp: unsure_def split: if_splits)
  have "angle \<in> set cs" using len by (simp add: angle_def)
  then have mem: "angle \<in> set angles" "\<bar>angle\<bar> \<le> 10" by (simp_all add: cs_def)
  have "length (filter (\<lambda>a. \<bar>a - angle\<bar> < 3 / 10) cs) =
      length (filter (\<lambda>a. \<bar>a\<bar> \<le> 10 \<and> \<bar>a - angle\<bar> < 3 / 10) angles)"
    unfolding cs_def by (simp add: filter_sort conj_commute)
  moreover have "length cs = length (filter (\<lambda>a. \<bar>a\<bar> \<le> 10) angles)" by (simp add: cs_def)
  ultimately have agree': "length (filter (\<lambda>a. \<bar>a\<bar> \<le> 10) angles) * 8 \<le>
      length (filter (\<lambda>a. \<bar>a\<bar> \<le> 10 \<and> \<bar>a - angle\<bar> < 3 / 10) angles) * 10"
    using agree by linarith
  have inside: "x < width \<and> y < height" if "(x, y) \<in> set ps" for x y
    using that dark_pixels_bounds by (auto simp: ps_def staff_pixels_def Let_def)
  have "r \<in> fst ` set ps" "b \<in> snd ` set ps"
    using fold_max_cases [of "map fst ps" 0] fold_max_cases [of "map snd ps" 0] order
    by (auto simp: r_def b_def)
  then have "r < width" "b < height" using inside by auto
  then show ?thesis using result mem agree' order
    by (intro exI [of _ angle] exI [of _ "real l / real width"] exI [of _ "real t / real height"]
        exI [of _ "real r / real width"] exI [of _ "real b / real height"])
      (simp add: divide_strict_right_mono)
qed

theorem staff_suggestion_usable_witness:
  "st_confident (analyzeStaff (replicate 10 0) [0, 0, 0, 0] 2 2) \<and>
   (\<exists>angle. st_angle (analyzeStaff (replicate 10 0) [0, 0, 0, 0] 2 2) = Some angle \<and> \<bar>angle\<bar> \<le> 10)"
proof -
  have ten: "replicate 10 (0::real) = [0, 0, 0, 0, 0, 0, 0, 0, 0, 0]" by (simp add: numeral_eq_Suc)
  have dark: "dark_pixels [0, 0, 0, 0] 2 2 = [(0, 0), (1, 0), (0, 1), (1, 1)]" by code_simp
  have round: "js_round 0 = 0" "js_round 1 = 1" using js_round_of_int [of 0] js_round_of_int [of 1] by simp_all
  have "staff_pixels 0 [0, 0, 0, 0] 2 2 = [(0, 0), (1, 0), (0, 1), (1, 1)]"
    by (simp add: staff_pixels_def dark row_count_def staff_row_def round Let_def)
  then have conf: "st_confident (analyzeStaff (replicate 10 0) [0, 0, 0, 0] 2 2)"
    by (simp add: analyzeStaff_def ten Let_def)
  from staff_suggestion_usable [OF conf] conf show ?thesis by blast
qed

end
