(* ===== verification/JsMap.thy ===== *)
theory JsMap
  imports Prelude
begin

text \<open>
  JavaScript's \<open>Map\<close>: keys are kept in the order of their first insertion; setting a key that
  is present keeps its place, deleting and setting it again moves it to the end. The locale
  states what the clients use; the association list is the implementation they run on.
\<close>

section \<open>The interface\<close>

locale ordered_map =
  fixes lookup :: "'m \<Rightarrow> 'k \<Rightarrow> 'v option" and update :: "'m \<Rightarrow> 'k \<Rightarrow> 'v \<Rightarrow> 'm"
    and remove :: "'m \<Rightarrow> 'k \<Rightarrow> 'm" and keys :: "'m \<Rightarrow> 'k list" and invar :: "'m \<Rightarrow> bool"
  assumes invar_update: "invar m \<Longrightarrow> invar (update m k v)"
    and invar_remove: "invar m \<Longrightarrow> invar (remove m k)"
    and lookup_update: "invar m \<Longrightarrow> lookup (update m k v) k' = (if k' = k then Some v else lookup m k')"
    and lookup_remove: "invar m \<Longrightarrow> lookup (remove m k) k' = (if k' = k then None else lookup m k')"
    and keys_update: "invar m \<Longrightarrow> keys (update m k v) = (if lookup m k = None then keys m @ [k] else keys m)"
    and keys_remove: "invar m \<Longrightarrow> keys (remove m k) = filter (\<lambda>k'. k' \<noteq> k) (keys m)"
    and keys_lookup: "invar m \<Longrightarrow> k \<in> set (keys m) \<longleftrightarrow> lookup m k \<noteq> None"
    and distinct_keys: "invar m \<Longrightarrow> distinct (keys m)"
begin

text \<open>Deleting and setting a key again moves it to the end.\<close>

lemma keys_touch: "invar m \<Longrightarrow> keys (update (remove m k) k v) = filter (\<lambda>k'. k' \<noteq> k) (keys m) @ [k]"
  by (simp add: keys_update invar_remove lookup_remove keys_remove)

lemma lookup_touch: "invar m \<Longrightarrow> lookup (update (remove m k) k v) k' = (if k' = k then Some v else lookup m k')"
  by (simp add: lookup_update invar_remove lookup_remove)

lemma last_touch: "invar m \<Longrightarrow> last (keys (update (remove m k) k v)) = k"
  by (simp add: keys_touch)

lemma remove_absent: "invar m \<Longrightarrow> lookup m k = None \<Longrightarrow> keys (remove m k) = keys m"
  using keys_lookup [of m k] by (auto simp: keys_remove filter_id_conv)

lemma size_update: "invar m \<Longrightarrow> length (keys (update m k v)) \<le> Suc (length (keys m))"
  by (simp add: keys_update)

end

section \<open>Association lists\<close>

type_synonym ('k, 'v) js_map = "('k \<times> 'v) list"

definition jm_get :: "('k, 'v) js_map \<Rightarrow> 'k \<Rightarrow> 'v option" where
  "jm_get m k = map_of m k"

fun jm_set :: "('k, 'v) js_map \<Rightarrow> 'k \<Rightarrow> 'v \<Rightarrow> ('k, 'v) js_map" where
  "jm_set [] k v = [(k, v)]"
| "jm_set ((k', v') # m) k v = (if k' = k then (k, v) # m else (k', v') # jm_set m k v)"

definition jm_delete :: "('k, 'v) js_map \<Rightarrow> 'k \<Rightarrow> ('k, 'v) js_map" where
  "jm_delete m k = filter (\<lambda>e. fst e \<noteq> k) m"

definition jm_keys :: "('k, 'v) js_map \<Rightarrow> 'k list" where
  "jm_keys m = map fst m"

definition jm_ok :: "('k, 'v) js_map \<Rightarrow> bool" where
  "jm_ok m \<longleftrightarrow> distinct (map fst m)"

definition jm_has :: "('k, 'v) js_map \<Rightarrow> 'k \<Rightarrow> bool" where
  "jm_has m k \<longleftrightarrow> jm_get m k \<noteq> None"

lemma jm_keys_set: "jm_keys (jm_set m k v) = (if jm_get m k = None then jm_keys m @ [k] else jm_keys m)"
  by (induction m k v rule: jm_set.induct) (auto simp: jm_keys_def jm_get_def)

lemma jm_get_set: "jm_get (jm_set m k v) k' = (if k' = k then Some v else jm_get m k')"
  by (induction m k v rule: jm_set.induct) (auto simp: jm_get_def)

lemma jm_get_delete: "jm_get (jm_delete m k) k' = (if k' = k then None else jm_get m k')"
  by (induction m) (auto simp: jm_get_def jm_delete_def)

lemma jm_keys_delete: "jm_keys (jm_delete m k) = filter (\<lambda>k'. k' \<noteq> k) (jm_keys m)"
  by (simp add: jm_keys_def jm_delete_def filter_map comp_def)

lemma jm_get_None: "jm_get m k = None \<longleftrightarrow> k \<notin> set (jm_keys m)"
  by (simp add: jm_get_def jm_keys_def map_of_eq_None_iff)

interpretation jm: ordered_map jm_get jm_set jm_delete jm_keys jm_ok
proof
  show "jm_ok (jm_set m k v)" if "jm_ok m" for m :: "('a, 'b) js_map" and k v
    using that jm_keys_set [of m k v] jm_get_None [of m k] by (auto simp: jm_ok_def jm_keys_def split: if_splits)
  show "jm_ok (jm_delete m k)" if "jm_ok m" for m :: "('a, 'b) js_map" and k
    using that by (simp add: jm_ok_def jm_delete_def distinct_map_filter)
  show "k \<in> set (jm_keys m) \<longleftrightarrow> jm_get m k \<noteq> None" for m :: "('a, 'b) js_map" and k
    by (simp add: jm_get_None)
  show "distinct (jm_keys m)" if "jm_ok m" for m :: "('a, 'b) js_map"
    using that by (simp add: jm_ok_def jm_keys_def)
qed (simp_all add: jm_get_set jm_get_delete jm_keys_set jm_keys_delete)

lemmas jm_rules [map_simps] = jm_get_set jm_get_delete jm_keys_set jm_keys_delete

lemma jm_ok_simps [simp]: "jm_ok []" "jm_get [] k = None" "jm_keys [] = []" "jm_delete [] k = []"
  by (simp_all add: jm_ok_def jm_get_def jm_keys_def jm_delete_def)

lemma jm_keys_simps [simp]: "jm_keys ((k, v) # m) = k # jm_keys m" "length (jm_keys m) = length m"
  by (simp_all add: jm_keys_def)

lemma jm_delete_absent: "jm_get m k = None \<Longrightarrow> jm_delete m k = m"
  by (auto simp: jm_delete_def jm_get_None jm_keys_def filter_id_conv image_iff)

lemma jm_set_absent: "jm_get m k = None \<Longrightarrow> jm_set m k v = m @ [(k, v)]"
  by (induction m k v rule: jm_set.induct) (auto simp: jm_get_def split: if_splits)

lemma jm_touch: "jm_set (jm_delete m k) k v = jm_delete m k @ [(k, v)]"
  by (rule jm_set_absent) (simp add: jm_get_delete)

end
