(* ===== verification/Machines.thy ===== *)
theory Machines
  imports Prelude
begin

text \<open>
  State machines. A component's handlers are a step function over its events; an invariant
  that every step keeps holds after any sequence of events. The first locale is for
  machines that take every event in every state, the second for steps that are enabled
  only in some states, as for replies that can only answer a request.
\<close>

locale machine =
  fixes step :: "'e \<Rightarrow> 's \<Rightarrow> 's" and inv :: "'s \<Rightarrow> bool"
  assumes inv_step: "inv s \<Longrightarrow> inv (step e s)"
begin

lemma run_inv: "inv s \<Longrightarrow> inv (fold step es s)"
  by (induction es arbitrary: s) (simp_all add: inv_step)

end

text \<open>Runs in which every event is enabled where it happens.\<close>

fun enabled_run :: "('s \<Rightarrow> 'e \<Rightarrow> bool) \<Rightarrow> ('e \<Rightarrow> 's \<Rightarrow> 's) \<Rightarrow> 's \<Rightarrow> 'e list \<Rightarrow> bool" where
  "enabled_run en step s [] \<longleftrightarrow> True"
| "enabled_run en step s (e # es) \<longleftrightarrow> en s e \<and> enabled_run en step (step e s) es"

locale guarded_machine =
  fixes en :: "'s \<Rightarrow> 'e \<Rightarrow> bool" and step :: "'e \<Rightarrow> 's \<Rightarrow> 's" and inv :: "'s \<Rightarrow> bool"
  assumes inv_step: "inv s \<Longrightarrow> en s e \<Longrightarrow> inv (step e s)"
begin

lemma run_inv: "inv s \<Longrightarrow> enabled_run en step s es \<Longrightarrow> inv (fold step es s)"
  by (induction es arbitrary: s) (simp_all add: inv_step)

end

text \<open>
  A queue that saves the user's latest choice: the choices as they were made, the ones sent to
  the server, and whether nothing is waiting or under way. What is sent keeps the order of the
  choices, so an older one never overwrites a newer one, and once the queue is idle the last
  choice is the last one sent.
\<close>

locale latest_wins = guarded_machine en step inv
  for en :: "'s \<Rightarrow> 'e \<Rightarrow> bool" and step :: "'e \<Rightarrow> 's \<Rightarrow> 's" and inv :: "'s \<Rightarrow> bool" +
  fixes wanted :: "'s \<Rightarrow> 'v list" and sent :: "'s \<Rightarrow> 'v list" and idle :: "'s \<Rightarrow> bool"
  assumes in_order: "inv s \<Longrightarrow> subseq (sent s) (wanted s)"
    and caught_up: "inv s \<Longrightarrow> idle s \<Longrightarrow> wanted s = [] \<or> (sent s \<noteq> [] \<and> last (sent s) = last (wanted s))"
begin

lemma run_in_order: "inv s \<Longrightarrow> enabled_run en step s es \<Longrightarrow> subseq (sent (fold step es s)) (wanted (fold step es s))"
  by (rule in_order [OF run_inv])

lemma run_caught_up:
  "inv s \<Longrightarrow> enabled_run en step s es \<Longrightarrow> idle (fold step es s) \<Longrightarrow>
    wanted (fold step es s) = [] \<or>
    (sent (fold step es s) \<noteq> [] \<and> last (sent (fold step es s)) = last (wanted (fold step es s)))"
  by (rule caught_up [OF run_inv])

end

lemma enabled_run_append:
  "enabled_run en step s (es @ fs) \<longleftrightarrow> enabled_run en step s es \<and> enabled_run en step (fold step es s) fs"
  by (induction es arbitrary: s) simp_all

end
