(* ===== verification/PreparedPages.thy ===== *)
theory PreparedPages
  imports PageGeometry JsMap Machines
begin

text \<open>
  Prepared photo pages (\<open>web/src/app/features/prepare/prepare-processing.ts\<close>, first half):
  whether a page is adjusted at all, the key under which its processed image is kept, and the
  cache of processed images with its limits.
\<close>

section \<open>Numbers to six decimals\<close>

text \<open>
  \<open>Number(value.toFixed(6))\<close>: the nearest multiple of a millionth, ties away from zero. A missing
  number, or one that is not finite, is \<open>None\<close>.
\<close>

definition fix6 :: "real \<Rightarrow> real" where
  "fix6 x = (if x < 0 then - (of_int (js_round (- x * 1000000)) / 1000000)
             else of_int (js_round (x * 1000000)) / 1000000)"

definition finite_or :: "real option \<Rightarrow> real \<Rightarrow> real" where
  "finite_or v fallback = (case v of None \<Rightarrow> fallback | Some x \<Rightarrow> fix6 x)"

definition item :: "'a list option \<Rightarrow> nat \<Rightarrow> 'a option" where  \<comment> \<open>\<open>v?.[index]\<close>\<close>
  "item v i = (case v of None \<Rightarrow> None | Some xs \<Rightarrow> if i < length xs then Some (xs ! i) else None)"

definition vector :: "real list option \<Rightarrow> real list \<Rightarrow> real list" where
  "vector v fallback = map (\<lambda>i. finite_or (item v i) (fallback ! i)) [0..<length fallback]"

definition points :: "real list list option \<Rightarrow> real list list" where
  "points v = map (\<lambda>point. [finite_or (item (Some point) 0) 0, finite_or (item (Some point) 1) 0]) (nullish v [])"

text \<open>The remainder operator \<open>%\<close>: the result has the sign of the dividend.\<close>

definition js_rem :: "real \<Rightarrow> real \<Rightarrow> real" where
  "js_rem x m = x - m * of_int (if x / m < 0 then \<lceil>x / m\<rceil> else \<lfloor>x / m\<rfloor>)"

definition turn :: "real option \<Rightarrow> real" where
  "turn rotation = js_rem (js_rem (finite_or rotation 0) 360 + 360) 360"

section \<open>Adjusted pages and the key of a page\<close>

definition differs :: "real option \<Rightarrow> real \<Rightarrow> bool" where
  "differs v original \<longleftrightarrow> finite_or v original \<noteq> original"

definition hasPageAdjustments :: "PageEdit \<Rightarrow> bool" where
  "hasPageAdjustments edit \<longleftrightarrow>
     (let crop = vector (e_crop edit) [0, 0, 1, 1];
          corners = points (e_corners edit);
          fullCorners = [[0, 0], [1, 0], [1, 1], [0, 1]]
      in differs (e_angle edit) 0 \<or>
         turn (e_rotation edit) \<noteq> 0 \<or>
         0 < nullish (e_paperCleanupStrength edit) (if flag (e_paperCleanup edit) then 1 else 0) \<or>
         list_ex (\<lambda>v. v \<noteq> 0) (vector (e_margins edit) [0, 0, 0, 0]) \<or>
         list_ex (\<lambda>i. crop ! i \<noteq> [0, 0, 1, 1] ! i) [0..<length crop] \<or>
         (0 < length corners \<and>
           (length corners \<noteq> 4 \<or>
            list_ex (\<lambda>i. list_ex (\<lambda>axis. corners ! i ! axis \<noteq> fullCorners ! i ! axis) [0..<length (corners ! i)])
              [0..<length corners])) \<or>
         (\<not> flag (e_fitEdges edit) \<and>
           (differs (e_scale edit) 1 \<or> differs (e_x edit) 0 \<or> differs (e_y edit) 0 \<or>
            differs (e_outputWidth edit) 0 \<or> differs (e_outputHeight edit) 0)))"

text \<open>
  The values whose JSON text is the key. \<open>JSON.stringify\<close> writes different texts for different
  values of this type, so a key is kept as its value.
\<close>

datatype Json = JText jstring | JNum real | JBool bool | JList "Json list"

definition jnums :: "real list \<Rightarrow> Json" where
  "jnums xs = JList (map JNum xs)"

definition PREPARED_KEY_VERSION :: jstring where
  "PREPARED_KEY_VERSION = js ''prepared-photo-v1''"

definition preparedPhotoKey :: "ImportAsset \<Rightarrow> PageEdit \<Rightarrow> Json" where
  "preparedPhotoKey source edit =
     (let strength = nullish (e_paperCleanupStrength edit) (if flag (e_paperCleanup edit) then 1 else 0);
          rotation = turn (e_rotation edit);
          fitEdges = flag (e_fitEdges edit)
      in JList [JText PREPARED_KEY_VERSION, JText (a_checksum source), JText (a_mime source),
           JNum (of_nat (e_page edit)), JNum (fix6 strength), JNum rotation,
           JNum (finite_or (e_angle edit) 0),
           JNum (if fitEdges then 0 else finite_or (e_x edit) 0),
           JNum (if fitEdges then 0 else finite_or (e_y edit) 0),
           JNum (if fitEdges then 1 else fix6 (or_else (e_scale edit) 1)),
           JBool fitEdges,
           jnums (vector (e_margins edit) [0, 0, 0, 0]), jnums (vector (e_crop edit) [0, 0, 1, 1]),
           JList (map jnums (points (e_corners edit))),
           JNum (if fitEdges then 0 else finite_or (e_outputWidth edit) 0),
           JNum (if fitEdges then 0 else finite_or (e_outputHeight edit) 0)])"

section \<open>The cache of prepared pages\<close>

record 'k PreparedPageCache =
  pc_entries :: "('k, nat list) js_map"
  pc_totalBytes :: int
  pc_maxEntries :: nat
  pc_maxBytes :: nat

definition new_cache :: "nat \<Rightarrow> nat \<Rightarrow> 'k PreparedPageCache" where
  "new_cache maxEntries maxBytes =
     \<lparr>pc_entries = [], pc_totalBytes = 0, pc_maxEntries = maxEntries, pc_maxBytes = maxBytes\<rparr>"

definition DEFAULT_MAX_ENTRIES :: nat where
  "DEFAULT_MAX_ENTRIES = 20"

definition DEFAULT_MAX_BYTES :: nat where
  "DEFAULT_MAX_BYTES = 64 * 1024 * 1024"

definition cache_size :: "'k PreparedPageCache \<Rightarrow> nat" where
  "cache_size c = length (pc_entries c)"

definition cache_bytes :: "'k PreparedPageCache \<Rightarrow> int" where
  "cache_bytes c = pc_totalBytes c"

definition cache_has :: "'k PreparedPageCache \<Rightarrow> 'k \<Rightarrow> bool" where
  "cache_has c key \<longleftrightarrow> jm_has (pc_entries c) key"

definition cache_get :: "'k PreparedPageCache \<Rightarrow> 'k \<Rightarrow> nat list option \<times> 'k PreparedPageCache" where
  "cache_get c key = (case jm_get (pc_entries c) key of
     None \<Rightarrow> (None, c)
   | Some value \<Rightarrow> (Some value, c\<lparr>pc_entries := jm_set (jm_delete (pc_entries c) key) key value\<rparr>))"

definition cache_delete :: "'k PreparedPageCache \<Rightarrow> 'k \<Rightarrow> bool \<times> 'k PreparedPageCache" where
  "cache_delete c key = (case jm_get (pc_entries c) key of
     None \<Rightarrow> (False, c)
   | Some value \<Rightarrow> (True, c\<lparr>pc_totalBytes := pc_totalBytes c - int (length value),
       pc_entries := jm_delete (pc_entries c) key\<rparr>))"

definition over_limits :: "'k PreparedPageCache \<Rightarrow> bool" where
  "over_limits c \<longleftrightarrow> length (pc_entries c) > pc_maxEntries c \<or> pc_totalBytes c > int (pc_maxBytes c)"

function evict :: "'k PreparedPageCache \<Rightarrow> 'k PreparedPageCache" where
  "evict c = (if over_limits c
     then (case pc_entries c of [] \<Rightarrow> c | (oldest, _) # _ \<Rightarrow> evict (snd (cache_delete c oldest)))
     else c)"
  by pat_completeness auto
termination
  by (relation "measure (\<lambda>c. length (pc_entries c))")
     (auto simp: cache_delete_def jm_get_def jm_delete_def le_imp_less_Suc)

declare evict.simps [simp del]

definition cache_set :: "'k PreparedPageCache \<Rightarrow> 'k \<Rightarrow> nat list \<Rightarrow> 'k PreparedPageCache" where
  "cache_set c key value =
     (let c = snd (cache_delete c key)
      in if length value > pc_maxBytes c \<or> pc_maxEntries c < 1 then c
         else evict (c\<lparr>pc_entries := jm_set (pc_entries c) key value,
                pc_totalBytes := pc_totalBytes c + int (length value)\<rparr>))"

definition cache_take :: "'k PreparedPageCache \<Rightarrow> 'k \<Rightarrow> nat list option \<times> 'k PreparedPageCache" where
  "cache_take c key = (case jm_get (pc_entries c) key of
     None \<Rightarrow> (None, c)
   | Some value \<Rightarrow> (Some value, snd (cache_delete c key)))"

definition cache_clear :: "'k PreparedPageCache \<Rightarrow> 'k PreparedPageCache" where
  "cache_clear c = c\<lparr>pc_entries := [], pc_totalBytes := 0\<rparr>"

text \<open>The operations as events.\<close>

datatype 'k cache_op = CGet 'k | CSet 'k "nat list" | CDelete 'k | CTake 'k | CClear

fun cache_step :: "'k cache_op \<Rightarrow> 'k PreparedPageCache \<Rightarrow> 'k PreparedPageCache" where
  "cache_step (CGet k) c = snd (cache_get c k)"
| "cache_step (CSet k v) c = cache_set c k v"
| "cache_step (CDelete k) c = snd (cache_delete c k)"
| "cache_step (CTake k) c = snd (cache_take c k)"
| "cache_step CClear c = cache_clear c"

section \<open>The invariant of the cache\<close>

definition entry_bytes :: "('k \<times> nat list) list \<Rightarrow> int" where
  "entry_bytes es = sum_list (map (\<lambda>e. int (length (snd e))) es)"

definition counted :: "'k PreparedPageCache \<Rightarrow> bool" where
  "counted c \<longleftrightarrow> jm_ok (pc_entries c) \<and> pc_totalBytes c = entry_bytes (pc_entries c)"

definition cache_ok :: "'k PreparedPageCache \<Rightarrow> bool" where
  "cache_ok c \<longleftrightarrow> counted c \<and> \<not> over_limits c"

lemma entry_bytes_simps [simp]:
  "entry_bytes [] = 0" "entry_bytes (e # es) = int (length (snd e)) + entry_bytes es"
  "entry_bytes (es @ fs) = entry_bytes es + entry_bytes fs"
  by (simp_all add: entry_bytes_def)

lemma entry_bytes_nonneg [simp]: "0 \<le> entry_bytes es"
  by (induction es) simp_all

lemma entry_bytes_delete:
  "jm_ok es \<Longrightarrow> jm_get es k = Some v \<Longrightarrow> entry_bytes (jm_delete es k) = entry_bytes es - int (length v)"
proof (induction es)
  case (Cons e es)
  obtain k' v' where e: "e = (k', v')" by fastforce
  show ?case
  proof (cases "k' = k")
    case True
    then have "jm_delete es k = es" "v' = v"
      using Cons.prems by (auto simp: e jm_ok_def jm_get_def jm_delete_absent map_of_eq_None_iff)
    then show ?thesis using True by (simp add: e jm_delete_def)
  next
    case False
    then have "jm_ok es" "jm_get es k = Some v" using Cons.prems by (auto simp: e jm_ok_def jm_get_def)
    from Cons.IH [OF this] False show ?thesis by (simp add: e jm_delete_def)
  qed
qed simp

lemma length_jm_delete: "length (jm_delete m k) \<le> length m"
  by (simp add: jm_delete_def)

lemma cache_delete_fields [simp]:
  "pc_entries (snd (cache_delete c k)) = jm_delete (pc_entries c) k"
  "pc_maxEntries (snd (cache_delete c k)) = pc_maxEntries c"
  "pc_maxBytes (snd (cache_delete c k)) = pc_maxBytes c"
  by (auto simp: cache_delete_def jm_delete_absent split: option.splits)

lemma counted_delete: "counted c \<Longrightarrow> counted (snd (cache_delete c k))"
  by (auto simp: counted_def cache_delete_def entry_bytes_delete jm.invar_remove split: option.splits)

lemma delete_bytes: "counted c \<Longrightarrow> pc_totalBytes (snd (cache_delete c k)) \<le> pc_totalBytes c"
  by (auto simp: cache_delete_def split: option.splits)

lemma cache_ok_delete: "cache_ok c \<Longrightarrow> cache_ok (snd (cache_delete c k))"
  using length_jm_delete [of "pc_entries c" k] delete_bytes [of c k] counted_delete [of c k]
  by (auto simp: cache_ok_def over_limits_def)

text \<open>Eviction drops a shortest run of the oldest entries that brings the cache within its limits.\<close>

lemma evict_drops:
  assumes "counted c"
  shows "\<exists>n \<le> length (pc_entries c).
    evict c = c\<lparr>pc_entries := drop n (pc_entries c), pc_totalBytes := entry_bytes (drop n (pc_entries c))\<rparr> \<and>
    (\<forall>j < n. length (drop j (pc_entries c)) > pc_maxEntries c \<or>
      entry_bytes (drop j (pc_entries c)) > int (pc_maxBytes c)) \<and> \<not> over_limits (evict c)"
  using assms
proof (induction c rule: evict.induct)
  case (1 c)
  show ?case
  proof (cases "over_limits c")
    case False
    then show ?thesis using "1.prems" by (intro exI [of _ 0]) (simp add: evict.simps [of c] counted_def)
  next
    case True
    show ?thesis
    proof (cases "pc_entries c")
      case Nil
      then show ?thesis using True "1.prems" by (simp add: over_limits_def counted_def)
    next
      case (Cons e es)
      obtain k v where e: "e = (k, v)" by fastforce
      define d where "d = snd (cache_delete c k)"
      have es: "jm_delete (pc_entries c) k = es"
        using "1.prems" by (auto simp: counted_def jm_ok_def Cons e jm_delete_def filter_id_conv image_iff)
      have d: "pc_entries d = es" "pc_maxEntries d = pc_maxEntries c" "pc_maxBytes d = pc_maxBytes c" "counted d"
        using "1.prems" by (simp_all add: d_def es counted_delete)
      have cd: "c\<lparr>pc_entries := xs, pc_totalBytes := b\<rparr> = d\<lparr>pc_entries := xs, pc_totalBytes := b\<rparr>" for xs b
        by (simp add: d_def cache_delete_def split: option.splits)
      have ev: "evict c = evict d" using True by (simp add: evict.simps [of c] Cons e d_def)
      from "1.IH" [OF True Cons, of k v, folded d_def] d(4) e
      obtain n where n: "n \<le> length es"
        "evict d = d\<lparr>pc_entries := drop n es, pc_totalBytes := entry_bytes (drop n es)\<rparr>"
        "\<forall>j < n. length (drop j es) > pc_maxEntries c \<or> entry_bytes (drop j es) > int (pc_maxBytes c)"
        "\<not> over_limits (evict d)"
        unfolding d by blast
      have "length (drop j (pc_entries c)) > pc_maxEntries c \<or>
          entry_bytes (drop j (pc_entries c)) > int (pc_maxBytes c)" if "j < Suc n" for j
        using that n(3) True "1.prems" by (cases j) (auto simp: Cons over_limits_def counted_def)
      then show ?thesis using n(1,2,4) by (intro exI [of _ "Suc n"]) (simp add: Cons ev cd)
    qed
  qed
qed

lemma cache_set_fits:
  assumes "counted c" and "length v \<le> pc_maxBytes c" and "1 \<le> pc_maxEntries c"
  shows "\<exists>n \<le> length (jm_delete (pc_entries c) k).
    let es = drop n (jm_delete (pc_entries c) k)
    in cache_set c k v = c\<lparr>pc_entries := es @ [(k, v)], pc_totalBytes := entry_bytes (es @ [(k, v)])\<rparr> \<and>
       \<not> over_limits (cache_set c k v) \<and>
       (\<forall>j < n. length (drop j (jm_delete (pc_entries c) k)) + 1 > pc_maxEntries c \<or>
         entry_bytes (drop j (jm_delete (pc_entries c) k)) + int (length v) > int (pc_maxBytes c))"
proof -
  define es where "es = jm_delete (pc_entries c) k"
  define d where "d = snd (cache_delete c k)"
  have d: "pc_entries d = es" "pc_maxEntries d = pc_maxEntries c" "pc_maxBytes d = pc_maxBytes c" "counted d"
    using assms(1) by (simp_all add: d_def es_def counted_delete)
  define d' where "d' = d\<lparr>pc_entries := es @ [(k, v)], pc_totalBytes := pc_totalBytes d + int (length v)\<rparr>"
  have "jm_get es k = None" by (simp add: es_def jm_get_delete)
  then have set: "jm_set es k v = es @ [(k, v)]" by (rule jm_set_absent)
  have "jm_ok (jm_set es k v)" using d(1,4) jm.invar_update by (auto simp: counted_def)
  then have cd': "counted d'" using d(1,4) unfolding set by (simp add: d'_def counted_def)
  have cs: "cache_set c k v = evict d'"
    using assms(2,3) by (simp add: cache_set_def Let_def d_def [symmetric] d(1-3) set d'_def)
  have upd: "c\<lparr>pc_entries := xs, pc_totalBytes := b\<rparr> = d'\<lparr>pc_entries := xs, pc_totalBytes := b\<rparr>" for xs b
    by (simp add: d'_def d_def cache_delete_def split: option.splits)
  obtain n where n: "n \<le> length (es @ [(k, v)])"
    "evict d' = d'\<lparr>pc_entries := drop n (es @ [(k, v)]), pc_totalBytes := entry_bytes (drop n (es @ [(k, v)]))\<rparr>"
    "\<forall>j < n. length (drop j (es @ [(k, v)])) > pc_maxEntries c \<or>
      entry_bytes (drop j (es @ [(k, v)])) > int (pc_maxBytes c)"
    "\<not> over_limits (evict d')"
    using evict_drops [OF cd'] d(2,3) by (auto simp: d'_def)
  have "n \<le> length es"
  proof (rule ccontr)
    assume "\<not> n \<le> length es"
    with n(3) have "length [(k, v)] > pc_maxEntries c \<or> entry_bytes [(k, v)] > int (pc_maxBytes c)"
      by (auto dest: spec [of _ "length es"])
    then show False using assms(2,3) by simp
  qed
  then show ?thesis using n(2-4)
    by (intro exI [of _ n]) (auto simp: cs upd Let_def simp flip: es_def)
qed

lemma cache_ok_set: "cache_ok c \<Longrightarrow> cache_ok (cache_set c k v)"
proof -
  assume ok: "cache_ok c"
  show ?thesis
  proof (cases "length v > pc_maxBytes c \<or> pc_maxEntries c < 1")
    case True
    then show ?thesis using ok cache_ok_delete [of c k] by (simp add: cache_set_def)
  next
    case False
    then have fits: "length v \<le> pc_maxBytes c" "1 \<le> pc_maxEntries c" by auto
    obtain n where n: "cache_set c k v = c\<lparr>pc_entries := drop n (jm_delete (pc_entries c) k) @ [(k, v)],
        pc_totalBytes := entry_bytes (drop n (jm_delete (pc_entries c) k) @ [(k, v)])\<rparr>"
      "\<not> over_limits (cache_set c k v)"
      using cache_set_fits [of c v k] ok fits by (auto simp: cache_ok_def Let_def)
    have "jm_ok (jm_delete (pc_entries c) k)" using ok jm.invar_remove by (auto simp: cache_ok_def counted_def)
    then have "distinct (map fst (drop n (jm_delete (pc_entries c) k)))"
      by (simp add: jm_ok_def flip: drop_map)
    moreover have "k \<notin> fst ` set (drop n (jm_delete (pc_entries c) k))"
      by (auto dest: in_set_dropD simp: jm_delete_def)
    ultimately show ?thesis using n by (simp add: cache_ok_def counted_def jm_ok_def)
  qed
qed

lemma jm_delete_touch_bytes:
  "jm_ok es \<Longrightarrow> jm_get es k = Some v \<Longrightarrow> entry_bytes (jm_set (jm_delete es k) k v) = entry_bytes es"
  by (simp add: jm_touch entry_bytes_delete)

lemma cache_ok_get: "cache_ok c \<Longrightarrow> cache_ok (snd (cache_get c k))"
proof (cases "jm_get (pc_entries c) k")
  case (Some v)
  assume ok: "cache_ok c"
  have "length (jm_delete (pc_entries c) k) < length (pc_entries c)"
  proof -
    have "k \<in> fst ` set (pc_entries c)" using Some by (force simp: jm_get_def dest: map_of_SomeD)
    then show ?thesis by (auto simp: jm_delete_def intro: length_filter_less)
  qed
  then show ?thesis using ok Some
    by (auto simp: cache_ok_def counted_def over_limits_def cache_get_def jm_delete_touch_bytes
        jm.invar_update jm.invar_remove jm_touch [of _ k v] entry_bytes_delete)
       (metis jm.invar_remove jm.invar_update jm_touch)+
qed (simp add: cache_get_def)

interpretation page_cache: machine cache_step cache_ok
proof
  show "cache_ok (cache_step e c)" if "cache_ok c" for c :: "'a PreparedPageCache" and e
    using that
    by (cases e) (auto simp: cache_ok_set cache_ok_delete cache_ok_get cache_take_def split: option.splits,
        simp add: cache_ok_def counted_def over_limits_def cache_clear_def)
qed

lemma evict_limits [simp]: "pc_maxEntries (evict c) = pc_maxEntries c" "pc_maxBytes (evict c) = pc_maxBytes c"
proof (induction c rule: evict.induct)
  case (1 c)
  { case 1 show ?case using "1.IH"(1) by (cases "pc_entries c") (auto simp: evict.simps [of c]) }
  { case 2 show ?case using "1.IH"(2) by (cases "pc_entries c") (auto simp: evict.simps [of c]) }
qed

lemma cache_step_limits [simp]:
  "pc_maxEntries (cache_step e c) = pc_maxEntries c" "pc_maxBytes (cache_step e c) = pc_maxBytes c"
  by (cases e; simp add: cache_get_def cache_take_def cache_set_def cache_clear_def Let_def split: option.split)+

lemma run_limits:
  "pc_maxEntries (fold cache_step ops c) = pc_maxEntries c \<and> pc_maxBytes (fold cache_step ops c) = pc_maxBytes c"
  by (induction ops arbitrary: c) simp_all

lemma new_cache_ok: "cache_ok (new_cache maxEntries maxBytes)"
  by (simp add: cache_ok_def counted_def over_limits_def new_cache_def)

section \<open>Values on the six-decimal grid\<close>

definition on_grid :: "real \<Rightarrow> bool" where
  "on_grid x \<longleftrightarrow> fix6 x = x"

definition grid_number :: "real option \<Rightarrow> bool" where
  "grid_number v \<longleftrightarrow> (case v of None \<Rightarrow> True | Some x \<Rightarrow> on_grid x)"

definition grid_list :: "nat \<Rightarrow> real list option \<Rightarrow> bool" where
  "grid_list n v \<longleftrightarrow> (case v of None \<Rightarrow> True | Some xs \<Rightarrow> length xs = n \<and> list_all on_grid xs)"

text \<open>An edit as the screen makes it: no more than six decimals, four margins, a crop of four
  numbers, corners of two.\<close>

definition grid_edit :: "PageEdit \<Rightarrow> bool" where
  "grid_edit e \<longleftrightarrow>
     grid_number (e_paperCleanupStrength e) \<and> grid_number (e_angle e) \<and> grid_number (e_rotation e) \<and>
     grid_number (e_outputWidth e) \<and> grid_number (e_outputHeight e) \<and> grid_number (e_scale e) \<and>
     grid_number (e_x e) \<and> grid_number (e_y e) \<and> grid_list 4 (e_margins e) \<and> grid_list 4 (e_crop e) \<and>
     list_all (\<lambda>p. grid_list 2 (Some p)) (nullish (e_corners e) [])"

lemma fix6_of_int [simp]: "fix6 (of_int n) = of_int n" "fix6 0 = 0" "fix6 1 = 1"
proof -
  have m: "real_of_int k * 1000000 = of_int (k * 1000000)" for k by simp
  show *: "fix6 (of_int n) = of_int n" for n
    unfolding fix6_def minus_mult_left [symmetric] mult_minus_left m
    using js_round_of_int [of "n * 1000000"] js_round_of_int [of "- n * 1000000"] by simp
  show "fix6 0 = 0" "fix6 1 = 1" using * [of 0] * [of 1] by simp_all
qed

lemma finite_or_grid: "grid_number v \<Longrightarrow> finite_or v d = nullish v d"
  by (cases v) (simp_all add: grid_number_def on_grid_def finite_or_def)

lemma finite_or_zero: "grid_number v \<Longrightarrow> finite_or v 0 = or_else v 0"
  by (cases v) (simp_all add: grid_number_def on_grid_def finite_or_def)

lemma vector_grid: "grid_list n v \<Longrightarrow> length d = n \<Longrightarrow> vector v d = nullish v d"
  by (cases v) (auto simp: grid_list_def vector_def item_def finite_or_def on_grid_def list_all_length map_nth
      intro: nth_equalityI)

lemma points_grid:
  assumes "list_all (\<lambda>p. grid_list 2 (Some p)) (nullish v [])"
  shows "points v = nullish v []"
proof -
  have "[finite_or (item (Some p) 0) 0, finite_or (item (Some p) 1) 0] = p" if "grid_list 2 (Some p)" for p
    using that by (cases p; cases "tl p")
      (auto simp: grid_list_def item_def finite_or_def on_grid_def)
  then show ?thesis using assms by (auto simp: points_def list_all_iff intro: map_idI)
qed

text \<open>A rotation counts modulo a full turn.\<close>

lemma js_rem_whole: "\<exists>k :: int. js_rem x 360 = x + 360 * of_int k"
  by (cases "x / 360 < 0") (auto simp: js_rem_def intro: exI [of _ "- \<lceil>x / 360\<rceil>"] exI [of _ "- \<lfloor>x / 360\<rfloor>"])

lemma turn_whole: "\<exists>k :: int. turn v = finite_or v 0 + 360 * of_int k"
proof -
  obtain i j :: int where "js_rem (finite_or v 0) 360 = finite_or v 0 + 360 * of_int i"
    "turn v = js_rem (finite_or v 0) 360 + 360 + 360 * of_int j"
    unfolding turn_def using js_rem_whole by meson
  then show ?thesis by (intro exI [of _ "i + j + 1"]) (simp add: algebra_simps)
qed

lemma turn_eq:
  assumes "turn v = turn w"
  shows "\<exists>k :: int. finite_or v 0 = finite_or w 0 + 360 * of_int k"
proof -
  obtain i j :: int where "turn v = finite_or v 0 + 360 * of_int i" "turn w = finite_or w 0 + 360 * of_int j"
    using turn_whole by meson
  then show ?thesis using assms by (intro exI [of _ "j - i"]) (simp add: algebra_simps)
qed

lemma turn_same_direction:
  assumes "b = b' + 360 * of_int (k :: int)"
  shows "cos ((a + b) * pi / 180) = cos ((a + b') * pi / 180)"
    and "sin ((a + b) * pi / 180) = sin ((a + b') * pi / 180)"
    and "quarter_turned b = quarter_turned b'"
proof -
  define t where "t = (a + b') * pi / 180"
  have t: "(a + b) * pi / 180 = t + 2 * pi * of_int k"
    using assms by (simp add: t_def field_simps)
  show "cos ((a + b) * pi / 180) = cos ((a + b') * pi / 180)"
    "sin ((a + b) * pi / 180) = sin ((a + b') * pi / 180)"
    unfolding t t_def [symmetric] by (simp_all add: sin_add cos_add sin_integer_2pi cos_integer_2pi)
  have "b / 180 = b' / 180 + of_int (2 * k)" using assms by simp
  then have "\<lfloor>b / 180\<rfloor> = \<lfloor>b' / 180\<rfloor> + 2 * k" by (simp only: floor_add_int)
  then show "quarter_turned b = quarter_turned b'"
    using assms by (simp add: quarter_turned_def algebra_simps)
qed

text \<open>What the placement of a page reads of its edit.\<close>

lemma layout_reads:
  assumes "flag (e_fitEdges e) = flag (e_fitEdges e')"
    and "or_else (e_angle e) 0 = or_else (e_angle e') 0"
    and "or_else (e_rotation e) 0 = or_else (e_rotation e') 0 + 360 * of_int (k :: int)"
    and "nullish (e_margins e) [0, 0, 0, 0] = nullish (e_margins e') [0, 0, 0, 0]"
    and "flag (e_fitEdges e) \<or> or_else (e_scale e) 1 = or_else (e_scale e') 1 \<and>
      or_else (e_x e) 0 = or_else (e_x e') 0 \<and> or_else (e_y e) 0 = or_else (e_y e') 0 \<and>
      (\<forall>d. or_else (e_outputWidth e) d = or_else (e_outputWidth e') d) \<and>
      (\<forall>d. or_else (e_outputHeight e) d = or_else (e_outputHeight e') d)"
  shows "lay_outputWidth (pageLayout w h e) = lay_outputWidth (pageLayout w h e') \<and>
    lay_outputHeight (pageLayout w h e) = lay_outputHeight (pageLayout w h e') \<and>
    lay_transform (pageLayout w h e) = lay_transform (pageLayout w h e')"
proof -
  note dir = turn_same_direction [OF assms(3)]
  show ?thesis
    using assms(5) unfolding pageLayout_def Let_def assms(1,2,4) dir
    by (cases "flag (e_fitEdges e')") (simp_all add: assms(1))
qed

lemma or_else_zero: "or_else v 0 = or_else w 0 \<Longrightarrow> or_else v d = or_else w d"
  by (cases v; cases w) (auto split: if_splits)

section \<open>Properties: keys\<close>

text \<open>What equal keys say of the values the worker reads.\<close>

lemma prepared_key_reads:
  assumes "preparedPhotoKey s e = preparedPhotoKey s' e'" and "grid_edit e" and "grid_edit e'"
  shows "a_checksum s = a_checksum s'" and "a_mime s = a_mime s'" and "e_page e = e_page e'"
    and "cleanupStrength e = cleanupStrength e'" and "flag (e_fitEdges e) = flag (e_fitEdges e')"
    and "or_else (e_angle e) 0 = or_else (e_angle e') 0"
    and "nullish (e_margins e) [0, 0, 0, 0] = nullish (e_margins e') [0, 0, 0, 0]"
    and "nullish (e_crop e) [0, 0, 1, 1] = nullish (e_crop e') [0, 0, 1, 1]"
    and "nullish (e_corners e) [] = nullish (e_corners e') []"
    and "\<exists>k :: int. or_else (e_rotation e) 0 = or_else (e_rotation e') 0 + 360 * of_int k"
    and "flag (e_fitEdges e) \<or> or_else (e_scale e) 1 = or_else (e_scale e') 1 \<and>
      or_else (e_x e) 0 = or_else (e_x e') 0 \<and> or_else (e_y e) 0 = or_else (e_y e') 0 \<and>
      or_else (e_outputWidth e) 0 = or_else (e_outputWidth e') 0 \<and>
      or_else (e_outputHeight e) 0 = or_else (e_outputHeight e') 0"
proof -
  have strength: "fix6 (cleanupStrength x) = cleanupStrength x" if "grid_edit x" for x
    using that by (cases "e_paperCleanupStrength x") (auto simp: grid_edit_def grid_number_def on_grid_def cleanupStrength_def)
  have scale: "fix6 (or_else (e_scale x) 1) = or_else (e_scale x) 1" if "grid_edit x" for x
    using that by (cases "e_scale x") (auto simp: grid_edit_def grid_number_def on_grid_def)
  have vec: "vector (e_margins x) [0, 0, 0, 0] = nullish (e_margins x) [0, 0, 0, 0]"
    "vector (e_crop x) [0, 0, 1, 1] = nullish (e_crop x) [0, 0, 1, 1]"
    "points (e_corners x) = nullish (e_corners x) []" if "grid_edit x" for x
    using that by (auto simp: grid_edit_def intro!: vector_grid points_grid)
  have num: "finite_or (e_angle x) 0 = or_else (e_angle x) 0" "finite_or (e_rotation x) 0 = or_else (e_rotation x) 0"
    "finite_or (e_x x) 0 = or_else (e_x x) 0" "finite_or (e_y x) 0 = or_else (e_y x) 0"
    "finite_or (e_outputWidth x) 0 = or_else (e_outputWidth x) 0"
    "finite_or (e_outputHeight x) 0 = or_else (e_outputHeight x) 0" if "grid_edit x" for x
    using that by (auto simp: grid_edit_def intro!: finite_or_zero)
  have inj: "inj JNum" "inj jnums" by (auto simp: inj_def jnums_def)
  note key = assms(1) [unfolded preparedPhotoKey_def Let_def cleanupStrength_def [symmetric]
      strength [OF assms(2)] strength [OF assms(3)] scale [OF assms(2)] scale [OF assms(3)]
      vec [OF assms(2)] vec [OF assms(3)] num [OF assms(2)] num [OF assms(3)]]
  have same: "a_checksum s = a_checksum s'" "a_mime s = a_mime s'" "e_page e = e_page e'"
    "cleanupStrength e = cleanupStrength e'" "turn (e_rotation e) = turn (e_rotation e')"
    "flag (e_fitEdges e) = flag (e_fitEdges e')" "or_else (e_angle e) 0 = or_else (e_angle e') 0"
    "nullish (e_margins e) [0, 0, 0, 0] = nullish (e_margins e') [0, 0, 0, 0]"
    "nullish (e_crop e) [0, 0, 1, 1] = nullish (e_crop e') [0, 0, 1, 1]"
    "nullish (e_corners e) [] = nullish (e_corners e') []"
    using key by (simp_all add: jnums_def inj_map_eq_map [OF inj(1)] inj_map_eq_map [OF inj(2)])
  show "\<exists>k :: int. or_else (e_rotation e) 0 = or_else (e_rotation e') 0 + 360 * of_int k"
    using turn_eq [OF same(5)] num(2) assms(2,3) by auto
  show "flag (e_fitEdges e) \<or> or_else (e_scale e) 1 = or_else (e_scale e') 1 \<and>
      or_else (e_x e) 0 = or_else (e_x e') 0 \<and> or_else (e_y e) 0 = or_else (e_y e') 0 \<and>
      or_else (e_outputWidth e) 0 = or_else (e_outputWidth e') 0 \<and>
      or_else (e_outputHeight e) 0 = or_else (e_outputHeight e') 0"
    using key same(6) by (cases "flag (e_fitEdges e)") simp_all
  show "a_checksum s = a_checksum s'" "a_mime s = a_mime s'" "e_page e = e_page e'"
    "cleanupStrength e = cleanupStrength e'" "flag (e_fitEdges e) = flag (e_fitEdges e')"
    "or_else (e_angle e) 0 = or_else (e_angle e') 0"
    "nullish (e_margins e) [0, 0, 0, 0] = nullish (e_margins e') [0, 0, 0, 0]"
    "nullish (e_crop e) [0, 0, 1, 1] = nullish (e_crop e') [0, 0, 1, 1]"
    "nullish (e_corners e) [] = nullish (e_corners e') []"
    by (fact same)+
qed

lemma prepared_key_layout:
  assumes "preparedPhotoKey s e = preparedPhotoKey s' e'" and "grid_edit e" and "grid_edit e'"
  shows "lay_outputWidth (pageLayout w h e) = lay_outputWidth (pageLayout w h e') \<and>
    lay_outputHeight (pageLayout w h e) = lay_outputHeight (pageLayout w h e') \<and>
    lay_transform (pageLayout w h e) = lay_transform (pageLayout w h e')"
proof -
  note same = prepared_key_reads [OF assms]
  from same(10) obtain k :: int where k: "or_else (e_rotation e) 0 = or_else (e_rotation e') 0 + 360 * of_int k" ..
  have "flag (e_fitEdges e) \<or> or_else (e_scale e) 1 = or_else (e_scale e') 1 \<and>
      or_else (e_x e) 0 = or_else (e_x e') 0 \<and> or_else (e_y e) 0 = or_else (e_y e') 0 \<and>
      (\<forall>d. or_else (e_outputWidth e) d = or_else (e_outputWidth e') d) \<and>
      (\<forall>d. or_else (e_outputHeight e) d = or_else (e_outputHeight e') d)"
    using same(11) or_else_zero by blast
  from layout_reads [OF same(5,6) k same(7) this] show ?thesis by blast
qed


text \<open>A quarter turn right and three quarter turns left are one key.\<close>

definition photo :: ImportAsset where
  "photo = \<lparr>a_id = js ''s'', a_filename = js ''scan.jpg'', a_mime = js ''image/jpeg'', a_size = 10,
     a_checksum = js ''c'', a_pageCount = 1, a_width = 600, a_height = 800\<rparr>"

lemma prepared_key_turns:
  "preparedPhotoKey photo (blank_edit ''a''\<lparr>e_rotation := Some 90\<rparr>) =
   preparedPhotoKey photo (blank_edit ''b''\<lparr>e_rotation := Some (- 270)\<rparr>)"
proof -
  have "fix6 90 = 90" "fix6 (- 270) = - 270" using fix6_of_int(1) [of 90] fix6_of_int(1) [of "- 270"] by simp_all
  moreover have "ceiling (- 3 / 4 :: real) = 0" "floor (1 / 4 :: real) = 0" by (simp_all add: floor_eq_iff ceiling_eq_iff)
  moreover have "floor (5 / 4 :: real) = 1" by (simp add: floor_eq_iff)
  ultimately have "turn (Some 90) = 90" "turn (Some (- 270)) = 90"
    by (simp_all add: turn_def finite_or_def js_rem_def)
  then show ?thesis by (simp add: preparedPhotoKey_def blank_edit_def photo_def Let_def)
qed


section \<open>Properties: pages without adjustments\<close>

lemma nullish_or_else: "nullish v d = d \<Longrightarrow> or_else v d = d"
  by (cases v) simp_all

text \<open>A page that is not marked as adjusted is the page of the source. With numbers of at most
  six decimals it has no cleanup, its crop is the whole page, its corners are the page's corners
  if it has any, the output has the size of the source, and every point stays where it is.\<close>

theorem unadjusted_page_is_source:
  assumes "\<not> hasPageAdjustments e" and "grid_edit e" and "0 \<le> w" and "0 \<le> h"
  shows "cleanupStrength e \<le> 0 \<and> nullish (e_crop e) [0, 0, 1, 1] = [0, 0, 1, 1] \<and>
    nullish (e_corners e) [] \<in> {[], [[0, 0], [1, 0], [1, 1], [0, 1]]} \<and>
    lay_outputWidth (pageLayout w h e) = w \<and> lay_outputHeight (pageLayout w h e) = h \<and>
    lay_transform (pageLayout w h e) x y = (x, y)"
proof -
  have vec: "vector (e_margins e) [0, 0, 0, 0] = nullish (e_margins e) [0, 0, 0, 0]"
    "vector (e_crop e) [0, 0, 1, 1] = nullish (e_crop e) [0, 0, 1, 1]"
    "points (e_corners e) = nullish (e_corners e) []"
    using assms(2) by (auto simp: grid_edit_def intro!: vector_grid points_grid)
  have num: "finite_or (e_angle e) d = nullish (e_angle e) d" "finite_or (e_rotation e) d = nullish (e_rotation e) d"
    "finite_or (e_x e) d = nullish (e_x e) d" "finite_or (e_y e) d = nullish (e_y e) d"
    "finite_or (e_outputWidth e) d = nullish (e_outputWidth e) d"
    "finite_or (e_outputHeight e) d = nullish (e_outputHeight e) d"
    "finite_or (e_scale e) d = nullish (e_scale e) d" for d
    using assms(2) by (auto simp: grid_edit_def intro!: finite_or_grid)
  note no = assms(1) [unfolded hasPageAdjustments_def Let_def vec differs_def num]
  have plain: "nullish (e_angle e) 0 = 0" "turn (e_rotation e) = 0" "cleanupStrength e \<le> 0"
    "flag (e_fitEdges e) \<or> nullish (e_scale e) 1 = 1 \<and> nullish (e_x e) 0 = 0 \<and> nullish (e_y e) 0 = 0 \<and>
      nullish (e_outputWidth e) 0 = 0 \<and> nullish (e_outputHeight e) 0 = 0"
    using no unfolding cleanupStrength_def by (blast, blast, argo, blast)
  have four: "length (vector v d) = length d" for v d by (simp add: vector_def)
  have whole: "xs = d" if "\<not> list_ex (\<lambda>i. xs ! i \<noteq> d ! i) [0..<length xs]" "length xs = length d" for xs d :: "real list"
    using that by (intro nth_equalityI) (auto simp: list_ex_iff)
  have crop: "nullish (e_crop e) [0, 0, 1, 1] = [0, 0, 1, 1]"
    using no four [of "e_crop e" "[0, 0, 1, 1]"] unfolding vec by (intro whole) simp_all
  have margins: "nullish (e_margins e) [0, 0, 0, 0] = [0, 0, 0, 0]"
    using no four [of "e_margins e" "[0, 0, 0, 0]"] unfolding vec
    by (intro whole) (auto simp: list_ex_iff numeral_eq_Suc less_Suc_eq)
  have pts: "length p = 2" if "p \<in> set (nullish (e_corners e) [])" for p
    using assms(2) that by (auto simp: grid_edit_def list_all_iff grid_list_def)
  have corners: "nullish (e_corners e) [] \<in> {[], [[0, 0], [1, 0], [1, 1], [0, 1]]}"
  proof (cases "nullish (e_corners e) [] = []")
    case False
    define full where "full = [[0, 0], [1, 0], [1, 1], [0, 1 :: real]]"
    have len: "length (nullish (e_corners e) []) = 4" using no False by auto
    have "nullish (e_corners e) [] ! i = full ! i" if "i < 4" for i
    proof (rule whole)
      show "length (nullish (e_corners e) [] ! i) = length (full ! i)"
        using pts [of "nullish (e_corners e) [] ! i"] that len
        by (auto simp: full_def numeral_eq_Suc less_Suc_eq)
      show "\<not> list_ex (\<lambda>a. nullish (e_corners e) [] ! i ! a \<noteq> full ! i ! a) [0..<length (nullish (e_corners e) [] ! i)]"
        using no False len that unfolding full_def list_ex_iff by auto
    qed
    then have "nullish (e_corners e) [] = full" using len by (intro nth_equalityI) (auto simp: full_def)
    then show ?thesis by (simp add: full_def)
  qed simp
  have "turn None = 0" by (simp add: turn_def finite_or_def js_rem_def)
  then have "turn (e_rotation e) = turn None" using plain(2) by simp
  from turn_eq [OF this] obtain k :: int where "finite_or (e_rotation e) 0 = finite_or None 0 + 360 * of_int k" by blast
  then have k: "or_else (e_rotation e) 0 = or_else None 0 + 360 * of_int k"
    using assms(2) finite_or_zero [of "e_rotation e"] by (simp add: grid_edit_def finite_or_def)
  let ?b = "blank_edit ''a''\<lparr>e_fitEdges := e_fitEdges e\<rparr>"
  have base: "flag (e_fitEdges e) = flag (e_fitEdges ?b)" "or_else (e_angle e) 0 = or_else (e_angle ?b) 0"
    "or_else (e_rotation e) 0 = or_else (e_rotation ?b) 0 + 360 * of_int k"
    "nullish (e_margins e) [0, 0, 0, 0] = nullish (e_margins ?b) [0, 0, 0, 0]"
    using nullish_or_else [OF plain(1)] k margins by (simp_all only: blank_edit_def PageEdit.simps nullish_simps or_else_simps)
  have "flag (e_fitEdges e) \<or> or_else (e_scale e) 1 = 1 \<and> or_else (e_x e) 0 = 0 \<and> or_else (e_y e) 0 = 0 \<and>
      or_else (e_outputWidth e) 0 = or_else None 0 \<and> or_else (e_outputHeight e) 0 = or_else None 0"
    using plain(4) nullish_or_else by fastforce
  then have "flag (e_fitEdges e) \<or> or_else (e_scale e) 1 = or_else (e_scale ?b) 1 \<and>
      or_else (e_x e) 0 = or_else (e_x ?b) 0 \<and> or_else (e_y e) 0 = or_else (e_y ?b) 0 \<and>
      (\<forall>d. or_else (e_outputWidth e) d = or_else (e_outputWidth ?b) d) \<and>
      (\<forall>d. or_else (e_outputHeight e) d = or_else (e_outputHeight ?b) d)"
    using or_else_zero [of "e_outputWidth e" None] or_else_zero [of "e_outputHeight e" None]
    by (simp add: blank_edit_def) blast
  from layout_reads [OF base this]
  have "lay_outputWidth (pageLayout w h e) = w" "lay_outputHeight (pageLayout w h e) = h"
    "lay_transform (pageLayout w h e) x y = (x, y)"
    using assms(3,4) by (simp_all add: pageLayout_def Let_def blank_edit_def quarter_turned_def)
  then show ?thesis using plain(3) crop corners by blast
qed

theorem unadjusted_page_is_source_witness:
  "\<not> hasPageAdjustments (blank_edit ''a'') \<and>
   lay_transform (pageLayout 600 800 (blank_edit ''a'')) 10 20 = (10, 20)"
proof -
  have turn: "turn None = 0" by (simp add: turn_def finite_or_def js_rem_def)
  have four: "[0..<4] = [0, 1, 2, 3]" by (simp add: upt_rec)
  have no: "\<not> hasPageAdjustments (blank_edit ''a'')"
    by (simp add: hasPageAdjustments_def blank_edit_def differs_def finite_or_def vector_def item_def points_def
        turn four flag_def)
  have grid: "grid_edit (blank_edit ''a'')"
    by (simp add: grid_edit_def blank_edit_def grid_number_def grid_list_def)
  from unadjusted_page_is_source [OF no grid, of 600 800 10 20] no show ?thesis by simp
qed

section \<open>Properties: the cache\<close>

text \<open>Whatever is stored, read, taken or deleted, and in whatever order, the cache of prepared
  pages stays within its limits: no more entries and no more bytes than allowed, its byte count
  is the sum of what it holds, and no page is held twice.\<close>

theorem prepared_cache_bounded:
  "let c = fold cache_step ops (new_cache maxEntries maxBytes)
   in cache_size c \<le> maxEntries \<and> cache_bytes c \<le> int maxBytes \<and>
      cache_bytes c = sum_list (map (int \<circ> length \<circ> snd) (pc_entries c)) \<and>
      distinct (jm_keys (pc_entries c))"
proof -
  have "cache_ok (fold cache_step ops (new_cache maxEntries maxBytes))"
    by (rule page_cache.run_inv [OF new_cache_ok])
  then show ?thesis using run_limits [of ops "new_cache maxEntries maxBytes"]
    by (simp add: cache_ok_def counted_def over_limits_def new_cache_def cache_size_def cache_bytes_def
        jm_ok_def jm_keys_def Let_def entry_bytes_def comp_def)
qed

text \<open>Storing a page that fits makes it the newest entry, and makes room only by dropping the
  least recently used ones, no more of them than the limits ask for: what stays is the rest of
  the entries in their order, and keeping one more would have broken a limit.\<close>

theorem prepared_cache_keeps_newest:
  assumes "c = fold cache_step ops (new_cache maxEntries maxBytes)"
    and "length content \<le> maxBytes" and "1 \<le> maxEntries" and "older = jm_delete (pc_entries c) key"
  shows "\<exists>n \<le> length older.
    pc_entries (cache_set c key content) = drop n older @ [(key, content)] \<and>
    fst (cache_get (cache_set c key content) key) = Some content \<and>
    (n = 0 \<or> length older - (n - 1) + 1 > maxEntries \<or>
      sum_list (map (int \<circ> length \<circ> snd) (drop (n - 1) older)) + int (length content) > int maxBytes)"
proof -
  have ok: "cache_ok c" unfolding assms(1) by (rule page_cache.run_inv [OF new_cache_ok])
  have lim: "pc_maxEntries c = maxEntries" "pc_maxBytes c = maxBytes"
    unfolding assms(1) by (simp_all add: run_limits new_cache_def)
  obtain n where n: "n \<le> length older"
    "cache_set c key content = c\<lparr>pc_entries := drop n older @ [(key, content)],
       pc_totalBytes := entry_bytes (drop n older @ [(key, content)])\<rparr>"
    "\<forall>j < n. length (drop j older) + 1 > maxEntries \<or> entry_bytes (drop j older) + int (length content) > int maxBytes"
    using cache_set_fits [of c content key] ok assms(2,3) lim
    by (auto simp: cache_ok_def Let_def simp flip: assms(4))
  have "cache_ok (cache_set c key content)" using ok by (rule cache_ok_set)
  then have "jm_get (pc_entries (cache_set c key content)) key = Some content"
    using n(2) map_of_eq_None_iff [of "drop n older" key]
    by (auto simp: jm_get_def cache_ok_def counted_def jm_ok_def map_add_def)
  moreover have "n = 0 \<or> length older - (n - 1) + 1 > maxEntries \<or>
      entry_bytes (drop (n - 1) older) + int (length content) > int maxBytes"
    using n(3) by (cases n) auto
  ultimately show ?thesis using n(1,2)
    by (intro exI [of _ n]) (simp add: cache_get_def entry_bytes_def comp_def)
qed

theorem prepared_cache_keeps_newest_witness:
  "let c = fold cache_step [CSet (1::nat) [7], CSet 2 [8], CGet 1] (new_cache 2 10) in
   \<exists>n \<le> length (jm_delete (pc_entries c) 3).
    pc_entries (cache_set c 3 [9, 9]) = drop n (jm_delete (pc_entries c) 3) @ [(3, [9, 9])]"
  using prepared_cache_keeps_newest [of "fold cache_step [CSet (1::nat) [7], CSet 2 [8], CGet 1] (new_cache 2 10)"
      "[CSet (1::nat) [7], CSet 2 [8], CGet 1]" 2 10 "[9, 9]" _ 3]
  by (auto simp: Let_def)

end
