(* ===== verification/WorkerClient.thy ===== *)
theory WorkerClient
  imports JsText Machines
begin

text \<open>
  The page side of the processing worker (\<open>ProcessingWorkerClient\<close> in
  \<open>web/src/app/features/prepare/prepare-processing.ts\<close>): one request at a time, stopped by
  cancelling, by a newer request or by leaving the page. Workers and promises are numbered in
  the order they are made; the log holds how each promise was settled, and the workers that
  were terminated are listed, so that the properties can speak of them.
\<close>

section \<open>Requests and replies\<close>

datatype ProcessingStopReason = Cancelled | Superseded | Destroyed

definition stop_message :: "ProcessingStopReason \<Rightarrow> jstring" where
  "stop_message reason =
     (if reason = Superseded then js ''Processing superseded.''
      else if reason = Destroyed then js ''Processing stopped.''
      else js ''Processing cancelled.'')"

record ProcessingResponse =
  pr_requestId :: "jstring option"
  pr_progress :: "jstring option"
  pr_bytes :: "nat list option"
  pr_result :: "jstring option"
  pr_blob :: "nat list option"
  pr_width :: "nat option"
  pr_height :: "nat option"
  pr_error :: "jstring option"

text \<open>A missing or empty text is false.\<close>

definition has_text :: "jstring option \<Rightarrow> bool" where
  "has_text v \<longleftrightarrow> (case v of None \<Rightarrow> False | Some s \<Rightarrow> s \<noteq> [])"

datatype Settlement = Resolved ProcessingResponse | Stopped ProcessingStopReason | Failed jstring

definition isProcessingStopped :: "Settlement \<Rightarrow> bool" where
  "isProcessingStopped s \<longleftrightarrow> (case s of Stopped _ \<Rightarrow> True | _ \<Rightarrow> False)"

record ActiveRequest =
  ar_id :: jstring
  ar_promise :: nat

record ProcessingWorkerClient =
  wc_worker :: "nat option"
  wc_active :: "ActiveRequest option"
  wc_destroyed :: bool
  \<comment> \<open>what the page sees of it\<close>
  wc_made :: nat
  wc_terminated :: "nat list"
  wc_calls :: "jstring option list"
  wc_posted :: "(nat \<times> jstring) list"
  wc_settled :: "(nat \<times> Settlement) list"
  wc_progress :: "(nat \<times> jstring) list"

definition new_client :: ProcessingWorkerClient where
  "new_client = \<lparr>wc_worker = None, wc_active = None, wc_destroyed = False, wc_made = 0, wc_terminated = [],
     wc_calls = [], wc_posted = [], wc_settled = [], wc_progress = []\<rparr>"

definition activeRequest :: "ProcessingWorkerClient \<Rightarrow> bool" where
  "activeRequest c \<longleftrightarrow> wc_active c \<noteq> None"

section \<open>Operations\<close>

definition settle :: "nat \<Rightarrow> Settlement \<Rightarrow> ProcessingWorkerClient \<Rightarrow> ProcessingWorkerClient" where
  "settle p outcome c = c\<lparr>wc_settled := wc_settled c @ [(p, outcome)]\<rparr>"

definition releaseWorker :: "ProcessingWorkerClient \<Rightarrow> ProcessingWorkerClient" where
  "releaseWorker c = (case wc_worker c of
     None \<Rightarrow> c
   | Some w \<Rightarrow> c\<lparr>wc_terminated := wc_terminated c @ [w], wc_worker := None\<rparr>)"

definition stopActive :: "ProcessingStopReason \<Rightarrow> ProcessingWorkerClient \<Rightarrow> ProcessingWorkerClient" where
  "stopActive reason c = (case wc_active c of
     None \<Rightarrow> c
   | Some a \<Rightarrow> settle (ar_promise a) (Stopped reason) (releaseWorker (c\<lparr>wc_active := None\<rparr>)))"

definition cancel :: "ProcessingWorkerClient \<Rightarrow> ProcessingWorkerClient" where
  "cancel = stopActive Cancelled"

definition supersede :: "ProcessingWorkerClient \<Rightarrow> ProcessingWorkerClient" where
  "supersede = stopActive Superseded"

definition destroy :: "ProcessingWorkerClient \<Rightarrow> ProcessingWorkerClient" where
  "destroy c = (let c = c\<lparr>wc_destroyed := True\<rparr>
     in if wc_active c \<noteq> None then stopActive Destroyed c else releaseWorker c)"

text \<open>The worker there is, or a new one from the factory; \<open>None\<close> when the factory throws.\<close>

definition ensureWorker :: "bool \<Rightarrow> ProcessingWorkerClient \<Rightarrow> (nat \<times> ProcessingWorkerClient) option" where
  "ensureWorker makes c = (case wc_worker c of
     Some w \<Rightarrow> Some (w, c)
   | None \<Rightarrow> if makes then Some (wc_made c, c\<lparr>wc_made := wc_made c + 1, wc_worker := Some (wc_made c)\<rparr>)
             else None)"

text \<open>
  A request with the identifier \<open>crypto.randomUUID\<close> gave. \<open>makes\<close> says whether the factory can
  make a worker, \<open>failure\<close> is the message of the error that posting to the worker throws, if it
  throws. The result is the number of the promise; \<open>None\<close> when the call itself throws.
\<close>

definition run :: "jstring \<Rightarrow> bool \<Rightarrow> jstring option \<Rightarrow> ProcessingWorkerClient \<Rightarrow> nat option \<times> ProcessingWorkerClient" where
  "run uuid makes failure c =
     (if wc_destroyed c
      then (let p = length (wc_calls c)
            in (Some p, settle p (Stopped Destroyed) (c\<lparr>wc_calls := wc_calls c @ [None]\<rparr>)))
      else (let c = (if wc_active c \<noteq> None then stopActive Superseded c else c)
            in case ensureWorker makes c of
                 None \<Rightarrow> (None, c)
               | Some (w, c) \<Rightarrow>
                   (let p = length (wc_calls c);
                        c = c\<lparr>wc_calls := wc_calls c @ [Some uuid], wc_active := Some \<lparr>ar_id = uuid, ar_promise = p\<rparr>\<rparr>
                    in case failure of
                         None \<Rightarrow> (Some p, c\<lparr>wc_posted := wc_posted c @ [(w, uuid)]\<rparr>)
                       | Some message \<Rightarrow> (Some p, settle p (Failed message) (releaseWorker (c\<lparr>wc_active := None\<rparr>))))))"

definition worker_error :: "nat \<Rightarrow> ProcessingWorkerClient \<Rightarrow> ProcessingWorkerClient" where
  "worker_error w c =
     (if wc_worker c \<noteq> Some w then c
      else (let c' = releaseWorker (c\<lparr>wc_active := None\<rparr>)
            in case wc_active c of
                 None \<Rightarrow> c'
               | Some a \<Rightarrow> settle (ar_promise a) (Failed (js ''Page processing could not start. Please reload.'')) c'))"

definition receive :: "nat \<Rightarrow> ProcessingResponse \<Rightarrow> ProcessingWorkerClient \<Rightarrow> ProcessingWorkerClient" where
  "receive w response c = (case wc_active c of
     None \<Rightarrow> c
   | Some a \<Rightarrow>
       if wc_worker c \<noteq> Some w then c
       else if pr_requestId response \<noteq> None \<and> pr_requestId response \<noteq> Some (ar_id a) then c
       else if has_text (pr_progress response)
         then c\<lparr>wc_progress := wc_progress c @ [(ar_promise a, the (pr_progress response))]\<rparr>
       else if pr_bytes response = None \<and> pr_result response = None \<and> pr_blob response = None \<and> pr_error response = None
         then c
       else (let c = c\<lparr>wc_active := None\<rparr>
             in if has_text (pr_error response)
                then settle (ar_promise a) (Failed (the (pr_error response))) (releaseWorker c)
                else settle (ar_promise a) (Resolved response) c))"

section \<open>The client as a state machine\<close>

datatype client_event =
    Run jstring bool "jstring option" | Cancel | Supersede | Destroy
  | WorkerMessage nat ProcessingResponse | WorkerError nat

fun client_step :: "client_event \<Rightarrow> ProcessingWorkerClient \<Rightarrow> ProcessingWorkerClient" where
  "client_step (Run uuid makes failure) c = snd (run uuid makes failure c)"
| "client_step Cancel c = cancel c"
| "client_step Supersede c = supersede c"
| "client_step Destroy c = destroy c"
| "client_step (WorkerMessage w response) c = receive w response c"
| "client_step (WorkerError w) c = worker_error w c"

text \<open>
  Every promise made is either settled, once, or the active one; every worker made is either
  terminated, once, or the current one; and a request always has a worker working on it.
\<close>

fun reply_fits :: "jstring option list \<Rightarrow> nat \<times> Settlement \<Rightarrow> bool" where
  "reply_fits calls (p, Resolved r) \<longleftrightarrow>
     p < length calls \<and> (pr_requestId r = None \<or> pr_requestId r = calls ! p)"
| "reply_fits calls (p, Stopped reason) \<longleftrightarrow> True"
| "reply_fits calls (p, Failed message) \<longleftrightarrow> True"

definition client_ok :: "ProcessingWorkerClient \<Rightarrow> bool" where
  "client_ok c \<longleftrightarrow>
     mset (map fst (wc_settled c) @ map ar_promise (case wc_active c of None \<Rightarrow> [] | Some a \<Rightarrow> [a])) =
       mset [0..<length (wc_calls c)] \<and>
     mset (wc_terminated c @ (case wc_worker c of None \<Rightarrow> [] | Some w \<Rightarrow> [w])) = mset [0..<wc_made c] \<and>
     (wc_active c \<noteq> None \<longrightarrow> wc_worker c \<noteq> None) \<and>
     (wc_destroyed c \<longrightarrow> wc_worker c = None \<and> wc_active c = None) \<and>
     (case wc_active c of None \<Rightarrow> True | Some a \<Rightarrow> wc_calls c ! ar_promise a = Some (ar_id a)) \<and>
     list_all (reply_fits (wc_calls c)) (wc_settled c)"

lemmas client_defs [step_simps] = client_ok_def settle_def releaseWorker_def

lemma promises_of_client:
  assumes "client_ok c"
  shows "set (map fst (wc_settled c) @ map ar_promise (case wc_active c of None \<Rightarrow> [] | Some a \<Rightarrow> [a])) =
    {0..<length (wc_calls c)}"
proof -
  have "mset (map fst (wc_settled c) @ map ar_promise (case wc_active c of None \<Rightarrow> [] | Some a \<Rightarrow> [a])) =
      mset [0..<length (wc_calls c)]" using assms by (simp only: client_ok_def)
  from mset_eq_setD [OF this] show ?thesis by (simp only: set_upt)
qed

lemma active_promise: "client_ok c \<Longrightarrow> wc_active c = Some a \<Longrightarrow> ar_promise a < length (wc_calls c)"
  using promises_of_client [of c] by auto

lemma settled_promise: "client_ok c \<Longrightarrow> (p, s) \<in> set (wc_settled c) \<Longrightarrow> p < length (wc_calls c)"
  using promises_of_client [of c] by force

lemma stopActive_ok: "client_ok c \<Longrightarrow> client_ok (stopActive reason c)"
  by (auto simp: stopActive_def client_defs split: option.splits)

lemma stopActive_idle: "wc_active (stopActive reason c) = None"
  by (simp add: stopActive_def settle_def releaseWorker_def split: option.split)

lemma stopActive_fields:
  "wc_destroyed (stopActive reason c) = wc_destroyed c" "wc_calls (stopActive reason c) = wc_calls c"
  by (simp_all add: stopActive_def settle_def releaseWorker_def split: option.split)

lemma destroy_ok: "client_ok c \<Longrightarrow> client_ok (destroy c)"
  by (auto simp: destroy_def stopActive_def Let_def client_defs split: option.splits)

lemma worker_error_ok: "client_ok c \<Longrightarrow> client_ok (worker_error w c)"
  by (auto simp: worker_error_def Let_def client_defs split: option.splits)

lemma receive_ok:
  assumes "client_ok c"
  shows "client_ok (receive w response c)"
proof (cases "wc_active c")
  case (Some a)
  show ?thesis using assms Some active_promise [OF assms Some]
    by (auto simp: receive_def Let_def client_defs split: option.splits)
qed (use assms in \<open>simp add: receive_def\<close>)

lemma reply_fits_more: "reply_fits calls e \<Longrightarrow> reply_fits (calls @ [x]) e"
  by (cases e; cases "snd e") (auto simp: nth_append)

lemma settled_more: "client_ok c \<Longrightarrow> list_all (reply_fits (wc_calls c @ [x])) (wc_settled c)"
  by (auto simp: client_ok_def list_all_iff reply_fits_more)

lemma mset_set_upt_Suc [simp]: "mset_set {0..<Suc n} = add_mset n (mset_set {0..<n})"
  by (simp add: atLeast0_lessThan_Suc)

lemma run_destroyed_ok:
  assumes "client_ok c" and "wc_destroyed c"
  shows "client_ok (snd (run uuid makes failure c))"
  using assms settled_more [OF assms(1), of None]
  by (cases "wc_worker c"; cases "wc_active c") (auto simp: run_def Let_def client_defs)

lemma ensureWorker_ok:
  assumes "client_ok c" and "\<not> wc_destroyed c" and "ensureWorker makes c = Some (w, c')"
  shows "client_ok c' \<and> wc_worker c' = Some w \<and> wc_active c' = wc_active c \<and> \<not> wc_destroyed c'"
  using assms by (auto simp: ensureWorker_def client_ok_def split: option.splits if_splits)

lemma run_ok: "client_ok c \<Longrightarrow> client_ok (snd (run uuid makes failure c))"
proof (cases "wc_destroyed c")
  case False
  assume ok: "client_ok c"
  define c1 where "c1 = (if wc_active c \<noteq> None then stopActive Superseded c else c)"
  have c1: "client_ok c1" "wc_active c1 = None" "\<not> wc_destroyed c1"
    using ok False stopActive_ok [OF ok] by (auto simp: c1_def stopActive_idle stopActive_fields)
  show ?thesis
  proof (cases "ensureWorker makes c1")
    case None
    then show ?thesis using c1 False unfolding run_def Let_def c1_def [symmetric] by simp
  next
    case (Some r)
    obtain w c2 where r: "r = (w, c2)" by fastforce
    have c2: "client_ok c2" "wc_worker c2 = Some w" "wc_active c2 = None" "\<not> wc_destroyed c2"
      using ensureWorker_ok [OF c1(1,3) Some [unfolded r]] c1(2) by simp_all
    show ?thesis
      using c2 settled_more [OF c2(1), of "Some uuid"] False Some r
      unfolding run_def Let_def c1_def [symmetric] by (cases failure) (simp_all add: client_defs)
  qed
qed (rule run_destroyed_ok)

interpretation worker_client: machine client_step client_ok
proof
  show "client_ok (client_step e c)" if "client_ok c" for c e
    using that by (cases e) (simp_all add: run_ok cancel_def supersede_def stopActive_ok destroy_ok receive_ok worker_error_ok)
qed

lemma new_client_ok: "client_ok new_client"
  by (simp add: client_ok_def new_client_def)

lemma client_run_ok: "client_ok (fold client_step es new_client)"
  by (rule worker_client.run_inv [OF new_client_ok])

lemma destroyed_step: "wc_destroyed c \<Longrightarrow> wc_destroyed (client_step e c)"
  by (cases e)
     (auto simp: run_def cancel_def supersede_def stopActive_fields destroy_def receive_def worker_error_def
        settle_def releaseWorker_def Let_def split: option.splits)

lemma destroyed_stays: "wc_destroyed c \<Longrightarrow> wc_destroyed (fold client_step es c)"
  by (induction es arbitrary: c) (simp_all add: destroyed_step)

section \<open>Properties\<close>

text \<open>C1: No promise is lost and none is settled twice. After any calls, replies, stale replies and
  worker errors, each promise \<open>run\<close> returned is either settled, exactly once, or it is the one
  request the worker is on; so at most one is pending.\<close>

theorem each_promise_settled_once:
  "let c = fold client_step es new_client
   in distinct (map fst (wc_settled c)) \<and>
      set (map fst (wc_settled c)) =
        {p. p < length (wc_calls c) \<and> (case wc_active c of None \<Rightarrow> True | Some a \<Rightarrow> p \<noteq> ar_promise a)}"
proof -
  define c where "c = fold client_step es new_client"
  have ok: "client_ok c" unfolding c_def by (rule client_run_ok)
  have "mset (map fst (wc_settled c) @ map ar_promise (case wc_active c of None \<Rightarrow> [] | Some a \<Rightarrow> [a])) =
      mset [0..<length (wc_calls c)]" using ok by (simp only: client_ok_def)
  then have "distinct (map fst (wc_settled c) @ map ar_promise (case wc_active c of None \<Rightarrow> [] | Some a \<Rightarrow> [a]))"
    by (metis distinct_upt mset_eq_imp_distinct_iff)
  with promises_of_client [OF ok] have "distinct (map fst (wc_settled c)) \<and>
      set (map fst (wc_settled c)) =
        {p. p < length (wc_calls c) \<and> (case wc_active c of None \<Rightarrow> True | Some a \<Rightarrow> p \<noteq> ar_promise a)}"
    by (cases "wc_active c") (auto simp: set_eq_iff)
  then show ?thesis by (simp only: c_def Let_def)
qed

text \<open>C3: Workers do not leak. At any time at most one worker is running, all others that were made
  have been terminated, each once; a request is only pending on a running worker, and after
  \<open>destroy\<close> there is neither a worker nor a request, whatever happens afterwards.\<close>

theorem one_live_worker:
  "let c = fold client_step es new_client
   in distinct (wc_terminated c) \<and>
      set (wc_terminated c) = {w. w < wc_made c \<and> wc_worker c \<noteq> Some w} \<and>
      (case wc_worker c of None \<Rightarrow> wc_active c = None | Some w \<Rightarrow> True) \<and>
      (let d = fold client_step es' (destroy c) in wc_worker d = None \<and> wc_active d = None)"
proof -
  define c where "c = fold client_step es new_client"
  have ok: "client_ok c" unfolding c_def by (rule client_run_ok)
  have eq: "mset (wc_terminated c @ (case wc_worker c of None \<Rightarrow> [] | Some w \<Rightarrow> [w])) = mset [0..<wc_made c]"
    using ok by (simp only: client_ok_def)
  then have d: "distinct (wc_terminated c @ (case wc_worker c of None \<Rightarrow> [] | Some w \<Rightarrow> [w]))"
    by (metis distinct_upt mset_eq_imp_distinct_iff)
  have "set (wc_terminated c) = {w. w < wc_made c \<and> wc_worker c \<noteq> Some w}"
    using mset_eq_setD [OF eq] d by (cases "wc_worker c") (auto simp: set_eq_iff, metis)
  moreover have "client_ok (fold client_step es' (destroy c))"
    by (rule worker_client.run_inv) (rule destroy_ok [OF ok])
  moreover have "wc_destroyed (destroy c)"
    by (simp add: destroy_def Let_def stopActive_fields releaseWorker_def split: option.split)
  then have "wc_destroyed (fold client_step es' (destroy c))" by (rule destroyed_stays)
  moreover have "case wc_worker c of None \<Rightarrow> wc_active c = None | Some w \<Rightarrow> True"
    using ok by (auto simp: client_ok_def split: option.split)
  ultimately show ?thesis using d by (auto simp: client_ok_def Let_def simp flip: c_def)
qed


definition reply :: "string \<Rightarrow> ProcessingResponse" where
  "reply uuid = \<lparr>pr_requestId = Some (js uuid), pr_progress = None, pr_bytes = Some [1], pr_result = None,
     pr_blob = None, pr_width = None, pr_height = None, pr_error = None\<rparr>"


definition ends_request :: "ProcessingWorkerClient \<Rightarrow> client_event \<Rightarrow> bool" where
  "ends_request c e = (case e of
     WorkerMessage w r \<Rightarrow> wc_worker c = Some w \<and>
       (pr_requestId r = None \<or> pr_requestId r = map_option ar_id (wc_active c)) \<and> \<not> has_text (pr_progress r) \<and>
       (pr_bytes r \<noteq> None \<or> pr_result r \<noteq> None \<or> pr_blob r \<noteq> None \<or> pr_error r \<noteq> None)
   | WorkerError w \<Rightarrow> wc_worker c = Some w
   | _ \<Rightarrow> True)"

text \<open>A pending request is always answered. Whatever ends it - a cancel, a newer request, leaving
  the page, the worker breaking, or the worker's own final reply - settles its promise in that
  very step.\<close>

theorem pending_request_settles:
  assumes "c = fold client_step es new_client" and "wc_active c = Some a" and "ends_request c e"
  shows "\<exists>outcome rest. wc_settled (client_step e c) = wc_settled c @ (ar_promise a, outcome) # rest"
proof (cases e)
  have ok: "client_ok c" unfolding assms(1) by (rule client_run_ok)
  then have w: "\<not> wc_destroyed c" using assms(2) by (auto simp: client_ok_def)
  have stop: "wc_settled (stopActive reason c) = wc_settled c @ [(ar_promise a, Stopped reason)]" for reason
    using assms(2) by (simp add: stopActive_def settle_def releaseWorker_def split: option.split)
  {
    case (Run uuid makes failure)
    then show ?thesis using w assms(2)
      by (auto simp: run_def Let_def ensureWorker_def settle_def releaseWorker_def stop stopActive_fields split: option.split)
  next
    case Cancel
    then show ?thesis by (simp add: cancel_def stop)
  next
    case Supersede
    then show ?thesis by (simp add: supersede_def stop)
  next
    case Destroy
    then show ?thesis using assms(2)
      by (auto simp: destroy_def Let_def stopActive_def settle_def releaseWorker_def split: option.split)
  next
    case (WorkerMessage w r)
    then show ?thesis using assms(2,3)
      by (auto simp: ends_request_def receive_def Let_def settle_def releaseWorker_def split: option.split)
  next
    case (WorkerError w)
    then show ?thesis using assms(2,3)
      by (auto simp: ends_request_def worker_error_def Let_def settle_def releaseWorker_def split: option.split)
  }
qed

theorem pending_request_settles_witness:
  "let c = fold client_step [Run (js ''a'') True None] new_client
   in wc_active c = Some \<lparr>ar_id = js ''a'', ar_promise = 0\<rparr> \<and>
      (\<exists>outcome rest. wc_settled (client_step (WorkerError 0) c) = wc_settled c @ (0, outcome) # rest)"
proof -
  define es where "es = [Run (js ''a'') True None]"
  have a: "wc_active (fold client_step es new_client) = Some \<lparr>ar_id = js ''a'', ar_promise = 0\<rparr>"
    and e: "ends_request (fold client_step es new_client) (WorkerError 0)"
    unfolding es_def by code_simp+
  from pending_request_settles [OF refl a e] a show ?thesis unfolding es_def [symmetric] Let_def by simp
qed

end
