(* ===== verification/WakeLock.thy ===== *)
theory WakeLock
  imports JsText Machines
begin

text \<open>
  Keeping the screen awake while reading
  (\<open>web/src/app/features/reader/screen-wake-lock.ts\<close>). The browser grants a wake lock some time
  after it is asked, may refuse, and may take it back; the page may be hidden or left in between.
  Locks are numbered as they are granted.
\<close>

section \<open>Finding the provider\<close>

text \<open>A value of the page's script; a property whose reading throws is \<open>None\<close>.\<close>

datatype js_value = Undefined | Null | Primitive | Callable | Object "(jstring \<times> js_value option) list"

text \<open>Reading a property: the value, \<open>None\<close> when it throws.\<close>

definition property :: "jstring \<Rightarrow> (jstring \<times> js_value option) list \<Rightarrow> js_value option" where
  "property name props = (case map_of props name of None \<Rightarrow> Some Undefined | Some v \<Rightarrow> v)"

definition wakeLockProvider :: "js_value \<Rightarrow> (jstring \<times> js_value option) list option" where
  "wakeLockProvider v = (case v of
     Object props \<Rightarrow> (case property (js ''wakeLock'') props of
         Some (Object wakeLock) \<Rightarrow>
           if property (js ''request'') wakeLock = Some Callable then Some wakeLock else None
       | _ \<Rightarrow> None)
   | _ \<Rightarrow> None)"

section \<open>State\<close>

record ScreenWakeLock =
  wl_provider :: bool
  wl_active :: bool
  wl_generation :: nat
  wl_pendingGeneration :: "nat option"
  wl_sentinel :: "nat option"
  wl_sentinelReleaseListener :: "nat option"  \<comment> \<open>the lock the listener is for\<close>
  \<comment> \<open>the page and the browser\<close>
  wl_visible :: bool
  wl_listening :: bool  \<comment> \<open>the handlers on the document\<close>
  wl_requests :: "nat list"  \<comment> \<open>the generations of the requests not yet answered\<close>
  wl_granted :: "nat list"
  wl_released :: "nat list"  \<comment> \<open>by this class\<close>
  wl_lost :: "nat list"  \<comment> \<open>taken back by the browser\<close>
  wl_listeners :: "nat list"  \<comment> \<open>locks with a release listener\<close>

definition new_wake_lock :: "js_value \<Rightarrow> bool \<Rightarrow> ScreenWakeLock" where
  "new_wake_lock navigator visible =
     \<lparr>wl_provider = wakeLockProvider navigator \<noteq> None, wl_active = False, wl_generation = 0,
      wl_pendingGeneration = None, wl_sentinel = None, wl_sentinelReleaseListener = None,
      wl_visible = visible, wl_listening = False, wl_requests = [], wl_granted = [], wl_released = [],
      wl_lost = [], wl_listeners = []\<rparr>"

section \<open>Operations\<close>

definition releaseSilently :: "nat \<Rightarrow> ScreenWakeLock \<Rightarrow> ScreenWakeLock" where
  "releaseSilently s w = w\<lparr>wl_released := wl_released w @ [s]\<rparr>"

text \<open>\<open>broken\<close>: the sentinel's own method throws.\<close>

definition removeSentinelListener :: "bool \<Rightarrow> nat \<Rightarrow> ScreenWakeLock \<Rightarrow> ScreenWakeLock" where
  "removeSentinelListener broken s w =
     (if broken then w else w\<lparr>wl_listeners := filter (\<lambda>l. l \<noteq> s) (wl_listeners w)\<rparr>)"

definition invalidatePendingRequest :: "ScreenWakeLock \<Rightarrow> ScreenWakeLock" where
  "invalidatePendingRequest w = w\<lparr>wl_generation := wl_generation w + 1, wl_pendingGeneration := None\<rparr>"

definition releaseHeldLock :: "bool \<Rightarrow> ScreenWakeLock \<Rightarrow> ScreenWakeLock" where
  "releaseHeldLock broken w =
     (let w' = w\<lparr>wl_sentinel := None, wl_sentinelReleaseListener := None\<rparr>
      in case wl_sentinel w of
           None \<Rightarrow> w'
         | Some s \<Rightarrow> releaseSilently s
             (if wl_sentinelReleaseListener w \<noteq> None then removeSentinelListener broken s w' else w'))"

text \<open>\<open>throws\<close>: asking the provider throws at once.\<close>

definition acquire :: "bool \<Rightarrow> ScreenWakeLock \<Rightarrow> ScreenWakeLock" where
  "acquire throws w =
     (if \<not> wl_active w \<or> \<not> wl_visible w \<or> \<not> wl_provider w \<or> wl_sentinel w \<noteq> None \<or> wl_pendingGeneration w \<noteq> None
      then w
      else (let generation = wl_generation w + 1;
                w = w\<lparr>wl_generation := generation, wl_pendingGeneration := Some generation\<rparr>
            in if throws then w\<lparr>wl_pendingGeneration := None\<rparr>
               else w\<lparr>wl_requests := wl_requests w @ [generation]\<rparr>))"

definition start :: "bool \<Rightarrow> ScreenWakeLock \<Rightarrow> ScreenWakeLock" where
  "start throws w =
     (if wl_active w then w else acquire throws (w\<lparr>wl_active := True, wl_listening := True\<rparr>))"

definition stop :: "bool \<Rightarrow> ScreenWakeLock \<Rightarrow> ScreenWakeLock" where
  "stop broken w =
     (if \<not> wl_active w then w
      else releaseHeldLock broken (invalidatePendingRequest (w\<lparr>wl_active := False, wl_listening := False\<rparr>)))"

definition onVisibilityChange :: "bool \<Rightarrow> bool \<Rightarrow> ScreenWakeLock \<Rightarrow> ScreenWakeLock" where
  "onVisibilityChange throws broken w =
     (if wl_visible w then acquire throws w else releaseHeldLock broken (invalidatePendingRequest w))"

definition acceptSentinel :: "bool \<Rightarrow> nat \<Rightarrow> nat \<Rightarrow> ScreenWakeLock \<Rightarrow> ScreenWakeLock" where
  "acceptSentinel broken generation s w =
     (let w = (if wl_pendingGeneration w = Some generation then w\<lparr>wl_pendingGeneration := None\<rparr> else w)
      in if generation \<noteq> wl_generation w \<or> \<not> wl_active w \<or> \<not> wl_visible w \<or> wl_sentinel w \<noteq> None
         then releaseSilently s w
         else if broken then releaseSilently s w
         else w\<lparr>wl_listeners := wl_listeners w @ [s], wl_sentinel := Some s, wl_sentinelReleaseListener := Some s\<rparr>)"

definition request_refused :: "nat \<Rightarrow> ScreenWakeLock \<Rightarrow> ScreenWakeLock" where
  "request_refused generation w =
     (if wl_pendingGeneration w = Some generation then w\<lparr>wl_pendingGeneration := None\<rparr> else w)"

definition releaseListener :: "bool \<Rightarrow> nat \<Rightarrow> ScreenWakeLock \<Rightarrow> ScreenWakeLock" where
  "releaseListener broken s w =
     (if wl_sentinel w \<noteq> Some s then w
      else (removeSentinelListener broken s w)\<lparr>wl_sentinel := None, wl_sentinelReleaseListener := None\<rparr>)"

section \<open>What happens to the page\<close>

text \<open>
  The events: the reader starts and stops, the page is shown or hidden, the reader is touched, a
  request is granted or refused, and the browser takes a lock back. Only an open request can be
  answered and only a granted lock can be lost.
\<close>

datatype wake_event =
    Start bool | Stop bool | Visibility bool bool bool | Activity bool
  | Granted bool nat | Refused nat | Lost bool nat

definition wake_enabled :: "ScreenWakeLock \<Rightarrow> wake_event \<Rightarrow> bool" where
  "wake_enabled w e = (case e of
     Granted broken generation \<Rightarrow> generation \<in> set (wl_requests w)
   | Refused generation \<Rightarrow> generation \<in> set (wl_requests w)
   | Lost broken s \<Rightarrow> s \<in> set (wl_granted w) \<and> s \<notin> set (wl_released w) \<and> s \<notin> set (wl_lost w)
   | _ \<Rightarrow> True)"

fun wake_step :: "wake_event \<Rightarrow> ScreenWakeLock \<Rightarrow> ScreenWakeLock" where
  "wake_step (Start throws) w = start throws w"
| "wake_step (Stop broken) w = stop broken w"
| "wake_step (Visibility visible throws broken) w =
     (let w = w\<lparr>wl_visible := visible\<rparr> in if wl_listening w then onVisibilityChange throws broken w else w)"
| "wake_step (Activity throws) w = (if wl_listening w then acquire throws w else w)"
| "wake_step (Granted broken generation) w =
     (let s = length (wl_granted w)
      in acceptSentinel broken generation s
           (w\<lparr>wl_requests := remove1 generation (wl_requests w), wl_granted := wl_granted w @ [s]\<rparr>))"
| "wake_step (Refused generation) w =
     request_refused generation (w\<lparr>wl_requests := remove1 generation (wl_requests w)\<rparr>)"
| "wake_step (Lost broken s) w =
     (let w = w\<lparr>wl_lost := wl_lost w @ [s]\<rparr>
      in if s \<in> set (wl_listeners w) then releaseListener broken s w else w)"

section \<open>The invariant\<close>

definition held_locks :: "ScreenWakeLock \<Rightarrow> nat list" where
  "held_locks w = (case wl_sentinel w of None \<Rightarrow> [] | Some s \<Rightarrow> [s])"

definition wake_ok :: "ScreenWakeLock \<Rightarrow> bool" where
  "wake_ok w \<longleftrightarrow>
     wl_listening w = wl_active w \<and>
     (wl_sentinel w \<noteq> None \<longrightarrow> wl_active w \<and> wl_visible w \<and> wl_pendingGeneration w = None \<and>
       the (wl_sentinel w) \<in> set (wl_listeners w)) \<and>
     (wl_pendingGeneration w \<noteq> None \<longrightarrow> wl_active w \<and> wl_visible w \<and>
       wl_pendingGeneration w = Some (wl_generation w) \<and> wl_generation w \<in> set (wl_requests w)) \<and>
     (wl_pendingGeneration w = None \<longrightarrow> wl_generation w \<notin> set (wl_requests w)) \<and>
     distinct (wl_requests w) \<and> list_all (\<lambda>g. g \<le> wl_generation w) (wl_requests w) \<and>
     mset (wl_granted w) = mset (wl_released w) + mset (wl_lost w) + mset (held_locks w) \<and>
     wl_granted w = [0..<length (wl_granted w)]"

lemmas wake_defs [step_simps] =
  wake_ok_def acquire_def releaseHeldLock_def invalidatePendingRequest_def releaseSilently_def
  removeSentinelListener_def held_locks_def Let_def

lemma acquire_ok: "wake_ok w \<Longrightarrow> wake_ok (acquire throws w)"
  by (fastforce simp: wake_ok_def acquire_def held_locks_def Let_def list_all_iff)

lemma dropped_ok:
  assumes "wake_ok w"
  shows "wake_ok (releaseHeldLock broken (invalidatePendingRequest (w\<lparr>wl_active := a, wl_listening := a, wl_visible := v\<rparr>)))"
proof -
  have "Suc (wl_generation w) \<notin> set (wl_requests w)" using assms by (auto simp: wake_ok_def list_all_iff)
  moreover have "list_all (\<lambda>g. g \<le> Suc (wl_generation w)) (wl_requests w)"
    using assms by (auto simp: wake_ok_def list_all_iff)
  ultimately show ?thesis using assms by (cases "wl_sentinel w") (simp_all add: wake_defs)
qed

lemma stop_ok: "wake_ok w \<Longrightarrow> wake_ok (stop broken w)"
proof -
  assume ok: "wake_ok w"
  have "w\<lparr>wl_active := False, wl_listening := False\<rparr> =
      w\<lparr>wl_active := False, wl_listening := False, wl_visible := wl_visible w\<rparr>" by simp
  then show ?thesis using ok dropped_ok [OF ok] unfolding stop_def by metis
qed

lemma start_ok: "wake_ok w \<Longrightarrow> wake_ok (start throws w)"
proof (cases "wl_active w")
  case False
  assume ok: "wake_ok w"
  have "wake_ok (w\<lparr>wl_active := True, wl_listening := True\<rparr>)"
    using ok False by (auto simp: wake_ok_def held_locks_def)
  then show ?thesis using False by (simp add: start_def acquire_ok)
qed (simp add: start_def)

lemma visibility_ok: "wake_ok w \<Longrightarrow> wake_ok (wake_step (Visibility visible throws broken) w)"
proof -
  assume ok: "wake_ok w"
  show ?thesis
  proof (cases "wl_listening w")
    case True
    then have a: "wl_active w" using ok by (simp add: wake_ok_def)
    show ?thesis
    proof (cases visible)
      case True
      have "wake_ok (w\<lparr>wl_visible := True\<rparr>)" using ok by (auto simp: wake_ok_def held_locks_def)
      then show ?thesis using True by (simp add: onVisibilityChange_def acquire_ok Let_def)
    next
      case False
      have "w\<lparr>wl_active := True, wl_listening := True, wl_visible := False\<rparr> = w\<lparr>wl_visible := False\<rparr>"
        using a \<open>wl_listening w\<close> by simp
      then show ?thesis using dropped_ok [OF ok, where a = True and v = False and broken = broken] False \<open>wl_listening w\<close>
        by (simp add: onVisibilityChange_def Let_def)
    qed
  next
    case False
    then show ?thesis using ok by (auto simp: wake_ok_def held_locks_def)
  qed
qed

lemma granted_ok:
  assumes "wake_ok w" and "generation \<in> set (wl_requests w)"
  shows "wake_ok (wake_step (Granted broken generation) w)"
proof -
  have "set (remove1 generation (wl_requests w)) = set (wl_requests w) - {generation}"
    using assms(1) by (simp add: wake_ok_def set_remove1_eq)
  then show ?thesis using assms
    by (cases "wl_sentinel w"; cases "wl_pendingGeneration w")
       (auto simp: wake_ok_def acceptSentinel_def releaseSilently_def held_locks_def Let_def list_all_iff)
qed

lemma refused_ok:
  assumes "wake_ok w" and "generation \<in> set (wl_requests w)"
  shows "wake_ok (wake_step (Refused generation) w)"
proof -
  have "set (remove1 generation (wl_requests w)) = set (wl_requests w) - {generation}"
    using assms(1) by (simp add: wake_ok_def set_remove1_eq)
  then show ?thesis using assms
    by (cases "wl_pendingGeneration w")
       (auto simp: wake_ok_def request_refused_def held_locks_def Let_def list_all_iff)
qed

lemma lost_held:
  assumes "wake_ok w" and "wake_enabled w (Lost broken s)"
  shows "wl_sentinel w = Some s"
proof -
  have "mset (wl_granted w) = mset (wl_released w) + mset (wl_lost w) + mset (held_locks w)"
    using assms(1) by (simp only: wake_ok_def)
  then have "set_mset (mset (wl_granted w)) = set_mset (mset (wl_released w) + mset (wl_lost w) + mset (held_locks w))"
    by simp
  then have "s \<in> set (held_locks w)" using assms(2) by (auto simp: wake_enabled_def)
  then show ?thesis by (simp add: held_locks_def split: option.splits)
qed

lemma lost_ok:
  assumes "wake_ok w" and "wake_enabled w (Lost broken s)"
  shows "wake_ok (wake_step (Lost broken s) w)"
  using assms(1) lost_held [OF assms]
  by (auto simp: wake_ok_def releaseListener_def removeSentinelListener_def held_locks_def Let_def)

interpretation wake_lock: guarded_machine wake_enabled wake_step wake_ok
proof
  show "wake_ok (wake_step e w)" if "wake_ok w" "wake_enabled w e" for w e
    using that
  proof (cases e)
    case (Visibility visible throws broken)
    then show ?thesis using that visibility_ok by metis
  next
    case (Granted broken generation)
    then show ?thesis using that granted_ok [of w generation] by (simp add: wake_enabled_def)
  next
    case (Refused generation)
    then show ?thesis using that refused_ok [of w generation] by (simp add: wake_enabled_def)
  next
    case (Lost broken s)
    then show ?thesis using that lost_ok by metis
  qed (simp_all add: start_ok stop_ok acquire_ok)
qed

lemma new_wake_lock_ok: "wake_ok (new_wake_lock navigator visible)"
  by (simp add: wake_ok_def new_wake_lock_def held_locks_def)

section \<open>Properties\<close>

text \<open>C15: Wake locks never leak. However grants, refusals, hiding, leaving and locks taken back
  interleave, every lock the browser granted has been released or lost, except at most one that
  is held; each is given back once; and a lock is held only while the reader is active and its
  page visible.\<close>

theorem wake_locks_never_leak:
  assumes "enabled_run wake_enabled wake_step (new_wake_lock navigator visible) es"
    and "w = fold wake_step es (new_wake_lock navigator visible)"
  shows "distinct (wl_released w @ wl_lost w) \<and>
    set (wl_released w @ wl_lost w) = {s. s < length (wl_granted w) \<and> wl_sentinel w \<noteq> Some s} \<and>
    (wl_sentinel w = None \<or> wl_active w \<and> wl_visible w \<and> the (wl_sentinel w) < length (wl_granted w))"
proof -
  have ok: "wake_ok w" unfolding assms(2) by (rule wake_lock.run_inv [OF new_wake_lock_ok assms(1)])
  then have granted: "wl_granted w = [0..<length (wl_granted w)]"
    and "mset (wl_granted w) = mset (wl_released w) + mset (wl_lost w) + mset (held_locks w)"
    by (simp_all only: wake_ok_def)
  then have m: "mset (wl_released w @ wl_lost w @ held_locks w) = mset [0..<length (wl_granted w)]"
    by (metis mset_append add.assoc)
  then have "distinct (wl_released w @ wl_lost w @ held_locks w)" by (metis distinct_upt mset_eq_imp_distinct_iff)
  with mset_eq_setD [OF m] ok show ?thesis
    by (cases "wl_sentinel w") (auto simp: held_locks_def set_eq_iff wake_ok_def, metis+)
qed

theorem wake_locks_never_leak_witness:
  "let w = fold wake_step [Start False, Visibility False False False, Visibility True False False, Granted False 1,
       Granted False 3] (new_wake_lock (Object [(js ''wakeLock'', Some (Object [(js ''request'', Some Callable)]))]) True)
   in wl_sentinel w = Some 1 \<and> wl_released w = [0] \<and> distinct (wl_released w @ wl_lost w)"
proof -
  let ?nav = "Object [(js ''wakeLock'', Some (Object [(js ''request'', Some Callable)]))]"
  define es where "es = [Start False, Visibility False False False, Visibility True False False, Granted False 1,
       Granted False 3]"
  have run: "enabled_run wake_enabled wake_step (new_wake_lock ?nav True) es"
    and w: "wl_sentinel (fold wake_step es (new_wake_lock ?nav True)) = Some 1"
      "wl_released (fold wake_step es (new_wake_lock ?nav True)) = [0]"
    unfolding es_def by code_simp+
  from wake_locks_never_leak [OF run refl] w show ?thesis unfolding es_def [symmetric] Let_def by simp
qed

end
