(* ===== verification/ReaderView.thy ===== *)
theory ReaderView
  imports Models JsNumber JsMap WakeLock
begin

text \<open>
  The reader page (\<open>web/src/app/features/reader/reader.component.ts\<close>): its state, and how it
  draws. One page is drawn at a time in page mode; in scroll mode the pages near the window are
  drawn, each by its own request. Canvases are numbered; drawing itself and the layout of the
  page are the browser's and enter as arguments.
\<close>

section \<open>State\<close>

text \<open>A request is an object that the maps and the running drawing share; \<open>sr_id\<close> is its identity.\<close>

record ScrollRenderRequest =
  sr_id :: nat
  sr_width :: int
  sr_canvas :: nat
  sr_generation :: nat
  sr_settled :: bool

record ReaderPointerMove =
  rp_clientX :: real
  rp_clientY :: real
  rp_pointerType :: jstring

record ReaderComponent =
  r_piece :: "Piece option"
  r_pages :: nat  \<comment> \<open>\<open>metrics().length\<close>\<close>
  r_loading :: bool
  r_error :: jstring
  r_mode :: ReaderMode
  r_currentPage :: int
  r_zoom :: real
  r_speed :: real
  r_paused :: bool
  r_controlsVisible :: bool
  r_controlsBubbleVisible :: bool
  r_renderFrame :: bool  \<comment> \<open>a frame is requested\<close>
  r_scrollFrame :: bool
  r_autoScrollFrame :: bool
  r_autoScrollTimestamp :: real
  r_autoScrollRemainder :: real
  r_hideTimer :: bool
  r_saveTimer :: bool
  r_saveCheckpointTimer :: bool
  r_pointerStart :: "(real \<times> real) option"
  r_pointerMovementBaseline :: "ReaderPointerMove option"
  r_swiped :: bool
  r_renderedPage :: "(int \<times> int) option"
  r_renderedWidths :: "(nat, int) js_map"
  r_pageRenderInFlight :: bool
  r_pageRenderPending :: bool
  r_renderGeneration :: nat
  r_scrollRenderRequests :: "(nat, ScrollRenderRequest) js_map"
  r_destroyed :: bool
  r_saveBlocked :: bool
  r_saveInFlight :: bool
  r_pendingState :: "ReaderState option"
  r_loadedPDFChecksum :: jstring
  r_pieceId :: jstring
  r_wakeLock :: ScreenWakeLock
  \<comment> \<open>the page and the server\<close>
  r_canvas :: nat  \<comment> \<open>the first canvas\<close>
  r_clientWidth :: real  \<comment> \<open>of the stage\<close>
  r_clientHeight :: real
  r_scrollHeight :: real
  r_scrollTop :: real
  r_pageJob :: "(int \<times> int \<times> nat \<times> nat) option"  \<comment> \<open>page, key, generation and canvas being drawn\<close>
  r_scrollJobs :: "(nat \<times> ScrollRenderRequest) list"  \<comment> \<open>index and request of the drawings under way\<close>
  r_nextRequest :: nat
  r_layouts :: nat  \<comment> \<open>steps waiting for the next layout (\<open>setTimeout\<close>)\<close>
  r_wanted :: "ReaderState list"  \<comment> \<open>the positions taken for saving, without those given up\<close>
  r_sent :: "ReaderState list"
  r_saving :: "ReaderState option"  \<comment> \<open>the position of the request under way\<close>

definition chromeVisible :: "ReaderComponent \<Rightarrow> bool" where
  "chromeVisible r \<longleftrightarrow> r_loading r \<or> r_error r \<noteq> [] \<or> r_controlsVisible r"

section \<open>Scheduling and sizes\<close>

definition scrollPageWidth :: "ReaderComponent \<Rightarrow> int" where
  "scrollPageWidth r = (let available = max 280 (r_clientWidth r - 32) in js_round (available * r_zoom r))"

definition scheduleRender :: "ReaderComponent \<Rightarrow> ReaderComponent" where
  "scheduleRender r = (if r_renderFrame r \<or> r_loading r then r else r\<lparr>r_renderFrame := True\<rparr>)"

text \<open>The width and height a page is drawn into, and the number that stands for its size.\<close>

definition page_width :: "ReaderComponent \<Rightarrow> real" where
  "page_width r = max 240 ((r_clientWidth r - 24) * r_zoom r)"

definition page_height :: "ReaderComponent \<Rightarrow> real" where
  "page_height r = max 240 ((r_clientHeight r - 24) * r_zoom r)"

definition page_key :: "ReaderComponent \<Rightarrow> int" where
  "page_key r = js_round (min (page_width r) (page_height r))"

definition clearVisiblePage :: "ReaderComponent \<Rightarrow> ReaderComponent" where
  "clearVisiblePage r = r\<lparr>r_renderedPage := None\<rparr>"

text \<open>What resizing, zooming, a new mode and a new score all start with.\<close>

definition forget_drawings :: "ReaderComponent \<Rightarrow> ReaderComponent" where
  "forget_drawings r = r\<lparr>r_renderGeneration := r_renderGeneration r + 1, r_scrollRenderRequests := [],
     r_renderedPage := None, r_renderedWidths := []\<rparr>"

section \<open>Drawing one page\<close>

definition render_page :: "ReaderComponent \<Rightarrow> ReaderComponent" where
  "render_page r =
     (if r_pageRenderInFlight r then r\<lparr>r_pageRenderPending := True\<rparr>
      else (let key = page_key r; pageNumber = r_currentPage r
            in if r_renderedPage r = Some (pageNumber, key) then r
               else (clearVisiblePage (r\<lparr>r_pageRenderInFlight := True, r_pageRenderPending := False\<rparr>))
                 \<lparr>r_pageJob := Some (pageNumber, key, r_renderGeneration r, r_canvas r)\<rparr>))"

text \<open>The drawing ends: \<open>drawn\<close> says whether the PDF page could be drawn and put on the canvas.\<close>

definition page_rendered :: "bool \<Rightarrow> ReaderComponent \<Rightarrow> ReaderComponent" where
  "page_rendered drawn r = (case r_pageJob r of
     None \<Rightarrow> r
   | Some (pageNumber, key, generation, canvas) \<Rightarrow>
       (let r1 = (if drawn \<and> r_renderGeneration r = generation \<and> r_mode r = PageMode \<and>
                   r_currentPage r = pageNumber \<and> page_key r = key \<and> r_canvas r = canvas
                 then r\<lparr>r_renderedPage := Some (pageNumber, key)\<rparr> else r);
            r2 = r1\<lparr>r_pageJob := None, r_pageRenderInFlight := False\<rparr>;
            requestChanged = (r_renderGeneration r2 \<noteq> generation \<or> r_mode r2 \<noteq> PageMode \<or>
              r_currentPage r2 \<noteq> pageNumber \<or> page_key r2 \<noteq> key)
        in if r_pageRenderPending r2 \<or> requestChanged
           then scheduleRender (r2\<lparr>r_pageRenderPending := False\<rparr>) else r2))"

section \<open>Drawing the pages near the window\<close>

text \<open>A page as laid out now: its edges, its width, and its canvas with whether it holds a drawing.\<close>

record ScrollPage =
  pg_top :: real
  pg_bottom :: real
  pg_clientWidth :: real
  pg_canvas :: "nat option"

text \<open>The stage's edges and height in the window.\<close>

record StageRect =
  sg_top :: real
  sg_bottom :: real
  sg_height :: real

definition near_window :: "real \<Rightarrow> StageRect \<Rightarrow> ScrollPage \<Rightarrow> bool" where
  "near_window n stage page \<longleftrightarrow>
     pg_bottom page \<ge> sg_top stage - sg_height stage * n \<and> pg_top page \<le> sg_bottom stage + sg_height stage * n"

definition render_scroll_page :: "StageRect \<Rightarrow> nat \<Rightarrow> ScrollPage \<Rightarrow> ReaderComponent \<Rightarrow> ReaderComponent" where
  "render_scroll_page stage index page r = (case pg_canvas page of
     None \<Rightarrow> r
   | Some canvas \<Rightarrow>
       (let pageNumber = index + 1
        in if \<not> near_window 1 stage page
           then (if \<not> near_window 2 stage page
                 then r\<lparr>r_renderedWidths := jm_delete (r_renderedWidths r) pageNumber,
                   r_scrollRenderRequests := jm_delete (r_scrollRenderRequests r) pageNumber\<rparr>
                 else r)
           else (let width = js_round (pg_clientWidth page)
             in if jm_get (r_renderedWidths r) pageNumber = Some width then r
                else (let generation = r_renderGeneration r;
                          same = (case jm_get (r_scrollRenderRequests r) pageNumber of
                              None \<Rightarrow> False
                            | Some active \<Rightarrow> \<not> sr_settled active \<and> sr_width active = width \<and>
                                sr_canvas active = canvas \<and> sr_generation active = generation)
                  in if same then r
                     else (let request = \<lparr>sr_id = r_nextRequest r, sr_width = width, sr_canvas = canvas,
                               sr_generation = generation, sr_settled = False\<rparr>
                       in r\<lparr>r_nextRequest := r_nextRequest r + 1,
                            r_scrollRenderRequests := jm_set (r_scrollRenderRequests r) pageNumber request,
                            r_scrollJobs := r_scrollJobs r @ [(index, request)]\<rparr>)))))"

definition render_scroll :: "StageRect \<Rightarrow> ScrollPage list \<Rightarrow> ReaderComponent \<Rightarrow> ReaderComponent" where
  "render_scroll stage pages r =
     fold (\<lambda>(index, page). render_scroll_page stage index page) (enumerate 0 pages) r"

text \<open>The request object is settled: the map holds the same object, if it still holds it.\<close>

definition settle_request :: "ScrollRenderRequest \<Rightarrow> ReaderComponent \<Rightarrow> ReaderComponent" where
  "settle_request request r =
     r\<lparr>r_scrollRenderRequests := map (\<lambda>(n, q). (n, if sr_id q = sr_id request then q\<lparr>sr_settled := True\<rparr> else q))
         (r_scrollRenderRequests r),
       r_scrollJobs := filter (\<lambda>(_, q). sr_id q \<noteq> sr_id request) (r_scrollJobs r)\<rparr>"

definition is_current :: "nat \<Rightarrow> ScrollRenderRequest \<Rightarrow> ReaderComponent \<Rightarrow> bool" where
  "is_current pageNumber request r \<longleftrightarrow>
     (case jm_get (r_scrollRenderRequests r) pageNumber of None \<Rightarrow> False | Some q \<Rightarrow> sr_id q = sr_id request)"

definition scroll_failed :: "nat \<Rightarrow> ScrollRenderRequest \<Rightarrow> ReaderComponent \<Rightarrow> ReaderComponent" where
  "scroll_failed index request r =
     (let r = settle_request request r
      in if is_current (index + 1) request r
         then r\<lparr>r_scrollRenderRequests := jm_delete (r_scrollRenderRequests r) (index + 1)\<rparr> else r)"

text \<open>
  The drawing is done. \<open>page\<close> is the page as laid out now and \<open>same_page\<close> says that it is still
  the page of that index. The result also tells whether the canvas was emptied.
\<close>

definition scroll_rendered ::
  "StageRect \<Rightarrow> ScrollPage \<Rightarrow> bool \<Rightarrow> nat \<Rightarrow> ScrollRenderRequest \<Rightarrow> ReaderComponent \<Rightarrow> bool \<times> ReaderComponent" where
  "scroll_rendered stage page same_page index request r =
     (let r = settle_request request r;
          pageNumber = index + 1;
          activeRequest = jm_get (r_scrollRenderRequests r) pageNumber;
          requestIsCurrent = is_current pageNumber request r;
          canvasIsCurrent = (pg_canvas page = Some (sr_canvas request))
      in if r_renderGeneration r = sr_generation request \<and> r_mode r = ScrollMode \<and> requestIsCurrent \<and>
            same_page \<and> canvasIsCurrent \<and> js_round (pg_clientWidth page) = sr_width request \<and> near_window 2 stage page
         then (False, r\<lparr>r_renderedWidths := jm_set (r_renderedWidths r) pageNumber (sr_width request)\<rparr>)
         else (let newerRequestOwnsCanvas = (canvasIsCurrent \<and> activeRequest \<noteq> None \<and> \<not> requestIsCurrent)
               in (\<not> newerRequestOwnsCanvas,
                   if requestIsCurrent
                   then r\<lparr>r_renderedWidths := jm_delete (r_renderedWidths r) pageNumber,
                     r_scrollRenderRequests := jm_delete (r_scrollRenderRequests r) pageNumber\<rparr>
                   else r)))"

text \<open>The frame: draw what the mode shows. \<open>ready\<close> says that there are canvases.\<close>

definition renderVisible :: "bool \<Rightarrow> StageRect \<Rightarrow> ScrollPage list \<Rightarrow> ReaderComponent \<Rightarrow> ReaderComponent" where
  "renderVisible ready stage pages r =
     (let r = r\<lparr>r_renderFrame := False\<rparr>
      in if \<not> ready then r
         else if r_mode r = PageMode then render_page r
         else render_scroll stage pages r)"

end
