(* ===== verification/Api.thy ===== *)
theory Api
  imports LibraryUtils JsMap
begin

text \<open>
  The client of the HTTP interface (\<open>web/src/app/core/api.service.ts\<close>): the request each method
  sends, how errors become texts, and the two small services beside it, the expired session
  (\<open>session-expiry.interceptor.ts\<close>) and the library address remembered for the tab
  (\<open>library-address.ts\<close>). Sending the request is the browser's.
\<close>

section \<open>Requests\<close>

datatype Method = GET | POST | PUT | PATCH | DELETE

text \<open>What a request carries: the fields of the object or form it sends.\<close>

datatype Body =
    NoBody | NullBody
  | NewImport jstring jstring
  | DraftPatch nat PieceInput "IMSLPAutoFill option" EditManifest
  | FileForm "nat list" nat
  | MergeBody ComposerMerge
  | PreferencesBody "LibraryFilter option" "LibrarySort option"
  | PieceBody PieceInput | FavoriteBody bool | StatusBody PieceStatus
  | ReaderBody ReaderState

record Request =
  rq_method :: Method
  rq_url :: jstring
  rq_params :: "(jstring, jstring) js_map"
  rq_body :: Body

definition request_to :: "Method \<Rightarrow> jstring \<Rightarrow> Body \<Rightarrow> Request" where
  "request_to m url body = \<lparr>rq_method = m, rq_url = url, rq_params = [], rq_body = body\<rparr>"

definition searchIMSLP :: "jstring \<Rightarrow> Request" where
  "searchIMSLP query = (request_to GET (js ''/api/imslp/works'') NoBody)
     \<lparr>rq_params := jm_set [] (js ''q'') (js_trim query)\<rparr>"

definition imports_request :: Request where
  "imports_request = request_to GET (js ''/api/imports/'') NoBody"

definition createImport :: "jstring \<Rightarrow> jstring \<Rightarrow> Request" where
  "createImport pieceId sourceUrl = request_to POST (js ''/api/imports/'') (NewImport pieceId sourceUrl)"

definition importDraft :: "jstring \<Rightarrow> Request" where
  "importDraft i = request_to GET (js ''/api/imports/'' @ i @ js ''/'') NoBody"

text \<open>A draft without automatic fields sends an empty object for them.\<close>

definition updateImport :: "ImportDraft \<Rightarrow> Request" where
  "updateImport d = request_to PATCH (js ''/api/imports/'' @ d_id d @ js ''/'')
     (DraftPatch (d_revision d) (d_metadata d) (d_imslpAutoFill d) (d_manifest d))"

definition deleteImport :: "jstring \<Rightarrow> Request" where
  "deleteImport i = request_to DELETE (js ''/api/imports/'' @ i @ js ''/'') NoBody"

definition uploadImport :: "ImportDraft \<Rightarrow> nat list \<Rightarrow> Request" where
  "uploadImport d file = request_to POST (js ''/api/imports/'' @ d_id d @ js ''/sources'') (FileForm file (d_revision d))"

definition finalizeImport :: "ImportDraft \<Rightarrow> nat list \<Rightarrow> Request" where
  "finalizeImport d file = request_to POST (js ''/api/imports/'' @ d_id d @ js ''/finalize'') (FileForm file (d_revision d))"

definition suggestPieces :: "jstring \<Rightarrow> LibraryFilter \<Rightarrow> Request" where
  "suggestPieces query f =
     (let params = jm_set [] (js ''q'') query;
          params = (if f = Favorites
            then jm_set (jm_set params (js ''favorite'') (js ''true'')) (js ''status'') (js ''all'')
            else if f \<noteq> Current then jm_set params (js ''status'') (filter_value f) else params)
      in (request_to GET (js ''/api/library/suggestions'') NoBody)\<lparr>rq_params := params\<rparr>)"

definition composers_request :: Request where
  "composers_request = request_to GET (js ''/api/composers/'') NoBody"

definition previewComposerMerge :: "ComposerMerge \<Rightarrow> Request" where
  "previewComposerMerge inp = request_to POST (js ''/api/composers/preview'') (MergeBody inp)"

definition mergeComposers :: "ComposerMerge \<Rightarrow> Request" where
  "mergeComposers inp = request_to PATCH (js ''/api/composers/'') (MergeBody inp)"

definition session_request :: Request where
  "session_request = request_to GET (js ''/api/session'') NoBody"

definition logout_request :: Request where
  "logout_request = request_to DELETE (js ''/api/session'') NoBody"

definition shortcutToken_request :: Request where
  "shortcutToken_request = request_to GET (js ''/api/account/shortcut-token'') NoBody"

definition createShortcutToken :: Request where
  "createShortcutToken = request_to POST (js ''/api/account/shortcut-token'') NullBody"

definition deleteShortcutToken :: Request where
  "deleteShortcutToken = request_to DELETE (js ''/api/account/shortcut-token'') NoBody"

definition pieceSummaries :: Request where
  "pieceSummaries = (request_to GET (js ''/api/pieces/'') NoBody)
     \<lparr>rq_params := jm_set (jm_set [] (js ''fields'') (js ''summary'')) (js ''status'') (js ''all'')\<rparr>"

definition continuePiece :: Request where
  "continuePiece = request_to GET (js ''/api/pieces/continue'') NoBody"

definition preferences_request :: Request where
  "preferences_request = request_to GET (js ''/api/account/preferences'') NoBody"

definition savePreferences :: "LibraryFilter option \<Rightarrow> LibrarySort option \<Rightarrow> Request" where
  "savePreferences f s = request_to PUT (js ''/api/account/preferences'') (PreferencesBody f s)"

definition piece_request :: "jstring \<Rightarrow> Request" where
  "piece_request i = request_to GET (js ''/api/pieces/'' @ i @ js ''/'') NoBody"

definition createPiece :: "PieceInput \<Rightarrow> Request" where
  "createPiece inp = request_to POST (js ''/api/pieces/'') (PieceBody inp)"

definition updatePiece :: "jstring \<Rightarrow> Body \<Rightarrow> Request" where
  "updatePiece i change = request_to PATCH (js ''/api/pieces/'' @ i @ js ''/'') change"

definition deletePiece :: "jstring \<Rightarrow> Request" where
  "deletePiece i = request_to DELETE (js ''/api/pieces/'' @ i @ js ''/'') NoBody"

definition readerState :: "jstring \<Rightarrow> Request" where
  "readerState i = request_to GET (js ''/api/pieces/'' @ i @ js ''/reader-state'') NoBody"

definition saveReaderState :: "jstring \<Rightarrow> ReaderState \<Rightarrow> Request" where
  "saveReaderState i s = request_to PUT (js ''/api/pieces/'' @ i @ js ''/reader-state'') (ReaderBody s)"

section \<open>Errors\<close>

text \<open>
  What a request or a handler can throw: an HTTP error with its status and, where the body has
  one, the text of its \<open>error\<close> field; an \<open>Error\<close> with its message; or anything else.
\<close>

datatype js_error = HttpError nat "jstring option" | JsError jstring | OtherThrown

definition unknown_error :: jstring where
  "unknown_error = js ''Something went wrong.''"

text \<open>The test \<open>/[.!?]$/\<close>.\<close>

definition ends_sentence :: "jstring \<Rightarrow> bool" where
  "ends_sentence t \<longleftrightarrow> t \<noteq> [] \<and> last t \<in> set (js ''.!?'')"

text \<open>\<open>upper\<close> is \<open>toUpperCase\<close> of the browser.\<close>

definition sentence :: "(jstring \<Rightarrow> jstring) \<Rightarrow> jstring \<Rightarrow> jstring" where
  "sentence upper t =
     (let trimmed = js_trim t
      in if trimmed = [] then unknown_error
         else (let capitalised = upper (take 1 trimmed) @ drop 1 trimmed
               in if ends_sentence capitalised then capitalised
                  else capitalised @ js ''.''))"

definition errorMessage :: "(jstring \<Rightarrow> jstring) \<Rightarrow> js_error \<Rightarrow> jstring" where
  "errorMessage upper e = (case e of
     HttpError status (Some t) \<Rightarrow> sentence upper t
   | HttpError status None \<Rightarrow> if status = 0 then js ''Noted could not reach the API.'' else unknown_error
   | JsError message \<Rightarrow> sentence upper message
   | OtherThrown \<Rightarrow> unknown_error)"

text \<open>The answer to an IMSLP search: too many searches are an answer, other errors are not.\<close>

definition searchIMSLP_answer :: "(js_error, IMSLPSearch) result \<Rightarrow> (js_error, IMSLPSearch) result" where
  "searchIMSLP_answer r = (case r of
     Inl (HttpError status t) \<Rightarrow>
       if status = 429 then Inr \<lparr>imslp_status = Throttled, imslp_results = []\<rparr> else Inl (HttpError status t)
   | _ \<Rightarrow> r)"

lemma sentence_ends: "ends_sentence (sentence upper t)"
proof -
  have u: "ends_sentence unknown_error" by code_simp
  have dot: "ends_sentence (c @ js ''.'')" for c by (simp add: ends_sentence_def js_def)
  show ?thesis unfolding sentence_def Let_def using u dot by (simp del: append_assoc)
qed

lemma errorMessage_sentence: "ends_sentence (errorMessage upper e)"
proof -
  have "ends_sentence unknown_error" "ends_sentence (js ''Noted could not reach the API.'')" by code_simp+
  then show ?thesis by (simp add: errorMessage_def sentence_ends split: js_error.split option.split)
qed

lemma errorMessage_not_Nil [simp]: "errorMessage upper e \<noteq> []"
  using errorMessage_sentence by (simp add: ends_sentence_def)

section \<open>An expired session\<close>

text \<open>Whether the failed request says that the session is over, for any request but the session's own.\<close>

definition notifies_expiry :: "Request \<Rightarrow> js_error \<Rightarrow> bool" where
  "notifies_expiry request e \<longleftrightarrow> (case e of
     HttpError status _ \<Rightarrow> status = 401 \<and> rq_url request \<noteq> js ''/api/session''
   | _ \<Rightarrow> False)"

text \<open>The interceptor passes every answer on and counts the notices.\<close>

definition sessionExpiryInterceptor ::
  "Request \<Rightarrow> (js_error, 'a) result \<Rightarrow> nat \<Rightarrow> (js_error, 'a) result \<times> nat" where
  "sessionExpiryInterceptor request answer notices = (case answer of
     Inl e \<Rightarrow> (Inl e, if notifies_expiry request e then notices + 1 else notices)
   | Inr v \<Rightarrow> (Inr v, notices))"

section \<open>The library address of the tab\<close>

text \<open>
  What the tab's storage holds under the key: nothing, a text that is no JSON, or the JSON value
  it was written from. Storage that throws is \<open>Unavailable\<close>.
\<close>

datatype Stored = StoredText jstring | StoredNumber real | StoredFlag bool | StoredNull
  | StoredArray "Stored list" | StoredObject "(jstring \<times> Stored) list"

datatype Storage = StorageUnavailable | Storage "Stored option option"

definition params_object :: "LibraryParams \<Rightarrow> (jstring \<times> Stored) list" where
  "params_object p = concat (map (\<lambda>(k, v). case v of None \<Rightarrow> [] | Some t \<Rightarrow> [(k, StoredText t)])
     [(js ''q'', par_q p), (js ''show'', par_show p), (js ''sort'', par_sort p)])"

definition rememberLibraryParams :: "LibraryParams \<Rightarrow> Storage \<Rightarrow> Storage" where
  "rememberLibraryParams p s = (case s of
     StorageUnavailable \<Rightarrow> StorageUnavailable
   | Storage _ \<Rightarrow> Storage (Some (Some (StoredObject (params_object p)))))"

definition clearLibraryParams :: "Storage \<Rightarrow> Storage" where
  "clearLibraryParams s = (case s of StorageUnavailable \<Rightarrow> StorageUnavailable | Storage _ \<Rightarrow> Storage None)"

definition rememberedLibraryParams :: "Storage \<Rightarrow> (jstring \<times> jstring) list" where
  "rememberedLibraryParams s = (case s of
     Storage (Some (Some (StoredObject entries))) \<Rightarrow>
       concat (map (\<lambda>(k, v). case v of StoredText t \<Rightarrow> [(k, t)] | _ \<Rightarrow> []) entries)
   | _ \<Rightarrow> [])"

text \<open>The address those parameters make.\<close>

definition address_of :: "(jstring \<times> jstring) list \<Rightarrow> LibraryParams" where
  "address_of ps = \<lparr>par_q = map_of ps (js ''q''), par_show = map_of ps (js ''show''), par_sort = map_of ps (js ''sort'')\<rparr>"

lemma remembered_address:
  "address_of (rememberedLibraryParams (rememberLibraryParams p (Storage old))) = p"
proof -
  have k: "js ''q'' \<noteq> js ''show''" "js ''q'' \<noteq> js ''sort''" "js ''show'' \<noteq> js ''sort''" by code_simp+
  show ?thesis using k
    by (cases p) (auto simp: address_of_def rememberedLibraryParams_def rememberLibraryParams_def params_object_def
      split: option.split)
qed

end
