(* ===== verification/Reader.thy ===== *)
theory Reader
  imports ReaderView Api
begin

text \<open>
  The reader page's handlers (\<open>reader.component.ts\<close> and \<open>reader.utils.ts\<close>): opening a score,
  turning pages, zoom and speed, pointer and keys, automatic scrolling, and saving the position.
  Each handler is a function on the page's state; the events of the page put them together.
\<close>

section \<open>Keys and pointers\<close>

definition pageDeltaForKey :: "jstring \<Rightarrow> int" where
  "pageDeltaForKey key =
     (if key \<in> {js ''ArrowRight'', js ''ArrowDown'', js ''PageDown'', js '' '', js ''Enter''} then 1
      else if key \<in> {js ''ArrowLeft'', js ''ArrowUp'', js ''PageUp''} then - 1
      else 0)"

definition pointerMovementThreshold :: real where
  "pointerMovementThreshold = 3"

text \<open>The baseline copies the three fields of the event.\<close>

definition pointerBaseline :: "ReaderPointerMove \<Rightarrow> ReaderPointerMove" where
  "pointerBaseline event = \<lparr>rp_clientX = rp_clientX event, rp_clientY = rp_clientY event,
     rp_pointerType = rp_pointerType event\<rparr>"

definition trackFinePointerMovement ::
  "ReaderPointerMove option \<Rightarrow> ReaderPointerMove \<Rightarrow> ReaderPointerMove option \<times> bool" where
  "trackFinePointerMovement previous event =
     (if rp_pointerType event \<noteq> js ''mouse'' \<and> rp_pointerType event \<noteq> js ''pen'' then (None, False)
      else (case previous of
          None \<Rightarrow> (Some (pointerBaseline event), False)
        | Some p \<Rightarrow>
            if rp_pointerType p \<noteq> rp_pointerType event then (Some (pointerBaseline event), False)
            else (let moved = hypot (rp_clientX event - rp_clientX p) (rp_clientY event - rp_clientY p)
                        \<ge> pointerMovementThreshold
                  in (if moved then Some (pointerBaseline event) else previous, moved))))"

definition trackPointerMovement :: "ReaderPointerMove \<Rightarrow> ReaderComponent \<Rightarrow> bool \<times> ReaderComponent" where
  "trackPointerMovement event r =
     (let (baseline, moved) = trackFinePointerMovement (r_pointerMovementBaseline r) event
      in (moved, r\<lparr>r_pointerMovementBaseline := baseline\<rparr>))"

section \<open>Saving the position\<close>

definition flushReaderStateSave :: "ReaderComponent \<Rightarrow> ReaderComponent" where
  "flushReaderStateSave r =
     (if r_saveInFlight r \<or> r_saveBlocked r then r
      else (case r_pendingState r of
          None \<Rightarrow> r
        | Some state \<Rightarrow> r\<lparr>r_pendingState := None, r_saveInFlight := True, r_saving := Some state,
            r_sent := r_sent r @ [state]\<rparr>))"

definition current_position :: "ReaderComponent \<Rightarrow> ReaderState" where
  "current_position r = \<lparr>rs_pieceId = r_pieceId r, rs_pdfChecksum = r_loadedPDFChecksum r, rs_mode = r_mode r,
     rs_lastPage = r_currentPage r, rs_scrollPosition = (if r_mode r = ScrollMode then r_scrollTop r else 0),
     rs_zoom = r_zoom r, rs_scrollSpeed = r_speed r, rs_scrollPaused = r_paused r\<rparr>"

definition saveNow :: "ReaderComponent \<Rightarrow> ReaderComponent" where
  "saveNow r =
     (if r_pieceId r = [] \<or> r_loadedPDFChecksum r = [] \<or> r_loading r \<or> r_error r \<noteq> [] \<or> r_saveBlocked r then r
      else flushReaderStateSave (r\<lparr>r_saveTimer := False, r_saveCheckpointTimer := False,
             r_pendingState := Some (current_position r), r_wanted := r_wanted r @ [current_position r]\<rparr>))"

definition queueSave :: "ReaderComponent \<Rightarrow> ReaderComponent" where
  "queueSave r = (if r_saveBlocked r then r else r\<lparr>r_saveTimer := True, r_saveCheckpointTimer := True\<rparr>)"

section \<open>Automatic scrolling\<close>

definition syncAutoScroll :: "ReaderComponent \<Rightarrow> ReaderComponent" where
  "syncAutoScroll r =
     (let r = r\<lparr>r_autoScrollFrame := False, r_autoScrollTimestamp := 0, r_autoScrollRemainder := 0\<rparr>
      in if r_mode r \<noteq> ScrollMode \<or> r_paused r \<or> r_destroyed r then r else r\<lparr>r_autoScrollFrame := True\<rparr>)"

text \<open>Setting the scroll position: the browser keeps it between the top and the end.\<close>

definition set_scrollTop :: "real \<Rightarrow> ReaderComponent \<Rightarrow> ReaderComponent" where
  "set_scrollTop y r = r\<lparr>r_scrollTop := clamp 0 (max 0 (r_scrollHeight r - r_clientHeight r)) y\<rparr>"

definition tick :: "real \<Rightarrow> ReaderComponent \<Rightarrow> ReaderComponent" where
  "tick timestamp r =
     (if r_mode r \<noteq> ScrollMode \<or> r_paused r \<or> r_destroyed r then r\<lparr>r_autoScrollFrame := False\<rparr>
      else (let again = (\<lambda>r. r\<lparr>r_autoScrollTimestamp := timestamp, r_autoScrollFrame := True\<rparr>)
            in if r_autoScrollTimestamp r = 0 then again r
               else (let elapsed = min (1 / 10) ((timestamp - r_autoScrollTimestamp r) / 1000);
                         distance = r_autoScrollRemainder r + r_speed r * elapsed;
                         wholePixels = \<lfloor>distance\<rfloor>;
                         r = r\<lparr>r_autoScrollRemainder := distance - of_int wholePixels\<rparr>;
                         r = (if wholePixels > 0 then set_scrollTop (r_scrollTop r + of_int wholePixels) r else r)
                     in if r_scrollTop r + r_clientHeight r \<ge> r_scrollHeight r - 1
                        then saveNow (r\<lparr>r_paused := True, r_autoScrollFrame := False\<rparr>)
                        else again r)))"

section \<open>The answer to a save\<close>

definition conflict_message :: jstring where
  "conflict_message = js ''This score changed while it was open. Reload it before continuing.''"

definition finish_save :: "ReaderComponent \<Rightarrow> ReaderComponent" where
  "finish_save r = flushReaderStateSave (r\<lparr>r_saveInFlight := False, r_saving := None\<rparr>)"

text \<open>\<open>conflict\<close>: the server answered 409.\<close>

definition save_failed :: "bool \<Rightarrow> ReaderComponent \<Rightarrow> ReaderComponent" where
  "save_failed conflict r = (case r_saving r of
     None \<Rightarrow> r
   | Some state \<Rightarrow> finish_save
       (if conflict \<and> r_loadedPDFChecksum r = rs_pdfChecksum state
        then (syncAutoScroll (r\<lparr>r_saveBlocked := True, r_pendingState := None, r_wanted := r_sent r,
               r_paused := True\<rparr>))\<lparr>r_error := conflict_message\<rparr>
        else r))"

definition save_completed :: "ReaderComponent \<Rightarrow> ReaderComponent" where
  "save_completed r = (if r_saving r = None then r else finish_save r)"

section \<open>Opening a score\<close>

definition load_started :: "ReaderComponent \<Rightarrow> ReaderComponent" where
  "load_started r = forget_drawings (r\<lparr>r_loading := True, r_error := [], r_saveBlocked := False,
     r_pendingState := None, r_wanted := r_sent r, r_loadedPDFChecksum := []\<rparr>)"

definition fail_load :: "(jstring \<Rightarrow> jstring) \<Rightarrow> bool \<Rightarrow> js_error \<Rightarrow> ReaderComponent \<Rightarrow> ReaderComponent" where
  "fail_load upper broken e r =
     r\<lparr>r_wakeLock := stop broken (r_wakeLock r), r_error := errorMessage upper e, r_loading := False\<rparr>"

text \<open>The piece and its stored position have arrived.\<close>

definition load_fetched ::
  "(jstring \<Rightarrow> jstring) \<Rightarrow> bool \<Rightarrow> Piece \<Rightarrow> ReaderState \<Rightarrow> ReaderComponent \<Rightarrow> ReaderComponent" where
  "load_fetched upper broken piece state r = (case p_pdf piece of
     None \<Rightarrow> fail_load upper broken (JsError (js ''This piece does not have a PDF yet.'')) r
   | Some pdf \<Rightarrow>
       if rs_pdfChecksum state \<noteq> pdf_checksumSha256 pdf
       then fail_load upper broken (JsError (js ''The score changed while it was opening. Reload the reader.'')) r
       else r\<lparr>r_piece := Some piece, r_loadedPDFChecksum := pdf_checksumSha256 pdf, r_mode := rs_mode state,
              r_zoom := clamp (1 / 2) (5 / 2) (rs_zoom state), r_speed := clamp 1 10 (rs_scrollSpeed state),
              r_paused := rs_scrollPaused state\<rparr>)"

text \<open>The PDF is open and has \<open>n\<close> pages.\<close>

definition load_opened :: "nat \<Rightarrow> ReaderState \<Rightarrow> ReaderComponent \<Rightarrow> ReaderComponent" where
  "load_opened n state r = r\<lparr>r_pages := n, r_currentPage := clamp 1 (int n) (js_round (of_int (rs_lastPage state))),
     r_loading := False, r_layouts := r_layouts r + 1\<rparr>"

text \<open>The step after it, once the page is laid out.\<close>

definition load_laid_out :: "ReaderState \<Rightarrow> ReaderComponent \<Rightarrow> ReaderComponent" where
  "load_laid_out state r =
     (let r = r\<lparr>r_layouts := r_layouts r - 1\<rparr>
      in syncAutoScroll (scheduleRender
           (if r_mode r = ScrollMode then set_scrollTop (max 0 (rs_scrollPosition state)) r else r)))"

section \<open>Pages, zoom and speed\<close>

definition updateCurrentPage :: "real \<Rightarrow> real list \<Rightarrow> ReaderComponent \<Rightarrow> ReaderComponent" where
  "updateCurrentPage stageTop tops r =
     r\<lparr>r_currentPage := fst (fold (\<lambda>(index, y) (closestPage, closestDistance).
         let distance = \<bar>y - stageTop - 24\<bar>
         in if closestDistance = None \<or> distance < the closestDistance
            then (int index + 1, Some distance) else (closestPage, closestDistance))
       (enumerate 0 tops) (r_currentPage r, None))\<rparr>"

definition scrollToPage :: "real list \<Rightarrow> int \<Rightarrow> ReaderComponent \<Rightarrow> ReaderComponent" where
  "scrollToPage offsets page r =
     (if 1 \<le> page \<and> nat (page - 1) < length offsets
      then set_scrollTop (max 0 (offsets ! nat (page - 1) - 80)) r else r)"

definition setMode :: "real \<Rightarrow> real list \<Rightarrow> ReaderMode \<Rightarrow> ReaderComponent \<Rightarrow> ReaderComponent" where
  "setMode stageTop tops mode r =
     (if mode = r_mode r then r
      else forget_drawings ((if r_mode r = ScrollMode then updateCurrentPage stageTop tops r else r)
             \<lparr>r_mode := mode, r_layouts := r_layouts r + 1\<rparr>))"

text \<open>The step after it.\<close>

definition mode_laid_out :: "real list \<Rightarrow> ReaderMode \<Rightarrow> ReaderComponent \<Rightarrow> ReaderComponent" where
  "mode_laid_out offsets mode r =
     (let r = r\<lparr>r_layouts := r_layouts r - 1\<rparr>
      in saveNow (syncAutoScroll (scheduleRender
           (if mode = ScrollMode then scrollToPage offsets (r_currentPage r) r else r))))"

definition turnPage :: "int \<Rightarrow> ReaderComponent \<Rightarrow> ReaderComponent" where
  "turnPage delta r =
     (if r_mode r \<noteq> PageMode then r
      else (let next = clamp 1 (int (r_pages r)) (r_currentPage r + delta)
            in if next = r_currentPage r then r
               else queueSave (scheduleRender (clearVisiblePage (r\<lparr>r_currentPage := next\<rparr>)))))"

definition changeZoom :: "real \<Rightarrow> ReaderComponent \<Rightarrow> ReaderComponent" where
  "changeZoom delta r =
     (let next = clamp (1 / 2) (5 / 2) (of_int (js_round ((r_zoom r + delta) * 10)) / 10)
      in if next = r_zoom r then r
         else queueSave (scheduleRender (forget_drawings (r\<lparr>r_zoom := next\<rparr>))))"

definition changeSpeed :: "real \<Rightarrow> ReaderComponent \<Rightarrow> ReaderComponent" where
  "changeSpeed v r = queueSave (r\<lparr>r_speed := v\<rparr>)"

definition togglePause :: "ReaderComponent \<Rightarrow> ReaderComponent" where
  "togglePause r = (if r_mode r \<noteq> ScrollMode then r
     else saveNow (syncAutoScroll (r\<lparr>r_paused := \<not> r_paused r\<rparr>)))"

definition onStageScroll :: "ReaderComponent \<Rightarrow> ReaderComponent" where
  "onStageScroll r = (if r_mode r \<noteq> ScrollMode then r else queueSave (r\<lparr>r_scrollFrame := True\<rparr>))"

definition scroll_frame :: "real \<Rightarrow> real list \<Rightarrow> ReaderComponent \<Rightarrow> ReaderComponent" where
  "scroll_frame stageTop tops r = scheduleRender (updateCurrentPage stageTop tops (r\<lparr>r_scrollFrame := False\<rparr>))"

section \<open>Controls\<close>

definition offerControls :: "ReaderComponent \<Rightarrow> ReaderComponent" where
  "offerControls r =
     (if r_loading r \<or> r_error r \<noteq> [] \<or> r_controlsVisible r then r else r\<lparr>r_controlsBubbleVisible := True\<rparr>)"

definition scheduleHide :: "ReaderComponent \<Rightarrow> ReaderComponent" where
  "scheduleHide r = (if r_loading r \<or> r_error r \<noteq> [] then r\<lparr>r_hideTimer := False\<rparr> else r\<lparr>r_hideTimer := True\<rparr>)"

text \<open>The timer fires: the controls stay while one of them has the focus.\<close>

definition hide_fired :: "bool \<Rightarrow> ReaderComponent \<Rightarrow> ReaderComponent" where
  "hide_fired focused r = (let r = r\<lparr>r_hideTimer := False\<rparr>
     in if focused then scheduleHide r else r\<lparr>r_controlsVisible := False\<rparr>)"

definition showControls :: "ReaderComponent \<Rightarrow> ReaderComponent" where
  "showControls r = scheduleHide (r\<lparr>r_controlsBubbleVisible := False, r_controlsVisible := True\<rparr>)"

definition onChromeActivity :: "ReaderComponent \<Rightarrow> ReaderComponent" where
  "onChromeActivity r = scheduleHide (r\<lparr>r_controlsVisible := True\<rparr>)"

definition onPointerDown :: "real \<times> real \<Rightarrow> ReaderComponent \<Rightarrow> ReaderComponent" where
  "onPointerDown at_point r = r\<lparr>r_pointerStart := Some at_point, r_swiped := False\<rparr>"

definition onPointerMove :: "ReaderPointerMove \<Rightarrow> ReaderComponent \<Rightarrow> ReaderComponent" where
  "onPointerMove event r = (let (moved, r) = trackPointerMovement event r in if moved then offerControls r else r)"

definition onChromePointerMove :: "ReaderPointerMove \<Rightarrow> ReaderComponent \<Rightarrow> ReaderComponent" where
  "onChromePointerMove event r = (let (moved, r) = trackPointerMovement event r in if moved then onChromeActivity r else r)"

definition onPointerUp :: "real \<times> real \<Rightarrow> ReaderComponent \<Rightarrow> ReaderComponent" where
  "onPointerUp at_point r = (case r_pointerStart r of
     None \<Rightarrow> r
   | Some start_point \<Rightarrow>
       (let deltaX = fst at_point - fst start_point; deltaY = snd at_point - snd start_point;
            r = r\<lparr>r_pointerStart := None\<rparr>;
            r = (if hypot deltaX deltaY > 12 then r\<lparr>r_swiped := True\<rparr> else r)
        in if r_mode r = PageMode \<and> \<bar>deltaX\<bar> > 60 \<and> \<bar>deltaY\<bar> < 80
           then turnPage (if deltaX < 0 then 1 else - 1) r else r))"

definition onPointerCancel :: "ReaderComponent \<Rightarrow> ReaderComponent" where
  "onPointerCancel r = r\<lparr>r_pointerStart := None, r_swiped := False\<rparr>"

text \<open>A tap \<open>position\<close> of the stage's width from its left; \<open>on_controls\<close> when it hit the controls.\<close>

definition onScoreTap :: "bool \<Rightarrow> real \<Rightarrow> ReaderComponent \<Rightarrow> ReaderComponent" where
  "onScoreTap on_controls position r =
     (if r_swiped r then r\<lparr>r_swiped := False\<rparr>
      else if on_controls then r
      else (let r = offerControls r
            in if r_mode r = ScrollMode then togglePause r
               else if position < 34 / 100 then turnPage (- 1) r
               else if position > 66 / 100 then turnPage 1 r
               else r))"

definition onKeydown :: "bool \<Rightarrow> jstring \<Rightarrow> ReaderComponent \<Rightarrow> ReaderComponent" where
  "onKeydown in_field key r =
     (if in_field then r
      else (let r = offerControls r
            in if r_mode r = ScrollMode \<and> key \<in> {js '' '', js ''Enter''} then togglePause r
               else (let delta = pageDeltaForKey key
                     in if delta \<noteq> 0 \<and> r_mode r = PageMode then turnPage delta r else r)))"

section \<open>Coming and going\<close>

definition new_reader :: "jstring \<Rightarrow> js_value \<Rightarrow> bool \<Rightarrow> ReaderComponent" where
  "new_reader pieceId navigator visible =
     \<lparr>r_piece = None, r_pages = 0, r_loading = True, r_error = [], r_mode = PageMode, r_currentPage = 1, r_zoom = 1,
      r_speed = 5, r_paused = True, r_controlsVisible = True, r_controlsBubbleVisible = False,
      r_renderFrame = False, r_scrollFrame = False, r_autoScrollFrame = False, r_autoScrollTimestamp = 0,
      r_autoScrollRemainder = 0, r_hideTimer = False, r_saveTimer = False, r_saveCheckpointTimer = False,
      r_pointerStart = None, r_pointerMovementBaseline = None, r_swiped = False, r_renderedPage = None,
      r_renderedWidths = [], r_pageRenderInFlight = False, r_pageRenderPending = False, r_renderGeneration = 0,
      r_scrollRenderRequests = [], r_destroyed = False, r_saveBlocked = False, r_saveInFlight = False,
      r_pendingState = None, r_loadedPDFChecksum = [], r_pieceId = pieceId,
      r_wakeLock = new_wake_lock navigator visible,
      r_canvas = 0, r_clientWidth = 0, r_clientHeight = 0, r_scrollHeight = 0, r_scrollTop = 0,
      r_pageJob = None, r_scrollJobs = [], r_nextRequest = 0, r_layouts = 0, r_wanted = [], r_sent = [], r_saving = None\<rparr>"

definition ngAfterViewInit :: "bool \<Rightarrow> ReaderComponent \<Rightarrow> ReaderComponent" where
  "ngAfterViewInit throws r = load_started (r\<lparr>r_wakeLock := start throws (r_wakeLock r)\<rparr>)"

definition reload :: "bool \<Rightarrow> ReaderComponent \<Rightarrow> ReaderComponent" where
  "reload throws r = load_started (r\<lparr>r_wakeLock := start throws (r_wakeLock r)\<rparr>)"

definition ngOnDestroy :: "bool \<Rightarrow> ReaderComponent \<Rightarrow> ReaderComponent" where
  "ngOnDestroy broken r =
     (saveNow (r\<lparr>r_destroyed := True, r_wakeLock := stop broken (r_wakeLock r)\<rparr>))
       \<lparr>r_renderFrame := False, r_scrollFrame := False, r_autoScrollFrame := False, r_hideTimer := False,
        r_saveTimer := False, r_saveCheckpointTimer := False\<rparr>"

text \<open>The stage was resized.\<close>

definition resized :: "real \<Rightarrow> real \<Rightarrow> ReaderComponent \<Rightarrow> ReaderComponent" where
  "resized w h r = scheduleRender (forget_drawings (r\<lparr>r_clientWidth := w, r_clientHeight := h\<rparr>))"

definition onReaderVisibilityChange :: "bool \<Rightarrow> ReaderComponent \<Rightarrow> ReaderComponent" where
  "onReaderVisibilityChange hidden r = (if hidden then saveNow r else r)"

text \<open>
  Back: through the history when the page before this one was the library, that is, had no
  primary route of its own; otherwise to the library as last remembered in the tab.
\<close>

datatype BackAction = HistoryBack | OpenLibrary "(jstring \<times> jstring) list"

definition back_action :: "bool option \<Rightarrow> Storage \<Rightarrow> BackAction" where
  "back_action previous_has_route storage =
     (if previous_has_route = Some False then HistoryBack
      else OpenLibrary (rememberedLibraryParams storage))"

section \<open>The page as a state machine\<close>

datatype reader_event =
    Fetched bool Piece ReaderState | FetchFailed bool js_error | PdfOpened nat ReaderState
  | LoadLaidOut ReaderState | Reload bool
  | SetMode real "real list" ReaderMode | ModeLaidOut "real list" ReaderMode
  | TurnPage int | ChangeZoom real | ChangeSpeed real | TogglePause
  | StageScroll real | ScrollFrame real "real list" | Tick real
  | PointerDown "real \<times> real" | PointerMove ReaderPointerMove | ChromePointerMove ReaderPointerMove
  | PointerUp "real \<times> real" | PointerCancel | ScoreTap bool real | Keydown bool jstring
  | ShowControls | ChromeActivity | HideFired bool | Hidden bool | Resized real real | ContentHeight real
  | CanvasChanged nat
  | RenderFrame StageRect "ScrollPage list" | PageDrawn bool
  | ScrollDrawn StageRect ScrollPage bool nat ScrollRenderRequest | ScrollDrawFailed nat ScrollRenderRequest
  | SaveTimer | SaveCompleted | SaveFailed bool | LockEvent wake_event | Leave bool

fun reader_step :: "(jstring \<Rightarrow> jstring) \<Rightarrow> reader_event \<Rightarrow> ReaderComponent \<Rightarrow> ReaderComponent" where
  "reader_step upper (Fetched broken piece state) r = load_fetched upper broken piece state r"
| "reader_step upper (FetchFailed broken e) r = fail_load upper broken e r"
| "reader_step upper (PdfOpened n state) r = load_opened n state r"
| "reader_step upper (LoadLaidOut state) r = load_laid_out state r"
| "reader_step upper (Reload throws) r = reload throws r"
| "reader_step upper (SetMode stageTop tops mode) r = setMode stageTop tops mode r"
| "reader_step upper (ModeLaidOut offsets mode) r = mode_laid_out offsets mode r"
| "reader_step upper (TurnPage delta) r = turnPage delta r"
| "reader_step upper (ChangeZoom delta) r = changeZoom delta r"
| "reader_step upper (ChangeSpeed v) r = changeSpeed v r"
| "reader_step upper TogglePause r = togglePause r"
| "reader_step upper (StageScroll y) r = onStageScroll (r\<lparr>r_scrollTop := y\<rparr>)"
| "reader_step upper (ScrollFrame stageTop tops) r = scroll_frame stageTop tops r"
| "reader_step upper (Tick t) r = tick t r"
| "reader_step upper (PointerDown p) r = onPointerDown p r"
| "reader_step upper (PointerMove m) r = onPointerMove m r"
| "reader_step upper (ChromePointerMove m) r = onChromePointerMove m r"
| "reader_step upper (PointerUp p) r = onPointerUp p r"
| "reader_step upper PointerCancel r = onPointerCancel r"
| "reader_step upper (ScoreTap on_controls position) r = onScoreTap on_controls position r"
| "reader_step upper (Keydown in_field key) r = onKeydown in_field key r"
| "reader_step upper ShowControls r = showControls r"
| "reader_step upper ChromeActivity r = onChromeActivity r"
| "reader_step upper (HideFired focused) r = hide_fired focused r"
| "reader_step upper (Hidden hidden) r = onReaderVisibilityChange hidden r"
| "reader_step upper (Resized w h) r = resized w h r"
| "reader_step upper (ContentHeight h) r = r\<lparr>r_scrollHeight := h\<rparr>"
| "reader_step upper (CanvasChanged c) r = scheduleRender (r\<lparr>r_canvas := c\<rparr>)"
| "reader_step upper (RenderFrame stage pages) r = renderVisible True stage pages r"
| "reader_step upper (PageDrawn drawn) r = page_rendered drawn r"
| "reader_step upper (ScrollDrawn stage page same_page index request) r =
     snd (scroll_rendered stage page same_page index request r)"
| "reader_step upper (ScrollDrawFailed index request) r = scroll_failed index request r"
| "reader_step upper SaveTimer r = saveNow r"
| "reader_step upper SaveCompleted r = save_completed r"
| "reader_step upper (SaveFailed conflict) r = save_failed conflict r"
| "reader_step upper (LockEvent e) r = r\<lparr>r_wakeLock := wake_step e (r_wakeLock r)\<rparr>"
| "reader_step upper (Leave broken) r = ngOnDestroy broken r"

text \<open>
  When an event can happen: answers answer a request, timers and frames fire when set, the
  reload button is shown beside an error, a PDF has a page, the laid-out pages are pages of the
  score, and the page's wake lock is started and stopped by the page alone.
\<close>

definition reader_enabled :: "ReaderComponent \<Rightarrow> reader_event \<Rightarrow> bool" where
  "reader_enabled r e = (case e of
     Fetched broken piece state \<Rightarrow> r_loading r
   | FetchFailed broken e \<Rightarrow> r_loading r
   | PdfOpened n state \<Rightarrow> r_loading r \<and> r_loadedPDFChecksum r \<noteq> [] \<and> 1 \<le> n
   | LoadLaidOut state \<Rightarrow> 0 < r_layouts r
   | Reload throws \<Rightarrow> \<not> r_loading r \<and> r_error r \<noteq> [] \<and> \<not> r_destroyed r
   | SetMode stageTop tops mode \<Rightarrow> length tops \<le> r_pages r
   | ModeLaidOut offsets mode \<Rightarrow> 0 < r_layouts r
   | ScrollFrame stageTop tops \<Rightarrow> r_scrollFrame r \<and> length tops \<le> r_pages r
   | Tick t \<Rightarrow> r_autoScrollFrame r
   | HideFired focused \<Rightarrow> r_hideTimer r
   | RenderFrame stage pages \<Rightarrow> r_renderFrame r
   | PageDrawn drawn \<Rightarrow> r_pageJob r \<noteq> None
   | ScrollDrawn stage page same_page index request \<Rightarrow> (index, request) \<in> set (r_scrollJobs r)
   | ScrollDrawFailed index request \<Rightarrow> (index, request) \<in> set (r_scrollJobs r)
   | SaveTimer \<Rightarrow> r_saveTimer r \<or> r_saveCheckpointTimer r
   | SaveCompleted \<Rightarrow> r_saving r \<noteq> None
   | SaveFailed conflict \<Rightarrow> r_saving r \<noteq> None
   | LockEvent e \<Rightarrow> (case e of Start _ \<Rightarrow> False | Stop _ \<Rightarrow> False | _ \<Rightarrow> wake_enabled (r_wakeLock r) e)
   | _ \<Rightarrow> True)"

definition opened_reader :: "jstring \<Rightarrow> js_value \<Rightarrow> bool \<Rightarrow> bool \<Rightarrow> ReaderComponent" where
  "opened_reader pieceId navigator visible throws = ngAfterViewInit throws (new_reader pieceId navigator visible)"

end
