(* ===== verification/ReaderInvariants.thy ===== *)
theory ReaderInvariants
  imports Reader
begin

text \<open>
  What holds of the reader page after any sequence of its events: the position is a page of the
  score, the page on screen is the current one or is being drawn, positions reach the server in
  order and the last one last, and the wake lock is given back.
\<close>

section \<open>What the parts of the page leave alone\<close>

lemma queueSave_frame [simp]:
  "r_pages (queueSave r) = r_pages r" "r_currentPage (queueSave r) = r_currentPage r" "r_zoom (queueSave r) = r_zoom r"
  "r_loading (queueSave r) = r_loading r" "r_error (queueSave r) = r_error r" "r_mode (queueSave r) = r_mode r"
  "r_sent (queueSave r) = r_sent r" "r_pendingState (queueSave r) = r_pendingState r" "r_saving (queueSave r) = r_saving r"
  "r_saveInFlight (queueSave r) = r_saveInFlight r" "r_saveBlocked (queueSave r) = r_saveBlocked r" "r_wanted (queueSave r) = r_wanted r"
  "r_loadedPDFChecksum (queueSave r) = r_loadedPDFChecksum r" "r_destroyed (queueSave r) = r_destroyed r" "r_pageJob (queueSave r) = r_pageJob r"
  "r_pageRenderPending (queueSave r) = r_pageRenderPending r" "r_pageRenderInFlight (queueSave r) = r_pageRenderInFlight r" "r_renderedPage (queueSave r) = r_renderedPage r"
  "r_renderFrame (queueSave r) = r_renderFrame r" "r_layouts (queueSave r) = r_layouts r" "r_canvas (queueSave r) = r_canvas r"
  "r_clientWidth (queueSave r) = r_clientWidth r" "r_clientHeight (queueSave r) = r_clientHeight r" "r_renderGeneration (queueSave r) = r_renderGeneration r"
  "r_wakeLock (queueSave r) = r_wakeLock r" "r_pieceId (queueSave r) = r_pieceId r"
  by (simp_all add: queueSave_def)

lemma scheduleRender_frame [simp]:
  "r_pages (scheduleRender r) = r_pages r" "r_currentPage (scheduleRender r) = r_currentPage r" "r_zoom (scheduleRender r) = r_zoom r"
  "r_loading (scheduleRender r) = r_loading r" "r_error (scheduleRender r) = r_error r" "r_mode (scheduleRender r) = r_mode r"
  "r_sent (scheduleRender r) = r_sent r" "r_pendingState (scheduleRender r) = r_pendingState r" "r_saving (scheduleRender r) = r_saving r"
  "r_saveInFlight (scheduleRender r) = r_saveInFlight r" "r_saveBlocked (scheduleRender r) = r_saveBlocked r" "r_wanted (scheduleRender r) = r_wanted r"
  "r_loadedPDFChecksum (scheduleRender r) = r_loadedPDFChecksum r" "r_destroyed (scheduleRender r) = r_destroyed r" "r_pageJob (scheduleRender r) = r_pageJob r"
  "r_pageRenderPending (scheduleRender r) = r_pageRenderPending r" "r_pageRenderInFlight (scheduleRender r) = r_pageRenderInFlight r" "r_renderedPage (scheduleRender r) = r_renderedPage r"
  "r_layouts (scheduleRender r) = r_layouts r" "r_canvas (scheduleRender r) = r_canvas r" "r_clientWidth (scheduleRender r) = r_clientWidth r"
  "r_clientHeight (scheduleRender r) = r_clientHeight r" "r_renderGeneration (scheduleRender r) = r_renderGeneration r" "r_wakeLock (scheduleRender r) = r_wakeLock r"
  "r_pieceId (scheduleRender r) = r_pieceId r"
  by (simp_all add: scheduleRender_def)

lemma syncAutoScroll_frame [simp]:
  "r_pages (syncAutoScroll r) = r_pages r" "r_currentPage (syncAutoScroll r) = r_currentPage r" "r_zoom (syncAutoScroll r) = r_zoom r"
  "r_loading (syncAutoScroll r) = r_loading r" "r_error (syncAutoScroll r) = r_error r" "r_mode (syncAutoScroll r) = r_mode r"
  "r_sent (syncAutoScroll r) = r_sent r" "r_pendingState (syncAutoScroll r) = r_pendingState r" "r_saving (syncAutoScroll r) = r_saving r"
  "r_saveInFlight (syncAutoScroll r) = r_saveInFlight r" "r_saveBlocked (syncAutoScroll r) = r_saveBlocked r" "r_wanted (syncAutoScroll r) = r_wanted r"
  "r_loadedPDFChecksum (syncAutoScroll r) = r_loadedPDFChecksum r" "r_destroyed (syncAutoScroll r) = r_destroyed r" "r_pageJob (syncAutoScroll r) = r_pageJob r"
  "r_pageRenderPending (syncAutoScroll r) = r_pageRenderPending r" "r_pageRenderInFlight (syncAutoScroll r) = r_pageRenderInFlight r" "r_renderedPage (syncAutoScroll r) = r_renderedPage r"
  "r_renderFrame (syncAutoScroll r) = r_renderFrame r" "r_layouts (syncAutoScroll r) = r_layouts r" "r_canvas (syncAutoScroll r) = r_canvas r"
  "r_clientWidth (syncAutoScroll r) = r_clientWidth r" "r_clientHeight (syncAutoScroll r) = r_clientHeight r" "r_renderGeneration (syncAutoScroll r) = r_renderGeneration r"
  "r_wakeLock (syncAutoScroll r) = r_wakeLock r" "r_pieceId (syncAutoScroll r) = r_pieceId r"
  by (simp_all add: syncAutoScroll_def Let_def)

lemma clearVisiblePage_frame [simp]:
  "r_pages (clearVisiblePage r) = r_pages r" "r_currentPage (clearVisiblePage r) = r_currentPage r" "r_zoom (clearVisiblePage r) = r_zoom r"
  "r_loading (clearVisiblePage r) = r_loading r" "r_error (clearVisiblePage r) = r_error r" "r_mode (clearVisiblePage r) = r_mode r"
  "r_sent (clearVisiblePage r) = r_sent r" "r_pendingState (clearVisiblePage r) = r_pendingState r" "r_saving (clearVisiblePage r) = r_saving r"
  "r_saveInFlight (clearVisiblePage r) = r_saveInFlight r" "r_saveBlocked (clearVisiblePage r) = r_saveBlocked r" "r_wanted (clearVisiblePage r) = r_wanted r"
  "r_loadedPDFChecksum (clearVisiblePage r) = r_loadedPDFChecksum r" "r_destroyed (clearVisiblePage r) = r_destroyed r" "r_pageJob (clearVisiblePage r) = r_pageJob r"
  "r_pageRenderPending (clearVisiblePage r) = r_pageRenderPending r" "r_pageRenderInFlight (clearVisiblePage r) = r_pageRenderInFlight r" "r_renderFrame (clearVisiblePage r) = r_renderFrame r"
  "r_layouts (clearVisiblePage r) = r_layouts r" "r_canvas (clearVisiblePage r) = r_canvas r" "r_clientWidth (clearVisiblePage r) = r_clientWidth r"
  "r_clientHeight (clearVisiblePage r) = r_clientHeight r" "r_renderGeneration (clearVisiblePage r) = r_renderGeneration r" "r_wakeLock (clearVisiblePage r) = r_wakeLock r"
  "r_pieceId (clearVisiblePage r) = r_pieceId r"
  by (simp_all add: clearVisiblePage_def)

lemma forget_drawings_frame [simp]:
  "r_pages (forget_drawings r) = r_pages r" "r_currentPage (forget_drawings r) = r_currentPage r" "r_zoom (forget_drawings r) = r_zoom r"
  "r_loading (forget_drawings r) = r_loading r" "r_error (forget_drawings r) = r_error r" "r_mode (forget_drawings r) = r_mode r"
  "r_sent (forget_drawings r) = r_sent r" "r_pendingState (forget_drawings r) = r_pendingState r" "r_saving (forget_drawings r) = r_saving r"
  "r_saveInFlight (forget_drawings r) = r_saveInFlight r" "r_saveBlocked (forget_drawings r) = r_saveBlocked r" "r_wanted (forget_drawings r) = r_wanted r"
  "r_loadedPDFChecksum (forget_drawings r) = r_loadedPDFChecksum r" "r_destroyed (forget_drawings r) = r_destroyed r" "r_pageJob (forget_drawings r) = r_pageJob r"
  "r_pageRenderPending (forget_drawings r) = r_pageRenderPending r" "r_pageRenderInFlight (forget_drawings r) = r_pageRenderInFlight r" "r_renderFrame (forget_drawings r) = r_renderFrame r"
  "r_layouts (forget_drawings r) = r_layouts r" "r_canvas (forget_drawings r) = r_canvas r" "r_clientWidth (forget_drawings r) = r_clientWidth r"
  "r_clientHeight (forget_drawings r) = r_clientHeight r" "r_wakeLock (forget_drawings r) = r_wakeLock r" "r_pieceId (forget_drawings r) = r_pieceId r"
  by (simp_all add: forget_drawings_def)

lemma set_scrollTop_frame [simp]:
  "r_pages (set_scrollTop y r) = r_pages r" "r_currentPage (set_scrollTop y r) = r_currentPage r" "r_zoom (set_scrollTop y r) = r_zoom r"
  "r_loading (set_scrollTop y r) = r_loading r" "r_error (set_scrollTop y r) = r_error r" "r_mode (set_scrollTop y r) = r_mode r"
  "r_sent (set_scrollTop y r) = r_sent r" "r_pendingState (set_scrollTop y r) = r_pendingState r" "r_saving (set_scrollTop y r) = r_saving r"
  "r_saveInFlight (set_scrollTop y r) = r_saveInFlight r" "r_saveBlocked (set_scrollTop y r) = r_saveBlocked r" "r_wanted (set_scrollTop y r) = r_wanted r"
  "r_loadedPDFChecksum (set_scrollTop y r) = r_loadedPDFChecksum r" "r_destroyed (set_scrollTop y r) = r_destroyed r" "r_pageJob (set_scrollTop y r) = r_pageJob r"
  "r_pageRenderPending (set_scrollTop y r) = r_pageRenderPending r" "r_pageRenderInFlight (set_scrollTop y r) = r_pageRenderInFlight r" "r_renderedPage (set_scrollTop y r) = r_renderedPage r"
  "r_renderFrame (set_scrollTop y r) = r_renderFrame r" "r_layouts (set_scrollTop y r) = r_layouts r" "r_canvas (set_scrollTop y r) = r_canvas r"
  "r_clientWidth (set_scrollTop y r) = r_clientWidth r" "r_clientHeight (set_scrollTop y r) = r_clientHeight r" "r_renderGeneration (set_scrollTop y r) = r_renderGeneration r"
  "r_wakeLock (set_scrollTop y r) = r_wakeLock r" "r_pieceId (set_scrollTop y r) = r_pieceId r"
  by (simp_all add: set_scrollTop_def)

lemma offerControls_frame [simp]:
  "r_pages (offerControls r) = r_pages r" "r_currentPage (offerControls r) = r_currentPage r" "r_zoom (offerControls r) = r_zoom r"
  "r_loading (offerControls r) = r_loading r" "r_error (offerControls r) = r_error r" "r_mode (offerControls r) = r_mode r"
  "r_sent (offerControls r) = r_sent r" "r_pendingState (offerControls r) = r_pendingState r" "r_saving (offerControls r) = r_saving r"
  "r_saveInFlight (offerControls r) = r_saveInFlight r" "r_saveBlocked (offerControls r) = r_saveBlocked r" "r_wanted (offerControls r) = r_wanted r"
  "r_loadedPDFChecksum (offerControls r) = r_loadedPDFChecksum r" "r_destroyed (offerControls r) = r_destroyed r" "r_pageJob (offerControls r) = r_pageJob r"
  "r_pageRenderPending (offerControls r) = r_pageRenderPending r" "r_pageRenderInFlight (offerControls r) = r_pageRenderInFlight r" "r_renderedPage (offerControls r) = r_renderedPage r"
  "r_renderFrame (offerControls r) = r_renderFrame r" "r_layouts (offerControls r) = r_layouts r" "r_canvas (offerControls r) = r_canvas r"
  "r_clientWidth (offerControls r) = r_clientWidth r" "r_clientHeight (offerControls r) = r_clientHeight r" "r_renderGeneration (offerControls r) = r_renderGeneration r"
  "r_wakeLock (offerControls r) = r_wakeLock r" "r_pieceId (offerControls r) = r_pieceId r"
  by (simp_all add: offerControls_def)

lemma scheduleHide_frame [simp]:
  "r_pages (scheduleHide r) = r_pages r" "r_currentPage (scheduleHide r) = r_currentPage r" "r_zoom (scheduleHide r) = r_zoom r"
  "r_loading (scheduleHide r) = r_loading r" "r_error (scheduleHide r) = r_error r" "r_mode (scheduleHide r) = r_mode r"
  "r_sent (scheduleHide r) = r_sent r" "r_pendingState (scheduleHide r) = r_pendingState r" "r_saving (scheduleHide r) = r_saving r"
  "r_saveInFlight (scheduleHide r) = r_saveInFlight r" "r_saveBlocked (scheduleHide r) = r_saveBlocked r" "r_wanted (scheduleHide r) = r_wanted r"
  "r_loadedPDFChecksum (scheduleHide r) = r_loadedPDFChecksum r" "r_destroyed (scheduleHide r) = r_destroyed r" "r_pageJob (scheduleHide r) = r_pageJob r"
  "r_pageRenderPending (scheduleHide r) = r_pageRenderPending r" "r_pageRenderInFlight (scheduleHide r) = r_pageRenderInFlight r" "r_renderedPage (scheduleHide r) = r_renderedPage r"
  "r_renderFrame (scheduleHide r) = r_renderFrame r" "r_layouts (scheduleHide r) = r_layouts r" "r_canvas (scheduleHide r) = r_canvas r"
  "r_clientWidth (scheduleHide r) = r_clientWidth r" "r_clientHeight (scheduleHide r) = r_clientHeight r" "r_renderGeneration (scheduleHide r) = r_renderGeneration r"
  "r_wakeLock (scheduleHide r) = r_wakeLock r" "r_pieceId (scheduleHide r) = r_pieceId r"
  by (simp_all add: scheduleHide_def)

lemma flush_frame [simp]:
  "r_pages (flushReaderStateSave r) = r_pages r" "r_currentPage (flushReaderStateSave r) = r_currentPage r" "r_zoom (flushReaderStateSave r) = r_zoom r"
  "r_loading (flushReaderStateSave r) = r_loading r" "r_error (flushReaderStateSave r) = r_error r" "r_mode (flushReaderStateSave r) = r_mode r"
  "r_saveBlocked (flushReaderStateSave r) = r_saveBlocked r" "r_wanted (flushReaderStateSave r) = r_wanted r" "r_loadedPDFChecksum (flushReaderStateSave r) = r_loadedPDFChecksum r"
  "r_destroyed (flushReaderStateSave r) = r_destroyed r" "r_pageJob (flushReaderStateSave r) = r_pageJob r" "r_pageRenderPending (flushReaderStateSave r) = r_pageRenderPending r"
  "r_pageRenderInFlight (flushReaderStateSave r) = r_pageRenderInFlight r" "r_renderedPage (flushReaderStateSave r) = r_renderedPage r" "r_renderFrame (flushReaderStateSave r) = r_renderFrame r"
  "r_layouts (flushReaderStateSave r) = r_layouts r" "r_canvas (flushReaderStateSave r) = r_canvas r" "r_clientWidth (flushReaderStateSave r) = r_clientWidth r"
  "r_clientHeight (flushReaderStateSave r) = r_clientHeight r" "r_renderGeneration (flushReaderStateSave r) = r_renderGeneration r" "r_wakeLock (flushReaderStateSave r) = r_wakeLock r"
  "r_pieceId (flushReaderStateSave r) = r_pieceId r"
  by (simp_all add: flushReaderStateSave_def split: option.split)

lemma saveNow_frame [simp]:
  "r_pages (saveNow r) = r_pages r" "r_currentPage (saveNow r) = r_currentPage r" "r_zoom (saveNow r) = r_zoom r"
  "r_loading (saveNow r) = r_loading r" "r_error (saveNow r) = r_error r" "r_mode (saveNow r) = r_mode r"
  "r_saveBlocked (saveNow r) = r_saveBlocked r" "r_loadedPDFChecksum (saveNow r) = r_loadedPDFChecksum r" "r_destroyed (saveNow r) = r_destroyed r"
  "r_pageJob (saveNow r) = r_pageJob r" "r_pageRenderPending (saveNow r) = r_pageRenderPending r" "r_pageRenderInFlight (saveNow r) = r_pageRenderInFlight r"
  "r_renderedPage (saveNow r) = r_renderedPage r" "r_renderFrame (saveNow r) = r_renderFrame r" "r_layouts (saveNow r) = r_layouts r"
  "r_canvas (saveNow r) = r_canvas r" "r_clientWidth (saveNow r) = r_clientWidth r" "r_clientHeight (saveNow r) = r_clientHeight r"
  "r_renderGeneration (saveNow r) = r_renderGeneration r" "r_wakeLock (saveNow r) = r_wakeLock r" "r_pieceId (saveNow r) = r_pieceId r"
  by (simp_all add: saveNow_def)

lemma updateCurrentPage_frame [simp]:
  "r_pages (updateCurrentPage top_edge tops r) = r_pages r" "r_zoom (updateCurrentPage top_edge tops r) = r_zoom r" "r_loading (updateCurrentPage top_edge tops r) = r_loading r"
  "r_error (updateCurrentPage top_edge tops r) = r_error r" "r_mode (updateCurrentPage top_edge tops r) = r_mode r" "r_sent (updateCurrentPage top_edge tops r) = r_sent r"
  "r_pendingState (updateCurrentPage top_edge tops r) = r_pendingState r" "r_saving (updateCurrentPage top_edge tops r) = r_saving r" "r_saveInFlight (updateCurrentPage top_edge tops r) = r_saveInFlight r"
  "r_saveBlocked (updateCurrentPage top_edge tops r) = r_saveBlocked r" "r_wanted (updateCurrentPage top_edge tops r) = r_wanted r" "r_loadedPDFChecksum (updateCurrentPage top_edge tops r) = r_loadedPDFChecksum r"
  "r_destroyed (updateCurrentPage top_edge tops r) = r_destroyed r" "r_pageJob (updateCurrentPage top_edge tops r) = r_pageJob r" "r_pageRenderPending (updateCurrentPage top_edge tops r) = r_pageRenderPending r"
  "r_pageRenderInFlight (updateCurrentPage top_edge tops r) = r_pageRenderInFlight r" "r_renderedPage (updateCurrentPage top_edge tops r) = r_renderedPage r" "r_renderFrame (updateCurrentPage top_edge tops r) = r_renderFrame r"
  "r_layouts (updateCurrentPage top_edge tops r) = r_layouts r" "r_canvas (updateCurrentPage top_edge tops r) = r_canvas r" "r_clientWidth (updateCurrentPage top_edge tops r) = r_clientWidth r"
  "r_clientHeight (updateCurrentPage top_edge tops r) = r_clientHeight r" "r_renderGeneration (updateCurrentPage top_edge tops r) = r_renderGeneration r" "r_wakeLock (updateCurrentPage top_edge tops r) = r_wakeLock r"
  "r_pieceId (updateCurrentPage top_edge tops r) = r_pieceId r"
  by (simp_all add: updateCurrentPage_def)

lemma scrollToPage_frame [simp]:
  "r_pages (scrollToPage offsets page r) = r_pages r" "r_currentPage (scrollToPage offsets page r) = r_currentPage r" "r_zoom (scrollToPage offsets page r) = r_zoom r"
  "r_loading (scrollToPage offsets page r) = r_loading r" "r_error (scrollToPage offsets page r) = r_error r" "r_mode (scrollToPage offsets page r) = r_mode r"
  "r_sent (scrollToPage offsets page r) = r_sent r" "r_pendingState (scrollToPage offsets page r) = r_pendingState r" "r_saving (scrollToPage offsets page r) = r_saving r"
  "r_saveInFlight (scrollToPage offsets page r) = r_saveInFlight r" "r_saveBlocked (scrollToPage offsets page r) = r_saveBlocked r" "r_wanted (scrollToPage offsets page r) = r_wanted r"
  "r_loadedPDFChecksum (scrollToPage offsets page r) = r_loadedPDFChecksum r" "r_destroyed (scrollToPage offsets page r) = r_destroyed r" "r_pageJob (scrollToPage offsets page r) = r_pageJob r"
  "r_pageRenderPending (scrollToPage offsets page r) = r_pageRenderPending r" "r_pageRenderInFlight (scrollToPage offsets page r) = r_pageRenderInFlight r" "r_renderedPage (scrollToPage offsets page r) = r_renderedPage r"
  "r_renderFrame (scrollToPage offsets page r) = r_renderFrame r" "r_layouts (scrollToPage offsets page r) = r_layouts r" "r_canvas (scrollToPage offsets page r) = r_canvas r"
  "r_clientWidth (scrollToPage offsets page r) = r_clientWidth r" "r_clientHeight (scrollToPage offsets page r) = r_clientHeight r" "r_renderGeneration (scrollToPage offsets page r) = r_renderGeneration r"
  "r_wakeLock (scrollToPage offsets page r) = r_wakeLock r" "r_pieceId (scrollToPage offsets page r) = r_pieceId r"
  by (simp_all add: scrollToPage_def)

lemma settle_request_frame [simp]:
  "r_pages (settle_request request r) = r_pages r" "r_currentPage (settle_request request r) = r_currentPage r" "r_zoom (settle_request request r) = r_zoom r"
  "r_loading (settle_request request r) = r_loading r" "r_error (settle_request request r) = r_error r" "r_mode (settle_request request r) = r_mode r"
  "r_sent (settle_request request r) = r_sent r" "r_pendingState (settle_request request r) = r_pendingState r" "r_saving (settle_request request r) = r_saving r"
  "r_saveInFlight (settle_request request r) = r_saveInFlight r" "r_saveBlocked (settle_request request r) = r_saveBlocked r" "r_wanted (settle_request request r) = r_wanted r"
  "r_loadedPDFChecksum (settle_request request r) = r_loadedPDFChecksum r" "r_destroyed (settle_request request r) = r_destroyed r" "r_pageJob (settle_request request r) = r_pageJob r"
  "r_pageRenderPending (settle_request request r) = r_pageRenderPending r" "r_pageRenderInFlight (settle_request request r) = r_pageRenderInFlight r" "r_renderedPage (settle_request request r) = r_renderedPage r"
  "r_renderFrame (settle_request request r) = r_renderFrame r" "r_layouts (settle_request request r) = r_layouts r" "r_canvas (settle_request request r) = r_canvas r"
  "r_clientWidth (settle_request request r) = r_clientWidth r" "r_clientHeight (settle_request request r) = r_clientHeight r" "r_renderGeneration (settle_request request r) = r_renderGeneration r"
  "r_wakeLock (settle_request request r) = r_wakeLock r" "r_pieceId (settle_request request r) = r_pieceId r"
  by (simp_all add: settle_request_def)

lemma render_scroll_page_frame [simp]:
  "r_pages (render_scroll_page stage index page r) = r_pages r" "r_currentPage (render_scroll_page stage index page r) = r_currentPage r" "r_zoom (render_scroll_page stage index page r) = r_zoom r"
  "r_loading (render_scroll_page stage index page r) = r_loading r" "r_error (render_scroll_page stage index page r) = r_error r" "r_mode (render_scroll_page stage index page r) = r_mode r"
  "r_sent (render_scroll_page stage index page r) = r_sent r" "r_pendingState (render_scroll_page stage index page r) = r_pendingState r" "r_saving (render_scroll_page stage index page r) = r_saving r"
  "r_saveInFlight (render_scroll_page stage index page r) = r_saveInFlight r" "r_saveBlocked (render_scroll_page stage index page r) = r_saveBlocked r" "r_wanted (render_scroll_page stage index page r) = r_wanted r"
  "r_loadedPDFChecksum (render_scroll_page stage index page r) = r_loadedPDFChecksum r" "r_destroyed (render_scroll_page stage index page r) = r_destroyed r" "r_pageJob (render_scroll_page stage index page r) = r_pageJob r"
  "r_pageRenderPending (render_scroll_page stage index page r) = r_pageRenderPending r" "r_pageRenderInFlight (render_scroll_page stage index page r) = r_pageRenderInFlight r" "r_renderedPage (render_scroll_page stage index page r) = r_renderedPage r"
  "r_renderFrame (render_scroll_page stage index page r) = r_renderFrame r" "r_layouts (render_scroll_page stage index page r) = r_layouts r" "r_canvas (render_scroll_page stage index page r) = r_canvas r"
  "r_clientWidth (render_scroll_page stage index page r) = r_clientWidth r" "r_clientHeight (render_scroll_page stage index page r) = r_clientHeight r" "r_renderGeneration (render_scroll_page stage index page r) = r_renderGeneration r"
  "r_wakeLock (render_scroll_page stage index page r) = r_wakeLock r" "r_pieceId (render_scroll_page stage index page r) = r_pieceId r"
  by (simp_all add: render_scroll_page_def Let_def split: option.split)

lemma scroll_failed_frame [simp]:
  "r_pages (scroll_failed index request r) = r_pages r" "r_currentPage (scroll_failed index request r) = r_currentPage r" "r_zoom (scroll_failed index request r) = r_zoom r"
  "r_loading (scroll_failed index request r) = r_loading r" "r_error (scroll_failed index request r) = r_error r" "r_mode (scroll_failed index request r) = r_mode r"
  "r_sent (scroll_failed index request r) = r_sent r" "r_pendingState (scroll_failed index request r) = r_pendingState r" "r_saving (scroll_failed index request r) = r_saving r"
  "r_saveInFlight (scroll_failed index request r) = r_saveInFlight r" "r_saveBlocked (scroll_failed index request r) = r_saveBlocked r" "r_wanted (scroll_failed index request r) = r_wanted r"
  "r_loadedPDFChecksum (scroll_failed index request r) = r_loadedPDFChecksum r" "r_destroyed (scroll_failed index request r) = r_destroyed r" "r_pageJob (scroll_failed index request r) = r_pageJob r"
  "r_pageRenderPending (scroll_failed index request r) = r_pageRenderPending r" "r_pageRenderInFlight (scroll_failed index request r) = r_pageRenderInFlight r" "r_renderedPage (scroll_failed index request r) = r_renderedPage r"
  "r_renderFrame (scroll_failed index request r) = r_renderFrame r" "r_layouts (scroll_failed index request r) = r_layouts r" "r_canvas (scroll_failed index request r) = r_canvas r"
  "r_clientWidth (scroll_failed index request r) = r_clientWidth r" "r_clientHeight (scroll_failed index request r) = r_clientHeight r" "r_renderGeneration (scroll_failed index request r) = r_renderGeneration r"
  "r_wakeLock (scroll_failed index request r) = r_wakeLock r" "r_pieceId (scroll_failed index request r) = r_pieceId r"
  by (simp_all add: scroll_failed_def Let_def)

lemma scroll_rendered_frame [simp]:
  "r_pages (snd (scroll_rendered stage page same_page index request r)) = r_pages r" "r_currentPage (snd (scroll_rendered stage page same_page index request r)) = r_currentPage r" "r_zoom (snd (scroll_rendered stage page same_page index request r)) = r_zoom r"
  "r_loading (snd (scroll_rendered stage page same_page index request r)) = r_loading r" "r_error (snd (scroll_rendered stage page same_page index request r)) = r_error r" "r_mode (snd (scroll_rendered stage page same_page index request r)) = r_mode r"
  "r_sent (snd (scroll_rendered stage page same_page index request r)) = r_sent r" "r_pendingState (snd (scroll_rendered stage page same_page index request r)) = r_pendingState r" "r_saving (snd (scroll_rendered stage page same_page index request r)) = r_saving r"
  "r_saveInFlight (snd (scroll_rendered stage page same_page index request r)) = r_saveInFlight r" "r_saveBlocked (snd (scroll_rendered stage page same_page index request r)) = r_saveBlocked r" "r_wanted (snd (scroll_rendered stage page same_page index request r)) = r_wanted r"
  "r_loadedPDFChecksum (snd (scroll_rendered stage page same_page index request r)) = r_loadedPDFChecksum r" "r_destroyed (snd (scroll_rendered stage page same_page index request r)) = r_destroyed r" "r_pageJob (snd (scroll_rendered stage page same_page index request r)) = r_pageJob r"
  "r_pageRenderPending (snd (scroll_rendered stage page same_page index request r)) = r_pageRenderPending r" "r_pageRenderInFlight (snd (scroll_rendered stage page same_page index request r)) = r_pageRenderInFlight r" "r_renderedPage (snd (scroll_rendered stage page same_page index request r)) = r_renderedPage r"
  "r_renderFrame (snd (scroll_rendered stage page same_page index request r)) = r_renderFrame r" "r_layouts (snd (scroll_rendered stage page same_page index request r)) = r_layouts r" "r_canvas (snd (scroll_rendered stage page same_page index request r)) = r_canvas r"
  "r_clientWidth (snd (scroll_rendered stage page same_page index request r)) = r_clientWidth r" "r_clientHeight (snd (scroll_rendered stage page same_page index request r)) = r_clientHeight r" "r_renderGeneration (snd (scroll_rendered stage page same_page index request r)) = r_renderGeneration r"
  "r_wakeLock (snd (scroll_rendered stage page same_page index request r)) = r_wakeLock r" "r_pieceId (snd (scroll_rendered stage page same_page index request r)) = r_pieceId r"
  by (simp_all add: scroll_rendered_def Let_def)

lemma fold_frame:
  assumes "\<And>x r. f (g x r) = f r"
  shows "f (fold g xs r) = f r"
  by (induction xs arbitrary: r) (simp_all add: assms)

lemma render_scroll_frame [simp]:
  "r_pages (render_scroll stage pages r) = r_pages r" "r_currentPage (render_scroll stage pages r) = r_currentPage r" "r_zoom (render_scroll stage pages r) = r_zoom r"
  "r_loading (render_scroll stage pages r) = r_loading r" "r_error (render_scroll stage pages r) = r_error r" "r_mode (render_scroll stage pages r) = r_mode r"
  "r_sent (render_scroll stage pages r) = r_sent r" "r_pendingState (render_scroll stage pages r) = r_pendingState r" "r_saving (render_scroll stage pages r) = r_saving r"
  "r_saveInFlight (render_scroll stage pages r) = r_saveInFlight r" "r_saveBlocked (render_scroll stage pages r) = r_saveBlocked r" "r_wanted (render_scroll stage pages r) = r_wanted r"
  "r_loadedPDFChecksum (render_scroll stage pages r) = r_loadedPDFChecksum r" "r_destroyed (render_scroll stage pages r) = r_destroyed r" "r_pageJob (render_scroll stage pages r) = r_pageJob r"
  "r_pageRenderPending (render_scroll stage pages r) = r_pageRenderPending r" "r_pageRenderInFlight (render_scroll stage pages r) = r_pageRenderInFlight r" "r_renderedPage (render_scroll stage pages r) = r_renderedPage r"
  "r_renderFrame (render_scroll stage pages r) = r_renderFrame r" "r_layouts (render_scroll stage pages r) = r_layouts r" "r_canvas (render_scroll stage pages r) = r_canvas r"
  "r_clientWidth (render_scroll stage pages r) = r_clientWidth r" "r_clientHeight (render_scroll stage pages r) = r_clientHeight r" "r_renderGeneration (render_scroll stage pages r) = r_renderGeneration r"
  "r_wakeLock (render_scroll stage pages r) = r_wakeLock r" "r_pieceId (render_scroll stage pages r) = r_pieceId r"
  unfolding render_scroll_def by (auto intro!: fold_frame)

section \<open>The position\<close>

definition saved_ok :: "ReaderState \<Rightarrow> bool" where
  "saved_ok s \<longleftrightarrow> 1 \<le> rs_lastPage s \<and> 1 / 2 \<le> rs_zoom s \<and> rs_zoom s \<le> 5 / 2 \<and> rs_pdfChecksum s \<noteq> []"

definition place_ok :: "nat \<Rightarrow> int \<Rightarrow> real \<Rightarrow> bool \<Rightarrow> bool" where
  "place_ok n page zoom shown \<longleftrightarrow>
     (if n = 0 then 0 \<le> page \<and> page \<le> 1 else 1 \<le> page \<and> page \<le> int n) \<and>
     1 / 2 \<le> zoom \<and> zoom \<le> 5 / 2 \<and> (shown \<longrightarrow> 0 < n)"

definition shown :: "ReaderComponent \<Rightarrow> bool" where
  "shown r \<longleftrightarrow> \<not> r_loading r \<and> r_error r = []"

definition position_ok :: "ReaderComponent \<Rightarrow> bool" where
  "position_ok r \<longleftrightarrow> place_ok (r_pages r) (r_currentPage r) (r_zoom r) (shown r) \<and>
     list_all saved_ok (r_sent r) \<and> pred_option saved_ok (r_pendingState r)"

lemmas position_simps = position_ok_def shown_def

lemma place_ok_hidden: "place_ok n page zoom s \<Longrightarrow> place_ok n page zoom False"
  by (simp add: place_ok_def)

lemma place_ok_turn: "place_ok n page zoom s \<Longrightarrow> place_ok n (clamp 1 (int n) p) zoom s"
  by (auto simp: place_ok_def clamp_def)

lemma place_ok_zoom: "place_ok n page zoom s \<Longrightarrow> place_ok n page (clamp (1 / 2) (5 / 2) z) s"
  using clamp_bounds [of "1 / 2" "5 / 2" z] by (simp add: place_ok_def)

text \<open>What the position depends on.\<close>

definition core :: "ReaderComponent \<Rightarrow> nat \<times> int \<times> real \<times> bool \<times> jstring \<times> ReaderState list \<times> ReaderState option" where
  "core r = (r_pages r, r_currentPage r, r_zoom r, r_loading r, r_error r, r_sent r, r_pendingState r)"

lemma position_ok_core: "position_ok r \<Longrightarrow> core r' = core r \<Longrightarrow> position_ok r'"
  by (simp add: core_def position_simps)

lemma position_ok_flush: "position_ok r \<Longrightarrow> position_ok (flushReaderStateSave r)"
  by (auto simp: position_simps flushReaderStateSave_def split: option.split)

lemma position_ok_saveNow:
  assumes "position_ok r"
  shows "position_ok (saveNow r)"
proof (cases "r_pieceId r = [] \<or> r_loadedPDFChecksum r = [] \<or> r_loading r \<or> r_error r \<noteq> [] \<or> r_saveBlocked r")
  case False
  then have "saved_ok (current_position r)"
    using assms by (auto simp: position_simps place_ok_def saved_ok_def current_position_def)
  then have "position_ok (r\<lparr>r_saveTimer := False, r_saveCheckpointTimer := False,
      r_pendingState := Some (current_position r), r_wanted := r_wanted r @ [current_position r]\<rparr>)"
    using assms by (simp add: position_simps)
  then show ?thesis using False by (simp add: saveNow_def position_ok_flush)
qed (use assms in \<open>simp add: saveNow_def\<close>)

lemma position_ok_saveNow_core: "position_ok r \<Longrightarrow> core r' = core r \<Longrightarrow> position_ok (saveNow r')"
  by (rule position_ok_saveNow) (rule position_ok_core)

lemma closest_page:
  "fst (fold (\<lambda>(index, y) (closestPage, closestDistance).
      let distance = \<bar>y - stageTop - 24\<bar>
      in if closestDistance = None \<or> distance < the closestDistance
         then (int index + 1, Some distance) else (closestPage, closestDistance))
    (enumerate k tops) (p, d)) \<in> insert p {int k + 1 .. int (k + length tops)}"
proof (induction tops arbitrary: k p d)
  case (Cons y tops)
  show ?case
    using Cons.IH [of "Suc k" "int k + 1" "Some \<bar>y - stageTop - 24\<bar>"] Cons.IH [of "Suc k" p d]
    by (auto simp: Let_def)
qed simp

lemma place_ok_update:
  assumes "place_ok (r_pages r) (r_currentPage r) z s" and "length tops \<le> r_pages r"
  shows "place_ok (r_pages r) (r_currentPage (updateCurrentPage stageTop tops r)) z s"
  using closest_page [of stageTop 0 tops "r_currentPage r" None] assms
  by (auto simp: place_ok_def updateCurrentPage_def)

lemma position_ok_turnPage: "position_ok r \<Longrightarrow> position_ok (turnPage delta r)"
  unfolding turnPage_def Let_def by (auto simp: position_simps intro: place_ok_turn)

lemma position_ok_togglePause: "position_ok r \<Longrightarrow> position_ok (togglePause r)"
  unfolding togglePause_def by (auto simp: core_def elim!: position_ok_saveNow_core)

lemma position_ok_tick: "position_ok r \<Longrightarrow> position_ok (tick t r)"
  unfolding tick_def Let_def by (auto simp: core_def elim!: position_ok_saveNow_core elim: position_ok_core)

lemma position_ok_save_failed: "position_ok r \<Longrightarrow> position_ok (save_failed conflict r)"
proof (cases "r_saving r")
  case (Some state)
  assume ok: "position_ok r"
  have "position_ok (finish_save r')" if "position_ok r'" for r'
    unfolding finish_save_def using that by (intro position_ok_flush) (auto simp: core_def elim!: position_ok_core)
  moreover have "position_ok ((syncAutoScroll (r\<lparr>r_saveBlocked := True, r_pendingState := None, r_wanted := r_sent r,
      r_paused := True\<rparr>))\<lparr>r_error := conflict_message\<rparr>)"
    using ok by (auto simp: position_simps conflict_message_def js_def intro: place_ok_hidden)
  ultimately show ?thesis using ok Some by (simp add: save_failed_def)
qed (simp add: save_failed_def)

lemma position_ok_step:
  assumes "position_ok r" and "reader_enabled r e"
  shows "position_ok (reader_step upper e r)"
proof (cases e)
  case (Fetched broken piece state)
  then show ?thesis using assms
    by (auto simp: reader_enabled_def load_fetched_def fail_load_def position_simps split: option.split
        intro: place_ok_hidden place_ok_zoom)
next
  case (FetchFailed broken e)
  then show ?thesis using assms by (auto simp: fail_load_def position_simps intro: place_ok_hidden)
next
  case (PdfOpened n state)
  then show ?thesis using assms
    by (auto simp: reader_enabled_def load_opened_def position_simps place_ok_def clamp_def)
next
  case (LoadLaidOut state)
  then show ?thesis using assms by (auto simp: load_laid_out_def Let_def core_def elim!: position_ok_core)
next
  case (Reload throws)
  then show ?thesis using assms by (auto simp: reload_def load_started_def position_simps intro: place_ok_hidden)
next
  case (SetMode stageTop tops mode)
  then show ?thesis using assms by (simp add: reader_enabled_def setMode_def position_simps place_ok_update)
next
  case (ModeLaidOut offsets mode)
  then show ?thesis using assms
    by (auto simp: mode_laid_out_def Let_def core_def elim!: position_ok_saveNow_core)
next
  case (ChangeZoom delta)
  then show ?thesis using assms by (auto simp: changeZoom_def Let_def position_simps intro: place_ok_zoom)
next
  case (ScrollFrame stageTop tops)
  then show ?thesis using assms place_ok_update [of "r\<lparr>r_scrollFrame := False\<rparr>"]
    by (simp add: reader_enabled_def scroll_frame_def position_simps)
next
  case (PointerUp p)
  then show ?thesis using assms
    by (auto simp: onPointerUp_def Let_def core_def split: option.split intro!: position_ok_turnPage elim: position_ok_core)
next
  case (ScoreTap on_controls position)
  then show ?thesis using assms
    by (auto simp: onScoreTap_def Let_def core_def intro!: position_ok_turnPage position_ok_togglePause
        elim: position_ok_core)
next
  case (Keydown in_field key)
  then show ?thesis using assms
    by (auto simp: onKeydown_def Let_def core_def intro!: position_ok_turnPage position_ok_togglePause
        elim: position_ok_core)
next
  case (PageDrawn drawn)
  then show ?thesis using assms
    by (auto simp: page_rendered_def Let_def core_def split: option.split elim!: position_ok_core)
next
  case (RenderFrame stage pages)
  then show ?thesis using assms
    by (auto simp: renderVisible_def render_page_def Let_def core_def elim!: position_ok_core)
next
  case SaveCompleted
  then show ?thesis using assms
    by (auto simp: save_completed_def finish_save_def core_def intro!: position_ok_flush elim: position_ok_core)
next
  case (Leave broken)
  have "position_ok (saveNow (r\<lparr>r_destroyed := True, r_wakeLock := stop broken (r_wakeLock r)\<rparr>))"
    using assms by (intro position_ok_saveNow) (auto simp: core_def elim!: position_ok_core)
  then show ?thesis using Leave by (auto simp: ngOnDestroy_def core_def elim!: position_ok_core)
next
  case (Hidden hidden)
  then show ?thesis using assms by (simp add: onReaderVisibilityChange_def position_ok_saveNow)
qed (use assms in \<open>auto simp: position_ok_turnPage position_ok_togglePause position_ok_tick position_ok_saveNow
    position_ok_save_failed core_def changeSpeed_def onStageScroll_def onPointerDown_def
    onPointerMove_def onChromePointerMove_def trackPointerMovement_def onPointerCancel_def showControls_def
    onChromeActivity_def hide_fired_def resized_def Let_def split: prod.split elim!: position_ok_core\<close>)

interpretation reader_position: guarded_machine reader_enabled "reader_step upper" position_ok for upper
  by unfold_locales (rule position_ok_step)

section \<open>The queue of saves\<close>

definition queue_core ::
  "ReaderComponent \<Rightarrow> ReaderState option \<times> bool \<times> ReaderState list \<times> ReaderState list \<times> ReaderState option \<times> bool" where
  "queue_core r = (r_saving r, r_saveInFlight r, r_sent r, r_wanted r, r_pendingState r, r_saveBlocked r)"

definition queue_ok :: "ReaderComponent \<Rightarrow> bool" where
  "queue_ok r \<longleftrightarrow>
     (r_saveInFlight r \<longleftrightarrow> r_saving r \<noteq> None) \<and>
     (case r_saving r of None \<Rightarrow> True | Some s \<Rightarrow> r_sent r \<noteq> [] \<and> last (r_sent r) = s) \<and>
     (case r_pendingState r of
        None \<Rightarrow> subseq (r_sent r) (r_wanted r) \<and>
          (r_wanted r = [] \<or> r_sent r \<noteq> [] \<and> last (r_sent r) = last (r_wanted r))
      | Some p \<Rightarrow> r_saveInFlight r \<and> \<not> r_saveBlocked r \<and> (\<exists>w. r_wanted r = w @ [p] \<and> subseq (r_sent r) w))"

lemma queue_ok_core: "queue_ok r \<Longrightarrow> queue_core r' = queue_core r \<Longrightarrow> queue_ok r'"
  by (auto simp: queue_core_def queue_ok_def split: option.splits)

lemma queue_in_order: "queue_ok r \<Longrightarrow> subseq (r_sent r) (r_wanted r)"
  by (auto simp: queue_ok_def split: option.splits)

text \<open>The next position is sent as soon as nothing is under way.\<close>

lemma queue_ok_flush:
  assumes "r_pendingState r = Some p \<Longrightarrow> r_wanted r = w @ [p] \<and> subseq (r_sent r) w"
    and "r_saveInFlight r \<longleftrightarrow> r_saving r \<noteq> None"
    and "case r_saving r of None \<Rightarrow> True | Some s \<Rightarrow> r_sent r \<noteq> [] \<and> last (r_sent r) = s"
    and "r_pendingState r = None \<Longrightarrow> queue_ok r" and "r_pendingState r = None \<or> r_pendingState r = Some p"
    and "r_pendingState r \<noteq> None \<Longrightarrow> \<not> r_saveBlocked r"
  shows "queue_ok (flushReaderStateSave r)"
proof (cases "r_pendingState r")
  case None
  then show ?thesis using assms(4) by (simp add: flushReaderStateSave_def)
next
  case (Some q)
  then have "q = p" using assms(5) by simp
  then show ?thesis using assms(1-3,6) Some
    by (auto simp: flushReaderStateSave_def queue_ok_def)
qed

lemma queue_ok_saveNow: "queue_ok r \<Longrightarrow> queue_ok (saveNow r)"
proof -
  assume ok: "queue_ok r"
  let ?r = "r\<lparr>r_saveTimer := False, r_saveCheckpointTimer := False,
      r_pendingState := Some (current_position r), r_wanted := r_wanted r @ [current_position r]\<rparr>"
  have "queue_ok (flushReaderStateSave ?r)" if "\<not> r_saveBlocked r"
    using ok queue_in_order [OF ok] that
    by (intro queue_ok_flush [where p = "current_position r" and w = "r_wanted r"]) (auto simp: queue_ok_def)
  then show ?thesis using ok by (simp add: saveNow_def)
qed

lemma queue_ok_saveNow_core: "queue_ok r \<Longrightarrow> queue_core r' = queue_core r \<Longrightarrow> queue_ok (saveNow r')"
  by (rule queue_ok_saveNow) (rule queue_ok_core)

lemma queue_ok_finish: "queue_ok r \<Longrightarrow> queue_ok (finish_save r)"
proof (cases "r_pendingState r")
  case (Some p)
  assume ok: "queue_ok r"
  then obtain w where "r_wanted r = w @ [p]" "subseq (r_sent r) w" "\<not> r_saveBlocked r"
    using Some by (auto simp: queue_ok_def)
  then show ?thesis unfolding finish_save_def using Some
    by (intro queue_ok_flush [where p = p and w = w]) auto
qed (simp add: finish_save_def flushReaderStateSave_def queue_ok_def)

lemma queue_ok_save_failed: "queue_ok r \<Longrightarrow> queue_ok (save_failed conflict r)"
proof (cases "r_saving r")
  case (Some state)
  assume ok: "queue_ok r"
  then have "queue_ok ((syncAutoScroll (r\<lparr>r_saveBlocked := True, r_pendingState := None, r_wanted := r_sent r,
      r_paused := True\<rparr>))\<lparr>r_error := conflict_message\<rparr>)"
    by (auto simp: queue_ok_def split: option.splits)
  then show ?thesis using ok Some queue_ok_finish by (simp add: save_failed_def)
qed (simp add: save_failed_def)

lemma queue_ok_turnPage: "queue_ok r \<Longrightarrow> queue_ok (turnPage delta r)"
  unfolding turnPage_def Let_def by (auto simp: queue_core_def elim!: queue_ok_core)

lemma queue_ok_togglePause: "queue_ok r \<Longrightarrow> queue_ok (togglePause r)"
  unfolding togglePause_def by (auto simp: queue_core_def elim!: queue_ok_saveNow_core)

lemma queue_ok_tick: "queue_ok r \<Longrightarrow> queue_ok (tick t r)"
  unfolding tick_def Let_def by (auto simp: queue_core_def elim!: queue_ok_saveNow_core elim: queue_ok_core)

lemma queue_ok_step: "queue_ok r \<Longrightarrow> queue_ok (reader_step upper e r)"
proof (cases e)
  case (Reload throws)
  assume "queue_ok r"
  then show ?thesis using Reload
    by (auto simp: reload_def load_started_def queue_ok_def split: option.splits)
next
  case (ModeLaidOut offsets mode)
  assume "queue_ok r"
  then show ?thesis using ModeLaidOut
    by (auto simp: mode_laid_out_def Let_def queue_core_def elim!: queue_ok_saveNow_core)
next
  case (Leave broken)
  assume "queue_ok r"
  then have "queue_ok (saveNow (r\<lparr>r_destroyed := True, r_wakeLock := stop broken (r_wakeLock r)\<rparr>))"
    by (rule queue_ok_saveNow_core) (simp add: queue_core_def)
  then show ?thesis using Leave by (auto simp: ngOnDestroy_def queue_core_def elim!: queue_ok_core)
next
  case SaveCompleted
  assume "queue_ok r"
  then show ?thesis using SaveCompleted by (simp add: save_completed_def queue_ok_finish)
next
  case (PointerUp p)
  assume "queue_ok r"
  then show ?thesis using PointerUp
    by (auto simp: onPointerUp_def Let_def queue_core_def split: option.split intro!: queue_ok_turnPage elim: queue_ok_core)
next
  case (ScoreTap on_controls position)
  assume "queue_ok r"
  then show ?thesis using ScoreTap
    by (auto simp: onScoreTap_def Let_def queue_core_def intro!: queue_ok_turnPage queue_ok_togglePause
        elim: queue_ok_core)
next
  case (Keydown in_field key)
  assume "queue_ok r"
  then show ?thesis using Keydown
    by (auto simp: onKeydown_def Let_def queue_core_def intro!: queue_ok_turnPage queue_ok_togglePause
        elim: queue_ok_core)
qed (auto simp: queue_ok_turnPage queue_ok_togglePause queue_ok_tick queue_ok_saveNow queue_ok_save_failed
    queue_core_def load_fetched_def fail_load_def load_opened_def load_laid_out_def setMode_def changeZoom_def
    scroll_frame_def page_rendered_def renderVisible_def render_page_def onReaderVisibilityChange_def
    changeSpeed_def onStageScroll_def onPointerDown_def onPointerMove_def onChromePointerMove_def
    trackPointerMovement_def onPointerCancel_def showControls_def onChromeActivity_def hide_fired_def
    resized_def Let_def split: prod.split option.split elim!: queue_ok_core)

interpretation reader_queue: latest_wins reader_enabled "reader_step upper" queue_ok r_wanted r_sent
  "\<lambda>r. \<not> r_saveInFlight r" for upper
proof
  show "queue_ok (reader_step upper e r)" if "queue_ok r" for r e using that by (rule queue_ok_step)
  show "subseq (r_sent r) (r_wanted r)" if "queue_ok r" for r using that by (rule queue_in_order)
  show "r_wanted r = [] \<or> (r_sent r \<noteq> [] \<and> last (r_sent r) = last (r_wanted r))"
    if "queue_ok r" "\<not> r_saveInFlight r" for r
    using that by (auto simp: queue_ok_def split: option.splits)
qed

section \<open>The page on screen\<close>

text \<open>The drawing of the current page at its current size, and a drawing or frame that leads to it.\<close>

definition page_shown :: "ReaderComponent \<Rightarrow> bool" where
  "page_shown r \<longleftrightarrow> r_renderedPage r = Some (r_currentPage r, page_key r)"

definition page_coming :: "ReaderComponent \<Rightarrow> bool" where
  "page_coming r \<longleftrightarrow> r_renderFrame r \<or>
     (case r_pageJob r of None \<Rightarrow> False
      | Some (page, key, generation, canvas) \<Rightarrow> canvas = r_canvas r \<or> r_pageRenderPending r \<or>
          page \<noteq> r_currentPage r \<or> key \<noteq> page_key r \<or> generation \<noteq> r_renderGeneration r)"

definition page_wanted :: "ReaderComponent \<Rightarrow> bool" where
  "page_wanted r \<longleftrightarrow> r_mode r = PageMode \<and> shown r \<and> r_layouts r = 0 \<and> \<not> r_destroyed r"

definition page_ok :: "ReaderComponent \<Rightarrow> bool" where
  "page_ok r \<longleftrightarrow> (r_pageRenderInFlight r \<longleftrightarrow> r_pageJob r \<noteq> None) \<and>
     (page_wanted r \<longrightarrow> page_shown r \<or> page_coming r)"

definition page_core where
  "page_core r = (r_mode r, r_loading r, r_error r, r_layouts r, r_destroyed r, r_renderedPage r, r_currentPage r,
     page_key r, r_renderFrame r, r_pageJob r, r_canvas r, r_pageRenderPending r, r_renderGeneration r,
     r_pageRenderInFlight r)"

lemmas page_simps = page_ok_def page_wanted_def page_shown_def page_coming_def shown_def

lemma page_ok_core: "page_ok r \<Longrightarrow> page_core r' = page_core r \<Longrightarrow> page_ok r'"
  by (cases "r_pageJob r") (auto simp: page_core_def page_simps)

lemmas page_keys = page_key_def page_width_def page_height_def

lemma page_key_cong:
  "r_clientWidth r' = r_clientWidth r \<Longrightarrow> r_clientHeight r' = r_clientHeight r \<Longrightarrow> r_zoom r' = r_zoom r \<Longrightarrow>
    page_key r' = page_key r"
  by (simp add: page_key_def page_width_def page_height_def)

text \<open>A page whose frame is requested is on its way, whatever changed.\<close>

lemma page_ok_scheduled:
  "r_pageRenderInFlight r \<longleftrightarrow> r_pageJob r \<noteq> None \<Longrightarrow> page_ok (scheduleRender r)"
  by (simp add: page_simps scheduleRender_def)

lemma page_ok_saveNow: "page_ok r \<Longrightarrow> page_ok (saveNow r)"
  by (auto simp: page_core_def intro!: page_key_cong elim!: page_ok_core)

lemma page_ok_turnPage: "page_ok r \<Longrightarrow> page_ok (turnPage delta r)"
proof -
  assume ok: "page_ok r"
  have "page_ok (queueSave (scheduleRender (clearVisiblePage (r\<lparr>r_currentPage := p\<rparr>))))" for p
    by (rule page_ok_core [OF page_ok_scheduled [of "clearVisiblePage (r\<lparr>r_currentPage := p\<rparr>)"]])
       (use ok in \<open>auto simp: page_core_def page_ok_def intro!: page_key_cong\<close>)
  then show ?thesis using ok by (simp add: turnPage_def Let_def)
qed

lemma page_ok_togglePause: "page_ok r \<Longrightarrow> page_ok (togglePause r)"
  unfolding togglePause_def by (auto simp: page_core_def intro!: page_key_cong elim!: page_ok_core)

lemma page_ok_tick: "page_ok r \<Longrightarrow> page_ok (tick t r)"
  unfolding tick_def Let_def by (auto simp: page_core_def intro!: page_key_cong elim!: page_ok_core)

lemma page_ok_drawn: "page_ok r \<Longrightarrow> r_pageJob r \<noteq> None \<Longrightarrow> page_ok (page_rendered True r)"
proof -
  assume ok: "page_ok r" and "r_pageJob r \<noteq> None"
  then obtain p k g c where job: "r_pageJob r = Some (p, k, g, c)" by auto
  have key: "page_key (r\<lparr>r_renderedPage := x, r_pageJob := y, r_pageRenderInFlight := z\<rparr>) = page_key r"
    "page_key (r\<lparr>r_pageJob := y, r_pageRenderInFlight := z\<rparr>) = page_key r"
    "page_key (r\<lparr>r_renderedPage := x, r_pageJob := y, r_pageRenderInFlight := z, r_pageRenderPending := u\<rparr>) = page_key r"
    "page_key (r\<lparr>r_pageJob := y, r_pageRenderInFlight := z, r_pageRenderPending := u\<rparr>) = page_key r"
    "page_key (r\<lparr>r_renderedPage := x, r_pageJob := y, r_pageRenderInFlight := z, r_pageRenderPending := u,
      r_renderFrame := v\<rparr>) = page_key r"
    "page_key (r\<lparr>r_pageJob := y, r_pageRenderInFlight := z, r_pageRenderPending := u, r_renderFrame := v\<rparr>) = page_key r"
    for x y z u v
    by (rule page_key_cong; simp)+
  show ?thesis using ok job
    by (cases "r_pageRenderPending r"; simp add: page_rendered_def Let_def page_simps scheduleRender_def key) auto
qed

lemma page_ok_frame: "page_ok r \<Longrightarrow> page_ok (renderVisible True stage pages r)"
proof (cases "r_mode r")
  case PageMode
  assume ok: "page_ok r"
  have key: "page_key (r\<lparr>r_renderFrame := x\<rparr>) = page_key r"
    "page_key (r\<lparr>r_renderFrame := x, r_pageRenderPending := y\<rparr>) = page_key r" for x y
    by (rule page_key_cong; simp)+
  show ?thesis using ok PageMode
    by (cases "r_pageRenderInFlight r"; cases "r_pageJob r")
       (auto simp: renderVisible_def render_page_def Let_def page_simps key clearVisiblePage_def)
next
  case ScrollMode
  then show "page_ok r \<Longrightarrow> ?thesis" by (simp add: renderVisible_def page_simps)
qed

lemma page_ok_step:
  assumes "page_ok r" and "reader_enabled r e" and "e \<noteq> PageDrawn False"
  shows "page_ok (reader_step upper e r)"
proof (cases e)
  case (Fetched broken piece state)
  then show ?thesis using assms
    by (auto simp: reader_enabled_def load_fetched_def fail_load_def page_simps split: option.split)
next
  case (FetchFailed broken e)
  then show ?thesis using assms by (simp add: fail_load_def page_simps)
next
  case (PdfOpened n state)
  then show ?thesis using assms by (simp add: load_opened_def page_simps)
next
  case (LoadLaidOut state)
  have "page_ok (scheduleRender r')" if "r_pageJob r' = r_pageJob r" "r_pageRenderInFlight r' = r_pageRenderInFlight r" for r'
    using assms(1) that by (intro page_ok_scheduled) (simp add: page_ok_def)
  then have "page_ok (scheduleRender (if r_mode r = ScrollMode
      then set_scrollTop (max 0 (rs_scrollPosition state)) (r\<lparr>r_layouts := r_layouts r - 1\<rparr>)
      else r\<lparr>r_layouts := r_layouts r - 1\<rparr>))" by simp
  then have "page_ok (syncAutoScroll (scheduleRender (if r_mode r = ScrollMode
      then set_scrollTop (max 0 (rs_scrollPosition state)) (r\<lparr>r_layouts := r_layouts r - 1\<rparr>)
      else r\<lparr>r_layouts := r_layouts r - 1\<rparr>)))"
    by (rule page_ok_core) (simp add: page_core_def page_keys)
  then show ?thesis using LoadLaidOut by (simp add: load_laid_out_def Let_def split: if_splits)
next
  case (Reload throws)
  then show ?thesis using assms by (simp add: reload_def load_started_def page_simps)
next
  case (SetMode stageTop tops mode)
  then show ?thesis using assms by (simp add: setMode_def page_simps)
next
  case (ModeLaidOut offsets mode)
  have "page_ok (scheduleRender r')" if "r_pageJob r' = r_pageJob r" "r_pageRenderInFlight r' = r_pageRenderInFlight r" for r'
    using assms(1) that by (intro page_ok_scheduled) (simp add: page_ok_def)
  then have "page_ok (scheduleRender (if mode = ScrollMode
      then scrollToPage offsets (r_currentPage r) (r\<lparr>r_layouts := r_layouts r - 1\<rparr>)
      else r\<lparr>r_layouts := r_layouts r - 1\<rparr>))" by simp
  then have "page_ok (saveNow (syncAutoScroll (scheduleRender (if mode = ScrollMode
      then scrollToPage offsets (r_currentPage r) (r\<lparr>r_layouts := r_layouts r - 1\<rparr>)
      else r\<lparr>r_layouts := r_layouts r - 1\<rparr>))))"
    by (intro page_ok_saveNow, elim page_ok_core) (simp add: page_core_def page_keys)
  then show ?thesis using ModeLaidOut by (simp add: mode_laid_out_def Let_def split: if_splits)
next
  case (ChangeZoom delta)
  have "page_ok (queueSave (scheduleRender (forget_drawings (r\<lparr>r_zoom := z\<rparr>))))" for z
    by (rule page_ok_core [OF page_ok_scheduled [of "forget_drawings (r\<lparr>r_zoom := z\<rparr>)"]])
       (use assms(1) in \<open>simp_all add: page_core_def page_ok_def page_keys\<close>)
  then show ?thesis using assms(1) ChangeZoom by (simp add: changeZoom_def Let_def)
next
  case (ScrollFrame stageTop tops)
  then show ?thesis using assms(1)
    by (auto simp: scroll_frame_def page_ok_def [of r] intro!: page_ok_scheduled)
next
  case (Resized w h)
  then show ?thesis using assms(1) by (auto simp: resized_def page_ok_def [of r] intro!: page_ok_scheduled)
next
  case (CanvasChanged c)
  then show ?thesis using assms(1) by (auto simp: page_ok_def [of r] intro!: page_ok_scheduled)
next
  case (RenderFrame stage pages)
  then show ?thesis using assms(1) by (simp add: page_ok_frame)
next
  case (PageDrawn drawn)
  then show ?thesis using assms by (simp add: reader_enabled_def page_ok_drawn)
next
  case (SaveFailed conflict)
  have "conflict_message \<noteq> []" by (simp add: conflict_message_def js_def)
  then have "page_ok ((syncAutoScroll (r\<lparr>r_saveBlocked := True, r_pendingState := None, r_wanted := r_sent r,
      r_paused := True\<rparr>))\<lparr>r_error := conflict_message\<rparr>)"
    using assms(1) by (simp add: page_simps)
  moreover have "page_ok (finish_save r')" if "page_ok r'" for r'
    using that unfolding finish_save_def by (rule page_ok_core) (simp add: page_core_def page_keys)
  ultimately show ?thesis using assms(1) SaveFailed by (simp add: save_failed_def split: option.split)
next
  case SaveCompleted
  have "page_ok (finish_save r')" if "page_ok r'" for r'
    using that unfolding finish_save_def by (rule page_ok_core) (simp add: page_core_def page_keys)
  then show ?thesis using assms(1) SaveCompleted by (simp add: save_completed_def)
next
  case (Leave broken)
  then show ?thesis using assms(1) by (simp add: ngOnDestroy_def page_simps)
next
  case (PointerUp p)
  then show ?thesis using assms(1)
    by (auto simp: onPointerUp_def Let_def page_core_def page_keys split: option.split intro!: page_ok_turnPage
        elim: page_ok_core)
next
  case (ScoreTap on_controls position)
  then show ?thesis using assms(1)
    by (auto simp: onScoreTap_def Let_def page_core_def page_keys intro!: page_ok_turnPage page_ok_togglePause
        elim: page_ok_core)
next
  case (Keydown in_field key)
  then show ?thesis using assms(1)
    by (auto simp: onKeydown_def Let_def page_core_def page_keys intro!: page_ok_turnPage page_ok_togglePause
        elim: page_ok_core)
qed (use assms in \<open>auto simp: page_ok_turnPage page_ok_togglePause page_ok_tick page_ok_saveNow
    page_core_def page_keys onReaderVisibilityChange_def
    changeSpeed_def onStageScroll_def onPointerDown_def onPointerMove_def onChromePointerMove_def
    trackPointerMovement_def onPointerCancel_def showControls_def onChromeActivity_def hide_fired_def
    Let_def split: prod.split option.split elim!: page_ok_core\<close>)

definition drawing_works :: "ReaderComponent \<Rightarrow> reader_event \<Rightarrow> bool" where
  "drawing_works r e \<longleftrightarrow> reader_enabled r e \<and> e \<noteq> PageDrawn False"

interpretation reader_page: guarded_machine drawing_works "reader_step upper" page_ok for upper
  by unfold_locales (simp add: page_ok_step drawing_works_def)

end
