(* ===== verification/ReaderProps.thy ===== *)
theory ReaderProps
  imports ReaderInvariants
begin

text \<open>
  The properties of the reader page: where it is, what it shows and saves, how it scrolls by
  itself, and that it gives the wake lock back.
\<close>

section \<open>The wake lock of the page\<close>

definition lock_ok :: "ReaderComponent \<Rightarrow> bool" where
  "lock_ok r \<longleftrightarrow> wake_ok (r_wakeLock r) \<and> (r_destroyed r \<longrightarrow> \<not> wl_active (r_wakeLock r))"

lemma wake_step_active:
  "(case e of Start _ \<Rightarrow> False | Stop _ \<Rightarrow> False | _ \<Rightarrow> True) \<Longrightarrow> wl_active (wake_step e w) = wl_active w"
  by (cases e)
     (simp_all add: onVisibilityChange_def acquire_def releaseHeldLock_def invalidatePendingRequest_def releaseSilently_def
        removeSentinelListener_def acceptSentinel_def request_refused_def releaseListener_def Let_def split: option.split)

lemma stop_inactive: "\<not> wl_active (stop broken w)"
  by (simp add: stop_def releaseHeldLock_def invalidatePendingRequest_def releaseSilently_def
      removeSentinelListener_def Let_def split: option.split)

definition lock_core :: "ReaderComponent \<Rightarrow> ScreenWakeLock \<times> bool" where
  "lock_core r = (r_wakeLock r, r_destroyed r)"

lemma tick_lock: "lock_core (tick t r) = lock_core r"
  unfolding tick_def Let_def by (auto simp: lock_core_def)

text \<open>Only the loading, reloading and leaving of the page and the browser touch the lock.\<close>

definition touches_lock :: "reader_event \<Rightarrow> bool" where
  "touches_lock e \<longleftrightarrow> (case e of Fetched _ _ _ \<Rightarrow> True | FetchFailed _ _ \<Rightarrow> True | Reload _ \<Rightarrow> True
     | LockEvent _ \<Rightarrow> True | Leave _ \<Rightarrow> True | _ \<Rightarrow> False)"

lemma turnPage_lock [simp]: "r_wakeLock (turnPage delta r) = r_wakeLock r" "r_destroyed (turnPage delta r) = r_destroyed r"
  by (simp_all add: turnPage_def Let_def)

lemma togglePause_lock [simp]: "r_wakeLock (togglePause r) = r_wakeLock r" "r_destroyed (togglePause r) = r_destroyed r"
  by (simp_all add: togglePause_def)

lemma lock_core_step: "\<not> touches_lock e \<Longrightarrow> lock_core (reader_step upper e r) = lock_core r"
  by (cases e)
     (simp_all add: tick_lock touches_lock_def,
      simp_all add: lock_core_def load_opened_def load_laid_out_def setMode_def
      mode_laid_out_def changeZoom_def changeSpeed_def onStageScroll_def scroll_frame_def onPointerDown_def
      onPointerMove_def onChromePointerMove_def trackPointerMovement_def onPointerUp_def onPointerCancel_def
      onScoreTap_def onKeydown_def showControls_def
      onChromeActivity_def hide_fired_def onReaderVisibilityChange_def resized_def renderVisible_def render_page_def
      page_rendered_def save_completed_def save_failed_def finish_save_def Let_def split: option.split prod.split, auto)

lemma lock_ok_step:
  assumes "lock_ok r" and "reader_enabled r e"
  shows "lock_ok (reader_step upper e r)"
proof -
  have same: "lock_ok r'" if "lock_core r' = lock_core r" for r'
    using assms(1) that by (simp add: lock_ok_def lock_core_def)
  show ?thesis
  proof (cases "touches_lock e")
    case False
    then show ?thesis by (intro same lock_core_step)
  next
    case True
    then consider broken piece state where "e = Fetched broken piece state" | broken e' where "e = FetchFailed broken e'"
      | throws where "e = Reload throws" | l where "e = LockEvent l" | broken where "e = Leave broken"
      by (cases e) (auto simp: touches_lock_def)
    then show ?thesis
    proof cases
      case 1
      then show ?thesis using assms(1)
        by (auto simp: load_fetched_def fail_load_def lock_ok_def stop_ok stop_inactive split: option.split)
    next
      case 2
      then show ?thesis using assms(1) by (simp add: fail_load_def lock_ok_def stop_ok stop_inactive)
    next
      case 3
      then show ?thesis using assms
        by (simp add: reload_def load_started_def forget_drawings_def lock_ok_def start_ok reader_enabled_def)
    next
      case 4
      then have en: "wake_enabled (r_wakeLock r) l" and "case l of Start _ \<Rightarrow> False | Stop _ \<Rightarrow> False | _ \<Rightarrow> True"
        using assms(2) by (auto simp: reader_enabled_def wake_enabled_def split: wake_event.splits)
      then show ?thesis using 4 assms(1) wake_lock.inv_step [OF _ en] wake_step_active
        by (simp add: lock_ok_def)
    next
      case 5
      then show ?thesis using assms(1) by (simp add: ngOnDestroy_def lock_ok_def stop_ok stop_inactive)
    qed
  qed
qed

interpretation reader_lock: guarded_machine reader_enabled "reader_step upper" lock_ok for upper
  by unfold_locales (rule lock_ok_step)

section \<open>Automatic scrolling\<close>

text \<open>The seconds between frames, each counted as a tenth at most.\<close>

fun elapsed_sum :: "real \<Rightarrow> real list \<Rightarrow> real" where
  "elapsed_sum t [] = 0"
| "elapsed_sum t (t' # ts) = min (1 / 10) ((t' - t) / 1000) + elapsed_sum t' ts"

definition scrolling :: "ReaderComponent \<Rightarrow> bool" where
  "scrolling r \<longleftrightarrow> r_autoScrollFrame r \<and> r_mode r = ScrollMode \<and> \<not> r_paused r \<and> \<not> r_destroyed r"

lemma tick_form:
  assumes "r_mode r = ScrollMode" "\<not> r_paused r" "\<not> r_destroyed r" and "r_autoScrollTimestamp r \<noteq> 0"
    and "d = r_autoScrollRemainder r + r_speed r * min (1 / 10) ((t - r_autoScrollTimestamp r) / 1000)"
    and "r1 = r\<lparr>r_autoScrollRemainder := d - of_int \<lfloor>d\<rfloor>\<rparr>"
    and "r2 = (if \<lfloor>d\<rfloor> > 0 then set_scrollTop (r_scrollTop r1 + of_int \<lfloor>d\<rfloor>) r1 else r1)"
  shows "tick t r = (if r_scrollTop r2 + r_clientHeight r2 \<ge> r_scrollHeight r2 - 1
      then saveNow (r2\<lparr>r_paused := True, r_autoScrollFrame := False\<rparr>)
      else r2\<lparr>r_autoScrollTimestamp := t, r_autoScrollFrame := True\<rparr>)"
  unfolding tick_def Let_def assms(5-7) using assms(1-4)
  by (simp only: simp_thms if_True if_False not_False_eq_True not_True_eq_False)

lemma tick_scrolls:
  assumes "r_autoScrollFrame (tick t r)" and "r_autoScrollTimestamp r \<noteq> 0"
    and "r_autoScrollTimestamp r \<le> t" and "0 \<le> r_speed r" and "0 \<le> r_autoScrollRemainder r"
    and "0 \<le> r_scrollTop r"
  shows "r_scrollTop (tick t r) + r_autoScrollRemainder (tick t r) =
      r_scrollTop r + r_autoScrollRemainder r + r_speed r * min (1 / 10) ((t - r_autoScrollTimestamp r) / 1000) \<and>
    0 \<le> r_autoScrollRemainder (tick t r) \<and> r_autoScrollRemainder (tick t r) < 1 \<and>
    r_scrollTop r \<le> r_scrollTop (tick t r) \<and>
    r_autoScrollTimestamp (tick t r) = t \<and> r_speed (tick t r) = r_speed r"
proof -
  define d where "d = r_autoScrollRemainder r + r_speed r * min (1 / 10) ((t - r_autoScrollTimestamp r) / 1000)"
  have d0: "0 \<le> d" using assms(3-5) by (simp add: d_def)
  define r1 where "r1 = r\<lparr>r_autoScrollRemainder := d - of_int \<lfloor>d\<rfloor>\<rparr>"
  define r2 where "r2 = (if \<lfloor>d\<rfloor> > 0 then set_scrollTop (r_scrollTop r1 + of_int \<lfloor>d\<rfloor>) r1 else r1)"
  have live: "r_mode r = ScrollMode" "\<not> r_paused r" "\<not> r_destroyed r"
    using assms(1) by (auto simp: tick_def split: if_splits)
  note t = tick_form [OF live assms(2) d_def r1_def r2_def]
  have stop: "\<not> r_autoScrollFrame (saveNow (r2\<lparr>r_paused := True, r_autoScrollFrame := False\<rparr>))"
    by (simp add: saveNow_def flushReaderStateSave_def split: option.split)
  then have far: "r_scrollTop r2 + r_clientHeight r2 < r_scrollHeight r2 - 1"
    and tick: "tick t r = r2\<lparr>r_autoScrollTimestamp := t, r_autoScrollFrame := True\<rparr>"
    using assms(1) unfolding t by (auto split: if_splits)
  have size: "r_clientHeight r2 = r_clientHeight r" "r_scrollHeight r2 = r_scrollHeight r"
    "r_autoScrollRemainder r2 = d - of_int \<lfloor>d\<rfloor>" "r_speed r2 = r_speed r"
    by (simp_all add: r2_def r1_def set_scrollTop_def)
  have top: "r_scrollTop r2 = r_scrollTop r + of_int \<lfloor>d\<rfloor>"
  proof (cases "\<lfloor>d\<rfloor> > 0")
    case True
    then have "r_scrollTop r2 = clamp 0 (max 0 (r_scrollHeight r - r_clientHeight r)) (r_scrollTop r + of_int \<lfloor>d\<rfloor>)"
      by (simp add: r2_def r1_def set_scrollTop_def)
    then show ?thesis using far True assms(6) unfolding size
      by (auto simp: clamp_def min_def max_def split: if_splits)
  next
    case False
    then have "\<lfloor>d\<rfloor> = 0" using d0 by linarith
    then show ?thesis by (simp add: r2_def r1_def)
  qed
  have "0 \<le> d - of_int \<lfloor>d\<rfloor>" "d - of_int \<lfloor>d\<rfloor> < 1" by linarith+
  moreover have "0 \<le> real_of_int \<lfloor>d\<rfloor>" using d0 by simp
  ultimately show ?thesis unfolding tick using top size by (simp add: d_def)
qed

lemma saveNow_paused [simp]: "r_paused (saveNow r) = r_paused r"
  by (simp add: saveNow_def flushReaderStateSave_def split: option.split)

text \<open>Once stopped, the frames that are still delivered change nothing.\<close>

lemma ticks_stopped:
  assumes "\<not> r_autoScrollFrame r" and "r_mode r \<noteq> ScrollMode \<or> r_paused r \<or> r_destroyed r"
  shows "\<not> r_autoScrollFrame (fold tick ts r)"
proof -
  have "tick t r = r" for t using assms by (simp add: tick_def)
  then have "fold tick ts r = r" by (induction ts) simp_all
  then show ?thesis using assms(1) by simp
qed

lemma tick_end: "\<not> r_autoScrollFrame (tick t r) \<Longrightarrow>
  r_mode (tick t r) \<noteq> ScrollMode \<or> r_paused (tick t r) \<or> r_destroyed (tick t r)"
proof (cases "r_mode r = ScrollMode \<and> \<not> r_paused r \<and> \<not> r_destroyed r \<and> r_autoScrollTimestamp r \<noteq> 0")
  case True
  assume off: "\<not> r_autoScrollFrame (tick t r)"
  obtain r2 where "tick t r = saveNow (r2\<lparr>r_paused := True, r_autoScrollFrame := False\<rparr>) \<or>
      tick t r = r2\<lparr>r_autoScrollTimestamp := t, r_autoScrollFrame := True\<rparr>"
    using tick_form [OF _ _ _ _ refl refl refl, of r t] True by metis
  then show ?thesis using off by auto
next
  case False
  assume off: "\<not> r_autoScrollFrame (tick t r)"
  show ?thesis
  proof (cases "r_mode r \<noteq> ScrollMode \<or> r_paused r \<or> r_destroyed r")
    case True
    then have "tick t r = r\<lparr>r_autoScrollFrame := False\<rparr>" by (simp add: tick_def)
    then show ?thesis using True by simp
  next
    case live: False
    then have "r_autoScrollTimestamp r = 0" using False by blast
    then have "tick t r = r\<lparr>r_autoScrollTimestamp := t, r_autoScrollFrame := True\<rparr>"
      using live by (simp add: tick_def Let_def)
    then show ?thesis using off by simp
  qed
qed

lemma ticks_scroll:
  assumes "r_autoScrollFrame (fold tick ts r)" and "r_autoScrollTimestamp r \<noteq> 0"
    and "sorted (r_autoScrollTimestamp r # ts)" and "0 < r_autoScrollTimestamp r" and "0 \<le> r_speed r"
    and "0 \<le> r_autoScrollRemainder r" and "r_autoScrollRemainder r < 1" and "0 \<le> r_scrollTop r"
  shows "r_scrollTop (fold tick ts r) + r_autoScrollRemainder (fold tick ts r) =
      r_scrollTop r + r_autoScrollRemainder r + r_speed r * elapsed_sum (r_autoScrollTimestamp r) ts \<and>
    0 \<le> r_autoScrollRemainder (fold tick ts r) \<and> r_autoScrollRemainder (fold tick ts r) < 1"
  using assms
proof (induction ts arbitrary: r)
  case (Cons t ts)
  have on: "r_autoScrollFrame (tick t r)"
    using Cons.prems(1) ticks_stopped [OF _ tick_end, of t r ts] by auto
  note one = tick_scrolls [OF on Cons.prems(2) _ Cons.prems(5,6,8)]
  have le: "r_autoScrollTimestamp r \<le> t" using Cons.prems(3) by simp
  have "sorted (t # ts)" "0 < t" using Cons.prems(3,4) by auto
  then show ?case
    using Cons.IH [of "tick t r"] Cons.prems(1,4,5,8) one [OF le] by (simp add: algebra_simps)
qed simp

section \<open>A short visit\<close>

text \<open>A score of three pages opened on page 2, turned beyond its end, drawn, saved, and left.\<close>

definition demo_state :: ReaderState where
  "demo_state = \<lparr>rs_pieceId = js ''p'', rs_pdfChecksum = js ''c'', rs_mode = PageMode, rs_lastPage = 2,
     rs_scrollPosition = 0, rs_zoom = 1, rs_scrollSpeed = 5, rs_scrollPaused = True\<rparr>"

definition demo_piece :: Piece where
  "demo_piece = \<lparr>p_opus = None, p_musicKey = None, p_id = js ''p'', p_title = js ''T'', p_composer = js ''C'',
     p_favorite = False, p_status = Learning, p_sourceUrl = [], p_listeningUrl = [], p_notes = [], p_aliases = [],
     p_createdAt = [], p_updatedAt = [], p_pdf = Some \<lparr>pdf_originalFilename = [], pdf_sizeBytes = 1,
       pdf_checksumSha256 = js ''c'', pdf_pageCount = 3, pdf_uploadedAt = [], pdf_contentUrl = []\<rparr>, p_lastPlayedAt = None\<rparr>"

definition demo_events :: "reader_event list" where
  "demo_events = [Fetched False demo_piece demo_state, PdfOpened 3 demo_state, LoadLaidOut demo_state, TurnPage 5,
     SaveTimer, SaveCompleted]"

definition demo_drawing :: "reader_event list" where
  "demo_drawing = [RenderFrame \<lparr>sg_top = 0, sg_bottom = 800, sg_height = 800\<rparr> [], PageDrawn True]"

definition demo_reader :: ReaderComponent where
  "demo_reader = opened_reader (js ''p'') Undefined True False"

lemmas demo_defs = demo_events_def demo_drawing_def demo_reader_def demo_state_def demo_piece_def

lemmas reader_defs = reader_enabled_def load_fetched_def load_opened_def load_laid_out_def turnPage_def scheduleRender_def
  queueSave_def clearVisiblePage_def syncAutoScroll_def saveNow_def flushReaderStateSave_def save_completed_def
  finish_save_def current_position_def opened_reader_def ngAfterViewInit_def load_started_def forget_drawings_def
  new_reader_def renderVisible_def render_page_def page_rendered_def js_def clamp_def Let_def

lemma demo_run: "enabled_run reader_enabled (reader_step id) demo_reader demo_events"
  by (simp add: demo_defs reader_defs)

lemma demo_result:
  "r_currentPage (fold (reader_step id) demo_events demo_reader) = 3"
  "r_loading (fold (reader_step id) demo_events demo_reader) = False"
  "r_error (fold (reader_step id) demo_events demo_reader) = []"
  "r_saveInFlight (fold (reader_step id) demo_events demo_reader) = False"
  "r_wanted (fold (reader_step id) demo_events demo_reader) \<noteq> []"
  by (simp_all add: demo_defs reader_defs)

section \<open>Properties\<close>

text \<open>C5: The page number and the zoom are always usable. However opening, turning, tapping, keys,
  swipes, scrolling, zooming and reloading interleave, whenever the score is shown the current
  page is one of its pages and the zoom is between a half and two and a half, and every position
  sent to the server has a page from 1 on, such a zoom, and the checksum of a loaded score.\<close>

theorem reader_position_valid:
  assumes "enabled_run reader_enabled (reader_step upper) (opened_reader pieceId navigator visible throws) es"
    and "r = fold (reader_step upper) es (opened_reader pieceId navigator visible throws)"
  shows "(r_loading r \<or> r_error r \<noteq> [] \<or> 1 \<le> r_currentPage r \<and> r_currentPage r \<le> int (r_pages r)) \<and>
    1 / 2 \<le> r_zoom r \<and> r_zoom r \<le> 5 / 2 \<and>
    list_all (\<lambda>s. 1 \<le> rs_lastPage s \<and> 1 / 2 \<le> rs_zoom s \<and> rs_zoom s \<le> 5 / 2 \<and> rs_pdfChecksum s \<noteq> []) (r_sent r)"
proof -
  have "position_ok (opened_reader pieceId navigator visible throws)"
    by (simp add: opened_reader_def ngAfterViewInit_def load_started_def new_reader_def position_simps place_ok_def
        forget_drawings_def)
  from reader_position.run_inv [OF this assms(1)] have "position_ok r" by (simp only: assms(2))
  then show ?thesis
    by (auto simp: position_ok_def shown_def place_ok_def list_all_iff saved_ok_def split: if_splits)
qed

theorem reader_position_valid_witness:
  "r_currentPage (fold (reader_step id) demo_events demo_reader) = 3 \<and>
   r_currentPage (fold (reader_step id) demo_events demo_reader) \<le>
     int (r_pages (fold (reader_step id) demo_events demo_reader))"
  using reader_position_valid [OF demo_run [unfolded demo_reader_def] refl] demo_result
  by (simp add: demo_reader_def)



text \<open>C13: The page on screen is never stale for good. In page mode, with the score shown and laid out,
  the drawing on screen is the current page at the current size, or a frame or a drawing that
  leads to it is under way, as long as the drawings themselves succeed.\<close>

theorem reader_page_current:
  assumes "enabled_run drawing_works (reader_step upper) (opened_reader pieceId navigator visible throws) es"
    and "r = fold (reader_step upper) es (opened_reader pieceId navigator visible throws)"
    and "r_mode r = PageMode" and "\<not> r_loading r" and "r_error r = []" and "r_layouts r = 0" and "\<not> r_destroyed r"
  shows "r_renderedPage r = Some (r_currentPage r, page_key r) \<or> r_renderFrame r \<or> r_pageJob r \<noteq> None"
proof -
  have "page_ok (opened_reader pieceId navigator visible throws)"
    by (simp add: opened_reader_def ngAfterViewInit_def load_started_def new_reader_def page_simps forget_drawings_def)
  from reader_page.run_inv [OF this assms(1)] have "page_ok r" by (simp only: assms(2))
  then show ?thesis using assms(3-7) by (cases "r_pageJob r") (auto simp: page_simps)
qed

theorem reader_page_current_witness:
  "let r = fold (reader_step id) (demo_events @ demo_drawing) demo_reader
   in r_renderedPage r = Some (r_currentPage r, page_key r) \<or> r_renderFrame r \<or> r_pageJob r \<noteq> None"
proof -
  have run: "enabled_run drawing_works (reader_step id) demo_reader (demo_events @ demo_drawing)"
    by (simp add: demo_defs reader_defs drawing_works_def page_key_def page_width_def page_height_def)
  have last: "r_mode (fold (reader_step id) (demo_events @ demo_drawing) demo_reader) = PageMode"
    "\<not> r_loading (fold (reader_step id) (demo_events @ demo_drawing) demo_reader)"
    "r_error (fold (reader_step id) (demo_events @ demo_drawing) demo_reader) = []"
    "r_layouts (fold (reader_step id) (demo_events @ demo_drawing) demo_reader) = 0"
    "\<not> r_destroyed (fold (reader_step id) (demo_events @ demo_drawing) demo_reader)"
    by (simp_all add: demo_defs reader_defs page_key_def page_width_def page_height_def)
  show ?thesis
    using reader_page_current [OF run [unfolded demo_reader_def] refl last [unfolded demo_reader_def]]
    by (simp only: demo_reader_def Let_def)
qed

text \<open>Leaving the reader gives the wake lock back. After any events, once the page is left it
  holds no lock, and a lock granted later is released at once; while it is open it holds at most
  one, and only while the page is visible.\<close>

theorem reader_leaves_no_lock:
  assumes "enabled_run reader_enabled (reader_step upper) (opened_reader pieceId navigator visible throws) es"
    and "r = fold (reader_step upper) es (opened_reader pieceId navigator visible throws)"
  shows "(wl_sentinel (r_wakeLock r) = None \<or>
      \<not> r_destroyed r \<and> wl_active (r_wakeLock r) \<and> wl_visible (r_wakeLock r)) \<and>
    mset (wl_granted (r_wakeLock r)) =
      mset (wl_released (r_wakeLock r)) + mset (wl_lost (r_wakeLock r)) +
      (case wl_sentinel (r_wakeLock r) of None \<Rightarrow> {#} | Some s \<Rightarrow> {#s#})"
proof -
  have "lock_ok (opened_reader pieceId navigator visible throws)"
    by (simp add: opened_reader_def ngAfterViewInit_def load_started_def new_reader_def forget_drawings_def lock_ok_def
        start_ok new_wake_lock_ok)
  from reader_lock.run_inv [OF this assms(1)] have ok: "lock_ok r" by (simp only: assms(2))
  then have "mset (wl_granted (r_wakeLock r)) =
      mset (wl_released (r_wakeLock r)) + mset (wl_lost (r_wakeLock r)) + mset (held_locks (r_wakeLock r))"
    by (simp only: lock_ok_def wake_ok_def)
  then show ?thesis using ok
    by (cases "wl_sentinel (r_wakeLock r)") (auto simp: lock_ok_def wake_ok_def held_locks_def)
qed

theorem reader_leaves_no_lock_witness:
  "wl_sentinel (r_wakeLock (fold (reader_step id) (demo_events @ [Leave False]) demo_reader)) = None"
proof -
  have run: "enabled_run reader_enabled (reader_step id) demo_reader (demo_events @ [Leave False])"
    using demo_run by (simp add: enabled_run_append reader_enabled_def)
  have "r_destroyed (fold (reader_step id) (demo_events @ [Leave False]) demo_reader)"
    by (simp add: ngOnDestroy_def)
  then show ?thesis
    using reader_leaves_no_lock [OF run [unfolded demo_reader_def] refl] by (simp add: demo_reader_def)
qed

text \<open>Automatic scrolling keeps its pace. While it runs, the whole pixels scrolled and the
  fraction carried over add up to the speed times the elapsed time, each frame counted as a tenth
  of a second at most, so no fraction of a pixel is ever lost.\<close>

theorem auto_scroll_keeps_pace:
  assumes "r_autoScrollFrame (fold tick ts r)"
    and "sorted (r_autoScrollTimestamp r # ts)" and "0 < r_autoScrollTimestamp r" and "0 \<le> r_speed r"
    and "0 \<le> r_autoScrollRemainder r" and "r_autoScrollRemainder r < 1" and "0 \<le> r_scrollTop r"
  shows "r_scrollTop (fold tick ts r) + r_autoScrollRemainder (fold tick ts r) =
      r_scrollTop r + r_autoScrollRemainder r + r_speed r * elapsed_sum (r_autoScrollTimestamp r) ts \<and>
    0 \<le> r_autoScrollRemainder (fold tick ts r) \<and> r_autoScrollRemainder (fold tick ts r) < 1"
  using ticks_scroll [OF assms(1) _ assms(2-7)] assms(3) by simp

theorem auto_scroll_keeps_pace_witness:
  "let r = demo_reader\<lparr>r_mode := ScrollMode, r_paused := False, r_autoScrollTimestamp := 1000, r_scrollHeight := 5000\<rparr>
   in r_scrollTop (fold tick [1050, 1100] r) + r_autoScrollRemainder (fold tick [1050, 1100] r) =
     5 * elapsed_sum 1000 [1050, 1100]"
proof -
  let ?r = "demo_reader\<lparr>r_mode := ScrollMode, r_paused := False, r_autoScrollTimestamp := 1000, r_scrollHeight := 5000\<rparr>"
  have on: "r_autoScrollFrame (fold tick [1050, 1100] ?r)"
    by (simp add: demo_reader_def reader_defs tick_def)
  have "r_scrollTop ?r = 0" "r_autoScrollRemainder ?r = 0" "r_speed ?r = 5"
    by (simp_all add: demo_reader_def reader_defs)
  then show ?thesis using auto_scroll_keeps_pace [OF on] by (simp add: Let_def)
qed

end
