(* ===== verification/LibraryStore.thy ===== *)
theory LibraryStore
  imports Api Machines
begin

text \<open>
  The library page's store (\<open>web/src/app/features/library/library.store.ts\<close>): the list and its
  view, the remembered filter and sort, the address that follows the view, and the queues that
  save choices and statuses. Answers of the server are events; the steps of a promise chain that
  wait for an answer are the entries of its queue.
\<close>

section \<open>State\<close>

text \<open>A change to save: a filter or a sort.\<close>

datatype Preference = FilterChoice LibraryFilter | SortChoice LibrarySort

text \<open>One row's status saves: \<open>save_waiting\<close> is the queue, \<open>save_running\<close> the request under way.\<close>

record StatusSave =
  save_latest :: PieceStatus
  save_saved :: PieceSummary
  save_waiting :: "PieceStatus list"
  save_running :: "PieceStatus option"
  save_control :: PieceStatus  \<comment> \<open>what the row's select shows\<close>

record LibraryStore =
  ls_addressed :: PartialView
  ls_allPieces :: "PieceSummary list"
  ls_query :: jstring
  ls_filter :: LibraryFilter
  ls_sort :: LibrarySort
  ls_rememberedFilter :: LibraryFilter
  ls_rememberedSort :: LibrarySort
  ls_offered :: "PieceSummary option"
  ls_listedOnce :: bool
  ls_preferencesSettled :: bool
  ls_error :: jstring
  ls_filterChosen :: bool
  ls_sortChosen :: bool
  ls_filterSaved :: bool
  ls_sortSaved :: bool
  ls_writtenAddress :: "jstring list option"
  ls_preferenceQueue :: "Preference list"
  ls_preferenceSaving :: "Preference option"
  ls_statusSaves :: "(jstring, StatusSave) js_map"
  \<comment> \<open>the page, the tab and the server\<close>
  ls_loading :: "nat option"  \<comment> \<open>the load under way\<close>
  ls_loads :: nat
  ls_loadsDone :: "nat list"  \<comment> \<open>the loads whose promise is settled\<close>
  ls_destroyed :: bool
  ls_storage :: Storage
  ls_navigations :: "LibraryParams list"
  ls_chosen :: "Preference list"
  ls_sent :: "Preference list"
  ls_statusChosen :: "(jstring \<times> PieceStatus) list"
  ls_statusSent :: "(jstring \<times> PieceStatus) list"

definition filterFromAddress :: "LibraryStore \<Rightarrow> bool" where
  "filterFromAddress s \<longleftrightarrow> pv_filter (ls_addressed s) \<noteq> None"

definition sortFromAddress :: "LibraryStore \<Rightarrow> bool" where
  "sortFromAddress s \<longleftrightarrow> pv_sort (ls_addressed s) \<noteq> None"

definition addressKey :: "LibraryParams \<Rightarrow> jstring list" where
  "addressKey params = [nullish (par_q params) [], nullish (par_show params) [], nullish (par_sort params) []]"

text \<open>\<open>details_new\<close>: the address still says \<open>details=new\<close>.\<close>

definition new_store :: "LibraryParams \<Rightarrow> bool \<Rightarrow> Storage \<Rightarrow> LibraryStore" where
  "new_store params details_new storage =
     (let addressed = viewFromParams params
      in \<lparr>ls_addressed = addressed, ls_allPieces = [], ls_query = nullish (pv_query addressed) [],
          ls_filter = nullish (pv_filter addressed) Current, ls_sort = nullish (pv_sort addressed) ByTitle,
          ls_rememberedFilter = Current, ls_rememberedSort = ByTitle, ls_offered = None, ls_listedOnce = False,
          ls_preferencesSettled = False, ls_error = [], ls_filterChosen = False, ls_sortChosen = False,
          ls_filterSaved = False, ls_sortSaved = False,
          ls_writtenAddress = (if details_new then None else Some (addressKey params)),
          ls_preferenceQueue = [], ls_preferenceSaving = None, ls_statusSaves = [],
          ls_loading = None, ls_loads = 0, ls_loadsDone = [], ls_destroyed = False, ls_storage = storage, ls_navigations = [],
          ls_chosen = [], ls_sent = [], ls_statusChosen = [], ls_statusSent = []\<rparr>)"

section \<open>What the page shows\<close>

definition searching :: "unicode \<Rightarrow> LibraryStore \<Rightarrow> bool" where
  "searching U s \<longleftrightarrow> fold_text U (ls_query s) \<noteq> []"

definition store_view :: "LibraryStore \<Rightarrow> LibraryView" where
  "store_view s = \<lparr>v_query = ls_query s, v_filter = ls_filter s, v_sort = ls_sort s\<rparr>"

definition store_remembered :: "LibraryStore \<Rightarrow> LibraryFilter \<times> LibrarySort" where
  "store_remembered s = (ls_rememberedFilter s, ls_rememberedSort s)"

definition visible :: "browser \<Rightarrow> unicode \<Rightarrow> LibraryStore \<Rightarrow> PieceSummary list" where
  "visible B U s = filterAndSort B U (ls_allPieces s) (store_view s)"

definition showPlayed :: "LibraryStore \<Rightarrow> bool" where
  "showPlayed s \<longleftrightarrow> ls_sort s = ByRecent \<or> ls_sort s = ByFresh"

definition continued :: "unicode \<Rightarrow> LibraryStore \<Rightarrow> PieceSummary option" where
  "continued U s = (if searching U s \<or> ls_sort s \<noteq> ByRecent then None else ls_offered s)"

definition listed :: "browser \<Rightarrow> unicode \<Rightarrow> LibraryStore \<Rightarrow> PieceSummary list" where
  "listed B U s = (case continued U s of
     None \<Rightarrow> visible B U s
   | Some c \<Rightarrow> filter (\<lambda>piece. s_id piece \<noteq> s_id c) (visible B U s))"

definition onlyShelved :: "unicode \<Rightarrow> LibraryStore \<Rightarrow> bool" where
  "onlyShelved U s \<longleftrightarrow> ls_filter s = Current \<and> \<not> searching U s \<and> ls_allPieces s \<noteq> [] \<and>
     list_all (\<lambda>piece. s_status piece = Shelved) (ls_allPieces s)"

definition store_loading :: "LibraryStore \<Rightarrow> bool" where
  "store_loading s \<longleftrightarrow> \<not> ls_listedOnce s \<or> \<not> ls_preferencesSettled s"

section \<open>Loading the list\<close>

text \<open>
  A newer load replaces an older one still running, whose promise is settled then. Once the page
  is gone nothing is loaded, and the promise of a later load is never settled.
\<close>

definition load_pieces :: "LibraryStore \<Rightarrow> LibraryStore" where
  "load_pieces s =
     (if ls_destroyed s then s\<lparr>ls_loads := ls_loads s + 1\<rparr>
      else s\<lparr>ls_loadsDone := ls_loadsDone s @ (case ls_loading s of None \<Rightarrow> [] | Some i \<Rightarrow> [i]),
             ls_loading := Some (ls_loads s), ls_loads := ls_loads s + 1\<rparr>)"

definition store_destroy :: "LibraryStore \<Rightarrow> LibraryStore" where
  "store_destroy s = s\<lparr>ls_loadsDone := ls_loadsDone s @ (case ls_loading s of None \<Rightarrow> [] | Some i \<Rightarrow> [i]),
     ls_loading := None, ls_destroyed := True\<rparr>"

text \<open>The answer to load \<open>i\<close>: the pieces and the piece to continue, or an error.\<close>

definition pieces_loaded ::
  "(jstring \<Rightarrow> jstring) \<Rightarrow> unicode \<Rightarrow> nat \<Rightarrow> (js_error, PieceSummary list \<times> Piece option) result \<Rightarrow> LibraryStore \<Rightarrow> LibraryStore" where
  "pieces_loaded upper U i answer s =
     (if ls_loading s \<noteq> Some i then s
      else (let s = s\<lparr>ls_loading := None, ls_loadsDone := ls_loadsDone s @ [i], ls_listedOnce := True\<rparr>
            in case answer of
                 Inl e \<Rightarrow> s\<lparr>ls_error := errorMessage upper e\<rparr>
               | Inr (pieces, latest) \<Rightarrow>
                   s\<lparr>ls_allPieces := pieces, ls_offered := map_option (summaryOf U) latest\<rparr>))"

section \<open>The address\<close>

definition writeAddress :: "LibraryParams \<Rightarrow> LibraryStore \<Rightarrow> LibraryStore" where
  "writeAddress params s =
     (let s = s\<lparr>ls_storage := rememberLibraryParams params (ls_storage s)\<rparr>; key = addressKey params
      in if Some key = ls_writtenAddress s then s
         else s\<lparr>ls_writtenAddress := Some key, ls_navigations := ls_navigations s @ [params]\<rparr>)"

text \<open>The effect that keeps the address up with the view.\<close>

definition address_effect :: "LibraryStore \<Rightarrow> LibraryStore" where
  "address_effect s =
     (if \<not> ls_preferencesSettled s then s
      else writeAddress (paramsOfView (store_view s) (store_remembered s)
             (filterFromAddress s \<or> ls_filterChosen s, sortFromAddress s \<or> ls_sortChosen s)) s)"

section \<open>Remembered choices\<close>

definition remember_choice :: "Preference \<Rightarrow> LibraryStore \<Rightarrow> LibraryStore" where
  "remember_choice change s = s\<lparr>ls_preferenceQueue := ls_preferenceQueue s @ [change],
     ls_chosen := ls_chosen s @ [change]\<rparr>"

definition chooseFilter :: "LibraryFilter \<Rightarrow> LibraryStore \<Rightarrow> LibraryStore" where
  "chooseFilter f s =
     (if ls_preferencesSettled s \<and> f = ls_filter s \<and> f = ls_rememberedFilter s then s
      else remember_choice (FilterChoice f) (s\<lparr>ls_filterChosen := True, ls_filter := f\<rparr>))"

definition chooseSort :: "LibrarySort \<Rightarrow> LibraryStore \<Rightarrow> LibraryStore" where
  "chooseSort t s =
     (if ls_preferencesSettled s \<and> t = ls_sort s \<and> t = ls_rememberedSort s then s
      else remember_choice (SortChoice t) (s\<lparr>ls_sortChosen := True, ls_sort := t\<rparr>))"

text \<open>
  The remembered filter and sort arrive; a value the page does not know is \<open>None\<close>. Reading them
  may fail.
\<close>

definition preferences_read :: "LibraryFilter option \<Rightarrow> LibrarySort option \<Rightarrow> LibraryStore \<Rightarrow> LibraryStore" where
  "preferences_read f t s =
     (let s = (case f of
            None \<Rightarrow> s
          | Some libraryFilter \<Rightarrow>
              if \<not> ls_filterChosen s
              then (let s = s\<lparr>ls_rememberedFilter := libraryFilter\<rparr>
                    in if pv_filter (ls_addressed s) = None then s\<lparr>ls_filter := libraryFilter\<rparr> else s)
              else if \<not> ls_filterSaved s then s\<lparr>ls_rememberedFilter := libraryFilter\<rparr> else s);
          s = (case t of
            None \<Rightarrow> s
          | Some librarySort \<Rightarrow>
              if \<not> ls_sortChosen s
              then (let s = s\<lparr>ls_rememberedSort := librarySort\<rparr>
                    in if pv_sort (ls_addressed s) = None then s\<lparr>ls_sort := librarySort\<rparr> else s)
              else if \<not> ls_sortSaved s then s\<lparr>ls_rememberedSort := librarySort\<rparr> else s)
      in s\<lparr>ls_preferencesSettled := True\<rparr>)"

definition preferences_failed :: "LibraryStore \<Rightarrow> LibraryStore" where
  "preferences_failed s = s\<lparr>ls_preferencesSettled := True\<rparr>"

definition outdated :: "Preference \<Rightarrow> LibraryStore \<Rightarrow> bool" where
  "outdated change s \<longleftrightarrow> (case change of
     FilterChoice f \<Rightarrow> f \<noteq> ls_filter s
   | SortChoice t \<Rightarrow> t \<noteq> ls_sort s)"

text \<open>The next change of the queue has its turn: it is sent, or dropped for a newer one.\<close>

definition savePreference :: "LibraryStore \<Rightarrow> LibraryStore" where
  "savePreference s = (case ls_preferenceQueue s of
     [] \<Rightarrow> s
   | change # rest \<Rightarrow>
       (let s = s\<lparr>ls_preferenceQueue := rest\<rparr>
        in if outdated change s then s
           else s\<lparr>ls_preferenceSaving := Some change, ls_sent := ls_sent s @ [change]\<rparr>))"

definition preference_saved :: "LibraryStore \<Rightarrow> LibraryStore" where
  "preference_saved s = (case ls_preferenceSaving s of
     None \<Rightarrow> s
   | Some change \<Rightarrow>
       (let s = s\<lparr>ls_preferenceSaving := None\<rparr>
        in case change of
             FilterChoice f \<Rightarrow> if f = ls_filter s then s\<lparr>ls_filterSaved := True, ls_rememberedFilter := f\<rparr> else s
           | SortChoice t \<Rightarrow> if t = ls_sort s then s\<lparr>ls_sortSaved := True, ls_rememberedSort := t\<rparr> else s))"

definition preference_failed :: "(jstring \<Rightarrow> jstring) \<Rightarrow> js_error \<Rightarrow> LibraryStore \<Rightarrow> LibraryStore" where
  "preference_failed upper e s = s\<lparr>ls_preferenceSaving := None, ls_error := errorMessage upper e\<rparr>"

section \<open>Rows\<close>

definition replaceRow :: "PieceSummary \<Rightarrow> LibraryStore \<Rightarrow> LibraryStore" where
  "replaceRow piece s =
     s\<lparr>ls_allPieces := map (\<lambda>row. if s_id row = s_id piece then piece else row) (ls_allPieces s),
       ls_offered := (case ls_offered s of
           None \<Rightarrow> None
         | Some row \<Rightarrow> Some (if s_id row = s_id piece then piece else row))\<rparr>"

definition favorite_request :: "PieceSummary \<Rightarrow> Request" where
  "favorite_request piece = updatePiece (s_id piece) (FavoriteBody (\<not> s_favorite piece))"

definition favorite_answered ::
  "(jstring \<Rightarrow> jstring) \<Rightarrow> unicode \<Rightarrow> (js_error, Piece) result \<Rightarrow> LibraryStore \<Rightarrow> LibraryStore" where
  "favorite_answered upper U answer s = (case answer of
     Inr updated \<Rightarrow> replaceRow (summaryOf U updated) s
   | Inl e \<Rightarrow> s\<lparr>ls_error := errorMessage upper e\<rparr>)"

definition changeStatus :: "PieceSummary \<Rightarrow> PieceStatus \<Rightarrow> LibraryStore \<Rightarrow> LibraryStore" where
  "changeStatus piece status s =
     (if status = s_status piece then s
      else (let pending = nullish (jm_get (ls_statusSaves s) (s_id piece))
                  \<lparr>save_latest = status, save_saved = piece, save_waiting = [], save_running = None,
                   save_control = status\<rparr>;
                pending = pending\<lparr>save_latest := status, save_control := status,
                  save_waiting := save_waiting pending @ [status]\<rparr>
            in replaceRow (piece\<lparr>s_status := status\<rparr>)
                 (s\<lparr>ls_statusSaves := jm_set (ls_statusSaves s) (s_id piece) pending,
                    ls_statusChosen := ls_statusChosen s @ [(s_id piece, status)]\<rparr>)))"

text \<open>A save is over: the row's entry goes when nothing waits behind it.\<close>

definition settle_status :: "jstring \<Rightarrow> StatusSave \<Rightarrow> LibraryStore \<Rightarrow> LibraryStore" where
  "settle_status i pending s =
     s\<lparr>ls_statusSaves := (if save_waiting pending = [] then jm_delete (ls_statusSaves s) i
        else jm_set (ls_statusSaves s) i (pending\<lparr>save_running := None\<rparr>))\<rparr>"

text \<open>The next status of a row has its turn.\<close>

definition saveStatus :: "jstring \<Rightarrow> LibraryStore \<Rightarrow> LibraryStore" where
  "saveStatus i s = (case jm_get (ls_statusSaves s) i of
     None \<Rightarrow> s
   | Some pending \<Rightarrow> (case save_waiting pending of
         [] \<Rightarrow> s
       | status # rest \<Rightarrow>
           (let pending = pending\<lparr>save_waiting := rest\<rparr>
            in if save_latest pending \<noteq> status then settle_status i pending s
               else s\<lparr>ls_statusSaves := jm_set (ls_statusSaves s) i (pending\<lparr>save_running := Some status\<rparr>),
                      ls_statusSent := ls_statusSent s @ [(i, status)]\<rparr>)))"

definition status_saved :: "unicode \<Rightarrow> jstring \<Rightarrow> Piece \<Rightarrow> LibraryStore \<Rightarrow> LibraryStore" where
  "status_saved U i answer s = (case jm_get (ls_statusSaves s) i of
     None \<Rightarrow> s
   | Some pending \<Rightarrow> (case save_running pending of
         None \<Rightarrow> s
       | Some status \<Rightarrow>
           (let updated = summaryOf U answer;
                pending = pending\<lparr>save_saved := updated\<rparr>;
                s = (if save_latest pending = status then replaceRow updated s else s)
            in settle_status i pending s)))"

definition status_failed :: "(jstring \<Rightarrow> jstring) \<Rightarrow> jstring \<Rightarrow> js_error \<Rightarrow> LibraryStore \<Rightarrow> LibraryStore" where
  "status_failed upper i e s = (case jm_get (ls_statusSaves s) i of
     None \<Rightarrow> s
   | Some pending \<Rightarrow> (case save_running pending of
         None \<Rightarrow> s
       | Some status \<Rightarrow>
           if save_latest pending \<noteq> status then settle_status i pending s
           else settle_status i (pending\<lparr>save_control := s_status (save_saved pending)\<rparr>)
                  (replaceRow (save_saved pending) (s\<lparr>ls_error := errorMessage upper e\<rparr>))))"

section \<open>The store as a state machine\<close>

datatype store_event =
    Query jstring | LoadPieces | LeaveLibrary | PiecesLoaded nat "(js_error, PieceSummary list \<times> Piece option) result"
  | AddressEffect | ChooseFilter LibraryFilter | ChooseSort LibrarySort
  | PreferencesRead "LibraryFilter option" "LibrarySort option" | PreferencesFailed
  | NextPreference | PreferenceSaved | PreferenceFailed js_error
  | FavoriteAnswered "(js_error, Piece) result"
  | ChangeStatus PieceSummary PieceStatus | NextStatus jstring | StatusSaved jstring Piece | StatusFailed jstring js_error

fun store_step :: "(jstring \<Rightarrow> jstring) \<Rightarrow> unicode \<Rightarrow> store_event \<Rightarrow> LibraryStore \<Rightarrow> LibraryStore" where
  "store_step upper U (Query q) s = s\<lparr>ls_query := q\<rparr>"
| "store_step upper U LoadPieces s = load_pieces s"
| "store_step upper U LeaveLibrary s = store_destroy s"
| "store_step upper U (PiecesLoaded i answer) s = pieces_loaded upper U i answer s"
| "store_step upper U AddressEffect s = address_effect s"
| "store_step upper U (ChooseFilter f) s = chooseFilter f s"
| "store_step upper U (ChooseSort t) s = chooseSort t s"
| "store_step upper U (PreferencesRead f t) s = preferences_read f t s"
| "store_step upper U PreferencesFailed s = preferences_failed s"
| "store_step upper U NextPreference s = savePreference s"
| "store_step upper U PreferenceSaved s = preference_saved s"
| "store_step upper U (PreferenceFailed e) s = preference_failed upper e s"
| "store_step upper U (FavoriteAnswered answer) s = favorite_answered upper U answer s"
| "store_step upper U (ChangeStatus piece status) s = changeStatus piece status s"
| "store_step upper U (NextStatus i) s = saveStatus i s"
| "store_step upper U (StatusSaved i answer) s = status_saved U i answer s"
| "store_step upper U (StatusFailed i e) s = status_failed upper i e s"

text \<open>
  When an event can happen: preferences are read once; a queue goes on when nothing of it is
  under way; an answer answers a request, and the server's answer to a status save is that piece
  with that status; a status is changed on a row of the list.
\<close>

definition store_enabled :: "LibraryStore \<Rightarrow> store_event \<Rightarrow> bool" where
  "store_enabled s e = (case e of
     PreferencesRead f t \<Rightarrow> \<not> ls_preferencesSettled s
   | PreferencesFailed \<Rightarrow> \<not> ls_preferencesSettled s
   | NextPreference \<Rightarrow> ls_preferenceQueue s \<noteq> [] \<and> ls_preferenceSaving s = None
   | PreferenceSaved \<Rightarrow> ls_preferenceSaving s \<noteq> None
   | PreferenceFailed e \<Rightarrow> ls_preferenceSaving s \<noteq> None
   | ChangeStatus piece status \<Rightarrow> piece \<in> set (ls_allPieces s)
   | NextStatus i \<Rightarrow> (case jm_get (ls_statusSaves s) i of
         None \<Rightarrow> False | Some pending \<Rightarrow> save_waiting pending \<noteq> [] \<and> save_running pending = None)
   | StatusSaved i answer \<Rightarrow> (case jm_get (ls_statusSaves s) i of
         None \<Rightarrow> False | Some pending \<Rightarrow> save_running pending = Some (p_status answer) \<and> p_id answer = i)
   | StatusFailed i e \<Rightarrow> (case jm_get (ls_statusSaves s) i of
         None \<Rightarrow> False | Some pending \<Rightarrow> save_running pending \<noteq> None)
   | _ \<Rightarrow> True)"

end
