(* ===== verification/LibraryStoreProps.thy ===== *)
theory LibraryStoreProps
  imports LibraryStore
begin

text \<open>
  The properties of the library's store: the address always leads back to the view, the latest
  filter, sort and status reach the server last, and a row shows the latest choice while it is
  being saved.
\<close>

section \<open>The address follows the view\<close>

definition addressed_ok :: "LibraryStore \<Rightarrow> bool" where
  "addressed_ok s \<longleftrightarrow>
     (filterFromAddress s \<or> ls_filterChosen s \<or> ls_filter s = ls_rememberedFilter s) \<and>
     (sortFromAddress s \<or> ls_sortChosen s \<or> ls_sort s = ls_rememberedSort s) \<and>
     ls_storage s \<noteq> StorageUnavailable"

lemma writeAddress_frame [simp]:
  "ls_addressed (writeAddress params s) = ls_addressed s" "ls_filter (writeAddress params s) = ls_filter s"
  "ls_sort (writeAddress params s) = ls_sort s" "ls_rememberedFilter (writeAddress params s) = ls_rememberedFilter s"
  "ls_rememberedSort (writeAddress params s) = ls_rememberedSort s" "ls_filterChosen (writeAddress params s) = ls_filterChosen s"
  "ls_sortChosen (writeAddress params s) = ls_sortChosen s" "ls_query (writeAddress params s) = ls_query s"
  "ls_storage (writeAddress params s) = rememberLibraryParams params (ls_storage s)"
  by (simp_all add: writeAddress_def Let_def)

lemma settle_status_frame [simp]:
  "ls_addressed (settle_status i p s) = ls_addressed s" "ls_filter (settle_status i p s) = ls_filter s"
  "ls_sort (settle_status i p s) = ls_sort s" "ls_rememberedFilter (settle_status i p s) = ls_rememberedFilter s"
  "ls_rememberedSort (settle_status i p s) = ls_rememberedSort s" "ls_filterChosen (settle_status i p s) = ls_filterChosen s"
  "ls_sortChosen (settle_status i p s) = ls_sortChosen s" "ls_storage (settle_status i p s) = ls_storage s"
  "ls_chosen (settle_status i p s) = ls_chosen s" "ls_sent (settle_status i p s) = ls_sent s"
  "ls_preferenceQueue (settle_status i p s) = ls_preferenceQueue s"
  "ls_preferenceSaving (settle_status i p s) = ls_preferenceSaving s"
  "ls_statusChosen (settle_status i p s) = ls_statusChosen s" "ls_statusSent (settle_status i p s) = ls_statusSent s"
  "ls_allPieces (settle_status i p s) = ls_allPieces s"
  by (simp_all add: settle_status_def)

lemma replaceRow_frame [simp]:
  "ls_addressed (replaceRow r s) = ls_addressed s" "ls_filter (replaceRow r s) = ls_filter s"
  "ls_sort (replaceRow r s) = ls_sort s" "ls_rememberedFilter (replaceRow r s) = ls_rememberedFilter s"
  "ls_rememberedSort (replaceRow r s) = ls_rememberedSort s" "ls_filterChosen (replaceRow r s) = ls_filterChosen s"
  "ls_sortChosen (replaceRow r s) = ls_sortChosen s" "ls_storage (replaceRow r s) = ls_storage s"
  "ls_chosen (replaceRow r s) = ls_chosen s" "ls_sent (replaceRow r s) = ls_sent s"
  "ls_preferenceQueue (replaceRow r s) = ls_preferenceQueue s"
  "ls_preferenceSaving (replaceRow r s) = ls_preferenceSaving s" "ls_statusSaves (replaceRow r s) = ls_statusSaves s"
  "ls_statusChosen (replaceRow r s) = ls_statusChosen s" "ls_statusSent (replaceRow r s) = ls_statusSent s"
  by (simp_all add: replaceRow_def)

lemmas row_event_defs = changeStatus_def saveStatus_def status_saved_def status_failed_def favorite_answered_def Let_def

lemma remember_available: "st \<noteq> StorageUnavailable \<Longrightarrow> rememberLibraryParams params st \<noteq> StorageUnavailable"
  by (cases st) (simp_all add: rememberLibraryParams_def)

lemma addressed_ok_step: "addressed_ok s \<Longrightarrow> addressed_ok (store_step upper U e s)"
proof (cases e)
  case AddressEffect
  assume "addressed_ok s"
  then show ?thesis using AddressEffect
    by (simp add: address_effect_def addressed_ok_def filterFromAddress_def sortFromAddress_def remember_available)
next
  case (PiecesLoaded i answer)
  assume "addressed_ok s"
  then show ?thesis using PiecesLoaded
    by (simp add: pieces_loaded_def addressed_ok_def filterFromAddress_def sortFromAddress_def Let_def
        split: sum.split prod.split)
next
  case PreferenceSaved
  assume "addressed_ok s"
  then show ?thesis using PreferenceSaved
    by (auto simp: preference_saved_def addressed_ok_def filterFromAddress_def sortFromAddress_def Let_def
        split: option.split Preference.split)
next
  case (PreferencesRead f t)
  assume "addressed_ok s"
  then show ?thesis using PreferencesRead
    by (auto simp: preferences_read_def addressed_ok_def filterFromAddress_def sortFromAddress_def Let_def
        split: option.split)
next
  case NextPreference
  assume "addressed_ok s"
  then show ?thesis using NextPreference
    by (cases "ls_preferenceQueue s")
       (auto simp: savePreference_def addressed_ok_def filterFromAddress_def sortFromAddress_def Let_def)
next
  case (ChangeStatus piece status)
  assume "addressed_ok s"
  then show ?thesis using ChangeStatus
    by (simp add: changeStatus_def addressed_ok_def filterFromAddress_def sortFromAddress_def Let_def)
next
  case (NextStatus i)
  assume "addressed_ok s"
  then show ?thesis using NextStatus
    by (simp add: saveStatus_def addressed_ok_def filterFromAddress_def sortFromAddress_def Let_def
        split: option.split list.split)
next
  case (StatusSaved i answer)
  assume "addressed_ok s"
  then show ?thesis using StatusSaved
    by (simp add: status_saved_def addressed_ok_def filterFromAddress_def sortFromAddress_def Let_def
        split: option.split)
next
  case (StatusFailed i e)
  assume "addressed_ok s"
  then show ?thesis using StatusFailed
    by (simp add: status_failed_def addressed_ok_def filterFromAddress_def sortFromAddress_def Let_def
        split: option.split)
qed (auto simp: addressed_ok_def filterFromAddress_def sortFromAddress_def load_pieces_def store_destroy_def chooseFilter_def
    chooseSort_def remember_choice_def preferences_failed_def preference_failed_def favorite_answered_def
    split: sum.split)

interpretation store_address: machine "store_step upper U" addressed_ok for upper U
  by unfold_locales (rule addressed_ok_step)

section \<open>The queue of choices\<close>

fun filters_of :: "Preference list \<Rightarrow> LibraryFilter list" where
  "filters_of [] = []"
| "filters_of (FilterChoice f # cs) = f # filters_of cs"
| "filters_of (SortChoice t # cs) = filters_of cs"

fun sorts_of :: "Preference list \<Rightarrow> LibrarySort list" where
  "sorts_of [] = []"
| "sorts_of (FilterChoice f # cs) = sorts_of cs"
| "sorts_of (SortChoice t # cs) = t # sorts_of cs"

lemma filters_of_append [simp]: "filters_of (cs @ ds) = filters_of cs @ filters_of ds"
  by (induction cs rule: filters_of.induct) simp_all

lemma sorts_of_append [simp]: "sorts_of (cs @ ds) = sorts_of cs @ sorts_of ds"
  by (induction cs rule: sorts_of.induct) simp_all

text \<open>For one kind of choice: the ones made, sent and waiting, whether any was made, the one shown.\<close>

definition kind_ok :: "'a list \<Rightarrow> 'a list \<Rightarrow> 'a list \<Rightarrow> bool \<Rightarrow> 'a \<Rightarrow> bool" where
  "kind_ok chosen sent waiting any shown_one \<longleftrightarrow>
     (\<exists>done_ones. chosen = done_ones @ waiting \<and> subseq sent done_ones) \<and>
     (chosen \<noteq> [] \<longrightarrow> any \<and> shown_one = last chosen) \<and>
     (waiting = [] \<longrightarrow> chosen = [] \<or> sent \<noteq> [] \<and> last sent = last chosen)"

lemma subseq_append_right: "subseq xs ys \<Longrightarrow> subseq xs (ys @ zs)"
  by (rule list_emb_prefix)

lemma kind_ok_choose: "kind_ok chosen sent waiting any v \<Longrightarrow> kind_ok (chosen @ [w]) sent (waiting @ [w]) True w"
  by (auto simp: kind_ok_def)

lemma kind_ok_drop:
  assumes "kind_ok chosen sent (w # waiting) any v" and "w \<noteq> v"
  shows "kind_ok chosen sent waiting any v"
proof -
  obtain d where d: "chosen = d @ w # waiting" "subseq sent d" using assms(1) by (auto simp: kind_ok_def)
  then have "waiting \<noteq> []" using assms by (auto simp: kind_ok_def)
  moreover have "subseq sent (d @ [w])" using d(2) by (rule subseq_append_right)
  ultimately show ?thesis using assms(1) d(1) by (auto simp: kind_ok_def intro!: exI [of _ "d @ [w]"])
qed

lemma kind_ok_send:
  assumes "kind_ok chosen sent (w # waiting) any v" and "w = v"
  shows "kind_ok chosen (sent @ [w]) waiting any v"
proof -
  obtain d where d: "chosen = d @ w # waiting" "subseq sent d" using assms(1) by (auto simp: kind_ok_def)
  have "subseq (sent @ [w]) (d @ [w])" using d(2) by simp
  then show ?thesis using assms d(1) by (auto simp: kind_ok_def intro!: exI [of _ "d @ [w]"])
qed

lemma kind_ok_fresh: "kind_ok chosen sent waiting any v \<Longrightarrow> \<not> any \<Longrightarrow> kind_ok chosen sent waiting any' v'"
  by (auto simp: kind_ok_def)

lemma kind_ok_in_order: "kind_ok chosen sent waiting any v \<Longrightarrow> subseq sent chosen"
  by (auto simp: kind_ok_def subseq_append_right)

definition choices_ok :: "LibraryStore \<Rightarrow> bool" where
  "choices_ok s \<longleftrightarrow>
     kind_ok (filters_of (ls_chosen s)) (filters_of (ls_sent s)) (filters_of (ls_preferenceQueue s))
       (ls_filterChosen s) (ls_filter s) \<and>
     kind_ok (sorts_of (ls_chosen s)) (sorts_of (ls_sent s)) (sorts_of (ls_preferenceQueue s))
       (ls_sortChosen s) (ls_sort s)"

lemma choices_ok_step: "choices_ok s \<Longrightarrow> choices_ok (store_step upper U e s)"
proof (cases e)
  case AddressEffect
  assume "choices_ok s"
  then show ?thesis using AddressEffect
    by (simp add: address_effect_def choices_ok_def writeAddress_def Let_def)
next
  case (PiecesLoaded i answer)
  assume "choices_ok s"
  then show ?thesis using PiecesLoaded
    by (simp add: pieces_loaded_def choices_ok_def Let_def split: sum.split prod.split)
next
  case PreferenceSaved
  assume "choices_ok s"
  then show ?thesis using PreferenceSaved
    by (auto simp: preference_saved_def choices_ok_def Let_def split: option.split Preference.split)
next
  case (PreferencesRead f t)
  assume "choices_ok s"
  then show ?thesis using PreferencesRead
    by (cases f; cases t)
       (auto simp: preferences_read_def choices_ok_def Let_def elim: kind_ok_fresh)
next
  case (ChooseFilter f)
  assume "choices_ok s"
  then show ?thesis using ChooseFilter
    by (auto simp: chooseFilter_def remember_choice_def choices_ok_def elim: kind_ok_choose)
next
  case (ChooseSort t)
  assume "choices_ok s"
  then show ?thesis using ChooseSort
    by (auto simp: chooseSort_def remember_choice_def choices_ok_def elim: kind_ok_choose)
next
  case NextPreference
  assume ok: "choices_ok s"
  show ?thesis
  proof (cases "ls_preferenceQueue s")
    case (Cons change rest)
    then show ?thesis using NextPreference ok
      by (cases change)
         (auto simp: savePreference_def outdated_def choices_ok_def Let_def intro: kind_ok_drop kind_ok_send)
  qed (use ok NextPreference in \<open>simp add: savePreference_def\<close>)
next
  case (NextStatus i)
  assume "choices_ok s"
  then show ?thesis using NextStatus
    by (simp add: saveStatus_def choices_ok_def Let_def split: option.split list.split)
next
  case (StatusSaved i answer)
  assume "choices_ok s"
  then show ?thesis using StatusSaved
    by (simp add: status_saved_def choices_ok_def Let_def split: option.split)
next
  case (StatusFailed i e)
  assume "choices_ok s"
  then show ?thesis using StatusFailed
    by (simp add: status_failed_def choices_ok_def Let_def split: option.split)
qed (auto simp: choices_ok_def load_pieces_def store_destroy_def preferences_failed_def preference_failed_def favorite_answered_def
    changeStatus_def Let_def split: sum.split)

lemma choices_kinds: "choices_ok s \<Longrightarrow> kind_ok (filters_of (ls_chosen s)) (filters_of (ls_sent s)) (filters_of (ls_preferenceQueue s))
       (ls_filterChosen s) (ls_filter s)"
  "choices_ok s \<Longrightarrow> kind_ok (sorts_of (ls_chosen s)) (sorts_of (ls_sent s)) (sorts_of (ls_preferenceQueue s))
       (ls_sortChosen s) (ls_sort s)"
  by (simp_all add: choices_ok_def)

lemma kind_ok_caught_up:
  "kind_ok chosen sent waiting any v \<Longrightarrow> waiting = [] \<Longrightarrow> chosen = [] \<or> (sent \<noteq> [] \<and> last sent = last chosen)"
  by (simp add: kind_ok_def)

interpretation store_filters: latest_wins store_enabled "store_step upper U" choices_ok
  "\<lambda>s. filters_of (ls_chosen s)" "\<lambda>s. filters_of (ls_sent s)" "\<lambda>s. filters_of (ls_preferenceQueue s) = []" for upper U
  by unfold_locales (rule choices_ok_step kind_ok_in_order [OF choices_kinds(1)] kind_ok_caught_up [OF choices_kinds(1)]; assumption)+

interpretation store_sorts: latest_wins store_enabled "store_step upper U" choices_ok
  "\<lambda>s. sorts_of (ls_chosen s)" "\<lambda>s. sorts_of (ls_sent s)" "\<lambda>s. sorts_of (ls_preferenceQueue s) = []" for upper U
  by unfold_locales (rule choices_ok_step kind_ok_in_order [OF choices_kinds(2)] kind_ok_caught_up [OF choices_kinds(2)]; assumption)+

section \<open>The queues of statuses\<close>

definition of_row :: "jstring \<Rightarrow> (jstring \<times> 'a) list \<Rightarrow> 'a list" where
  "of_row i es = map snd (filter (\<lambda>e. fst e = i) es)"

lemma of_row_append [simp]: "of_row i (es @ fs) = of_row i es @ of_row i fs"
  by (simp add: of_row_def)

lemma of_row_single [simp]: "of_row i [(j, x)] = (if j = i then [x] else [])"
  by (simp add: of_row_def)

lemma of_row_Nil [simp]: "of_row i [] = []"
  by (simp add: of_row_def)

text \<open>One row: the statuses chosen for it and sent for it, and its entry.\<close>

definition row_ok :: "PieceStatus list \<Rightarrow> PieceStatus list \<Rightarrow> StatusSave option \<Rightarrow> bool" where
  "row_ok chosen sent entry = (case entry of
     None \<Rightarrow> subseq sent chosen \<and> (chosen = [] \<or> sent \<noteq> [] \<and> last sent = last chosen)
   | Some pending \<Rightarrow> chosen \<noteq> [] \<and> kind_ok chosen sent (save_waiting pending) True (save_latest pending))"

definition saves_ok :: "LibraryStore \<Rightarrow> bool" where
  "saves_ok s \<longleftrightarrow>
     (\<forall>i. row_ok (of_row i (ls_statusChosen s)) (of_row i (ls_statusSent s)) (jm_get (ls_statusSaves s) i))"

lemma saves_okD: "saves_ok s \<Longrightarrow> row_ok (of_row i (ls_statusChosen s)) (of_row i (ls_statusSent s)) (jm_get (ls_statusSaves s) i)"
  by (simp add: saves_ok_def)

lemma row_ok_first: "row_ok chosen sent None \<Longrightarrow> kind_ok (chosen @ [w]) sent [w] True w"
  by (auto simp: row_ok_def kind_ok_def)

lemma row_ok_over: "kind_ok chosen sent [] any v \<Longrightarrow> row_ok chosen sent None"
  by (auto simp: row_ok_def kind_ok_caught_up kind_ok_in_order)

text \<open>A handler touches the one row it is about.\<close>

lemma saves_ok_row:
  assumes "saves_ok s"
    and "row_ok (of_row i (ls_statusChosen s')) (of_row i (ls_statusSent s')) (jm_get (ls_statusSaves s') i)"
    and "\<And>j. j \<noteq> i \<Longrightarrow> of_row j (ls_statusChosen s') = of_row j (ls_statusChosen s) \<and>
      of_row j (ls_statusSent s') = of_row j (ls_statusSent s) \<and>
      jm_get (ls_statusSaves s') j = jm_get (ls_statusSaves s) j"
  shows "saves_ok s'"
  unfolding saves_ok_def using saves_okD [OF assms(1)] assms(2,3) by metis

lemma row_ok_Some: "row_ok chosen sent (Some p) \<longleftrightarrow> chosen \<noteq> [] \<and> kind_ok chosen sent (save_waiting p) True (save_latest p)"
  by (simp add: row_ok_def)

lemma saves_ok_changeStatus:
  assumes "saves_ok s"
  shows "saves_ok (changeStatus piece status s)"
proof (rule saves_ok_row [where i = "s_id piece", OF assms])
  have old: "row_ok (of_row (s_id piece) (ls_statusChosen s)) (of_row (s_id piece) (ls_statusSent s))
      (jm_get (ls_statusSaves s) (s_id piece))"
    by (rule saves_okD [OF assms])
  then show "row_ok (of_row (s_id piece) (ls_statusChosen (changeStatus piece status s)))
      (of_row (s_id piece) (ls_statusSent (changeStatus piece status s)))
      (jm_get (ls_statusSaves (changeStatus piece status s)) (s_id piece))"
    by (cases "jm_get (ls_statusSaves s) (s_id piece)")
       (auto simp: changeStatus_def Let_def nullish_def jm_get_set row_ok_Some row_ok_first intro: kind_ok_choose)
qed (simp add: changeStatus_def Let_def jm_get_set)

lemma saves_ok_settle:
  assumes "saves_ok s" and "jm_get (ls_statusSaves s) i = Some old"
    and "save_waiting p = save_waiting old" and "save_latest p = save_latest old"
  shows "saves_ok (settle_status i p s)"
proof (rule saves_ok_row [where i = i, OF assms(1)])
  have old: "of_row i (ls_statusChosen s) \<noteq> []"
      "kind_ok (of_row i (ls_statusChosen s)) (of_row i (ls_statusSent s)) (save_waiting p) True (save_latest p)"
    using saves_okD [OF assms(1), of i] assms(2-4) by (simp_all add: row_ok_Some)
  then show "row_ok (of_row i (ls_statusChosen (settle_status i p s)))
      (of_row i (ls_statusSent (settle_status i p s))) (jm_get (ls_statusSaves (settle_status i p s)) i)"
    by (cases "save_waiting p = []")
       (simp_all add: settle_status_def jm_get_set jm_get_delete row_ok_Some row_ok_over)
qed (simp add: settle_status_def jm_get_set jm_get_delete)

lemma saves_ok_waiting:
  assumes "saves_ok s" and "jm_get (ls_statusSaves s) i = Some old" and "save_waiting old = w # rest"
  shows "saves_ok (saveStatus i s)"
proof -
  have old: "of_row i (ls_statusChosen s) \<noteq> []"
      "kind_ok (of_row i (ls_statusChosen s)) (of_row i (ls_statusSent s)) (w # rest) True (save_latest old)"
    using saves_okD [OF assms(1), of i] assms(2,3) by (simp_all add: row_ok_Some)
  show ?thesis
  proof (rule saves_ok_row [where i = i, OF assms(1)])
    show "row_ok (of_row i (ls_statusChosen (saveStatus i s)))
      (of_row i (ls_statusSent (saveStatus i s))) (jm_get (ls_statusSaves (saveStatus i s)) i)"
    proof (cases "save_latest old = w")
      case True
      then show ?thesis using old assms(2,3) kind_ok_send [OF old(2)]
        by (simp add: saveStatus_def Let_def jm_get_set row_ok_Some)
    next
      case False
      then have "kind_ok (of_row i (ls_statusChosen s)) (of_row i (ls_statusSent s)) rest True (save_latest old)"
        using kind_ok_drop [OF old(2)] by simp
      then show ?thesis using False old(1) assms(2,3)
        by (cases "rest = []")
           (simp_all add: saveStatus_def Let_def settle_status_def jm_get_set jm_get_delete row_ok_Some row_ok_over)
    qed
  qed (use assms(2,3) in \<open>simp add: saveStatus_def Let_def settle_status_def jm_get_set jm_get_delete\<close>)
qed

lemma saves_ok_frame:
  "saves_ok s \<Longrightarrow> ls_statusSaves s' = ls_statusSaves s \<Longrightarrow> ls_statusChosen s' = ls_statusChosen s \<Longrightarrow>
    ls_statusSent s' = ls_statusSent s \<Longrightarrow> saves_ok s'"
  by (simp add: saves_ok_def)

lemma saves_ok_step: "saves_ok s \<Longrightarrow> saves_ok (store_step upper U e s)"
proof (cases e)
  case (NextStatus i)
  assume "saves_ok s"
  then show ?thesis using NextStatus saves_ok_waiting [of s i]
    by (auto simp: saveStatus_def split: option.split list.split)
next
  case (StatusSaved i answer)
  assume "saves_ok s"
  then show ?thesis using StatusSaved
    by (auto simp: status_saved_def Let_def split: option.split intro!: saves_ok_settle elim: saves_ok_frame)
next
  case (StatusFailed i er)
  assume "saves_ok s"
  then show ?thesis using StatusFailed
    by (auto simp: status_failed_def Let_def split: option.split intro!: saves_ok_settle elim: saves_ok_frame)
next
  case (ChangeStatus piece status)
  then show "saves_ok s \<Longrightarrow> ?thesis" by (simp add: saves_ok_changeStatus)
next
  case (PreferencesRead f t)
  then show "saves_ok s \<Longrightarrow> ?thesis"
    by (cases f; cases t) (auto simp: preferences_read_def Let_def elim!: saves_ok_frame)
qed (auto simp: address_effect_def writeAddress_def pieces_loaded_def preference_saved_def savePreference_def
    load_pieces_def store_destroy_def chooseFilter_def chooseSort_def remember_choice_def preferences_failed_def preference_failed_def
    favorite_answered_def Let_def elim!: saves_ok_frame split: sum.split prod.split option.split Preference.split list.split)

lemma saves_row: "saves_ok s \<Longrightarrow> subseq (of_row i (ls_statusSent s)) (of_row i (ls_statusChosen s))"
  "saves_ok s \<Longrightarrow> jm_get (ls_statusSaves s) i = None \<Longrightarrow> of_row i (ls_statusChosen s) = [] \<or>
     (of_row i (ls_statusSent s) \<noteq> [] \<and> last (of_row i (ls_statusSent s)) = last (of_row i (ls_statusChosen s)))"
proof -
  assume "saves_ok s"
  from saves_okD [OF this, of i]
  show "subseq (of_row i (ls_statusSent s)) (of_row i (ls_statusChosen s))"
    by (cases "jm_get (ls_statusSaves s) i") (auto simp: row_ok_def intro: kind_ok_in_order)
next
  assume "saves_ok s" "jm_get (ls_statusSaves s) i = None"
  with saves_okD [of s i] show "of_row i (ls_statusChosen s) = [] \<or>
     (of_row i (ls_statusSent s) \<noteq> [] \<and> last (of_row i (ls_statusSent s)) = last (of_row i (ls_statusChosen s)))"
    by (simp add: row_ok_def)
qed

interpretation store_statuses: latest_wins store_enabled "store_step upper U" saves_ok
  "\<lambda>s. of_row i (ls_statusChosen s)" "\<lambda>s. of_row i (ls_statusSent s)"
  "\<lambda>s. jm_get (ls_statusSaves s) i = None" for upper U i
  by unfold_locales (rule saves_ok_step saves_row; assumption)+

section \<open>Properties\<close>

lemma new_store_ok:
  "addressed_ok (new_store params dn (Storage stored))" "choices_ok (new_store params dn storage)"
  "saves_ok (new_store params dn storage)"
  by (simp_all add: addressed_ok_def new_store_def Let_def filterFromAddress_def sortFromAddress_def choices_ok_def
      kind_ok_def saves_ok_def row_ok_def nullish_def split: option.split)

lemma effect_stores:
  assumes "ls_preferencesSettled s" and "ls_storage s \<noteq> StorageUnavailable"
  shows "address_of (rememberedLibraryParams (ls_storage (address_effect s))) =
    paramsOfView (store_view s) (store_remembered s)
      (filterFromAddress s \<or> ls_filterChosen s, sortFromAddress s \<or> ls_sortChosen s)"
  using assms by (cases "ls_storage s") (simp_all add: address_effect_def remembered_address)

text \<open>A user who chooses Favorites before the remembered choices arrive, and whose choice is saved.\<close>

definition demo_choices :: "store_event list" where
  "demo_choices = [ChooseFilter Favorites, NextPreference, PreferencesRead (Some AllPieces) (Some ByRecent),
     Query (js ''bach''), PreferenceSaved]"

definition demo_row :: PieceSummary where
  "demo_row = \<lparr>s_id = js ''p'', s_title = js ''Suite'', s_composer = js ''Bach'', s_aliases = [], s_favorite = False,
     s_status = Learning, s_listeningUrl = [], s_lastPlayedAt = None, s_createdAt = [], s_pdf = None, s_searchText = []\<rparr>"

text \<open>Two statuses in a row: the first save fails after the second choice.\<close>

definition demo_statuses :: "store_event list" where
  "demo_statuses = [LoadPieces, PiecesLoaded 0 (Inr ([demo_row], None)), ChangeStatus demo_row Shelved,
     NextStatus (js ''p''), ChangeStatus (demo_row\<lparr>s_status := Shelved\<rparr>) Playing, StatusFailed (js ''p'') OtherThrown,
     NextStatus (js ''p''), StatusFailed (js ''p'') OtherThrown]"

definition demo_store :: LibraryStore where
  "demo_store = new_store \<lparr>par_q = None, par_show = None, par_sort = None\<rparr> False (Storage None)"

lemma bare_address: "viewFromParams \<lparr>par_q = None, par_show = None, par_sort = None\<rparr> =
    \<lparr>pv_query = None, pv_filter = None, pv_sort = None\<rparr>"
  by (simp add: viewFromParams_def LIBRARY_FILTERS_def LIBRARY_SORTS_def PIECE_STATUSES_def)

lemmas demo_store_defs = demo_choices_def demo_statuses_def demo_row_def demo_store_def new_store_def bare_address
  Let_def nullish_def chooseFilter_def remember_choice_def savePreference_def outdated_def preferences_read_def
  preference_saved_def load_pieces_def pieces_loaded_def changeStatus_def replaceRow_def saveStatus_def
  status_failed_def settle_status_def jm_get_def jm_delete_def store_enabled_def

text \<open>C22: Once the remembered choices are known, the address the library writes and keeps in the
  tab's storage always leads back to what is shown: opening the library on it, with the remembered
  filter and sort, gives the same search, filter and sort, whatever the user chose, the server
  answered or failed to save before.\<close>

lemma stored_address_reopens_view:
  assumes "s = fold (store_step upper U) es (new_store params dn (Storage stored))" and "ls_preferencesSettled s"
  shows "opened_view (viewFromParams (address_of (rememberedLibraryParams (ls_storage (address_effect s)))))
           (store_remembered s) = store_view s"
proof -
  have "addressed_ok s" unfolding assms(1) by (rule store_address.run_inv) (rule new_store_ok(1))
  then show ?thesis using assms(2)
    by (auto simp: effect_stores addressed_ok_def store_view_def store_remembered_def intro!: address_reopens)
qed

lemma stored_address_reopens_view_witness:
  "opened_view (viewFromParams (address_of (rememberedLibraryParams (ls_storage (address_effect
       (fold (store_step id ascii_db) demo_choices demo_store))))))
     (store_remembered (fold (store_step id ascii_db) demo_choices demo_store)) =
     \<lparr>v_query = js ''bach'', v_filter = Favorites, v_sort = ByRecent\<rparr>"
proof -
  have "ls_preferencesSettled (fold (store_step id ascii_db) demo_choices demo_store)" by (simp add: demo_store_defs)
  moreover have "store_view (fold (store_step id ascii_db) demo_choices demo_store) =
      \<lparr>v_query = js ''bach'', v_filter = Favorites, v_sort = ByRecent\<rparr>"
    by (simp add: store_view_def demo_store_defs)
  ultimately show ?thesis
    by (metis stored_address_reopens_view demo_store_def)
qed

text \<open>C20: Filters and sorts are saved one at a time and in the order they were chosen, so an older
  one never overwrites a newer one at the server, and once nothing waits the last filter and the
  last sort sent are the last ones chosen, whichever saves failed.\<close>

lemma latest_choices_saved:
  assumes "enabled_run store_enabled (store_step upper U) (new_store params dn storage) es"
    and "s = fold (store_step upper U) es (new_store params dn storage)"
    and "ls_preferenceQueue s = []"
  shows "subseq (filters_of (ls_sent s)) (filters_of (ls_chosen s)) \<and>
    subseq (sorts_of (ls_sent s)) (sorts_of (ls_chosen s)) \<and>
    (filters_of (ls_chosen s) = [] \<or> last (filters_of (ls_sent s)) = last (filters_of (ls_chosen s))) \<and>
    (sorts_of (ls_chosen s) = [] \<or> last (sorts_of (ls_sent s)) = last (sorts_of (ls_chosen s)))"
  using store_filters.run_in_order [OF new_store_ok(2) assms(1)] store_filters.run_caught_up [OF new_store_ok(2) assms(1)]
    store_sorts.run_in_order [OF new_store_ok(2) assms(1)] store_sorts.run_caught_up [OF new_store_ok(2) assms(1)] assms(2,3)
  by auto

lemma latest_choices_saved_witness:
  "filters_of (ls_sent (fold (store_step id ascii_db) demo_choices demo_store)) = [Favorites]"
proof -
  have run: "enabled_run store_enabled (store_step id ascii_db) demo_store demo_choices"
    by (simp add: demo_store_defs)
  have idle: "ls_preferenceQueue (fold (store_step id ascii_db) demo_choices demo_store) = []"
    and one: "filters_of (ls_chosen (fold (store_step id ascii_db) demo_choices demo_store)) = [Favorites]"
    by (simp_all add: demo_store_defs)
  show ?thesis
    using latest_choices_saved [OF run [unfolded demo_store_def] refl, folded demo_store_def, OF idle] one
    by (cases "filters_of (ls_sent (fold (store_step id ascii_db) demo_choices demo_store))")
       (auto simp: list_emb_Nil2 demo_store_defs elim: list_emb.cases)
qed

text \<open>C10: A row's statuses are saved one at a time and in the order they were chosen, and once the
  row has no save left the last status sent for it is the last one chosen, whatever was done to
  other rows and whichever saves failed.\<close>

lemma latest_status_saved:
  assumes "enabled_run store_enabled (store_step upper U) (new_store params dn storage) es"
    and "s = fold (store_step upper U) es (new_store params dn storage)"
    and "jm_get (ls_statusSaves s) i = None"
  shows "subseq (of_row i (ls_statusSent s)) (of_row i (ls_statusChosen s)) \<and>
    (of_row i (ls_statusChosen s) = [] \<or> last (of_row i (ls_statusSent s)) = last (of_row i (ls_statusChosen s)))"
  using store_statuses.run_in_order [OF new_store_ok(3) assms(1)] store_statuses.run_caught_up [OF new_store_ok(3) assms(1)] assms(2,3)
  by auto

lemma latest_status_saved_witness:
  "last (of_row (js ''p'') (ls_statusSent (fold (store_step id ascii_db) demo_statuses demo_store))) = Playing"
proof -
  have run: "enabled_run store_enabled (store_step id ascii_db) demo_store demo_statuses"
    by (simp add: demo_store_defs)
  have idle: "jm_get (ls_statusSaves (fold (store_step id ascii_db) demo_statuses demo_store)) (js ''p'') = None"
    and chosen: "of_row (js ''p'') (ls_statusChosen (fold (store_step id ascii_db) demo_statuses demo_store)) = [Shelved, Playing]"
    by (simp_all add: demo_store_defs of_row_def)
  show ?thesis
    using latest_status_saved [OF run [unfolded demo_store_def] refl, folded demo_store_def, OF idle] chosen
    by simp
qed

section \<open>What a failed save forgets\<close>

text \<open>
  A failed status save puts back the row as it was before the first choice: a favorite set and
  confirmed by the server in between is lost from the list until it is loaded again.
\<close>

lemma failed_save_forgets_favorite:
  "map (\<lambda>row. (s_favorite row, s_status row)) (ls_allPieces (fold (store_step id ascii_db)
     [PiecesLoaded 0 (Inr ([demo_row], None)), ChangeStatus demo_row Shelved, NextStatus (js ''p''),
      FavoriteAnswered (Inr \<lparr>p_opus = None, p_musicKey = None, p_id = js ''p'', p_title = js ''Suite'',
        p_composer = js ''Bach'', p_favorite = True, p_status = Learning, p_sourceUrl = [], p_listeningUrl = [],
        p_notes = [], p_aliases = [], p_createdAt = [], p_updatedAt = [], p_pdf = None, p_lastPlayedAt = None\<rparr>),
      StatusFailed (js ''p'') OtherThrown] (load_pieces demo_store))) = [(False, Learning)]"
  by (simp add: demo_store_defs favorite_answered_def summaryOf_def)

end
