(* ===== verification/PrepareImslp.thy ===== *)
theory PrepareImslp
  imports Api Machines
begin

text \<open>
  Finding a score on IMSLP (\<open>web/src/app/features/prepare/prepare-imslp.ts\<close>): the live search
  with its debounce, retries and cache, the work link kept on the draft, and what the link and
  the name of a downloaded file say. The URL parser, \<open>normalize\<close> and \<open>toLowerCase\<close> of the browser
  are arguments; the answers of the server and the timers are events.
\<close>

section \<open>Percent-decoding\<close>

text \<open>\<open>decodeURIComponent\<close>; \<open>None\<close> where it throws a \<open>URIError\<close>.\<close>

definition hex_digit :: "nat \<Rightarrow> nat option" where
  "hex_digit c =
     (if 48 \<le> c \<and> c \<le> 57 then Some (c - 48)
      else if 65 \<le> c \<and> c \<le> 70 then Some (c - 55)
      else if 97 \<le> c \<and> c \<le> 102 then Some (c - 87) else None)"

fun percent_byte :: "jstring \<Rightarrow> (nat \<times> jstring) option" where
  "percent_byte (c # h # l # rest) =
     (if c \<noteq> 37 then None
      else (case (hex_digit h, hex_digit l) of
          (Some a, Some b) \<Rightarrow> Some (16 * a + b, rest)
        | _ \<Rightarrow> None))"
| "percent_byte _ = None"

fun continuation_bytes :: "nat \<Rightarrow> nat \<Rightarrow> jstring \<Rightarrow> (nat \<times> jstring) option" where
  "continuation_bytes 0 v s = Some (v, s)"
| "continuation_bytes (Suc n) v s = (case percent_byte s of
     None \<Rightarrow> None
   | Some (b, rest) \<Rightarrow>
       if 128 \<le> b \<and> b < 192 then continuation_bytes n (v * 64 + (b - 128)) rest else None)"

text \<open>The bytes of one character: no overlong form, no surrogate, nothing beyond U+10FFFF.\<close>

definition decode_escape :: "jstring \<Rightarrow> (nat \<times> jstring) option" where
  "decode_escape s = (case percent_byte s of
     None \<Rightarrow> None
   | Some (b, rest) \<Rightarrow>
       if b < 128 then Some (b, rest)
       else (let (n, v, least) =
               (if 192 \<le> b \<and> b < 224 then (1, b - 192, 128)
                else if 224 \<le> b \<and> b < 240 then (2, b - 224, 2048)
                else if 240 \<le> b \<and> b < 248 then (3, b - 240, 65536) else (0, 0, 1))
             in case continuation_bytes n v rest of
                  None \<Rightarrow> None
                | Some (c, rest) \<Rightarrow>
                    if c < least \<or> 55296 \<le> c \<and> c < 57344 \<or> 1114111 < c then None else Some (c, rest)))"

lemma percent_byte_shorter: "percent_byte s = Some (b, rest) \<Longrightarrow> length rest < length s"
  by (cases s rule: percent_byte.cases) (auto split: if_splits option.splits)

lemma continuation_shorter: "continuation_bytes n v s = Some (c, rest) \<Longrightarrow> length rest \<le> length s"
proof (induction n arbitrary: v s)
  case (Suc n)
  then show ?case
    by (fastforce split: option.splits if_splits prod.splits dest: percent_byte_shorter)
qed simp

lemma decode_escape_shorter:
  assumes "decode_escape s = Some (c, rest)"
  shows "length rest < length s"
proof (cases "percent_byte s")
  case (Some r)
  then obtain b t where "percent_byte s = Some (b, t)" by (cases r) simp
  with percent_byte_shorter [OF this] assms show ?thesis
    by (auto simp: decode_escape_def Let_def split: if_splits option.splits prod.splits
        simp del: continuation_bytes.simps dest!: continuation_shorter)
qed (use assms in \<open>simp add: decode_escape_def\<close>)

function decodeURIComponent :: "jstring \<Rightarrow> jstring option" where
  "decodeURIComponent s = (case s of
     [] \<Rightarrow> Some []
   | c # cs \<Rightarrow>
       if c \<noteq> 37 then map_option ((#) c) (decodeURIComponent cs)
       else (case decode_escape s of
           None \<Rightarrow> None
         | Some (v, rest) \<Rightarrow> map_option ((@) (units_of v)) (decodeURIComponent rest)))"
  by pat_completeness auto
termination
  by (relation "measure length") (auto dest: decode_escape_shorter)

declare decodeURIComponent.simps [simp del]

lemma decode_plain:
  assumes "37 \<notin> set s"
  shows "decodeURIComponent s = Some s"
  using assms by (induction s) (simp_all add: decodeURIComponent.simps)

section \<open>Work links and names\<close>

text \<open>What \<open>new URL\<close> reads; \<open>None\<close> where it throws.\<close>

record Url =
  url_protocol :: jstring
  url_host :: jstring
  url_pathname :: jstring
  url_username :: jstring
  url_password :: jstring
  url_href :: jstring

definition isIMSLPWorkLink :: "jstring \<Rightarrow> bool" where
  "isIMSLPWorkLink url \<longleftrightarrow>
     starts_with url (js ''https://imslp.org/wiki/'') \<or> starts_with url (js ''https://www.imslp.org/wiki/'')"

text \<open>The test \<open>/^\s*\([^)]*\)$/\<close> on the rest of a name, and the name up to its first match.\<close>

definition closing_group :: "jstring \<Rightarrow> bool" where
  "closing_group s \<longleftrightarrow>
     (case dropWhile js_space s of
        [] \<Rightarrow> False
      | c # body \<Rightarrow> c = 40 \<and> body \<noteq> [] \<and> last body = 41 \<and> 41 \<notin> set (butlast body))"

fun drop_group :: "jstring \<Rightarrow> jstring" where
  "drop_group [] = []"
| "drop_group (c # s) = (if closing_group (c # s) then [] else c # drop_group s)"

text \<open>The group of \<open>/\(([^()]+, [^()]+)\)$/\<close>.\<close>

definition composer_name :: "jstring \<Rightarrow> bool" where
  "composer_name body \<longleftrightarrow> 40 \<notin> set body \<and> 41 \<notin> set body \<and>
     list_ex (\<lambda>k. starts_with (drop k body) (js '', '') \<and> k + 2 < length body) [1..<length body]"

fun last_group :: "jstring \<Rightarrow> jstring option" where
  "last_group [] = None"
| "last_group (c # s) =
     (if c = 40 \<and> s \<noteq> [] \<and> last s = 41 \<and> composer_name (butlast s) then Some (butlast s) else last_group s)"

definition imslpWorkName :: "jstring \<Rightarrow> jstring \<times> jstring" where
  "imslpWorkName name = (drop_group name, nullish (last_group name) [])"

definition underscores_to_spaces :: "jstring \<Rightarrow> jstring" where
  "underscores_to_spaces s = map (\<lambda>c. if c = 95 then 32 else c) s"

section \<open>What IMSLP fills in\<close>

datatype FillField = TitleField | ComposerField

fun metadata_field :: "FillField \<Rightarrow> PieceInput \<Rightarrow> jstring" where
  "metadata_field TitleField m = in_title m"
| "metadata_field ComposerField m = in_composer m"

fun set_metadata_field :: "FillField \<Rightarrow> jstring \<Rightarrow> PieceInput \<Rightarrow> PieceInput" where
  "set_metadata_field TitleField v m = m\<lparr>in_title := v\<rparr>"
| "set_metadata_field ComposerField v m = m\<lparr>in_composer := v\<rparr>"

fun filled :: "FillField \<Rightarrow> IMSLPAutoFill \<Rightarrow> jstring option" where
  "filled TitleField p = fill_title p"
| "filled ComposerField p = fill_composer p"

fun set_filled :: "FillField \<Rightarrow> jstring option \<Rightarrow> IMSLPAutoFill \<Rightarrow> IMSLPAutoFill" where
  "set_filled TitleField v p = p\<lparr>fill_title := v\<rparr>"
| "set_filled ComposerField v p = p\<lparr>fill_composer := v\<rparr>"

fun field_edited :: "FillField \<Rightarrow> IMSLPAutoFill \<Rightarrow> bool" where
  "field_edited TitleField p = fill_titleEdited p"
| "field_edited ComposerField p = fill_composerEdited p"

definition no_fill :: IMSLPAutoFill where
  "no_fill = \<lparr>fill_title = None, fill_composer = None, fill_titleEdited = False, fill_composerEdited = False\<rparr>"

definition prefillIMSLPField :: "ImportDraft \<Rightarrow> FillField \<Rightarrow> jstring \<Rightarrow> ImportDraft" where
  "prefillIMSLPField d field v =
     (let provenance = nullish (d_imslpAutoFill d) no_fill;
          d = d\<lparr>d_imslpAutoFill := Some provenance\<rparr>;
          now = metadata_field field (d_metadata d)
      in if field_edited field provenance then d
         else if now = [] \<or> filled field provenance = Some now
              then d\<lparr>d_metadata := set_metadata_field field v (d_metadata d),
                     d_imslpAutoFill := Some (set_filled field (Some v) provenance)\<rparr>
              else d\<lparr>d_imslpAutoFill := Some (set_filled field None provenance)\<rparr>)"

definition filled_value :: "FillField \<Rightarrow> ImportDraft \<Rightarrow> jstring option" where
  "filled_value field d = (case d_imslpAutoFill d of None \<Rightarrow> None | Some p \<Rightarrow> filled field p)"

text \<open>
  The draft is changed in place, so it comes back beside the outcome, the error thrown or the
  link: the error of a name that cannot be decoded comes after the link has been stored.
\<close>

definition linkIMSLPWork ::
  "(jstring \<Rightarrow> Url option) \<Rightarrow> ImportDraft \<Rightarrow> jstring \<Rightarrow> (js_error, jstring) result \<times> ImportDraft" where
  "linkIMSLPWork read_url d link = (case read_url link of
     None \<Rightarrow> (Inl (JsError (js ''Invalid URL'')), d)
   | Some url \<Rightarrow>
       if url_protocol url \<noteq> js ''https:'' \<or> url_host url \<notin> {js ''imslp.org'', js ''www.imslp.org''} \<or>
          \<not> starts_with (url_pathname url) (js ''/wiki/'') \<or> url_username url \<noteq> [] \<or> url_password url \<noteq> []
       then (Inl (JsError (js ''Use an HTTPS work link from imslp.org/wiki/.'')), d)
       else (let changedWork = (in_sourceUrl (d_metadata d) \<noteq> url_href url);
                 d = d\<lparr>d_metadata := (d_metadata d)\<lparr>in_sourceUrl := url_href url\<rparr>\<rparr>
             in case decodeURIComponent (drop 6 (url_pathname url)) of
                  None \<Rightarrow> (Inl (JsError (js ''URI malformed'')), d)
                | Some name \<Rightarrow>
                    (let (title, composer) = imslpWorkName (underscores_to_spaces name);
                         d = (if changedWork \<or> in_title (d_metadata d) = [] \<and> filled_value TitleField d = None
                              then prefillIMSLPField d TitleField title else d);
                         d = (if changedWork \<or> in_composer (d_metadata d) = [] \<and> filled_value ComposerField d = None
                              then prefillIMSLPField d ComposerField composer else d)
                     in (Inr (url_href url), d))))"

text \<open>The work whose link the draft holds.\<close>

definition chosenIMSLPWork :: "ImportDraft option \<Rightarrow> IMSLPWork option" where
  "chosenIMSLPWork d =
     (let url = (case d of None \<Rightarrow> [] | Some d \<Rightarrow> in_sourceUrl (d_metadata d))
      in if \<not> isIMSLPWorkLink url then None
         else (let name = drop (the (index_of url (js ''/wiki/'') 0) + 6) url;
                   name = nullish (decodeURIComponent name) name;
                   (title, composer) = imslpWorkName (underscores_to_spaces name)
               in Some \<lparr>w_title = title, w_composer = composer, w_url = url\<rparr>))"

definition filled_shown :: "FillField \<Rightarrow> ImportDraft \<Rightarrow> bool" where
  "filled_shown field d \<longleftrightarrow>
     (case filled_value field d of None \<Rightarrow> False | Some v \<Rightarrow> v \<noteq> [] \<and> v = metadata_field field (d_metadata d))"

definition imslpProvenance :: "ImportDraft option \<Rightarrow> jstring" where
  "imslpProvenance d =
     (let title = (case d of None \<Rightarrow> False | Some d \<Rightarrow> filled_shown TitleField d);
          composer = (case d of None \<Rightarrow> False | Some d \<Rightarrow> filled_shown ComposerField d)
      in if title \<and> composer then js ''Title and composer filled from IMSLP''
         else if title then js ''Title filled from IMSLP''
         else if composer then js ''Composer filled from IMSLP'' else [])"

text \<open>The number of \<open>/^IMSLP(\d+)-/\<close>.\<close>

definition imslp_file_number :: "jstring \<Rightarrow> jstring option" where
  "imslp_file_number filename =
     (if \<not> starts_with filename (js ''IMSLP'') then None
      else (let rest = drop 5 filename; digits = takeWhile is_digit rest
            in if digits \<noteq> [] \<and> starts_with (dropWhile is_digit rest) (js ''-'') then Some digits else None))"

definition fold_name :: "(jstring \<Rightarrow> jstring) \<Rightarrow> (jstring \<Rightarrow> jstring) \<Rightarrow> jstring \<Rightarrow> jstring" where
  "fold_name nfd lower_case t =
     filter (\<lambda>c. is_az c \<or> is_digit c) (lower_case (filter (\<lambda>c. \<not> (768 \<le> c \<and> c \<le> 879)) (nfd t)))"

definition imslpFileMatch ::
  "(jstring \<Rightarrow> jstring) \<Rightarrow> (jstring \<Rightarrow> jstring) \<Rightarrow> jstring \<Rightarrow> IMSLPWork option \<Rightarrow> jstring" where
  "imslpFileMatch nfd lower_case filename work = (case imslp_file_number filename of
     None \<Rightarrow> []
   | Some number \<Rightarrow>
       (let lastName = fold_name nfd lower_case (case work of None \<Rightarrow> [] | Some w \<Rightarrow> hd (split_on 44 (w_composer w)))
        in if lastName \<noteq> [] \<and> text_includes (fold_name nfd lower_case filename) lastName
           then js ''IMSLP file '' @ number @ js '', by the chosen work'' @ [39] @ js ''s composer.''
           else js ''IMSLP file '' @ number @ js ''. Check it is an edition of the chosen work.''))"

text \<open>The query as it is compared and cached: trimmed, single spaces, lower case.\<close>

fun squeeze_spaces :: "jstring \<Rightarrow> jstring" where
  "squeeze_spaces [] = []"
| "squeeze_spaces (c # s) =
     (if js_space c then 32 # squeeze_spaces (dropWhile js_space s) else c # squeeze_spaces s)"

definition imslpQueryKey :: "(jstring \<Rightarrow> jstring) \<Rightarrow> jstring \<Rightarrow> jstring" where
  "imslpQueryKey lower_case query = lower_case (squeeze_spaces (js_trim query))"

section \<open>The user's own texts\<close>

text \<open>A title or composer typed by the user (\<open>updateMetadata\<close> of the page).\<close>

fun mark_edited :: "FillField \<Rightarrow> IMSLPAutoFill \<Rightarrow> IMSLPAutoFill" where
  "mark_edited TitleField p = p\<lparr>fill_title := None, fill_titleEdited := True\<rparr>"
| "mark_edited ComposerField p = p\<lparr>fill_composer := None, fill_composerEdited := True\<rparr>"

definition edit_field :: "FillField \<Rightarrow> jstring \<Rightarrow> ImportDraft \<Rightarrow> ImportDraft" where
  "edit_field field v d = d\<lparr>d_metadata := set_metadata_field field v (d_metadata d),
     d_imslpAutoFill := Some (mark_edited field (nullish (d_imslpAutoFill d) no_fill))\<rparr>"

text \<open>A work chosen in the panel: its link, title and composer.\<close>

definition fill_from_work :: "IMSLPWork \<Rightarrow> ImportDraft \<Rightarrow> ImportDraft" where
  "fill_from_work work d =
     (let d = d\<lparr>d_metadata := (d_metadata d)\<lparr>in_sourceUrl := w_url work\<rparr>\<rparr>;
          d = prefillIMSLPField d TitleField (w_title work);
          d = prefillIMSLPField d ComposerField (w_composer work)
      in d\<lparr>d_imslpAutoFill := Some (nullish (d_imslpAutoFill d) no_fill)\<rparr>)"

datatype fill_event = LinkWork jstring | ChooseWork IMSLPWork | EditField FillField jstring

fun fill_step :: "(jstring \<Rightarrow> Url option) \<Rightarrow> fill_event \<Rightarrow> ImportDraft \<Rightarrow> ImportDraft" where
  "fill_step read_url (LinkWork link) d = snd (linkIMSLPWork read_url d link)"
| "fill_step read_url (ChooseWork work) d = fill_from_work work d"
| "fill_step read_url (EditField field v) d = edit_field field v d"

definition other_edit :: "FillField \<Rightarrow> ImportDraft \<Rightarrow> fill_event \<Rightarrow> bool" where
  "other_edit field d e \<longleftrightarrow> (case e of EditField f v \<Rightarrow> f \<noteq> field | _ \<Rightarrow> True)"

definition owned :: "FillField \<Rightarrow> jstring \<Rightarrow> ImportDraft \<Rightarrow> bool" where
  "owned field v d \<longleftrightarrow> metadata_field field (d_metadata d) = v \<and>
     (case d_imslpAutoFill d of None \<Rightarrow> False | Some p \<Rightarrow> field_edited field p)"

lemma field_simps [simp]:
  "metadata_field f (set_metadata_field g v m) = (if f = g then v else metadata_field f m)"
  "field_edited f (set_filled g v' p) = field_edited f p"
  "metadata_field f (m\<lparr>in_sourceUrl := u\<rparr>) = metadata_field f m"
  "filled f (set_filled g v' p) = (if f = g then v' else filled f p)"
  by (cases f; cases g; simp)+

lemma edit_simps [simp]:
  "field_edited f (mark_edited g p) \<longleftrightarrow> f = g \<or> field_edited f p" "filled f (mark_edited g p) = (if f = g then None else filled f p)"
  by (cases f; cases g; simp)+

lemma prefill_owned: "owned f v d \<Longrightarrow> owned f v (prefillIMSLPField d g w)"
  by (cases f; cases g) (auto simp: owned_def prefillIMSLPField_def Let_def nullish_def split: option.splits)

lemma link_owned: "owned f v d \<Longrightarrow> owned f v (d\<lparr>d_metadata := (d_metadata d)\<lparr>in_sourceUrl := u\<rparr>\<rparr>)"
  by (simp add: owned_def)

lemma linkIMSLPWork_owned: "owned f v d \<Longrightarrow> owned f v (snd (linkIMSLPWork read_url d link))"
  by (auto simp: linkIMSLPWork_def Let_def intro!: prefill_owned link_owned split: option.split prod.split)

lemma fill_step_owned: "owned f v d \<Longrightarrow> other_edit f d e \<Longrightarrow> owned f v (fill_step read_url e d)"
proof (cases e)
  case (ChooseWork work)
  assume "owned f v d"
  then have "owned f v (prefillIMSLPField (prefillIMSLPField (d\<lparr>d_metadata := (d_metadata d)\<lparr>in_sourceUrl := w_url work\<rparr>\<rparr>)
      TitleField (w_title work)) ComposerField (w_composer work))" by (intro prefill_owned link_owned)
  then show ?thesis using ChooseWork
    by (auto simp: fill_from_work_def Let_def owned_def split: option.splits)
next
  case (EditField g w)
  assume "owned f v d" "other_edit f d e"
  then show ?thesis using EditField
    by (auto simp: other_edit_def owned_def edit_field_def split: option.splits)
qed (simp add: linkIMSLPWork_owned)

interpretation user_text: guarded_machine "other_edit f" "fill_step read_url" "owned f v" for f read_url v
  by unfold_locales (rule fill_step_owned)

text \<open>C27: IMSLP never overwrites what the user typed. Once the title or the composer has been edited,
  no work link pasted and no work chosen afterwards changes it; and a text that was there before
  and did not come from IMSLP survives the first link or work as well.\<close>

theorem user_text_survives:
  assumes "enabled_run (other_edit f) (fill_step read_url) (edit_field f v d) es"
    and "metadata_field f (d_metadata d') \<noteq> []" and "filled_value f d' \<noteq> Some (metadata_field f (d_metadata d'))"
  shows "metadata_field f (d_metadata (fold (fill_step read_url) es (edit_field f v d))) = v \<and>
    metadata_field f (d_metadata (snd (linkIMSLPWork read_url d' link))) = metadata_field f (d_metadata d') \<and>
    metadata_field f (d_metadata (fill_from_work work d')) = metadata_field f (d_metadata d')"
proof -
  have "owned f v (edit_field f v d)" by (simp add: owned_def edit_field_def)
  from user_text.run_inv [OF this assms(1)] have one: "metadata_field f (d_metadata (fold (fill_step read_url) es (edit_field f v d))) = v"
    by (simp add: owned_def)
  define keeps where "keeps d'' \<longleftrightarrow> metadata_field f (d_metadata d'') = metadata_field f (d_metadata d') \<and>
    filled_value f d'' \<noteq> Some (metadata_field f (d_metadata d'))" for d''
  have pre: "keeps (prefillIMSLPField d'' g w)" if "keeps d''" for d'' g w
    using that assms(2) unfolding keeps_def filled_value_def prefillIMSLPField_def Let_def
    by (cases "d_imslpAutoFill d''"; cases f; cases g) (auto simp: no_fill_def)
  have link: "keeps (d''\<lparr>d_metadata := (d_metadata d'')\<lparr>in_sourceUrl := u\<rparr>\<rparr>)" if "keeps d''" for d'' u
    using that by (simp add: keeps_def filled_value_def)
  have start: "keeps d'" using assms(3) by (simp add: keeps_def)
  then have "keeps (snd (linkIMSLPWork read_url d' link))"
    unfolding linkIMSLPWork_def Let_def
    by (auto intro!: pre link split: option.split prod.split)
  moreover have "metadata_field f (d_metadata (fill_from_work work d')) = metadata_field f (d_metadata d')"
    using pre [OF pre [OF link [OF start]]] by (simp add: fill_from_work_def Let_def keeps_def)
  ultimately show ?thesis using one by (simp add: keeps_def)
qed

definition demo_draft :: ImportDraft where
  "demo_draft = \<lparr>d_id = js ''d'', d_pieceId = None, d_revision = 1,
     d_metadata = \<lparr>in_opus = None, in_musicKey = None, in_title = [], in_composer = js ''Bach'', in_favorite = False,
       in_status = None, in_sourceUrl = [], in_listeningUrl = [], in_notes = [], in_aliases = None\<rparr>,
     d_imslpAutoFill = None, d_manifest = \<lparr>m_version = 1, m_pages = []\<rparr>,
     d_initialManifest = \<lparr>m_version = 1, m_pages = []\<rparr>, d_sources = [], d_finalized = False, d_updatedAt = [],
     d_maxFileBytes = 1000\<rparr>"

text \<open>A URL parser for the witnesses: everything after the host is the path.\<close>

definition demo_url :: "jstring \<Rightarrow> Url option" where
  "demo_url link =
     (if starts_with link (js ''https://imslp.org'')
      then Some \<lparr>url_protocol = js ''https:'', url_host = js ''imslp.org'', url_pathname = drop 17 link,
             url_username = [], url_password = [], url_href = link\<rparr>
      else None)"

theorem user_text_survives_witness:
  "let d = edit_field ComposerField (js ''J. S. Bach'') demo_draft;
       e = LinkWork (js ''https://imslp.org/wiki/Suite_(Bach,_J.S.)'')
   in in_composer (d_metadata (fold (fill_step demo_url) [e] d)) = js ''J. S. Bach'' \<and>
      in_title (d_metadata (fold (fill_step demo_url) [e] d)) = js ''Suite'' \<and>
      in_composer (d_metadata (fill_step demo_url e demo_draft)) = js ''Bach''"
proof -
  let ?e = "LinkWork (js ''https://imslp.org/wiki/Suite_(Bach,_J.S.)'')"
  have run: "enabled_run (other_edit ComposerField) (fill_step demo_url)
      (edit_field ComposerField (js ''J. S. Bach'') demo_draft) [?e]" by (simp add: other_edit_def)
  have old: "metadata_field ComposerField (d_metadata demo_draft) \<noteq> []"
    "filled_value ComposerField demo_draft \<noteq> Some (metadata_field ComposerField (d_metadata demo_draft))"
    by (simp_all add: demo_draft_def filled_value_def js_def)
  have "in_title (d_metadata (fold (fill_step demo_url) [?e] (edit_field ComposerField (js ''J. S. Bach'') demo_draft))) = js ''Suite''"
    by code_simp
  moreover have "metadata_field ComposerField (d_metadata demo_draft) = js ''Bach''" by (simp add: demo_draft_def)
  ultimately show ?thesis using user_text_survives [OF run old] by (simp add: Let_def)
qed

section \<open>Errors and names\<close>


lemma malformed_link_stays:
  "let (outcome, d) = linkIMSLPWork demo_url demo_draft (js ''https://imslp.org/wiki/100%'')
   in outcome = Inl (JsError (js ''URI malformed'')) \<and>
      in_sourceUrl (d_metadata d) = js ''https://imslp.org/wiki/100%''"
  by code_simp

text \<open>IMSLP's page names, "Title (Last, First)", are taken apart as they were put together.\<close>

lemma drop_group_title:
  assumes "40 \<notin> set title" and "title = [] \<or> \<not> js_space (last title)"
    and "closing_group s" and "s \<noteq> []"
  shows "drop_group (title @ s) = title"
  using assms(1,2)
proof (induction title)
  case Nil
  then show ?case using assms(3,4) by (cases s) simp_all
next
  case (Cons c t)
  have "\<not> closing_group (c # t @ s)"
  proof (cases "dropWhile js_space (c # t)")
    case Nil
    then have "\<forall>x \<in> set (c # t). js_space x" by (simp only: dropWhile_eq_Nil_conv)
    then show ?thesis using Cons.prems(2) by (metis last_in_set list.discI)
  next
    case (Cons x xs)
    then have "dropWhile js_space (c # t @ s) = x # xs @ s"
      by (metis append_Cons dropWhile_append1 dropWhile_eq_Nil_conv list.discI)
    moreover have "x \<noteq> 40" using Cons \<open>40 \<notin> set (c # t)\<close>
      by (metis list.set_intros(1) set_dropWhileD)
    ultimately show ?thesis by (simp add: closing_group_def)
  qed
  then show ?case using Cons by (auto split: if_splits)
qed

theorem imslp_name_parsed:
  assumes "40 \<notin> set title" and "title = [] \<or> \<not> js_space (last title)"
    and "surname \<noteq> []" "first \<noteq> []" and "{40, 41} \<inter> set (surname @ first) = {}"
  shows "imslpWorkName (title @ js '' ('' @ surname @ js '', '' @ first @ js '')'') = (title, surname @ js '', '' @ first)"
proof -
  let ?body = "surname @ js '', '' @ first"
  have j: "js '' ('' = [32, 40]" "js '')'' = [41]" "js '', '' = [44, 32]" by (simp_all add: js_def)
  have parens: "40 \<notin> set ?body" "41 \<notin> set ?body" using assms(5) by (auto simp: j)
  have "closing_group (js '' ('' @ ?body @ js '')'')"
    using parens by (simp add: closing_group_def j js_space_def butlast_append)
  then have t: "drop_group (title @ js '' ('' @ ?body @ js '')'') = title"
    by (rule drop_group_title [OF assms(1,2)]) (simp add: j)
  have "length surname \<in> set [1..<length ?body]" using assms(3,4) by (cases surname; cases first) (simp_all add: j del: upt_Suc)
  moreover have "starts_with (drop (length surname) ?body) (js '', '')" by (simp add: starts_with_def j)
  moreover have "length surname + 2 < length ?body" using assms(4) by (simp add: j)
  ultimately have "composer_name ?body" using parens unfolding composer_name_def list_ex_iff by blast
  then have "last_group (40 # ?body @ [41]) = Some ?body" by (simp add: butlast_append)
  moreover have "last_group (title @ 32 # s) = last_group s" for s
    using assms(1) by (induction title) auto
  ultimately show ?thesis using t by (simp add: imslpWorkName_def j)
qed

theorem imslp_name_parsed_witness:
  "imslpWorkName (js ''Suite No. 1 (Bach, J.S.)'') = (js ''Suite No. 1'', js ''Bach, J.S.'')"
proof -
  have "40 \<notin> set (js ''Suite No. 1'')" "js ''Suite No. 1'' = [] \<or> \<not> js_space (last (js ''Suite No. 1''))"
    "js ''Bach'' \<noteq> []" "js ''J.S.'' \<noteq> []" "{40, 41} \<inter> set (js ''Bach'' @ js ''J.S.'') = {}"
    by (simp_all add: js_def js_space_def)
  from imslp_name_parsed [OF this] show ?thesis by (simp add: js_def)
qed

end
