(* ===== verification/ImslpSearch.thy ===== *)
theory ImslpSearch
  imports PrepareImslp
begin

text \<open>
  The live IMSLP search as a state machine (\<open>ImslpSearch\<close> in
  \<open>web/src/app/features/prepare/prepare-imslp.ts\<close>). Timers are numbered and listed while they
  can still fire: the code keeps only the latest number, so a timer it no longer knows stays
  listed. The search under way is the one whose answer can still arrive.
\<close>

section \<open>State\<close>

definition IMSLP_CACHE_ENTRIES :: nat where
  "IMSLP_CACHE_ENTRIES = 20"

datatype ImslpStage = Idle | Searching | Found | Slow | Quick  \<comment> \<open>idle, searching, ready, unavailable, throttled\<close>

datatype ImslpTimer = DebounceTimer | ThrottleTimer | RetryTimer jstring

record ImslpRequest =
  ir_number :: nat
  ir_key :: jstring
  ir_query :: jstring
  ir_retry :: bool

record IMSLPAddedFile =
  added_filename :: jstring
  added_match :: jstring

record ImslpSearch =
  im_link :: jstring
  im_query :: jstring
  im_results :: "IMSLPWork list"
  im_status :: ImslpStage
  im_changing :: bool
  im_opened :: bool
  im_dropHot :: bool
  im_linkOpen :: bool
  im_stale :: bool
  im_added :: "IMSLPAddedFile list"
  im_request :: nat
  im_timer :: "nat option"
  im_search :: "ImslpRequest option"
  im_lastSent :: jstring
  im_destroyed :: bool
  im_cache :: "(jstring, IMSLPWork list) js_map"
  \<comment> \<open>the browser and the server\<close>
  im_timers :: nat  \<comment> \<open>timers made\<close>
  im_live :: "(nat \<times> ImslpTimer) list"  \<comment> \<open>timers that can still fire\<close>
  im_sent :: "jstring list"  \<comment> \<open>queries sent\<close>
  im_answers :: "(jstring \<times> IMSLPWork list) list"  \<comment> \<open>works the server answered, by key\<close>

definition new_search :: ImslpSearch where
  "new_search = \<lparr>im_link = [], im_query = [], im_results = [], im_status = Idle, im_changing = False,
     im_opened = False, im_dropHot = False, im_linkOpen = False, im_stale = False, im_added = [], im_request = 0,
     im_timer = None, im_search = None, im_lastSent = [], im_destroyed = False, im_cache = [], im_timers = 0,
     im_live = [], im_sent = [], im_answers = []\<rparr>"

section \<open>Operations\<close>

definition clear_timer :: "ImslpSearch \<Rightarrow> ImslpSearch" where
  "clear_timer s = s\<lparr>im_live := filter (\<lambda>t. im_timer s \<noteq> Some (fst t)) (im_live s)\<rparr>"

definition start_timer :: "ImslpTimer \<Rightarrow> ImslpSearch \<Rightarrow> ImslpSearch" where
  "start_timer t s = s\<lparr>im_timer := Some (im_timers s), im_live := im_live s @ [(im_timers s, t)],
     im_timers := im_timers s + 1\<rparr>"

text \<open>Results on screen during a pending, running or throttled search are not selectable.\<close>

definition resultsStale :: "ImslpSearch \<Rightarrow> bool" where
  "resultsStale s \<longleftrightarrow> im_stale s \<or> im_status s = Searching \<or> im_status s = Quick"

definition remember_works :: "jstring \<Rightarrow> IMSLPWork list \<Rightarrow> ImslpSearch \<Rightarrow> ImslpSearch" where
  "remember_works key works s =
     (let cache = jm_set (jm_delete (im_cache s) key) key works
      in s\<lparr>im_cache := (if length cache > IMSLP_CACHE_ENTRIES then jm_delete cache (hd (jm_keys cache)) else cache)\<rparr>)"

definition cancel_search :: "ImslpSearch \<Rightarrow> ImslpSearch" where
  "cancel_search s =
     (let s = (clear_timer s)\<lparr>im_request := im_request s + 1, im_search := None, im_lastSent := [], im_stale := False\<rparr>
      in if im_status s = Searching \<or> im_status s = Quick
         then s\<lparr>im_status := (if im_results s \<noteq> [] then Found else Idle)\<rparr> else s)"

definition destroy_search :: "ImslpSearch \<Rightarrow> ImslpSearch" where
  "destroy_search s = cancel_search (s\<lparr>im_destroyed := True\<rparr>)"

definition reset_search :: "ImslpSearch \<Rightarrow> ImslpSearch" where
  "reset_search s = (cancel_search s)\<lparr>im_status := Idle, im_results := []\<rparr>"

definition find_works :: "(jstring \<Rightarrow> jstring) \<Rightarrow> bool \<Rightarrow> bool \<Rightarrow> ImslpSearch \<Rightarrow> ImslpSearch" where
  "find_works lower_case immediate retry s =
     (let s = clear_timer s; query = js_trim (im_query s)
      in if length query < 2 \<or> length query > 100 then reset_search s
         else (let key = imslpQueryKey lower_case query
               in if key = im_lastSent s \<and> \<not> immediate then s
                  else (let s = s\<lparr>im_lastSent := key, im_request := im_request s + 1, im_search := None\<rparr>
                        in case jm_get (im_cache s) key of
                             Some cached \<Rightarrow>
                               (remember_works key cached s)\<lparr>im_status := Found, im_results := cached, im_stale := False\<rparr>
                           | None \<Rightarrow>
                               (if retry then s else s\<lparr>im_status := Searching\<rparr>)
                                 \<lparr>im_search := Some \<lparr>ir_number = im_request s, ir_key = key, ir_query = query, ir_retry = retry\<rparr>,
                                  im_sent := im_sent s @ [query]\<rparr>)))"

definition search_input :: "(jstring \<Rightarrow> jstring) \<Rightarrow> ImslpSearch \<Rightarrow> ImslpSearch" where
  "search_input lower_case s =
     (let s = clear_timer s
      in if length (js_trim (im_query s)) < 2 then reset_search s
         else (let s = (if imslpQueryKey lower_case (im_query s) \<noteq> im_lastSent s
                        then s\<lparr>im_request := im_request s + 1, im_search := None, im_lastSent := [], im_stale := True\<rparr>
                        else s)
               in start_timer DebounceTimer s))"

definition search_enter :: "(jstring \<Rightarrow> jstring) \<Rightarrow> ImslpSearch \<Rightarrow> ImslpSearch" where
  "search_enter lower_case s = find_works lower_case True False s"

definition search_unavailable :: "ImslpRequest \<Rightarrow> ImslpSearch \<Rightarrow> ImslpSearch" where
  "search_unavailable r s =
     (let s = s\<lparr>im_lastSent := [], im_status := Slow, im_results := [], im_stale := False, im_linkOpen := True\<rparr>
      in if ir_retry r then s else start_timer (RetryTimer (ir_query r)) s)"

text \<open>The answer to the search under way; an error counts as unavailable.\<close>

definition search_answered :: "(js_error, IMSLPSearch) result \<Rightarrow> ImslpSearch \<Rightarrow> ImslpSearch" where
  "search_answered answer s = (case im_search s of
     None \<Rightarrow> s
   | Some r \<Rightarrow>
       (let s = s\<lparr>im_search := None\<rparr>
        in if ir_number r \<noteq> im_request s \<or> im_destroyed s then s
           else (case answer of
               Inl e \<Rightarrow> search_unavailable r s
             | Inr found \<Rightarrow> (case imslp_status found of
                   Ready \<Rightarrow> (remember_works (ir_key r) (imslp_results found) s)
                     \<lparr>im_status := Found, im_results := imslp_results found, im_stale := False,
                      im_answers := im_answers s @ [(ir_key r, imslp_results found)]\<rparr>
                 | Throttled \<Rightarrow> start_timer ThrottleTimer (s\<lparr>im_lastSent := [], im_status := Quick\<rparr>)
                 | Unavailable \<Rightarrow> search_unavailable r s))))"

text \<open>A timer fires; \<open>panelOpen\<close> tells whether the panel still shows.\<close>

definition timer_fired :: "(jstring \<Rightarrow> jstring) \<Rightarrow> bool \<Rightarrow> nat \<Rightarrow> ImslpSearch \<Rightarrow> ImslpSearch" where
  "timer_fired lower_case panelOpen n s = (case map_of (im_live s) n of
     None \<Rightarrow> s
   | Some t \<Rightarrow>
       (let s = s\<lparr>im_live := filter (\<lambda>t. fst t \<noteq> n) (im_live s)\<rparr>
        in case t of
             DebounceTimer \<Rightarrow> find_works lower_case False False s
           | ThrottleTimer \<Rightarrow> find_works lower_case True False s
           | RetryTimer query \<Rightarrow>
               if js_trim (im_query s) = query \<and> panelOpen then find_works lower_case True True s else s))"

definition statusText :: "ImslpSearch \<Rightarrow> jstring" where
  "statusText s = (case im_status s of
     Idle \<Rightarrow> js ''Type at least two characters.''
   | Searching \<Rightarrow> js ''Searching IMSLP'' @ [8230]
   | Quick \<Rightarrow> js ''You'' @ [39] @ js ''re searching quickly. Results will catch up in a moment.''
   | Slow \<Rightarrow> js ''IMSLP is slow right now. Paste a work link or add a downloaded PDF, or press Enter to try again.''
   | Found \<Rightarrow> if im_results s \<noteq> [] then []
       else js ''No works match. Check the spelling, try the composer alone, or paste a work link.'')"

section \<open>The search as a state machine\<close>

datatype search_event =
    Typed jstring | EnterPressed | SearchTimer bool nat | SearchAnswered "(js_error, IMSLPSearch) result"
  | CancelSearch | DestroySearch

fun search_step :: "(jstring \<Rightarrow> jstring) \<Rightarrow> search_event \<Rightarrow> ImslpSearch \<Rightarrow> ImslpSearch" where
  "search_step lower_case (Typed query) s = search_input lower_case (s\<lparr>im_query := query\<rparr>)"
| "search_step lower_case EnterPressed s = search_enter lower_case s"
| "search_step lower_case (SearchTimer panelOpen n) s = timer_fired lower_case panelOpen n s"
| "search_step lower_case (SearchAnswered answer) s = search_answered answer s"
| "search_step lower_case CancelSearch s = cancel_search s"
| "search_step lower_case DestroySearch s = destroy_search s"

section \<open>What can be opened answers the query\<close>

text \<open>Without leaving the panel, which forgets that the results are old.\<close>

definition stays_open :: "ImslpSearch \<Rightarrow> search_event \<Rightarrow> bool" where
  "stays_open s e \<longleftrightarrow> e \<noteq> CancelSearch \<and> e \<noteq> DestroySearch"

definition works_ok :: "ImslpSearch \<Rightarrow> bool" where
  "works_ok s \<longleftrightarrow> set (im_cache s) \<subseteq> set (im_answers s) \<and> length (im_cache s) \<le> IMSLP_CACHE_ENTRIES \<and> jm_ok (im_cache s)"

definition no_retry :: "ImslpSearch \<Rightarrow> bool" where
  "no_retry s \<longleftrightarrow> (\<forall>(n, t) \<in> set (im_live s). \<forall>q. t \<noteq> RetryTimer q)"

definition retry_ok :: "ImslpSearch \<Rightarrow> bool" where
  "retry_ok s \<longleftrightarrow> (\<forall>(n, t) \<in> set (im_live s).
     \<forall>q. t = RetryTimer q \<longrightarrow> im_timer s = Some n \<and> im_results s = [] \<and> im_search s = None)"

definition query_key :: "(jstring \<Rightarrow> jstring) \<Rightarrow> ImslpSearch \<Rightarrow> jstring" where
  "query_key lower_case s = imslpQueryKey lower_case (im_query s)"

definition shown_ok :: "(jstring \<Rightarrow> jstring) \<Rightarrow> ImslpSearch \<Rightarrow> bool" where
  "shown_ok lower_case s \<longleftrightarrow> im_results s = [] \<or> resultsStale s \<or>
     im_lastSent s = query_key lower_case s \<and> (im_lastSent s, im_results s) \<in> set (im_answers s)"

definition asked_ok :: "(jstring \<Rightarrow> jstring) \<Rightarrow> ImslpSearch \<Rightarrow> bool" where
  "asked_ok lower_case s \<longleftrightarrow> (case im_search s of None \<Rightarrow> True
     | Some r \<Rightarrow> ir_key r = im_lastSent s \<and> ir_key r = query_key lower_case s \<and> (im_results s = [] \<or> resultsStale s))"

definition results_ok :: "(jstring \<Rightarrow> jstring) \<Rightarrow> ImslpSearch \<Rightarrow> bool" where
  "results_ok lower_case s \<longleftrightarrow> works_ok s \<and> retry_ok s \<and> shown_ok lower_case s \<and> asked_ok lower_case s"

lemma js_trim_idem: "js_trim (js_trim s) = js_trim s"
proof -
  have once: "dropWhile P (dropWhile P xs) = dropWhile P xs" for P and xs :: "nat list"
    by (induction xs) auto
  have keep: "dropWhile P (rev (dropWhile P (rev xs))) = rev (dropWhile P (rev xs))"
    if "dropWhile P xs = xs" for P and xs :: "nat list"
  proof (cases "rev (dropWhile P (rev xs))")
    case (Cons y ys)
    have "prefix (rev (dropWhile P (rev xs))) xs"
      by (metis suffix_dropWhile suffix_to_prefix rev_rev_ident)
    then have "xs \<noteq> []" "hd xs = y" using Cons by (auto simp: prefix_def)
    then have "\<not> P y" using that by (auto simp: dropWhile_eq_self_iff)
    then show ?thesis using Cons by simp
  next
    case Nil
    then show ?thesis by (simp only: dropWhile.simps)
  qed
  show ?thesis unfolding js_trim_def using keep [OF once [of js_space s]] by (simp add: once)
qed

lemma key_trim: "imslpQueryKey lower_case (js_trim q) = imslpQueryKey lower_case q"
  by (simp add: imslpQueryKey_def js_trim_idem)

lemmas results_simps = results_ok_def retry_ok_def shown_ok_def asked_ok_def query_key_def resultsStale_def

lemma works_remember:
  assumes "works_ok s" and "(key, works) \<in> set (im_answers s)"
  shows "works_ok (remember_works key works s)"
proof -
  let ?cache = "jm_delete (im_cache s) key @ [(key, works)]"
  have sub: "set ?cache \<subseteq> set (im_answers s)" using assms by (auto simp: works_ok_def jm_delete_def)
  have ok: "jm_ok ?cache" using assms(1)
    by (auto simp: works_ok_def jm_ok_def jm_delete_def intro: distinct_map_filter)
  have len: "length ?cache \<le> Suc IMSLP_CACHE_ENTRIES" using assms(1)
    by (simp add: works_ok_def jm_delete_def) (meson le_trans length_filter_le)
  obtain k v r where c: "?cache = (k, v) # r" by (cases ?cache) auto
  have less: "length (jm_delete ?cache (hd (jm_keys ?cache))) < length ?cache"
    unfolding c by (simp add: jm_delete_def less_Suc_eq_le)
  have "jm_ok (jm_delete ?cache (hd (jm_keys ?cache)))" by (rule jm.invar_remove [OF ok])
  moreover have "set (jm_delete ?cache (hd (jm_keys ?cache))) \<subseteq> set ?cache" by (auto simp: jm_delete_def)
  ultimately show ?thesis using sub ok len less
    by (auto simp: works_ok_def remember_works_def Let_def jm_touch simp del: length_append set_append)
qed

lemma remember_frame [simp]:
  "im_results (remember_works k w s) = im_results s" "im_status (remember_works k w s) = im_status s"
  "im_stale (remember_works k w s) = im_stale s" "im_lastSent (remember_works k w s) = im_lastSent s"
  "im_query (remember_works k w s) = im_query s" "im_answers (remember_works k w s) = im_answers s"
  "im_search (remember_works k w s) = im_search s" "im_live (remember_works k w s) = im_live s"
  "im_timer (remember_works k w s) = im_timer s" "im_request (remember_works k w s) = im_request s"
  by (simp_all add: remember_works_def Let_def)

lemma clear_frame [simp]:
  "im_results (clear_timer s) = im_results s" "im_status (clear_timer s) = im_status s"
  "im_stale (clear_timer s) = im_stale s" "im_lastSent (clear_timer s) = im_lastSent s"
  "im_query (clear_timer s) = im_query s" "im_answers (clear_timer s) = im_answers s"
  "im_search (clear_timer s) = im_search s" "im_timer (clear_timer s) = im_timer s"
  "im_request (clear_timer s) = im_request s" "im_cache (clear_timer s) = im_cache s"
  by (simp_all add: clear_timer_def)

lemma works_frame: "works_ok s \<Longrightarrow> im_cache s' = im_cache s \<Longrightarrow> im_answers s' = im_answers s \<Longrightarrow> works_ok s'"
  by (simp add: works_ok_def)

lemma cleared_no_retry: "retry_ok s \<Longrightarrow> no_retry (clear_timer s)"
  by (fastforce simp: retry_ok_def no_retry_def clear_timer_def split: ImslpTimer.splits)

lemma no_retry_ok: "no_retry s \<Longrightarrow> retry_ok s"
  by (fastforce simp: retry_ok_def no_retry_def split: ImslpTimer.splits)

lemma retry_frame: "retry_ok s \<Longrightarrow> im_live s' = im_live s \<Longrightarrow> im_timer s' = im_timer s \<Longrightarrow>
    im_results s' = im_results s \<Longrightarrow> im_search s' = im_search s \<Longrightarrow> retry_ok s'"
  by (simp add: retry_ok_def)

lemma no_retry_live: "no_retry s \<Longrightarrow> im_live s' = im_live s \<Longrightarrow> no_retry s'"
  by (simp add: no_retry_def)

lemma cleared_ok: "results_ok lower_case s \<Longrightarrow> results_ok lower_case (clear_timer s) \<and> no_retry (clear_timer s)"
  using cleared_no_retry [of s] no_retry_ok [of "clear_timer s"]
  by (auto simp: results_ok_def shown_ok_def asked_ok_def query_key_def resultsStale_def elim: works_frame
      split: option.splits)

text \<open>Giving up: nothing on screen.\<close>

lemma emptied_ok: "works_ok s \<Longrightarrow> retry_ok s \<Longrightarrow> im_results s = [] \<Longrightarrow> im_search s = None \<Longrightarrow> results_ok lower_case s"
  by (simp add: results_ok_def shown_ok_def asked_ok_def)

lemma reset_ok: "results_ok lower_case s \<Longrightarrow> results_ok lower_case (reset_search s)"
  using cleared_ok [of lower_case s]
  by (intro emptied_ok no_retry_ok)
     (auto simp: results_ok_def reset_search_def cancel_search_def Let_def elim!: works_frame no_retry_live)

text \<open>A request for the query in the field, from its cached works or from the server.\<close>

lemma cached_ok:
  assumes "works_ok s" and "no_retry s" and "jm_get (im_cache s) key = Some works"
    and "key = query_key lower_case s"
  shows "results_ok lower_case ((remember_works key works (s\<lparr>im_lastSent := key, im_request := n, im_search := None\<rparr>))
    \<lparr>im_status := Found, im_results := works, im_stale := False\<rparr>)"
proof -
  let ?s = "s\<lparr>im_lastSent := key, im_request := n, im_search := None\<rparr>"
  have "(key, works) \<in> set (im_answers s)" using assms(1,3)
    by (auto simp: works_ok_def jm_get_def dest: map_of_SomeD)
  moreover from this have "works_ok (remember_works key works ?s)"
    using works_remember [of ?s key works] assms(1) by (simp add: works_ok_def)
  moreover have "no_retry ((remember_works key works ?s)\<lparr>im_status := Found, im_results := works, im_stale := False\<rparr>)"
    using assms(2) by (rule no_retry_live) simp
  ultimately show ?thesis using assms(4) no_retry_ok
    by (auto simp: results_ok_def shown_ok_def asked_ok_def query_key_def elim: works_frame)
qed

lemma sent_ok:
  assumes "works_ok s" and "no_retry s" and "im_search s' = Some r" and "ir_key r = query_key lower_case s'"
    and "im_lastSent s' = ir_key r" and "im_results s' = [] \<or> resultsStale s'"
    and "im_live s' = im_live s" and "im_cache s' = im_cache s" and "im_answers s' = im_answers s"
  shows "results_ok lower_case s'"
  using assms no_retry_live [OF assms(2,7)]
  by (auto simp: results_ok_def shown_ok_def asked_ok_def no_retry_ok works_ok_def)

lemma find_ok:
  assumes "results_ok lower_case s" and "retry \<longrightarrow> im_results s = []"
  shows "results_ok lower_case (find_works lower_case immediate retry s)"
proof -
  define c where "c = clear_timer s"
  have c: "results_ok lower_case c" "no_retry c" "works_ok c" "retry \<longrightarrow> im_results c = []" "im_query c = im_query s"
    using cleared_ok [OF assms(1)] assms(2) by (auto simp: c_def results_ok_def)
  have key: "imslpQueryKey lower_case (js_trim (im_query c)) = query_key lower_case c"
    by (simp add: query_key_def key_trim)
  show ?thesis
  proof (cases "jm_get (im_cache c) (query_key lower_case c)")
    case None
    then show ?thesis using c(1) reset_ok [OF c(1)] c(4) sent_ok [OF c(3,2)]
      unfolding find_works_def Let_def c_def [symmetric] key by (simp add: query_key_def resultsStale_def)
  next
    case (Some works)
    then show ?thesis using c(1) reset_ok [OF c(1)] cached_ok [OF c(3,2) Some refl]
      unfolding find_works_def Let_def c_def [symmetric] key by simp
  qed
qed

lemma input_ok:
  assumes "results_ok lower_case s0" and s: "s = s0\<lparr>im_query := query\<rparr>"
  shows "results_ok lower_case (search_input lower_case s)"
proof -
  have w: "works_ok s" and r: "retry_ok s"
    using assms(1) unfolding s results_ok_def by (auto elim: works_frame retry_frame)
  define c where "c = clear_timer s"
  have c: "works_ok c" "no_retry c" using w cleared_no_retry [OF r] by (auto simp: c_def elim: works_frame)
  have q: "im_lastSent c = im_lastSent s0" "im_results c = im_results s0" "im_answers c = im_answers s0"
    "im_search c = im_search s0" "im_stale c = im_stale s0" "im_status c = im_status s0" "im_query c = im_query s"
    by (simp_all add: c_def s)
  have timer: "no_retry (start_timer DebounceTimer c')" if "im_live c' = im_live c" for c'
    using c(2) that by (simp add: no_retry_def start_timer_def)
  have "results_ok lower_case (reset_search c)"
    using c by (intro emptied_ok no_retry_ok)
      (auto simp: reset_search_def cancel_search_def Let_def clear_timer_def no_retry_def works_ok_def)
  moreover have "results_ok lower_case (start_timer DebounceTimer c)" if "query_key lower_case c = im_lastSent c"
    using no_retry_ok [OF timer [OF refl]] c(1) q that assms(1)
    by (auto simp: results_ok_def shown_ok_def asked_ok_def query_key_def start_timer_def resultsStale_def works_ok_def
        split: option.splits)
  moreover have "results_ok lower_case (start_timer DebounceTimer
      (c\<lparr>im_request := im_request c + 1, im_search := None, im_lastSent := [], im_stale := True\<rparr>))"
    using no_retry_ok [OF timer, of "c\<lparr>im_request := im_request c + 1, im_search := None, im_lastSent := [], im_stale := True\<rparr>"] c(1)
    by (simp add: results_ok_def shown_ok_def asked_ok_def start_timer_def resultsStale_def works_ok_def)
  ultimately show ?thesis
    unfolding search_input_def Let_def c_def [symmetric] by (simp add: query_key_def)
qed

lemma unavailable_ok:
  assumes "works_ok s" and "no_retry s" and "im_search s = None"
  shows "results_ok lower_case (search_unavailable r s)"
  using assms unfolding search_unavailable_def Let_def
  by (intro emptied_ok) (auto simp: start_timer_def works_ok_def retry_ok_def no_retry_def split: ImslpTimer.splits)

lemma answered_ok:
  assumes "results_ok lower_case s"
  shows "results_ok lower_case (search_answered answer s)"
proof (cases "im_search s")
  case (Some r)
  define c where "c = s\<lparr>im_search := None\<rparr>"
  have "no_retry s" using assms Some
    by (fastforce simp: results_ok_def retry_ok_def no_retry_def split: ImslpTimer.splits)
  then have c: "works_ok c" "no_retry c" "im_search c = None" "ir_key r = im_lastSent c" "ir_key r = query_key lower_case c"
    using assms Some by (auto simp: c_def results_ok_def asked_ok_def no_retry_def works_ok_def query_key_def)
  have found: "results_ok lower_case ((remember_works (ir_key r) works c)
      \<lparr>im_status := Found, im_results := works, im_stale := False, im_answers := im_answers c @ [(ir_key r, works)]\<rparr>)" for works
  proof -
    let ?c = "c\<lparr>im_answers := im_answers c @ [(ir_key r, works)]\<rparr>"
    have "works_ok (remember_works (ir_key r) works ?c)"
      by (rule works_remember) (use c(1) in \<open>auto simp: works_ok_def\<close>)
    then have "works_ok ((remember_works (ir_key r) works c)
      \<lparr>im_status := Found, im_results := works, im_stale := False, im_answers := im_answers c @ [(ir_key r, works)]\<rparr>)"
      by (simp add: works_ok_def remember_works_def Let_def)
    moreover have "retry_ok ((remember_works (ir_key r) works c)
      \<lparr>im_status := Found, im_results := works, im_stale := False, im_answers := im_answers c @ [(ir_key r, works)]\<rparr>)"
      using c(2) by (intro no_retry_ok) (simp add: no_retry_def)
    ultimately show ?thesis using c(3-5)
      by (simp add: results_ok_def shown_ok_def asked_ok_def query_key_def)
  qed
  have quick: "results_ok lower_case (start_timer ThrottleTimer (c\<lparr>im_lastSent := [], im_status := Quick\<rparr>))"
    using c(1-3) by (auto simp: results_simps works_ok_def start_timer_def no_retry_def split: ImslpTimer.splits)
  have same: "results_ok lower_case c"
    using assms Some by (auto simp: c_def results_simps works_ok_def split: ImslpTimer.splits)
  show ?thesis
    using found quick same unavailable_ok [OF c(1-3)] Some unfolding search_answered_def
    by (simp add: Let_def c_def [symmetric] split: sum.split IMSLPStatus.split)
qed (use assms in \<open>simp add: search_answered_def\<close>)

lemma fired_ok:
  assumes "results_ok lower_case s"
  shows "results_ok lower_case (timer_fired lower_case panelOpen n s)"
proof (cases "map_of (im_live s) n")
  case (Some t)
  define c where "c = s\<lparr>im_live := filter (\<lambda>t. fst t \<noteq> n) (im_live s)\<rparr>"
  have c: "results_ok lower_case c" using assms
    by (auto simp: c_def results_simps works_ok_def split: option.splits ImslpTimer.splits)
  have "im_results c = []" if "t = RetryTimer q" for q
    using assms map_of_SomeD [OF Some] that by (fastforce simp: c_def results_ok_def retry_ok_def)
  then show ?thesis using Some c find_ok [OF c]
    unfolding timer_fired_def by (simp add: Let_def c_def [symmetric] split: ImslpTimer.split)
qed (use assms in \<open>simp add: timer_fired_def\<close>)

lemma search_step_ok: "results_ok lower_case s \<Longrightarrow> stays_open s e \<Longrightarrow> results_ok lower_case (search_step lower_case e s)"
  by (cases e) (auto simp: stays_open_def search_enter_def intro: input_ok answered_ok fired_ok find_ok)

interpretation imslp_search: guarded_machine stays_open "search_step lower_case" "results_ok lower_case" for lower_case
  by unfold_locales (rule search_step_ok)

section \<open>Properties\<close>

lemma new_search_ok: "results_ok lower_case new_search"
  by (simp add: new_search_def results_simps works_ok_def)


definition demo_work :: IMSLPWork where
  "demo_work = \<lparr>w_title = js ''Suite'', w_composer = js ''Bach, J.S.'', w_url = js ''https://imslp.org/wiki/S''\<rparr>"

definition demo_search :: "search_event list" where
  "demo_search = [Typed (js ''bach''), SearchTimer True 0,
     SearchAnswered (Inr \<lparr>imslp_status = Ready, imslp_results = [demo_work]\<rparr>)]"


section \<open>What leaving the panel forgets\<close>

text \<open>
  Leaving the panel clears the mark of old results: back on the panel, works found for "bach" can
  be opened while the field says "bachx".
\<close>

lemma cancel_shows_old_results:
  "let s = fold (search_step id) (demo_search @ [Typed (js ''bachx''), CancelSearch]) new_search
   in \<not> resultsStale s \<and> im_results s = [demo_work] \<and> im_query s = js ''bachx'' \<and>
      im_answers s = [(js ''bach'', [demo_work])]"
  by code_simp

text \<open>
  An answer that starts a retry forgets the debounce that was waiting: it can fire after the page
  is left, and asks the server once more.
\<close>

lemma forgotten_timer_asks_again:
  "let s = fold (search_step id) [Typed (js ''bach''), SearchTimer True 0, Typed (js ''bach ''),
       SearchAnswered (Inr \<lparr>imslp_status = Throttled, imslp_results = []\<rparr>), DestroySearch, SearchTimer False 1] new_search
   in im_destroyed s \<and> im_sent s = [js ''bach'', js ''bach'']"
  by code_simp

end
