(* ===== verification/PrepareEdges.thy ===== *)
theory PrepareEdges
  imports JsNumber Machines
begin

text \<open>
  The page edge editor (\<open>web/src/app/features/prepare/prepare-edges.component.ts\<close>): the move of
  one corner, and the editor's drags and key presses as a state machine. Points are pairs of
  exact reals, clockwise from the top left. The listeners of a drag are its entry \<open>ed_drag\<close>.
\<close>

section \<open>Moving a corner\<close>

datatype EdgeMode = CropEdges | CornerEdges

text \<open>The turn at \<open>b\<close> on the way from \<open>a\<close> to \<open>c\<close>.\<close>

definition turn_at :: "real list \<Rightarrow> real list \<Rightarrow> real list \<Rightarrow> real" where
  "turn_at a b c = (b ! 0 - a ! 0) * (c ! 1 - b ! 1) - (b ! 1 - a ! 1) * (c ! 0 - b ! 0)"

definition bad_corner :: "real list list \<Rightarrow> nat \<Rightarrow> bool" where
  "bad_corner pts i \<longleftrightarrow>
     (let a = pts ! i; b = pts ! ((i + 1) mod 4); c = pts ! ((i + 2) mod 4)
      in hypot (b ! 0 - a ! 0) (b ! 1 - a ! 1) < 5 / 100 \<or> turn_at a b c \<le> 25 / 10000)"

definition edge_gap :: real where
  "edge_gap = 50001 / 1000000"

definition moveEdgeCorner :: "real list list \<Rightarrow> EdgeMode \<Rightarrow> nat \<Rightarrow> real \<Rightarrow> real \<Rightarrow> bool \<Rightarrow> real list list option" where
  "moveEdgeCorner pts mode index x y rectangle =
     (let x = max 0 (min 1 x); y = max 0 (min 1 y)
      in if mode = CropEdges \<or> rectangle
         then (let anchor = pts ! ((index + 2) mod 4);
                   left = (index = 0 \<or> index = 3);
                   top = (index < 2);
                   x = (if left then min x (anchor ! 0 - edge_gap) else max x (anchor ! 0 + edge_gap));
                   y = (if top then min y (anchor ! 1 - edge_gap) else max y (anchor ! 1 + edge_gap))
               in if x < 0 \<or> x > 1 \<or> y < 0 \<or> y > 1 then None
                  else (let l = (if left then x else anchor ! 0); r = (if left then anchor ! 0 else x);
                            t = (if top then y else anchor ! 1); b = (if top then anchor ! 1 else y)
                        in Some [[l, t], [r, t], [r, b], [l, b]]))
         else (let next_points = pts[index := [x, y]]
               in if list_ex (bad_corner next_points) [0, 1, 2, 3] then None else Some next_points))"

section \<open>The editor\<close>

record ClientRect =
  rect_left :: real
  rect_top :: real
  rect_width :: real
  rect_height :: real

record EdgeDrag =
  drag_pointer :: nat
  drag_index :: nat
  drag_rect :: ClientRect

record PrepareEdges =
  ed_points :: "real list list"
  ed_mode :: EdgeMode
  ed_busy :: bool
  ed_ready :: bool
  ed_resetRequired :: bool
  ed_drag :: "EdgeDrag option"  \<comment> \<open>\<open>dragCleanup\<close> and the listeners it removes\<close>

definition setEdge :: "nat \<Rightarrow> real \<Rightarrow> real \<Rightarrow> bool \<Rightarrow> PrepareEdges \<Rightarrow> PrepareEdges" where
  "setEdge index x y rectangle s =
     (if \<not> ed_ready s \<or> ed_resetRequired s then s
      else (case moveEdgeCorner (ed_points s) (ed_mode s) index x y rectangle of
          None \<Rightarrow> s
        | Some next_points \<Rightarrow> s\<lparr>ed_points := next_points\<rparr>))"

definition endDrag :: "PrepareEdges \<Rightarrow> PrepareEdges" where
  "endDrag s = s\<lparr>ed_drag := None\<rparr>"

definition dragCorner :: "bool \<Rightarrow> nat \<Rightarrow> nat \<Rightarrow> ClientRect \<Rightarrow> nat \<Rightarrow> PrepareEdges \<Rightarrow> PrepareEdges" where
  "dragCorner isPrimary button pointerId rect index s =
     (if ed_busy s \<or> \<not> ed_ready s \<or> ed_resetRequired s \<or> \<not> isPrimary \<or> button \<noteq> 0 then s
      else s\<lparr>ed_drag := Some \<lparr>drag_pointer = pointerId, drag_index = index, drag_rect = rect\<rparr>\<rparr>)"

definition pointer_moved :: "nat \<Rightarrow> real \<Rightarrow> real \<Rightarrow> bool \<Rightarrow> PrepareEdges \<Rightarrow> PrepareEdges" where
  "pointer_moved pointerId clientX clientY shift s = (case ed_drag s of
     None \<Rightarrow> s
   | Some d \<Rightarrow>
       if pointerId \<noteq> drag_pointer d then s
       else setEdge (drag_index d) ((clientX - rect_left (drag_rect d)) / rect_width (drag_rect d))
              ((clientY - rect_top (drag_rect d)) / rect_height (drag_rect d)) shift s)"

text \<open>The pointer is up, cancelled or captured by someone else.\<close>

definition pointer_ended :: "nat \<Rightarrow> PrepareEdges \<Rightarrow> PrepareEdges" where
  "pointer_ended pointerId s = (case ed_drag s of
     None \<Rightarrow> s
   | Some d \<Rightarrow> if pointerId \<noteq> drag_pointer d then s else s\<lparr>ed_drag := None\<rparr>)"

datatype ArrowKey = ArrowLeft | ArrowRight | ArrowUp | ArrowDown | OtherKey

fun nudge_delta :: "ArrowKey \<Rightarrow> (real \<times> real) option" where
  "nudge_delta ArrowLeft = Some (- (1 / 100), 0)"
| "nudge_delta ArrowRight = Some (1 / 100, 0)"
| "nudge_delta ArrowUp = Some (0, - (1 / 100))"
| "nudge_delta ArrowDown = Some (0, 1 / 100)"
| "nudge_delta OtherKey = None"

definition nudgeCorner :: "nat \<Rightarrow> ArrowKey \<Rightarrow> bool \<Rightarrow> PrepareEdges \<Rightarrow> PrepareEdges" where
  "nudgeCorner index key shift s = (case nudge_delta key of
     None \<Rightarrow> s
   | Some (dx, dy) \<Rightarrow>
       if \<not> ed_ready s then s
       else (let p = ed_points s ! index in setEdge index (p ! 0 + dx) (p ! 1 + dy) shift s))"

datatype edge_event =
    DragCorner bool nat nat ClientRect nat | PointerMoved nat real real bool | PointerEnded nat
  | NudgeCorner nat ArrowKey bool | EndDrag
  | EdgeInputs bool bool bool  \<comment> \<open>Prepare is busy, shows the unadjusted preview, asks for a reset\<close>

fun edge_step :: "edge_event \<Rightarrow> PrepareEdges \<Rightarrow> PrepareEdges" where
  "edge_step (DragCorner isPrimary button pid rect index) s = dragCorner isPrimary button pid rect index s"
| "edge_step (PointerMoved pid x y shift) s = pointer_moved pid x y shift s"
| "edge_step (PointerEnded pid) s = pointer_ended pid s"
| "edge_step (NudgeCorner index key shift) s = nudgeCorner index key shift s"
| "edge_step EndDrag s = endDrag s"
| "edge_step (EdgeInputs busy ready reset) s = s\<lparr>ed_busy := busy, ed_ready := ready, ed_resetRequired := reset\<rparr>"

text \<open>A handle belongs to one of the four corners, and the image on screen has a size.\<close>

definition edge_enabled :: "PrepareEdges \<Rightarrow> edge_event \<Rightarrow> bool" where
  "edge_enabled s e = (case e of
     DragCorner isPrimary button pid rect index \<Rightarrow> index < 4 \<and> rect_width rect > 0 \<and> rect_height rect > 0
   | NudgeCorner index key shift \<Rightarrow> index < 4
   | _ \<Rightarrow> True)"

section \<open>Usable edges\<close>

definition unit_points :: "real list list \<Rightarrow> bool" where
  "unit_points pts \<longleftrightarrow> length pts = 4 \<and> list_all (\<lambda>p. length p = 2 \<and> list_all (\<lambda>v. 0 \<le> v \<and> v \<le> 1) p) pts"

definition usable_crop :: "real list list \<Rightarrow> bool" where
  "usable_crop pts \<longleftrightarrow>
     pts ! 0 ! 0 = pts ! 3 ! 0 \<and> pts ! 1 ! 0 = pts ! 2 ! 0 \<and> pts ! 0 ! 1 = pts ! 1 ! 1 \<and> pts ! 2 ! 1 = pts ! 3 ! 1 \<and>
     pts ! 0 ! 0 + edge_gap \<le> pts ! 1 ! 0 \<and> pts ! 0 ! 1 + edge_gap \<le> pts ! 2 ! 1"

text \<open>Every corner lies to the inner side of every edge, by a margin, and no edge is short.\<close>

definition usable_quad :: "real list list \<Rightarrow> bool" where
  "usable_quad pts \<longleftrightarrow> (\<forall>i < 4. 5 / 100 \<le> hypot (pts ! ((i + 1) mod 4) ! 0 - pts ! i ! 0) (pts ! ((i + 1) mod 4) ! 1 - pts ! i ! 1) \<and>
     (\<forall>j < 4. j \<noteq> i \<and> j \<noteq> (i + 1) mod 4 \<longrightarrow> 25 / 10000 < turn_at (pts ! i) (pts ! ((i + 1) mod 4)) (pts ! j)))"

definition usable_edges :: "EdgeMode \<Rightarrow> real list list \<Rightarrow> bool" where
  "usable_edges mode pts \<longleftrightarrow> unit_points pts \<and> (if mode = CropEdges then usable_crop pts else usable_quad pts)"

lemma all_less4: "(\<forall>i < 4. P i) \<longleftrightarrow> P 0 \<and> P 1 \<and> P 2 \<and> P (3::nat)"
  by (auto simp: numeral_eq_Suc less_Suc_eq)

lemma four_points:
  assumes "unit_points pts"
  obtains ax ay bx "by" cx cy dx dy where "pts = [[ax, ay], [bx, by], [cx, cy], [dx, dy]]"
    and "0 \<le> ax" "ax \<le> 1" "0 \<le> ay" "ay \<le> 1" "0 \<le> bx" "bx \<le> 1" "0 \<le> by" "by \<le> 1"
      "0 \<le> cx" "cx \<le> 1" "0 \<le> cy" "cy \<le> 1" "0 \<le> dx" "dx \<le> 1" "0 \<le> dy" "dy \<le> 1"
proof -
  obtain a b c d where p: "pts = [a, b, c, d]" using assms
    by (auto simp: unit_points_def numeral_eq_Suc length_Suc_conv)
  have two: "\<exists>x y. q = [x, y] \<and> 0 \<le> x \<and> x \<le> 1 \<and> 0 \<le> y \<and> y \<le> 1" if "q \<in> {a, b, c, d}" for q
    using assms that p by (auto simp: unit_points_def numeral_eq_Suc length_Suc_conv)
  show thesis using two [of a] two [of b] two [of c] two [of d] that p by auto
qed

lemma less4: "index < 4 \<Longrightarrow> index = 0 \<or> index = 1 \<or> index = 2 \<or> index = (3::nat)"
  by auto

text \<open>The rectangle spanned by a corner and the one opposite to it.\<close>

lemma rectangle_usable:
  assumes "0 \<le> l" "l + edge_gap \<le> r" "r \<le> 1" "0 \<le> t" "t + edge_gap \<le> b" "b \<le> 1"
  shows "unit_points [[l, t], [r, t], [r, b], [l, b]] \<and> usable_crop [[l, t], [r, t], [r, b], [l, b]]"
proof -
  have g: "0 < edge_gap" by (simp add: edge_gap_def)
  then have "0 \<le> r" "l \<le> 1" "0 \<le> b" "t \<le> 1" using assms by linarith+
  then show ?thesis using assms by (simp add: unit_points_def usable_crop_def)
qed

lemma rectangle_move:
  assumes "unit_points pts" and "index < 4" and "mode = CropEdges \<or> rectangle"
    and "moveEdgeCorner pts mode index x y rectangle = Some q"
  shows "unit_points q \<and> usable_crop q"
  using assms(1)
proof (rule four_points)
  fix ax ay bx "by" cx cy dx dy
  assume p: "pts = [[ax, ay], [bx, by], [cx, cy], [dx, dy]]"
    and b: "0 \<le> ax" "ax \<le> 1" "0 \<le> ay" "ay \<le> 1" "0 \<le> bx" "bx \<le> 1" "0 \<le> by" "by \<le> 1"
      "0 \<le> cx" "cx \<le> 1" "0 \<le> cy" "cy \<le> 1" "0 \<le> dx" "dx \<le> 1" "0 \<le> dy" "dy \<le> 1"
  define X Y where "X = max 0 (min 1 x)" and "Y = max 0 (min 1 y)"
  have moved: "moveEdgeCorner pts mode index x y rectangle =
      (let anchor = pts ! ((index + 2) mod 4); left = (index = 0 \<or> index = 3); top = (index < 2);
           x = (if left then min X (anchor ! 0 - edge_gap) else max X (anchor ! 0 + edge_gap));
           y = (if top then min Y (anchor ! 1 - edge_gap) else max Y (anchor ! 1 + edge_gap))
       in if x < 0 \<or> x > 1 \<or> y < 0 \<or> y > 1 then None
          else (let l = (if left then x else anchor ! 0); r = (if left then anchor ! 0 else x);
                    t = (if top then y else anchor ! 1); b = (if top then anchor ! 1 else y)
                in Some [[l, t], [r, t], [r, b], [l, b]]))"
    using assms(3) by (auto simp: moveEdgeCorner_def X_def Y_def Let_def)
  have lo: "min u (v - edge_gap) + edge_gap \<le> v" and hi: "v + edge_gap \<le> max u (v + edge_gap)" for u v
    by (simp_all add: min_def max_def)
  have q: "(let anchor = pts ! ((index + 2) mod 4); left = (index = 0 \<or> index = 3); top = (index < 2);
           x = (if left then min X (anchor ! 0 - edge_gap) else max X (anchor ! 0 + edge_gap));
           y = (if top then min Y (anchor ! 1 - edge_gap) else max Y (anchor ! 1 + edge_gap))
       in if x < 0 \<or> x > 1 \<or> y < 0 \<or> y > 1 then None
          else (let l = (if left then x else anchor ! 0); r = (if left then anchor ! 0 else x);
                    t = (if top then y else anchor ! 1); b = (if top then anchor ! 1 else y)
                in Some [[l, t], [r, t], [r, b], [l, b]])) = Some q" using assms(4) moved by simp
  note q = q [unfolded Let_def p]
  from less4 [OF assms(2)] show ?thesis
  proof (elim disjE)
    assume i: "index = 0"
    let ?x = "min X (cx - edge_gap)" and ?y = "min Y (cy - edge_gap)"
    have "q = [[?x, ?y], [cx, ?y], [cx, cy], [?x, cy]] \<and> 0 \<le> ?x \<and> 0 \<le> ?y" using q i by (auto split: if_splits simp: not_less)
    then show ?thesis using rectangle_usable [of ?x cx ?y cy] lo [of X cx] lo [of Y cy] b by simp
  next
    assume i: "index = 1"
    let ?x = "max X (dx + edge_gap)" and ?y = "min Y (dy - edge_gap)"
    have "q = [[dx, ?y], [?x, ?y], [?x, dy], [dx, dy]] \<and> ?x \<le> 1 \<and> 0 \<le> ?y" using q i by (auto split: if_splits simp: not_less)
    then show ?thesis using rectangle_usable [of dx ?x ?y dy] hi [of dx X] lo [of Y dy] b by simp
  next
    assume i: "index = 2"
    let ?x = "max X (ax + edge_gap)" and ?y = "max Y (ay + edge_gap)"
    have "q = [[ax, ay], [?x, ay], [?x, ?y], [ax, ?y]] \<and> ?x \<le> 1 \<and> ?y \<le> 1" using q i by (auto split: if_splits simp: not_less)
    then show ?thesis using rectangle_usable [of ax ?x ay ?y] hi [of ax X] hi [of ay Y] b by simp
  next
    assume i: "index = 3"
    let ?x = "min X (bx - edge_gap)" and ?y = "max Y (by + edge_gap)"
    have "q = [[?x, by], [bx, by], [bx, ?y], [?x, ?y]] \<and> 0 \<le> ?x \<and> ?y \<le> 1" using q i by (auto split: if_splits simp: not_less)
    then show ?thesis using rectangle_usable [of ?x bx "by" ?y] lo [of X bx] hi [of "by" Y] b by simp
  qed
qed

lemma rectangle_quad:
  assumes "unit_points pts" and "usable_crop pts"
  shows "usable_quad pts"
  using assms(1)
proof (rule four_points)
  fix ax ay bx "by" cx cy dx dy
  assume p: "pts = [[ax, ay], [bx, by], [cx, cy], [dx, dy]]"
  have e: "dx = ax" "cx = bx" "by = ay" "dy = cy" and w: "edge_gap \<le> bx - ax" and h: "edge_gap \<le> cy - ay"
    using assms(2) unfolding p usable_crop_def by simp_all
  have g: "0 < edge_gap" "5 / 100 \<le> edge_gap" "25 / 10000 < edge_gap * edge_gap" by (simp_all add: edge_gap_def)
  have "edge_gap * edge_gap \<le> (bx - ax) * (cy - ay)" using w h g(1) by (intro mult_mono) auto
  then have area: "25 / 10000 < (bx - ax) * (cy - ay)" using g(3) by linarith
  then have area': "25 / 10000 < (cy - ay) * (bx - ax)" by (simp only: mult.commute)
  have sides: "5 / 100 \<le> bx - ax" "5 / 100 \<le> cy - ay" using w h g(2) by linarith+
  have hyp: "hypot v 0 = \<bar>v\<bar>" "hypot 0 v = \<bar>v\<bar>" for v by (simp_all add: hypot_def)
  have t: "turn_at [ax, ay] [bx, ay] q = (bx - ax) * (q ! 1 - ay)"
    "turn_at [bx, ay] [bx, cy] q = (cy - ay) * (bx - q ! 0)"
    "turn_at [bx, cy] [ax, cy] q = (bx - ax) * (cy - q ! 1)"
    "turn_at [ax, cy] [ax, ay] q = (cy - ay) * (q ! 0 - ax)" for q
    by (simp_all add: turn_at_def algebra_simps)
  show ?thesis unfolding usable_quad_def all_less4 p e
    using sides area area' by (simp add: t hyp)
qed

lemma unit_points_update:
  assumes "unit_points pts" and "0 \<le> u" "u \<le> 1" "0 \<le> v" "v \<le> 1"
  shows "unit_points (pts[index := [u, v]])"
  using assms unfolding unit_points_def list_all_iff by (auto dest!: set_update_subset_insert [THEN subsetD])

lemma quad_move:
  assumes "unit_points pts" and "index < 4" and "mode = CornerEdges" and "\<not> rectangle"
    and "moveEdgeCorner pts mode index x y rectangle = Some q"
  shows "unit_points q \<and> usable_quad q"
proof -
  have q: "q = pts[index := [max 0 (min 1 x), max 0 (min 1 y)]]" and ok: "\<not> list_ex (bad_corner q) [0, 1, 2, 3]"
    using assms(3-5) by (auto simp: moveEdgeCorner_def Let_def split: if_splits)
  have unit: "unit_points q" unfolding q by (rule unit_points_update [OF assms(1)]) auto
  have other: "turn_at a b d = turn_at d a b" for a b d
    by (simp add: turn_at_def algebra_simps)
  from unit have "usable_quad q"
  proof (rule four_points)
    fix ax ay bx "by" cx cy dx dy
    assume p: "q = [[ax, ay], [bx, by], [cx, cy], [dx, dy]]"
    show ?thesis using ok other [of "[ax, ay]" "[bx, by]" "[dx, dy]"] other [of "[bx, by]" "[cx, cy]" "[ax, ay]"]
        other [of "[cx, cy]" "[dx, dy]" "[bx, by]"] other [of "[dx, dy]" "[ax, ay]" "[cx, cy]"]
      unfolding usable_quad_def all_less4 p by (simp add: bad_corner_def Let_def)
  qed
  with unit show ?thesis ..
qed

lemma moved_edges_usable:
  assumes "unit_points pts" and "index < 4" and "moveEdgeCorner pts mode index x y rectangle = Some q"
  shows "usable_edges mode q"
proof (cases "mode = CropEdges \<or> rectangle")
  case True
  from rectangle_move [OF assms(1,2) True assms(3)] show ?thesis
    by (simp add: usable_edges_def rectangle_quad)
next
  case False
  then show ?thesis using quad_move [OF assms(1,2) _ _ assms(3)] by (cases mode) (simp_all add: usable_edges_def)
qed

section \<open>The editor keeps usable edges\<close>

definition edges_ok :: "real list list \<Rightarrow> EdgeMode \<Rightarrow> PrepareEdges \<Rightarrow> bool" where
  "edges_ok pts mode s \<longleftrightarrow> ed_mode s = mode \<and> unit_points (ed_points s) \<and>
     (ed_points s = pts \<or> usable_edges mode (ed_points s)) \<and>
     (case ed_drag s of None \<Rightarrow> True | Some d \<Rightarrow> drag_index d < 4)"

lemma setEdge_ok: "edges_ok pts mode s \<Longrightarrow> index < 4 \<Longrightarrow> edges_ok pts mode (setEdge index x y rectangle s)"
  by (auto simp: setEdge_def edges_ok_def usable_edges_def dest: moved_edges_usable split: option.split)

lemma edge_step_ok: "edges_ok pts mode s \<Longrightarrow> edge_enabled s e \<Longrightarrow> edges_ok pts mode (edge_step e s)"
proof (cases e)
  case (PointerMoved pid x y shift)
  assume ok: "edges_ok pts mode s"
  then show ?thesis using PointerMoved
    by (cases "ed_drag s") (auto simp: pointer_moved_def edges_ok_def intro!: setEdge_ok [unfolded edges_ok_def])
next
  case (NudgeCorner index key shift)
  assume "edges_ok pts mode s" "edge_enabled s e"
  then show ?thesis using NudgeCorner
    by (auto simp: nudgeCorner_def edge_enabled_def Let_def intro: setEdge_ok split: option.split)
qed (auto simp: edges_ok_def edge_enabled_def dragCorner_def pointer_ended_def endDrag_def split: option.split)

interpretation edge_editor: guarded_machine edge_enabled edge_step "edges_ok pts mode" for pts mode
  by unfold_locales (rule edge_step_ok)

text \<open>C34: The edge editor never leaves an unusable shape. Starting from any points in the page, after
  any drags and key presses the points are the ones it started from or a usable shape in the page:
  a rectangle at least 5% wide and tall for a crop, a convex quadrilateral without short sides for
  perspective corners.\<close>

theorem edges_stay_usable:
  assumes "unit_points (ed_points s)" and "ed_drag s = None" and "enabled_run edge_enabled edge_step s es"
  shows "ed_points (fold edge_step es s) = ed_points s \<or> usable_edges (ed_mode s) (ed_points (fold edge_step es s))"
proof -
  have "edges_ok (ed_points s) (ed_mode s) s" using assms(1,2) by (simp add: edges_ok_def)
  from edge_editor.run_inv [OF this assms(3)] show ?thesis by (auto simp: edges_ok_def)
qed

definition demo_editor :: PrepareEdges where
  "demo_editor = \<lparr>ed_points = [[0, 0], [1, 0], [1, 1], [0, 1]], ed_mode = CropEdges, ed_busy = False, ed_ready = True,
     ed_resetRequired = False, ed_drag = None\<rparr>"

theorem edges_stay_usable_witness:
  "ed_points (fold edge_step [NudgeCorner 0 ArrowRight False] demo_editor) = [[1 / 100, 0], [1, 0], [1, 1], [1 / 100, 1]] \<and>
   usable_crop [[1 / 100, 0], [1, 0], [1, 1], [1 / 100, 1]]"
proof -
  have e: "ed_points (fold edge_step [NudgeCorner 0 ArrowRight False] demo_editor) = [[1 / 100, 0], [1, 0], [1, 1], [1 / 100, 1]]"
    by (simp add: demo_editor_def nudgeCorner_def setEdge_def moveEdgeCorner_def Let_def edge_gap_def)
  have "unit_points (ed_points demo_editor)" "ed_drag demo_editor = None"
      "enabled_run edge_enabled edge_step demo_editor [NudgeCorner 0 ArrowRight False]"
    by (simp_all add: demo_editor_def unit_points_def edge_enabled_def)
  from edges_stay_usable [OF this] e show ?thesis by (simp add: usable_edges_def demo_editor_def)
qed

end
