(* ===== verification/Prepare.thy ===== *)
theory Prepare
  imports ImslpSearch PreparedPages WorkerClient PrepareEdges
begin

text \<open>
  The Prepare page (\<open>web/src/app/features/prepare/prepare.component.ts\<close>), first half: its state and
  the synchronous operations on it. Pages are edited in the draft in place, so an operation takes
  and returns the whole state. What waits for an answer - a save, an upload, a drawing, the
  worker - is in \<open>PrepareFlow\<close>. The page renderer only draws, its calls leave this state alone.
\<close>

section \<open>State\<close>

datatype PrepareStep = SourceStep | PagesStep | DetailsStep

record FinalizeResult =
  fr_id :: jstring
  fr_duplicateOf :: "(jstring \<times> jstring) option"

text \<open>Where the router was sent.\<close>

datatype Destination = ToLibrary | ToReader jstring | ToNewDetails

text \<open>A page about to be prepared in the background: the page, its source, its key, the revision.\<close>

record BackgroundPage =
  bg_page :: PageEdit
  bg_source :: ImportAsset
  bg_key :: Json
  bg_revision :: nat

record PrepareState =
  pp_draft :: "ImportDraft option"
  pp_completed :: "FinalizeResult option"
  pp_step :: PrepareStep
  pp_error :: jstring
  pp_busy :: bool
  pp_finalizing :: bool
  pp_progress :: jstring
  pp_cancellable :: bool
  pp_saved :: jstring
  pp_preview :: jstring
  pp_selected :: int
  pp_compare :: bool
  pp_zoom :: real
  pp_handles :: "EdgeMode option"
  pp_pendingEdges :: "real list list"
  pp_edgeReady :: bool
  pp_edgeAspect :: real
  pp_edgeResetRequired :: bool
  pp_edgeCompare :: bool
  pp_gesture :: bool
  pp_previewTimer :: bool
  pp_backgroundTimer :: "BackgroundPage option"
  pp_selectedIDs :: "jstring list"
  pp_sourceMode :: jstring
  pp_imslp :: ImslpSearch
  pp_rangeSourceId :: jstring
  pp_rangeText :: jstring
  pp_uploadGeneration :: nat
  pp_workerClient :: ProcessingWorkerClient
  pp_foregroundWorker :: bool
  pp_preparedPages :: "Json PreparedPageCache"
  pp_preparedKeysByPage :: "(jstring, Json) js_map"
  pp_saveTimer :: bool
  pp_dirty :: bool
  pp_discarding :: bool
  pp_destroyed :: bool
  pp_previewRevision :: nat
  pp_history :: "EditManifest list"
  pp_replaceID :: "jstring option"
  pp_objectURL :: jstring
  pp_uploading :: bool
  pp_skipRemainingUploads :: bool
  \<comment> \<open>the browser\<close>
  pp_uuids :: nat  \<comment> \<open>identifiers made\<close>
  pp_revoked :: "jstring list"  \<comment> \<open>object URLs revoked\<close>
  pp_destinations :: "Destination list"

section \<open>The selected page\<close>

definition the_pages :: "'z PrepareState_scheme \<Rightarrow> PageEdit list" where
  "the_pages s = (case pp_draft s of None \<Rightarrow> [] | Some d \<Rightarrow> m_pages (d_manifest d))"

definition page_at :: "int \<Rightarrow> PageEdit list \<Rightarrow> PageEdit option" where
  "page_at i pages = (if 0 \<le> i \<and> i < int (length pages) then Some (pages ! nat i) else None)"

definition the_page :: "'z PrepareState_scheme \<Rightarrow> PageEdit option" where
  "the_page s = page_at (pp_selected s) (the_pages s)"

definition find_source :: "jstring option \<Rightarrow> ImportDraft \<Rightarrow> ImportAsset option" where
  "find_source i d = find (\<lambda>a. Some (a_id a) = i) (d_sources d)"

definition the_source :: "'z PrepareState_scheme \<Rightarrow> ImportAsset option" where
  "the_source s = (case pp_draft s of None \<Rightarrow> None | Some d \<Rightarrow> find_source (map_option e_sourceId (the_page s)) d)"

definition is_image :: "ImportAsset \<Rightarrow> bool" where
  "is_image a \<longleftrightarrow> starts_with (a_mime a) (js ''image/'')"

definition isPhoto :: "'z PrepareState_scheme \<Rightarrow> bool" where
  "isPhoto s \<longleftrightarrow> (case the_source s of None \<Rightarrow> False | Some a \<Rightarrow> is_image a)"

definition editingEdges :: "'z PrepareState_scheme \<Rightarrow> bool" where
  "editingEdges s \<longleftrightarrow> pp_handles s \<noteq> None"

definition set_pages :: "PageEdit list \<Rightarrow> 'z PrepareState_scheme \<Rightarrow> 'z PrepareState_scheme" where
  "set_pages pages s = s\<lparr>pp_draft := map_option (\<lambda>d. d\<lparr>d_manifest := (d_manifest d)\<lparr>m_pages := pages\<rparr>\<rparr>) (pp_draft s)\<rparr>"

text \<open>The selected page is changed in place.\<close>

definition edit_page :: "(PageEdit \<Rightarrow> PageEdit) \<Rightarrow> 'z PrepareState_scheme \<Rightarrow> 'z PrepareState_scheme" where
  "edit_page f s = (case the_page s of
     None \<Rightarrow> s
   | Some p \<Rightarrow> set_pages ((the_pages s)[nat (pp_selected s) := f p]) s)"

definition marginMM :: "nat \<Rightarrow> 'z PrepareState_scheme \<Rightarrow> real" where
  "marginMM i s = of_int (js_round (or_else (case the_page s of None \<Rightarrow> None | Some p \<Rightarrow> item (e_margins p) i) 0
      * (127 / 5) / 72 * 10)) / 10"

definition paperStrength :: "'z PrepareState_scheme \<Rightarrow> int" where
  "paperStrength s = (case the_page s of
     None \<Rightarrow> 0
   | Some p \<Rightarrow> js_round (nullish (e_paperCleanupStrength p) (if flag (e_paperCleanup p) then 1 else 0) * 100))"

section \<open>Prepared pages of the draft\<close>

definition prepared_key_of :: "ImportDraft \<Rightarrow> PageEdit \<Rightarrow> Json option" where
  "prepared_key_of d page = (case find_source (Some (e_sourceId page)) d of
     None \<Rightarrow> None
   | Some a \<Rightarrow> if is_image a then Some (preparedPhotoKey a page) else None)"

definition currentPreparedKey :: "PageEdit \<Rightarrow> 'z PrepareState_scheme \<Rightarrow> Json option" where
  "currentPreparedKey page s = (case pp_draft s of None \<Rightarrow> None | Some d \<Rightarrow> prepared_key_of d page)"

definition keys_of_pages :: "'z PrepareState_scheme \<Rightarrow> (jstring, Json) js_map" where
  "keys_of_pages s = fold (\<lambda>page m. case currentPreparedKey page s of
     None \<Rightarrow> m | Some key \<Rightarrow> jm_set m (e_id page) key) (the_pages s) []"

definition reconcilePreparedKeys :: "'z PrepareState_scheme \<Rightarrow> 'z PrepareState_scheme" where
  "reconcilePreparedKeys s =
     (let current = keys_of_pages s; referenced = map snd current;
          unused = filter (\<lambda>key. \<not> List.member referenced key) (map snd (pp_preparedKeysByPage s))
      in s\<lparr>pp_preparedPages := fold (\<lambda>key c. snd (cache_delete c key)) unused (pp_preparedPages s),
           pp_preparedKeysByPage := current\<rparr>)"

section \<open>Stopping what is being drawn\<close>

definition syncCancellable :: "'z PrepareState_scheme \<Rightarrow> 'z PrepareState_scheme" where
  "syncCancellable s = s\<lparr>pp_cancellable := (pp_uploading s \<and> \<not> pp_skipRemainingUploads s) \<or>
     (pp_busy s \<and> pp_foregroundWorker s)\<rparr>"

definition invalidatePreview :: "'z PrepareState_scheme \<Rightarrow> 'z PrepareState_scheme" where
  "invalidatePreview s =
     (let s = s\<lparr>pp_previewRevision := pp_previewRevision s + 1, pp_previewTimer := False, pp_backgroundTimer := None\<rparr>
      in if activeRequest (pp_workerClient s) \<and> (\<not> pp_busy s \<or> pp_uploading s)
         then syncCancellable (s\<lparr>pp_workerClient := supersede (pp_workerClient s), pp_foregroundWorker := False,
                pp_progress := []\<rparr>)
         else s)"

definition revokePreviewURL :: "'z PrepareState_scheme \<Rightarrow> 'z PrepareState_scheme" where
  "revokePreviewURL s =
     (if pp_objectURL s = [] then s else s\<lparr>pp_revoked := pp_revoked s @ [pp_objectURL s], pp_objectURL := []\<rparr>)"

section \<open>Editing\<close>

definition finalized :: "'z PrepareState_scheme \<Rightarrow> bool" where
  "finalized s \<longleftrightarrow> (case pp_draft s of None \<Rightarrow> False | Some d \<Rightarrow> d_finalized d)"

definition mark :: "'z PrepareState_scheme \<Rightarrow> 'z PrepareState_scheme" where
  "mark s =
     (if pp_discarding s \<or> pp_finalizing s \<or> finalized s then s
      else s\<lparr>pp_dirty := True, pp_saved := js ''Unsaved changes'', pp_saveTimer := True\<rparr>)"

datatype MetadataField =
    MTitle jstring | MComposer jstring | MSourceUrl jstring | MListeningUrl jstring | MNotes jstring | MFavorite bool

fun set_metadata :: "MetadataField \<Rightarrow> PieceInput \<Rightarrow> PieceInput" where
  "set_metadata (MTitle v) m = m\<lparr>in_title := v\<rparr>"
| "set_metadata (MComposer v) m = m\<lparr>in_composer := v\<rparr>"
| "set_metadata (MSourceUrl v) m = m\<lparr>in_sourceUrl := v\<rparr>"
| "set_metadata (MListeningUrl v) m = m\<lparr>in_listeningUrl := v\<rparr>"
| "set_metadata (MNotes v) m = m\<lparr>in_notes := v\<rparr>"
| "set_metadata (MFavorite v) m = m\<lparr>in_favorite := v\<rparr>"

fun update_draft :: "MetadataField \<Rightarrow> ImportDraft \<Rightarrow> ImportDraft" where
  "update_draft (MTitle v) d = edit_field TitleField v d"
| "update_draft (MComposer v) d = edit_field ComposerField v d"
| "update_draft f d = d\<lparr>d_metadata := set_metadata f (d_metadata d)\<rparr>"

definition updateMetadata :: "MetadataField \<Rightarrow> 'z PrepareState_scheme \<Rightarrow> 'z PrepareState_scheme" where
  "updateMetadata f s =
     (if pp_finalizing s \<or> finalized s then s
      else mark (s\<lparr>pp_draft := map_option (update_draft f) (pp_draft s)\<rparr>))"

definition HISTORY_LIMIT :: nat where
  "HISTORY_LIMIT = 30"

definition remember :: "'z PrepareState_scheme \<Rightarrow> 'z PrepareState_scheme" where
  "remember s = (case pp_draft s of
     None \<Rightarrow> s
   | Some d \<Rightarrow> (let h = pp_history s @ [d_manifest d]
                in s\<lparr>pp_history := (if length h > HISTORY_LIMIT then tl h else h)\<rparr>))"

definition startGesture :: "'z PrepareState_scheme \<Rightarrow> 'z PrepareState_scheme" where
  "startGesture s = (if pp_gesture s then s else (remember s)\<lparr>pp_gesture := True\<rparr>)"

definition endGesture :: "'z PrepareState_scheme \<Rightarrow> 'z PrepareState_scheme" where
  "endGesture s = s\<lparr>pp_gesture := False\<rparr>"

text \<open>Every edit ends here: the drawing under way is stopped, the draft is to be saved and drawn.\<close>

definition changed :: "'z PrepareState_scheme \<Rightarrow> 'z PrepareState_scheme" where
  "changed s = (mark (reconcilePreparedKeys (invalidatePreview s)))\<lparr>pp_previewTimer := True\<rparr>"

text \<open>A number field may hold something that is not a number: \<open>None\<close>.\<close>

definition changeMargin :: "nat \<Rightarrow> real option \<Rightarrow> 'z PrepareState_scheme \<Rightarrow> 'z PrepareState_scheme" where
  "changeMargin index mm s = (case (the_page s, mm) of
     (Some p, Some mm) \<Rightarrow>
       if pp_busy s \<or> editingEdges s then s
       else changed (edit_page (\<lambda>p. p\<lparr>e_margins := Some ((nullish (e_margins p) [0, 0, 0, 0])
              [index := clamp 0 50 mm * 72 / (127 / 5)])\<rparr>) (startGesture s))
   | _ \<Rightarrow> s)"

datatype ChangeKey = AngleKey | RotationKey

definition falsy :: "real option \<Rightarrow> bool" where
  "falsy v \<longleftrightarrow> \<not> truthy v"

definition set_key :: "ChangeKey \<Rightarrow> real \<Rightarrow> PageEdit \<Rightarrow> PageEdit" where
  "set_key key v p = (case key of AngleKey \<Rightarrow> p\<lparr>e_angle := Some v\<rparr> | RotationKey \<Rightarrow> p\<lparr>e_rotation := Some v\<rparr>)"

definition fit_if_unplaced :: "PageEdit \<Rightarrow> PageEdit" where
  "fit_if_unplaced p =
     (if falsy (e_outputWidth p) \<and> falsy (e_x p) \<and> falsy (e_y p) \<and> (falsy (e_scale p) \<or> e_scale p = Some 1)
      then p\<lparr>e_fitEdges := Some True\<rparr> else p)"

definition change :: "ChangeKey \<Rightarrow> real option \<Rightarrow> 'z PrepareState_scheme \<Rightarrow> 'z PrepareState_scheme" where
  "change key v s = (case (the_page s, v) of
     (Some p, Some v) \<Rightarrow>
       if pp_busy s \<or> editingEdges s then s
       else (let v = (if key = AngleKey then clamp (- 10) 10 v else v)
             in changed (edit_page (\<lambda>p. fit_if_unplaced (set_key key v p)) (startGesture s)))
   | _ \<Rightarrow> s)"

definition rotate_page :: "'z PrepareState_scheme \<Rightarrow> 'z PrepareState_scheme" where
  "rotate_page s =
     (if the_page s = None \<or> pp_busy s \<or> editingEdges s then s
      else endGesture (changed (edit_page (\<lambda>p. p\<lparr>e_rotation := Some (js_rem (or_else (e_rotation p) 0 + 90) 360)\<rparr>)
             (remember s))))"

definition changePaperStrength :: "real \<Rightarrow> 'z PrepareState_scheme \<Rightarrow> 'z PrepareState_scheme" where
  "changePaperStrength v s =
     (if the_page s = None \<or> \<not> isPhoto s \<or> pp_busy s \<or> editingEdges s then s
      else changed (edit_page (\<lambda>p. p\<lparr>e_paperCleanupStrength := Some (clamp 0 100 v / 100)\<rparr>) (startGesture s)))"

text \<open>The page without its adjustments.\<close>

definition bare_page :: "PageEdit \<Rightarrow> PageEdit" where
  "bare_page p = \<lparr>e_fitEdges = None, e_margins = None, e_paperCleanupStrength = None, e_paperCleanup = None,
     e_id = e_id p, e_sourceId = e_sourceId p, e_page = e_page p, e_angle = None, e_rotation = None,
     e_outputWidth = None, e_outputHeight = None, e_scale = None, e_x = None, e_y = None, e_crop = None,
     e_corners = None\<rparr>"

definition resetPage :: "'z PrepareState_scheme \<Rightarrow> 'z PrepareState_scheme" where
  "resetPage s =
     (if the_page s = None \<or> pp_busy s then s
      else changed ((edit_page bare_page (remember s))\<lparr>pp_handles := None\<rparr>))"

definition set_manifest :: "EditManifest \<Rightarrow> 'z PrepareState_scheme \<Rightarrow> 'z PrepareState_scheme" where
  "set_manifest m s = s\<lparr>pp_draft := map_option (\<lambda>d. d\<lparr>d_manifest := m\<rparr>) (pp_draft s)\<rparr>"

definition resetAll :: "'z PrepareState_scheme \<Rightarrow> 'z PrepareState_scheme" where
  "resetAll s =
     (if pp_draft s = None \<or> pp_busy s then s
      else changed (set_manifest \<lparr>m_version = 1, m_pages = map bare_page (the_pages s)\<rparr> (remember s)))"

definition move_page :: "int \<Rightarrow> 'z PrepareState_scheme \<Rightarrow> 'z PrepareState_scheme" where
  "move_page delta s =
     (let pages = the_pages s; index = pp_selected s; target = index + delta
      in if pp_busy s \<or> pp_draft s = None \<or> target < 0 \<or> int (length pages) \<le> target then s
         else changed ((set_pages (pages[nat index := pages ! nat target, nat target := pages ! nat index]) (remember s))
                \<lparr>pp_selected := target\<rparr>))"

definition remove_page :: "'z PrepareState_scheme \<Rightarrow> 'z PrepareState_scheme" where
  "remove_page s =
     (if the_page s = None \<or> pp_busy s then s
      else (let pages = take (nat (pp_selected s)) (the_pages s) @ drop (nat (pp_selected s) + 1) (the_pages s)
            in changed ((set_pages pages (remember s))
                 \<lparr>pp_selected := max 0 (min (pp_selected s) (int (length pages) - 1))\<rparr>)))"

definition toggle_page :: "jstring \<Rightarrow> 'z PrepareState_scheme \<Rightarrow> 'z PrepareState_scheme" where
  "toggle_page i s =
     (if pp_busy s then s
      else s\<lparr>pp_selectedIDs := (if List.member (pp_selectedIDs s) i then filter (\<lambda>j. j \<noteq> i) (pp_selectedIDs s)
               else pp_selectedIDs s @ [i])\<rparr>)"

definition keepSelected :: "'z PrepareState_scheme \<Rightarrow> 'z PrepareState_scheme" where
  "keepSelected s =
     (if pp_draft s = None \<or> pp_selectedIDs s = [] \<or> pp_busy s then s
      else changed ((set_pages (filter (\<lambda>p. List.member (pp_selectedIDs s) (e_id p)) (the_pages s)) (remember s))
             \<lparr>pp_selected := 0\<rparr>))"

section \<open>Source ranges\<close>

text \<open>One part of a range, \<open>/^(\d+)(?:-(\d+))?$/\<close>: its first and last number.\<close>

definition range_part :: "jstring \<Rightarrow> (nat \<times> nat) option" where
  "range_part part =
     (let first = takeWhile is_digit part; rest = dropWhile is_digit part
      in if first = [] then None
         else if rest = [] then Some (digits_value first, digits_value first)
         else if hd rest = 45 \<and> tl rest \<noteq> [] \<and> list_all is_digit (tl rest)
              then Some (digits_value first, digits_value (tl rest)) else None)"

definition range_error :: jstring where
  "range_error = js ''Choose a valid source range of at most '' @ nat_digits MAX_PREPARED_PAGES @ js '' pages.''"

fun range_pages :: "nat \<Rightarrow> jstring list \<Rightarrow> (js_error, nat list) result" where
  "range_pages pageCount [] = Inr []"
| "range_pages pageCount (part # parts) = (case range_part (js_trim part) of
     None \<Rightarrow> Inl (JsError (js ''Enter page numbers such as 1-4, 7.''))
   | Some (first, last_page) \<Rightarrow>
       if first < 1 \<or> last_page < first \<or> pageCount < last_page \<or> MAX_PREPARED_PAGES \<le> last_page - first
       then Inl (JsError range_error)
       else (case range_pages pageCount parts of
           Inl e \<Rightarrow> Inl e
         | Inr pages \<Rightarrow> Inr (map (\<lambda>n. n - 1) [first..<last_page + 1] @ pages)))"

definition read_range :: "nat \<Rightarrow> jstring \<Rightarrow> (js_error, nat list) result" where
  "read_range pageCount text = (case range_pages pageCount (split_on 44 text) of
     Inl e \<Rightarrow> Inl e
   | Inr pages \<Rightarrow>
       if pages = [] \<or> MAX_PREPARED_PAGES < length pages
       then Inl (JsError (js ''Choose 1 to '' @ nat_digits MAX_PREPARED_PAGES @ js '' pages.''))
       else Inr pages)"

definition source_page :: "jstring \<Rightarrow> jstring \<Rightarrow> nat \<Rightarrow> PageEdit" where
  "source_page i source page = \<lparr>e_fitEdges = None, e_margins = None, e_paperCleanupStrength = None,
     e_paperCleanup = None, e_id = i, e_sourceId = source, e_page = page, e_angle = None, e_rotation = None,
     e_outputWidth = None, e_outputHeight = None, e_scale = None, e_x = None, e_y = None, e_crop = None,
     e_corners = None\<rparr>"

text \<open>\<open>uuid n\<close> is the \<open>n\<close>-th identifier \<open>crypto.randomUUID\<close> gives.\<close>

definition useRange :: "(jstring \<Rightarrow> jstring) \<Rightarrow> (nat \<Rightarrow> jstring) \<Rightarrow> 'z PrepareState_scheme \<Rightarrow> 'z PrepareState_scheme" where
  "useRange upper uuid s = (case pp_draft s of
     None \<Rightarrow> s
   | Some d \<Rightarrow>
       if pp_busy s then s
       else (case find_source (Some (pp_rangeSourceId s)) d of
           None \<Rightarrow> s
         | Some source \<Rightarrow> (case read_range (a_pageCount source) (pp_rangeText s) of
               Inl e \<Rightarrow> s\<lparr>pp_error := errorMessage upper e\<rparr>
             | Inr pages \<Rightarrow>
                 changed ((set_manifest \<lparr>m_version = 1, m_pages = map (\<lambda>(i, page). source_page (uuid (pp_uuids s + i))
                     (a_id source) page) (zip [0..<length pages] pages)\<rparr> (remember s))
                   \<lparr>pp_uuids := pp_uuids s + length pages, pp_selected := 0\<rparr>))))"

section \<open>Page edges\<close>

definition resetPendingEdges :: "'z PrepareState_scheme \<Rightarrow> 'z PrepareState_scheme" where
  "resetPendingEdges s = s\<lparr>pp_pendingEdges := [[0, 0], [1, 0], [1, 1], [0, 1]], pp_edgeResetRequired := False\<rparr>"

text \<open>The corners the editor starts from.\<close>

definition edge_points :: "PageEdit \<Rightarrow> real list list" where
  "edge_points p =
     (let c = nullish (e_crop p) [0, 0, 1, 1]
      in nullish (e_corners p) [[c ! 0, c ! 1], [c ! 2, c ! 1], [c ! 2, c ! 3], [c ! 0, c ! 3]])"

definition edges_started :: "'z PrepareState_scheme \<Rightarrow> 'z PrepareState_scheme" where
  "edges_started s = (case the_page s of
     None \<Rightarrow> s
   | Some p \<Rightarrow>
       (endGesture s)\<lparr>pp_edgeCompare := pp_compare s, pp_zoom := 1, pp_edgeReady := False,
          pp_edgeResetRequired := has_items (e_corners p) \<and> has_items (e_crop p),
          pp_pendingEdges := edge_points p,
          pp_handles := Some (if isPhoto s then CornerEdges else CropEdges), pp_compare := True\<rparr>)"

text \<open>A corner is moved in the editor.\<close>

definition move_pending_edge :: "nat \<Rightarrow> real \<Rightarrow> real \<Rightarrow> bool \<Rightarrow> 'z PrepareState_scheme \<Rightarrow> 'z PrepareState_scheme" where
  "move_pending_edge index x y rectangle s = (case pp_handles s of
     None \<Rightarrow> s
   | Some mode \<Rightarrow>
       (let e = setEdge index x y rectangle \<lparr>ed_points = pp_pendingEdges s, ed_mode = mode, ed_busy = pp_busy s,
            ed_ready = pp_edgeReady s, ed_resetRequired = pp_edgeResetRequired s, ed_drag = None\<rparr>
        in s\<lparr>pp_pendingEdges := ed_points e\<rparr>))"

definition with_edges :: "bool \<Rightarrow> real list list \<Rightarrow> PageEdit \<Rightarrow> PageEdit" where
  "with_edges is_photo pts p =
     (let p = p\<lparr>e_crop := None, e_corners := None, e_x := None, e_y := None, e_scale := None, e_outputWidth := None,
            e_outputHeight := None\<rparr>;
          p = (if is_photo then p\<lparr>e_corners := Some pts\<rparr>
               else p\<lparr>e_crop := Some [pts ! 0 ! 0, pts ! 0 ! 1, pts ! 2 ! 0, pts ! 2 ! 1]\<rparr>)
      in p\<lparr>e_fitEdges := Some True\<rparr>)"

definition applyEdges :: "'z PrepareState_scheme \<Rightarrow> 'z PrepareState_scheme" where
  "applyEdges s =
     (if pp_busy s \<or> the_page s = None \<or> \<not> pp_edgeReady s \<or> pp_edgeResetRequired s then s
      else changed ((edit_page (with_edges (isPhoto s) (pp_pendingEdges s)) (remember s))
             \<lparr>pp_handles := None, pp_pendingEdges := [], pp_compare := False\<rparr>))"

end
