(* ===== verification/PrepareFlow.thy ===== *)
theory PrepareFlow
  imports Prepare
begin

text \<open>
  The Prepare page (\<open>web/src/app/features/prepare/prepare.component.ts\<close>), second half: what waits
  for an answer. An \<open>async\<close> method that waits is a value in the state: the callers waiting for a
  save, the upload under way, drawings under way, promises of the worker. An event carries the
  answer, and what was waiting goes on. The browser's choices are the record \<open>prepare_web\<close>.
\<close>

section \<open>What waits\<close>

record UploadFile =
  uf_name :: jstring
  uf_type :: jstring
  uf_size :: nat

record UploadJob =
  uj_files :: "UploadFile list"
  uj_index :: nat
  uj_replace :: bool
  uj_stay :: bool  \<comment> \<open>\<open>stayOnSource\<close>\<close>
  uj_generation :: nat
  uj_chosen :: "IMSLPWork option"
  uj_omitted :: bool  \<comment> \<open>\<open>pagesOmitted\<close>\<close>
  uj_added :: "IMSLPAddedFile list"
  uj_skipped :: bool  \<comment> \<open>files were dropped that are no PDFs\<close>

text \<open>What goes on after \<open>persist\<close>.\<close>

datatype Continuation =
    AfterTimer | AfterLeave bool | AfterClose | AfterContinue | AfterUpload UploadJob
  | AfterReplace UploadJob ImportDraft | AfterFinalize | AfterPanel

text \<open>
  Who waits for the save under way: the call that started it, a call that came later and looks
  again when it is over, and the two calls that only wait for it.
\<close>

datatype Waiter = Started Continuation | Recheck Continuation | DetailsWaits | DiscardWaits

text \<open>A drawing under way, with the upload that ends with it, if any.\<close>

datatype PreviewJob =
    RasterLoad PageEdit ImportAsset nat bool "UploadJob option" | CanvasLoad nat "UploadJob option"
  | PdfDrawing PageEdit nat "ImportAsset option" "UploadJob option"

datatype WorkerJob =
    WPreview PageEdit ImportAsset nat "UploadJob option"
  | WBuild PageEdit nat "ImportAsset option" "UploadJob option"
  | WBackground BackgroundPage | WFinal ImportDraft

datatype DeleteJob = DetailsDelete | DiscardDelete

record PrepareComponent = PrepareState +
  pa_pendingSave :: "ImportDraft option"
  pa_waiters :: "Waiter list"
  pa_upload :: "(UploadJob \<times> ImportDraft) option"  \<comment> \<open>a file on its way, and the draft it was sent for\<close>
  pa_previews :: "(nat \<times> PreviewJob) list"
  pa_drawings :: nat
  pa_awaits :: "(nat \<times> WorkerJob) list"
  pa_finalize :: "ImportDraft option"
  pa_deleting :: "DeleteJob option"
  \<comment> \<open>what the server and the router saw\<close>
  pa_saves :: "ImportDraft list"
  pa_left :: "bool list"
  pa_acked :: "ImportDraft option"  \<comment> \<open>the draft as the server last confirmed it\<close>
  pa_windows :: "jstring list"

text \<open>
  The browser: the URL parser, \<open>normalize\<close> and case conversion, identifiers, object URLs, and for
  the \<open>n\<close>-th request to the worker whether the worker can be made and the error posting throws.
\<close>

record prepare_web =
  we_url :: "jstring \<Rightarrow> Url option"
  we_nfd :: "jstring \<Rightarrow> jstring"
  we_lower :: "jstring \<Rightarrow> jstring"
  we_upper :: "jstring \<Rightarrow> jstring"
  we_uuid :: "nat \<Rightarrow> jstring"
  we_objectURL :: "nat \<Rightarrow> jstring"
  we_request :: "nat \<Rightarrow> jstring"
  we_makes :: "nat \<Rightarrow> bool"
  we_post :: "nat \<Rightarrow> jstring option"
  we_factory :: js_error
  we_source :: jstring  \<comment> \<open>the query parameter \<open>source\<close>, or \<open>all\<close>\<close>

definition fail_with :: "prepare_web \<Rightarrow> js_error \<Rightarrow> PrepareComponent \<Rightarrow> PrepareComponent" where
  "fail_with W e s = s\<lparr>pp_error := errorMessage (we_upper W) e\<rparr>"

section \<open>The worker\<close>

text \<open>A request to the worker: the job waits for its promise, or the call fails at once.\<close>

definition run_worker :: "prepare_web \<Rightarrow> bool \<Rightarrow> WorkerJob \<Rightarrow> PrepareComponent \<Rightarrow> bool \<times> PrepareComponent" where
  "run_worker W foreground job s =
     (let s = syncCancellable (s\<lparr>pp_foregroundWorker := foreground\<rparr>);
          n = length (wc_calls (pp_workerClient s));
          (promise, client) = run (we_request W n) (we_makes W n) (we_post W n) (pp_workerClient s);
          s = s\<lparr>pp_workerClient := client\<rparr>
      in case promise of
           Some p \<Rightarrow> (True, s\<lparr>pa_awaits := pa_awaits s @ [(p, job)]\<rparr>)
         | None \<Rightarrow> (False, if foreground then syncCancellable (s\<lparr>pp_foregroundWorker := False\<rparr>) else s))"

text \<open>The \<open>finally\<close> of a foreground request.\<close>

definition worker_finally :: "bool \<Rightarrow> PrepareComponent \<Rightarrow> PrepareComponent" where
  "worker_finally foreground s = (if foreground then syncCancellable (s\<lparr>pp_foregroundWorker := False\<rparr>) else s)"

section \<open>The preview\<close>

definition scheduleBackgroundPrepare :: "PageEdit \<Rightarrow> ImportAsset \<Rightarrow> nat \<Rightarrow> PrepareComponent \<Rightarrow> PrepareComponent" where
  "scheduleBackgroundPrepare page source revision s =
     (let s = s\<lparr>pp_backgroundTimer := None\<rparr>; key = preparedPhotoKey source page
      in if cache_has (pp_preparedPages s) key then s
         else s\<lparr>pp_backgroundTimer := Some \<lparr>bg_page = page, bg_source = source, bg_key = key, bg_revision = revision\<rparr>\<rparr>)"

definition nonempty_list :: "'a list option \<Rightarrow> bool" where  \<comment> \<open>\<open>!!v\<close>: any list counts\<close>
  "nonempty_list v \<longleftrightarrow> v \<noteq> None"

definition plain_page :: "PageEdit \<Rightarrow> bool" where
  "plain_page p \<longleftrightarrow> falsy (e_angle p) \<and> falsy (e_rotation p) \<and> falsy (e_scale p) \<and> falsy (e_x p) \<and> falsy (e_y p) \<and>
     e_crop p = None \<and> e_corners p = None \<and> falsy (e_outputWidth p) \<and> \<not> flag (e_paperCleanup p) \<and>
     falsy (e_paperCleanupStrength p) \<and> \<not> flag (e_fitEdges p) \<and> \<not> list_ex (\<lambda>m. m \<noteq> 0) (nullish (e_margins p) [])"

text \<open>Numbers are finite here, so only the shapes remain to be checked.\<close>

definition supportsRasterPreview :: "PageEdit \<Rightarrow> bool" where
  "supportsRasterPreview p \<longleftrightarrow>
     \<not> (has_items (e_crop p) \<and> has_items (e_corners p)) \<and>
     (case e_crop p of None \<Rightarrow> True | Some crop \<Rightarrow> length crop = 4) \<and>
     (case e_corners p of None \<Rightarrow> True
       | Some corners \<Rightarrow> length corners = 4 \<and> list_all (\<lambda>point. length point = 2) corners) \<and>
     list_all (\<lambda>v. case v of None \<Rightarrow> True | Some x \<Rightarrow> 0 < x) [e_outputWidth p, e_outputHeight p]"

definition current_revision :: "nat \<Rightarrow> PrepareComponent \<Rightarrow> bool" where
  "current_revision revision s \<longleftrightarrow> revision = pp_previewRevision s \<and> \<not> pp_destroyed s"

text \<open>The end of an upload (its \<open>finally\<close>) and the note about skipped files after it.\<close>

definition skipped_note :: "bool \<Rightarrow> PrepareComponent \<Rightarrow> PrepareComponent" where
  "skipped_note skipped s =
     (if \<not> skipped then s
      else (let warning = js ''Only PDF files can be dropped here.''
            in s\<lparr>pp_error := (if pp_error s = [] then warning else pp_error s @ js '' '' @ warning)\<rparr>))"

definition upload_finally :: "UploadJob \<Rightarrow> PrepareComponent \<Rightarrow> PrepareComponent" where
  "upload_finally job s =
     (let s = s\<lparr>pp_imslp := (pp_imslp s)\<lparr>im_added := im_added (pp_imslp s) @ uj_added job\<rparr>\<rparr>;
          s = syncCancellable (s\<lparr>pp_uploading := False, pp_skipRemainingUploads := False\<rparr>)
      in skipped_note (uj_skipped job) (s\<lparr>pp_busy := False, pp_progress := []\<rparr>))"

text \<open>A drawing is over; the upload that waited for it, if any, ends.\<close>

definition preview_over :: "UploadJob option \<Rightarrow> PrepareComponent \<Rightarrow> PrepareComponent" where
  "preview_over up s = (case up of None \<Rightarrow> s | Some job \<Rightarrow> upload_finally job s)"

definition preview_failed :: "prepare_web \<Rightarrow> nat \<Rightarrow> js_error \<Rightarrow> UploadJob option \<Rightarrow> PrepareComponent \<Rightarrow> PrepareComponent" where
  "preview_failed W revision e up s =
     preview_over up (if revision = pp_previewRevision s then fail_with W e s else s)"

definition start_drawing :: "PreviewJob \<Rightarrow> PrepareComponent \<Rightarrow> PrepareComponent" where
  "start_drawing job s = s\<lparr>pa_previews := pa_previews s @ [(pa_drawings s, job)], pa_drawings := pa_drawings s + 1\<rparr>"

definition renderAuthoritativePreview ::
  "prepare_web \<Rightarrow> PageEdit \<Rightarrow> nat \<Rightarrow> ImportAsset option \<Rightarrow> UploadJob option \<Rightarrow> PrepareComponent \<Rightarrow> PrepareComponent" where
  "renderAuthoritativePreview W page revision source up s =
     (case run_worker W False (WBuild page revision source up) s of
        (True, s) \<Rightarrow> s
      | (False, s) \<Rightarrow> preview_failed W revision (we_factory W) up s)"

definition show_preview :: "jstring \<Rightarrow> real \<Rightarrow> PrepareComponent \<Rightarrow> PrepareComponent" where
  "show_preview url aspect s = (revokePreviewURL s)\<lparr>pp_edgeAspect := aspect, pp_preview := url\<rparr>"

definition render_preview :: "prepare_web \<Rightarrow> UploadJob option \<Rightarrow> PrepareComponent \<Rightarrow> PrepareComponent" where
  "render_preview W up s =
     (let s = s\<lparr>pp_previewTimer := False\<rparr>
      in if pp_busy s \<and> \<not> pp_uploading s then s
         else (let s = invalidatePreview s; revision = pp_previewRevision s
               in case the_page s of
                    None \<Rightarrow> preview_over up (s\<lparr>pp_preview := []\<rparr>)
                  | Some page \<Rightarrow>
                      (let plain = (pp_compare s \<or> pp_handles s \<noteq> None \<or> plain_page page)
                       in case the_source s of
                            Some source \<Rightarrow>
                              if is_image source then start_drawing (RasterLoad page source revision plain up) s
                              else if plain then start_drawing (CanvasLoad revision up) s
                              else renderAuthoritativePreview W page revision None up s
                          | None \<Rightarrow>
                              if plain then start_drawing (CanvasLoad revision up) s
                              else renderAuthoritativePreview W page revision None up s)))"

text \<open>
  A drawing ends with the address and size of the picture, with an error, or, \<open>Inl None\<close>, because
  it was superseded.
\<close>

type_synonym drawn = "(js_error option, jstring \<times> real \<times> real) result"

definition drawing_stopped :: "prepare_web \<Rightarrow> nat \<Rightarrow> js_error option \<Rightarrow> UploadJob option \<Rightarrow> PrepareComponent \<Rightarrow> PrepareComponent" where
  "drawing_stopped W revision e up s = (case e of
     None \<Rightarrow> preview_over up s
   | Some e \<Rightarrow> preview_failed W revision e up s)"

definition drawing_done :: "prepare_web \<Rightarrow> PreviewJob \<Rightarrow> drawn \<Rightarrow> PrepareComponent \<Rightarrow> PrepareComponent" where
  "drawing_done W job outcome s = (case (job, outcome) of
     (RasterLoad page source revision plain up, Inl e) \<Rightarrow> drawing_stopped W revision e up s
   | (RasterLoad page source revision plain up, Inr (url, width, height)) \<Rightarrow>
       if \<not> current_revision revision s then preview_over up s
       else if plain
         then preview_over up (scheduleBackgroundPrepare page source revision (show_preview url (width / height) s))
       else if supportsRasterPreview page
         then (case run_worker W False (WPreview page source revision up) s of
                 (True, s) \<Rightarrow> s
               | (False, s) \<Rightarrow> preview_failed W revision (we_factory W) up s)
       else renderAuthoritativePreview W page revision (Some source) up s
   | (CanvasLoad revision up, Inl e) \<Rightarrow> drawing_stopped W revision e up s
   | (CanvasLoad revision up, Inr (url, width, height)) \<Rightarrow>
       preview_over up (if current_revision revision s then show_preview url (width / height) s else s)
   | (PdfDrawing page revision source up, Inl e) \<Rightarrow> drawing_stopped W revision e up s
   | (PdfDrawing page revision source up, Inr (url, width, height)) \<Rightarrow>
       preview_over up
         (if \<not> current_revision revision s then s
          else (let s = show_preview url (width / height) s
                in case source of None \<Rightarrow> s | Some a \<Rightarrow> scheduleBackgroundPrepare page a revision s)))"

definition drawing_ended :: "prepare_web \<Rightarrow> nat \<Rightarrow> drawn \<Rightarrow> PrepareComponent \<Rightarrow> PrepareComponent" where
  "drawing_ended W n outcome s = (case map_of (pa_previews s) n of
     None \<Rightarrow> s
   | Some job \<Rightarrow> drawing_done W job outcome (s\<lparr>pa_previews := filter (\<lambda>j. fst j \<noteq> n) (pa_previews s)\<rparr>))"

section \<open>Saving the draft\<close>

text \<open>
  \<open>persist\<close>: a save is started, or the caller waits for the one under way, or there is nothing to
  save; the first component tells that the call is over at once.
\<close>

definition persist_call :: "Continuation \<Rightarrow> PrepareComponent \<Rightarrow> bool \<times> PrepareComponent" where
  "persist_call k s =
     (let s = s\<lparr>pp_saveTimer := False\<rparr>
      in if pa_pendingSave s \<noteq> None then (False, s\<lparr>pa_waiters := pa_waiters s @ [Recheck k]\<rparr>)
         else (case pp_draft s of
             None \<Rightarrow> (True, s)
           | Some d \<Rightarrow>
               if d_finalized d \<or> \<not> pp_dirty s then (True, s)
               else (False, s\<lparr>pp_dirty := False, pa_pendingSave := Some d, pa_waiters := pa_waiters s @ [Started k],
                      pa_saves := pa_saves s @ [d]\<rparr>)))"

section \<open>Uploading\<close>

definition setStep :: "PrepareStep \<Rightarrow> PrepareComponent \<Rightarrow> PrepareComponent" where
  "setStep step s =
     (if step \<noteq> SourceStep then s\<lparr>pp_imslp := cancel_search (pp_imslp s), pp_step := step\<rparr> else s\<lparr>pp_step := step\<rparr>)"

definition upload_failed :: "prepare_web \<Rightarrow> js_error \<Rightarrow> UploadJob \<Rightarrow> PrepareComponent \<Rightarrow> PrepareComponent" where
  "upload_failed W e job s = upload_finally job
     (s\<lparr>pp_error := errorMessage (we_upper W) e @ js '' Pages already added remain in this draft.''\<rparr>)"

definition omitted_note :: jstring where
  "omitted_note = js ''A draft holds at most '' @ nat_digits MAX_PREPARED_PAGES @
     js '' pages, so some uploaded pages were not added. Use Choose source pages to pick others.''"

definition upload_ended :: "prepare_web \<Rightarrow> UploadJob \<Rightarrow> PrepareComponent \<Rightarrow> PrepareComponent" where
  "upload_ended W job s =
     (let s = (if uj_stay job then s else setStep PagesStep s);
          s = reconcilePreparedKeys s;
          s = (if uj_omitted job then s\<lparr>pp_error := omitted_note\<rparr> else s)
      in render_preview W (Some job) s)"

text \<open>The next file of an upload is sent, unless the rest was cancelled.\<close>

definition upload_next :: "prepare_web \<Rightarrow> UploadJob \<Rightarrow> PrepareComponent \<Rightarrow> PrepareComponent" where
  "upload_next W job s =
     (if length (uj_files job) \<le> uj_index job \<or> uj_generation job \<noteq> pp_uploadGeneration s
      then upload_ended W job s
      else (let file = uj_files job ! uj_index job
            in case pp_draft s of
                 None \<Rightarrow> upload_failed W OtherThrown job s
               | Some d \<Rightarrow>
                   if d_maxFileBytes d < uf_size file
                   then upload_failed W (JsError (uf_name file @ js '' exceeds the '' @
                          int_text (js_round (of_nat (d_maxFileBytes d) / 1048576)) @ js '' MiB file limit.'')) job s
                   else s\<lparr>pp_progress := js ''Adding '' @ nat_digits (uj_index job + 1) @ js '' of '' @
                            nat_digits (length (uj_files job)) @ js '': '' @ uf_name file,
                          pa_upload := Some (job, d)\<rparr>))"

text \<open>A file has been added: the first of its pages is selected.\<close>

definition upload_added :: "prepare_web \<Rightarrow> UploadJob \<Rightarrow> ImportDraft \<Rightarrow> PrepareComponent \<Rightarrow> PrepareComponent" where
  "upload_added W job old s =
     (let file = uj_files job ! uj_index job;
          s = s\<lparr>pp_selected := min (int (length (m_pages (d_manifest old)))) (int (length (the_pages s)) - 1)\<rparr>;
          job = (if uj_stay job
                 then job\<lparr>uj_added := uj_added job @ [\<lparr>added_filename = uf_name file,
                        added_match = imslpFileMatch (we_nfd W) (we_lower W) (uf_name file) (uj_chosen job)\<rparr>]\<rparr>
                 else job)
      in upload_next W (job\<lparr>uj_index := uj_index job + 1\<rparr>) s)"

definition replace_page :: "nat \<Rightarrow> jstring \<Rightarrow> jstring \<Rightarrow> PageEdit list \<Rightarrow> PageEdit list" where
  "replace_page target i source pages =
     (let kept = filter (\<lambda>p. e_sourceId p \<noteq> source) pages; page = source_page i source 0
      in if target < length kept then kept[target := page] else kept @ [page])"

section \<open>Finalizing\<close>

definition finalize_over :: "PrepareComponent \<Rightarrow> PrepareComponent" where
  "finalize_over s = s\<lparr>pp_finalizing := False, pp_busy := False, pp_progress := [], pa_finalize := None\<rparr>"

definition finalize_failed :: "prepare_web \<Rightarrow> jstring \<Rightarrow> PrepareComponent \<Rightarrow> PrepareComponent" where
  "finalize_failed W message s = finalize_over (s\<lparr>pp_error := message\<rparr>)"

text \<open>The prepared pages at hand are handed to the worker, which builds the document.\<close>

definition start_build :: "prepare_web \<Rightarrow> PrepareComponent \<Rightarrow> PrepareComponent" where
  "start_build W s = (case pp_draft s of
     None \<Rightarrow> finalize_failed W (errorMessage (we_upper W) OtherThrown) s
   | Some current \<Rightarrow>
       (let keys = remdups (List.map_filter (prepared_key_of current) (m_pages (d_manifest current)));
            s = s\<lparr>pp_preparedPages := fold (\<lambda>key c. snd (cache_take c key)) keys (pp_preparedPages s)\<rparr>
        in case run_worker W True (WFinal current) s of
             (True, s) \<Rightarrow> s
           | (False, s) \<Rightarrow> finalize_failed W (errorMessage (we_upper W) (we_factory W)) s))"

definition too_large :: js_error where
  "too_large = JsError (js ''Prepared PDF exceeds the file limit. Remove pages or use smaller images; your draft is retained.'')"

definition cancelled_note :: jstring where
  "cancelled_note = js ''Processing cancelled. Your draft and originals are retained.''"

definition build_settled :: "prepare_web \<Rightarrow> ImportDraft \<Rightarrow> Settlement \<Rightarrow> PrepareComponent \<Rightarrow> PrepareComponent" where
  "build_settled W current outcome s =
     (let s = worker_finally True s
      in case outcome of
           Resolved r \<Rightarrow> (case pr_bytes r of
               None \<Rightarrow> finalize_failed W (errorMessage (we_upper W) (JsError (js ''Prepared PDF was not returned.''))) s
             | Some bytes \<Rightarrow>
                 if d_maxFileBytes current < length bytes
                 then finalize_failed W (errorMessage (we_upper W) too_large) s
                 else s\<lparr>pa_finalize := Some current\<rparr>)
         | Stopped reason \<Rightarrow> finalize_failed W
             (if reason = Cancelled then cancelled_note else errorMessage (we_upper W) (JsError (stop_message reason))) s
         | Failed message \<Rightarrow> finalize_failed W (errorMessage (we_upper W) (JsError message)) s)"

definition finalize_answered :: "prepare_web \<Rightarrow> (js_error, FinalizeResult) result \<Rightarrow> PrepareComponent \<Rightarrow> PrepareComponent" where
  "finalize_answered W answer s = (case pa_finalize s of
     None \<Rightarrow> s
   | Some current \<Rightarrow> (case answer of
         Inl e \<Rightarrow> finalize_failed W (errorMessage (we_upper W) e) s
       | Inr piece \<Rightarrow>
           finalize_over (s\<lparr>pp_dirty := False,
             pp_draft := map_option (\<lambda>d. d\<lparr>d_finalized := True, d_pieceId := Some (fr_id piece)\<rparr>) (pp_draft s),
             pp_completed := Some piece,
             pp_destinations := pp_destinations s @ (if fr_duplicateOf piece = None then [ToReader (fr_id piece)] else [])\<rparr>)))"

section \<open>Going on\<close>

definition resume_save :: "prepare_web \<Rightarrow> Continuation \<Rightarrow> (js_error, unit) result \<Rightarrow> PrepareComponent \<Rightarrow> PrepareComponent" where
  "resume_save W k outcome s = (case k of
     AfterTimer \<Rightarrow> (case outcome of Inl e \<Rightarrow> fail_with W e s | Inr _ \<Rightarrow> s)
   | AfterPanel \<Rightarrow> (case outcome of Inl e \<Rightarrow> fail_with W e s | Inr _ \<Rightarrow> s)
   | AfterLeave confirmed \<Rightarrow> (case outcome of
         Inl e \<Rightarrow> (fail_with W e s)\<lparr>pa_left := pa_left s @ [confirmed]\<rparr>
       | Inr _ \<Rightarrow> s\<lparr>pa_left := pa_left s @ [True]\<rparr>)
   | AfterClose \<Rightarrow> (case outcome of
         Inl e \<Rightarrow> fail_with W e s
       | Inr _ \<Rightarrow> s\<lparr>pp_destinations := pp_destinations s @ [ToLibrary]\<rparr>)
   | AfterContinue \<Rightarrow> (case outcome of
         Inl e \<Rightarrow> fail_with W e s
       | Inr _ \<Rightarrow> setStep (if pp_step s = SourceStep then PagesStep else DetailsStep) s)
   | AfterUpload job \<Rightarrow> (case outcome of
         Inl e \<Rightarrow> upload_failed W e job s
       | Inr _ \<Rightarrow>
           upload_next W (job\<lparr>uj_chosen := chosenIMSLPWork (pp_draft s)\<rparr>)
             (s\<lparr>pp_replaceID := (if uj_replace job then map_option e_id (the_page s) else None)\<rparr>))
   | AfterReplace job old \<Rightarrow> (case outcome of
         Inl e \<Rightarrow> upload_failed W e job s
       | Inr _ \<Rightarrow> upload_added W job old ((reconcilePreparedKeys s)\<lparr>pp_replaceID := None\<rparr>))
   | AfterFinalize \<Rightarrow> (case outcome of
         Inl e \<Rightarrow> finalize_failed W (errorMessage (we_upper W) e) s
       | Inr _ \<Rightarrow> start_build W s))"

definition persist :: "prepare_web \<Rightarrow> Continuation \<Rightarrow> PrepareComponent \<Rightarrow> PrepareComponent" where
  "persist W k s = (case persist_call k s of (now, s) \<Rightarrow> if now then resume_save W k (Inr ()) s else s)"

end
