(* ===== verification/PrepareEvents.thy ===== *)
theory PrepareEvents
  imports PrepareFlow
begin

text \<open>
  The Prepare page as a state machine: the handlers that draw, save, upload, finalize or leave
  (\<open>web/src/app/features/prepare/prepare.component.ts\<close>), the handlers of the IMSLP panel beside it
  (\<open>prepare-imslp.component.ts\<close>), and the answers they wait for.
\<close>

section \<open>Handlers that draw again\<close>

definition undo :: "prepare_web \<Rightarrow> PrepareComponent \<Rightarrow> PrepareComponent" where
  "undo W s =
     (if pp_busy s then s
      else (let s = endGesture s
            in if pp_history s = [] then s
               else (let m = last (pp_history s);
                         s = set_manifest m (s\<lparr>pp_history := butlast (pp_history s)\<rparr>);
                         s = s\<lparr>pp_selected := min (pp_selected s) (int (length (m_pages m)) - 1)\<rparr>
                     in render_preview W None (mark (reconcilePreparedKeys s)))))"

definition choose_page :: "prepare_web \<Rightarrow> nat \<Rightarrow> PrepareComponent \<Rightarrow> PrepareComponent" where
  "choose_page W index s =
     (if pp_busy s \<or> editingEdges s then s
      else render_preview W None ((endGesture s)\<lparr>pp_selected := int index, pp_handles := None\<rparr>))"

definition setCompare :: "prepare_web \<Rightarrow> bool \<Rightarrow> PrepareComponent \<Rightarrow> PrepareComponent" where
  "setCompare W v s = (if pp_busy s then s else render_preview W None (s\<lparr>pp_compare := v\<rparr>))"

text \<open>The editor is ready once the unadjusted preview has been drawn: the event \<open>EdgesShown\<close>.\<close>

definition beginEdges :: "prepare_web \<Rightarrow> PrepareComponent \<Rightarrow> PrepareComponent" where
  "beginEdges W s = (if pp_busy s \<or> the_page s = None then s else render_preview W None (edges_started s))"

definition cancelEdges :: "prepare_web \<Rightarrow> PrepareComponent \<Rightarrow> PrepareComponent" where
  "cancelEdges W s = render_preview W None
     (s\<lparr>pp_handles := None, pp_pendingEdges := [], pp_compare := pp_edgeCompare s\<rparr>)"

definition preview_timer_fired :: "prepare_web \<Rightarrow> PrepareComponent \<Rightarrow> PrepareComponent" where
  "preview_timer_fired W s = (if pp_previewTimer s then render_preview W None (s\<lparr>pp_previewTimer := False\<rparr>) else s)"

section \<open>Preparing in the background\<close>

definition still_wanted :: "BackgroundPage \<Rightarrow> PrepareComponent \<Rightarrow> bool" where
  "still_wanted b s \<longleftrightarrow> \<not> pp_destroyed s \<and> pp_previewRevision s = bg_revision b \<and>
     (case the_page s of
        None \<Rightarrow> False
      | Some page \<Rightarrow> e_id page = e_id (bg_page b) \<and> currentPreparedKey page s = Some (bg_key b))"

definition prepareInBackground :: "prepare_web \<Rightarrow> PrepareComponent \<Rightarrow> PrepareComponent" where
  "prepareInBackground W s = (case pp_backgroundTimer s of
     None \<Rightarrow> s
   | Some b \<Rightarrow>
       (let s = s\<lparr>pp_backgroundTimer := None\<rparr>
        in if pp_busy s \<or> \<not> still_wanted b s \<or>
              map_option a_checksum (the_source s) \<noteq> Some (a_checksum (bg_source b)) then s
           else snd (run_worker W False (WBackground b) s)))"

section \<open>The worker's answers\<close>

definition worker_settled :: "prepare_web \<Rightarrow> WorkerJob \<Rightarrow> Settlement \<Rightarrow> PrepareComponent \<Rightarrow> PrepareComponent" where
  "worker_settled W job outcome s = (case job of
     WFinal current \<Rightarrow> build_settled W current outcome s
   | WBackground b \<Rightarrow> (case outcome of
         Resolved r \<Rightarrow> (case pr_bytes r of
             Some bytes \<Rightarrow> if still_wanted b s
               then s\<lparr>pp_preparedPages := cache_set (pp_preparedPages s) (bg_key b) bytes\<rparr> else s
           | None \<Rightarrow> s)
       | _ \<Rightarrow> s)
   | WPreview page source revision up \<Rightarrow> (case outcome of
         Stopped reason \<Rightarrow> preview_over up s
       | Failed message \<Rightarrow> preview_failed W revision (JsError message) up s
       | Resolved r \<Rightarrow>
           if \<not> current_revision revision s \<or> pr_blob r = None then preview_over up s
           else (let url = we_objectURL W (pa_drawings s);
                     aspect = (case pr_width r of Some (Suc w) \<Rightarrow> real (Suc w) | _ \<Rightarrow> 1) /
                              (case pr_height r of Some (Suc h) \<Rightarrow> real (Suc h) | _ \<Rightarrow> 1);
                     s = (show_preview url aspect s)\<lparr>pp_objectURL := url, pa_drawings := pa_drawings s + 1\<rparr>
                 in preview_over up (scheduleBackgroundPrepare page source revision s)))
   | WBuild page revision source up \<Rightarrow> (case outcome of
         Stopped reason \<Rightarrow> preview_over up s
       | Failed message \<Rightarrow> preview_failed W revision (JsError message) up s
       | Resolved r \<Rightarrow>
           if \<not> current_revision revision s then preview_over up s
           else if pr_bytes r = None
             then preview_over up (case source of None \<Rightarrow> s | Some a \<Rightarrow> scheduleBackgroundPrepare page a revision s)
           else start_drawing (PdfDrawing page revision source up) s))"

text \<open>The promises that have been settled go on, in the order they were made.\<close>

definition settle_promise :: "prepare_web \<Rightarrow> nat \<times> WorkerJob \<Rightarrow> PrepareComponent \<Rightarrow> PrepareComponent" where
  "settle_promise W a s = (case map_of (wc_settled (pp_workerClient s)) (fst a) of
     None \<Rightarrow> s
   | Some outcome \<Rightarrow> worker_settled W (snd a) outcome (s\<lparr>pa_awaits := filter (\<lambda>b. fst b \<noteq> fst a) (pa_awaits s)\<rparr>))"

definition settle_promises :: "prepare_web \<Rightarrow> PrepareComponent \<Rightarrow> PrepareComponent" where
  "settle_promises W s = fold (settle_promise W) (pa_awaits s) s"

section \<open>Saving\<close>

definition hasUnsavedChanges :: "PrepareComponent \<Rightarrow> bool" where
  "hasUnsavedChanges s \<longleftrightarrow> \<not> pp_discarding s \<and> (pp_dirty s \<or> pa_pendingSave s \<noteq> None)"

text \<open>\<open>confirmed\<close> is what the user answers when asked, after a failed save, whether to leave anyway.\<close>

definition canLeave :: "prepare_web \<Rightarrow> bool \<Rightarrow> PrepareComponent \<Rightarrow> PrepareComponent" where
  "canLeave W confirmed s =
     (if \<not> hasUnsavedChanges s then s\<lparr>pa_left := pa_left s @ [True]\<rparr> else persist W (AfterLeave confirmed) s)"

definition warnBeforeUnload :: "prepare_web \<Rightarrow> PrepareComponent \<Rightarrow> PrepareComponent" where
  "warnBeforeUnload W s = (if hasUnsavedChanges s then persist W AfterTimer s else s)"

definition save_timer_fired :: "prepare_web \<Rightarrow> PrepareComponent \<Rightarrow> PrepareComponent" where
  "save_timer_fired W s = (if pp_saveTimer s then persist W AfterTimer s else s)"

definition delete_started :: "DeleteJob \<Rightarrow> PrepareComponent \<Rightarrow> PrepareComponent" where
  "delete_started job s = s\<lparr>pa_deleting := Some job\<rparr>"

definition discard_over :: "PrepareComponent \<Rightarrow> PrepareComponent" where
  "discard_over s = s\<lparr>pp_discarding := False, pp_busy := False, pa_deleting := None\<rparr>"

text \<open>A waiter looks at how the save ended: it goes on, or waits for another save.\<close>

definition wake_waiter ::
  "(js_error, unit) result \<Rightarrow> Waiter \<Rightarrow> (Continuation \<times> (js_error, unit) result) list \<times> PrepareComponent \<Rightarrow>
    (Continuation \<times> (js_error, unit) result) list \<times> PrepareComponent" where
  "wake_waiter outcome w acc = (case acc of (ready, s) \<Rightarrow> (case w of
     Started k \<Rightarrow> (ready @ [(k, outcome)], s)
   | Recheck k \<Rightarrow> (case outcome of
         Inl e \<Rightarrow> (ready @ [(k, outcome)], s)
       | Inr _ \<Rightarrow>
           if pp_dirty s
           then (case persist_call k s of (now, s) \<Rightarrow> (if now then ready @ [(k, Inr ())] else ready, s))
           else (ready @ [(k, outcome)], s))
   | DetailsWaits \<Rightarrow> (ready, s)
   | DiscardWaits \<Rightarrow> (ready, s)))"

definition wake_deleting :: "prepare_web \<Rightarrow> (js_error, unit) result \<Rightarrow> Waiter \<Rightarrow> PrepareComponent \<Rightarrow> PrepareComponent" where
  "wake_deleting W outcome w s = (case w of
     DetailsWaits \<Rightarrow> (case outcome of
         Inl e \<Rightarrow> (fail_with W e s)\<lparr>pp_busy := False\<rparr>
       | Inr _ \<Rightarrow> delete_started DetailsDelete s)
   | DiscardWaits \<Rightarrow> delete_started DiscardDelete (s\<lparr>pp_dirty := False\<rparr>)
   | _ \<Rightarrow> s)"

text \<open>The server answers a save with the draft's new revision and time.\<close>

definition save_settled :: "(js_error, nat \<times> jstring) result \<Rightarrow> ImportDraft \<Rightarrow> PrepareComponent \<Rightarrow> PrepareComponent" where
  "save_settled answer snapshot s = (case answer of
     Inr (revision, updatedAt) \<Rightarrow>
       s\<lparr>pp_draft := map_option (\<lambda>d. d\<lparr>d_revision := revision, d_updatedAt := updatedAt\<rparr>) (pp_draft s),
         pp_saved := (if pp_dirty s then js ''Unsaved changes'' else js ''Draft saved''),
         pa_acked := Some snapshot\<rparr>
   | Inl e \<Rightarrow> s\<lparr>pp_dirty := \<not> pp_discarding s\<rparr>)"

definition save_answered :: "prepare_web \<Rightarrow> (js_error, nat \<times> jstring) result \<Rightarrow> PrepareComponent \<Rightarrow> PrepareComponent" where
  "save_answered W answer s = (case pa_pendingSave s of
     None \<Rightarrow> s
   | Some snapshot \<Rightarrow>
       (let outcome = (case answer of Inl e \<Rightarrow> Inl e | Inr _ \<Rightarrow> Inr ());
            waiters = pa_waiters s;
            s = (save_settled answer snapshot s)\<lparr>pa_pendingSave := None, pa_waiters := []\<rparr>;
            s = fold (wake_deleting W outcome) waiters s;
            (ready, s) = fold (wake_waiter outcome) waiters ([], s)
        in fold (\<lambda>(k, outcome). resume_save W k outcome) ready s))"

section \<open>Leaving\<close>

definition load_draft :: "prepare_web \<Rightarrow> (js_error, ImportDraft) result \<Rightarrow> PrepareComponent \<Rightarrow> PrepareComponent" where
  "load_draft W answer s = (case answer of
     Inl e \<Rightarrow> fail_with W e s
   | Inr d \<Rightarrow> (case (d_finalized d, d_pieceId d) of
         (True, Some piece) \<Rightarrow>
           if piece = [] then s else s\<lparr>pp_destinations := pp_destinations s @ [ToReader piece]\<rparr>
       | _ \<Rightarrow>
           (let link = in_sourceUrl (d_metadata d);
                s = s\<lparr>pp_draft := Some d, pp_sourceMode := we_source W,
                      pp_rangeSourceId := (case d_sources d of [] \<Rightarrow> [] | a # as \<Rightarrow> a_id a),
                      pp_imslp := (pp_imslp s)\<lparr>im_link := (if isIMSLPWorkLink link then link else [])\<rparr>,
                      pp_step := (if m_pages (d_manifest d) = [] then SourceStep else PagesStep),
                      pa_acked := Some d\<rparr>
            in render_preview W None (reconcilePreparedKeys s))))"

definition destroy_page :: "PrepareComponent \<Rightarrow> PrepareComponent" where
  "destroy_page s =
     (let s = invalidatePreview (s\<lparr>pp_destroyed := True, pp_imslp := destroy_search (pp_imslp s)\<rparr>);
          s = s\<lparr>pp_previewTimer := False, pp_backgroundTimer := None,
                pp_workerClient := destroy (pp_workerClient s),
                pp_preparedPages := cache_clear (pp_preparedPages s), pp_saveTimer := False\<rparr>
      in revokePreviewURL s)"

definition detailsWithoutPDF :: "PrepareComponent \<Rightarrow> PrepareComponent" where
  "detailsWithoutPDF s = (case pp_draft s of
     None \<Rightarrow> s
   | Some d \<Rightarrow>
       if d_sources d \<noteq> [] \<or> has_text (d_pieceId d) \<or> pp_busy s then s
       else (let s = s\<lparr>pp_busy := True\<rparr>
             in if pa_pendingSave s \<noteq> None then s\<lparr>pa_waiters := pa_waiters s @ [DetailsWaits]\<rparr>
                else delete_started DetailsDelete s))"

definition close_draft :: "prepare_web \<Rightarrow> PrepareComponent \<Rightarrow> PrepareComponent" where
  "close_draft W s = (if pp_busy s \<or> editingEdges s then s else persist W AfterClose (invalidatePreview s))"

definition backFromPages :: "prepare_web \<Rightarrow> PrepareComponent \<Rightarrow> PrepareComponent" where
  "backFromPages W s =
     (if pp_busy s \<or> editingEdges s then s
      else if has_text (case pp_draft s of None \<Rightarrow> None | Some d \<Rightarrow> d_pieceId d) then close_draft W s
      else setStep SourceStep s)"

definition discard_draft :: "bool \<Rightarrow> PrepareComponent \<Rightarrow> PrepareComponent" where
  "discard_draft confirmed s = (case pp_draft s of
     None \<Rightarrow> s
   | Some d \<Rightarrow>
       if d_finalized d \<or> pp_busy s \<or> editingEdges s \<or> \<not> confirmed then s
       else (let s = s\<lparr>pp_busy := True, pp_error := [], pp_discarding := True, pp_saveTimer := False, pp_dirty := False\<rparr>
             in if pa_pendingSave s \<noteq> None then s\<lparr>pa_waiters := pa_waiters s @ [DiscardWaits]\<rparr>
                else delete_started DiscardDelete s))"

definition delete_answered :: "prepare_web \<Rightarrow> (js_error, unit) result \<Rightarrow> PrepareComponent \<Rightarrow> PrepareComponent" where
  "delete_answered W answer s = (case pa_deleting s of
     None \<Rightarrow> s
   | Some DetailsDelete \<Rightarrow>
       (case answer of
          Inl e \<Rightarrow> fail_with W e s
        | Inr _ \<Rightarrow> s\<lparr>pp_dirty := False, pp_destinations := pp_destinations s @ [ToNewDetails]\<rparr>)
       \<lparr>pp_busy := False, pa_deleting := None\<rparr>
   | Some DiscardDelete \<Rightarrow> discard_over
       (case answer of
          Inl e \<Rightarrow> fail_with W e s
        | Inr _ \<Rightarrow> s\<lparr>pp_destinations := pp_destinations s @ [ToLibrary]\<rparr>))"

section \<open>IMSLP links and uploads\<close>

text \<open>A pasted work link is stored on the draft; the error of a wrong one is thrown.\<close>

definition applyIMSLP :: "prepare_web \<Rightarrow> PrepareComponent \<Rightarrow> (js_error, jstring option) result \<times> PrepareComponent" where
  "applyIMSLP W s =
     (if pp_step s \<noteq> SourceStep \<or> js_trim (im_link (pp_imslp s)) = [] then (Inr None, s)
      else (case pp_draft s of
          None \<Rightarrow> (Inl OtherThrown, s)
        | Some d \<Rightarrow> (case linkIMSLPWork (we_url W) d (im_link (pp_imslp s)) of
              (Inl e, d) \<Rightarrow> (Inl e, s\<lparr>pp_draft := Some d\<rparr>)
            | (Inr href, d) \<Rightarrow> (Inr (Some href), mark (s\<lparr>pp_draft := Some d\<rparr>)))))"

definition uploadFiles :: "prepare_web \<Rightarrow> UploadFile list \<Rightarrow> bool \<Rightarrow> bool \<Rightarrow> PrepareComponent \<Rightarrow> PrepareComponent" where
  "uploadFiles W files replace skipped s =
     (if pp_busy s \<or> files = [] then skipped_note skipped s
      else (let stay = (\<not> replace \<and> pp_step s = SourceStep \<and> pp_sourceMode s = js ''imslp'');
                s = syncCancellable (s\<lparr>pp_busy := True, pp_error := [], pp_uploading := True,
                      pp_skipRemainingUploads := False\<rparr>);
                s = s\<lparr>pp_uploadGeneration := pp_uploadGeneration s + 1\<rparr>;
                job = \<lparr>uj_files = files, uj_index = 0, uj_replace = replace, uj_stay = stay,
                       uj_generation = pp_uploadGeneration s, uj_chosen = None, uj_omitted = False, uj_added = [],
                       uj_skipped = skipped\<rparr>
            in case applyIMSLP W s of
                 (Inl e, s) \<Rightarrow> upload_failed W e job s
               | (Inr _, s) \<Rightarrow> persist W (AfterUpload job) s))"

text \<open>The server has added a file: each completed file is one undo step.\<close>

definition upload_answered :: "prepare_web \<Rightarrow> (js_error, ImportDraft) result \<Rightarrow> PrepareComponent \<Rightarrow> PrepareComponent" where
  "upload_answered W answer s = (case pa_upload s of
     None \<Rightarrow> s
   | Some (job, d) \<Rightarrow> (let s = s\<lparr>pa_upload := None\<rparr> in case answer of
         Inl e \<Rightarrow> upload_failed W e job s
       | Inr next_draft \<Rightarrow>
           (let s = remember s;
                s = s\<lparr>pp_draft := Some next_draft, pa_acked := Some next_draft,
                      pp_rangeSourceId := (if pp_rangeSourceId s \<noteq> [] then pp_rangeSourceId s
                        else case d_sources next_draft of [] \<Rightarrow> [] | a # as \<Rightarrow> a_id a)\<rparr>;
                incoming = find (\<lambda>a. a_id a \<notin> a_id ` set (d_sources d)) (d_sources next_draft);
                pages = m_pages (d_manifest next_draft)
            in case pp_replaceID s of
                 None \<Rightarrow>
                   (let omitted = (case incoming of None \<Rightarrow> False
                          | Some a \<Rightarrow> int (length pages) - int (length (m_pages (d_manifest d))) < int (a_pageCount a))
                    in upload_added W (job\<lparr>uj_omitted := uj_omitted job \<or> omitted\<rparr>) d s)
               | Some i \<Rightarrow> (case (incoming, find_index (\<lambda>p. e_id p = i) pages) of
                     (Some a, Some target) \<Rightarrow>
                       persist W (AfterReplace job d) (mark (set_pages (replace_page target i (a_id a) pages) s))
                   | _ \<Rightarrow> upload_failed W (JsError (js ''Replacement source was not received.'')) job s))))"

definition continue_step :: "prepare_web \<Rightarrow> PrepareComponent \<Rightarrow> PrepareComponent" where
  "continue_step W s = (case applyIMSLP W s of
     (Inl e, s) \<Rightarrow> fail_with W e s
   | (Inr _, s) \<Rightarrow> persist W AfterContinue s)"

definition save_score :: "prepare_web \<Rightarrow> PrepareComponent \<Rightarrow> PrepareComponent" where
  "save_score W s =
     (if pp_draft s = None \<or> finalized s \<or> pp_busy s \<or> pp_finalizing s then s
      else (case applyIMSLP W s of
          (Inl e, s) \<Rightarrow> fail_with W e s
        | (Inr _, s) \<Rightarrow> persist W AfterFinalize
            ((invalidatePreview (s\<lparr>pp_finalizing := True\<rparr>))
              \<lparr>pp_busy := True, pp_error := [], pp_progress := js ''Preparing score''\<rparr>)))"

definition cancel_processing :: "PrepareComponent \<Rightarrow> PrepareComponent" where
  "cancel_processing s =
     (if \<not> pp_cancellable s then s
      else if pp_uploading s
        then (syncCancellable (s\<lparr>pp_uploadGeneration := pp_uploadGeneration s + 1, pp_skipRemainingUploads := True\<rparr>))
               \<lparr>pp_progress := js ''Finishing the current upload; remaining files cancelled.''\<rparr>
      else (let s = syncCancellable (s\<lparr>pp_workerClient := cancel (pp_workerClient s), pp_foregroundWorker := False,
                      pp_uploadGeneration := pp_uploadGeneration s + 1\<rparr>)
            in if pp_finalizing s then s else s\<lparr>pp_busy := False, pp_progress := [], pp_error := cancelled_note\<rparr>))"

section \<open>The IMSLP panel\<close>

definition chooseSource :: "jstring \<Rightarrow> PrepareComponent \<Rightarrow> PrepareComponent" where
  "chooseSource mode s =
     (if mode \<noteq> js ''imslp'' then s\<lparr>pp_imslp := cancel_search (pp_imslp s), pp_sourceMode := mode\<rparr>
      else s\<lparr>pp_sourceMode := mode\<rparr>)"

definition on_imslp :: "(ImslpSearch \<Rightarrow> ImslpSearch) \<Rightarrow> PrepareComponent \<Rightarrow> PrepareComponent" where
  "on_imslp f s = s\<lparr>pp_imslp := f (pp_imslp s)\<rparr>"

definition panel_open :: "PrepareComponent \<Rightarrow> bool" where
  "panel_open s \<longleftrightarrow> pp_sourceMode s = js ''imslp'' \<and> pp_step s = SourceStep"

definition selectWork :: "prepare_web \<Rightarrow> IMSLPWork \<Rightarrow> PrepareComponent \<Rightarrow> PrepareComponent" where
  "selectWork W work s = (case pp_draft s of
     None \<Rightarrow> s
   | Some d \<Rightarrow>
       if pp_busy s \<or> pp_finalizing s \<or> resultsStale (pp_imslp s) \<or> \<not> List.member (im_results (pp_imslp s)) work then s
       else (let s = mark (on_imslp (\<lambda>i. i\<lparr>im_link := w_url work\<rparr>) (s\<lparr>pp_draft := Some (fill_from_work work d)\<rparr>));
                 s = on_imslp (\<lambda>i. i\<lparr>im_changing := False, im_opened := True\<rparr>) s
             in persist W AfterPanel (s\<lparr>pa_windows := pa_windows s @ [w_url work]\<rparr>)))"

definition changeWork :: "PrepareComponent \<Rightarrow> PrepareComponent" where
  "changeWork = on_imslp (\<lambda>i. i\<lparr>im_changing := True\<rparr>)"

definition openLink :: "prepare_web \<Rightarrow> PrepareComponent \<Rightarrow> PrepareComponent" where
  "openLink W s = (case applyIMSLP W s of
     (Inl e, s) \<Rightarrow> fail_with W e s
   | (Inr href, s) \<Rightarrow> persist W AfterPanel
       (case href of
          None \<Rightarrow> s
        | Some url \<Rightarrow>
            if url = [] then s
            else on_imslp (\<lambda>i. i\<lparr>im_changing := False, im_opened := True\<rparr>) (s\<lparr>pa_windows := pa_windows s @ [url]\<rparr>)))"

definition dragOver :: "bool \<Rightarrow> PrepareComponent \<Rightarrow> PrepareComponent" where
  "dragOver hasFiles s = (if hasFiles then on_imslp (\<lambda>i. i\<lparr>im_dropHot := \<not> pp_busy s\<rparr>) s else s)"

definition dragLeave :: "bool \<Rightarrow> PrepareComponent \<Rightarrow> PrepareComponent" where
  "dragLeave inside s = (if inside then s else on_imslp (\<lambda>i. i\<lparr>im_dropHot := False\<rparr>) s)"

definition is_pdf :: "prepare_web \<Rightarrow> UploadFile \<Rightarrow> bool" where
  "is_pdf W file \<longleftrightarrow> uf_type file = js ''application/pdf'' \<or>
     (let n = length (uf_name file) in 4 \<le> n \<and> we_lower W (drop (n - 4) (uf_name file)) = js ''.pdf'')"

definition drop_files :: "prepare_web \<Rightarrow> UploadFile list \<Rightarrow> PrepareComponent \<Rightarrow> PrepareComponent" where
  "drop_files W files s =
     (let s = on_imslp (\<lambda>i. i\<lparr>im_dropHot := False\<rparr>) s; pdfs = filter (is_pdf W) files
      in if pp_busy s then s else uploadFiles W pdfs False (length pdfs < length files) s)"

section \<open>The page as a state machine\<close>

text \<open>Edits of the pages and the details.\<close>

datatype prepare_edit =
    Margin nat "real option" | Change ChangeKey "real option" | Rotate | PaperStrength real | StartGesture | EndGesture
  | ResetPage | ResetAll | MovePage int | RemovePage | KeepSelected | UseRange | ApplyEdges | Metadata MetadataField

datatype prepare_event =
    Edit prepare_edit | Undo | ChoosePage nat | TogglePage jstring | RangeSource jstring | RangeText jstring
  | SetCompare bool | BeginEdges | EdgesShown | MoveEdge nat real real bool | ResetPendingEdges | CancelEdges
  | DraftLoaded "(js_error, ImportDraft) result" | SaveTimerFired | SaveAnswered "(js_error, nat \<times> jstring) result"
  | CanLeave bool | WarnBeforeUnload | CloseDraft | BackFromPages | SetStep PrepareStep | Continue
  | DetailsWithoutPDF | DiscardDraft bool | DeleteAnswered "(js_error, unit) result"
  | Upload "UploadFile list" bool | UploadAnswered "(js_error, ImportDraft) result"
  | SaveScore | FinalizeAnswered "(js_error, FinalizeResult) result" | CancelProcessing
  | PreviewTimer | BackgroundTimer | Drawn nat drawn | PrepareWorkerMessage nat ProcessingResponse | PrepareWorkerError nat
  | PanelSearch search_event | PanelLink jstring | SelectWork IMSLPWork | ChangeWork | OpenLink
  | DragOver bool | DragLeave bool | DropFiles "UploadFile list" | ChooseSource jstring | DestroyPage

fun apply_edit :: "prepare_web \<Rightarrow> prepare_edit \<Rightarrow> PrepareComponent \<Rightarrow> PrepareComponent" where
  "apply_edit W (Margin i mm) s = changeMargin i mm s"
| "apply_edit W (Change key v) s = change key v s"
| "apply_edit W Rotate s = rotate_page s"
| "apply_edit W (PaperStrength v) s = changePaperStrength v s"
| "apply_edit W StartGesture s = startGesture s"
| "apply_edit W EndGesture s = endGesture s"
| "apply_edit W ResetPage s = resetPage s"
| "apply_edit W ResetAll s = resetAll s"
| "apply_edit W (MovePage delta) s = move_page delta s"
| "apply_edit W RemovePage s = remove_page s"
| "apply_edit W KeepSelected s = keepSelected s"
| "apply_edit W UseRange s = useRange (we_upper W) (we_uuid W) s"
| "apply_edit W ApplyEdges s = applyEdges s"
| "apply_edit W (Metadata f) s = updateMetadata f s"

fun handle_event :: "prepare_web \<Rightarrow> prepare_event \<Rightarrow> PrepareComponent \<Rightarrow> PrepareComponent" where
  "handle_event W (Edit e) s = apply_edit W e s"
| "handle_event W Undo s = undo W s"
| "handle_event W (ChoosePage i) s = choose_page W i s"
| "handle_event W (TogglePage i) s = toggle_page i s"
| "handle_event W (RangeSource i) s = s\<lparr>pp_rangeSourceId := i\<rparr>"
| "handle_event W (RangeText t) s = s\<lparr>pp_rangeText := t\<rparr>"
| "handle_event W (SetCompare v) s = setCompare W v s"
| "handle_event W BeginEdges s = beginEdges W s"
| "handle_event W EdgesShown s = s\<lparr>pp_edgeReady := True\<rparr>"
| "handle_event W (MoveEdge i x y r) s = move_pending_edge i x y r s"
| "handle_event W ResetPendingEdges s = resetPendingEdges s"
| "handle_event W CancelEdges s = cancelEdges W s"
| "handle_event W (DraftLoaded answer) s = load_draft W answer s"
| "handle_event W SaveTimerFired s = save_timer_fired W s"
| "handle_event W (SaveAnswered answer) s = save_answered W answer s"
| "handle_event W (CanLeave confirmed) s = canLeave W confirmed s"
| "handle_event W WarnBeforeUnload s = warnBeforeUnload W s"
| "handle_event W CloseDraft s = close_draft W s"
| "handle_event W BackFromPages s = backFromPages W s"
| "handle_event W (SetStep step) s = setStep step s"
| "handle_event W Continue s = continue_step W s"
| "handle_event W DetailsWithoutPDF s = detailsWithoutPDF s"
| "handle_event W (DiscardDraft confirmed) s = discard_draft confirmed s"
| "handle_event W (DeleteAnswered answer) s = delete_answered W answer s"
| "handle_event W (Upload files replace) s = uploadFiles W files replace False s"
| "handle_event W (UploadAnswered answer) s = upload_answered W answer s"
| "handle_event W SaveScore s = save_score W s"
| "handle_event W (FinalizeAnswered answer) s = finalize_answered W answer s"
| "handle_event W CancelProcessing s = cancel_processing s"
| "handle_event W PreviewTimer s = preview_timer_fired W s"
| "handle_event W BackgroundTimer s = prepareInBackground W s"
| "handle_event W (Drawn n outcome) s = drawing_ended W n outcome s"
| "handle_event W (PrepareWorkerMessage w r) s = s\<lparr>pp_workerClient := receive w r (pp_workerClient s)\<rparr>"
| "handle_event W (PrepareWorkerError w) s = s\<lparr>pp_workerClient := worker_error w (pp_workerClient s)\<rparr>"
| "handle_event W (PanelSearch e) s = on_imslp (search_step (we_lower W)
     (case e of SearchTimer open_then n \<Rightarrow> SearchTimer (panel_open s) n | _ \<Rightarrow> e)) s"
| "handle_event W (PanelLink link) s = on_imslp (\<lambda>i. i\<lparr>im_link := link\<rparr>) s"
| "handle_event W (SelectWork work) s = selectWork W work s"
| "handle_event W ChangeWork s = changeWork s"
| "handle_event W OpenLink s = openLink W s"
| "handle_event W (DragOver hasFiles) s = dragOver hasFiles s"
| "handle_event W (DragLeave inside) s = dragLeave inside s"
| "handle_event W (DropFiles files) s = drop_files W files s"
| "handle_event W (ChooseSource mode) s = chooseSource mode s"
| "handle_event W DestroyPage s = destroy_page s"

text \<open>After a handler, promises of the worker that it settled go on before anything else happens.\<close>

definition prepare_step :: "prepare_web \<Rightarrow> prepare_event \<Rightarrow> PrepareComponent \<Rightarrow> PrepareComponent" where
  "prepare_step W e s = settle_promises W (handle_event W e s)"

definition new_prepare :: PrepareComponent where
  "new_prepare = \<lparr>pp_draft = None, pp_completed = None, pp_step = SourceStep, pp_error = [], pp_busy = False,
     pp_finalizing = False, pp_progress = [], pp_cancellable = False, pp_saved = [], pp_preview = [], pp_selected = 0,
     pp_compare = False, pp_zoom = 1, pp_handles = None, pp_pendingEdges = [], pp_edgeReady = False,
     pp_edgeAspect = 3 / 4, pp_edgeResetRequired = False, pp_edgeCompare = False, pp_gesture = False,
     pp_previewTimer = False, pp_backgroundTimer = None, pp_selectedIDs = [], pp_sourceMode = js ''all'',
     pp_imslp = new_search, pp_rangeSourceId = [], pp_rangeText = [], pp_uploadGeneration = 0,
     pp_workerClient = new_client, pp_foregroundWorker = False,
     pp_preparedPages = new_cache DEFAULT_MAX_ENTRIES DEFAULT_MAX_BYTES, pp_preparedKeysByPage = [],
     pp_saveTimer = False, pp_dirty = False, pp_discarding = False, pp_destroyed = False, pp_previewRevision = 0,
     pp_history = [], pp_replaceID = None, pp_objectURL = [], pp_uploading = False, pp_skipRemainingUploads = False,
     pp_uuids = 0, pp_revoked = [], pp_destinations = [],
     pa_pendingSave = None, pa_waiters = [], pa_upload = None, pa_previews = [], pa_drawings = 0, pa_awaits = [],
     pa_finalize = None, pa_deleting = None, pa_saves = [], pa_left = [], pa_acked = None, pa_windows = []\<rparr>"

end
