(* ===== verification/PrepareFrames.thy ===== *)
theory PrepareFrames
  imports PrepareEvents
begin

text \<open>
  What the helpers of the Prepare page leave alone, for the proofs of its invariants.
\<close>

lemma syncCancellable_frame [simp]:
  "pa_pendingSave (syncCancellable s) = pa_pendingSave s" "pa_waiters (syncCancellable s) = pa_waiters s"
  "pa_upload (syncCancellable s) = pa_upload s" "pa_previews (syncCancellable s) = pa_previews s"
  "pa_drawings (syncCancellable s) = pa_drawings s" "pa_awaits (syncCancellable s) = pa_awaits s"
  "pa_finalize (syncCancellable s) = pa_finalize s" "pa_deleting (syncCancellable s) = pa_deleting s"
  "pa_saves (syncCancellable s) = pa_saves s" "pa_left (syncCancellable s) = pa_left s"
  "pa_acked (syncCancellable s) = pa_acked s" "pa_windows (syncCancellable s) = pa_windows s"
  "pp_draft (syncCancellable s) = pp_draft s" "pp_completed (syncCancellable s) = pp_completed s"
  "pp_busy (syncCancellable s) = pp_busy s" "pp_uploading (syncCancellable s) = pp_uploading s"
  "pp_finalizing (syncCancellable s) = pp_finalizing s"
  "pp_skipRemainingUploads (syncCancellable s) = pp_skipRemainingUploads s"
  "pp_discarding (syncCancellable s) = pp_discarding s" "pp_dirty (syncCancellable s) = pp_dirty s"
  "pp_history (syncCancellable s) = pp_history s" "pp_selected (syncCancellable s) = pp_selected s"
  "pp_handles (syncCancellable s) = pp_handles s" "pp_gesture (syncCancellable s) = pp_gesture s"
  "pp_workerClient (syncCancellable s) = pp_workerClient s"
  "pp_foregroundWorker (syncCancellable s) = pp_foregroundWorker s"
  "pp_destroyed (syncCancellable s) = pp_destroyed s" "pp_step (syncCancellable s) = pp_step s"
  "pp_uploadGeneration (syncCancellable s) = pp_uploadGeneration s"
  "pp_replaceID (syncCancellable s) = pp_replaceID s"
  by (simp_all add: syncCancellable_def)

lemma revokePreviewURL_frame [simp]:
  "pa_pendingSave (revokePreviewURL s) = pa_pendingSave s" "pa_waiters (revokePreviewURL s) = pa_waiters s"
  "pa_upload (revokePreviewURL s) = pa_upload s" "pa_previews (revokePreviewURL s) = pa_previews s"
  "pa_drawings (revokePreviewURL s) = pa_drawings s" "pa_awaits (revokePreviewURL s) = pa_awaits s"
  "pa_finalize (revokePreviewURL s) = pa_finalize s" "pa_deleting (revokePreviewURL s) = pa_deleting s"
  "pa_saves (revokePreviewURL s) = pa_saves s" "pa_left (revokePreviewURL s) = pa_left s"
  "pa_acked (revokePreviewURL s) = pa_acked s" "pa_windows (revokePreviewURL s) = pa_windows s"
  "pp_draft (revokePreviewURL s) = pp_draft s" "pp_completed (revokePreviewURL s) = pp_completed s"
  "pp_busy (revokePreviewURL s) = pp_busy s" "pp_uploading (revokePreviewURL s) = pp_uploading s"
  "pp_finalizing (revokePreviewURL s) = pp_finalizing s"
  "pp_skipRemainingUploads (revokePreviewURL s) = pp_skipRemainingUploads s"
  "pp_discarding (revokePreviewURL s) = pp_discarding s" "pp_dirty (revokePreviewURL s) = pp_dirty s"
  "pp_history (revokePreviewURL s) = pp_history s" "pp_selected (revokePreviewURL s) = pp_selected s"
  "pp_handles (revokePreviewURL s) = pp_handles s" "pp_gesture (revokePreviewURL s) = pp_gesture s"
  "pp_workerClient (revokePreviewURL s) = pp_workerClient s"
  "pp_foregroundWorker (revokePreviewURL s) = pp_foregroundWorker s"
  "pp_cancellable (revokePreviewURL s) = pp_cancellable s" "pp_destroyed (revokePreviewURL s) = pp_destroyed s"
  "pp_step (revokePreviewURL s) = pp_step s" "pp_uploadGeneration (revokePreviewURL s) = pp_uploadGeneration s"
  "pp_replaceID (revokePreviewURL s) = pp_replaceID s"
  by (simp_all add: revokePreviewURL_def)

lemma invalidatePreview_frame [simp]:
  "pa_pendingSave (invalidatePreview s) = pa_pendingSave s" "pa_waiters (invalidatePreview s) = pa_waiters s"
  "pa_upload (invalidatePreview s) = pa_upload s" "pa_previews (invalidatePreview s) = pa_previews s"
  "pa_drawings (invalidatePreview s) = pa_drawings s" "pa_awaits (invalidatePreview s) = pa_awaits s"
  "pa_finalize (invalidatePreview s) = pa_finalize s" "pa_deleting (invalidatePreview s) = pa_deleting s"
  "pa_saves (invalidatePreview s) = pa_saves s" "pa_left (invalidatePreview s) = pa_left s"
  "pa_acked (invalidatePreview s) = pa_acked s" "pa_windows (invalidatePreview s) = pa_windows s"
  "pp_draft (invalidatePreview s) = pp_draft s" "pp_completed (invalidatePreview s) = pp_completed s"
  "pp_busy (invalidatePreview s) = pp_busy s" "pp_uploading (invalidatePreview s) = pp_uploading s"
  "pp_finalizing (invalidatePreview s) = pp_finalizing s"
  "pp_skipRemainingUploads (invalidatePreview s) = pp_skipRemainingUploads s"
  "pp_discarding (invalidatePreview s) = pp_discarding s" "pp_dirty (invalidatePreview s) = pp_dirty s"
  "pp_history (invalidatePreview s) = pp_history s" "pp_selected (invalidatePreview s) = pp_selected s"
  "pp_handles (invalidatePreview s) = pp_handles s" "pp_gesture (invalidatePreview s) = pp_gesture s"
  "pp_destroyed (invalidatePreview s) = pp_destroyed s" "pp_step (invalidatePreview s) = pp_step s"
  "pp_uploadGeneration (invalidatePreview s) = pp_uploadGeneration s"
  "pp_replaceID (invalidatePreview s) = pp_replaceID s"
  by (simp_all add: invalidatePreview_def Let_def)

lemma reconcilePreparedKeys_frame [simp]:
  "pa_pendingSave (reconcilePreparedKeys s) = pa_pendingSave s"
  "pa_waiters (reconcilePreparedKeys s) = pa_waiters s" "pa_upload (reconcilePreparedKeys s) = pa_upload s"
  "pa_previews (reconcilePreparedKeys s) = pa_previews s"
  "pa_drawings (reconcilePreparedKeys s) = pa_drawings s" "pa_awaits (reconcilePreparedKeys s) = pa_awaits s"
  "pa_finalize (reconcilePreparedKeys s) = pa_finalize s"
  "pa_deleting (reconcilePreparedKeys s) = pa_deleting s" "pa_saves (reconcilePreparedKeys s) = pa_saves s"
  "pa_left (reconcilePreparedKeys s) = pa_left s" "pa_acked (reconcilePreparedKeys s) = pa_acked s"
  "pa_windows (reconcilePreparedKeys s) = pa_windows s" "pp_draft (reconcilePreparedKeys s) = pp_draft s"
  "pp_completed (reconcilePreparedKeys s) = pp_completed s" "pp_busy (reconcilePreparedKeys s) = pp_busy s"
  "pp_uploading (reconcilePreparedKeys s) = pp_uploading s"
  "pp_finalizing (reconcilePreparedKeys s) = pp_finalizing s"
  "pp_skipRemainingUploads (reconcilePreparedKeys s) = pp_skipRemainingUploads s"
  "pp_discarding (reconcilePreparedKeys s) = pp_discarding s" "pp_dirty (reconcilePreparedKeys s) = pp_dirty s"
  "pp_history (reconcilePreparedKeys s) = pp_history s" "pp_selected (reconcilePreparedKeys s) = pp_selected s"
  "pp_handles (reconcilePreparedKeys s) = pp_handles s" "pp_gesture (reconcilePreparedKeys s) = pp_gesture s"
  "pp_workerClient (reconcilePreparedKeys s) = pp_workerClient s"
  "pp_foregroundWorker (reconcilePreparedKeys s) = pp_foregroundWorker s"
  "pp_cancellable (reconcilePreparedKeys s) = pp_cancellable s"
  "pp_destroyed (reconcilePreparedKeys s) = pp_destroyed s" "pp_step (reconcilePreparedKeys s) = pp_step s"
  "pp_uploadGeneration (reconcilePreparedKeys s) = pp_uploadGeneration s"
  "pp_replaceID (reconcilePreparedKeys s) = pp_replaceID s"
  by (simp_all add: reconcilePreparedKeys_def Let_def)

lemma mark_frame [simp]:
  "pa_pendingSave (mark s) = pa_pendingSave s" "pa_waiters (mark s) = pa_waiters s"
  "pa_upload (mark s) = pa_upload s" "pa_previews (mark s) = pa_previews s"
  "pa_drawings (mark s) = pa_drawings s" "pa_awaits (mark s) = pa_awaits s"
  "pa_finalize (mark s) = pa_finalize s" "pa_deleting (mark s) = pa_deleting s" "pa_saves (mark s) = pa_saves s"
  "pa_left (mark s) = pa_left s" "pa_acked (mark s) = pa_acked s" "pa_windows (mark s) = pa_windows s"
  "pp_draft (mark s) = pp_draft s" "pp_completed (mark s) = pp_completed s" "pp_busy (mark s) = pp_busy s"
  "pp_uploading (mark s) = pp_uploading s" "pp_finalizing (mark s) = pp_finalizing s"
  "pp_skipRemainingUploads (mark s) = pp_skipRemainingUploads s" "pp_discarding (mark s) = pp_discarding s"
  "pp_history (mark s) = pp_history s" "pp_selected (mark s) = pp_selected s"
  "pp_handles (mark s) = pp_handles s" "pp_gesture (mark s) = pp_gesture s"
  "pp_workerClient (mark s) = pp_workerClient s" "pp_foregroundWorker (mark s) = pp_foregroundWorker s"
  "pp_cancellable (mark s) = pp_cancellable s" "pp_destroyed (mark s) = pp_destroyed s"
  "pp_step (mark s) = pp_step s" "pp_uploadGeneration (mark s) = pp_uploadGeneration s"
  "pp_replaceID (mark s) = pp_replaceID s"
  by (simp_all add: mark_def)

lemma prepare_remember_frame [simp]:
  "pa_pendingSave (remember s) = pa_pendingSave s" "pa_waiters (remember s) = pa_waiters s"
  "pa_upload (remember s) = pa_upload s" "pa_previews (remember s) = pa_previews s"
  "pa_drawings (remember s) = pa_drawings s" "pa_awaits (remember s) = pa_awaits s"
  "pa_finalize (remember s) = pa_finalize s" "pa_deleting (remember s) = pa_deleting s"
  "pa_saves (remember s) = pa_saves s" "pa_left (remember s) = pa_left s" "pa_acked (remember s) = pa_acked s"
  "pa_windows (remember s) = pa_windows s" "pp_draft (remember s) = pp_draft s"
  "pp_completed (remember s) = pp_completed s" "pp_busy (remember s) = pp_busy s"
  "pp_uploading (remember s) = pp_uploading s" "pp_finalizing (remember s) = pp_finalizing s"
  "pp_skipRemainingUploads (remember s) = pp_skipRemainingUploads s"
  "pp_discarding (remember s) = pp_discarding s" "pp_dirty (remember s) = pp_dirty s"
  "pp_selected (remember s) = pp_selected s" "pp_handles (remember s) = pp_handles s"
  "pp_gesture (remember s) = pp_gesture s" "pp_workerClient (remember s) = pp_workerClient s"
  "pp_foregroundWorker (remember s) = pp_foregroundWorker s" "pp_cancellable (remember s) = pp_cancellable s"
  "pp_destroyed (remember s) = pp_destroyed s" "pp_step (remember s) = pp_step s"
  "pp_uploadGeneration (remember s) = pp_uploadGeneration s" "pp_replaceID (remember s) = pp_replaceID s"
  by (simp_all add: remember_def Let_def split: option.split)

lemma startGesture_frame [simp]:
  "pa_pendingSave (startGesture s) = pa_pendingSave s" "pa_waiters (startGesture s) = pa_waiters s"
  "pa_upload (startGesture s) = pa_upload s" "pa_previews (startGesture s) = pa_previews s"
  "pa_drawings (startGesture s) = pa_drawings s" "pa_awaits (startGesture s) = pa_awaits s"
  "pa_finalize (startGesture s) = pa_finalize s" "pa_deleting (startGesture s) = pa_deleting s"
  "pa_saves (startGesture s) = pa_saves s" "pa_left (startGesture s) = pa_left s"
  "pa_acked (startGesture s) = pa_acked s" "pa_windows (startGesture s) = pa_windows s"
  "pp_draft (startGesture s) = pp_draft s" "pp_completed (startGesture s) = pp_completed s"
  "pp_busy (startGesture s) = pp_busy s" "pp_uploading (startGesture s) = pp_uploading s"
  "pp_finalizing (startGesture s) = pp_finalizing s"
  "pp_skipRemainingUploads (startGesture s) = pp_skipRemainingUploads s"
  "pp_discarding (startGesture s) = pp_discarding s" "pp_dirty (startGesture s) = pp_dirty s"
  "pp_selected (startGesture s) = pp_selected s" "pp_handles (startGesture s) = pp_handles s"
  "pp_workerClient (startGesture s) = pp_workerClient s"
  "pp_foregroundWorker (startGesture s) = pp_foregroundWorker s"
  "pp_cancellable (startGesture s) = pp_cancellable s" "pp_destroyed (startGesture s) = pp_destroyed s"
  "pp_step (startGesture s) = pp_step s" "pp_uploadGeneration (startGesture s) = pp_uploadGeneration s"
  "pp_replaceID (startGesture s) = pp_replaceID s"
  by (simp_all add: startGesture_def split: option.split)

lemma endGesture_frame [simp]:
  "pa_pendingSave (endGesture s) = pa_pendingSave s" "pa_waiters (endGesture s) = pa_waiters s"
  "pa_upload (endGesture s) = pa_upload s" "pa_previews (endGesture s) = pa_previews s"
  "pa_drawings (endGesture s) = pa_drawings s" "pa_awaits (endGesture s) = pa_awaits s"
  "pa_finalize (endGesture s) = pa_finalize s" "pa_deleting (endGesture s) = pa_deleting s"
  "pa_saves (endGesture s) = pa_saves s" "pa_left (endGesture s) = pa_left s"
  "pa_acked (endGesture s) = pa_acked s" "pa_windows (endGesture s) = pa_windows s"
  "pp_draft (endGesture s) = pp_draft s" "pp_completed (endGesture s) = pp_completed s"
  "pp_busy (endGesture s) = pp_busy s" "pp_uploading (endGesture s) = pp_uploading s"
  "pp_finalizing (endGesture s) = pp_finalizing s"
  "pp_skipRemainingUploads (endGesture s) = pp_skipRemainingUploads s"
  "pp_discarding (endGesture s) = pp_discarding s" "pp_dirty (endGesture s) = pp_dirty s"
  "pp_history (endGesture s) = pp_history s" "pp_selected (endGesture s) = pp_selected s"
  "pp_handles (endGesture s) = pp_handles s" "pp_workerClient (endGesture s) = pp_workerClient s"
  "pp_foregroundWorker (endGesture s) = pp_foregroundWorker s"
  "pp_cancellable (endGesture s) = pp_cancellable s" "pp_destroyed (endGesture s) = pp_destroyed s"
  "pp_step (endGesture s) = pp_step s" "pp_uploadGeneration (endGesture s) = pp_uploadGeneration s"
  "pp_replaceID (endGesture s) = pp_replaceID s"
  by (simp_all add: endGesture_def)

lemma changed_frame [simp]:
  "pa_pendingSave (changed s) = pa_pendingSave s" "pa_waiters (changed s) = pa_waiters s"
  "pa_upload (changed s) = pa_upload s" "pa_previews (changed s) = pa_previews s"
  "pa_drawings (changed s) = pa_drawings s" "pa_awaits (changed s) = pa_awaits s"
  "pa_finalize (changed s) = pa_finalize s" "pa_deleting (changed s) = pa_deleting s"
  "pa_saves (changed s) = pa_saves s" "pa_left (changed s) = pa_left s" "pa_acked (changed s) = pa_acked s"
  "pa_windows (changed s) = pa_windows s" "pp_draft (changed s) = pp_draft s"
  "pp_completed (changed s) = pp_completed s" "pp_busy (changed s) = pp_busy s"
  "pp_uploading (changed s) = pp_uploading s" "pp_finalizing (changed s) = pp_finalizing s"
  "pp_skipRemainingUploads (changed s) = pp_skipRemainingUploads s"
  "pp_discarding (changed s) = pp_discarding s" "pp_history (changed s) = pp_history s"
  "pp_selected (changed s) = pp_selected s" "pp_handles (changed s) = pp_handles s"
  "pp_gesture (changed s) = pp_gesture s" "pp_destroyed (changed s) = pp_destroyed s"
  "pp_step (changed s) = pp_step s" "pp_uploadGeneration (changed s) = pp_uploadGeneration s"
  "pp_replaceID (changed s) = pp_replaceID s"
  by (simp_all add: changed_def)

lemma set_pages_frame [simp]:
  "pa_pendingSave (set_pages pages s) = pa_pendingSave s" "pa_waiters (set_pages pages s) = pa_waiters s"
  "pa_upload (set_pages pages s) = pa_upload s" "pa_previews (set_pages pages s) = pa_previews s"
  "pa_drawings (set_pages pages s) = pa_drawings s" "pa_awaits (set_pages pages s) = pa_awaits s"
  "pa_finalize (set_pages pages s) = pa_finalize s" "pa_deleting (set_pages pages s) = pa_deleting s"
  "pa_saves (set_pages pages s) = pa_saves s" "pa_left (set_pages pages s) = pa_left s"
  "pa_acked (set_pages pages s) = pa_acked s" "pa_windows (set_pages pages s) = pa_windows s"
  "pp_completed (set_pages pages s) = pp_completed s" "pp_busy (set_pages pages s) = pp_busy s"
  "pp_uploading (set_pages pages s) = pp_uploading s" "pp_finalizing (set_pages pages s) = pp_finalizing s"
  "pp_skipRemainingUploads (set_pages pages s) = pp_skipRemainingUploads s"
  "pp_discarding (set_pages pages s) = pp_discarding s" "pp_dirty (set_pages pages s) = pp_dirty s"
  "pp_history (set_pages pages s) = pp_history s" "pp_selected (set_pages pages s) = pp_selected s"
  "pp_handles (set_pages pages s) = pp_handles s" "pp_gesture (set_pages pages s) = pp_gesture s"
  "pp_workerClient (set_pages pages s) = pp_workerClient s"
  "pp_foregroundWorker (set_pages pages s) = pp_foregroundWorker s"
  "pp_cancellable (set_pages pages s) = pp_cancellable s" "pp_destroyed (set_pages pages s) = pp_destroyed s"
  "pp_step (set_pages pages s) = pp_step s" "pp_uploadGeneration (set_pages pages s) = pp_uploadGeneration s"
  "pp_replaceID (set_pages pages s) = pp_replaceID s"
  by (simp_all add: set_pages_def)

lemma set_manifest_frame [simp]:
  "pa_pendingSave (set_manifest m s) = pa_pendingSave s" "pa_waiters (set_manifest m s) = pa_waiters s"
  "pa_upload (set_manifest m s) = pa_upload s" "pa_previews (set_manifest m s) = pa_previews s"
  "pa_drawings (set_manifest m s) = pa_drawings s" "pa_awaits (set_manifest m s) = pa_awaits s"
  "pa_finalize (set_manifest m s) = pa_finalize s" "pa_deleting (set_manifest m s) = pa_deleting s"
  "pa_saves (set_manifest m s) = pa_saves s" "pa_left (set_manifest m s) = pa_left s"
  "pa_acked (set_manifest m s) = pa_acked s" "pa_windows (set_manifest m s) = pa_windows s"
  "pp_completed (set_manifest m s) = pp_completed s" "pp_busy (set_manifest m s) = pp_busy s"
  "pp_uploading (set_manifest m s) = pp_uploading s" "pp_finalizing (set_manifest m s) = pp_finalizing s"
  "pp_skipRemainingUploads (set_manifest m s) = pp_skipRemainingUploads s"
  "pp_discarding (set_manifest m s) = pp_discarding s" "pp_dirty (set_manifest m s) = pp_dirty s"
  "pp_history (set_manifest m s) = pp_history s" "pp_selected (set_manifest m s) = pp_selected s"
  "pp_handles (set_manifest m s) = pp_handles s" "pp_gesture (set_manifest m s) = pp_gesture s"
  "pp_workerClient (set_manifest m s) = pp_workerClient s"
  "pp_foregroundWorker (set_manifest m s) = pp_foregroundWorker s"
  "pp_cancellable (set_manifest m s) = pp_cancellable s" "pp_destroyed (set_manifest m s) = pp_destroyed s"
  "pp_step (set_manifest m s) = pp_step s" "pp_uploadGeneration (set_manifest m s) = pp_uploadGeneration s"
  "pp_replaceID (set_manifest m s) = pp_replaceID s"
  by (simp_all add: set_manifest_def)

lemma edit_page_frame [simp]:
  "pa_pendingSave (edit_page f s) = pa_pendingSave s" "pa_waiters (edit_page f s) = pa_waiters s"
  "pa_upload (edit_page f s) = pa_upload s" "pa_previews (edit_page f s) = pa_previews s"
  "pa_drawings (edit_page f s) = pa_drawings s" "pa_awaits (edit_page f s) = pa_awaits s"
  "pa_finalize (edit_page f s) = pa_finalize s" "pa_deleting (edit_page f s) = pa_deleting s"
  "pa_saves (edit_page f s) = pa_saves s" "pa_left (edit_page f s) = pa_left s"
  "pa_acked (edit_page f s) = pa_acked s" "pa_windows (edit_page f s) = pa_windows s"
  "pp_completed (edit_page f s) = pp_completed s" "pp_busy (edit_page f s) = pp_busy s"
  "pp_uploading (edit_page f s) = pp_uploading s" "pp_finalizing (edit_page f s) = pp_finalizing s"
  "pp_skipRemainingUploads (edit_page f s) = pp_skipRemainingUploads s"
  "pp_discarding (edit_page f s) = pp_discarding s" "pp_dirty (edit_page f s) = pp_dirty s"
  "pp_history (edit_page f s) = pp_history s" "pp_selected (edit_page f s) = pp_selected s"
  "pp_handles (edit_page f s) = pp_handles s" "pp_gesture (edit_page f s) = pp_gesture s"
  "pp_workerClient (edit_page f s) = pp_workerClient s"
  "pp_foregroundWorker (edit_page f s) = pp_foregroundWorker s"
  "pp_cancellable (edit_page f s) = pp_cancellable s" "pp_destroyed (edit_page f s) = pp_destroyed s"
  "pp_step (edit_page f s) = pp_step s" "pp_uploadGeneration (edit_page f s) = pp_uploadGeneration s"
  "pp_replaceID (edit_page f s) = pp_replaceID s"
  by (simp_all add: edit_page_def split: option.split)

lemma scheduleBackgroundPrepare_frame [simp]:
  "pa_pendingSave (scheduleBackgroundPrepare page source revision s) = pa_pendingSave s"
  "pa_waiters (scheduleBackgroundPrepare page source revision s) = pa_waiters s"
  "pa_upload (scheduleBackgroundPrepare page source revision s) = pa_upload s"
  "pa_previews (scheduleBackgroundPrepare page source revision s) = pa_previews s"
  "pa_drawings (scheduleBackgroundPrepare page source revision s) = pa_drawings s"
  "pa_awaits (scheduleBackgroundPrepare page source revision s) = pa_awaits s"
  "pa_finalize (scheduleBackgroundPrepare page source revision s) = pa_finalize s"
  "pa_deleting (scheduleBackgroundPrepare page source revision s) = pa_deleting s"
  "pa_saves (scheduleBackgroundPrepare page source revision s) = pa_saves s"
  "pa_left (scheduleBackgroundPrepare page source revision s) = pa_left s"
  "pa_acked (scheduleBackgroundPrepare page source revision s) = pa_acked s"
  "pa_windows (scheduleBackgroundPrepare page source revision s) = pa_windows s"
  "pp_draft (scheduleBackgroundPrepare page source revision s) = pp_draft s"
  "pp_completed (scheduleBackgroundPrepare page source revision s) = pp_completed s"
  "pp_busy (scheduleBackgroundPrepare page source revision s) = pp_busy s"
  "pp_uploading (scheduleBackgroundPrepare page source revision s) = pp_uploading s"
  "pp_finalizing (scheduleBackgroundPrepare page source revision s) = pp_finalizing s"
  "pp_skipRemainingUploads (scheduleBackgroundPrepare page source revision s) = pp_skipRemainingUploads s"
  "pp_discarding (scheduleBackgroundPrepare page source revision s) = pp_discarding s"
  "pp_dirty (scheduleBackgroundPrepare page source revision s) = pp_dirty s"
  "pp_history (scheduleBackgroundPrepare page source revision s) = pp_history s"
  "pp_selected (scheduleBackgroundPrepare page source revision s) = pp_selected s"
  "pp_handles (scheduleBackgroundPrepare page source revision s) = pp_handles s"
  "pp_gesture (scheduleBackgroundPrepare page source revision s) = pp_gesture s"
  "pp_workerClient (scheduleBackgroundPrepare page source revision s) = pp_workerClient s"
  "pp_foregroundWorker (scheduleBackgroundPrepare page source revision s) = pp_foregroundWorker s"
  "pp_cancellable (scheduleBackgroundPrepare page source revision s) = pp_cancellable s"
  "pp_destroyed (scheduleBackgroundPrepare page source revision s) = pp_destroyed s"
  "pp_step (scheduleBackgroundPrepare page source revision s) = pp_step s"
  "pp_uploadGeneration (scheduleBackgroundPrepare page source revision s) = pp_uploadGeneration s"
  "pp_replaceID (scheduleBackgroundPrepare page source revision s) = pp_replaceID s"
  by (simp_all add: scheduleBackgroundPrepare_def Let_def)

lemma show_preview_frame [simp]:
  "pa_pendingSave (show_preview url aspect s) = pa_pendingSave s"
  "pa_waiters (show_preview url aspect s) = pa_waiters s" "pa_upload (show_preview url aspect s) = pa_upload s"
  "pa_previews (show_preview url aspect s) = pa_previews s"
  "pa_drawings (show_preview url aspect s) = pa_drawings s"
  "pa_awaits (show_preview url aspect s) = pa_awaits s"
  "pa_finalize (show_preview url aspect s) = pa_finalize s"
  "pa_deleting (show_preview url aspect s) = pa_deleting s" "pa_saves (show_preview url aspect s) = pa_saves s"
  "pa_left (show_preview url aspect s) = pa_left s" "pa_acked (show_preview url aspect s) = pa_acked s"
  "pa_windows (show_preview url aspect s) = pa_windows s" "pp_draft (show_preview url aspect s) = pp_draft s"
  "pp_completed (show_preview url aspect s) = pp_completed s" "pp_busy (show_preview url aspect s) = pp_busy s"
  "pp_uploading (show_preview url aspect s) = pp_uploading s"
  "pp_finalizing (show_preview url aspect s) = pp_finalizing s"
  "pp_skipRemainingUploads (show_preview url aspect s) = pp_skipRemainingUploads s"
  "pp_discarding (show_preview url aspect s) = pp_discarding s"
  "pp_dirty (show_preview url aspect s) = pp_dirty s" "pp_history (show_preview url aspect s) = pp_history s"
  "pp_selected (show_preview url aspect s) = pp_selected s"
  "pp_handles (show_preview url aspect s) = pp_handles s"
  "pp_gesture (show_preview url aspect s) = pp_gesture s"
  "pp_workerClient (show_preview url aspect s) = pp_workerClient s"
  "pp_foregroundWorker (show_preview url aspect s) = pp_foregroundWorker s"
  "pp_cancellable (show_preview url aspect s) = pp_cancellable s"
  "pp_destroyed (show_preview url aspect s) = pp_destroyed s" "pp_step (show_preview url aspect s) = pp_step s"
  "pp_uploadGeneration (show_preview url aspect s) = pp_uploadGeneration s"
  "pp_replaceID (show_preview url aspect s) = pp_replaceID s"
  by (simp_all add: show_preview_def)

lemma fail_with_frame [simp]:
  "pa_pendingSave (fail_with W e s) = pa_pendingSave s" "pa_waiters (fail_with W e s) = pa_waiters s"
  "pa_upload (fail_with W e s) = pa_upload s" "pa_previews (fail_with W e s) = pa_previews s"
  "pa_drawings (fail_with W e s) = pa_drawings s" "pa_awaits (fail_with W e s) = pa_awaits s"
  "pa_finalize (fail_with W e s) = pa_finalize s" "pa_deleting (fail_with W e s) = pa_deleting s"
  "pa_saves (fail_with W e s) = pa_saves s" "pa_left (fail_with W e s) = pa_left s"
  "pa_acked (fail_with W e s) = pa_acked s" "pa_windows (fail_with W e s) = pa_windows s"
  "pp_draft (fail_with W e s) = pp_draft s" "pp_completed (fail_with W e s) = pp_completed s"
  "pp_busy (fail_with W e s) = pp_busy s" "pp_uploading (fail_with W e s) = pp_uploading s"
  "pp_finalizing (fail_with W e s) = pp_finalizing s"
  "pp_skipRemainingUploads (fail_with W e s) = pp_skipRemainingUploads s"
  "pp_discarding (fail_with W e s) = pp_discarding s" "pp_dirty (fail_with W e s) = pp_dirty s"
  "pp_history (fail_with W e s) = pp_history s" "pp_selected (fail_with W e s) = pp_selected s"
  "pp_handles (fail_with W e s) = pp_handles s" "pp_gesture (fail_with W e s) = pp_gesture s"
  "pp_workerClient (fail_with W e s) = pp_workerClient s"
  "pp_foregroundWorker (fail_with W e s) = pp_foregroundWorker s"
  "pp_cancellable (fail_with W e s) = pp_cancellable s" "pp_destroyed (fail_with W e s) = pp_destroyed s"
  "pp_step (fail_with W e s) = pp_step s" "pp_uploadGeneration (fail_with W e s) = pp_uploadGeneration s"
  "pp_replaceID (fail_with W e s) = pp_replaceID s"
  by (simp_all add: fail_with_def)

lemma setStep_frame [simp]:
  "pa_pendingSave (setStep step s) = pa_pendingSave s" "pa_waiters (setStep step s) = pa_waiters s"
  "pa_upload (setStep step s) = pa_upload s" "pa_previews (setStep step s) = pa_previews s"
  "pa_drawings (setStep step s) = pa_drawings s" "pa_awaits (setStep step s) = pa_awaits s"
  "pa_finalize (setStep step s) = pa_finalize s" "pa_deleting (setStep step s) = pa_deleting s"
  "pa_saves (setStep step s) = pa_saves s" "pa_left (setStep step s) = pa_left s"
  "pa_acked (setStep step s) = pa_acked s" "pa_windows (setStep step s) = pa_windows s"
  "pp_draft (setStep step s) = pp_draft s" "pp_completed (setStep step s) = pp_completed s"
  "pp_busy (setStep step s) = pp_busy s" "pp_uploading (setStep step s) = pp_uploading s"
  "pp_finalizing (setStep step s) = pp_finalizing s"
  "pp_skipRemainingUploads (setStep step s) = pp_skipRemainingUploads s"
  "pp_discarding (setStep step s) = pp_discarding s" "pp_dirty (setStep step s) = pp_dirty s"
  "pp_history (setStep step s) = pp_history s" "pp_selected (setStep step s) = pp_selected s"
  "pp_handles (setStep step s) = pp_handles s" "pp_gesture (setStep step s) = pp_gesture s"
  "pp_workerClient (setStep step s) = pp_workerClient s"
  "pp_foregroundWorker (setStep step s) = pp_foregroundWorker s"
  "pp_cancellable (setStep step s) = pp_cancellable s" "pp_destroyed (setStep step s) = pp_destroyed s"
  "pp_uploadGeneration (setStep step s) = pp_uploadGeneration s"
  "pp_replaceID (setStep step s) = pp_replaceID s"
  by (simp_all add: setStep_def)

lemma on_imslp_frame [simp]:
  "pa_pendingSave (on_imslp f s) = pa_pendingSave s" "pa_waiters (on_imslp f s) = pa_waiters s"
  "pa_upload (on_imslp f s) = pa_upload s" "pa_previews (on_imslp f s) = pa_previews s"
  "pa_drawings (on_imslp f s) = pa_drawings s" "pa_awaits (on_imslp f s) = pa_awaits s"
  "pa_finalize (on_imslp f s) = pa_finalize s" "pa_deleting (on_imslp f s) = pa_deleting s"
  "pa_saves (on_imslp f s) = pa_saves s" "pa_left (on_imslp f s) = pa_left s"
  "pa_acked (on_imslp f s) = pa_acked s" "pa_windows (on_imslp f s) = pa_windows s"
  "pp_draft (on_imslp f s) = pp_draft s" "pp_completed (on_imslp f s) = pp_completed s"
  "pp_busy (on_imslp f s) = pp_busy s" "pp_uploading (on_imslp f s) = pp_uploading s"
  "pp_finalizing (on_imslp f s) = pp_finalizing s"
  "pp_skipRemainingUploads (on_imslp f s) = pp_skipRemainingUploads s"
  "pp_discarding (on_imslp f s) = pp_discarding s" "pp_dirty (on_imslp f s) = pp_dirty s"
  "pp_history (on_imslp f s) = pp_history s" "pp_selected (on_imslp f s) = pp_selected s"
  "pp_handles (on_imslp f s) = pp_handles s" "pp_gesture (on_imslp f s) = pp_gesture s"
  "pp_workerClient (on_imslp f s) = pp_workerClient s"
  "pp_foregroundWorker (on_imslp f s) = pp_foregroundWorker s"
  "pp_cancellable (on_imslp f s) = pp_cancellable s" "pp_destroyed (on_imslp f s) = pp_destroyed s"
  "pp_step (on_imslp f s) = pp_step s" "pp_uploadGeneration (on_imslp f s) = pp_uploadGeneration s"
  "pp_replaceID (on_imslp f s) = pp_replaceID s"
  by (simp_all add: on_imslp_def)

lemma start_drawing_frame [simp]:
  "pa_pendingSave (start_drawing job s) = pa_pendingSave s" "pa_waiters (start_drawing job s) = pa_waiters s"
  "pa_upload (start_drawing job s) = pa_upload s" "pa_awaits (start_drawing job s) = pa_awaits s"
  "pa_finalize (start_drawing job s) = pa_finalize s" "pa_deleting (start_drawing job s) = pa_deleting s"
  "pa_saves (start_drawing job s) = pa_saves s" "pa_left (start_drawing job s) = pa_left s"
  "pa_acked (start_drawing job s) = pa_acked s" "pa_windows (start_drawing job s) = pa_windows s"
  "pp_draft (start_drawing job s) = pp_draft s" "pp_completed (start_drawing job s) = pp_completed s"
  "pp_busy (start_drawing job s) = pp_busy s" "pp_uploading (start_drawing job s) = pp_uploading s"
  "pp_finalizing (start_drawing job s) = pp_finalizing s"
  "pp_skipRemainingUploads (start_drawing job s) = pp_skipRemainingUploads s"
  "pp_discarding (start_drawing job s) = pp_discarding s" "pp_dirty (start_drawing job s) = pp_dirty s"
  "pp_history (start_drawing job s) = pp_history s" "pp_selected (start_drawing job s) = pp_selected s"
  "pp_handles (start_drawing job s) = pp_handles s" "pp_gesture (start_drawing job s) = pp_gesture s"
  "pp_workerClient (start_drawing job s) = pp_workerClient s"
  "pp_foregroundWorker (start_drawing job s) = pp_foregroundWorker s"
  "pp_cancellable (start_drawing job s) = pp_cancellable s"
  "pp_destroyed (start_drawing job s) = pp_destroyed s" "pp_step (start_drawing job s) = pp_step s"
  "pp_uploadGeneration (start_drawing job s) = pp_uploadGeneration s"
  "pp_replaceID (start_drawing job s) = pp_replaceID s"
  by (simp_all add: start_drawing_def)

lemma skipped_note_frame [simp]:
  "pa_pendingSave (skipped_note b s) = pa_pendingSave s" "pa_waiters (skipped_note b s) = pa_waiters s"
  "pa_upload (skipped_note b s) = pa_upload s" "pa_previews (skipped_note b s) = pa_previews s"
  "pa_drawings (skipped_note b s) = pa_drawings s" "pa_awaits (skipped_note b s) = pa_awaits s"
  "pa_finalize (skipped_note b s) = pa_finalize s" "pa_deleting (skipped_note b s) = pa_deleting s"
  "pa_saves (skipped_note b s) = pa_saves s" "pa_left (skipped_note b s) = pa_left s"
  "pa_acked (skipped_note b s) = pa_acked s" "pa_windows (skipped_note b s) = pa_windows s"
  "pp_draft (skipped_note b s) = pp_draft s" "pp_completed (skipped_note b s) = pp_completed s"
  "pp_busy (skipped_note b s) = pp_busy s" "pp_uploading (skipped_note b s) = pp_uploading s"
  "pp_finalizing (skipped_note b s) = pp_finalizing s"
  "pp_skipRemainingUploads (skipped_note b s) = pp_skipRemainingUploads s"
  "pp_discarding (skipped_note b s) = pp_discarding s" "pp_dirty (skipped_note b s) = pp_dirty s"
  "pp_history (skipped_note b s) = pp_history s" "pp_selected (skipped_note b s) = pp_selected s"
  "pp_handles (skipped_note b s) = pp_handles s" "pp_gesture (skipped_note b s) = pp_gesture s"
  "pp_workerClient (skipped_note b s) = pp_workerClient s"
  "pp_foregroundWorker (skipped_note b s) = pp_foregroundWorker s"
  "pp_cancellable (skipped_note b s) = pp_cancellable s" "pp_destroyed (skipped_note b s) = pp_destroyed s"
  "pp_step (skipped_note b s) = pp_step s" "pp_uploadGeneration (skipped_note b s) = pp_uploadGeneration s"
  "pp_replaceID (skipped_note b s) = pp_replaceID s"
  by (simp_all add: skipped_note_def Let_def)

end
