(* ===== verification/PrepareOps.thy ===== *)
theory PrepareOps
  imports PrepareFrames
begin

text \<open>
  Long operations of the Prepare page. An upload, the making of the final document and a deletion
  hold the page busy while they wait, be it for a save, the server, a drawing or the worker. The
  operations that wait are counted over everything that waits, and while the page is busy there
  is exactly one. It follows that the page neither stays busy for nothing nor runs two at a time.
\<close>

section \<open>Counting what waits\<close>

datatype LongOp = UploadOp | FinalizeOp | DetailsOp | DiscardOp

fun continuation_ops :: "Continuation \<Rightarrow> LongOp multiset" where
  "continuation_ops (AfterUpload job) = {#UploadOp#}"
| "continuation_ops (AfterReplace job d) = {#UploadOp#}"
| "continuation_ops AfterFinalize = {#FinalizeOp#}"
| "continuation_ops _ = {#}"

text \<open>A waiter is a call that goes on, or a deletion.\<close>

fun call_ops :: "Waiter \<Rightarrow> LongOp multiset" where
  "call_ops (Started k) = continuation_ops k"
| "call_ops (Recheck k) = continuation_ops k"
| "call_ops _ = {#}"

fun deletion_ops :: "Waiter \<Rightarrow> LongOp multiset" where
  "deletion_ops DetailsWaits = {#DetailsOp#}"
| "deletion_ops DiscardWaits = {#DiscardOp#}"
| "deletion_ops _ = {#}"

definition one_if :: "LongOp \<Rightarrow> 'a option \<Rightarrow> LongOp multiset" where
  "one_if x v = (case v of None \<Rightarrow> {#} | Some _ \<Rightarrow> {#x#})"

fun preview_ops :: "PreviewJob \<Rightarrow> LongOp multiset" where
  "preview_ops (RasterLoad page source revision plain up) = one_if UploadOp up"
| "preview_ops (CanvasLoad revision up) = one_if UploadOp up"
| "preview_ops (PdfDrawing page revision source up) = one_if UploadOp up"

fun worker_ops :: "WorkerJob \<Rightarrow> LongOp multiset" where
  "worker_ops (WPreview page source revision up) = one_if UploadOp up"
| "worker_ops (WBuild page revision source up) = one_if UploadOp up"
| "worker_ops (WBackground b) = {#}"
| "worker_ops (WFinal d) = {#FinalizeOp#}"

definition delete_ops :: "DeleteJob option \<Rightarrow> LongOp multiset" where
  "delete_ops v = (case v of None \<Rightarrow> {#} | Some DetailsDelete \<Rightarrow> {#DetailsOp#} | Some DiscardDelete \<Rightarrow> {#DiscardOp#})"

definition long_ops :: "PrepareComponent \<Rightarrow> LongOp multiset" where
  "long_ops s = sum_list (map call_ops (pa_waiters s)) + sum_list (map deletion_ops (pa_waiters s)) +
     one_if UploadOp (pa_upload s) +
     sum_list (map (\<lambda>j. preview_ops (snd j)) (pa_previews s)) +
     sum_list (map (\<lambda>a. worker_ops (snd a)) (pa_awaits s)) +
     one_if FinalizeOp (pa_finalize s) + delete_ops (pa_deleting s)"

definition current_op :: "PrepareComponent \<Rightarrow> LongOp multiset" where
  "current_op s =
     (if \<not> pp_busy s then {#} else if pp_uploading s then {#UploadOp#} else if pp_finalizing s then {#FinalizeOp#}
      else if pp_discarding s then {#DiscardOp#} else {#DetailsOp#})"

definition flags_ok :: "PrepareComponent \<Rightarrow> bool" where
  "flags_ok s \<longleftrightarrow> (pp_uploading s \<longrightarrow> pp_busy s \<and> \<not> pp_finalizing s \<and> \<not> pp_discarding s) \<and>
     (pp_finalizing s \<longrightarrow> pp_busy s \<and> \<not> pp_discarding s) \<and> (pp_discarding s \<longrightarrow> pp_busy s) \<and>
     (pp_foregroundWorker s \<longrightarrow> (\<exists>a \<in> set (pa_awaits s). worker_ops (snd a) = {#FinalizeOp#})) \<and>
     pp_cancellable s = ((pp_uploading s \<and> \<not> pp_skipRemainingUploads s) \<or> (pp_busy s \<and> pp_foregroundWorker s))"

definition waits_ok :: "PrepareComponent \<Rightarrow> bool" where
  "waits_ok s \<longleftrightarrow> distinct (map fst (pa_previews s)) \<and> (\<forall>j \<in> set (pa_previews s). fst j < pa_drawings s) \<and>
     client_ok (pp_workerClient s) \<and> distinct (map fst (pa_awaits s)) \<and>
     (\<forall>a \<in> set (pa_awaits s). fst a < length (wc_calls (pp_workerClient s)))"

text \<open>\<open>m\<close> is the operations just being handled, which no longer wait.\<close>

definition ops_ok :: "LongOp multiset \<Rightarrow> PrepareComponent \<Rightarrow> bool" where
  "ops_ok m s \<longleftrightarrow> long_ops s + m = current_op s \<and> flags_ok s \<and> waits_ok s"

lemmas ops_defs = ops_ok_def long_ops_def current_op_def flags_ok_def waits_ok_def

lemma one_if_simps [simp]: "one_if x None = {#}" "one_if x (Some v) = {#x#}"
  by (simp_all add: one_if_def)

lemma delete_ops_simps [simp]: "delete_ops None = {#}" "delete_ops (Some DetailsDelete) = {#DetailsOp#}"
    "delete_ops (Some DiscardDelete) = {#DiscardOp#}"
  by (simp_all add: delete_ops_def)

lemma sum_ops_empty: "sum_list (map f xs) = {#} \<Longrightarrow> x \<in> set xs \<Longrightarrow> f x = ({#} :: LongOp multiset)"
  by (induction xs) auto

text \<open>An operation in hand is the only one.\<close>

lemma current_op_single:
  assumes "long_ops s + (add_mset x m) = current_op s"
  shows "long_ops s = {#} \<and> m = {#} \<and> current_op s = {#x#}"
  using assms by (auto simp: current_op_def add_mset_eq_single split: if_splits)

lemma ops_ok_single:
  assumes "ops_ok (add_mset x m) s"
  shows "long_ops s = {#}" "m = {#}" "current_op s = {#x#}" "flags_ok s" "waits_ok s"
  using assms current_op_single [of s x m] by (simp_all add: ops_ok_def)

lemma in_hand:
  "ops_ok (add_mset UploadOp m) s \<Longrightarrow> pp_busy s \<and> pp_uploading s"
  "ops_ok (add_mset FinalizeOp m) s \<Longrightarrow> pp_busy s \<and> \<not> pp_uploading s \<and> pp_finalizing s"
  "ops_ok (add_mset DetailsOp m) s \<Longrightarrow> pp_busy s \<and> \<not> pp_uploading s \<and> \<not> pp_finalizing s \<and> \<not> pp_discarding s"
  "ops_ok (add_mset DiscardOp m) s \<Longrightarrow> pp_busy s \<and> \<not> pp_uploading s \<and> \<not> pp_finalizing s \<and> pp_discarding s"
  by (drule ops_ok_single(3), auto simp: current_op_def split: if_splits)+

lemma taken_ok:
  assumes "ops_ok {#} s" and "long_ops s = add_mset x (long_ops t)" and "current_op t = current_op s"
    and "flags_ok t" and "waits_ok t"
  shows "ops_ok {#x#} t"
  using assms by (simp add: ops_ok_def)

section \<open>Steps that start or end nothing\<close>

definition same_ops :: "PrepareComponent \<Rightarrow> PrepareComponent \<Rightarrow> bool" where
  "same_ops s t \<longleftrightarrow> pa_waiters t = pa_waiters s \<and> pa_upload t = pa_upload s \<and> pa_previews t = pa_previews s \<and>
     pa_awaits t = pa_awaits s \<and> pa_finalize t = pa_finalize s \<and> pa_deleting t = pa_deleting s \<and>
     pa_drawings t = pa_drawings s \<and> pp_workerClient t = pp_workerClient s \<and>
     pp_busy t = pp_busy s \<and> pp_uploading t = pp_uploading s \<and> pp_finalizing t = pp_finalizing s \<and>
     pp_discarding t = pp_discarding s \<and> pp_foregroundWorker t = pp_foregroundWorker s \<and>
     pp_skipRemainingUploads t = pp_skipRemainingUploads s \<and> pp_cancellable t = pp_cancellable s"

lemma same_ops_ok: "same_ops s t \<Longrightarrow> ops_ok m s \<Longrightarrow> ops_ok m t"
  by (simp add: same_ops_def ops_defs)

lemma same_ops_trans: "same_ops s t \<Longrightarrow> same_ops t u \<Longrightarrow> same_ops s u"
  by (simp add: same_ops_def)

lemma same_ops_refl [simp]: "same_ops s s"
  by (simp add: same_ops_def)

lemma same_ops_simps [simp]:
  "same_ops s (revokePreviewURL s)" "same_ops s (reconcilePreparedKeys s)" "same_ops s (mark s)"
  "same_ops s (remember s)" "same_ops s (startGesture s)" "same_ops s (endGesture s)"
  "same_ops s (set_pages ps s)" "same_ops s (set_manifest mf s)" "same_ops s (edit_page f s)"
  "same_ops s (scheduleBackgroundPrepare page source revision s)" "same_ops s (show_preview url aspect s)"
  "same_ops s (fail_with W e s)" "same_ops s (setStep step s)" "same_ops s (on_imslp g s)"
  "same_ops s (skipped_note sk s)"
  unfolding same_ops_def by simp_all

text \<open>Stopping what is being drawn keeps everything that waits waiting, until the drawing reports back.\<close>

lemma client_supersede: "client_ok c \<Longrightarrow> client_ok (supersede c) \<and> wc_calls (supersede c) = wc_calls c"
  by (simp add: supersede_def stopActive_ok stopActive_fields)

lemma counts_frame [simp]:
  "long_ops (syncCancellable s) = long_ops s" "current_op (syncCancellable s) = current_op s"
  "waits_ok (syncCancellable s) = waits_ok s"
  "long_ops (invalidatePreview s) = long_ops s" "current_op (invalidatePreview s) = current_op s"
  by (simp_all add: long_ops_def current_op_def waits_ok_def)

lemma flags_stopped:
  assumes "flags_ok s"
  shows "flags_ok (syncCancellable (s\<lparr>pp_workerClient := c, pp_foregroundWorker := False, pp_progress := p\<rparr>))"
  using assms unfolding flags_ok_def syncCancellable_def by simp

lemma invalidatePreview_flags:
  assumes "flags_ok s"
  shows "flags_ok (invalidatePreview s)"
proof -
  define t where "t = s\<lparr>pp_previewRevision := pp_previewRevision s + 1, pp_previewTimer := False, pp_backgroundTimer := None\<rparr>"
  have "flags_ok t" using assms unfolding t_def flags_ok_def by simp
  then show ?thesis using flags_stopped [of t] unfolding invalidatePreview_def Let_def t_def [symmetric] by simp
qed

lemma invalidatePreview_waits: "waits_ok s \<Longrightarrow> waits_ok (invalidatePreview s)"
  using client_supersede [of "pp_workerClient s"] unfolding waits_ok_def
  by (simp add: invalidatePreview_def Let_def syncCancellable_def)

lemma invalidatePreview_ok: "ops_ok m s \<Longrightarrow> ops_ok m (invalidatePreview s)"
  unfolding ops_ok_def using invalidatePreview_flags invalidatePreview_waits by simp

lemma changed_ok:
  assumes "ops_ok m s" and "same_ops s t"
  shows "ops_ok m (changed t)"
proof -
  have "same_ops (invalidatePreview t) (mark (reconcilePreparedKeys (invalidatePreview t)))"
    by (rule same_ops_trans [OF same_ops_simps(2) same_ops_simps(3)])
  moreover have "same_ops u (u\<lparr>pp_previewTimer := True\<rparr>)" for u by (simp add: same_ops_def)
  ultimately have "same_ops (invalidatePreview t) (changed t)" unfolding changed_def by (rule same_ops_trans)
  then show ?thesis using same_ops_ok [OF assms(2,1)] by (blast intro: same_ops_ok invalidatePreview_ok)
qed


section \<open>Starting and ending\<close>

lemma worker_ops_cases: "worker_ops j = {#} \<or> worker_ops j = {#UploadOp#} \<or> worker_ops j = {#FinalizeOp#}"
  by (cases j) (auto simp: one_if_def split: option.splits)

text \<open>A flag that shows nothing of what waits.\<close>

lemma keep_flags:
  "ops_ok m s \<Longrightarrow> ops_ok m (s\<lparr>pp_error := e\<rparr>)" "ops_ok m s \<Longrightarrow> ops_ok m (s\<lparr>pp_progress := p\<rparr>)"
  "ops_ok m s \<Longrightarrow> ops_ok m (s\<lparr>pp_dirty := b\<rparr>)" "ops_ok m s \<Longrightarrow> ops_ok m (s\<lparr>pp_selected := i\<rparr>)"
  "ops_ok m s \<Longrightarrow> ops_ok m (s\<lparr>pp_replaceID := r\<rparr>)" "ops_ok m s \<Longrightarrow> ops_ok m (s\<lparr>pp_preview := jv\<rparr>)"
  "ops_ok m s \<Longrightarrow> ops_ok m (s\<lparr>pp_previewTimer := b\<rparr>)" "ops_ok m s \<Longrightarrow> ops_ok m (s\<lparr>pp_saveTimer := b\<rparr>)"
  "ops_ok m s \<Longrightarrow> ops_ok m (s\<lparr>pp_draft := d\<rparr>)" "ops_ok m s \<Longrightarrow> ops_ok m (s\<lparr>pp_destinations := ds\<rparr>)"
  "ops_ok m s \<Longrightarrow> ops_ok m (s\<lparr>pp_handles := h\<rparr>)" "ops_ok m s \<Longrightarrow> ops_ok m (s\<lparr>pp_imslp := im\<rparr>)"
  "ops_ok m s \<Longrightarrow> ops_ok m (s\<lparr>pp_preparedPages := c\<rparr>)" "ops_ok m s \<Longrightarrow> ops_ok m (s\<lparr>pp_backgroundTimer := bt\<rparr>)"
  "ops_ok m s \<Longrightarrow> ops_ok m (s\<lparr>pa_left := l\<rparr>)" "ops_ok m s \<Longrightarrow> ops_ok m (s\<lparr>pa_windows := ws\<rparr>)"
  by (rule same_ops_ok [rotated], assumption, simp add: same_ops_def)+

lemma one_more_wait:
  "long_ops (s\<lparr>pa_awaits := pa_awaits s @ [(p, job)]\<rparr>) = long_ops s + worker_ops job"
  "long_ops (s\<lparr>pa_previews := pa_previews s @ [(n, job')], pa_drawings := n'\<rparr>) = long_ops s + preview_ops job'"
  "long_ops (s\<lparr>pa_waiters := pa_waiters s @ [w]\<rparr>) = long_ops s + call_ops w + deletion_ops w"
  by (simp_all add: long_ops_def)

lemma run_client:
  assumes "client_ok c" and "run uuid makes failure c = (promise, c')"
  shows "client_ok c' \<and> length (wc_calls c) \<le> length (wc_calls c') \<and>
    (case promise of None \<Rightarrow> True | Some p \<Rightarrow> p = length (wc_calls c) \<and> p < length (wc_calls c'))"
proof -
  have "client_ok c'" using run_ok [OF assms(1), of uuid makes failure] assms(2) by simp
  moreover have "length (wc_calls c) \<le> length (wc_calls c') \<and>
    (case promise of None \<Rightarrow> True | Some p \<Rightarrow> p = length (wc_calls c) \<and> p < length (wc_calls c'))"
    using assms(2) unfolding run_def Let_def
    by (auto simp: settle_def releaseWorker_def ensureWorker_def stopActive_fields split: if_splits option.splits)
  ultimately show ?thesis by blast
qed

lemma waits_client:
  assumes "waits_ok s" and "client_ok c" and "length (wc_calls (pp_workerClient s)) \<le> length (wc_calls c)"
  shows "waits_ok (s\<lparr>pp_workerClient := c\<rparr>)"
  using assms less_le_trans by (fastforce simp: waits_ok_def)

lemma waits_await:
  assumes "waits_ok s" and "client_ok c" and "p = length (wc_calls (pp_workerClient s))" and "p < length (wc_calls c)"
  shows "waits_ok (s\<lparr>pp_workerClient := c, pa_awaits := pa_awaits s @ [(p, job)]\<rparr>)"
  using assms less_trans by (fastforce simp: waits_ok_def)

lemma run_worker_ok:
  assumes "ops_ok (worker_ops job + m) s" and "foreground \<longleftrightarrow> worker_ops job = {#FinalizeOp#}"
  shows "ops_ok (if fst (run_worker W foreground job s) then m else worker_ops job + m) (snd (run_worker W foreground job s))"
proof -
  define t where "t = syncCancellable (s\<lparr>pp_foregroundWorker := foreground\<rparr>)"
  define n where "n = length (wc_calls (pp_workerClient s))"
  have client: "pp_workerClient t = pp_workerClient s" by (simp add: t_def)
  obtain promise c where r: "run (we_request W n) (we_makes W n) (we_post W n) (pp_workerClient s) = (promise, c)"
    by fastforce
  have c: "client_ok (pp_workerClient s)" using assms(1) by (simp add: ops_ok_def waits_ok_def)
  note rc = run_client [OF c r]
  have eq: "long_ops s + (worker_ops job + m) = current_op s" "flags_ok s" "waits_ok s"
    using assms(1) by (simp_all add: ops_ok_def)
  have long: "long_ops t = long_ops s" "current_op t = current_op s"
    by (simp_all add: t_def long_ops_def current_op_def)
  have wt: "waits_ok t" using eq(3) by (simp add: t_def waits_ok_def)
  show ?thesis
  proof (cases promise)
    case (Some p)
    define u where "u = t\<lparr>pp_workerClient := c, pa_awaits := pa_awaits t @ [(p, job)]\<rparr>"
    have run: "run_worker W foreground job s = (True, u)"
      unfolding run_worker_def Let_def t_def [symmetric] client n_def [symmetric] r u_def by (simp add: Some)
    have "long_ops u = long_ops s + worker_ops job" by (simp add: u_def t_def long_ops_def)
    moreover have "current_op u = current_op s" by (simp add: u_def t_def current_op_def)
    moreover have "flags_ok u" using eq(2) assms(2) unfolding u_def t_def flags_ok_def syncCancellable_def
      by (cases foreground) simp_all
    moreover have "waits_ok u" using waits_await [OF wt, of c p job] rc Some unfolding u_def client by simp
    ultimately show ?thesis using eq(1) by (simp add: run ops_ok_def add.assoc)
  next
    case None
    define u where "u = t\<lparr>pp_workerClient := c\<rparr>"
    have run: "run_worker W foreground job s = (False, if foreground then syncCancellable (u\<lparr>pp_foregroundWorker := False\<rparr>) else u)"
      unfolding run_worker_def Let_def t_def [symmetric] client n_def [symmetric] r u_def by (simp add: None)
    have "long_ops u = long_ops s" "current_op u = current_op s"
      by (simp_all add: u_def t_def long_ops_def current_op_def)
    moreover have "waits_ok u" using waits_client [OF wt, of c] rc unfolding u_def client by simp
    moreover have "flags_ok (syncCancellable (u\<lparr>pp_foregroundWorker := False\<rparr>))"
      using eq(2) unfolding u_def t_def flags_ok_def syncCancellable_def by simp
    moreover have "flags_ok u" if "\<not> foreground"
      using eq(2) that unfolding u_def t_def flags_ok_def syncCancellable_def by simp
    moreover have "long_ops (u\<lparr>pp_foregroundWorker := False\<rparr>) = long_ops u"
      "current_op (u\<lparr>pp_foregroundWorker := False\<rparr>) = current_op u" "waits_ok (u\<lparr>pp_foregroundWorker := False\<rparr>) = waits_ok u"
      by (simp_all add: long_ops_def current_op_def waits_ok_def)
    ultimately show ?thesis using eq(1) by (simp add: run ops_ok_def)
  qed
qed

lemma upload_finally_ok:
  assumes "ops_ok (add_mset UploadOp m) s"
  shows "ops_ok m (upload_finally job s)"
proof -
  define t where "t = syncCancellable (s\<lparr>pp_imslp := (pp_imslp s)\<lparr>im_added := im_added (pp_imslp s) @ uj_added job\<rparr>,
    pp_uploading := False, pp_skipRemainingUploads := False\<rparr>)"
  have f: "pp_busy s" "pp_uploading s" "flags_ok s" "waits_ok s" "long_ops s = {#}" "m = {#}"
    using in_hand(1) [OF assms] ops_ok_single [OF assms] by simp_all
  have "worker_ops (snd a) = {#}" if "a \<in> set (pa_awaits s)" for a
    using f(5) that sum_ops_empty [of "\<lambda>a. worker_ops (snd a)" "pa_awaits s" a] by (simp add: long_ops_def)
  then have "\<not> pp_foregroundWorker s" using f(3) by (auto simp: flags_ok_def)
  then have "flags_ok (t\<lparr>pp_busy := False, pp_progress := []\<rparr>)"
    using f(1-3) unfolding t_def flags_ok_def syncCancellable_def by simp
  moreover have "long_ops (t\<lparr>pp_busy := False, pp_progress := []\<rparr>) = {#}" using f(5) by (simp add: t_def long_ops_def)
  moreover have "current_op (t\<lparr>pp_busy := False, pp_progress := []\<rparr>) = {#}" by (simp add: current_op_def)
  moreover have "waits_ok (t\<lparr>pp_busy := False, pp_progress := []\<rparr>)" using f(4) by (simp add: t_def waits_ok_def)
  ultimately have "ops_ok m (t\<lparr>pp_busy := False, pp_progress := []\<rparr>)" using f(6) by (simp add: ops_ok_def)
  then show ?thesis using same_ops_ok [OF same_ops_simps(15)]
    unfolding upload_finally_def Let_def t_def by simp
qed

lemma preview_over_ok: "ops_ok (one_if UploadOp up + m) s \<Longrightarrow> ops_ok m (preview_over up s)"
  by (cases up) (simp_all add: preview_over_def upload_finally_ok)

lemma preview_failed_ok: "ops_ok (one_if UploadOp up + m) s \<Longrightarrow> ops_ok m (preview_failed W revision e up s)"
  unfolding preview_failed_def by (rule preview_over_ok) (simp add: same_ops_ok [OF same_ops_simps(12)])

lemma drawing_stopped_ok: "ops_ok (one_if UploadOp up + m) s \<Longrightarrow> ops_ok m (drawing_stopped W revision e up s)"
  by (simp add: drawing_stopped_def preview_over_ok preview_failed_ok split: option.split)

lemma start_drawing_ok:
  assumes "ops_ok (preview_ops job + m) s"
  shows "ops_ok m (start_drawing job s)"
proof -
  have "current_op (start_drawing job s) = current_op s" by (simp add: current_op_def)
  moreover have "flags_ok (start_drawing job s) = flags_ok s" by (simp add: flags_ok_def)
  moreover have "waits_ok s \<Longrightarrow> waits_ok (start_drawing job s)"
    by (auto simp: waits_ok_def start_drawing_def less_Suc_eq)
  ultimately show ?thesis using assms
    by (simp add: ops_ok_def start_drawing_def one_more_wait add.assoc)
qed

lemma renderAuthoritativePreview_ok:
  assumes "ops_ok (one_if UploadOp up + m) s"
  shows "ops_ok m (renderAuthoritativePreview W page revision source up s)"
proof -
  have w: "worker_ops (WBuild page revision source up) = one_if UploadOp up" by simp
  have "False \<longleftrightarrow> worker_ops (WBuild page revision source up) = {#FinalizeOp#}" by (cases up) simp_all
  from run_worker_ok [OF assms [folded w] this, of W]
  show ?thesis unfolding renderAuthoritativePreview_def w
    by (cases "run_worker W False (WBuild page revision source up) s")
       (auto split: bool.split simp: preview_failed_ok)
qed

lemma render_preview_ok:
  assumes "ops_ok (one_if UploadOp up + m) s"
  shows "ops_ok m (render_preview W up s)"
proof -
  define t where "t = invalidatePreview (s\<lparr>pp_previewTimer := False\<rparr>)"
  have t: "ops_ok (one_if UploadOp up + m) t" unfolding t_def
    by (rule invalidatePreview_ok) (rule keep_flags(7) [OF assms])
  have early: "pp_busy s \<and> \<not> pp_uploading s \<Longrightarrow> ops_ok m (s\<lparr>pp_previewTimer := False\<rparr>)"
    using in_hand(1) [of m s] keep_flags(7) [OF assms] assms by (cases up) auto
  have drawing: "ops_ok m (start_drawing job t)" if "preview_ops job = one_if UploadOp up" for job
    by (rule start_drawing_ok) (simp add: that t)
  show ?thesis unfolding render_preview_def Let_def
    using early t drawing preview_over_ok [OF keep_flags(6) [OF t]] renderAuthoritativePreview_ok [OF t]
    by (simp flip: t_def split: option.split)
qed


section \<open>Answers of drawings and of the worker\<close>

lemma show_preview_ok: "ops_ok m s \<Longrightarrow> ops_ok m (show_preview url aspect s)"
  by (rule same_ops_ok [OF same_ops_simps(11)])

lemma background_ok: "ops_ok m s \<Longrightarrow> ops_ok m (scheduleBackgroundPrepare page source revision s)"
  by (rule same_ops_ok [OF same_ops_simps(10)])

lemma sum_without:
  fixes f :: "'a \<Rightarrow> LongOp multiset"
  assumes "distinct (map fst xs)" and "(n, x) \<in> set xs"
  shows "sum_list (map (\<lambda>a. f (snd a)) xs) = f x + sum_list (map (\<lambda>a. f (snd a)) (filter (\<lambda>a. fst a \<noteq> n) xs))"
  using assms
proof (induction xs)
  case (Cons y ys)
  show ?case
  proof (cases "fst y = n")
    case True
    with Cons.prems have "n \<notin> fst ` set ys" by auto
    then have "filter (\<lambda>a. fst a \<noteq> n) ys = ys" by (auto simp: filter_id_conv)
    moreover have "y = (n, x)" using Cons.prems \<open>n \<notin> fst ` set ys\<close> by (auto simp: image_iff)
    ultimately show ?thesis using True by simp
  next
    case False
    then show ?thesis using Cons by (auto simp: ac_simps)
  qed
qed simp

lemma drawing_done_ok:
  assumes ok: "ops_ok (preview_ops job + m) s"
  shows "ops_ok m (drawing_done W job outcome s)"
proof (cases job)
  case (RasterLoad page source revision plain up)
  then have k: "ops_ok (one_if UploadOp up + m) s" using ok by simp
  have n: "False \<longleftrightarrow> worker_ops (WPreview page source revision up) = {#FinalizeOp#}" by (cases up) simp_all
  have "ops_ok (worker_ops (WPreview page source revision up) + m) s" using k by simp
  from run_worker_ok [OF this n, of W]
  have run: "case run_worker W False (WPreview page source revision up) s of
      (True, s) \<Rightarrow> ops_ok m s | (False, s) \<Rightarrow> ops_ok m (preview_failed W revision (we_factory W) up s)"
    by (cases "run_worker W False (WPreview page source revision up) s") (auto simp: preview_failed_ok split: bool.split)
  show ?thesis
    using k preview_over_ok [OF background_ok [OF show_preview_ok [OF k]]] renderAuthoritativePreview_ok [OF k] run
    by (auto simp: drawing_done_def RasterLoad drawing_stopped_ok preview_over_ok
        split: sum.splits prod.splits bool.splits)
next
  case (CanvasLoad revision up)
  then have k: "ops_ok (one_if UploadOp up + m) s" using ok by simp
  then show ?thesis
    by (auto simp: drawing_done_def CanvasLoad drawing_stopped_ok
        intro!: preview_over_ok show_preview_ok split: sum.split)
next
  case (PdfDrawing page revision source up)
  then have k: "ops_ok (one_if UploadOp up + m) s" using ok by simp
  then show ?thesis
    by (auto simp: drawing_done_def PdfDrawing drawing_stopped_ok Let_def
        intro!: preview_over_ok background_ok show_preview_ok split: sum.split option.split)
qed

lemma drawing_ended_ok:
  assumes "ops_ok m s"
  shows "ops_ok m (drawing_ended W n outcome s)"
proof (cases "map_of (pa_previews s) n")
  case (Some job)
  define t where "t = s\<lparr>pa_previews := filter (\<lambda>j. fst j \<noteq> n) (pa_previews s)\<rparr>"
  have eq: "long_ops s + m = current_op s" "flags_ok s" "waits_ok s" using assms by (simp_all add: ops_ok_def)
  have "(n, job) \<in> set (pa_previews s)" by (rule map_of_SomeD [OF Some])
  from sum_without [OF _ this, of preview_ops] have "long_ops s = long_ops t + preview_ops job"
    using eq(3) by (simp add: waits_ok_def long_ops_def t_def)
  moreover have "current_op t = current_op s" "flags_ok t" using eq(2) by (simp_all add: t_def current_op_def flags_ok_def)
  moreover have "waits_ok t" using eq(3) by (auto simp: t_def waits_ok_def intro: distinct_map_filter)
  ultimately have "ops_ok (preview_ops job + m) t" using eq(1) by (simp add: ops_ok_def add.assoc)
  then show ?thesis using Some by (simp add: drawing_ended_def drawing_done_ok t_def)
qed (use assms in \<open>simp add: drawing_ended_def\<close>)

lemma finalize_over_ok:
  assumes "ops_ok (add_mset FinalizeOp m) s" and "\<not> pp_foregroundWorker s"
  shows "ops_ok m (finalize_over s)"
proof -
  have f: "pp_busy s" "\<not> pp_uploading s" "pp_finalizing s" "flags_ok s" "waits_ok s" "long_ops s = {#}" "m = {#}"
    using in_hand(2) [OF assms(1)] ops_ok_single [OF assms(1)] by simp_all
  have "long_ops (finalize_over s) = {#}" using f(6) by (simp add: finalize_over_def long_ops_def)
  moreover have "current_op (finalize_over s) = {#}" by (simp add: finalize_over_def current_op_def)
  moreover have "waits_ok (finalize_over s)" using f(5) by (simp add: finalize_over_def waits_ok_def)
  moreover have "flags_ok (finalize_over s)" using f assms(2) by (simp add: finalize_over_def flags_ok_def)
  ultimately show ?thesis using f(7) by (simp add: ops_ok_def)
qed

lemma finalize_not_waiting:
  assumes "ops_ok (add_mset FinalizeOp m) s"
  shows "\<not> pp_foregroundWorker s"
proof -
  have "worker_ops (snd a) = {#}" if "a \<in> set (pa_awaits s)" for a
    using ops_ok_single(1) [OF assms] that sum_ops_empty [of "\<lambda>a. worker_ops (snd a)" "pa_awaits s" a]
    by (simp add: long_ops_def)
  then show ?thesis using ops_ok_single(4) [OF assms] by (auto simp: flags_ok_def)
qed

lemma finalize_failed_ok: "ops_ok (add_mset FinalizeOp m) s \<Longrightarrow> ops_ok m (finalize_failed W message s)"
  unfolding finalize_failed_def by (rule finalize_over_ok) (simp_all add: keep_flags finalize_not_waiting)

lemma build_settled_ok:
  assumes "ops_ok (add_mset FinalizeOp m) s"
  shows "ops_ok m (build_settled W current outcome s)"
proof -
  define t where "t = worker_finally True s"
  have f: "flags_ok s" "waits_ok s" "long_ops s = {#}" "m = {#}" "current_op s = {#FinalizeOp#}"
    using ops_ok_single [OF assms] by simp_all
  have t: "ops_ok (add_mset FinalizeOp m) t"
  proof -
    have "long_ops t = long_ops s" "current_op t = current_op s" "waits_ok t = waits_ok s"
      by (simp_all add: t_def worker_finally_def long_ops_def current_op_def waits_ok_def)
    moreover have "flags_ok t" using f(1) unfolding t_def worker_finally_def flags_ok_def syncCancellable_def by simp
    ultimately show ?thesis using f by (simp add: ops_ok_def)
  qed
  have built: "ops_ok m (t\<lparr>pa_finalize := Some current\<rparr>)"
    using ops_ok_single [OF t] in_hand(2) [OF t] by (simp add: ops_ok_def long_ops_def current_op_def flags_ok_def waits_ok_def)
  show ?thesis unfolding build_settled_def Let_def t_def [symmetric]
    using built t by (auto simp: finalize_failed_ok split: Settlement.split option.split)
qed

lemma worker_settled_ok:
  assumes ok: "ops_ok (worker_ops job + m) s"
  shows "ops_ok m (worker_settled W job outcome s)"
proof (cases job)
  case (WPreview page source revision up)
  then have k: "ops_ok (one_if UploadOp up + m) s" using ok by simp
  have more: "ops_ok m' ((show_preview url aspect s')\<lparr>pp_objectURL := url', pa_drawings := Suc (pa_drawings s')\<rparr>)"
    if "ops_ok m' s'" for m' url aspect s' url'
    using show_preview_ok [OF that, of url aspect]
    by (auto simp: ops_ok_def long_ops_def current_op_def flags_ok_def waits_ok_def less_Suc_eq)
  show ?thesis using k
    by (auto simp: worker_settled_def WPreview Let_def preview_failed_ok
        intro!: preview_over_ok background_ok more split: Settlement.split)
next
  case (WBuild page revision source up)
  then have k: "ops_ok (one_if UploadOp up + m) s" using ok by simp
  have "ops_ok m (start_drawing (PdfDrawing page revision source up) s)" by (rule start_drawing_ok) (simp add: k)
  then show ?thesis using k
    by (auto simp: worker_settled_def WBuild preview_failed_ok
        intro!: preview_over_ok background_ok split: Settlement.split option.split)
next
  case (WBackground b)
  then show ?thesis using ok
    by (auto simp: worker_settled_def keep_flags split: Settlement.split option.split)
next
  case (WFinal d)
  then show ?thesis using ok by (simp add: worker_settled_def build_settled_ok)
qed

lemma worker_settled_waits: "pa_awaits (worker_settled W job outcome s) = pa_awaits s \<and>
    pp_workerClient (worker_settled W job outcome s) = pp_workerClient s"
  by (auto simp: worker_settled_def preview_over_def preview_failed_def upload_finally_def build_settled_def
      finalize_failed_def finalize_over_def worker_finally_def Let_def syncCancellable_def
      split: WorkerJob.split Settlement.split option.split)


lemma settle_promise_ok:
  assumes "ops_ok m s" and "a \<in> set (pa_awaits s)"
  shows "ops_ok m (settle_promise W a s)"
proof (cases "map_of (wc_settled (pp_workerClient s)) (fst a)")
  case (Some outcome)
  define t where "t = s\<lparr>pa_awaits := filter (\<lambda>b. fst b \<noteq> fst a) (pa_awaits s)\<rparr>"
  have eq: "long_ops s + m = current_op s" "flags_ok s" "waits_ok s" using assms(1) by (simp_all add: ops_ok_def)
  have "(fst a, snd a) \<in> set (pa_awaits s)" using assms(2) by simp
  from sum_without [OF _ this, of worker_ops] have "long_ops s = long_ops t + worker_ops (snd a)"
    using eq(3) by (simp add: waits_ok_def long_ops_def t_def)
  moreover have cur: "current_op t = current_op s" by (simp add: t_def current_op_def)
  ultimately have sum: "long_ops t + (worker_ops (snd a) + m) = current_op t" using eq(1) by (simp add: add.assoc)
  have "waits_ok t" using eq(3) by (auto simp: t_def waits_ok_def intro: distinct_map_filter)
  show ?thesis
  proof (cases "worker_ops (snd a) = {#FinalizeOp#}")
    case False
    have "\<exists>b \<in> set (pa_awaits t). worker_ops (snd b) = {#FinalizeOp#}"
      if final: "\<exists>b \<in> set (pa_awaits s). worker_ops (snd b) = {#FinalizeOp#}"
    proof -
      from final obtain b where b: "b \<in> set (pa_awaits s)" "worker_ops (snd b) = {#FinalizeOp#}" by blast
      have "inj_on fst (set (pa_awaits s))" using eq(3) by (simp add: waits_ok_def distinct_map)
      then have "fst b \<noteq> fst a" using b assms(2) False by (metis inj_onD)
      then have "b \<in> set (pa_awaits t)" using b(1) by (simp add: t_def)
      then show ?thesis using b(2) by blast
    qed
    then have "flags_ok t" using eq(2) by (auto simp: t_def flags_ok_def)
    then have "ops_ok (worker_ops (snd a) + m) t" using sum \<open>waits_ok t\<close> by (simp add: ops_ok_def)
    then show ?thesis using Some by (simp add: settle_promise_def worker_settled_ok t_def)
  next
    case True
    then obtain d where d: "snd a = WFinal d" by (cases "snd a") (auto simp: one_if_def split: option.splits)
    define u where "u = worker_finally True t"
    have "flags_ok u" using eq(2) unfolding u_def worker_finally_def t_def flags_ok_def syncCancellable_def by simp
    moreover have "long_ops u = long_ops t" "current_op u = current_op t" "waits_ok u = waits_ok t"
      by (simp_all add: u_def worker_finally_def long_ops_def current_op_def waits_ok_def)
    ultimately have "ops_ok (add_mset FinalizeOp m) u" using sum True \<open>waits_ok t\<close> by (simp add: ops_ok_def)
    then have "ops_ok m (build_settled W d outcome u)" by (rule build_settled_ok)
    moreover have "worker_finally True u = u" by (simp add: u_def worker_finally_def syncCancellable_def)
    then have "build_settled W d outcome u = build_settled W d outcome t"
      by (simp add: build_settled_def flip: u_def)
    ultimately show ?thesis using Some d by (simp add: settle_promise_def worker_settled_def t_def)
  qed
qed (use assms in \<open>simp add: settle_promise_def\<close>)

definition unsettled :: "PrepareComponent \<Rightarrow> nat \<times> WorkerJob \<Rightarrow> bool" where
  "unsettled s a \<longleftrightarrow> map_of (wc_settled (pp_workerClient s)) (fst a) = None"

lemma settle_promise_awaits:
  "pa_awaits (settle_promise W a s) = filter (\<lambda>b. unsettled s a \<or> fst b \<noteq> fst a) (pa_awaits s)"
  "pp_workerClient (settle_promise W a s) = pp_workerClient s"
  by (auto simp: settle_promise_def unsettled_def worker_settled_waits split: option.split)

lemma settle_list_ok:
  assumes "ops_ok m s" and "distinct (map fst as)" and "set as \<subseteq> set (pa_awaits s)"
  shows "ops_ok m (fold (settle_promise W) as s) \<and>
    pp_workerClient (fold (settle_promise W) as s) = pp_workerClient s \<and>
    pa_awaits (fold (settle_promise W) as s) = filter (\<lambda>b. \<forall>a \<in> set as. unsettled s a \<or> fst b \<noteq> fst a) (pa_awaits s)"
  using assms
proof (induction as arbitrary: s)
  case (Cons a as)
  let ?t = "settle_promise W a s"
  have u: "unsettled ?t = unsettled s" by (simp add: unsettled_def settle_promise_awaits fun_eq_iff)
  have "set as \<subseteq> set (pa_awaits ?t)" 
  proof
    fix x assume x: "x \<in> set as"
    then have "fst x \<noteq> fst a" using Cons.prems(2) by (metis distinct.simps(2) image_eqI list.simps(9) set_map)
    then show "x \<in> set (pa_awaits ?t)" using x Cons.prems(3) by (auto simp: settle_promise_awaits)
  qed
  from Cons.IH [OF settle_promise_ok [OF Cons.prems(1)] _ this] Cons.prems(2,3) show ?case
    by (simp add: settle_promise_awaits u conj_commute)
qed simp

lemma settle_promises_ok:
  assumes "ops_ok m s"
  shows "ops_ok m (settle_promises W s)" "\<forall>a \<in> set (pa_awaits (settle_promises W s)). unsettled (settle_promises W s) a"
proof -
  have "distinct (map fst (pa_awaits s))" using assms by (simp add: ops_ok_def waits_ok_def)
  from settle_list_ok [OF assms this order_refl, of W] show "ops_ok m (settle_promises W s)"
    "\<forall>a \<in> set (pa_awaits (settle_promises W s)). unsettled (settle_promises W s) a"
    by (auto simp: settle_promises_def unsettled_def)
qed

section \<open>Saving and going on\<close>

lemma persist_call_ok:
  assumes "ops_ok (continuation_ops k + m) s"
  shows "ops_ok (if fst (persist_call k s) then continuation_ops k + m else m) (snd (persist_call k s))"
proof -
  have kept: "ops_ok (continuation_ops k + m) (s\<lparr>pp_saveTimer := False\<rparr>)" by (rule keep_flags(8) [OF assms])
  have eq: "long_ops s + (continuation_ops k + m) = current_op s" "flags_ok s" "waits_ok s"
    using assms by (simp_all add: ops_ok_def)
  have wait: "ops_ok m t" if "pa_waiters t = pa_waiters s @ [w]" "call_ops w + deletion_ops w = continuation_ops k"
    "same_ops s (t\<lparr>pa_waiters := pa_waiters s\<rparr>)" for t w
  proof -
    have "long_ops t = long_ops s + (call_ops w + deletion_ops w)"
      using that(1,3) by (simp add: same_ops_def long_ops_def)
    moreover have "current_op t = current_op s" "flags_ok t = flags_ok s" "waits_ok t = waits_ok s"
      using that(3) by (simp_all add: same_ops_def current_op_def flags_ok_def waits_ok_def)
    ultimately show ?thesis using eq that(2) by (simp add: ops_ok_def add.assoc)
  qed
  have w1: "ops_ok m (s\<lparr>pp_saveTimer := False, pa_waiters := pa_waiters s @ [Recheck k]\<rparr>)"
    by (rule wait [of _ "Recheck k"]) (simp_all add: same_ops_def)
  have w2: "ops_ok m (s\<lparr>pp_saveTimer := False, pp_dirty := False, pa_pendingSave := Some d,
      pa_waiters := pa_waiters s @ [Started k], pa_saves := pa_saves s @ [d]\<rparr>)" for d
    by (rule wait [of _ "Started k"]) (simp_all add: same_ops_def)
  show ?thesis using kept w1 w2 by (simp add: persist_call_def Let_def split: option.split)
qed

lemma upload_failed_ok: "ops_ok (add_mset UploadOp m) s \<Longrightarrow> ops_ok m (upload_failed W e job s)"
  by (simp add: upload_failed_def upload_finally_ok keep_flags)

lemma upload_ended_ok:
  assumes "ops_ok (add_mset UploadOp m) s"
  shows "ops_ok m (upload_ended W job s)"
proof -
  define t where "t = reconcilePreparedKeys (if uj_stay job then s else setStep PagesStep s)"
  have "ops_ok (add_mset UploadOp m) t" using assms
    by (simp add: t_def same_ops_ok [OF same_ops_simps(2)] same_ops_ok [OF same_ops_simps(13)])
  then show ?thesis unfolding upload_ended_def Let_def t_def [symmetric]
    by (auto intro!: render_preview_ok simp: keep_flags)
qed

lemma upload_next_ok:
  assumes "ops_ok (add_mset UploadOp m) s"
  shows "ops_ok m (upload_next W job s)"
proof -
  note f = ops_ok_single [OF assms]
  have "ops_ok m (s\<lparr>pp_progress := p, pa_upload := Some (job, d)\<rparr>)" for p d
    using f by (simp add: ops_ok_def long_ops_def current_op_def flags_ok_def waits_ok_def
        in_hand(1) [OF assms])
  then show ?thesis using assms
    by (simp add: upload_next_def upload_ended_ok upload_failed_ok Let_def split: option.split)
qed

lemma upload_added_ok: "ops_ok (add_mset UploadOp m) s \<Longrightarrow> ops_ok m (upload_added W job old s)"
  unfolding upload_added_def Let_def by (rule upload_next_ok) (rule keep_flags)

lemma start_build_ok:
  assumes "ops_ok (add_mset FinalizeOp m) s"
  shows "ops_ok m (start_build W s)"
proof (cases "pp_draft s")
  case (Some current)
  define c where "c = fold (\<lambda>key c. snd (cache_take c key))
    (remdups (List.map_filter (prepared_key_of current) (m_pages (d_manifest current)))) (pp_preparedPages s)"
  have "ops_ok (worker_ops (WFinal current) + m) (s\<lparr>pp_preparedPages := c\<rparr>)" using keep_flags(13) [OF assms] by simp
  from run_worker_ok [OF this, of True W] show ?thesis
    unfolding start_build_def Some Let_def c_def [symmetric]
    by (cases "run_worker W True (WFinal current) (s\<lparr>pp_preparedPages := c\<rparr>)")
       (auto simp: Let_def finalize_failed_ok split: bool.split simp flip: c_def)
qed (use assms in \<open>simp add: start_build_def finalize_failed_ok\<close>)

lemma setStep_ok: "ops_ok m s \<Longrightarrow> ops_ok m (setStep step s)"
  by (rule same_ops_ok [OF same_ops_simps(13)])

lemma fail_with_ok: "ops_ok m s \<Longrightarrow> ops_ok m (fail_with W e s)"
  by (rule same_ops_ok [OF same_ops_simps(12)])

lemma resume_save_ok:
  assumes "ops_ok (continuation_ops k + m) s"
  shows "ops_ok m (resume_save W k outcome s)"
  using assms
  by (cases k; cases outcome)
     (auto simp: resume_save_def fail_with_ok upload_failed_ok finalize_failed_ok keep_flags setStep_ok
       same_ops_ok [OF same_ops_simps(2)] intro!: upload_next_ok upload_added_ok start_build_ok)

lemma persist_ok: "ops_ok (continuation_ops k + m) s \<Longrightarrow> ops_ok m (persist W k s)"
  using persist_call_ok [of k m s] by (auto simp: persist_def resume_save_ok split: prod.split)


definition ready_ops :: "(Continuation \<times> (js_error, unit) result) list \<Rightarrow> LongOp multiset" where
  "ready_ops ready = sum_list (map (\<lambda>r. continuation_ops (fst r)) ready)"

lemma ready_ops_simps [simp]: "ready_ops [] = {#}" "ready_ops (r # rs) = continuation_ops (fst r) + ready_ops rs"
    "ready_ops (rs @ qs) = ready_ops rs + ready_ops qs"
  by (simp_all add: ready_ops_def)

lemma wake_waiter_ok:
  assumes "ops_ok (call_ops w + ready_ops ready + m) s" and "wake_waiter outcome w (ready, s) = (ready', s')"
  shows "ops_ok (ready_ops ready' + m) s'"
proof (cases w)
  case (Recheck k)
  have "ops_ok (continuation_ops k + (ready_ops ready + m)) s" using assms(1) Recheck by (simp add: add.assoc)
  from persist_call_ok [OF this] show ?thesis using assms Recheck
    by (auto simp: wake_waiter_def ac_simps split: sum.splits if_splits prod.splits)
qed (use assms in \<open>auto simp: wake_waiter_def ac_simps\<close>)

lemma wake_waiters_ok:
  assumes "ops_ok (sum_list (map call_ops ws) + ready_ops ready + m) s"
    and "fold (wake_waiter outcome) ws (ready, s) = (ready', s')"
  shows "ops_ok (ready_ops ready' + m) s'"
  using assms
proof (induction ws arbitrary: ready s)
  case (Cons w ws)
  obtain r t where t: "wake_waiter outcome w (ready, s) = (r, t)" by fastforce
  have "ops_ok (call_ops w + ready_ops ready + (sum_list (map call_ops ws) + m)) s"
    using Cons.prems(1) by (simp add: ac_simps)
  from wake_waiter_ok [OF this t] have "ops_ok (sum_list (map call_ops ws) + ready_ops r + m) t"
    by (simp add: ac_simps)
  then show ?case using Cons.IH Cons.prems(2) t by simp
qed simp

lemma wake_deleting_ok:
  assumes "ops_ok (deletion_ops w + m) s"
  shows "ops_ok m (wake_deleting W outcome w s)"
proof (cases w)
  case DetailsWaits
  then have k: "ops_ok (add_mset DetailsOp m) s" using assms by simp
  note f = ops_ok_single [OF k] in_hand(3) [OF k]
  have "\<not> pp_foregroundWorker s" using f(1,4) sum_ops_empty [of "\<lambda>a. worker_ops (snd a)" "pa_awaits s"]
    by (auto simp: flags_ok_def long_ops_def)
  then have "ops_ok m ((fail_with W e s)\<lparr>pp_busy := False\<rparr>)" for e
    using f by (simp add: ops_ok_def long_ops_def current_op_def flags_ok_def waits_ok_def fail_with_def)
  moreover have "ops_ok m (delete_started DetailsDelete s)"
    using f by (simp add: ops_ok_def long_ops_def current_op_def flags_ok_def waits_ok_def delete_started_def)
  ultimately show ?thesis using DetailsWaits by (simp add: wake_deleting_def split: sum.split)
next
  case DiscardWaits
  then have k: "ops_ok (add_mset DiscardOp m) s" using assms by simp
  note f = ops_ok_single [OF k] in_hand(4) [OF k]
  show ?thesis using f DiscardWaits
    by (simp add: wake_deleting_def ops_ok_def long_ops_def current_op_def flags_ok_def waits_ok_def delete_started_def)
qed (use assms in \<open>simp_all add: wake_deleting_def\<close>)

lemma wake_deletings_ok:
  "ops_ok (sum_list (map deletion_ops ws) + m) s \<Longrightarrow> ops_ok m (fold (wake_deleting W outcome) ws s)"
proof (induction ws arbitrary: s)
  case (Cons w ws)
  then have "ops_ok (deletion_ops w + (sum_list (map deletion_ops ws) + m)) s" by (simp add: ac_simps)
  then show ?case using Cons.IH wake_deleting_ok by simp
qed simp

lemma resume_all_ok:
  "ops_ok (ready_ops ready + m) s \<Longrightarrow> ops_ok m (fold (\<lambda>(k, outcome). resume_save W k outcome) ready s)"
proof (induction ready arbitrary: s)
  case (Cons r ready)
  obtain k outcome where r: "r = (k, outcome)" by fastforce
  have "ops_ok (continuation_ops k + (ready_ops ready + m)) s" using Cons.prems r by (simp add: ac_simps)
  from Cons.IH [OF resume_save_ok [OF this]] show ?case using r by simp
qed simp

lemma save_answered_ok:
  assumes "ops_ok {#} s"
  shows "ops_ok {#} (save_answered W answer s)"
proof (cases "pa_pendingSave s")
  case (Some snapshot)
  let ?ws = "pa_waiters s"
  define outcome where "outcome = (case answer of Inl e \<Rightarrow> Inl e | Inr _ \<Rightarrow> Inr ())"
  define t where "t = (save_settled answer snapshot s)\<lparr>pa_pendingSave := None, pa_waiters := []\<rparr>"
  have eq: "long_ops s = current_op s" "flags_ok s" "waits_ok s" using assms by (simp_all add: ops_ok_def)
  have "long_ops s = long_ops t + (sum_list (map deletion_ops ?ws) + sum_list (map call_ops ?ws))"
    by (cases answer) (simp_all add: t_def long_ops_def save_settled_def ac_simps split: prod.split)
  moreover have "current_op t = current_op s" "flags_ok t = flags_ok s" "waits_ok t = waits_ok s"
    by (cases answer; auto simp: t_def current_op_def flags_ok_def waits_ok_def save_settled_def split: prod.split)+
  ultimately have "ops_ok (sum_list (map deletion_ops ?ws) + sum_list (map call_ops ?ws)) t"
    using eq by (simp add: ops_ok_def)
  from wake_deletings_ok [OF this] have d: "ops_ok (sum_list (map call_ops ?ws)) (fold (wake_deleting W outcome) ?ws t)" .
  obtain ready u where u: "fold (wake_waiter outcome) ?ws ([], fold (wake_deleting W outcome) ?ws t) = (ready, u)"
    by fastforce
  have "ops_ok (ready_ops ready + {#}) u" using wake_waiters_ok [OF _ u, of "{#}"] d by simp
  from resume_all_ok [OF this] show ?thesis
    unfolding save_answered_def Some option.case Let_def t_def [symmetric] outcome_def [symmetric] by (simp add: u)
qed (use assms in \<open>simp add: save_answered_def\<close>)


section \<open>The handlers\<close>

lemma redraw_ok: "ops_ok {#} s \<Longrightarrow> ops_ok {#} (render_preview W None s)"
  by (rule render_preview_ok) simp

text \<open>What every edit is made of.\<close>

lemma ops_of_parts:
  "ops_ok m s \<Longrightarrow> ops_ok m (mark s)" "ops_ok m s \<Longrightarrow> ops_ok m (reconcilePreparedKeys s)"
  "ops_ok m s \<Longrightarrow> ops_ok m (remember s)" "ops_ok m s \<Longrightarrow> ops_ok m (startGesture s)"
  "ops_ok m s \<Longrightarrow> ops_ok m (endGesture s)" "ops_ok m s \<Longrightarrow> ops_ok m (set_pages ps s)"
  "ops_ok m s \<Longrightarrow> ops_ok m (set_manifest mf s)" "ops_ok m s \<Longrightarrow> ops_ok m (edit_page f s)"
  "ops_ok m s \<Longrightarrow> ops_ok m (on_imslp g s)" "ops_ok m s \<Longrightarrow> ops_ok m (skipped_note sk s)"
  by (simp_all add: same_ops_simps [THEN same_ops_ok])

lemma changed_parts_ok: "ops_ok m s \<Longrightarrow> ops_ok m (changed s)"
  by (rule changed_ok [OF _ same_ops_refl])

lemma more_keep_flags:
  "ops_ok m s \<Longrightarrow> ops_ok m (s\<lparr>pp_selectedIDs := ids\<rparr>)" "ops_ok m s \<Longrightarrow> ops_ok m (s\<lparr>pp_rangeSourceId := i\<rparr>)"
  "ops_ok m s \<Longrightarrow> ops_ok m (s\<lparr>pp_rangeText := rt\<rparr>)" "ops_ok m s \<Longrightarrow> ops_ok m (s\<lparr>pp_compare := b\<rparr>)"
  "ops_ok m s \<Longrightarrow> ops_ok m (s\<lparr>pp_edgeReady := b\<rparr>)" "ops_ok m s \<Longrightarrow> ops_ok m (s\<lparr>pp_pendingEdges := pe\<rparr>)"
  "ops_ok m s \<Longrightarrow> ops_ok m (s\<lparr>pp_edgeResetRequired := b\<rparr>)" "ops_ok m s \<Longrightarrow> ops_ok m (s\<lparr>pp_history := h\<rparr>)"
  "ops_ok m s \<Longrightarrow> ops_ok m (s\<lparr>pp_uuids := n\<rparr>)" "ops_ok m s \<Longrightarrow> ops_ok m (s\<lparr>pp_sourceMode := sm\<rparr>)"
  "ops_ok m s \<Longrightarrow> ops_ok m (s\<lparr>pp_edgeCompare := b\<rparr>)" "ops_ok m s \<Longrightarrow> ops_ok m (s\<lparr>pp_zoom := z\<rparr>)"
  "ops_ok m s \<Longrightarrow> ops_ok m (s\<lparr>pp_step := st\<rparr>)" "ops_ok m s \<Longrightarrow> ops_ok m (s\<lparr>pa_acked := d\<rparr>)"
  "ops_ok m s \<Longrightarrow> ops_ok m (s\<lparr>pp_saved := e\<rparr>)" "ops_ok m s \<Longrightarrow> ops_ok m (s\<lparr>pp_destroyed := b\<rparr>)"
  by (rule same_ops_ok [rotated], assumption, simp add: same_ops_def)+

lemmas ops_intros = keep_flags more_keep_flags ops_of_parts changed_parts_ok setStep_ok fail_with_ok redraw_ok

lemma apply_edit_ok: "ops_ok {#} s \<Longrightarrow> ops_ok {#} (apply_edit W e s)"
  by (cases e)
     (auto simp: changeMargin_def change_def rotate_page_def changePaperStrength_def resetPage_def resetAll_def
        move_page_def remove_page_def keepSelected_def useRange_def applyEdges_def updateMetadata_def Let_def
        intro!: ops_intros split: option.split sum.split)

lemma view_handlers_ok:
  assumes "ops_ok {#} s"
  shows "ops_ok {#} (undo W s)" "ops_ok {#} (choose_page W i s)" "ops_ok {#} (toggle_page j s)"
    "ops_ok {#} (setCompare W v s)" "ops_ok {#} (beginEdges W s)" "ops_ok {#} (cancelEdges W s)"
    "ops_ok {#} (resetPendingEdges s)" "ops_ok {#} (move_pending_edge i x y r s)"
    "ops_ok {#} (preview_timer_fired W s)" "ops_ok {#} (load_draft W answer s)" "ops_ok {#} (chooseSource mode s)"
    "ops_ok {#} (dragOver b s)" "ops_ok {#} (dragLeave b s)" "ops_ok {#} (changeWork s)"
  using assms
  by (auto simp: undo_def choose_page_def toggle_page_def setCompare_def beginEdges_def cancelEdges_def edges_started_def
      resetPendingEdges_def move_pending_edge_def preview_timer_fired_def load_draft_def chooseSource_def dragOver_def
      dragLeave_def changeWork_def Let_def intro!: ops_intros split: option.split sum.split bool.split)


lemma applyIMSLP_ok: "ops_ok m s \<Longrightarrow> ops_ok m (snd (applyIMSLP W s))"
  by (auto simp: applyIMSLP_def intro!: ops_intros split: option.split prod.split sum.split)

lemma applyIMSLP_keeps:
  "applyIMSLP W s = (r, t) \<Longrightarrow> same_ops s t"
  by (auto simp: applyIMSLP_def same_ops_def split: option.splits prod.splits sum.splits if_splits)

lemma uploadFiles_ok:
  assumes "ops_ok {#} s"
  shows "ops_ok {#} (uploadFiles W files replace skipped s)"
proof (cases "pp_busy s \<or> files = []")
  case False
  define t where "t = (syncCancellable (s\<lparr>pp_busy := True, pp_error := [], pp_uploading := True,
    pp_skipRemainingUploads := False\<rparr>))\<lparr>pp_uploadGeneration := pp_uploadGeneration s + 1\<rparr>"
  have eq: "long_ops s = current_op s" "flags_ok s" "waits_ok s" using assms by (simp_all add: ops_ok_def)
  have "long_ops t = {#}" using eq(1) False by (simp add: t_def long_ops_def current_op_def)
  moreover have "current_op t = {#UploadOp#}" by (simp add: t_def current_op_def)
  moreover have "flags_ok t" using eq(2) False unfolding t_def syncCancellable_def flags_ok_def by auto
  moreover have "waits_ok t" using eq(3) by (simp add: t_def waits_ok_def)
  ultimately have t: "ops_ok {#UploadOp#} t" by (simp add: ops_ok_def)
  obtain r u where u: "applyIMSLP W t = (r, u)" by fastforce
  have ok: "ops_ok {#UploadOp#} u" using same_ops_ok [OF applyIMSLP_keeps [OF u] t] .
  have "ops_ok {#} (upload_failed W e job u)" for e job by (rule upload_failed_ok) (simp add: ok)
  moreover have "ops_ok {#} (persist W (AfterUpload job) u)" for job by (rule persist_ok) (simp add: ok)
  moreover have gen: "pp_uploadGeneration (syncCancellable (s\<lparr>pp_busy := True, pp_error := [], pp_uploading := True,
      pp_skipRemainingUploads := False\<rparr>)) = pp_uploadGeneration s" by simp
  ultimately show ?thesis using False
    unfolding uploadFiles_def Let_def gen t_def [symmetric] by (simp add: u split: sum.split)
qed (use assms in \<open>auto simp: uploadFiles_def intro!: ops_intros\<close>)

lemma upload_answered_ok:
  assumes "ops_ok {#} s"
  shows "ops_ok {#} (upload_answered W answer s)"
proof (cases "pa_upload s")
  case (Some sent)
  obtain job d where sent: "sent = (job, d)" by fastforce
  define t where "t = s\<lparr>pa_upload := None\<rparr>"
  have eq: "long_ops s = current_op s" "flags_ok s" "waits_ok s" using assms by (simp_all add: ops_ok_def)
  have "long_ops s = add_mset UploadOp (long_ops t)" using Some by (simp add: t_def long_ops_def)
  moreover have "current_op t = current_op s" by (simp add: t_def current_op_def)
  moreover have "flags_ok t" "waits_ok t" using eq(2,3) by (simp_all add: t_def flags_ok_def waits_ok_def)
  ultimately have t: "ops_ok {#UploadOp#} t" by (rule taken_ok [OF assms])
  show ?thesis
  proof (cases answer)
    case (Inl e)
    then show ?thesis using t Some sent by (simp add: upload_answered_def upload_failed_ok t_def)
  next
    case (Inr next_draft)
    define u where "u = (remember t)\<lparr>pp_draft := Some next_draft, pa_acked := Some next_draft,
      pp_rangeSourceId := (if pp_rangeSourceId (remember t) \<noteq> [] then pp_rangeSourceId (remember t)
        else case d_sources next_draft of [] \<Rightarrow> [] | a # as \<Rightarrow> a_id a)\<rparr>"
    have u: "ops_ok {#UploadOp#} u" unfolding u_def using t by (intro ops_intros)
    have "ops_ok {#} (persist W (AfterReplace job d) (mark (set_pages ps u)))" for ps
      by (rule persist_ok) (use u in \<open>simp add: ops_of_parts\<close>)
    moreover have "ops_ok {#} (upload_added W job' d u)" "ops_ok {#} (upload_failed W e job u)" for job' e
      using u by (simp_all add: upload_added_ok upload_failed_ok)
    ultimately show ?thesis
      unfolding upload_answered_def Some sent Inr option.case prod.case sum.case Let_def t_def [symmetric] u_def [symmetric]
      by (simp split: option.split)
  qed
qed (use assms in \<open>simp add: upload_answered_def\<close>)

lemma save_score_ok:
  assumes "ops_ok {#} s"
  shows "ops_ok {#} (save_score W s)"
proof (cases "pp_draft s = None \<or> finalized s \<or> pp_busy s \<or> pp_finalizing s")
  case False
  obtain r t where t: "applyIMSLP W s = (r, t)" by fastforce
  have ok: "ops_ok {#} t" using same_ops_ok [OF applyIMSLP_keeps [OF t] assms] .
  have idle: "\<not> pp_busy t" using applyIMSLP_keeps [OF t] False by (simp add: same_ops_def)
  define u where "u = (invalidatePreview (t\<lparr>pp_finalizing := True\<rparr>))\<lparr>pp_busy := True, pp_error := [],
    pp_progress := js ''Preparing score''\<rparr>"
  have eq: "long_ops t = {#}" "flags_ok t" "waits_ok t" using ok idle by (simp_all add: ops_ok_def current_op_def)
  have "pp_foregroundWorker t = False"
    using eq(1,2) sum_ops_empty [of "\<lambda>a. worker_ops (snd a)" "pa_awaits t"] by (auto simp: flags_ok_def long_ops_def)
  moreover have "pp_uploading t = False" "pp_cancellable t = False" "pp_discarding t = False"
    using eq(2) idle by (auto simp: flags_ok_def)
  ultimately have "flags_ok u" unfolding u_def flags_ok_def invalidatePreview_def Let_def syncCancellable_def by simp
  moreover have "long_ops u = {#}" using eq(1) by (simp add: u_def long_ops_def)
  moreover have "current_op u = {#FinalizeOp#}" using \<open>pp_uploading t = False\<close> by (simp add: u_def current_op_def)
  moreover have "waits_ok u"
  proof -
    have "waits_ok (t\<lparr>pp_finalizing := True\<rparr>)" using eq(3) by (simp add: waits_ok_def)
    from invalidatePreview_waits [OF this] show ?thesis by (simp add: u_def waits_ok_def)
  qed
  ultimately have "ops_ok {#FinalizeOp#} u" by (simp add: ops_ok_def)
  then have "ops_ok {#} (persist W AfterFinalize u)" by (intro persist_ok) simp
  then show ?thesis using False ok unfolding save_score_def t prod.case u_def [symmetric]
    by (auto simp: ops_intros split: sum.split)
qed (use assms in \<open>simp add: save_score_def\<close>)

lemma finalize_answered_ok:
  assumes "ops_ok {#} s"
  shows "ops_ok {#} (finalize_answered W answer s)"
proof (cases "pa_finalize s")
  case (Some current)
  have eq: "long_ops s = current_op s" "flags_ok s" "waits_ok s" using assms by (simp_all add: ops_ok_def)
  define t where "t = s\<lparr>pa_finalize := None\<rparr>"
  have "long_ops s = add_mset FinalizeOp (long_ops t)" using Some by (simp add: t_def long_ops_def)
  moreover have "current_op t = current_op s" by (simp add: t_def current_op_def)
  moreover have "flags_ok t" "waits_ok t" using eq(2,3) by (simp_all add: t_def flags_ok_def waits_ok_def)
  ultimately have t: "ops_ok {#FinalizeOp#} t" by (rule taken_ok [OF assms])
  have over: "finalize_over (s'\<lparr>pa_finalize := None\<rparr>) = finalize_over s'" for s' by (simp add: finalize_over_def)
  have "ops_ok {#} (finalize_failed W m t)" for m by (rule finalize_failed_ok) (simp add: t)
  moreover have "finalize_failed W m t = finalize_failed W m s" for m by (simp add: t_def finalize_failed_def finalize_over_def)
  moreover have "ops_ok {#} (finalize_over (t\<lparr>pp_dirty := False, pp_draft := d, pp_completed := p, pp_destinations := ds\<rparr>))" for d p ds
  proof (rule finalize_over_ok)
    show "ops_ok {#FinalizeOp#} (t\<lparr>pp_dirty := False, pp_draft := d, pp_completed := p, pp_destinations := ds\<rparr>)"
      by (rule same_ops_ok [OF _ t]) (simp add: same_ops_def)
    show "\<not> pp_foregroundWorker (t\<lparr>pp_dirty := False, pp_draft := d, pp_completed := p, pp_destinations := ds\<rparr>)"
      using finalize_not_waiting [of "{#}" t] t by simp
  qed
  moreover have "finalize_over (t\<lparr>pp_dirty := False, pp_draft := d, pp_completed := p, pp_destinations := ds\<rparr>) =
      finalize_over (s\<lparr>pp_dirty := False, pp_draft := d, pp_completed := p, pp_destinations := ds\<rparr>)" for d p ds
    by (simp add: t_def finalize_over_def)
  ultimately show ?thesis using Some by (simp add: finalize_answered_def split: sum.split)
qed (use assms in \<open>simp add: finalize_answered_def\<close>)


text \<open>While the page is not busy nothing waits, and Cancel during a build means the final document.\<close>

lemma idle_flags:
  assumes "ops_ok {#} s" and "\<not> pp_busy s"
  shows "long_ops s = {#}" "\<not> pp_uploading s" "\<not> pp_finalizing s" "\<not> pp_discarding s" "\<not> pp_cancellable s"
    "\<not> pp_foregroundWorker s"
proof -
  show empty: "long_ops s = {#}" using assms by (simp add: ops_ok_def current_op_def)
  have f: "flags_ok s" using assms(1) by (simp add: ops_ok_def)
  show g: "\<not> pp_foregroundWorker s"
    using f empty sum_ops_empty [of "\<lambda>a. worker_ops (snd a)" "pa_awaits s"] by (auto simp: flags_ok_def long_ops_def)
  show "\<not> pp_uploading s" "\<not> pp_finalizing s" "\<not> pp_discarding s" "\<not> pp_cancellable s"
    using f g assms(2) by (auto simp: flags_ok_def)
qed

lemma sum_ops_subset: "x \<in> set xs \<Longrightarrow> f x \<subseteq># sum_list (map f xs)" for f :: "'a \<Rightarrow> LongOp multiset"
  by (induction xs) (auto intro: subset_mset.add_increasing subset_mset.add_increasing2)

lemma foreground_finalizing:
  assumes "ops_ok {#} s" and "pp_foregroundWorker s"
  shows "pp_busy s \<and> \<not> pp_uploading s \<and> pp_finalizing s"
proof -
  have eq: "long_ops s = current_op s" "flags_ok s" using assms(1) by (simp_all add: ops_ok_def)
  obtain a where "a \<in> set (pa_awaits s)" "worker_ops (snd a) = {#FinalizeOp#}"
    using eq(2) assms(2) by (auto simp: flags_ok_def)
  then have "{#FinalizeOp#} \<subseteq># sum_list (map (\<lambda>a. worker_ops (snd a)) (pa_awaits s))"
    using sum_ops_subset [of a "pa_awaits s" "\<lambda>a. worker_ops (snd a)"] by simp
  then have "FinalizeOp \<in># long_ops s" by (simp add: long_ops_def)
  then show ?thesis unfolding eq(1) by (auto simp: current_op_def split: if_splits)
qed

lemma client_change_ok:
  assumes "ops_ok m s" and "client_ok c" and "length (wc_calls (pp_workerClient s)) \<le> length (wc_calls c)"
  shows "ops_ok m (s\<lparr>pp_workerClient := c\<rparr>)"
  using assms waits_client [OF _ assms(2,3)] by (simp add: ops_ok_def long_ops_def current_op_def flags_ok_def)

lemma client_of: "ops_ok m s \<Longrightarrow> client_ok (pp_workerClient s)"
  by (simp add: ops_ok_def waits_ok_def)

lemma client_calls:
  "wc_calls (cancel c) = wc_calls c" "wc_calls (destroy c) = wc_calls c" "wc_calls (receive w r c) = wc_calls c"
  "wc_calls (worker_error w c) = wc_calls c"
  by (auto simp: cancel_def stopActive_fields destroy_def receive_def worker_error_def settle_def releaseWorker_def
      Let_def split: option.split)

lemma cancel_processing_ok:
  assumes "ops_ok {#} s"
  shows "ops_ok {#} (cancel_processing s)"
proof (cases "pp_cancellable s \<and> \<not> pp_uploading s")
  case True
  have eq: "long_ops s = current_op s" "flags_ok s" "waits_ok s" using assms by (simp_all add: ops_ok_def)
  then have f: "pp_finalizing s" using foreground_finalizing [OF assms] True by (auto simp: flags_ok_def)
  define t where "t = syncCancellable (s\<lparr>pp_workerClient := cancel (pp_workerClient s), pp_foregroundWorker := False,
    pp_uploadGeneration := pp_uploadGeneration s + 1\<rparr>)"
  have "ops_ok {#} (s\<lparr>pp_workerClient := cancel (pp_workerClient s)\<rparr>)"
    by (rule client_change_ok [OF assms]) (simp_all add: client_calls cancel_def stopActive_ok client_of [OF assms] stopActive_fields)
  then have "waits_ok t" "long_ops t = current_op t"
    by (simp_all add: t_def ops_ok_def waits_ok_def long_ops_def current_op_def)
  moreover have "flags_ok t" using eq(2) unfolding t_def syncCancellable_def flags_ok_def by simp
  ultimately have "ops_ok {#} t" by (simp add: ops_ok_def)
  then show ?thesis using True f by (simp add: cancel_processing_def Let_def t_def)
next
  case False
  define t where "t = (syncCancellable (s\<lparr>pp_uploadGeneration := pp_uploadGeneration s + 1,
    pp_skipRemainingUploads := True\<rparr>))\<lparr>pp_progress := js ''Finishing the current upload; remaining files cancelled.''\<rparr>"
  have "flags_ok s \<Longrightarrow> flags_ok t" unfolding t_def syncCancellable_def flags_ok_def by simp
  moreover have "long_ops t = long_ops s" "current_op t = current_op s" "waits_ok t = waits_ok s"
    by (simp_all add: t_def long_ops_def current_op_def waits_ok_def)
  ultimately have "ops_ok {#} t" using assms by (simp add: ops_ok_def)
  moreover have "cancel_processing s = (if \<not> pp_cancellable s then s else t)"
    using False unfolding cancel_processing_def t_def by simp
  ultimately show ?thesis using assms by simp
qed

lemma begin_deleting:
  assumes "ops_ok {#} s" and "\<not> pp_busy s"
    and "t = s\<lparr>pp_busy := True, pp_error := e, pp_discarding := b, pp_saveTimer := st, pp_dirty := di\<rparr>"
    and "job = (if b then DiscardDelete else DetailsDelete)" and "w = (if b then DiscardWaits else DetailsWaits)"
  shows "ops_ok {#} (t\<lparr>pa_waiters := pa_waiters t @ [w]\<rparr>)" "ops_ok {#} (delete_started job t)"
proof -
  note f = idle_flags [OF assms(1,2)]
  have w: "waits_ok s" using assms(1) by (simp add: ops_ok_def)
  show "ops_ok {#} (t\<lparr>pa_waiters := pa_waiters t @ [w]\<rparr>)" "ops_ok {#} (delete_started job t)"
    unfolding assms(3-5) using f w assms(2)
    by (cases b; simp add: ops_ok_def long_ops_def current_op_def flags_ok_def waits_ok_def delete_started_def)+
qed

lemma detailsWithoutPDF_ok:
  assumes "ops_ok {#} s"
  shows "ops_ok {#} (detailsWithoutPDF s)"
proof (cases "pp_busy s")
  case False
  define t where "t = s\<lparr>pp_busy := True, pp_error := pp_error s, pp_discarding := False,
    pp_saveTimer := pp_saveTimer s, pp_dirty := pp_dirty s\<rparr>"
  have "t = s\<lparr>pp_busy := True\<rparr>" using idle_flags(4) [OF assms False] by (simp add: t_def)
  with begin_deleting [OF assms False t_def, of DetailsDelete DetailsWaits] assms show ?thesis
    by (simp add: detailsWithoutPDF_def Let_def split: option.split)
qed (use assms in \<open>simp add: detailsWithoutPDF_def split: option.split\<close>)

lemma discard_draft_ok:
  assumes "ops_ok {#} s"
  shows "ops_ok {#} (discard_draft confirmed s)"
proof (cases "pp_busy s")
  case False
  define t where "t = s\<lparr>pp_busy := True, pp_error := [], pp_discarding := True, pp_saveTimer := False, pp_dirty := False\<rparr>"
  from begin_deleting [OF assms False t_def, of DiscardDelete DiscardWaits] assms show ?thesis
    unfolding discard_draft_def Let_def t_def [symmetric] by (simp split: option.split)
qed (use assms in \<open>simp add: discard_draft_def split: option.split\<close>)

lemma delete_answered_ok:
  assumes "ops_ok {#} s"
  shows "ops_ok {#} (delete_answered W answer s)"
proof (cases "pa_deleting s")
  case (Some job)
  define x where "x = (case job of DetailsDelete \<Rightarrow> DetailsOp | DiscardDelete \<Rightarrow> DiscardOp)"
  define t where "t = s\<lparr>pa_deleting := None\<rparr>"
  have eq: "flags_ok s" "waits_ok s" using assms by (simp_all add: ops_ok_def)
  have "long_ops s = add_mset x (long_ops t)" using Some by (cases job) (simp_all add: x_def t_def long_ops_def)
  moreover have "current_op t = current_op s" by (simp add: t_def current_op_def)
  moreover have "flags_ok t" "waits_ok t" using eq by (simp_all add: t_def flags_ok_def waits_ok_def)
  ultimately have t: "ops_ok {#x#} t" by (rule taken_ok [OF assms])
  have "pp_busy t \<and> \<not> pp_uploading t \<and> \<not> pp_finalizing t \<and> pp_discarding t = (job = DiscardDelete)"
    using in_hand(3,4) [of "{#}" t] t by (cases job) (simp_all add: x_def)
  moreover have "\<not> pp_foregroundWorker t" using ops_ok_single(1,4) [OF t] sum_ops_empty [of "\<lambda>a. worker_ops (snd a)" "pa_awaits t"]
    by (auto simp: flags_ok_def long_ops_def)
  moreover have "long_ops t = {#}" "flags_ok t" "waits_ok t" using ops_ok_single [OF t] by simp_all
  ultimately show ?thesis using Some
    by (cases job; cases answer)
      (simp_all add: t_def delete_answered_def discard_over_def fail_with_def ops_ok_def long_ops_def current_op_def
        flags_ok_def waits_ok_def)
qed (use assms in \<open>simp add: delete_answered_def\<close>)


lemma persist_now_ok: "continuation_ops k = {#} \<Longrightarrow> ops_ok {#} s \<Longrightarrow> ops_ok {#} (persist W k s)"
  by (rule persist_ok) simp

lemma saving_handlers_ok:
  assumes "ops_ok {#} s"
  shows "ops_ok {#} (canLeave W b s)" "ops_ok {#} (warnBeforeUnload W s)" "ops_ok {#} (save_timer_fired W s)"
    "ops_ok {#} (close_draft W s)" "ops_ok {#} (backFromPages W s)" "ops_ok {#} (selectWork W work s)"
  using assms
  by (auto simp: canLeave_def warnBeforeUnload_def save_timer_fired_def close_draft_def backFromPages_def selectWork_def
      Let_def intro!: persist_now_ok ops_intros invalidatePreview_ok split: option.split)

lemma linking_handlers_ok:
  assumes "ops_ok {#} s"
  shows "ops_ok {#} (continue_step W s)" "ops_ok {#} (openLink W s)"
proof -
  obtain r t where t: "applyIMSLP W s = (r, t)" by fastforce
  have "ops_ok {#} t" using same_ops_ok [OF applyIMSLP_keeps [OF t] assms] .
  then show "ops_ok {#} (continue_step W s)" "ops_ok {#} (openLink W s)"
    by (auto simp: continue_step_def openLink_def t intro!: persist_now_ok ops_intros split: sum.split option.split)
qed

lemma drop_files_ok: "ops_ok {#} s \<Longrightarrow> ops_ok {#} (drop_files W files s)"
  by (auto simp: drop_files_def Let_def intro!: uploadFiles_ok ops_intros)

lemma prepareInBackground_ok:
  assumes "ops_ok {#} s"
  shows "ops_ok {#} (prepareInBackground W s)"
proof (cases "pp_backgroundTimer s")
  case (Some b)
  have "ops_ok (worker_ops (WBackground b) + {#}) (s\<lparr>pp_backgroundTimer := None\<rparr>)" using keep_flags(14) [OF assms] by simp
  from run_worker_ok [OF this, of False W]
  have "ops_ok {#} (snd (run_worker W False (WBackground b) (s\<lparr>pp_backgroundTimer := None\<rparr>)))"
    by (simp split: if_splits)
  then show ?thesis using keep_flags(14) [OF assms] Some by (simp add: prepareInBackground_def Let_def)
qed (use assms in \<open>simp add: prepareInBackground_def\<close>)

lemma destroy_page_ok:
  assumes "ops_ok {#} s"
  shows "ops_ok {#} (destroy_page s)"
proof -
  define t where "t = invalidatePreview (s\<lparr>pp_destroyed := True, pp_imslp := destroy_search (pp_imslp s)\<rparr>)"
  have "ops_ok {#} (s\<lparr>pp_destroyed := True, pp_imslp := destroy_search (pp_imslp s)\<rparr>)"
    by (rule same_ops_ok [OF _ assms]) (simp add: same_ops_def)
  from invalidatePreview_ok [OF this] have t: "ops_ok {#} t" by (simp add: t_def)
  have "ops_ok {#} (t\<lparr>pp_workerClient := destroy (pp_workerClient t)\<rparr>)"
    by (rule client_change_ok [OF t]) (simp_all add: client_calls destroy_ok client_of [OF t])
  then have "ops_ok {#} (t\<lparr>pp_previewTimer := False, pp_backgroundTimer := None,
      pp_workerClient := destroy (pp_workerClient t), pp_preparedPages := cache_clear (pp_preparedPages t),
      pp_saveTimer := False\<rparr>)"
    by (rule same_ops_ok [rotated]) (simp add: same_ops_def)
  then show ?thesis unfolding destroy_page_def Let_def t_def [symmetric] by (rule same_ops_ok [OF same_ops_simps(1)])
qed

lemma worker_event_ok:
  assumes "ops_ok {#} s"
  shows "ops_ok {#} (s\<lparr>pp_workerClient := receive w r (pp_workerClient s)\<rparr>)"
    "ops_ok {#} (s\<lparr>pp_workerClient := worker_error w (pp_workerClient s)\<rparr>)"
  using client_of [OF assms]
  by (simp_all add: client_change_ok assms client_calls receive_ok worker_error_ok)

lemmas handlers_ok = apply_edit_ok view_handlers_ok saving_handlers_ok linking_handlers_ok drop_files_ok
  prepareInBackground_ok destroy_page_ok worker_event_ok save_answered_ok detailsWithoutPDF_ok discard_draft_ok
  delete_answered_ok uploadFiles_ok upload_answered_ok save_score_ok finalize_answered_ok cancel_processing_ok
  drawing_ended_ok setStep_ok

lemma handle_event_ok: "ops_ok {#} s \<Longrightarrow> ops_ok {#} (handle_event W e s)"
  by (cases e) (simp_all add: handlers_ok keep_flags more_keep_flags ops_of_parts)

definition ops_inv :: "PrepareComponent \<Rightarrow> bool" where
  "ops_inv s \<longleftrightarrow> ops_ok {#} s \<and> (\<forall>a \<in> set (pa_awaits s). unsettled s a)"

interpretation prepare_ops: machine "prepare_step W" ops_inv for W
proof
  show "ops_inv (prepare_step W e s)" if "ops_inv s" for s e
    using that settle_promises_ok [OF handle_event_ok] by (simp add: ops_inv_def prepare_step_def)
qed

lemma new_prepare_ops: "ops_inv new_prepare"
  by (simp add: ops_inv_def ops_defs new_prepare_def new_client_ok)

text \<open>What is awaited after a step is the request the worker is on.\<close>

lemma unsettled_active:
  assumes "client_ok c" and "p < length (wc_calls c)" and "map_of (wc_settled c) p = None"
  shows "map_option ar_promise (wc_active c) = Some p"
proof -
  have "p \<in> set (map fst (wc_settled c) @ map ar_promise (case wc_active c of None \<Rightarrow> [] | Some a \<Rightarrow> [a]))"
    using assms(2) promises_of_client [OF assms(1)] by simp
  moreover have "p \<notin> set (map fst (wc_settled c))" using assms(3) by (simp add: map_of_eq_None_iff)
  ultimately show ?thesis by (cases "wc_active c") auto
qed

lemma awaited_is_active:
  assumes "ops_inv s"
  shows "length (pa_awaits s) \<le> 1" "set (map fst (pa_awaits s)) \<subseteq> set_option (map_option ar_promise (wc_active (pp_workerClient s)))"
proof -
  have w: "waits_ok s" using assms by (simp add: ops_inv_def ops_ok_def)
  have "map_option ar_promise (wc_active (pp_workerClient s)) = Some (fst a)" if "a \<in> set (pa_awaits s)" for a
    using unsettled_active [of "pp_workerClient s" "fst a"] w assms that by (simp add: ops_inv_def waits_ok_def unsettled_def)
  then show sub: "set (map fst (pa_awaits s)) \<subseteq> set_option (map_option ar_promise (wc_active (pp_workerClient s)))" by auto
  have "length (map fst (pa_awaits s)) = card (set (map fst (pa_awaits s)))"
    using w by (simp only: waits_ok_def distinct_card)
  also have "\<dots> \<le> card (set_option (map_option ar_promise (wc_active (pp_workerClient s))))"
    by (rule card_mono [OF _ sub]) simp
  also have "\<dots> \<le> 1" by (cases "wc_active (pp_workerClient s)") simp_all
  finally show "length (pa_awaits s) \<le> 1" by simp
qed

text \<open>C8: The page is busy with exactly one operation at a time and never for nothing. Whatever the user,
  the server, the drawings and the worker do and in whatever order, the operations that wait -
  over all saves, files on their way, drawings, worker requests and deletions - are exactly the
  one the page shows it is busy with, and none when it is not busy. At most one answer of the
  worker is awaited, the one to the request the worker is on, and Cancel is offered exactly while
  files remain to be sent or the final document is being made.\<close>

theorem one_operation_at_a_time:
  "let s = fold (prepare_step W) es new_prepare
   in long_ops s = current_op s \<and>
      set (map fst (pa_awaits s)) \<subseteq> set_option (map_option ar_promise (wc_active (pp_workerClient s))) \<and>
      length (pa_awaits s) \<le> 1 \<and>
      pp_cancellable s = ((pp_uploading s \<and> \<not> pp_skipRemainingUploads s) \<or> (pp_finalizing s \<and> pp_foregroundWorker s))"
proof -
  define s where "s = fold (prepare_step W) es new_prepare"
  have inv: "ops_inv s" unfolding s_def by (rule prepare_ops.run_inv [OF new_prepare_ops])
  then have ok: "ops_ok {#} s" by (simp add: ops_inv_def)
  have "pp_cancellable s = ((pp_uploading s \<and> \<not> pp_skipRemainingUploads s) \<or> (pp_finalizing s \<and> pp_foregroundWorker s))"
    using ok foreground_finalizing [OF ok] by (auto simp: ops_ok_def flags_ok_def)
  then show ?thesis using ok awaited_is_active [OF inv] unfolding s_def [symmetric] Let_def by (simp add: ops_ok_def)
qed

end
