(* ===== verification/PrepareQuiet.thy ===== *)
theory PrepareQuiet
  imports PrepareFrames
begin

text \<open>
  Steps that only draw, show or wait. What a relation between states ignores is left alone by all
  of them at once: it is enough that the small steps keep the relation. The invariants on edits
  and on pages each instantiate this.
\<close>

locale quiet_steps =
  fixes R :: "PrepareComponent \<Rightarrow> PrepareComponent \<Rightarrow> bool"
  assumes refl: "R s s"
    and trans: "R s t \<Longrightarrow> R t u \<Longrightarrow> R s u"
    and invalidate: "R s (invalidatePreview s)"
    and reconcile: "R s (reconcilePreparedKeys s)"
    and background: "R s (scheduleBackgroundPrepare page source revision s)"
    and shown: "R s (show_preview url aspect s)"
    and failing: "R s (fail_with W e s)"
    and stepping: "R s (setStep step s)"
    and drawing: "R s (start_drawing job' s)"
    and worker: "R s (snd (run_worker W foreground wjob s))"
    and worker_over: "R s (worker_finally True s)"
    and upload_over: "R s (upload_finally job s)"
    and finalize_fails: "R s (finalize_failed W m s)"
    and field_error: "R s (s\<lparr>pp_error := m\<rparr>)"
    and field_preview: "R s (s\<lparr>pp_preview := m\<rparr>)"
    and field_timer: "R s (s\<lparr>pp_previewTimer := b\<rparr>)"
    and field_background: "R s (s\<lparr>pp_backgroundTimer := bt\<rparr>)"
    and field_pages: "R s (s\<lparr>pp_preparedPages := c\<rparr>)"
    and field_finalize: "R s (s\<lparr>pa_finalize := fin\<rparr>)"
    and field_sent: "R s (s\<lparr>pp_progress := m, pa_upload := sent\<rparr>)"
    and field_previews: "R s (s\<lparr>pa_previews := ps\<rparr>)"
    and field_awaits: "R s (s\<lparr>pa_awaits := aw\<rparr>)"
    and field_blob: "R s (s\<lparr>pp_objectURL := url', pa_drawings := n\<rparr>)"
begin

lemma preview_over_quiet: "R s t \<Longrightarrow> R s (preview_over up t)"
  by (cases up) (auto simp: preview_over_def intro: trans upload_over)

lemma preview_failed_quiet: "R s t \<Longrightarrow> R s (preview_failed W revision e up t)"
  by (auto simp: preview_failed_def intro!: preview_over_quiet intro: trans failing)

lemma run_worker_quiet:
  assumes "R s t"
  shows "case run_worker W False job t of (True, u) \<Rightarrow> R s u | (False, u) \<Rightarrow> R s (preview_failed W revision e up u)"
  using trans [OF assms worker [of t W False job]]
  by (cases "run_worker W False job t") (auto intro: preview_failed_quiet split: bool.split)

lemma renderAuthoritativePreview_quiet: "R s t \<Longrightarrow> R s (renderAuthoritativePreview W page revision source up t)"
  using run_worker_quiet [of s t, where W = W and job = "WBuild page revision source up" and revision = revision and
      e = "we_factory W" and up = up]
  by (cases "run_worker W False (WBuild page revision source up) t")
     (auto simp: renderAuthoritativePreview_def split: bool.split)

lemma render_preview_quiet: "R s (render_preview W up s)"
proof -
  define t where "t = invalidatePreview (s\<lparr>pp_previewTimer := False\<rparr>)"
  have t: "R s t" unfolding t_def by (rule trans [OF field_timer invalidate])
  have "R s (start_drawing job t)" for job by (rule trans [OF t drawing])
  moreover have "R s (preview_over up (t\<lparr>pp_preview := []\<rparr>))"
    by (rule preview_over_quiet) (rule trans [OF t field_preview])
  ultimately show ?thesis unfolding render_preview_def Let_def t_def [symmetric]
    by (simp add: field_timer renderAuthoritativePreview_quiet [OF t] split: option.split)
qed

lemma drawing_stopped_quiet: "R s t \<Longrightarrow> R s (drawing_stopped W revision e up t)"
  by (auto simp: drawing_stopped_def intro: preview_over_quiet preview_failed_quiet split: option.split)

lemma shown_background: "R s (scheduleBackgroundPrepare page source revision (show_preview url aspect s))"
  by (rule trans [OF shown background])

lemma drawing_done_quiet: "R s (drawing_done W job outcome s)"
proof (cases job)
  case (RasterLoad page source revision plain up)
  show ?thesis
    using run_worker_quiet [OF refl, where s = s and W = W and job = "WPreview page source revision up" and
        revision = revision and e = "we_factory W" and up = up]
    by (auto simp: drawing_done_def RasterLoad refl drawing_stopped_quiet preview_over_quiet renderAuthoritativePreview_quiet
        shown_background split: sum.splits prod.splits bool.splits)
next
  case (CanvasLoad revision up)
  then show ?thesis
    by (auto simp: drawing_done_def drawing_stopped_quiet refl shown preview_over_quiet split: sum.split)
next
  case (PdfDrawing page revision source up)
  then show ?thesis
    by (auto simp: drawing_done_def Let_def drawing_stopped_quiet refl shown shown_background
        intro!: preview_over_quiet split: sum.split option.split)
qed

lemma drawing_ended_quiet: "R s (drawing_ended W n outcome s)"
  by (auto simp: drawing_ended_def intro: refl trans [OF field_previews drawing_done_quiet] split: option.split)

lemma finalize_failed_quiet: "R s t \<Longrightarrow> R s (finalize_failed W m t)"
  by (rule trans [OF _ finalize_fails])

lemma build_settled_quiet: "R s (build_settled W current outcome s)"
proof -
  define t where "t = worker_finally True s"
  have t: "R s t" unfolding t_def by (rule worker_over)
  then show ?thesis unfolding build_settled_def Let_def t_def [symmetric]
    by (auto simp: finalize_failed_quiet trans [OF t field_finalize] split: Settlement.split option.split)
qed

lemma worker_settled_quiet: "R s (worker_settled W job outcome s)"
proof (cases job)
  case (WPreview page source revision up)
  have "R s ((show_preview url aspect s)\<lparr>pp_objectURL := u, pa_drawings := n\<rparr>)" for url aspect u n
    by (rule trans [OF shown field_blob])
  then show ?thesis
    by (auto simp: worker_settled_def WPreview Let_def preview_failed_quiet refl
        intro!: preview_over_quiet trans [OF _ background] split: Settlement.split)
next
  case (WBuild page revision source up)
  then show ?thesis
    by (auto simp: worker_settled_def preview_failed_quiet refl background drawing
        intro!: preview_over_quiet split: Settlement.split option.split)
next
  case (WBackground b)
  then show ?thesis by (auto simp: worker_settled_def refl field_pages split: Settlement.split option.split)
next
  case (WFinal d)
  then show ?thesis by (simp add: worker_settled_def build_settled_quiet)
qed

lemma settle_promises_quiet: "R s (settle_promises W s)"
proof -
  have step: "R t (settle_promise W a t)" for a t
    by (auto simp: settle_promise_def intro: refl trans [OF field_awaits worker_settled_quiet] split: option.split)
  have "R t (fold (settle_promise W) as t)" for as t
  proof (induction as arbitrary: t)
    case (Cons a as)
    show ?case using trans [OF step Cons.IH] by simp
  qed (simp add: refl)
  then show ?thesis by (simp add: settle_promises_def)
qed

lemma upload_failed_quiet: "R s t \<Longrightarrow> R s (upload_failed W e job t)"
  by (auto simp: upload_failed_def intro: trans [OF trans [OF _ field_error] upload_over])

lemma upload_ended_quiet: "R s (upload_ended W job s)"
proof -
  define t where "t = reconcilePreparedKeys (if uj_stay job then s else setStep PagesStep s)"
  have "R s (if uj_stay job then s else setStep PagesStep s)" by (simp add: refl stepping)
  then have "R s t" unfolding t_def by (rule trans [OF _ reconcile])
  then have "R s (if uj_omitted job then t\<lparr>pp_error := omitted_note\<rparr> else t)"
    by (auto intro: trans field_error)
  from trans [OF this render_preview_quiet] show ?thesis
    unfolding upload_ended_def Let_def t_def [symmetric] .
qed

lemma upload_next_quiet: "R s (upload_next W job s)"
  by (auto simp: upload_next_def Let_def upload_ended_quiet upload_failed_quiet refl field_sent split: option.split)

lemma start_build_quiet: "R s (start_build W s)"
proof (cases "pp_draft s")
  case (Some current)
  define t where "t = s\<lparr>pp_preparedPages := fold (\<lambda>key c. snd (cache_take c key))
    (remdups (List.map_filter (prepared_key_of current) (m_pages (d_manifest current)))) (pp_preparedPages s)\<rparr>"
  have "R s t" unfolding t_def by (rule field_pages)
  from trans [OF this worker [of t W True "WFinal current"]] show ?thesis
    unfolding start_build_def Some option.case Let_def t_def [symmetric]
    by (cases "run_worker W True (WFinal current) t") (auto intro: finalize_failed_quiet split: bool.split)
qed (simp add: start_build_def finalize_failed_quiet refl)

lemma prepareInBackground_quiet: "R s (prepareInBackground W s)"
  by (auto simp: prepareInBackground_def Let_def refl field_background intro: trans [OF field_background worker]
      split: option.split)

end

end
