(* ===== verification/PrepareEdits.thy ===== *)
theory PrepareEdits
  imports PrepareOps PrepareQuiet
begin

text \<open>
  Edits of a draft are not forgotten. What the page shows is what the server last confirmed,
  unless a save is under way that holds it, or the draft is marked as changed. So leaving the
  page without being asked loses nothing.
\<close>

text \<open>A draft without what the server counts: its revision and time.\<close>

definition draft_content :: "ImportDraft \<Rightarrow> ImportDraft" where
  "draft_content d = d\<lparr>d_revision := 0, d_updatedAt := []\<rparr>"

definition kept :: "PrepareComponent \<Rightarrow> bool" where
  "kept s \<longleftrightarrow> (case pp_draft s of
     None \<Rightarrow> True
   | Some d \<Rightarrow> d_finalized d \<or> pp_dirty s \<or>
       (case pa_pendingSave s of
          Some snapshot \<Rightarrow> draft_content snapshot = draft_content d
        | None \<Rightarrow> map_option draft_content (pa_acked s) = Some (draft_content d)))"

text \<open>Nobody has asked to delete the draft.\<close>

definition no_deletion :: "PrepareComponent \<Rightarrow> bool" where
  "no_deletion s \<longleftrightarrow> \<not> pp_discarding s \<and> pa_deleting s = None \<and> (\<forall>w \<in> set (pa_waiters s). deletion_ops w = {#})"

section \<open>Steps that change no edit\<close>

definition same_edits :: "PrepareComponent \<Rightarrow> PrepareComponent \<Rightarrow> bool" where
  "same_edits s t \<longleftrightarrow> pp_draft t = pp_draft s \<and> pa_pendingSave t = pa_pendingSave s \<and> pa_acked t = pa_acked s \<and>
     pp_dirty t = pp_dirty s \<and> pp_discarding t = pp_discarding s \<and> pa_deleting t = pa_deleting s \<and>
     pa_waiters t = pa_waiters s \<and> pp_saveTimer t = pp_saveTimer s \<and> pa_saves t = pa_saves s"

lemma same_edits_kept: "same_edits s t \<Longrightarrow> kept t = kept s" "same_edits s t \<Longrightarrow> no_deletion t = no_deletion s"
  by (simp_all add: same_edits_def kept_def no_deletion_def split: option.split)

lemma same_edits_refl [simp]: "same_edits s s"
  by (simp add: same_edits_def)

lemma same_edits_trans [trans]: "same_edits s t \<Longrightarrow> same_edits t u \<Longrightarrow> same_edits s u"
  by (simp add: same_edits_def)

lemma same_edits_parts:
  "same_edits s (syncCancellable s)" "same_edits s (revokePreviewURL s)" "same_edits s (invalidatePreview s)"
  "same_edits s (reconcilePreparedKeys s)" "same_edits s (remember s)" "same_edits s (startGesture s)"
  "same_edits s (endGesture s)" "same_edits s (scheduleBackgroundPrepare page source revision s)"
  "same_edits s (show_preview url aspect s)" "same_edits s (fail_with W e s)" "same_edits s (setStep step s)"
  "same_edits s (on_imslp g s)" "same_edits s (skipped_note sk s)" "same_edits s (start_drawing job s)"
  unfolding same_edits_def
  by (simp_all add: syncCancellable_def revokePreviewURL_def invalidatePreview_def Let_def reconcilePreparedKeys_def
      remember_def startGesture_def endGesture_def scheduleBackgroundPrepare_def show_preview_def fail_with_def
      setStep_def on_imslp_def skipped_note_def start_drawing_def split: option.split)


lemma same_edits_fields:
  "same_edits s (s\<lparr>pp_error := e\<rparr>)" "same_edits s (s\<lparr>pp_progress := p\<rparr>)" "same_edits s (s\<lparr>pp_selected := i\<rparr>)"
  "same_edits s (s\<lparr>pp_replaceID := r\<rparr>)" "same_edits s (s\<lparr>pp_preview := jv\<rparr>)" "same_edits s (s\<lparr>pp_previewTimer := b\<rparr>)"
  "same_edits s (s\<lparr>pp_destinations := ds\<rparr>)" "same_edits s (s\<lparr>pa_left := l\<rparr>)" "same_edits s (s\<lparr>pp_preparedPages := c\<rparr>)"
  "same_edits s (s\<lparr>pa_finalize := fin\<rparr>)" "same_edits s (s\<lparr>pp_progress := p, pa_upload := up\<rparr>)"
  "same_edits s (s\<lparr>pa_previews := ps\<rparr>)" "same_edits s (s\<lparr>pa_awaits := aw\<rparr>)" "same_edits s (s\<lparr>pp_backgroundTimer := bt\<rparr>)"
  "same_edits s (s\<lparr>pp_foregroundWorker := b\<rparr>)" "same_edits s (s\<lparr>pp_workerClient := wc\<rparr>)"
  by (simp_all add: same_edits_def)

lemma run_worker_edits: "same_edits s (snd (run_worker W foreground job s))"
  by (simp add: run_worker_def Let_def same_edits_def syncCancellable_def split: prod.split option.split)

lemma upload_finally_edits: "same_edits s (upload_finally job s)"
  unfolding upload_finally_def Let_def skipped_note_def syncCancellable_def by (simp add: same_edits_def)

interpretation edits: quiet_steps same_edits
  by unfold_locales
    ((rule same_edits_refl same_edits_parts run_worker_edits upload_finally_edits) |
     (rule same_edits_trans; assumption) |
     (simp add: same_edits_def finalize_failed_def finalize_over_def worker_finally_def syncCancellable_def))+

lemmas upload_failed_edits = edits.upload_failed_quiet
lemmas upload_next_edits = edits.upload_next_quiet
lemmas start_build_edits = edits.start_build_quiet
lemmas finalize_failed_edits = edits.finalize_failed_quiet
lemmas render_preview_edits = edits.render_preview_quiet
lemmas drawing_ended_edits = edits.drawing_ended_quiet
lemmas settle_promises_edits = edits.settle_promises_quiet

section \<open>Going on after a save\<close>

lemma upload_added_edits: "same_edits s (upload_added W job old s)"
  unfolding upload_added_def Let_def by (rule same_edits_trans [OF same_edits_fields(3) upload_next_edits])

lemma resume_save_edits: "same_edits s (resume_save W k outcome s)"
proof (cases k)
  case (AfterUpload job)
  then show ?thesis
    by (auto simp: resume_save_def upload_failed_edits intro: same_edits_trans [OF same_edits_fields(4) upload_next_edits]
        split: sum.split)
next
  case (AfterReplace job old)
  have "same_edits s ((reconcilePreparedKeys s)\<lparr>pp_replaceID := None\<rparr>)"
    by (rule same_edits_trans [OF same_edits_parts(4) same_edits_fields(4)])
  from same_edits_trans [OF this upload_added_edits] show ?thesis
    by (auto simp: resume_save_def AfterReplace upload_failed_edits split: sum.split)
qed (auto simp: resume_save_def same_edits_parts same_edits_fields start_build_edits finalize_failed_edits
    intro: same_edits_trans [OF same_edits_parts(10) same_edits_fields(8)] split: sum.split)


section \<open>Saving and editing\<close>

definition safe :: "PrepareComponent \<Rightarrow> bool" where
  "safe s \<longleftrightarrow> kept s \<and> no_deletion s"

lemma same_edits_safe: "same_edits s t \<Longrightarrow> safe s \<Longrightarrow> safe t"
  using same_edits_kept [of s t] by (simp add: safe_def)

lemma persist_call_safe: "safe s \<Longrightarrow> safe (snd (persist_call k s))"
  by (auto simp: persist_call_def Let_def safe_def kept_def no_deletion_def split: option.split)

lemma persist_safe: "safe s \<Longrightarrow> safe (persist W k s)"
  using persist_call_safe [of s k] same_edits_safe [OF resume_save_edits] by (auto simp: persist_def split: prod.split)

lemma save_settled_safe:
  assumes "safe s" and "pa_pendingSave s = Some snapshot"
  shows "safe ((save_settled answer snapshot s)\<lparr>pa_pendingSave := None, pa_waiters := []\<rparr>)"
  using assms
  by (auto simp: safe_def kept_def no_deletion_def save_settled_def draft_content_def split: sum.split prod.split option.splits)

lemma wake_waiters_safe:
  "safe s \<Longrightarrow> fold (wake_waiter outcome) ws (ready, s) = (ready', s') \<Longrightarrow> safe s'"
proof (induction ws arbitrary: ready s)
  case (Cons w ws)
  obtain r t where t: "wake_waiter outcome w (ready, s) = (r, t)" by fastforce
  have "t = s \<or> (\<exists>k. t = snd (persist_call k s))"
    using t by (cases w) (auto simp: wake_waiter_def case_prod_unfold split: sum.splits if_splits)
  then have "safe t" using Cons.prems(1) persist_call_safe [OF Cons.prems(1)] by auto
  then show ?case using Cons.IH Cons.prems(2) t by simp
qed simp

lemma wake_deletings_same:
  "\<forall>w \<in> set ws. deletion_ops w = {#} \<Longrightarrow> fold (wake_deleting W outcome) ws s = s"
proof (induction ws)
  case (Cons w ws)
  then have "wake_deleting W outcome w s = s" by (cases w) (simp_all add: wake_deleting_def)
  then show ?case using Cons by simp
qed simp

lemma resume_all_edits: "same_edits s (fold (\<lambda>(k, outcome). resume_save W k outcome) ready s)"
proof (induction ready arbitrary: s)
  case (Cons r ready)
  obtain k outcome where r: "r = (k, outcome)" by fastforce
  show ?case using same_edits_trans [OF resume_save_edits Cons.IH] r by simp
qed simp

lemma save_answered_safe:
  assumes "safe s"
  shows "safe (save_answered W answer s)"
proof (cases "pa_pendingSave s")
  case (Some snapshot)
  define outcome where "outcome = (case answer of Inl e \<Rightarrow> Inl e | Inr _ \<Rightarrow> Inr ())"
  define t where "t = (save_settled answer snapshot s)\<lparr>pa_pendingSave := None, pa_waiters := []\<rparr>"
  have t: "safe t" unfolding t_def by (rule save_settled_safe [OF assms Some])
  have d: "fold (wake_deleting W outcome) (pa_waiters s) t = t"
    using assms by (intro wake_deletings_same) (simp add: safe_def no_deletion_def)
  obtain ready u where u: "fold (wake_waiter outcome) (pa_waiters s) ([], t) = (ready, u)" by fastforce
  have "safe (fold (\<lambda>(k, outcome). resume_save W k outcome) ready u)"
    by (rule same_edits_safe [OF resume_all_edits wake_waiters_safe [OF t u]])
  then show ?thesis
    unfolding save_answered_def Some option.case Let_def t_def [symmetric] outcome_def [symmetric] d by (simp add: u)
qed (use assms in \<open>simp add: save_answered_def\<close>)

text \<open>An edit marks the draft as changed.\<close>

lemma mark_safe: "no_deletion s \<Longrightarrow> \<not> pp_finalizing s \<Longrightarrow> safe (mark s)"
  by (auto simp: safe_def mark_def kept_def no_deletion_def finalized_def split: option.splits)

lemma changed_safe:
  assumes "no_deletion s" and "\<not> pp_finalizing s"
  shows "safe (changed s)"
proof -
  define t where "t = reconcilePreparedKeys (invalidatePreview s)"
  have "same_edits s t" unfolding t_def by (rule same_edits_trans [OF same_edits_parts(3) same_edits_parts(4)])
  moreover have "pp_finalizing t = pp_finalizing s" by (simp add: t_def)
  ultimately have "safe (mark t)" using assms same_edits_kept(2) [of s t] by (intro mark_safe) simp_all
  then show ?thesis unfolding changed_def t_def [symmetric] by (rule same_edits_safe [OF same_edits_fields(6)])
qed

lemma no_deletion_parts:
  "no_deletion (set_pages ps s) = no_deletion s" "no_deletion (set_manifest m s) = no_deletion s"
  "no_deletion (edit_page f s) = no_deletion s" "no_deletion (remember s) = no_deletion s"
  "no_deletion (startGesture s) = no_deletion s" "no_deletion (endGesture s) = no_deletion s"
  "no_deletion (mark s) = no_deletion s" "no_deletion (reconcilePreparedKeys s) = no_deletion s"
  by (simp_all add: no_deletion_def)

lemma idle_not_finalizing: "ops_ok {#} s \<Longrightarrow> \<not> pp_busy s \<Longrightarrow> \<not> pp_finalizing s"
  by (rule idle_flags)


lemma apply_edit_safe:
  assumes "safe s" and "ops_ok {#} s"
  shows "safe (apply_edit W e s)"
proof -
  have n: "no_deletion s" using assms(1) by (simp add: safe_def)
  have idle: "\<not> pp_finalizing s" if "\<not> pp_busy s" using idle_not_finalizing [OF assms(2) that] .
  have keep: "no_deletion (s\<lparr>pp_selected := i\<rparr>) = no_deletion s" for i by (simp add: no_deletion_def)
  have k: "safe (s\<lparr>pp_error := e\<rparr>)" for e by (rule same_edits_safe [OF same_edits_fields(1) assms(1)])
  have g: "safe (startGesture s)" "safe (endGesture s)" by (rule same_edits_safe [OF _ assms(1)], rule same_edits_parts)+
  have u: "no_deletion (t\<lparr>pp_draft := d\<rparr>) = no_deletion t" "no_deletion (t\<lparr>pp_selected := i\<rparr>) = no_deletion t"
    "no_deletion (t\<lparr>pp_handles := h\<rparr>) = no_deletion t" "no_deletion (t\<lparr>pp_uuids := nn\<rparr>) = no_deletion t"
    "no_deletion (t\<lparr>pp_pendingEdges := pe\<rparr>) = no_deletion t" "no_deletion (t\<lparr>pp_compare := b\<rparr>) = no_deletion t" for t d i h nn pe b
    by (simp_all add: no_deletion_def)
  show ?thesis
  proof (cases e)
    case Rotate
    then show ?thesis using assms(1) n idle
      by (auto simp: rotate_page_def no_deletion_parts intro!: same_edits_safe [OF same_edits_parts(7)] changed_safe)
  next
    case (Metadata f)
    then show ?thesis using assms(1) n by (auto simp: updateMetadata_def u intro!: mark_safe)
  qed (use assms(1) n idle g k in \<open>auto simp: changeMargin_def change_def changePaperStrength_def resetPage_def
        resetAll_def move_page_def remove_page_def keepSelected_def useRange_def applyEdges_def Let_def no_deletion_parts u
        intro!: changed_safe split: option.split sum.split\<close>)
qed

lemma undo_safe:
  assumes "safe s" and "ops_ok {#} s"
  shows "safe (undo W s)"
proof (cases "pp_busy s \<or> pp_history (endGesture s) = []")
  case False
  define m where "m = last (pp_history (endGesture s))"
  define t where "t = (set_manifest m ((endGesture s)\<lparr>pp_history := butlast (pp_history (endGesture s))\<rparr>))"
  define u where "u = reconcilePreparedKeys (t\<lparr>pp_selected := min (pp_selected t) (int (length (m_pages m)) - 1)\<rparr>)"
  have "no_deletion s" "\<not> pp_finalizing s"
    using assms idle_not_finalizing [OF assms(2)] False by (simp_all add: safe_def)
  then have "safe (mark u)" by (intro mark_safe) (simp_all add: u_def t_def no_deletion_def)
  from same_edits_safe [OF render_preview_edits this] show ?thesis using False
    unfolding undo_def Let_def m_def [symmetric] t_def [symmetric] u_def [symmetric] by simp
qed (use assms in \<open>auto simp: undo_def Let_def intro: same_edits_safe [OF same_edits_parts(7)]\<close>)

text \<open>Handlers that only show something.\<close>

lemma view_edits:
  "same_edits s (choose_page W i s)" "same_edits s (toggle_page j s)" "same_edits s (setCompare W v s)"
  "same_edits s (beginEdges W s)" "same_edits s (cancelEdges W s)" "same_edits s (resetPendingEdges s)"
  "same_edits s (move_pending_edge i x y r s)" "same_edits s (preview_timer_fired W s)" "same_edits s (chooseSource mode s)"
  "same_edits s (dragOver b s)" "same_edits s (dragLeave b s)" "same_edits s (changeWork s)"
  "same_edits s (cancel_processing s)" "same_edits s (setStep step s)" "same_edits s (drawing_ended W n outcome s)"
  "same_edits s (prepareInBackground W s)"
proof -
  have "same_edits s ((endGesture s)\<lparr>pp_selected := int i, pp_handles := None\<rparr>)" "same_edits s (s\<lparr>pp_compare := v\<rparr>)"
    "same_edits s (edges_started s)"
    "same_edits s (s\<lparr>pp_handles := None, pp_pendingEdges := [], pp_compare := pp_edgeCompare s\<rparr>)"
    "same_edits s (s\<lparr>pp_previewTimer := False\<rparr>)"
    by (simp_all add: same_edits_def edges_started_def endGesture_def split: option.split)
  note drawn = this [THEN same_edits_trans [OF _ render_preview_edits]]
  show "same_edits s (choose_page W i s)" "same_edits s (setCompare W v s)" "same_edits s (beginEdges W s)"
    "same_edits s (cancelEdges W s)" "same_edits s (preview_timer_fired W s)"
    using drawn by (simp_all add: choose_page_def setCompare_def beginEdges_def cancelEdges_def preview_timer_fired_def)
  show "same_edits s (setStep step s)" "same_edits s (drawing_ended W n outcome s)"
    by (simp_all add: same_edits_parts drawing_ended_edits)
  show "same_edits s (toggle_page j s)" "same_edits s (resetPendingEdges s)" "same_edits s (move_pending_edge i x y r s)"
    "same_edits s (chooseSource mode s)" "same_edits s (dragOver b s)" "same_edits s (dragLeave b s)"
    "same_edits s (changeWork s)" "same_edits s (cancel_processing s)"
    by (simp_all add: same_edits_def toggle_page_def resetPendingEdges_def move_pending_edge_def chooseSource_def dragOver_def
        dragLeave_def changeWork_def on_imslp_def cancel_processing_def syncCancellable_def Let_def split: option.split)
  show "same_edits s (prepareInBackground W s)"
    by (rule edits.prepareInBackground_quiet)
qed

lemmas view_safe = view_edits [THEN same_edits_safe]

section \<open>Links, uploads and the end\<close>

text \<open>
  A link is sound when it is not refused after it has been stored: a work link whose name is not
  valid percent-encoding is the exception.
\<close>

definition link_sound :: "prepare_web \<Rightarrow> PrepareComponent \<Rightarrow> bool" where
  "link_sound W s \<longleftrightarrow> (case pp_draft s of
     None \<Rightarrow> True
   | Some d \<Rightarrow> (case linkIMSLPWork (we_url W) d (im_link (pp_imslp s)) of
         (Inl e, d') \<Rightarrow> d' = d
       | (Inr href, d') \<Rightarrow> True))"

lemma applyIMSLP_safe:
  assumes "safe s" and "\<not> pp_finalizing s" and "link_sound W s" and "applyIMSLP W s = (r, t)"
  shows "safe t"
proof -
  have "t = s \<or> (\<exists>d. t = mark (s\<lparr>pp_draft := Some d\<rparr>))"
    using assms(3,4) by (auto simp: applyIMSLP_def link_sound_def split: if_splits option.splits prod.splits sum.splits)
  moreover have "safe (mark (s\<lparr>pp_draft := Some d\<rparr>))" for d
    using assms(1,2) by (intro mark_safe) (simp_all add: safe_def no_deletion_def)
  ultimately show ?thesis using assms(1) by auto
qed

lemma uploadFiles_safe:
  assumes "safe s" and "ops_ok {#} s" and "link_sound W s"
  shows "safe (uploadFiles W files replace skipped s)"
proof (cases "pp_busy s \<or> files = []")
  case False
  define t where "t = (syncCancellable (s\<lparr>pp_busy := True, pp_error := [], pp_uploading := True,
    pp_skipRemainingUploads := False\<rparr>))\<lparr>pp_uploadGeneration := pp_uploadGeneration s + 1\<rparr>"
  have "same_edits s t" by (simp add: t_def same_edits_def syncCancellable_def)
  then have t: "safe t" by (rule same_edits_safe [OF _ assms(1)])
  have f: "\<not> pp_finalizing t" using idle_not_finalizing [OF assms(2)] False by (simp add: t_def)
  have eq: "pp_draft t = pp_draft s" "pp_imslp t = pp_imslp s" by (simp_all add: t_def syncCancellable_def)
  have l: "link_sound W t" using assms(3) unfolding link_sound_def eq .
  obtain r u where u: "applyIMSLP W t = (r, u)" by fastforce
  have ok: "safe u" by (rule applyIMSLP_safe [OF t f l u])
  have gen: "pp_uploadGeneration (syncCancellable (s\<lparr>pp_busy := True, pp_error := [], pp_uploading := True,
      pp_skipRemainingUploads := False\<rparr>)) = pp_uploadGeneration s" by simp
  show ?thesis using False persist_safe [OF ok] same_edits_safe [OF upload_failed_edits [OF same_edits_refl] ok]
    unfolding uploadFiles_def Let_def gen t_def [symmetric] by (simp add: u split: sum.split)
qed (use assms in \<open>auto simp: uploadFiles_def intro: same_edits_safe [OF same_edits_parts(13)]\<close>)

lemma upload_answered_safe:
  assumes "safe s" and "ops_ok {#} s" and "pa_pendingSave s = None \<or> (\<exists>e. answer = Inl e)"
  shows "safe (upload_answered W answer s)"
proof (cases "pa_upload s")
  case (Some sent)
  obtain job d where sent: "sent = (job, d)" by fastforce
  define t where "t = s\<lparr>pa_upload := None\<rparr>"
  have t: "safe t" unfolding t_def by (rule same_edits_safe [OF _ assms(1)]) (simp add: same_edits_def)
  have "UploadOp \<in># long_ops s" using Some by (simp add: long_ops_def)
  then have f: "\<not> pp_finalizing s" using assms(2) by (auto simp: ops_ok_def current_op_def flags_ok_def split: if_splits)
  show ?thesis
  proof (cases answer)
    case (Inl e)
    then show ?thesis using t Some sent same_edits_safe [OF upload_failed_edits [OF same_edits_refl] t]
      by (simp add: upload_answered_def t_def)
  next
    case (Inr next_draft)
    define u where "u = (remember t)\<lparr>pp_draft := Some next_draft, pa_acked := Some next_draft,
      pp_rangeSourceId := (if pp_rangeSourceId (remember t) \<noteq> [] then pp_rangeSourceId (remember t)
        else case d_sources next_draft of [] \<Rightarrow> [] | a # as \<Rightarrow> a_id a)\<rparr>"
    have u: "safe u" "\<not> pp_finalizing u" using t f assms(3) Inr
      by (auto simp: u_def t_def safe_def kept_def no_deletion_def)
    have "safe (persist W (AfterReplace job d) (mark (set_pages ps u)))" for ps
      by (rule persist_safe, rule mark_safe) (use u in \<open>simp_all add: no_deletion_parts safe_def\<close>)
    moreover have "safe (upload_added W job' d u)" "safe (upload_failed W e job u)" for job' e
      using u(1) upload_failed_edits [OF same_edits_refl] upload_added_edits by (blast intro: same_edits_safe)+
    ultimately show ?thesis
      unfolding upload_answered_def Some sent Inr option.case prod.case sum.case Let_def t_def [symmetric] u_def [symmetric]
      by (simp split: option.split)
  qed
qed (use assms in \<open>simp add: upload_answered_def\<close>)

lemma save_score_safe:
  assumes "safe s" and "ops_ok {#} s" and "link_sound W s"
  shows "safe (save_score W s)"
proof (cases "pp_draft s = None \<or> finalized s \<or> pp_busy s \<or> pp_finalizing s")
  case False
  obtain r t where t: "applyIMSLP W s = (r, t)" by fastforce
  have ok: "safe t" using applyIMSLP_safe [OF assms(1) _ assms(3) t] False by simp
  have "same_edits t (invalidatePreview (t\<lparr>pp_finalizing := True\<rparr>))"
    using same_edits_parts(3) [of "t\<lparr>pp_finalizing := True\<rparr>"] by (simp add: same_edits_def)
  then have "same_edits t ((invalidatePreview (t\<lparr>pp_finalizing := True\<rparr>))
      \<lparr>pp_busy := True, pp_error := [], pp_progress := js ''Preparing score''\<rparr>)" by (simp add: same_edits_def)
  from persist_safe [OF same_edits_safe [OF this ok]] show ?thesis
    using False same_edits_safe [OF same_edits_parts(10) ok] by (auto simp: save_score_def t split: sum.split)
qed (use assms in \<open>auto simp: save_score_def\<close>)

lemma finalize_answered_safe:
  assumes "safe s"
  shows "safe (finalize_answered W answer s)"
proof (cases "pa_finalize s")
  case (Some current)
  have "safe (finalize_over (s\<lparr>pp_dirty := False,
      pp_draft := map_option (\<lambda>d. d\<lparr>d_finalized := True, d_pieceId := p\<rparr>) (pp_draft s), pp_completed := c, pp_destinations := ds\<rparr>))" for p c ds
    using assms by (simp add: finalize_over_def safe_def kept_def no_deletion_def split: option.split)
  then show ?thesis using Some same_edits_safe [OF finalize_failed_edits [OF same_edits_refl] assms]
    by (simp add: finalize_answered_def split: sum.split)
qed (use assms in \<open>simp add: finalize_answered_def\<close>)

lemma saving_safe:
  assumes "safe s" and "ops_ok {#} s"
  shows "safe (canLeave W b s)" "safe (warnBeforeUnload W s)" "safe (save_timer_fired W s)" "safe (close_draft W s)"
    "safe (backFromPages W s)" "safe (selectWork W work s)"
proof -
  show c: "safe (close_draft W s)"
    using assms(1) persist_safe [OF same_edits_safe [OF same_edits_parts(3) assms(1)]] by (simp add: close_draft_def)
  show "safe (canLeave W b s)" "safe (warnBeforeUnload W s)" "safe (save_timer_fired W s)"
    using assms(1) persist_safe [OF assms(1)] same_edits_safe [OF same_edits_fields(8) assms(1)]
    by (simp_all add: canLeave_def warnBeforeUnload_def save_timer_fired_def)
  show "safe (backFromPages W s)" using assms(1) c same_edits_safe [OF same_edits_parts(11) assms(1)]
    by (simp add: backFromPages_def)
  show "safe (selectWork W work s)"
  proof (cases "pp_draft s = None \<or> pp_busy s \<or> pp_finalizing s")
    case False
    have "safe (mark (on_imslp g (s\<lparr>pp_draft := d\<rparr>)))" for g d
      using assms(1) False by (intro mark_safe) (simp_all add: safe_def no_deletion_def on_imslp_def)
    then have "safe ((on_imslp h (mark (on_imslp g (s\<lparr>pp_draft := d\<rparr>))))\<lparr>pa_windows := ws\<rparr>)" for g h d ws
      by (rule same_edits_safe [rotated]) (simp add: same_edits_def on_imslp_def)
    from persist_safe [OF this] show ?thesis using assms(1) by (auto simp: selectWork_def Let_def split: option.split)
  qed (use assms(1) in \<open>auto simp: selectWork_def split: option.split\<close>)
qed

lemma linking_safe:
  assumes "safe s" and "\<not> pp_finalizing s" and "link_sound W s"
  shows "safe (continue_step W s)" "safe (openLink W s)"
proof -
  obtain r t where t: "applyIMSLP W s = (r, t)" by fastforce
  have ok: "safe t" by (rule applyIMSLP_safe [OF assms t])
  then have f: "safe (fail_with W e t)" for e by (rule same_edits_safe [OF same_edits_parts(10)])
  have o: "safe (on_imslp g (t\<lparr>pa_windows := ws\<rparr>))" for g ws
    by (rule same_edits_safe [OF _ ok]) (simp add: same_edits_def on_imslp_def)
  show "safe (continue_step W s)" "safe (openLink W s)"
    using persist_safe [OF ok] f persist_safe [OF o]
    by (simp_all add: continue_step_def openLink_def t ok persist_safe split: sum.split option.split)
qed


section \<open>Nothing is forgotten\<close>

text \<open>
  What is left out: the user does not ask to delete the draft, the draft is not loaded again and
  no file is added while a save is under way, and links are sound and not entered while the final
  document is made (the form is disabled then).
\<close>

definition keeps_edits :: "prepare_web \<Rightarrow> PrepareComponent \<Rightarrow> prepare_event \<Rightarrow> bool" where
  "keeps_edits W s e \<longleftrightarrow> (case e of
     DiscardDraft confirmed \<Rightarrow> \<not> confirmed
   | DetailsWithoutPDF \<Rightarrow> False
   | DraftLoaded answer \<Rightarrow> pa_pendingSave s = None
   | UploadAnswered answer \<Rightarrow> pa_pendingSave s = None
   | Continue \<Rightarrow> \<not> pp_finalizing s \<and> link_sound W s
   | OpenLink \<Rightarrow> \<not> pp_finalizing s \<and> link_sound W s
   | Upload files replace \<Rightarrow> link_sound W s
   | DropFiles files \<Rightarrow> link_sound W s
   | SaveScore \<Rightarrow> link_sound W s
   | _ \<Rightarrow> True)"

lemma load_draft_safe:
  assumes "safe s" and "pa_pendingSave s = None"
  shows "safe (load_draft W answer s)"
proof (cases answer)
  case (Inl e)
  then show ?thesis using same_edits_safe [OF same_edits_parts(10) assms(1)] by (simp add: load_draft_def)
next
  case (Inr d)
  have s: "safe (s\<lparr>pp_destinations := ds\<rparr>)" for ds by (rule same_edits_safe [OF same_edits_fields(7) assms(1)])
  have "safe (s\<lparr>pp_draft := Some d, pp_sourceMode := m, pp_rangeSourceId := i, pp_imslp := im, pp_step := st, pa_acked := Some d\<rparr>)"
    for m i im st using assms by (simp add: safe_def kept_def no_deletion_def)
  from same_edits_safe [OF same_edits_trans [OF same_edits_parts(4) render_preview_edits] this] s assms(1) show ?thesis
    by (simp add: load_draft_def Inr Let_def split: bool.split option.split)
qed

lemma destroy_page_edits: "same_edits (s\<lparr>pp_saveTimer := False\<rparr>) (destroy_page s)"
proof -
  define t where "t = invalidatePreview (s\<lparr>pp_destroyed := True, pp_imslp := destroy_search (pp_imslp s)\<rparr>)"
  have "same_edits s t" unfolding t_def
    by (rule same_edits_trans [OF _ same_edits_parts(3)]) (simp add: same_edits_def)
  then have "same_edits (s\<lparr>pp_saveTimer := False\<rparr>) (t\<lparr>pp_previewTimer := False, pp_backgroundTimer := None,
      pp_workerClient := destroy (pp_workerClient t), pp_preparedPages := cache_clear (pp_preparedPages t),
      pp_saveTimer := False\<rparr>)"
    by (simp add: same_edits_def)
  from same_edits_trans [OF this same_edits_parts(2)] show ?thesis
    unfolding destroy_page_def Let_def t_def [symmetric] .
qed

lemma drop_files_safe:
  assumes "safe s" and "ops_ok {#} s" and "link_sound W s"
  shows "safe (drop_files W files s)"
proof -
  define t where "t = on_imslp (\<lambda>i. i\<lparr>im_dropHot := False\<rparr>) s"
  have t: "safe t" unfolding t_def by (rule same_edits_safe [OF same_edits_parts(12) assms(1)])
  have o: "ops_ok {#} t" unfolding t_def by (rule ops_of_parts(9) [OF assms(2)])
  have eq: "pp_draft t = pp_draft s" "im_link (pp_imslp t) = im_link (pp_imslp s)" by (simp_all add: t_def on_imslp_def)
  have l: "link_sound W t" using assms(3) unfolding link_sound_def eq .
  show ?thesis using t uploadFiles_safe [OF t o l] by (simp add: drop_files_def Let_def flip: t_def)
qed

lemma handle_event_safe:
  assumes "safe s" and "ops_ok {#} s" and "keeps_edits W s e"
  shows "safe (handle_event W e s)"
proof -
  have f: "safe t" if "same_edits s t" for t by (rule same_edits_safe [OF that assms(1)])
  have "safe (s\<lparr>pp_saveTimer := False\<rparr>)" using assms(1)
    by (simp add: safe_def kept_def no_deletion_def split: option.splits)
  from same_edits_safe [OF destroy_page_edits this] have d: "safe (destroy_page s)" .
  have "same_edits s (s\<lparr>pp_rangeSourceId := i\<rparr>)" "same_edits s (s\<lparr>pp_rangeText := i\<rparr>)" "same_edits s (s\<lparr>pp_edgeReady := b\<rparr>)" for i b
    by (simp_all add: same_edits_def)
  note field_handlers = this [THEN f]
  have del: "safe (delete_answered W answer s)" for answer
    using assms(1) by (simp add: delete_answered_def safe_def no_deletion_def)
  have dis: "safe (discard_draft False s)" using assms(1) by (simp add: discard_draft_def split: option.split)
  note all = apply_edit_safe [OF assms(1,2)] undo_safe [OF assms(1,2)] view_safe [OF assms(1)] load_draft_safe [OF assms(1)]
    saving_safe [OF assms(1,2)] save_answered_safe [OF assms(1)] linking_safe [OF assms(1)]
    uploadFiles_safe [OF assms(1,2)] upload_answered_safe [OF assms(1,2)] save_score_safe [OF assms(1,2)]
    finalize_answered_safe [OF assms(1)] drop_files_safe [OF assms(1,2)] d del dis
    f [OF same_edits_fields(16)] f [OF same_edits_parts(12)] field_handlers
  show ?thesis using assms(3) by (cases e) (simp_all add: keeps_edits_def all)
qed

definition edits_inv :: "PrepareComponent \<Rightarrow> bool" where
  "edits_inv s \<longleftrightarrow> ops_inv s \<and> safe s"

lemma prepare_step_edits:
  assumes "edits_inv s" and "keeps_edits W s e"
  shows "edits_inv (prepare_step W e s)"
proof -
  have ok: "ops_ok {#} s" "safe s" "ops_inv s" using assms(1) by (simp_all add: edits_inv_def ops_inv_def)
  have "safe (prepare_step W e s)" unfolding prepare_step_def
    by (rule same_edits_safe [OF settle_promises_edits handle_event_safe [OF ok(2,1) assms(2)]])
  then show ?thesis using prepare_ops.inv_step [OF ok(3)] by (simp add: edits_inv_def)
qed

interpretation prepare_edits: guarded_machine "keeps_edits W" "prepare_step W" edits_inv for W
  by unfold_locales (rule prepare_step_edits)

lemma new_prepare_edits: "edits_inv new_prepare"
  using new_prepare_ops by (simp add: edits_inv_def safe_def kept_def no_deletion_def new_prepare_def)



section \<open>Every edit is on its way\<close>

text \<open>
  While the server takes the saves and the page is open, a changed draft has its timer running,
  or a caller that saves again when the save under way is over.
\<close>

definition armed_by :: "Waiter list \<Rightarrow> PrepareComponent \<Rightarrow> bool" where
  "armed_by ws s \<longleftrightarrow> (pp_dirty s \<longrightarrow> pp_draft s \<noteq> None \<and> \<not> finalized s \<and>
     (pp_saveTimer s \<or> (\<exists>k. Recheck k \<in> set ws) \<or> (pa_pendingSave s \<noteq> None \<and> (\<exists>k. Recheck k \<in> set (pa_waiters s)))))"

definition armed :: "PrepareComponent \<Rightarrow> bool" where
  "armed = armed_by []"

definition saving_works :: "prepare_web \<Rightarrow> PrepareComponent \<Rightarrow> prepare_event \<Rightarrow> bool" where
  "saving_works W s e \<longleftrightarrow> keeps_edits W s e \<and> (case e of
     DestroyPage \<Rightarrow> False
   | DraftLoaded answer \<Rightarrow> \<not> pp_dirty s
   | SaveAnswered answer \<Rightarrow> (case answer of Inl e \<Rightarrow> False | Inr _ \<Rightarrow> True)
   | UploadAnswered answer \<Rightarrow> pp_draft s \<noteq> None \<and> (case answer of Inl e \<Rightarrow> True | Inr d \<Rightarrow> \<not> d_finalized d)
   | Edit edit \<Rightarrow> pp_draft s \<noteq> None
   | Undo \<Rightarrow> pp_draft s \<noteq> None
   | _ \<Rightarrow> True)"

lemma same_edits_armed: "same_edits s t \<Longrightarrow> armed_by ws t = armed_by ws s"
  by (simp add: same_edits_def armed_by_def finalized_def)

lemma armed_same: "same_edits s t \<Longrightarrow> armed s \<Longrightarrow> armed t"
  by (simp add: armed_def same_edits_armed)

lemma persist_call_armed_more:
  "armed_by (Recheck k # ws) s \<Longrightarrow> armed_by ws (snd (persist_call k s))"
  by (auto simp: persist_call_def Let_def armed_by_def finalized_def split: option.split)

lemma persist_call_armed: "armed s \<Longrightarrow> armed (snd (persist_call k s))"
  using persist_call_armed_more [of k "[]" s] by (simp add: armed_def armed_by_def)

lemma persist_armed: "armed s \<Longrightarrow> armed (persist W k s)"
  using persist_call_armed [of s k] armed_same [OF resume_save_edits]
  by (auto simp: persist_def split: prod.split)

lemma wake_waiters_armed:
  "armed_by ws s \<Longrightarrow> fold (wake_waiter (Inr ())) ws (ready, s) = (ready', s') \<Longrightarrow> armed s'"
proof (induction ws arbitrary: ready s)
  case (Cons w ws)
  obtain r t where t: "wake_waiter (Inr ()) w (ready, s) = (r, t)" by fastforce
  have "armed_by ws t"
  proof (cases w)
    case (Recheck k)
    then show ?thesis using t Cons.prems(1) persist_call_armed_more [of k ws s]
      by (cases "pp_dirty s") (auto simp: wake_waiter_def case_prod_unfold armed_by_def)
  qed (use t Cons.prems(1) in \<open>auto simp: wake_waiter_def armed_by_def\<close>)
  then show ?case using Cons.IH Cons.prems(2) t by simp
qed (simp add: armed_def)

lemma save_answered_armed:
  assumes "armed s" and "no_deletion s"
  shows "armed (save_answered W (Inr r) s)"
proof (cases "pa_pendingSave s")
  case (Some snapshot)
  define t where "t = (save_settled (Inr r) snapshot s)\<lparr>pa_pendingSave := None, pa_waiters := []\<rparr>"
  have "armed_by (pa_waiters s) t" using assms(1)
    by (auto simp: t_def save_settled_def armed_def armed_by_def finalized_def split: prod.split option.split)
  moreover have d: "fold (wake_deleting W (Inr ())) (pa_waiters s) t = t"
    using assms(2) by (intro wake_deletings_same) (simp add: no_deletion_def)
  moreover obtain ready u where u: "fold (wake_waiter (Inr ())) (pa_waiters s) ([], t) = (ready, u)" by fastforce
  ultimately have "armed u" by (blast intro: wake_waiters_armed)
  from armed_same [OF resume_all_edits this] show ?thesis
    unfolding save_answered_def Some option.case Let_def sum.case t_def [symmetric] d by (simp add: u)
qed (use assms in \<open>simp add: save_answered_def\<close>)

lemma mark_armed: "armed s \<Longrightarrow> pp_draft s \<noteq> None \<Longrightarrow> armed (mark s)"
  by (auto simp: mark_def armed_def armed_by_def finalized_def)

lemma draft_field_armed: "armed s \<Longrightarrow> (case pp_draft s of None \<Rightarrow> True | Some d' \<Rightarrow> d_finalized d \<longrightarrow> d_finalized d') \<Longrightarrow>
    armed (s\<lparr>pp_draft := Some d\<rparr>)"
  by (auto simp: armed_def armed_by_def finalized_def split: option.splits)

lemma draft_map_armed: "armed s \<Longrightarrow> (\<And>d. d_finalized (f d) = d_finalized d) \<Longrightarrow> armed (s\<lparr>pp_draft := map_option f (pp_draft s)\<rparr>)"
  by (auto simp: armed_def armed_by_def finalized_def split: option.splits)

lemma changed_armed:
  assumes "armed s" and "pp_draft s \<noteq> None"
  shows "armed (changed s)"
proof -
  define t where "t = reconcilePreparedKeys (invalidatePreview s)"
  have t: "same_edits s t" unfolding t_def by (rule same_edits_trans [OF same_edits_parts(3) same_edits_parts(4)])
  have "armed (mark t)" using armed_same [OF t assms(1)] t assms(2) by (intro mark_armed) (simp_all add: same_edits_def)
  then show ?thesis unfolding changed_def t_def [symmetric] by (rule armed_same [OF same_edits_fields(6)])
qed

lemma armed_parts:
  "armed s \<Longrightarrow> armed (set_pages ps s)" "armed s \<Longrightarrow> armed (set_manifest m s)" "armed s \<Longrightarrow> armed (edit_page f s)"
  "armed s \<Longrightarrow> armed (remember s)" "armed s \<Longrightarrow> armed (startGesture s)" "armed s \<Longrightarrow> armed (endGesture s)"
proof -
  show set: "armed s \<Longrightarrow> armed (set_pages ps s)" for s :: PrepareComponent and ps
    unfolding set_pages_def by (rule draft_map_armed) simp_all
  show "armed s \<Longrightarrow> armed (set_manifest m s)" unfolding set_manifest_def by (rule draft_map_armed) simp_all
  show "armed s \<Longrightarrow> armed (edit_page f s)" by (simp add: edit_page_def set split: option.split)
qed (simp_all add: armed_same [OF same_edits_parts(5)] armed_same [OF same_edits_parts(6)] armed_same [OF same_edits_parts(7)])

lemma draft_there:
  "pp_draft (set_pages ps s) = None \<longleftrightarrow> pp_draft s = None" "pp_draft (set_manifest m s) = None \<longleftrightarrow> pp_draft s = None"
  "pp_draft (edit_page f s) = None \<longleftrightarrow> pp_draft s = None"
  by (simp_all add: set_pages_def set_manifest_def edit_page_def split: option.split)


definition editable :: "PrepareComponent \<Rightarrow> bool" where
  "editable s \<longleftrightarrow> armed s \<and> pp_draft s \<noteq> None"

lemma editable_parts:
  "editable s \<Longrightarrow> editable (set_pages ps s)" "editable s \<Longrightarrow> editable (set_manifest m s)"
  "editable s \<Longrightarrow> editable (edit_page f s)" "editable s \<Longrightarrow> editable (remember s)"
  "editable s \<Longrightarrow> editable (startGesture s)" "editable s \<Longrightarrow> editable (endGesture s)"
  by (simp_all add: editable_def armed_parts draft_there del: not_None_eq)

lemma editable_fields:
  "editable s \<Longrightarrow> editable (s\<lparr>pp_selected := i\<rparr>)" "editable s \<Longrightarrow> editable (s\<lparr>pp_handles := h\<rparr>)"
  "editable s \<Longrightarrow> editable (s\<lparr>pp_pendingEdges := pe\<rparr>)" "editable s \<Longrightarrow> editable (s\<lparr>pp_compare := b\<rparr>)"
  "editable s \<Longrightarrow> editable (s\<lparr>pp_uuids := n\<rparr>)"
  by (simp_all add: editable_def armed_def armed_by_def finalized_def)

lemma editable_changed: "editable s \<Longrightarrow> armed (changed s)"
  by (simp add: editable_def changed_armed)

lemma update_draft_finalized: "d_finalized (update_draft f d) = d_finalized d"
  by (cases f) (simp_all add: edit_field_def)

lemma apply_edit_armed:
  assumes "armed s" and "pp_draft s \<noteq> None"
  shows "armed (apply_edit W e s)"
proof -
  have s: "editable s" using assms by (simp add: editable_def)
  have er: "armed (s\<lparr>pp_error := er\<rparr>)" for er by (rule armed_same [OF same_edits_fields(1) assms(1)])
  show ?thesis
  proof (cases e)
    case (Metadata f)
    have "armed (s\<lparr>pp_draft := map_option (update_draft f) (pp_draft s)\<rparr>)"
      using assms(1) by (rule draft_map_armed) (rule update_draft_finalized)
    then show ?thesis using assms by (auto simp: Metadata updateMetadata_def intro!: mark_armed)
  qed (use s er assms(1) in \<open>auto simp: changeMargin_def change_def rotate_page_def changePaperStrength_def resetPage_def
        resetAll_def move_page_def remove_page_def keepSelected_def useRange_def applyEdges_def Let_def
        intro!: armed_parts editable_changed editable_parts editable_fields split: option.split sum.split\<close>)
qed

lemma undo_armed:
  assumes "armed s" and "pp_draft s \<noteq> None"
  shows "armed (undo W s)"
proof (cases "pp_busy s \<or> pp_history (endGesture s) = []")
  case False
  define m where "m = last (pp_history (endGesture s))"
  define t0 where "t0 = (endGesture s)\<lparr>pp_history := butlast (pp_history (endGesture s))\<rparr>"
  define t where "t = set_manifest m t0"
  define u where "u = reconcilePreparedKeys (t\<lparr>pp_selected := min (pp_selected t) (int (length (m_pages m)) - 1)\<rparr>)"
  have "same_edits s t0" by (simp add: t0_def same_edits_def endGesture_def)
  then have "armed t0" "pp_draft t0 \<noteq> None" using assms armed_same by (auto simp: same_edits_def)
  then have t: "armed t" "pp_draft t \<noteq> None" by (simp_all add: t_def armed_parts draft_there)
  have "same_edits t u" unfolding u_def by (rule same_edits_trans [OF same_edits_fields(3) same_edits_parts(4)])
  then have "armed u" "pp_draft u \<noteq> None" using t armed_same by (auto simp: same_edits_def)
  from armed_same [OF render_preview_edits mark_armed [OF this]] show ?thesis using False
    unfolding undo_def Let_def m_def [symmetric] t0_def [symmetric] t_def [symmetric] u_def [symmetric] by simp
qed (use assms in \<open>auto simp: undo_def Let_def intro: armed_parts\<close>)

lemma applyIMSLP_armed:
  assumes "armed s" and "applyIMSLP W s = (r, t)"
  shows "armed t"
proof -
  have fin: "d_finalized (snd (linkIMSLPWork u d link)) = d_finalized d" for u d link
    by (auto simp: linkIMSLPWork_def prefillIMSLPField_def Let_def split: option.split prod.split)
  have link: "armed (s\<lparr>pp_draft := Some d'\<rparr>)" if "pp_draft s = Some d" "d_finalized d' = d_finalized d" for d d'
    using assms(1) that by (intro draft_field_armed) simp_all
  have "t = s \<or> (\<exists>d d'. pp_draft s = Some d \<and> d_finalized d' = d_finalized d \<and>
      (t = s\<lparr>pp_draft := Some d'\<rparr> \<or> t = mark (s\<lparr>pp_draft := Some d'\<rparr>)))"
    using assms(2) fin [of "we_url W" _ "im_link (pp_imslp s)"] unfolding applyIMSLP_def
    by (fastforce split: if_splits option.splits prod.splits sum.splits)
  then show ?thesis using assms(1) link mark_armed by fastforce
qed


lemmas view_armed = view_edits [THEN armed_same]


lemma uploadFiles_armed:
  assumes "armed s"
  shows "armed (uploadFiles W files replace skipped s)"
proof (cases "pp_busy s \<or> files = []")
  case False
  define t where "t = (syncCancellable (s\<lparr>pp_busy := True, pp_error := [], pp_uploading := True,
    pp_skipRemainingUploads := False\<rparr>))\<lparr>pp_uploadGeneration := pp_uploadGeneration s + 1\<rparr>"
  have t: "armed t" by (rule armed_same [OF _ assms]) (simp add: t_def same_edits_def syncCancellable_def)
  obtain r u where u: "applyIMSLP W t = (r, u)" by fastforce
  have ok: "armed u" by (rule applyIMSLP_armed [OF t u])
  have gen: "pp_uploadGeneration (syncCancellable (s\<lparr>pp_busy := True, pp_error := [], pp_uploading := True,
      pp_skipRemainingUploads := False\<rparr>)) = pp_uploadGeneration s" by simp
  show ?thesis using False persist_armed [OF ok] armed_same [OF upload_failed_edits [OF same_edits_refl] ok]
    unfolding uploadFiles_def Let_def gen t_def [symmetric] by (simp add: u split: sum.split)
qed (use assms in \<open>auto simp: uploadFiles_def intro: armed_same [OF same_edits_parts(13)]\<close>)

lemma upload_answered_armed:
  assumes "armed s" and "case answer of Inl e \<Rightarrow> True | Inr d \<Rightarrow> \<not> d_finalized d" and "pa_pendingSave s = None"
  shows "armed (upload_answered W answer s)"
proof (cases "pa_upload s")
  case (Some sent)
  obtain job d where sent: "sent = (job, d)" by fastforce
  define t where "t = s\<lparr>pa_upload := None\<rparr>"
  have t: "armed t" unfolding t_def by (rule armed_same [OF _ assms(1)]) (simp add: same_edits_def)
  show ?thesis
  proof (cases answer)
    case (Inl e)
    then show ?thesis using t Some sent armed_same [OF upload_failed_edits [OF same_edits_refl] t]
      by (simp add: upload_answered_def t_def)
  next
    case (Inr next_draft)
    define u where "u = (remember t)\<lparr>pp_draft := Some next_draft, pa_acked := Some next_draft,
      pp_rangeSourceId := (if pp_rangeSourceId (remember t) \<noteq> [] then pp_rangeSourceId (remember t)
        else case d_sources next_draft of [] \<Rightarrow> [] | a # as \<Rightarrow> a_id a)\<rparr>"
    have r: "armed (remember t)" by (rule armed_parts(4) [OF t])
    have u: "armed u" "pp_draft u \<noteq> None" using r assms(2) Inr
      by (simp_all add: u_def armed_def armed_by_def finalized_def)
    have "armed (mark (set_pages ps u))" for ps
      using u by (intro mark_armed armed_parts) (simp_all add: draft_there del: not_None_eq)
    from persist_armed [OF this] have "armed (persist W (AfterReplace job d) (mark (set_pages ps u)))" for ps .
    moreover have "armed (upload_added W job' d u)" "armed (upload_failed W e job u)" for job' e
      using u(1) upload_failed_edits [OF same_edits_refl] upload_added_edits by (blast intro: armed_same)+
    ultimately show ?thesis
      unfolding upload_answered_def Some sent Inr option.case prod.case sum.case Let_def t_def [symmetric] u_def [symmetric]
      by (simp split: option.split)
  qed
qed (use assms in \<open>simp add: upload_answered_def\<close>)

lemma saving_armed:
  assumes "armed s"
  shows "armed (canLeave W b s)" "armed (warnBeforeUnload W s)" "armed (save_timer_fired W s)" "armed (close_draft W s)"
    "armed (backFromPages W s)" "armed (selectWork W work s)" "armed (continue_step W s)" "armed (openLink W s)"
    "armed (save_score W s)" "armed (finalize_answered W answer s)"
proof -
  show c: "armed (close_draft W s)"
    using assms persist_armed [OF armed_same [OF same_edits_parts(3) assms]] by (simp add: close_draft_def)
  show "armed (canLeave W b s)" "armed (warnBeforeUnload W s)" "armed (save_timer_fired W s)"
    using assms persist_armed [OF assms] armed_same [OF same_edits_fields(8) assms]
    by (simp_all add: canLeave_def warnBeforeUnload_def save_timer_fired_def)
  show "armed (backFromPages W s)" using assms c armed_same [OF same_edits_parts(11) assms]
    by (simp add: backFromPages_def)
  obtain r t where t: "applyIMSLP W s = (r, t)" by fastforce
  have ok: "armed t" by (rule applyIMSLP_armed [OF assms t])
  then have f: "armed (fail_with W e t)" for e by (rule armed_same [OF same_edits_parts(10)])
  have o: "armed (on_imslp g (t\<lparr>pa_windows := ws\<rparr>))" for g ws
    by (rule armed_same [OF _ ok]) (simp add: same_edits_def on_imslp_def)
  show "armed (continue_step W s)" "armed (openLink W s)"
    using persist_armed [OF ok] f persist_armed [OF o]
    by (simp_all add: continue_step_def openLink_def t ok persist_armed split: sum.split option.split)
  have "same_edits t (invalidatePreview (t\<lparr>pp_finalizing := True\<rparr>))"
    using same_edits_parts(3) [of "t\<lparr>pp_finalizing := True\<rparr>"] by (simp add: same_edits_def)
  then have "same_edits t ((invalidatePreview (t\<lparr>pp_finalizing := True\<rparr>))
      \<lparr>pp_busy := True, pp_error := [], pp_progress := js ''Preparing score''\<rparr>)" by (simp add: same_edits_def)
  from persist_armed [OF armed_same [OF this ok]] show "armed (save_score W s)"
    using assms f by (auto simp: save_score_def t split: sum.split)
  show "armed (finalize_answered W answer s)" using armed_same [OF finalize_failed_edits [OF same_edits_refl] assms] assms
    by (auto simp: finalize_answered_def finalize_over_def armed_def armed_by_def split: option.split sum.split)
  show "armed (selectWork W work s)"
  proof (cases "pp_draft s")
    case (Some d)
    have "armed (s\<lparr>pp_draft := Some (fill_from_work work d)\<rparr>)"
      using assms Some by (intro draft_field_armed) (simp_all add: fill_from_work_def prefillIMSLPField_def Let_def split: option.split)
    then have "armed (on_imslp g (s\<lparr>pp_draft := Some (fill_from_work work d)\<rparr>))" for g
      by (rule armed_same [OF same_edits_parts(12)])
    then have "armed (mark (on_imslp g (s\<lparr>pp_draft := Some (fill_from_work work d)\<rparr>)))" for g
      by (rule mark_armed) (simp add: on_imslp_def)
    then have "armed ((on_imslp h (mark (on_imslp g (s\<lparr>pp_draft := Some (fill_from_work work d)\<rparr>))))\<lparr>pa_windows := ws\<rparr>)" for g h ws
      by (rule armed_same [rotated]) (simp add: same_edits_def on_imslp_def)
    from persist_armed [OF this] show ?thesis using assms by (simp add: selectWork_def Some Let_def)
  qed (use assms in \<open>simp add: selectWork_def\<close>)
qed


lemma load_draft_armed:
  assumes "armed s" and "\<not> pp_dirty s"
  shows "armed (load_draft W answer s)"
proof (cases answer)
  case (Inl e)
  then show ?thesis using armed_same [OF same_edits_parts(10) assms(1)] by (simp add: load_draft_def)
next
  case (Inr d)
  have "armed t" if "\<not> pp_dirty t" for t using that by (simp add: armed_def armed_by_def)
  moreover have "\<not> pp_dirty (load_draft W answer s)"
    using render_preview_edits [of "reconcilePreparedKeys t" W None for t] assms(2)
    by (auto simp: load_draft_def Inr Let_def same_edits_def split: bool.split option.split)
  ultimately show ?thesis .
qed

lemma handle_event_armed:
  assumes "armed s" and "safe s" and "saving_works W s e"
  shows "armed (handle_event W e s)"
proof -
  have f: "armed t" if "same_edits s t" for t by (rule armed_same [OF that assms(1)])
  have "same_edits s (s\<lparr>pp_rangeSourceId := i\<rparr>)" "same_edits s (s\<lparr>pp_rangeText := i\<rparr>)" "same_edits s (s\<lparr>pp_edgeReady := b\<rparr>)" for i b
    by (simp_all add: same_edits_def)
  note field_handlers = this [THEN f]
  have n: "no_deletion s" using assms(2) by (simp add: safe_def)
  have del: "armed (delete_answered W answer s)" for answer
    using n assms(1) by (simp add: delete_answered_def no_deletion_def)
  have dis: "armed (discard_draft False s)" using assms(1) by (simp add: discard_draft_def split: option.split)
  have drop: "armed (drop_files W files s)" for files
    using f [OF same_edits_parts(12)] uploadFiles_armed by (simp add: drop_files_def Let_def)
  note all = apply_edit_armed [OF assms(1)] undo_armed [OF assms(1)] view_armed [OF assms(1)] load_draft_armed [OF assms(1)]
    saving_armed [OF assms(1)] save_answered_armed [OF assms(1) n] uploadFiles_armed [OF assms(1)]
    upload_answered_armed [OF assms(1)] del dis drop f [OF same_edits_fields(16)] f [OF same_edits_parts(12)] field_handlers
  show ?thesis
  proof (cases e)
    case (SaveAnswered answer)
    then show ?thesis using assms(3) all by (cases answer) (simp_all add: saving_works_def)
  qed (use assms(3) in \<open>simp_all add: saving_works_def keeps_edits_def all del: not_None_eq\<close>)
qed

lemma prepare_step_armed:
  assumes "edits_inv s \<and> armed s" and "saving_works W s e"
  shows "edits_inv (prepare_step W e s) \<and> armed (prepare_step W e s)"
proof -
  have "keeps_edits W s e" using assms(2) by (simp add: saving_works_def)
  then have "edits_inv (prepare_step W e s)" using assms(1) prepare_step_edits by blast
  moreover have "armed (handle_event W e s)"
    by (rule handle_event_armed [OF _ _ assms(2)]) (use assms(1) in \<open>simp_all add: edits_inv_def\<close>)
  then have "armed (prepare_step W e s)" unfolding prepare_step_def by (rule armed_same [OF settle_promises_edits])
  ultimately show ?thesis by blast
qed

interpretation prepare_saving: guarded_machine "saving_works W" "prepare_step W" "\<lambda>s. edits_inv s \<and> armed s" for W
  by unfold_locales (rule prepare_step_armed)

lemma timer_saves:
  assumes "pp_saveTimer s" and "pp_dirty s" and "pa_pendingSave s = None" and "pp_draft s = Some d" and "\<not> d_finalized d"
  shows "pa_saves (prepare_step W SaveTimerFired s) = pa_saves s @ [d]"
  using assms settle_promises_edits [of "persist W AfterTimer s" W]
  by (simp add: prepare_step_def save_timer_fired_def persist_def persist_call_def Let_def same_edits_def)


section \<open>Witnesses\<close>

definition demo_web :: prepare_web where
  "demo_web = \<lparr>we_url = demo_url, we_nfd = id, we_lower = id, we_upper = id, we_uuid = (\<lambda>n. [n]),
     we_objectURL = (\<lambda>n. [n]), we_request = (\<lambda>n. [n]), we_makes = (\<lambda>n. True), we_post = (\<lambda>n. None),
     we_factory = OtherThrown, we_source = []\<rparr>"

definition demo_edits :: "prepare_event list" where
  "demo_edits = [DraftLoaded (Inr demo_draft), Edit (Metadata (MTitle (js ''Suite'')))]"

lemma demo_edits_run:
  "let s = fold (prepare_step demo_web) demo_edits new_prepare
   in pp_dirty s \<and> pp_draft s = Some (edit_field TitleField (js ''Suite'') demo_draft) \<and> pa_pendingSave s = None \<and>
      pp_saveTimer s \<and> enabled_run (saving_works demo_web) (prepare_step demo_web) new_prepare demo_edits"
  by (simp add: demo_edits_def prepare_step_def settle_promises_def new_prepare_def load_draft_def demo_draft_def
      reconcilePreparedKeys_def keys_of_pages_def the_pages_def render_preview_def invalidatePreview_def Let_def
      activeRequest_def new_client_def the_page_def page_at_def preview_over_def updateMetadata_def finalized_def mark_def
      saving_works_def keeps_edits_def edit_field_def js_def)



definition demo_saved :: "prepare_event list" where
  "demo_saved = demo_edits @ [SaveTimerFired, SaveAnswered (Inr (2, []))]"

lemma demo_saved_run:
  "let s = fold (prepare_step demo_web) demo_saved new_prepare
   in \<not> pp_dirty s \<and> pa_pendingSave s = None \<and>
      pp_draft s = Some ((edit_field TitleField (js ''Suite'') demo_draft)\<lparr>d_revision := 2, d_updatedAt := []\<rparr>) \<and>
      enabled_run (keeps_edits demo_web) (prepare_step demo_web) new_prepare demo_saved"
  by (simp add: demo_saved_def demo_edits_def prepare_step_def settle_promises_def new_prepare_def load_draft_def
      demo_draft_def reconcilePreparedKeys_def keys_of_pages_def the_pages_def render_preview_def invalidatePreview_def
      Let_def activeRequest_def new_client_def the_page_def page_at_def preview_over_def updateMetadata_def finalized_def
      mark_def keeps_edits_def edit_field_def js_def save_timer_fired_def persist_def persist_call_def save_answered_def
      save_settled_def wake_deleting_def wake_waiter_def resume_save_def)


section \<open>Where edits can still be lost\<close>

text \<open>
  What a call to \<open>persist\<close> that starts the save resolves with is the draft at the time of the call:
  an edit made during the save leaves the draft changed, and the guard lets the user go anyway.
\<close>

lemma leave_guard_races:
  assumes "pp_dirty s" and "pa_pendingSave s = Some snapshot" and "pa_waiters s = [Started (AfterLeave False)]"
  shows "pp_dirty (save_answered W (Inr r) s) \<and> pa_pendingSave (save_answered W (Inr r) s) = None \<and>
    pa_left (save_answered W (Inr r) s) = pa_left s @ [True]"
  using assms
  by (simp add: save_answered_def save_settled_def wake_deleting_def wake_waiter_def resume_save_def Let_def
      split: prod.split)

text \<open>A discard that fails leaves the draft open and unmarked, with whatever was edited since the last save.\<close>

lemma failed_discard_forgets_edits:
  assumes "pp_draft s = Some d" and "\<not> d_finalized d" and "\<not> pp_busy s" and "\<not> editingEdges s" and "pa_pendingSave s = None"
  shows "let t = delete_answered W (Inl e) (discard_draft True s)
    in pp_draft t = Some d \<and> pp_dirty t = False \<and> pp_saveTimer t = False \<and> pa_acked t = pa_acked s \<and>
       \<not> hasUnsavedChanges t"
  using assms by (simp add: discard_draft_def delete_started_def delete_answered_def discard_over_def fail_with_def
      hasUnsavedChanges_def Let_def)

text \<open>Of two callers that wait for a save, the first saves again and the second goes on at once.\<close>

lemma second_waiter_goes_on:
  assumes "pp_dirty s" and "pp_draft s = Some d" and "\<not> d_finalized d" and "pa_pendingSave s = Some snapshot"
    and "pa_waiters s = [Recheck AfterTimer, Recheck (AfterLeave False)]"
  shows "let t = save_answered W (Inr (n, time)) s
    in pa_pendingSave t = Some (d\<lparr>d_revision := n, d_updatedAt := time\<rparr>) \<and> pa_left t = pa_left s @ [True]"
  using assms
  by (simp add: save_answered_def save_settled_def wake_deleting_def wake_waiter_def persist_call_def resume_save_def Let_def)

end
