(* ===== verification/PreparePages.thy ===== *)
theory PreparePages
  imports PrepareEdits
begin

text \<open>
  The pages of a draft: choosing ranges of a source, what undo gives back, and the bounds on the
  selected page, the number of pages and the history.
\<close>

section \<open>Ranges\<close>

text \<open>A range as a user writes it, \<open>3\<close> or \<open>2-5\<close>, and the pages it means, counted from 0.\<close>

definition range_text :: "nat \<times> nat \<Rightarrow> jstring" where
  "range_text r = (if fst r = snd r then nat_digits (fst r) else nat_digits (fst r) @ 45 # nat_digits (snd r))"

definition range_list :: "nat \<times> nat \<Rightarrow> nat list" where
  "range_list r = [fst r - 1..<snd r]"

lemma digit_not_sign: "is_digit c \<Longrightarrow> c \<noteq> 44 \<and> c \<noteq> 45 \<and> \<not> js_space c"
  by (auto simp: is_digit_def js_space_def)

lemma range_text_chars: "c \<in> set (range_text r) \<Longrightarrow> is_digit c \<or> c = 45"
  using nat_digits_digits by (auto simp: range_text_def split: if_splits)

lemma range_text_ends: "range_text r \<noteq> [] \<and> is_digit (hd (range_text r)) \<and> is_digit (last (range_text r))"
proof -
  have "is_digit (hd (nat_digits n))" "is_digit (last (nat_digits n))" for n
    using nat_digits_digits [of "hd (nat_digits n)" n] nat_digits_digits [of "last (nat_digits n)" n] by simp_all
  then show ?thesis by (simp add: range_text_def)
qed

lemma range_text_trim: "js_trim (range_text r) = range_text r"
  using range_text_ends [of r] digit_not_sign by (intro js_trim_id) blast+

lemma takeWhile_digits: "takeWhile is_digit (nat_digits n) = nat_digits n" "dropWhile is_digit (nat_digits n) = []"
  using nat_digits_digits by (auto simp: takeWhile_eq_all_conv dropWhile_eq_Nil_conv)

lemma digits_then_dash:
  "takeWhile is_digit (nat_digits n @ 45 # t) = nat_digits n" "dropWhile is_digit (nat_digits n @ 45 # t) = 45 # t"
proof -
  have "\<forall>c \<in> set (nat_digits n). is_digit c" "\<not> is_digit 45" using nat_digits_digits by (auto simp: is_digit_def)
  then show "takeWhile is_digit (nat_digits n @ 45 # t) = nat_digits n" "dropWhile is_digit (nat_digits n @ 45 # t) = 45 # t"
    by (simp_all add: takeWhile_append2 dropWhile_append2)
qed

lemma range_part_text: "range_part (range_text r) = Some r"
proof (cases "fst r = snd r")
  case True
  then show ?thesis by (simp add: range_text_def range_part_def takeWhile_digits prod_eq_iff)
next
  case False
  have "list_all is_digit (nat_digits (snd r))" using nat_digits_digits by (auto simp: list_all_iff)
  then show ?thesis using False by (simp add: range_text_def range_part_def digits_then_dash Let_def)
qed

lemma range_list_map: "1 \<le> a \<Longrightarrow> map (\<lambda>n. n - 1) [a..<b + 1] = [a - 1..<b]"
  by (cases a) (simp_all add: comp_def del: upt_Suc flip: map_Suc_upt)

lemma range_pages_texts:
  assumes "\<And>r. r \<in> set rs \<Longrightarrow> 1 \<le> fst r \<and> fst r \<le> snd r \<and> snd r \<le> n \<and> snd r - fst r < MAX_PREPARED_PAGES"
  shows "range_pages n (map range_text rs) = Inr (concat (map range_list rs))"
  using assms
proof (induction rs)
  case (Cons r rs)
  have "1 \<le> fst r" "fst r \<le> snd r" "snd r \<le> n" "snd r - fst r < MAX_PREPARED_PAGES" using Cons.prems [of r] by simp_all
  moreover have "range_pages n (map range_text rs) = Inr (concat (map range_list rs))" using Cons by simp
  ultimately show ?case using range_list_map [of "fst r" "snd r"]
    by (cases r) (simp add: range_text_trim range_part_text range_list_def [of "(a, b)" for a b] del: upt_Suc)
qed simp

lemma split_join: "(\<And>t. t \<in> set ts \<Longrightarrow> 44 \<notin> set t) \<Longrightarrow> ts \<noteq> [] \<Longrightarrow> split_on 44 (join [44] ts) = ts"
proof (induction ts)
  case (Cons t ts)
  show ?case
  proof (cases "ts = []")
    case False
    then have "join [44] (t # ts) = t @ 44 # join [44] ts" by (cases ts) simp_all
    then show ?thesis using Cons False by (simp add: split_on_append_sep split_on_no_sep)
  qed (use Cons.prems in \<open>simp add: split_on_no_sep\<close>)
qed simp

lemma range_pages_bound: "range_pages n parts = Inr pages \<Longrightarrow> p \<in> set pages \<Longrightarrow> p < n"
proof (induction parts arbitrary: pages)
  case (Cons part parts)
  obtain a b where ab: "range_part (js_trim part) = Some (a, b)"
    using Cons.prems(1) by (cases "range_part (js_trim part)") auto
  obtain ps where r: "1 \<le> a" "b \<le> n" "range_pages n parts = Inr ps" "pages = map (\<lambda>n. n - 1) [a..<b + 1] @ ps"
    using Cons.prems(1) by (auto simp: ab simp del: upt_Suc split: if_splits sum.splits)
  show ?case
  proof (cases "p \<in> set ps")
    case False
    then obtain x where "p = x - 1" "a \<le> x" "x < b + 1" using Cons.prems(2) r(4) by (auto simp del: upt_Suc)
    then show ?thesis using r(1,2) by linarith
  qed (use Cons.IH r(3) in blast)
qed simp

text \<open>Choosing source pages does what the text says. Ranges written as \<open>3\<close> or \<open>2-5\<close> and separated by
  commas give exactly their pages, in order, when there are at most ten; and whatever is typed,
  what is accepted is one to ten pages that the source has.\<close>

theorem ranges_read_back:
  assumes "rs \<noteq> []" and "list_all (\<lambda>r. 1 \<le> fst r \<and> fst r \<le> snd r \<and> snd r \<le> n) rs"
    and "length (concat (map range_list rs)) \<le> MAX_PREPARED_PAGES"
  shows "read_range n (join [44] (map range_text rs)) = Inr (concat (map range_list rs)) \<and>
    (read_range m text = Inr pages \<longrightarrow> pages \<noteq> [] \<and> length pages \<le> MAX_PREPARED_PAGES \<and> list_all (\<lambda>p. p < m) pages)"
proof -
  have all: "1 \<le> fst r \<and> fst r \<le> snd r \<and> snd r \<le> n \<and> snd r - fst r < MAX_PREPARED_PAGES" if "r \<in> set rs" for r
  proof -
    have "length (range_list r) \<le> length (concat (map range_list rs))"
      using that by (induction rs) auto
    then show ?thesis using assms(2,3) that by (fastforce simp: list_all_iff range_list_def)
  qed
  have comma: "44 \<notin> set (range_text r)" for r using range_text_chars [of 44 r] by (auto simp: is_digit_def)
  have split: "split_on 44 (join [44] (map range_text rs)) = map range_text rs"
    using assms(1) comma by (intro split_join) auto
  obtain r rs' where rs: "rs = r # rs'" using assms(1) by (cases rs) auto
  have "range_list r \<noteq> []" using all [of r] rs by (simp add: range_list_def) linarith
  then have "concat (map range_list rs) \<noteq> []" using rs by simp
  then have "read_range n (join [44] (map range_text rs)) = Inr (concat (map range_list rs))"
    using range_pages_texts [OF all] assms(3) by (simp add: read_range_def split)
  moreover have "read_range m text = Inr pages \<longrightarrow> pages \<noteq> [] \<and> length pages \<le> MAX_PREPARED_PAGES \<and> list_all (\<lambda>p. p < m) pages"
    using range_pages_bound by (auto simp: read_range_def list_all_iff split: sum.splits if_splits)
  ultimately show ?thesis by blast
qed

theorem ranges_read_back_witness:
  "read_range 9 (js ''1-4,7'') = Inr [0, 1, 2, 3, 6]"
proof -
  have t: "join [44] (map range_text [(1, 4), (7, 7)]) = js ''1-4,7''" by code_simp
  have l: "concat (map range_list [(1, 4), (7, 7)]) = [0, 1, 2, 3, 6]" by code_simp
  have "read_range 9 (join [44] (map range_text [(1, 4), (7, 7)])) = Inr (concat (map range_list [(1, 4), (7, 7)]))"
    by (rule ranges_read_back [THEN conjunct1]) (simp_all only: l, simp_all add: MAX_PREPARED_PAGES_def)
  then show ?thesis unfolding t l .
qed


section \<open>Undo\<close>

text \<open>
  What the user does at once: a single edit, or a gesture, the edits between the first movement of
  a slider and its release.
\<close>

datatype edit_group = Single prepare_edit | Gesture "prepare_edit list"

fun continuous :: "prepare_edit \<Rightarrow> bool" where
  "continuous (Margin i mm) = True"
| "continuous (Change key v) = True"
| "continuous (PaperStrength v) = True"
| "continuous _ = False"

fun discrete :: "prepare_edit \<Rightarrow> bool" where
  "discrete StartGesture = False"
| "discrete EndGesture = False"
| "discrete (Metadata f) = False"
| "discrete e = (\<not> continuous e)"

definition group_ok :: "edit_group \<Rightarrow> bool" where
  "group_ok g = (case g of Single e \<Rightarrow> discrete e | Gesture es \<Rightarrow> list_all continuous es)"

definition group_step :: "prepare_web \<Rightarrow> edit_group \<Rightarrow> PrepareComponent \<Rightarrow> PrepareComponent" where
  "group_step W g s = (case g of Single e \<Rightarrow> apply_edit W e s | Gesture es \<Rightarrow> endGesture (fold (apply_edit W) es s))"

definition the_manifest :: "PrepareComponent \<Rightarrow> EditManifest option" where
  "the_manifest s = map_option d_manifest (pp_draft s)"

text \<open>The versions the user has left behind: an edit that is accepted asks for a new drawing.\<close>

fun versions :: "prepare_web \<Rightarrow> edit_group list \<Rightarrow> PrepareComponent \<Rightarrow> EditManifest option list" where
  "versions W [] s = []"
| "versions W (g # gs) s =
     (if pp_previewRevision (group_step W g s) = pp_previewRevision s then [] else [the_manifest s]) @
     versions W gs (group_step W g s)"

lemma changed_revision [simp]: "pp_previewRevision (changed s) = pp_previewRevision s + 1"
  by (simp add: changed_def mark_def reconcilePreparedKeys_def invalidatePreview_def syncCancellable_def Let_def)

lemma revision_parts [simp]:
  "pp_previewRevision (set_pages ps s) = pp_previewRevision s" "pp_previewRevision (set_manifest m s) = pp_previewRevision s"
  "pp_previewRevision (edit_page f s) = pp_previewRevision s" "pp_previewRevision (remember s) = pp_previewRevision s"
  "pp_previewRevision (startGesture s) = pp_previewRevision s" "pp_previewRevision (endGesture s) = pp_previewRevision s"
  by (simp_all add: set_pages_def set_manifest_def edit_page_def remember_def startGesture_def endGesture_def Let_def
      split: option.split)

definition push :: "EditManifest list \<Rightarrow> EditManifest \<Rightarrow> EditManifest list" where
  "push h m = (if length h \<ge> HISTORY_LIMIT then tl (h @ [m]) else h @ [m])"

lemma remember_push: "pp_draft s = Some d \<Longrightarrow> pp_history (remember s) = push (pp_history s) (d_manifest d)"
  by (simp add: remember_def push_def Let_def)

lemma startGesture_push: "pp_draft s = Some d \<Longrightarrow>
    pp_history (startGesture s) = (if pp_gesture s then pp_history s else push (pp_history s) (d_manifest d)) \<and>
    pp_gesture (startGesture s)"
  by (simp add: startGesture_def remember_push)

text \<open>An edit in a state with a draft, outside and inside a gesture.\<close>

definition edit_result :: "bool \<Rightarrow> PrepareComponent \<Rightarrow> PrepareComponent \<Rightarrow> bool" where
  "edit_result drag s t \<longleftrightarrow> pp_busy t = pp_busy s \<and> pp_draft t \<noteq> None \<and>
     (if pp_previewRevision t = pp_previewRevision s
      then the_manifest t = the_manifest s \<and> pp_history t = pp_history s \<and> pp_gesture t = pp_gesture s
      else pp_previewRevision s < pp_previewRevision t \<and> pp_gesture t = drag \<and>
        pp_history t = (if pp_gesture s then pp_history s else push (pp_history s) (the (the_manifest s))))"


lemma parts_draft:
  fixes s :: PrepareComponent
  shows
  "pp_draft (set_pages ps s) = None \<longleftrightarrow> pp_draft s = None" "pp_draft (set_manifest m s) = None \<longleftrightarrow> pp_draft s = None"
  "pp_draft (edit_page f s) = None \<longleftrightarrow> pp_draft s = None" "pp_draft (startGesture s) = pp_draft s"
  "pp_draft (endGesture s) = pp_draft s" "pp_draft (remember s) = pp_draft s"
proof -
  show "pp_draft (startGesture s) = pp_draft s" "pp_draft (endGesture s) = pp_draft s" "pp_draft (remember s) = pp_draft s"
    using same_edits_parts(5-7) [of s] by (simp_all add: same_edits_def)
qed (simp_all add: draft_there)

lemma endGesture_over [simp]: "\<not> pp_gesture (endGesture s)"
  by (simp add: endGesture_def)

lemma discrete_edit:
  assumes "discrete e" and "pp_draft s = Some d" and "\<not> pp_gesture s"
  shows "edit_result False s (apply_edit W e s)"
proof (cases e)
  case (Change key v)
  then show ?thesis using assms(1) by simp
qed (use assms in \<open>auto simp: edit_result_def rotate_page_def resetPage_def resetAll_def move_page_def remove_page_def
      keepSelected_def useRange_def applyEdges_def Let_def parts_draft the_manifest_def remember_push
      simp del: not_None_eq split: option.split sum.split\<close>)

lemma continuous_edit:
  assumes "continuous e" and "pp_draft s = Some d"
  shows "edit_result True s (apply_edit W e s)"
  using assms startGesture_push [OF assms(2)]
  by (cases e)
     (auto simp: edit_result_def changeMargin_def change_def changePaperStrength_def Let_def parts_draft the_manifest_def
       simp del: not_None_eq split: option.split)


text \<open>A gesture, however many movements it has, is one version.\<close>

lemma gesture_edits:
  assumes "list_all continuous es" and "pp_draft s \<noteq> None"
  shows "edit_result True s (fold (apply_edit W) es s)"
  using assms
proof (induction es arbitrary: s)
  case (Cons e es)
  obtain d where d: "pp_draft s = Some d" using Cons.prems(2) by auto
  have one: "edit_result True s (apply_edit W e s)" by (rule continuous_edit [OF _ d]) (use Cons.prems(1) in simp)
  then have "pp_draft (apply_edit W e s) \<noteq> None" by (simp add: edit_result_def)
  from Cons.IH [OF _ this] Cons.prems(1) have rest: "edit_result True (apply_edit W e s) (fold (apply_edit W) es (apply_edit W e s))"
    by simp
  show ?case using one rest unfolding edit_result_def by (auto split: if_splits)
qed (simp add: edit_result_def)

lemma group_result:
  assumes "group_ok g" and "pp_draft s \<noteq> None" and "\<not> pp_gesture s"
  shows "edit_result False s (group_step W g s)"
proof (cases g)
  case (Single e)
  then show ?thesis using assms discrete_edit by (auto simp: group_ok_def group_step_def)
next
  case (Gesture es)
  have "edit_result True s (fold (apply_edit W) es s)"
    by (rule gesture_edits) (use assms Gesture in \<open>simp_all add: group_ok_def\<close>)
  then have "edit_result False s (endGesture (fold (apply_edit W) es s))"
    using assms(3) by (auto simp: edit_result_def the_manifest_def parts_draft split: if_splits)
  then show ?thesis by (simp add: group_step_def Gesture)
qed

lemma versions_Some: "\<lbrakk>list_all group_ok gs; pp_draft s \<noteq> None; \<not> pp_gesture s\<rbrakk> \<Longrightarrow> None \<notin> set (versions W gs s)"
proof (induction gs arbitrary: s)
  case (Cons g gs)
  have "edit_result False s (group_step W g s)" by (rule group_result) (use Cons.prems in simp_all)
  then have "pp_draft (group_step W g s) \<noteq> None" "\<not> pp_gesture (group_step W g s)"
    using Cons.prems(3) by (auto simp: edit_result_def split: if_splits)
  then show ?case using Cons by (auto simp: the_manifest_def)
qed simp

definition keep_last :: "nat \<Rightarrow> 'a list \<Rightarrow> 'a list" where
  "keep_last n xs = drop (length xs - n) xs"

lemma keep_last_push: "push (keep_last HISTORY_LIMIT h) m = keep_last HISTORY_LIMIT (h @ [m])"
proof (cases "length h \<ge> HISTORY_LIMIT")
  case True
  then have "tl (drop (length h - HISTORY_LIMIT) h @ [m]) = drop (Suc (length h - HISTORY_LIMIT)) (h @ [m])"
    by (simp add: drop_Suc tl_drop HISTORY_LIMIT_def)
  then show ?thesis using True by (simp add: push_def keep_last_def Suc_diff_le)
qed (simp add: push_def keep_last_def)

lemma groups_history:
  assumes "list_all group_ok gs" and "pp_draft s \<noteq> None" and "\<not> pp_gesture s" and "pp_history s = keep_last HISTORY_LIMIT h"
  shows "pp_history (fold (group_step W) gs s) = keep_last HISTORY_LIMIT (h @ map the (versions W gs s)) \<and>
    pp_draft (fold (group_step W) gs s) \<noteq> None \<and> \<not> pp_gesture (fold (group_step W) gs s) \<and>
    pp_busy (fold (group_step W) gs s) = pp_busy s"
  using assms
proof (induction gs arbitrary: s h)
  case (Cons g gs)
  let ?t = "group_step W g s"
  have r: "edit_result False s ?t" by (rule group_result) (use Cons.prems in simp_all)
  then have t: "pp_draft ?t \<noteq> None" "\<not> pp_gesture ?t" "pp_busy ?t = pp_busy s"
    using Cons.prems(3) by (auto simp: edit_result_def split: if_splits)
  show ?case
  proof (cases "pp_previewRevision ?t = pp_previewRevision s")
    case True
    then have "pp_history ?t = keep_last HISTORY_LIMIT h" using r Cons.prems(4) by (simp add: edit_result_def)
    from Cons.IH [OF _ t(1,2) this] Cons.prems(1) t(3) True show ?thesis by simp
  next
    case False
    then have "pp_history ?t = keep_last HISTORY_LIMIT (h @ [the (the_manifest s)])"
      using r Cons.prems(3,4) by (simp add: edit_result_def keep_last_push)
    from Cons.IH [OF _ t(1,2) this] Cons.prems(1) t(3) False show ?thesis by simp
  qed
qed simp

text \<open>Drawing again touches neither the pages nor the history.\<close>

definition same_view :: "PrepareComponent \<Rightarrow> PrepareComponent \<Rightarrow> bool" where
  "same_view s t \<longleftrightarrow> pp_busy t = pp_busy s \<and> pp_history t = pp_history s \<and> pp_gesture t = pp_gesture s \<and>
     pp_draft t = pp_draft s \<and> pp_selected t = pp_selected s"

lemma run_worker_view: "same_view s (snd (run_worker W foreground job s))"
  by (simp add: run_worker_def Let_def same_view_def syncCancellable_def split: prod.split option.split)

lemma redraw_view: "same_view s (render_preview W None s)"
proof -
  define t where "t = invalidatePreview (s\<lparr>pp_previewTimer := False\<rparr>)"
  have t: "same_view s t" by (simp add: t_def same_view_def)
  have "same_view s (renderAuthoritativePreview W page revision source None t)" for page revision source
    using t run_worker_view [of t W False "WBuild page revision source None"]
    by (cases "run_worker W False (WBuild page revision source None) t")
       (auto simp: renderAuthoritativePreview_def preview_failed_def preview_over_def same_view_def split: bool.split)
  then show ?thesis using t unfolding render_preview_def Let_def t_def [symmetric]
    by (auto simp: same_view_def preview_over_def split: option.split)
qed

lemma undo_result:
  assumes "\<not> pp_busy s" and "pp_draft s \<noteq> None"
  shows "\<not> pp_busy (undo W s)" "pp_draft (undo W s) \<noteq> None" "pp_history (undo W s) = butlast (pp_history s)"
    "the_manifest (undo W s) = (if pp_history s = [] then the_manifest s else Some (last (pp_history s)))"
proof -
  define t where "t = endGesture s"
  define u where "u = (set_manifest (last (pp_history t)) (t\<lparr>pp_history := butlast (pp_history t)\<rparr>))"
  define v where "v = mark (reconcilePreparedKeys (u\<lparr>pp_selected := min (pp_selected u) (int (length (m_pages (last (pp_history t)))) - 1)\<rparr>))"
  have t: "pp_draft t = pp_draft s" "pp_history t = pp_history s" "pp_busy t = pp_busy s"
    by (simp_all add: t_def endGesture_def)
  have v: "pp_draft v = pp_draft u" "pp_history v = pp_history u" "pp_busy v = pp_busy u"
    by (simp_all add: v_def)
  have u: "pp_history u = butlast (pp_history s)" "pp_busy u = pp_busy s" "pp_draft u \<noteq> None"
    "the_manifest u = Some (last (pp_history s))"
    using assms(2) by (auto simp: u_def t set_manifest_def the_manifest_def)
  have undo: "undo W s = (if pp_history s = [] then t else render_preview W None v)"
    using assms(1) unfolding undo_def Let_def t_def [symmetric] u_def [symmetric] v_def [symmetric] by (simp add: t)
  have r: "same_view v (render_preview W None v)" by (rule redraw_view)
  show "\<not> pp_busy (undo W s)" "pp_draft (undo W s) \<noteq> None" "pp_history (undo W s) = butlast (pp_history s)"
    "the_manifest (undo W s) = (if pp_history s = [] then the_manifest s else Some (last (pp_history s)))"
    using r u v t assms by (simp_all add: undo same_view_def the_manifest_def del: not_None_eq)
qed

lemma undos_result:
  assumes "\<not> pp_busy s" and "pp_draft s \<noteq> None"
  shows "\<not> pp_busy ((undo W ^^ n) s) \<and> pp_draft ((undo W ^^ n) s) \<noteq> None \<and>
    pp_history ((undo W ^^ n) s) = take (length (pp_history s) - n) (pp_history s) \<and>
    the_manifest ((undo W ^^ n) s) = (map Some (pp_history s) @ [the_manifest s]) ! (length (pp_history s) - n)"
proof (induction n)
  case (Suc n)
  let ?t = "(undo W ^^ n) s" and ?h = "pp_history s"
  note r = undo_result [of ?t W]
  have h: "pp_history ?t = take (length ?h - n) ?h" using Suc.IH by blast
  have "butlast (take (length ?h - n) ?h) = take (length ?h - Suc n) ?h"
    by (simp add: butlast_take)
  moreover have "(if pp_history ?t = [] then the_manifest ?t else Some (last (pp_history ?t))) =
      (map Some ?h @ [the_manifest s]) ! (length ?h - Suc n)"
  proof (cases "n < length ?h")
    case True
    then have "take (length ?h - n) ?h \<noteq> []" by auto
    moreover have "length ?h - Suc n < length ?h - n" using True by linarith
    ultimately have "last (take (length ?h - n) ?h) = ?h ! (length ?h - Suc n)"
      by (simp add: last_conv_nth)
    then show ?thesis using True h by (auto simp: nth_append)
  next
    case False
    then show ?thesis using Suc.IH h by simp
  qed
  ultimately show ?case using r Suc.IH h by simp
qed (use assms in \<open>simp add: nth_append\<close>)

text \<open>C14: Undo goes back through the versions the user saw. However the pages are edited, each edit and
  each gesture that the page accepts is one version, a gesture however many movements it has; and
  undoing \<open>n\<close> times shows the manifest from before the last \<open>n\<close> of them, or the oldest of the
  last thirty.\<close>

theorem undo_walks_back:
  assumes "list_all group_ok gs" and "pp_draft s \<noteq> None" and "\<not> pp_gesture s" and "pp_history s = []" and "\<not> pp_busy s"
    and "t = fold (group_step W) gs s"
  shows "the_manifest ((undo W ^^ n) t) =
    (keep_last 31 (versions W gs s @ [the_manifest t])) ! (min 30 (length (versions W gs s)) - n)"
proof -
  let ?vs = "versions W gs s"
  have "pp_history s = keep_last HISTORY_LIMIT []" using assms(4) by (simp add: keep_last_def)
  from groups_history [OF assms(1-3) this] have h: "pp_history t = keep_last 30 (map the ?vs)"
    and t: "pp_draft t \<noteq> None" "\<not> pp_busy t" using assms(5,6) by (simp_all add: HISTORY_LIMIT_def)
  have n: "None \<notin> set ?vs" by (rule versions_Some [OF assms(1-3)])
  have "Some (the x) = x" if "x \<in> set (keep_last 30 ?vs)" for x
    using n that by (cases x) (auto simp: keep_last_def dest: in_set_dropD)
  then have "map Some (keep_last 30 (map the ?vs)) = keep_last 30 ?vs"
    by (auto simp: keep_last_def drop_map intro!: map_idI)
  moreover have "keep_last 31 (?vs @ [the_manifest t]) = keep_last 30 ?vs @ [the_manifest t]"
    by (auto simp: keep_last_def)
  moreover have "length (keep_last 30 (map the ?vs)) = min 30 (length ?vs)" by (simp add: keep_last_def)
  ultimately show ?thesis using undos_result [OF t(2,1), where W = W and n = n] by (simp add: h)
qed


definition demo_manifest :: "jstring list \<Rightarrow> EditManifest" where
  "demo_manifest ids = \<lparr>m_version = 1, m_pages = map (\<lambda>i. source_page i [] 0) ids\<rparr>"

definition demo_pages :: PrepareComponent where
  "demo_pages = new_prepare\<lparr>pp_draft := Some (demo_draft\<lparr>d_manifest := demo_manifest [[1], [2]]\<rparr>)\<rparr>"

definition demo_groups :: "edit_group list" where
  "demo_groups = [Single (MovePage 1), Single RemovePage]"

lemma demo_versions:
  "versions demo_web demo_groups demo_pages = [Some (demo_manifest [[1], [2]]), Some (demo_manifest [[2], [1]])]"
  by (simp add: demo_groups_def demo_pages_def new_prepare_def demo_draft_def group_step_def move_page_def remove_page_def
      the_pages_def the_page_def page_at_def set_pages_def remember_def changed_def mark_def finalized_def
      reconcilePreparedKeys_def keys_of_pages_def currentPreparedKey_def prepared_key_of_def find_source_def
      invalidatePreview_def activeRequest_def new_client_def Let_def the_manifest_def demo_manifest_def source_page_def)

theorem undo_walks_back_witness:
  "the_manifest ((undo demo_web ^^ 1) (fold (group_step demo_web) demo_groups demo_pages)) = Some (demo_manifest [[2], [1]]) \<and>
   the_manifest ((undo demo_web ^^ 5) (fold (group_step demo_web) demo_groups demo_pages)) = Some (demo_manifest [[1], [2]])"
proof -
  have "list_all group_ok demo_groups" by (simp add: demo_groups_def group_ok_def)
  moreover have "pp_draft demo_pages \<noteq> None" "\<not> pp_gesture demo_pages" "pp_history demo_pages = []" "\<not> pp_busy demo_pages"
    by (simp_all add: demo_pages_def new_prepare_def)
  ultimately have u: "the_manifest ((undo demo_web ^^ n) (fold (group_step demo_web) demo_groups demo_pages)) =
      (keep_last 31 (versions demo_web demo_groups demo_pages @ [m])) ! (min 30 (length (versions demo_web demo_groups demo_pages)) - n)"
    if "m = the_manifest (fold (group_step demo_web) demo_groups demo_pages)" for n m
    unfolding that by (rule undo_walks_back [OF _ _ _ _ _ refl])
  show ?thesis unfolding u [OF refl] by (simp add: demo_versions keep_last_def)
qed


section \<open>Bounds\<close>

definition same_pages :: "PrepareComponent \<Rightarrow> PrepareComponent \<Rightarrow> bool" where
  "same_pages s t \<longleftrightarrow> the_pages t = the_pages s \<and> (pp_draft t = None \<longleftrightarrow> pp_draft s = None) \<and>
     pp_history t = pp_history s \<and> pp_selected t = pp_selected s"

lemma same_pages_refl [simp]: "same_pages s s"
  by (simp add: same_pages_def)

lemma same_pages_trans: "same_pages s t \<Longrightarrow> same_pages t u \<Longrightarrow> same_pages s u"
  by (simp add: same_pages_def)

lemma same_pages_I: "pp_draft t = pp_draft s \<Longrightarrow> pp_history t = pp_history s \<Longrightarrow> pp_selected t = pp_selected s \<Longrightarrow> same_pages s t"
  by (simp add: same_pages_def the_pages_def)

interpretation pages: quiet_steps same_pages
proof (unfold_locales, goal_cases)
  case 2
  then show ?case by (rule same_pages_trans)
next
  case (10 s W foreground wjob)
  show ?case using run_worker_view [of s W foreground wjob] by (intro same_pages_I) (simp_all add: same_view_def)
qed (intro same_pages_I; simp add: finalize_failed_def finalize_over_def worker_finally_def upload_finally_def Let_def
    syncCancellable_def setStep_def start_drawing_def)+

text \<open>The manifests shown and remembered are small, and the selected page is one of them, or none (-1).\<close>

definition pages_ok :: "PrepareComponent \<Rightarrow> bool" where
  "pages_ok s \<longleftrightarrow> length (the_pages s) \<le> MAX_PREPARED_PAGES \<and>
     (\<forall>m \<in> set (pp_history s). length (m_pages m) \<le> MAX_PREPARED_PAGES) \<and> length (pp_history s) \<le> HISTORY_LIMIT \<and>
     - 1 \<le> pp_selected s \<and> pp_selected s < max 1 (int (length (the_pages s)))"

lemma same_pages_ok: "same_pages s t \<Longrightarrow> pages_ok s \<Longrightarrow> pages_ok t"
  by (simp add: same_pages_def pages_ok_def)


lemma in_set_tlD: "x \<in> set (tl xs) \<Longrightarrow> x \<in> set xs"
  by (cases xs) auto

lemma remember_ok: "pages_ok s \<Longrightarrow> pages_ok (remember s)"
  by (auto simp: pages_ok_def remember_def the_pages_def Let_def HISTORY_LIMIT_def split: option.split dest!: in_set_tlD)

lemma pages_ok_parts:
  "pages_ok s \<Longrightarrow> pages_ok (startGesture s)" "pages_ok s \<Longrightarrow> pages_ok (endGesture s)"
  "pages_ok s \<Longrightarrow> pages_ok (changed s)" "pages_ok s \<Longrightarrow> pages_ok (mark s)" "pages_ok s \<Longrightarrow> pages_ok (on_imslp g s)"
proof -
  assume ok: "pages_ok s"
  have g: "pages_ok (t\<lparr>pp_gesture := b\<rparr>) = pages_ok t" for t b by (simp add: pages_ok_def the_pages_def)
  show "pages_ok (startGesture s)" "pages_ok (endGesture s)"
    using ok remember_ok [OF ok] by (simp_all add: startGesture_def endGesture_def g)
  have "same_pages s (changed s)" "same_pages s (mark s)" "same_pages s (on_imslp g s)"
    by (intro same_pages_I; simp add: on_imslp_def)+
  then show "pages_ok (changed s)" "pages_ok (mark s)" "pages_ok (on_imslp g s)" using ok same_pages_ok by blast+
qed

lemma the_pages_set [simp]:
  "the_pages (set_pages ps s) = (if pp_draft s = None then [] else ps)"
  "the_pages (set_manifest m s) = (if pp_draft s = None then [] else m_pages m)"
  by (auto simp: the_pages_def set_pages_def set_manifest_def split: option.split)

lemma the_pages_remember [simp]:
  "the_pages (remember s) = the_pages (s :: PrepareComponent)" "the_pages (startGesture s) = the_pages s"
  "the_pages (endGesture s) = the_pages s" "the_pages (changed s) = the_pages s"
  by (simp_all add: the_pages_def parts_draft)

lemma edit_page_ok: "pages_ok s \<Longrightarrow> pages_ok (edit_page f s)"
  by (auto simp: edit_page_def pages_ok_def the_pages_def set_pages_def split: option.splits)

text \<open>A new list of pages, with the page selected in it.\<close>

lemma new_pages_ok:
  assumes "pages_ok s" and "length ps \<le> MAX_PREPARED_PAGES" and "- 1 \<le> i" and "i < max 1 (int (length ps))"
    and "the_pages t = ps \<or> the_pages t = []" and "pp_history t = pp_history (remember s) \<or> pp_history t = pp_history s"
    and "pp_selected t = i" and "the_pages t = [] \<longrightarrow> i < 1"
  shows "pages_ok t"
  using assms remember_ok [OF assms(1)] by (auto simp: pages_ok_def)

lemma useRange_ok:
  assumes "pages_ok s"
  shows "pages_ok (useRange upper uuid s)"
proof -
  have err: "pages_ok (s\<lparr>pp_error := e\<rparr>)" for e using assms by (simp add: pages_ok_def the_pages_def)
  have "pages_ok (changed ((set_manifest \<lparr>m_version = 1, m_pages = map f (zip [0..<length pages] pages)\<rparr> (remember s))
      \<lparr>pp_uuids := n, pp_selected := 0\<rparr>))" if "read_range k rt = Inr pages" for f pages n k rt
  proof (rule pages_ok_parts(3), rule new_pages_ok [OF assms])
    show "length (map f (zip [0..<length pages] pages)) \<le> MAX_PREPARED_PAGES"
      using that by (auto simp: read_range_def split: sum.splits if_splits)
  qed (auto simp: the_pages_def set_manifest_def split: option.split)
  then show ?thesis using assms err by (auto simp: useRange_def split: option.split sum.split)
qed

lemma apply_edit_pages:
  assumes "pages_ok s"
  shows "pages_ok (apply_edit W e s)"
proof (cases e)
  case (Margin i mm)
  then show ?thesis using assms by (auto simp: changeMargin_def intro!: pages_ok_parts edit_page_ok split: option.split)
next
  case (Change key v)
  then show ?thesis using assms by (auto simp: change_def Let_def intro!: pages_ok_parts edit_page_ok split: option.split)
next
  case (PaperStrength v)
  then show ?thesis using assms by (auto simp: changePaperStrength_def intro!: pages_ok_parts edit_page_ok)
next
  case ResetPage
  have "pages_ok ((edit_page bare_page (remember s))\<lparr>pp_handles := None\<rparr>)"
    using edit_page_ok [OF remember_ok [OF assms]] by (simp add: pages_ok_def the_pages_def)
  then show ?thesis using assms by (auto simp: ResetPage resetPage_def intro!: pages_ok_parts)
next
  case ResetAll
  have "pages_ok (set_manifest \<lparr>m_version = 1, m_pages = map bare_page (the_pages s)\<rparr> (remember s))" if "pp_draft s \<noteq> None"
    using remember_ok [OF assms] that by (auto simp: pages_ok_def)
  then show ?thesis using assms by (auto simp: ResetAll resetAll_def intro!: pages_ok_parts)
next
  case (MovePage delta)
  have "pages_ok ((set_pages ps (remember s))\<lparr>pp_selected := target\<rparr>)" if "length ps = length (the_pages s)" "0 \<le> target" "target < int (length (the_pages s))" for ps target
    by (rule new_pages_ok [OF assms, of ps target])
      (use that assms in \<open>auto simp: pages_ok_def the_pages_def set_pages_def split: option.splits\<close>)
  then show ?thesis using assms by (auto simp: MovePage move_page_def Let_def intro!: pages_ok_parts)
next
  case RemovePage
  define ps where "ps = take (nat (pp_selected s)) (the_pages s) @ drop (nat (pp_selected s) + 1) (the_pages s)"
  have "pages_ok ((set_pages ps (remember s))\<lparr>pp_selected := max 0 (min (pp_selected s) (int (length ps) - 1))\<rparr>)"
    if "the_page s \<noteq> None"
  proof (rule new_pages_ok [OF assms, of ps])
    have "nat (pp_selected s) < length (the_pages s)"
      using that by (auto simp: the_page_def page_at_def split: if_splits)
    then have "length ps \<le> length (the_pages s)" by (simp add: ps_def)
    then show "length ps \<le> MAX_PREPARED_PAGES" using assms unfolding pages_ok_def by linarith
  qed (use that in \<open>auto simp: the_page_def page_at_def the_pages_def set_pages_def split: option.splits if_splits\<close>)
  moreover have "remove_page s = (if the_page s = None \<or> pp_busy s then s else changed ((set_pages ps (remember s))
      \<lparr>pp_selected := max 0 (min (pp_selected s) (int (length ps) - 1))\<rparr>))"
    by (simp only: remove_page_def Let_def ps_def)
  ultimately show ?thesis using assms by (simp add: RemovePage pages_ok_parts del: not_None_eq)
next
  case KeepSelected
  have "pages_ok ((set_pages (filter P (the_pages s)) (remember s))\<lparr>pp_selected := 0\<rparr>)" for P
  proof (rule new_pages_ok [OF assms, of "filter P (the_pages s)" 0])
    show "length (filter P (the_pages s)) \<le> MAX_PREPARED_PAGES"
      using assms length_filter_le [of P "the_pages s"] unfolding pages_ok_def by linarith
  qed (auto simp: the_pages_def set_pages_def split: option.splits)
  then show ?thesis using assms by (auto simp: KeepSelected keepSelected_def intro!: pages_ok_parts)
next
  case ApplyEdges
  have "pages_ok ((edit_page f (remember s))\<lparr>pp_handles := None, pp_pendingEdges := [], pp_compare := False\<rparr>)" for f
    using edit_page_ok [OF remember_ok [OF assms]] by (simp add: pages_ok_def the_pages_def)
  then show ?thesis using assms by (auto simp: ApplyEdges applyEdges_def intro!: pages_ok_parts)
next
  case (Metadata f)
  have "d_manifest (update_draft f d) = d_manifest d" for d by (cases f) (simp_all add: edit_field_def)
  then have "pages_ok (s\<lparr>pp_draft := map_option (update_draft f) (pp_draft s)\<rparr>)"
    using assms by (simp add: pages_ok_def the_pages_def split: option.splits)
  then show ?thesis using assms by (auto simp: Metadata updateMetadata_def intro!: pages_ok_parts)
qed (use assms in \<open>auto simp: rotate_page_def useRange_ok intro!: pages_ok_parts edit_page_ok remember_ok\<close>)


lemma undo_pages:
  assumes "pages_ok s"
  shows "pages_ok (undo W s)"
proof (cases "pp_busy s \<or> pp_history s = []")
  case False
  define m where "m = last (pp_history s)"
  define t where "t = (set_manifest m ((endGesture s)\<lparr>pp_history := butlast (pp_history s)\<rparr>))"
  define u where "u = t\<lparr>pp_selected := min (pp_selected t) (int (length (m_pages m)) - 1)\<rparr>"
  have m: "length (m_pages m) \<le> MAX_PREPARED_PAGES" using assms False by (simp add: pages_ok_def m_def)
  have "pages_ok u" using assms m
    by (auto simp: pages_ok_def u_def t_def the_pages_def set_manifest_def dest: in_set_butlastD split: option.splits)
  moreover have "same_pages u (mark (reconcilePreparedKeys u))" by (rule same_pages_I) simp_all
  ultimately have "pages_ok (render_preview W None (mark (reconcilePreparedKeys u)))"
    by (blast intro: same_pages_ok pages.render_preview_quiet)
  moreover have "undo W s = render_preview W None (mark (reconcilePreparedKeys u))"
    using False by (simp add: undo_def Let_def u_def t_def m_def)
  ultimately show ?thesis by simp
qed (use assms in \<open>auto simp: undo_def Let_def pages_ok_parts\<close>)

lemma upload_added_pages:
  assumes "pages_ok s"
  shows "pages_ok (upload_added W job old s)"
proof -
  define t where "t = s\<lparr>pp_selected := min (int (length (m_pages (d_manifest old)))) (int (length (the_pages s)) - 1)\<rparr>"
  have "the_pages t = the_pages s" by (simp add: t_def the_pages_def)
  then have "pages_ok t" using assms by (auto simp: pages_ok_def t_def)
  then show ?thesis unfolding upload_added_def Let_def t_def [symmetric]
    by (rule same_pages_ok [OF pages.upload_next_quiet])
qed

lemma resume_save_pages:
  assumes "pages_ok s"
  shows "pages_ok (resume_save W k outcome s)"
proof (cases k)
  case (AfterUpload job)
  have "same_pages s (s\<lparr>pp_replaceID := r\<rparr>)" for r by (simp add: same_pages_def the_pages_def)
  from same_pages_ok [OF same_pages_trans [OF this pages.upload_next_quiet] assms] show ?thesis
    using same_pages_ok [OF pages.upload_failed_quiet [OF same_pages_refl] assms]
    by (simp add: resume_save_def AfterUpload split: sum.split)
next
  case (AfterReplace job old)
  have "same_pages s ((reconcilePreparedKeys s)\<lparr>pp_replaceID := None\<rparr>)" by (rule same_pages_I) simp_all
  from upload_added_pages [OF same_pages_ok [OF this assms]] show ?thesis
    using same_pages_ok [OF pages.upload_failed_quiet [OF same_pages_refl] assms]
    by (simp add: resume_save_def AfterReplace split: sum.split)
next
  case AfterFinalize
  then show ?thesis
    using same_pages_ok [OF pages.start_build_quiet assms] same_pages_ok [OF pages.finalize_fails assms]
    by (simp add: resume_save_def split: sum.split)
next
  case AfterContinue
  then show ?thesis using same_pages_ok [OF pages.stepping assms] same_pages_ok [OF pages.failing assms]
    by (simp add: resume_save_def split: sum.split)
qed (use assms in \<open>auto simp: resume_save_def fail_with_def pages_ok_def the_pages_def split: sum.split\<close>)

lemma persist_call_same: "same_pages s (snd (persist_call k s))"
  by (auto simp: persist_call_def Let_def same_pages_def the_pages_def split: option.split)

lemma persist_pages: "pages_ok s \<Longrightarrow> pages_ok (persist W k s)"
  using same_pages_ok [OF persist_call_same [of s k]] by (auto simp: persist_def resume_save_pages split: prod.split)

lemma save_answered_pages:
  assumes "pages_ok s"
  shows "pages_ok (save_answered W answer s)"
proof (cases "pa_pendingSave s")
  case (Some snapshot)
  define outcome where "outcome = (case answer of Inl e \<Rightarrow> Inl e | Inr _ \<Rightarrow> Inr ())"
  define t where "t = (save_settled answer snapshot s)\<lparr>pa_pendingSave := None, pa_waiters := []\<rparr>"
  have t: "same_pages s t"
    by (auto simp: t_def save_settled_def same_pages_def the_pages_def split: sum.split prod.split option.split)
  have "same_pages t' (wake_deleting W outcome w t')" for w t'
    by (auto simp: wake_deleting_def delete_started_def fail_with_def same_pages_def the_pages_def split: Waiter.split sum.split)
  then have d: "same_pages t' (fold (wake_deleting W outcome) ws t')" for ws t'
    by (induction ws arbitrary: t') (auto intro: same_pages_trans)
  have "snd (wake_waiter outcome w (r, t')) = t' \<or> (\<exists>k. snd (wake_waiter outcome w (r, t')) = snd (persist_call k t'))" for w r t'
    by (cases w) (auto simp: wake_waiter_def case_prod_unfold split: sum.splits)
  then have one: "same_pages t' (snd (wake_waiter outcome w (r, t')))" for w r t'
    using persist_call_same by (metis same_pages_refl)
  have w: "same_pages t' (snd (fold (wake_waiter outcome) ws (r, t')))" for ws r t'
  proof (induction ws arbitrary: r t')
    case (Cons w ws)
    obtain r2 t2 where eq: "wake_waiter outcome w (r, t') = (r2, t2)" by fastforce
    have "same_pages t' t2" using one [of t' w r] eq by simp
    from same_pages_trans [OF this Cons.IH [of t2 r2]] show ?case using eq by simp
  qed simp
  obtain ready u where u: "fold (wake_waiter outcome) (pa_waiters s) ([], fold (wake_deleting W outcome) (pa_waiters s) t) = (ready, u)"
    by fastforce
  have "same_pages s u" using same_pages_trans [OF t same_pages_trans [OF d w]] u by (metis snd_conv)
  then have "pages_ok u" using same_pages_ok assms by blast
  then have "pages_ok (fold (\<lambda>(k, outcome). resume_save W k outcome) ready u)"
    by (induction ready arbitrary: u) (auto simp: resume_save_pages)
  then show ?thesis
    unfolding save_answered_def Some option.case Let_def t_def [symmetric] outcome_def [symmetric] by (simp add: u)
qed (use assms in \<open>simp add: save_answered_def\<close>)


text \<open>
  What is left out: the draft is loaded once, the server appends the pages of a new file, and only
  pages there are can be chosen.
\<close>

definition adds_pages :: "PrepareComponent \<Rightarrow> ImportDraft \<Rightarrow> bool" where
  "adds_pages s d \<longleftrightarrow> length (m_pages (d_manifest d)) \<le> MAX_PREPARED_PAGES \<and>
     (\<exists>new. m_pages (d_manifest d) = the_pages s @ new) \<and>
     (case pa_upload s of
        None \<Rightarrow> True
      | Some (job, old) \<Rightarrow> list_all (\<lambda>p. e_sourceId p \<in> a_id ` set (d_sources old)) (the_pages s))"

definition sound_pages :: "PrepareComponent \<Rightarrow> prepare_event \<Rightarrow> bool" where
  "sound_pages s e \<longleftrightarrow> (case e of
     ChoosePage i \<Rightarrow> i < length (the_pages s)
   | DraftLoaded (Inr d) \<Rightarrow> pp_draft s = None \<and> length (m_pages (d_manifest d)) \<le> MAX_PREPARED_PAGES
   | UploadAnswered (Inr d) \<Rightarrow> adds_pages s d
   | _ \<Rightarrow> True)"

lemma replace_page_length:
  assumes "m_pages m = old @ new" and "list_all (\<lambda>p. e_sourceId p \<noteq> source) old" and "target < length (m_pages m)"
  shows "length old \<le> length (replace_page target i source (m_pages m)) \<and>
    length (replace_page target i source (m_pages m)) \<le> length (m_pages m)"
proof -
  define kept where "kept = filter (\<lambda>p. e_sourceId p \<noteq> source) (m_pages m)"
  have "filter (\<lambda>p. e_sourceId p \<noteq> source) old = old" using assms(2) by (auto simp: filter_id_conv list_all_iff)
  then have "length old \<le> length kept" by (simp add: kept_def assms(1))
  moreover have "length kept \<le> length (m_pages m)" by (simp add: kept_def)
  ultimately show ?thesis using assms(3) by (auto simp: replace_page_def Let_def simp flip: kept_def)
qed

lemma upload_answered_pages:
  assumes "pages_ok s" and "sound_pages s (UploadAnswered answer)"
  shows "pages_ok (upload_answered W answer s)"
proof (cases "pa_upload s")
  case (Some sent)
  obtain job old where sent: "sent = (job, old)" by fastforce
  define t where "t = s\<lparr>pa_upload := None\<rparr>"
  have t: "pages_ok t" "the_pages t = the_pages s" "pp_selected t = pp_selected s"
    using assms(1) by (simp_all add: t_def pages_ok_def the_pages_def)
  show ?thesis
  proof (cases answer)
    case (Inl e)
    then show ?thesis using Some sent same_pages_ok [OF pages.upload_failed_quiet [OF same_pages_refl] t(1)]
      by (simp add: upload_answered_def t_def)
  next
    case (Inr d)
    let ?ps = "m_pages (d_manifest d)"
    have a: "adds_pages s d" using assms(2) by (simp add: sound_pages_def Inr)
    then obtain new where new: "?ps = the_pages s @ new" "length ?ps \<le> MAX_PREPARED_PAGES"
      and old: "list_all (\<lambda>p. e_sourceId p \<in> a_id ` set (d_sources old)) (the_pages s)"
      by (auto simp: adds_pages_def Some sent)
    have sel: "- 1 \<le> pp_selected s" "pp_selected s < max 1 (int (length (the_pages s)))"
      using assms(1) by (simp_all add: pages_ok_def)
    define u where "u = (remember t)\<lparr>pp_draft := Some d, pa_acked := Some d,
      pp_rangeSourceId := (if pp_rangeSourceId (remember t) \<noteq> [] then pp_rangeSourceId (remember t)
        else case d_sources d of [] \<Rightarrow> [] | a # as \<Rightarrow> a_id a)\<rparr>"
    have u: "the_pages u = ?ps" "pp_history u = pp_history (remember t)" "pp_selected u = pp_selected s" "pp_draft u = Some d"
      by (simp_all add: u_def the_pages_def t_def)
    have ok: "pages_ok (set_pages ps' u)" if "length (the_pages s) \<le> length ps'" "length ps' \<le> MAX_PREPARED_PAGES" for ps'
      by (rule new_pages_ok [OF t(1) that(2), of "pp_selected s"]) (use sel that u in auto)
    have uu: "pages_ok u"
      by (rule new_pages_ok [OF t(1) new(2), of "pp_selected s"]) (use sel new u in auto)
    have replaced: "pages_ok (persist W (AfterReplace job old) (mark (set_pages (replace_page target i (a_id a) ?ps) u)))"
      if "find (\<lambda>a. a_id a \<notin> a_id ` set (d_sources old)) (d_sources d) = Some a"
        "find_index (\<lambda>p. e_id p = i) ?ps = Some target" for a i target
    proof -
      have "a_id a \<notin> a_id ` set (d_sources old)" using find_Some_in [OF that(1)] by blast
      then have "list_all (\<lambda>p. e_sourceId p \<noteq> a_id a) (the_pages s)" using old unfolding list_all_iff by metis
      from replace_page_length [OF new(1) this, of target i] find_index_Some [OF that(2)] new(2)
      show ?thesis by (intro persist_pages pages_ok_parts ok) linarith+
    qed
    have "pages_ok (upload_added W job' old u)" "pages_ok (upload_failed W e job u)" for job' e
      using upload_added_pages [OF uu] same_pages_ok [OF pages.upload_failed_quiet [OF same_pages_refl] uu] by simp_all
    then show ?thesis using replaced
      unfolding upload_answered_def Some sent Inr option.case prod.case sum.case Let_def t_def [symmetric] u_def [symmetric]
      by (simp split: option.split)
  qed
qed (use assms in \<open>simp add: upload_answered_def\<close>)


lemma view_pages:
  assumes "pages_ok s"
  shows "pages_ok (toggle_page j s)" "pages_ok (setCompare W v s)" "pages_ok (beginEdges W s)" "pages_ok (cancelEdges W s)"
    "pages_ok (resetPendingEdges s)" "pages_ok (move_pending_edge k x y r s)" "pages_ok (preview_timer_fired W s)"
    "pages_ok (chooseSource mode s)" "pages_ok (dragOver b s)" "pages_ok (dragLeave b s)" "pages_ok (changeWork s)"
    "pages_ok (cancel_processing s)" "pages_ok (setStep step s)" "pages_ok (drawing_ended W n outcome s)"
    "pages_ok (prepareInBackground W s)" "pages_ok (detailsWithoutPDF s)" "pages_ok (discard_draft b s)"
    "pages_ok (delete_answered W del s)" "pages_ok (finalize_answered W fin s)" "pages_ok (destroy_page s)"
proof -
  note ok = same_pages_ok [OF _ assms]
  have "same_pages s (s\<lparr>pp_compare := v\<rparr>)" "same_pages s (edges_started s)"
    "same_pages s (s\<lparr>pp_handles := None, pp_pendingEdges := [], pp_compare := pp_edgeCompare s\<rparr>)"
    "same_pages s (s\<lparr>pp_previewTimer := False\<rparr>)"
    by (intro same_pages_I; simp add: edges_started_def endGesture_def split: option.split)+
  note drawn = this [THEN same_pages_trans [OF _ pages.render_preview_quiet], THEN ok]
  show "pages_ok (setCompare W v s)" "pages_ok (beginEdges W s)" "pages_ok (cancelEdges W s)" "pages_ok (preview_timer_fired W s)"
    using assms drawn by (simp_all add: setCompare_def beginEdges_def cancelEdges_def preview_timer_fired_def)
  show "pages_ok (setStep step s)" "pages_ok (drawing_ended W n outcome s)" "pages_ok (prepareInBackground W s)"
    by (rule ok, rule pages.stepping pages.drawing_ended_quiet pages.prepareInBackground_quiet)+
  have "same_pages s (toggle_page j s)" "same_pages s (resetPendingEdges s)" "same_pages s (move_pending_edge k x y r s)"
    "same_pages s (chooseSource mode s)" "same_pages s (dragOver b s)" "same_pages s (dragLeave b s)"
    "same_pages s (changeWork s)" "same_pages s (cancel_processing s)" "same_pages s (detailsWithoutPDF s)"
    "same_pages s (discard_draft b s)" "same_pages s (delete_answered W del s)"
    by (intro same_pages_I; simp add: toggle_page_def resetPendingEdges_def move_pending_edge_def chooseSource_def dragOver_def
        dragLeave_def changeWork_def on_imslp_def cancel_processing_def syncCancellable_def detailsWithoutPDF_def
        discard_draft_def delete_started_def delete_answered_def discard_over_def fail_with_def Let_def
        split: option.split DeleteJob.split sum.split)+
  then show "pages_ok (toggle_page j s)" "pages_ok (resetPendingEdges s)" "pages_ok (move_pending_edge k x y r s)"
    "pages_ok (chooseSource mode s)" "pages_ok (dragOver b s)" "pages_ok (dragLeave b s)" "pages_ok (changeWork s)"
    "pages_ok (cancel_processing s)" "pages_ok (detailsWithoutPDF s)" "pages_ok (discard_draft b s)"
    "pages_ok (delete_answered W del s)"
    using ok by blast+
  have "same_pages s (finalize_answered W fin s)"
    by (auto simp: finalize_answered_def finalize_failed_def finalize_over_def same_pages_def the_pages_def
        split: option.split sum.split)
  then show "pages_ok (finalize_answered W fin s)" by (rule ok)
  have "same_pages s (destroy_page s)"
    by (intro same_pages_I; simp add: destroy_page_def Let_def)
  then show "pages_ok (destroy_page s)" by (rule ok)
qed

lemma choose_page_pages:
  assumes "pages_ok s" and "i < length (the_pages s)"
  shows "pages_ok (choose_page W i s)"
proof -
  have "pages_ok ((endGesture s)\<lparr>pp_selected := int i, pp_handles := None\<rparr>)"
    using assms by (simp add: pages_ok_def the_pages_def endGesture_def)
  from same_pages_ok [OF pages.render_preview_quiet this] show ?thesis using assms(1) by (simp add: choose_page_def)
qed

lemma load_draft_pages:
  assumes "pages_ok s" and "case answer of Inl e \<Rightarrow> True | Inr d \<Rightarrow> pp_draft s = None \<and> length (m_pages (d_manifest d)) \<le> MAX_PREPARED_PAGES"
  shows "pages_ok (load_draft W answer s)"
proof (cases answer)
  case (Inr d)
  have "pages_ok (s\<lparr>pp_draft := Some d, pp_sourceMode := m, pp_rangeSourceId := i, pp_imslp := im, pp_step := st, pa_acked := Some d\<rparr>)"
    for m i im st using assms Inr by (auto simp: pages_ok_def the_pages_def)
  from same_pages_ok [OF same_pages_trans [OF pages.reconcile pages.render_preview_quiet] this]
  have main: "pages_ok (render_preview W None (reconcilePreparedKeys (s\<lparr>pp_draft := Some d, pp_sourceMode := m,
      pp_rangeSourceId := i, pp_imslp := im, pp_step := st, pa_acked := Some d\<rparr>)))" for m i im st .
  have "pages_ok (s\<lparr>pp_destinations := ds\<rparr>)" for ds using assms(1) by (simp add: pages_ok_def the_pages_def)
  then show ?thesis using main assms(1) by (simp add: load_draft_def Inr Let_def split: bool.split option.split)
qed (use same_pages_ok [OF pages.failing assms(1)] in \<open>simp add: load_draft_def\<close>)

lemma applyIMSLP_pages:
  assumes "pages_ok s" and "applyIMSLP W s = (r, t)"
  shows "pages_ok t"
proof -
  have man: "d_manifest (snd (linkIMSLPWork u d link)) = d_manifest d" for u d link
    by (auto simp: linkIMSLPWork_def prefillIMSLPField_def Let_def split: option.split prod.split)
  have "t = s \<or> (\<exists>d d'. pp_draft s = Some d \<and> d_manifest d' = d_manifest d \<and>
      (t = s\<lparr>pp_draft := Some d'\<rparr> \<or> t = mark (s\<lparr>pp_draft := Some d'\<rparr>)))"
    using assms(2) man [of "we_url W" _ "im_link (pp_imslp s)"] unfolding applyIMSLP_def
    by (fastforce split: if_splits option.splits prod.splits sum.splits)
  moreover have "pages_ok (s\<lparr>pp_draft := Some d'\<rparr>)" if "pp_draft s = Some d" "d_manifest d' = d_manifest d" for d d'
    using assms(1) that by (simp add: pages_ok_def the_pages_def)
  ultimately show ?thesis using assms(1) pages_ok_parts(4) by blast
qed

lemma uploadFiles_pages:
  assumes "pages_ok s"
  shows "pages_ok (uploadFiles W files replace skipped s)"
proof -
  define t where "t = (syncCancellable (s\<lparr>pp_busy := True, pp_error := [], pp_uploading := True,
    pp_skipRemainingUploads := False\<rparr>))\<lparr>pp_uploadGeneration := pp_uploadGeneration s + 1\<rparr>"
  have "same_pages s t" unfolding t_def by (intro same_pages_I) simp_all
  then have t: "pages_ok t" using assms by (rule same_pages_ok)
  obtain r u where u: "applyIMSLP W t = (r, u)" by fastforce
  have ok: "pages_ok u" by (rule applyIMSLP_pages [OF t u])
  have "same_pages s (skipped_note skipped s)" by (intro same_pages_I) simp_all
  then have n: "pages_ok (skipped_note skipped s)" using assms by (rule same_pages_ok)
  have gen: "pp_uploadGeneration (syncCancellable (s\<lparr>pp_busy := True, pp_error := [], pp_uploading := True,
      pp_skipRemainingUploads := False\<rparr>)) = pp_uploadGeneration s" by simp
  show ?thesis using n persist_pages [OF ok] same_pages_ok [OF pages.upload_failed_quiet [OF same_pages_refl] ok]
    unfolding uploadFiles_def Let_def gen t_def [symmetric] by (simp add: u split: sum.split)
qed

lemma saving_pages:
  assumes "pages_ok s"
  shows "pages_ok (canLeave W b s)" "pages_ok (warnBeforeUnload W s)" "pages_ok (save_timer_fired W s)"
    "pages_ok (close_draft W s)" "pages_ok (backFromPages W s)" "pages_ok (selectWork W work s)"
    "pages_ok (continue_step W s)" "pages_ok (openLink W s)" "pages_ok (save_score W s)" "pages_ok (drop_files W files s)"
proof -
  note ok = same_pages_ok [OF _ assms]
  show c: "pages_ok (close_draft W s)" using assms persist_pages [OF ok [OF pages.invalidate]] by (simp add: close_draft_def)
  have "pages_ok (s\<lparr>pa_left := l\<rparr>)" for l using assms by (simp add: pages_ok_def the_pages_def)
  then show "pages_ok (canLeave W b s)" "pages_ok (warnBeforeUnload W s)" "pages_ok (save_timer_fired W s)"
    using assms persist_pages [OF assms] by (simp_all add: canLeave_def warnBeforeUnload_def save_timer_fired_def)
  show "pages_ok (backFromPages W s)" using assms c ok [OF pages.stepping] by (simp add: backFromPages_def)
  obtain r t where t: "applyIMSLP W s = (r, t)" by fastforce
  have tt: "pages_ok t" by (rule applyIMSLP_pages [OF assms t])
  have w: "pages_ok (u\<lparr>pa_windows := ws\<rparr>)" if "pages_ok u" for u ws using that by (simp add: pages_ok_def the_pages_def)
  show "pages_ok (continue_step W s)" "pages_ok (openLink W s)"
    using persist_pages [OF tt] same_pages_ok [OF pages.failing tt] persist_pages [OF pages_ok_parts(5) [OF w [OF tt]]]
    by (simp_all add: continue_step_def openLink_def t split: sum.split option.split)
  have "same_pages t ((invalidatePreview (t\<lparr>pp_finalizing := True\<rparr>))\<lparr>pp_busy := True, pp_error := [],
      pp_progress := js ''Preparing score''\<rparr>)" by (intro same_pages_I) simp_all
  from persist_pages [OF same_pages_ok [OF this tt]] show "pages_ok (save_score W s)"
    using assms same_pages_ok [OF pages.failing tt] by (auto simp: save_score_def t split: sum.split)
  have "same_pages s (on_imslp (\<lambda>i. i\<lparr>im_dropHot := False\<rparr>) s)" by (intro same_pages_I) simp_all
  then show "pages_ok (drop_files W files s)" using ok uploadFiles_pages by (simp add: drop_files_def Let_def)
  show "pages_ok (selectWork W work s)"
  proof (cases "pp_draft s")
    case (Some d)
    have "d_manifest (fill_from_work work d) = d_manifest d"
      by (simp add: fill_from_work_def prefillIMSLPField_def Let_def split: option.split)
    then have "pages_ok (s\<lparr>pp_draft := Some (fill_from_work work d)\<rparr>)"
      using assms Some by (simp add: pages_ok_def the_pages_def)
    then have "pages_ok (on_imslp h (mark (on_imslp g (s\<lparr>pp_draft := Some (fill_from_work work d)\<rparr>))))" for g h
      by (intro pages_ok_parts)
    from persist_pages [OF w [OF this]] show ?thesis using assms by (simp add: selectWork_def Some Let_def)
  qed (use assms in \<open>simp add: selectWork_def\<close>)
qed


lemma handle_event_pages:
  assumes "pages_ok s" and "sound_pages s e"
  shows "pages_ok (handle_event W e s)"
proof -
  have "pages_ok (s\<lparr>pp_rangeSourceId := i\<rparr>)" "pages_ok (s\<lparr>pp_rangeText := i\<rparr>)" "pages_ok (s\<lparr>pp_edgeReady := b\<rparr>)"
    "pages_ok (s\<lparr>pp_workerClient := c\<rparr>)" for i b c
    using assms(1) by (simp_all add: pages_ok_def the_pages_def)
  note all = this apply_edit_pages [OF assms(1)] undo_pages [OF assms(1)] view_pages [OF assms(1)] saving_pages [OF assms(1)]
    save_answered_pages [OF assms(1)] uploadFiles_pages [OF assms(1)] pages_ok_parts(5) [OF assms(1)]
  show ?thesis
  proof (cases e)
    case (DraftLoaded answer)
    then show ?thesis using assms load_draft_pages by (cases answer) (simp_all add: sound_pages_def)
  next
    case (UploadAnswered answer)
    then show ?thesis using assms upload_answered_pages by simp
  next
    case (ChoosePage i)
    then show ?thesis using assms choose_page_pages by (simp add: sound_pages_def)
  qed (simp_all add: all)
qed

interpretation prepare_pages: guarded_machine sound_pages "prepare_step W" pages_ok for W
proof unfold_locales
  fix s e assume "pages_ok s" "sound_pages s e"
  from same_pages_ok [OF pages.settle_promises_quiet handle_event_pages [OF this]]
  show "pages_ok (prepare_step W e s)" by (simp add: prepare_step_def)
qed



section \<open>Where no page is shown\<close>

text \<open>
  Undoing to a draft without pages leaves nothing selected, and a second undo, which brings pages
  back, keeps it so: the draft has pages but none is shown until one is chosen.
\<close>

lemma undo_selects_nothing:
  assumes "\<not> pp_busy s" and "pp_draft s = Some d" and "pp_history s = [m, \<lparr>m_version = 1, m_pages = []\<rparr>]" and "m_pages m \<noteq> []"
    and "0 \<le> pp_selected s"
  shows "the_pages (undo W (undo W s)) = m_pages m \<and> the_page (undo W (undo W s)) = None"
proof -
  have sel: "pp_selected (undo W t) = (if pp_history t = [] then pp_selected t
      else min (pp_selected t) (int (length (m_pages (last (pp_history t)))) - 1))" if "\<not> pp_busy t" for t
    using that redraw_view unfolding undo_def Let_def by (simp add: same_view_def)
  note u = undo_result [OF assms(1), of W] and uu = undo_result [of "undo W s" W]
  have "pp_selected (undo W s) = - 1" using sel [OF assms(1)] assms(3,5) by simp
  then have "pp_selected (undo W (undo W s)) = - 1" using sel [OF u(1)] u(3) assms(2,3) by simp
  moreover have "the_manifest (undo W (undo W s)) = Some m" using uu u assms(2,3) by simp
  ultimately show ?thesis by (auto simp: the_page_def page_at_def the_manifest_def the_pages_def)
qed

text \<open>
  The pages chosen for keeping are remembered by identifier and never forgotten: when they have
  been replaced in the meantime, keeping them removes every page.
\<close>

lemma keep_stale_removes_all:
  fixes s :: PrepareComponent
  assumes "pp_draft s = Some d" and "pp_selectedIDs s \<noteq> []" and "\<not> pp_busy s"
    and "list_all (\<lambda>p. e_id p \<notin> set (pp_selectedIDs s)) (the_pages s)"
  shows "the_pages (keepSelected s) = []"
  using assms by (simp add: keepSelected_def list_all_iff filter_empty_conv the_pages_def set_pages_def)

end
