(* ===== verification/WorkerActs.thy ===== *)
theory WorkerActs
  imports JsText
begin

text \<open>
  Actions of the processing worker. An action runs in a world and returns the error it throws
  or its value, with the world it leaves: the requests made so far, the messages posted, how
  many bitmaps, OpenCV matrices and PDF.js tasks are open, and what loading OpenCV gave once it
  was tried. Relations between worlds that every step keeps are proved once, in a locale.
\<close>

section \<open>Actions\<close>

record 'post world =
  wd_reads :: "jstring list"
  wd_posts :: "'post list"
  wd_open :: int
  wd_cv :: "(jstring + unit) option"

type_synonym ('post, 'a) act = "'post world \<Rightarrow> (jstring + 'a) \<times> 'post world"

definition give :: "'a \<Rightarrow> ('post, 'a) act" where
  "give x w = (Inr x, w)"

definition throw_error :: "jstring \<Rightarrow> ('post, 'a) act" where
  "throw_error e w = (Inl e, w)"

text \<open>Code of a library that is pure but may throw.\<close>

definition attempt :: "jstring + 'a \<Rightarrow> ('post, 'a) act" where
  "attempt r w = (r, w)"

definition and_then :: "('post, 'a) act \<Rightarrow> ('a \<Rightarrow> ('post, 'b) act) \<Rightarrow> ('post, 'b) act" where
  "and_then a f w = (case a w of (Inl e, w') \<Rightarrow> (Inl e, w') | (Inr x, w') \<Rightarrow> f x w')"

text \<open>\<open>try ... finally\<close>, with what is released after a value and after an error.\<close>

definition finally_do :: "('post, 'a) act \<Rightarrow> (jstring + 'a \<Rightarrow> 'post world \<Rightarrow> 'post world) \<Rightarrow> ('post, 'a) act" where
  "finally_do a release w = (case a w of (r, w') \<Rightarrow> (r, release r w'))"

definition opened :: "int \<Rightarrow> ('post, unit) act" where
  "opened n w = (Inr (), w\<lparr>wd_open := wd_open w + n\<rparr>)"

definition closing :: "int \<Rightarrow> 'post world \<Rightarrow> 'post world" where
  "closing n w = w\<lparr>wd_open := wd_open w - n\<rparr>"

definition post :: "'post \<Rightarrow> ('post, unit) act" where
  "post m w = (Inr (), w\<lparr>wd_posts := wd_posts w @ [m]\<rparr>)"

definition new_world :: "'post world" where
  "new_world = \<lparr>wd_reads = [], wd_posts = [], wd_open = 0, wd_cv = None\<rparr>"

section \<open>Relations between worlds\<close>

text \<open>
  A relation that holds between the world an action starts in and the one it leaves: reflexive
  and transitive, so that it holds of a sequence when it holds of the parts.
\<close>

locale world_relation =
  fixes R :: "'post world \<Rightarrow> 'post world \<Rightarrow> bool"
  assumes same: "R w w"
    and trans: "R u v \<Longrightarrow> R v w \<Longrightarrow> R u w"
begin

definition keeps :: "('post, 'a) act \<Rightarrow> bool" where
  "keeps a \<longleftrightarrow> (\<forall>w. R w (snd (a w)))"

lemma keepsI: "(\<And>w. R w (snd (a w))) \<Longrightarrow> keeps a"
  by (simp add: keeps_def)

lemma keepsD: "keeps a \<Longrightarrow> R w (snd (a w))"
  by (simp add: keeps_def)

lemma keeps_give: "keeps (give x)"
  by (simp add: keeps_def give_def same)

lemma keeps_throw: "keeps (throw_error e)"
  by (simp add: keeps_def throw_error_def same)

lemma keeps_attempt: "keeps (attempt r)"
  by (simp add: keeps_def attempt_def same)

lemma keeps_and_then: "keeps a \<Longrightarrow> (\<And>x. keeps (f x)) \<Longrightarrow> keeps (and_then a f)"
  unfolding keeps_def and_then_def by (auto split: prod.split sum.split) (metis snd_conv trans)+

lemma keeps_finally: "(\<And>r w. R w (release r w)) \<Longrightarrow> keeps a \<Longrightarrow> keeps (finally_do a release)"
  unfolding keeps_def finally_do_def by (auto split: prod.split) (metis snd_conv trans)

lemma keeps_if: "keeps a \<Longrightarrow> keeps b \<Longrightarrow> keeps (if c then a else b)"
  by simp

lemma keeps_option: "keeps a \<Longrightarrow> (\<And>x. keeps (f x)) \<Longrightarrow> keeps (case v of None \<Rightarrow> a | Some x \<Rightarrow> f x)"
  by (cases v) simp_all

lemmas keeps_rules = keeps_give keeps_throw keeps_attempt keeps_and_then keeps_if keeps_option

end

end
