(* ===== verification/Processing.thy ===== *)
theory Processing
  imports WorkerActs PageGeometry Exif PreparedPages
begin

text \<open>
  The processing worker (\<open>web/src/app/features/prepare/processing.worker.ts\<close>): correcting a
  photo, placing pages, building the PDF and matching pages. The libraries it calls (pdf-lib,
  OpenCV, PDF.js), the browser's bitmaps and canvases and the requests for source files are
  parameters, each a function that may throw; what the worker passes them and does with their
  answers is the model. A canvas is its size and its RGBA pixels.
\<close>

section \<open>The libraries\<close>

record canvas =
  ca_width :: int
  ca_height :: int
  ca_pixels :: "int list"

record box =
  bx_x :: real
  bx_y :: real
  bx_width :: real
  bx_height :: real

text \<open>The one page of a photo's document: its size, the image, its drawn size, and the matrix
  pushed around it, if any.\<close>

record 'img photo_page =
  ph_width :: real
  ph_height :: real
  ph_matrix :: "real list option"
  ph_image :: 'img
  ph_drawWidth :: real
  ph_drawHeight :: real

text \<open>A page added to the output: a copy, with the rotation set on it if one is set, or a new page
  with a part of a page drawn on it.\<close>

datatype ('page, 'emb) out_page =
    Copied 'page "real option"
  | Drawn (dw_width: real) (dw_height: real) (dw_part: 'emb) (dw_x: real) (dw_y: real)
      (dw_scale: real) (dw_rotate: real)

text \<open>What is drawn on the preview's white canvas.\<close>

record drawing =
  dr_translate :: "real \<times> real"
  dr_rotate :: real
  dr_scale :: real
  dr_source :: "real list"
  dr_target :: "real list"

record ('doc, 'page, 'emb, 'img, 'bm) tools =
  \<comment> \<open>the response for a source file: \<open>Inl\<close> when the request fails, \<open>None\<close> when it is refused;
     the number says how many requests came before\<close>
  tl_fetch :: "nat \<Rightarrow> jstring \<Rightarrow> jstring \<Rightarrow> jstring + nat list option"
  \<comment> \<open>pdf-lib\<close>
  tl_load :: "nat list \<Rightarrow> jstring + 'doc"
  tl_pageCount :: "'doc \<Rightarrow> nat"
  tl_getPage :: "'doc \<Rightarrow> nat \<Rightarrow> jstring + 'page"
  tl_copyPage :: "'doc \<Rightarrow> nat \<Rightarrow> jstring + 'page"
  tl_rotation :: "'page \<Rightarrow> real"
  tl_media :: "'page \<Rightarrow> box"
  tl_crop :: "'page \<Rightarrow> box"
  tl_embed :: "'page \<Rightarrow> real \<Rightarrow> real \<Rightarrow> real \<Rightarrow> real \<Rightarrow> jstring + 'emb"
  tl_embWidth :: "'emb \<Rightarrow> real"
  tl_embHeight :: "'emb \<Rightarrow> real"
  tl_saveDoc :: "'doc \<Rightarrow> jstring + nat list"
  tl_saveOut :: "('page, 'emb) out_page list \<Rightarrow> jstring + nat list"
  tl_embedJpg :: "nat list \<Rightarrow> jstring + 'img"
  tl_embedPng :: "nat list \<Rightarrow> jstring + 'img"
  tl_imgWidth :: "'img \<Rightarrow> nat"
  tl_imgHeight :: "'img \<Rightarrow> nat"
  tl_photoDoc :: "'img photo_page \<Rightarrow> jstring + 'doc"
  \<comment> \<open>bitmaps and canvases\<close>
  tl_decode :: "nat list \<Rightarrow> jstring + 'bm"
  tl_bmWidth :: "'bm \<Rightarrow> nat"
  tl_bmHeight :: "'bm \<Rightarrow> nat"
  tl_drawBitmap :: "bool \<Rightarrow> 'bm \<Rightarrow> int \<Rightarrow> int \<Rightarrow> jstring + canvas"
  tl_drawCanvas :: "canvas \<Rightarrow> int \<Rightarrow> int \<Rightarrow> canvas"
  tl_drawPlaced :: "int \<Rightarrow> int \<Rightarrow> canvas \<Rightarrow> drawing \<Rightarrow> canvas"
  tl_encode :: "bool \<Rightarrow> real \<Rightarrow> canvas \<Rightarrow> jstring + nat list"
  \<comment> \<open>OpenCV\<close>
  tl_openCV :: "jstring + unit"
  tl_matrix :: "canvas \<Rightarrow> jstring + unit"
  tl_dilate :: "nat \<Rightarrow> canvas \<Rightarrow> jstring + canvas"
  tl_blur :: "real \<Rightarrow> canvas \<Rightarrow> jstring + canvas"
  tl_resize :: "int \<Rightarrow> int \<Rightarrow> canvas \<Rightarrow> jstring + canvas"
  tl_warp :: "real list \<Rightarrow> real list \<Rightarrow> int \<Rightarrow> int \<Rightarrow> canvas \<Rightarrow> jstring + canvas"
  tl_gray :: "canvas \<Rightarrow> jstring + canvas"
  tl_canny :: "real \<Rightarrow> real \<Rightarrow> canvas \<Rightarrow> jstring + canvas"
  tl_hough :: "real \<Rightarrow> real \<Rightarrow> nat \<Rightarrow> real \<Rightarrow> nat \<Rightarrow> canvas \<Rightarrow> jstring + (int \<times> int \<times> int \<times> int) list"
  \<comment> \<open>PDF.js: the size of a page at scale 1, and the page rendered at a scale on a canvas\<close>
  tl_pdfjs :: "jstring + unit"
  tl_viewport :: "nat list \<Rightarrow> nat \<Rightarrow> jstring + real \<times> real"
  tl_render :: "nat list \<Rightarrow> nat \<Rightarrow> real \<Rightarrow> int \<Rightarrow> int \<Rightarrow> jstring + canvas"

section \<open>Messages\<close>

datatype request =
    MatchRequest "jstring option" jstring "ImportAsset list" PageEdit "PageEdit list"
  | AnalyzeRequest "jstring option" canvas
  | PreviewRequest "jstring option" "nat list" PageEdit "real option"
  | BuildRequest "jstring option" jstring "ImportAsset list" "PageEdit list"
      "(Json \<times> nat list) list option" "Json list option"

datatype message =
    ProgressMessage "jstring option" jstring
  | PagesMessage "jstring option" "PageEdit list"
  | StaffMessage "jstring option" StaffSuggestion
  | PreviewMessage "jstring option" "nat list" int int
  | BytesMessage "jstring option" "nat list"
  | ErrorMessage "jstring option" jstring

type_synonym 'a job = "(message, 'a) act"

definition closed :: "int \<Rightarrow> unit job" where
  "closed n w = (Inr (), closing n w)"

text \<open>Resources that are released after the body, whether it returns or throws.\<close>

definition while_open :: "int \<Rightarrow> 'a job \<Rightarrow> 'a job" where
  "while_open n body = and_then (opened n) (\<lambda>_. finally_do body (\<lambda>_. closing n))"

section \<open>OpenCV\<close>

text \<open>Loading it happens once; a failure is kept like a success.\<close>

definition openCV :: "('doc, 'page, 'emb, 'img, 'bm) tools \<Rightarrow> unit job" where
  "openCV T w = (let w = (if wd_cv w = None then w\<lparr>wd_cv := Some (tl_openCV T)\<rparr> else w)
     in (the (wd_cv w), w))"

definition atan2 :: "real \<Rightarrow> real \<Rightarrow> real" where
  "atan2 y x =
     (if x > 0 then arctan (y / x)
      else if x < 0 then (if y \<ge> 0 then arctan (y / x) + pi else arctan (y / x) - pi)
      else if y > 0 then pi / 2 else if y < 0 then - (pi / 2) else 0)"

definition line_angle :: "int \<times> int \<times> int \<times> int \<Rightarrow> real" where
  "line_angle l = (case l of (x1, y1, x2, y2) \<Rightarrow>
     atan2 (of_int (y2 - y1)) (of_int (x2 - x1)) * 180 / pi)"

definition analyze :: "('doc, 'page, 'emb, 'img, 'bm) tools \<Rightarrow> canvas \<Rightarrow> StaffSuggestion job" where
  "analyze T picture =
     and_then (attempt (tl_matrix T picture)) (\<lambda>_.
     while_open 4
       (and_then (attempt (tl_gray T picture)) (\<lambda>gray.
        and_then (attempt (tl_canny T 60 160 gray)) (\<lambda>edges.
        and_then (attempt (tl_hough T 1 (pi / 3600) 80 (of_int (ca_width picture) * (3 / 10)) 12 edges)) (\<lambda>lines.
        give (analyzeStaff (map line_angle lines) (ca_pixels gray) (nat (ca_width picture)) (nat (ca_height picture))))))))"

section \<open>Photos\<close>

definition too_many_pixels :: jstring where
  "too_many_pixels = js ''Photo exceeds 20 megapixels.''"

definition missing_property :: jstring where  \<comment> \<open>the engine's text of a TypeError\<close>
  "missing_property = js ''Cannot read properties of undefined''"

definition jpegPDF :: "('doc, 'page, 'emb, 'img, 'bm) tools \<Rightarrow> nat list \<Rightarrow> nat \<Rightarrow> 'doc job" where
  "jpegPDF T bytes orientation =
     and_then (attempt (tl_embedJpg T bytes)) (\<lambda>img.
     let w = real (tl_imgWidth T img); h = real (tl_imgHeight T img)
     in if w * h > MAX_PHOTO_PIXELS then throw_error too_many_pixels
        else (let swapped = orientation \<ge> 5;
                  dw = (if swapped then h else w); dh = (if swapped then w else h); s = 600 / dw
              in case orientationMatrix orientation w h of
                   None \<Rightarrow> throw_error missing_property
                 | Some m \<Rightarrow> attempt (tl_photoDoc T
                     \<lparr>ph_width = dw * s, ph_height = dh * s, ph_matrix = Some (map (\<lambda>n. n * s) m),
                      ph_image = img, ph_drawWidth = w, ph_drawHeight = h\<rparr>)))"

definition lightenPaper :: "('doc, 'page, 'emb, 'img, 'bm) tools \<Rightarrow> canvas \<Rightarrow> real \<Rightarrow> canvas job" where
  "lightenPaper T canvas strength =
     and_then (openCV T) (\<lambda>_.
     let width = ca_width canvas; height = ca_height canvas;
         ratio = min (min 1 (720 / of_int width)) (960 / of_int height);
         small = tl_drawCanvas T canvas (max 1 (js_round (of_int width * ratio))) (max 1 (js_round (of_int height * ratio)))
     in and_then (attempt (tl_matrix T small)) (\<lambda>_.
        while_open 5
          (and_then (attempt (tl_dilate T 31 small)) (\<lambda>dilated.
           and_then (attempt (tl_blur T 9 dilated)) (\<lambda>blurred.
           and_then (attempt (tl_resize T width height blurred)) (\<lambda>background.
           give (canvas\<lparr>ca_pixels := lightenPixels (ca_pixels canvas) (ca_pixels background) strength\<rparr>)))))))"

text \<open>
  The four corners in pixels, and where they go. The source matrix is deleted as soon as the
  page is straightened, the other four afterwards, and all five when straightening throws.
\<close>

definition straighten :: "('doc, 'page, 'emb, 'img, 'bm) tools \<Rightarrow> PageEdit \<Rightarrow> real \<Rightarrow> real \<Rightarrow> canvas \<Rightarrow> canvas job" where
  "straighten T edit maxPixels maxEdge canvas =
     and_then (openCV T) (\<lambda>_.
     and_then (attempt (tl_matrix T canvas)) (\<lambda>_.
     let corners = nullish (e_corners edit) [];
         width = ca_width canvas; height = ca_height canvas;
         (targetWidth, targetHeight) =
           (if flag (e_fitEdges edit)
            then fittedQuadSize corners (of_int width) (of_int height) maxPixels maxEdge else (width, height));
         a = concat (map (\<lambda>c. [c ! 0 * of_int (width - 1), c ! 1 * of_int (height - 1)]) corners);
         b = [0, 0, of_int (targetWidth - 1), 0, of_int (targetWidth - 1), of_int (targetHeight - 1),
              0, of_int (targetHeight - 1)]
     in and_then (opened 5) (\<lambda>_.
        finally_do
          (and_then (attempt (tl_warp T a b targetWidth targetHeight canvas)) (\<lambda>warped.
           and_then (closed 1) (\<lambda>_. give warped)))
          (\<lambda>r. closing (if isl r then 5 else 4)))))"

definition correctPhoto ::
  "('doc, 'page, 'emb, 'img, 'bm) tools \<Rightarrow> 'bm \<Rightarrow> PageEdit \<Rightarrow> real \<Rightarrow> real \<Rightarrow> (canvas \<times> bool) job" where
  "correctPhoto T bitmap edit maxPixels maxEdge =
     (let strength = cleanupStrength edit;
          (width, height) = photoWorkSize (real (tl_bmWidth T bitmap)) (real (tl_bmHeight T bitmap)) maxPixels maxEdge
      in and_then (finally_do (attempt (tl_drawBitmap T (strength \<noteq> 0 \<or> flag (e_fitEdges edit)) bitmap width height))
           (\<lambda>_. closing 1)) (\<lambda>canvas.
         and_then (if strength \<noteq> 0 then lightenPaper T canvas strength else give canvas) (\<lambda>canvas.
         and_then (if has_items (e_corners edit) then straighten T edit maxPixels maxEdge canvas else give canvas) (\<lambda>canvas.
         give (canvas, strength > 0 \<or> (flag (e_fitEdges edit) \<and> has_items (e_corners edit)))))))"

definition photoPDF :: "('doc, 'page, 'emb, 'img, 'bm) tools \<Rightarrow> nat list \<Rightarrow> PageEdit \<Rightarrow> 'doc job" where
  "photoPDF T bytes edit = (case jpegOrientation bytes of
     None \<Rightarrow> throw_error (js ''Offset is outside the bounds of the DataView'')
   | Some orientation \<Rightarrow>
       if orientation \<noteq> None \<and> \<not> has_items (e_corners edit) \<and> cleanupStrength edit = 0
       then jpegPDF T bytes (the orientation)
       else
         and_then (attempt (tl_decode T bytes)) (\<lambda>bitmap.
         and_then (opened 1) (\<lambda>_.
         if real (tl_bmWidth T bitmap) * real (tl_bmHeight T bitmap) > MAX_PHOTO_PIXELS
         then and_then (closed 1) (\<lambda>_. throw_error too_many_pixels)
         else
           and_then (correctPhoto T bitmap edit PHOTO_WORK_PIXELS PHOTO_WORK_EDGE) (\<lambda>(canvas, encodeJPEG).
           and_then (attempt (tl_encode T encodeJPEG (96 / 100) canvas)) (\<lambda>blob.
           and_then (attempt (if encodeJPEG then tl_embedJpg T blob else tl_embedPng T blob)) (\<lambda>img.
           let w = 600; h = 600 * of_int (ca_height canvas) / of_int (ca_width canvas)
           in attempt (tl_photoDoc T
             \<lparr>ph_width = w, ph_height = h, ph_matrix = None, ph_image = img,
              ph_drawWidth = w, ph_drawHeight = h\<rparr>)))))))"

section \<open>Previews\<close>

definition edges_invalid :: jstring where
  "edges_invalid = js ''Page edges are invalid.''"

definition whole_page :: "real list" where
  "whole_page = [0, 0, 1, 1]"

text \<open>The corrected photo, cropped and placed on a white canvas whose longer side is \<open>maxEdge\<close>.\<close>

definition placed_preview ::
  "('doc, 'page, 'emb, 'img, 'bm) tools \<Rightarrow> canvas \<Rightarrow> PageEdit \<Rightarrow> real \<Rightarrow> (nat list \<times> int \<times> int) job" where
  "placed_preview T source edit maxEdge =
     (let mediaWidth = 600; mediaHeight = 600 * of_int (ca_height source) / of_int (ca_width source);
          edges = nullish (e_crop edit) whole_page;
          width = (edges ! 2 - edges ! 0) * mediaWidth; height = (edges ! 3 - edges ! 1) * mediaHeight
      in if width \<le> 0 \<or> height \<le> 0 then throw_error edges_invalid
         else (let layout = pageLayout width height edit;
                   ratio = maxEdge / max (lay_outputWidth layout) (lay_outputHeight layout);
                   outputWidth = max 1 (js_round (lay_outputWidth layout * ratio));
                   outputHeight = max 1 (js_round (lay_outputHeight layout * ratio));
                   output = tl_drawPlaced T outputWidth outputHeight source
                     \<lparr>dr_translate = (fst (lay_center layout) * ratio,
                         (lay_outputHeight layout - snd (lay_center layout)) * ratio),
                      dr_rotate = - lay_angle layout * pi / 180, dr_scale = lay_scale layout,
                      dr_source = [edges ! 0 * of_int (ca_width source), edges ! 1 * of_int (ca_height source),
                         (edges ! 2 - edges ! 0) * of_int (ca_width source),
                         (edges ! 3 - edges ! 1) * of_int (ca_height source)],
                      dr_target = [- width * ratio / 2, - height * ratio / 2, width * ratio, height * ratio]\<rparr>
               in and_then (attempt (tl_encode T True (92 / 100) output)) (\<lambda>blob.
                  give (blob, outputWidth, outputHeight))))"

definition previewRaster ::
  "('doc, 'page, 'emb, 'img, 'bm) tools \<Rightarrow> nat list \<Rightarrow> PageEdit \<Rightarrow> real \<Rightarrow> (nat list \<times> int \<times> int) job" where
  "previewRaster T raster edit maxEdge =
     and_then (attempt (tl_decode T raster)) (\<lambda>bitmap.
     and_then (opened 1) (\<lambda>_.
     and_then (correctPhoto T bitmap edit (maxEdge * maxEdge) maxEdge) (\<lambda>(source, _).
     placed_preview T source edit maxEdge)))"

section \<open>Rendering and the ink check\<close>

definition renderPDF ::
  "('doc, 'page, 'emb, 'img, 'bm) tools \<Rightarrow> nat list \<Rightarrow> nat \<Rightarrow> (canvas \<times> real \<times> real) job" where
  "renderPDF T bytes pageIndex =
     and_then (attempt (tl_pdfjs T)) (\<lambda>_.
     while_open 1
       (and_then (attempt (tl_viewport T bytes pageIndex)) (\<lambda>(width, height).
        let scale = min 2 (2000 / max width height)
        in and_then (attempt (tl_render T bytes pageIndex scale \<lceil>width * scale\<rceil> \<lceil>height * scale\<rceil>)) (\<lambda>canvas.
           give (canvas, width, height)))))"

definition cut_off :: jstring where
  "cut_off = js ''This adjustment would cut off page content. Reduce scale or position, or explicitly crop the unwanted content first.''"

definition checkInk ::
  "('doc, 'page, 'emb, 'img, 'bm) tools \<Rightarrow> nat list \<Rightarrow> nat \<Rightarrow> real list \<Rightarrow> PageLayout \<Rightarrow> unit job" where
  "checkInk T bytes index edges layout =
     and_then (renderPDF T bytes index) (\<lambda>(c, width, height).
     if inkOutsidePage (ca_pixels c) (nat (ca_width c)) (nat (ca_height c)) width height edges
          (lay_transform layout) (lay_outputWidth layout) (lay_outputHeight layout)
     then throw_error cut_off else give ())"

section \<open>Building a PDF\<close>

definition PDF :: jstring where
  "PDF = js ''application/pdf''"

definition not_loaded :: jstring where
  "not_loaded = js ''Source could not be loaded. Reload the draft.''"

definition no_pages :: jstring where
  "no_pages = js ''Choose at least one page.''"

definition unknown_source :: jstring where
  "unknown_source = js ''Unknown source.''"

definition photos_only :: jstring where
  "photos_only = js ''Lighten paper is available for photos only.''"

definition bad_prepared :: jstring where
  "bad_prepared = js ''A prepared page is invalid. Reopen the draft and try again.''"

definition not_normalized :: jstring where
  "not_normalized = js ''This PDF already has a page rotation or crop. Reorder, extract and quarter-turn rotation are supported; fine adjustments need a normalized source PDF.''"

text \<open>\<open>new Map(entries)\<close>: a later entry with the same key replaces the earlier one.\<close>

definition map_from :: "('k \<times> 'v) list \<Rightarrow> ('k, 'v) js_map" where
  "map_from entries = fold (\<lambda>(k, v) m. jm_set m k v) entries []"

definition read_source :: "('doc, 'page, 'emb, 'img, 'bm) tools \<Rightarrow> jstring \<Rightarrow> jstring \<Rightarrow> nat list job" where
  "read_source T draftId i w =
     (case tl_fetch T (length (wd_reads w)) draftId i of
        Inl e \<Rightarrow> Inl e | Inr None \<Rightarrow> Inl not_loaded | Inr (Some bytes) \<Rightarrow> Inr bytes,
      w\<lparr>wd_reads := wd_reads w @ [i]\<rparr>)"

text \<open>What stays the same while a document is built.\<close>

record build_job =
  bj_draftId :: jstring
  bj_sources :: "(jstring, ImportAsset) js_map"
  bj_prepared :: "(Json, nat list) js_map"
  bj_keys :: "Json list"
  bj_total :: nat
  bj_request :: "jstring option"

text \<open>What changes: the pages added, the PDF sources held, and how many pages of each source are left.\<close>

record ('doc, 'page, 'emb) build_state =
  bs_out :: "('page, 'emb) out_page list"
  bs_pdfSources :: "(jstring, nat list \<times> 'doc) js_map"
  bs_remaining :: "(jstring, nat) js_map"

definition add_out :: "('page, 'emb) out_page \<Rightarrow> ('doc, 'page, 'emb) build_state \<Rightarrow> ('doc, 'page, 'emb) build_state" where
  "add_out p b = b\<lparr>bs_out := bs_out b @ [p]\<rparr>"

definition one_less :: "jstring \<Rightarrow> ('doc, 'page, 'emb) build_state \<Rightarrow> ('doc, 'page, 'emb) build_state" where
  "one_less i b = b\<lparr>bs_remaining := jm_set (bs_remaining b) i (nullish (jm_get (bs_remaining b) i) 0 - 1)\<rparr>"

text \<open>A source with no pages left is let go.\<close>

definition release_source :: "jstring \<Rightarrow> ('doc, 'page, 'emb) build_state \<Rightarrow> ('doc, 'page, 'emb) build_state" where
  "release_source i b =
     (if nullish (jm_get (bs_remaining b) i) 0 = 0 then b\<lparr>bs_pdfSources := jm_delete (bs_pdfSources b) i\<rparr> else b)"

definition prepared_bytes :: "build_job \<Rightarrow> nat \<Rightarrow> nat list option" where
  "prepared_bytes j i = (if i < length (bj_keys j) then jm_get (bj_prepared j) (bj_keys j ! i) else None)"

definition add_prepared ::
  "('doc, 'page, 'emb, 'img, 'bm) tools \<Rightarrow> nat list \<Rightarrow> jstring \<Rightarrow> ('doc, 'page, 'emb) build_state
    \<Rightarrow> ('doc, 'page, 'emb) build_state job" where
  "add_prepared T bytes i b =
     and_then (attempt (tl_load T bytes)) (\<lambda>doc.
     if tl_pageCount T doc \<noteq> 1 then throw_error bad_prepared
     else and_then (attempt (tl_copyPage T doc 0)) (\<lambda>copy. give (add_out (Copied copy None) (one_less i b))))"

text \<open>The document of a source: the one held, or the file read again; only a PDF's is held.\<close>

definition load_source ::
  "('doc, 'page, 'emb, 'img, 'bm) tools \<Rightarrow> build_job \<Rightarrow> ImportAsset \<Rightarrow> PageEdit \<Rightarrow> ('doc, 'page, 'emb) build_state
    \<Rightarrow> ((nat list \<times> 'doc) \<times> ('doc, 'page, 'emb) build_state) job" where
  "load_source T j asset edit b = (case jm_get (bs_pdfSources b) (a_id asset) of
     Some source \<Rightarrow> give (source, b)
   | None \<Rightarrow>
       and_then (read_source T (bj_draftId j) (a_id asset)) (\<lambda>bytes.
       and_then (if a_mime asset = PDF then attempt (tl_load T bytes) else photoPDF T bytes edit) (\<lambda>doc.
       give ((bytes, doc),
         if a_mime asset = PDF then b\<lparr>bs_pdfSources := jm_set (bs_pdfSources b) (a_id asset) (bytes, doc)\<rparr> else b))))"

definition copied_page ::
  "('doc, 'page, 'emb, 'img, 'bm) tools \<Rightarrow> 'doc \<Rightarrow> nat \<Rightarrow> PageEdit \<Rightarrow> ('page, 'emb) out_page job" where
  "copied_page T doc n edit =
     and_then (attempt (tl_copyPage T doc n)) (\<lambda>copy.
     give (Copied copy (Some (js_rem (tl_rotation T copy + or_else (e_rotation edit) 0) 360))))"

definition normalized :: "('doc, 'page, 'emb, 'img, 'bm) tools \<Rightarrow> 'page \<Rightarrow> bool" where
  "normalized T original \<longleftrightarrow>
     js_rem (tl_rotation T original) 360 = 0 \<and> bx_x (tl_media T original) = 0 \<and> bx_y (tl_media T original) = 0 \<and>
     tl_crop T original = tl_media T original"

definition drawn_page ::
  "('doc, 'page, 'emb, 'img, 'bm) tools \<Rightarrow> bool \<Rightarrow> nat list \<times> 'doc \<Rightarrow> nat \<Rightarrow> 'page \<Rightarrow> PageEdit
    \<Rightarrow> ('page, 'emb) out_page job" where
  "drawn_page T isPDF source n original edit =
     (if \<not> normalized T original then throw_error not_normalized
      else (let edges = nullish (e_crop edit) whole_page;
                w = bx_width (tl_media T original); h = bx_height (tl_media T original)
            in and_then (attempt (tl_embed T original (edges ! 0 * w) ((1 - edges ! 3) * h) (edges ! 2 * w)
                   ((1 - edges ! 1) * h))) (\<lambda>embed.
               let layout = pageLayout (tl_embWidth T embed) (tl_embHeight T embed) edit;
                   origin = lay_transform layout 0 0
               in and_then (if flag (e_fitEdges edit) then give ()
                    else and_then (if isPDF then give (fst source) else attempt (tl_saveDoc T (snd source)))
                      (\<lambda>bytes. checkInk T bytes n edges layout)) (\<lambda>_.
                  give (Drawn (lay_outputWidth layout) (lay_outputHeight layout) embed (fst origin) (snd origin)
                    (lay_scale layout) (lay_angle layout))))))"

definition add_page ::
  "('doc, 'page, 'emb, 'img, 'bm) tools \<Rightarrow> build_job \<Rightarrow> ImportAsset \<Rightarrow> PageEdit \<Rightarrow> ('doc, 'page, 'emb) build_state
    \<Rightarrow> ('doc, 'page, 'emb) build_state job" where
  "add_page T j asset edit b =
     and_then (load_source T j asset edit b) (\<lambda>(source, b).
     let isPDF = a_mime asset = PDF; n = (if isPDF then e_page edit else 0)
     in and_then (attempt (tl_getPage T (snd source) n)) (\<lambda>original.
        let b = release_source (a_id asset) (one_less (a_id asset) b)
        in and_then (if needsGeometry edit then drawn_page T isPDF source n original edit
                     else copied_page T (snd source) n edit) (\<lambda>p. give (add_out p b))))"

definition progress_text :: "nat \<Rightarrow> nat \<Rightarrow> jstring" where
  "progress_text i pages = js ''Preparing page '' @ nat_digits (i + 1) @ js '' of '' @ nat_digits pages"

text \<open>One turn of the loop, for the page at index \<open>i\<close>.\<close>

definition build_page ::
  "('doc, 'page, 'emb, 'img, 'bm) tools \<Rightarrow> build_job \<Rightarrow> nat \<Rightarrow> PageEdit \<Rightarrow> ('doc, 'page, 'emb) build_state
    \<Rightarrow> ('doc, 'page, 'emb) build_state job" where
  "build_page T j i edit b = (case jm_get (bj_sources j) (e_sourceId edit) of
     None \<Rightarrow> throw_error unknown_source
   | Some asset \<Rightarrow>
       if cleanupStrength edit \<noteq> 0 \<and> a_mime asset = PDF then throw_error photos_only
       else and_then (post (ProgressMessage (bj_request j) (progress_text i (bj_total j)))) (\<lambda>_.
         case prepared_bytes j i of
           Some bytes \<Rightarrow> add_prepared T bytes (a_id asset) b
         | None \<Rightarrow> add_page T j asset edit b))"

fun build_pages ::
  "('doc, 'page, 'emb, 'img, 'bm) tools \<Rightarrow> build_job \<Rightarrow> nat \<Rightarrow> PageEdit list \<Rightarrow> ('doc, 'page, 'emb) build_state
    \<Rightarrow> ('doc, 'page, 'emb) build_state job" where
  "build_pages T j i [] b = give b"
| "build_pages T j i (edit # pages) b = and_then (build_page T j i edit b) (build_pages T j (i + 1) pages)"

definition count_pages :: "PageEdit list \<Rightarrow> (jstring, nat) js_map" where
  "count_pages pages = fold (\<lambda>p m. jm_set m (e_sourceId p) (nullish (jm_get m (e_sourceId p)) 0 + 1)) pages []"

text \<open>The manifest asks for a PDF as it is.\<close>

definition whole_source :: "ImportAsset \<Rightarrow> PageEdit list \<Rightarrow> bool" where
  "whole_source first pages \<longleftrightarrow>
     a_mime first = PDF \<and> length pages = a_pageCount first \<and>
     list_all (\<lambda>(i, p). e_sourceId p = a_id first \<and> e_page p = i \<and> isPlain p) (enumerate 0 pages)"

definition build_document ::
  "('doc, 'page, 'emb, 'img, 'bm) tools \<Rightarrow> build_job \<Rightarrow> PageEdit list \<Rightarrow> nat list job" where
  "build_document T j pages =
     and_then (build_pages T j 0 pages
       \<lparr>bs_out = [], bs_pdfSources = [], bs_remaining = count_pages pages\<rparr>) (\<lambda>b.
     attempt (tl_saveOut T (bs_out b)))"

definition build ::
  "('doc, 'page, 'emb, 'img, 'bm) tools \<Rightarrow> jstring \<Rightarrow> ImportAsset list \<Rightarrow> PageEdit list
    \<Rightarrow> (Json \<times> nat list) list \<Rightarrow> Json list \<Rightarrow> jstring option \<Rightarrow> nat list job" where
  "build T draftId sources pages prepared preparedKeys requestId =
     (let sourceMap = map_from (map (\<lambda>a. (a_id a, a)) sources);
          j = \<lparr>bj_draftId = draftId, bj_sources = sourceMap, bj_prepared = map_from prepared,
               bj_keys = preparedKeys, bj_total = length pages, bj_request = requestId\<rparr>
      in if pages = [] then throw_error no_pages
         else if prepared \<noteq> [] then build_document T j pages
         else (case jm_get sourceMap (e_sourceId (hd pages)) of
                 None \<Rightarrow> throw_error missing_property
               | Some first \<Rightarrow>
                   if whole_source first pages then read_source T draftId (a_id first)
                   else build_document T j pages))"

section \<open>Matching pages\<close>

definition measure_page ::
  "('doc, 'page, 'emb, 'img, 'bm) tools \<Rightarrow> jstring \<Rightarrow> ImportAsset list \<Rightarrow> PageEdit \<Rightarrow> MeasuredPage job" where
  "measure_page T draftId sources edit =
     and_then (build T draftId sources [edit] [] [] None) (\<lambda>bytes.
     and_then (renderPDF T bytes 0) (\<lambda>(c, width, height).
     and_then (openCV T) (\<lambda>_.
     and_then (analyze T c) (\<lambda>result.
     if \<not> st_confident result then throw_error (nullish (st_reason result) (js ''''))
     else give \<lparr>mp_angle = the (st_angle result), mp_bounds = the (st_bounds result),
       mp_width = width, mp_height = height\<rparr>))))"

definition match_page ::
  "('doc, 'page, 'emb, 'img, 'bm) tools \<Rightarrow> jstring \<Rightarrow> ImportAsset list \<Rightarrow> MeasuredPage \<Rightarrow> PageEdit \<Rightarrow> PageEdit job" where
  "match_page T draftId sources reference target =
     and_then (measure_page T draftId sources target) (\<lambda>m.
     let edit = target\<lparr>e_angle := Some (or_else (e_angle target) 0 + mp_angle m - mp_angle reference)\<rparr>
     in and_then (measure_page T draftId sources edit) (\<lambda>m.
        and_then (attempt (alignToReference edit m reference)) (\<lambda>edit.
        and_then (build T draftId sources [edit] [] [] None) (\<lambda>_.
        give edit))))"

fun match_targets ::
  "('doc, 'page, 'emb, 'img, 'bm) tools \<Rightarrow> jstring \<Rightarrow> ImportAsset list \<Rightarrow> MeasuredPage \<Rightarrow> PageEdit list \<Rightarrow> PageEdit list job" where
  "match_targets T draftId sources reference [] = give []"
| "match_targets T draftId sources reference (target # targets) =
     and_then (match_page T draftId sources reference target) (\<lambda>page.
     and_then (match_targets T draftId sources reference targets) (\<lambda>pages.
     give (page # pages)))"

definition matchPages ::
  "('doc, 'page, 'emb, 'img, 'bm) tools \<Rightarrow> jstring \<Rightarrow> ImportAsset list \<Rightarrow> PageEdit \<Rightarrow> PageEdit list \<Rightarrow> PageEdit list job" where
  "matchPages T draftId sources referenceEdit targets =
     and_then (measure_page T draftId sources referenceEdit) (\<lambda>reference.
     match_targets T draftId sources reference targets)"

section \<open>Requests\<close>

fun request_id :: "request \<Rightarrow> jstring option" where
  "request_id (MatchRequest i _ _ _ _) = i"
| "request_id (AnalyzeRequest i _) = i"
| "request_id (PreviewRequest i _ _ _) = i"
| "request_id (BuildRequest i _ _ _ _ _) = i"

fun handle :: "('doc, 'page, 'emb, 'img, 'bm) tools \<Rightarrow> request \<Rightarrow> unit job" where
  "handle T (MatchRequest i draftId sources reference targets) =
     and_then (matchPages T draftId sources reference targets) (\<lambda>pages. post (PagesMessage i pages))"
| "handle T (AnalyzeRequest i picture) =
     and_then (openCV T) (\<lambda>_. and_then (analyze T picture) (\<lambda>s. post (StaffMessage i s)))"
| "handle T (PreviewRequest i raster edit maxEdge) =
     and_then (previewRaster T raster edit (nullish maxEdge 1050)) (\<lambda>(blob, width, height).
     post (PreviewMessage i blob width height))"
| "handle T (BuildRequest i draftId sources pages prepared keys) =
     and_then (build T draftId sources pages (nullish prepared []) (nullish keys []) i) (\<lambda>bytes.
     post (BytesMessage i bytes))"

text \<open>An error becomes the answer.\<close>

definition onmessage :: "('doc, 'page, 'emb, 'img, 'bm) tools \<Rightarrow> request \<Rightarrow> unit job" where
  "onmessage T r w = (case handle T r w of
     (Inl e, w') \<Rightarrow> post (ErrorMessage (request_id r) e) w'
   | (Inr _, w') \<Rightarrow> (Inr (), w'))"

end
