(* ===== verification/ProcessingBuild.thy ===== *)
theory ProcessingBuild
  imports Processing
begin

text \<open>
  Building a document page by page. The worker keeps a PDF source while pages of it are left and
  uses pages prepared earlier; the result is the same as making every page on its own. Each PDF
  source is read once.
\<close>

section \<open>Values of actions\<close>

definition cv_ok :: "('doc, 'page, 'emb, 'img, 'bm) tools \<Rightarrow> message world \<Rightarrow> bool" where
  "cv_ok T w \<longleftrightarrow> wd_cv w = None \<or> wd_cv w = Some (tl_openCV T)"

definition value_of :: "'a job \<Rightarrow> jstring + 'a" where
  "value_of a = fst (a new_world)"

text \<open>The action returns or throws the same wherever it runs.\<close>

definition steady :: "('doc, 'page, 'emb, 'img, 'bm) tools \<Rightarrow> 'a job \<Rightarrow> bool" where
  "steady T a \<longleftrightarrow> (\<forall>w. cv_ok T w \<longrightarrow> fst (a w) = value_of a \<and> cv_ok T (snd (a w)))"

lemma steadyD: "steady T a \<Longrightarrow> cv_ok T w \<Longrightarrow> fst (a w) = value_of a"
  by (simp add: steady_def)

lemma cv_ok_new [simp]: "cv_ok T new_world"
  by (simp add: cv_ok_def new_world_def)

lemma steady_simple [simp]:
  "steady T (give x)" "steady T (throw_error e)" "steady T (attempt r)" "steady T (post m)"
  "steady T (opened n)" "steady T (closed n)" "steady T (openCV T)"
  by (auto simp: steady_def value_of_def give_def throw_error_def attempt_def post_def opened_def closed_def
      closing_def openCV_def cv_ok_def new_world_def Let_def)

lemma steady_and_then:
  assumes "steady T a" and "\<And>x. steady T (f x)"
  shows "steady T (and_then a f) \<and>
    value_of (and_then a f) = (case value_of a of Inl e \<Rightarrow> Inl e | Inr x \<Rightarrow> value_of (f x))"
proof -
  have "fst (and_then a f w) = (case value_of a of Inl e \<Rightarrow> Inl e | Inr x \<Rightarrow> value_of (f x)) \<and>
      cv_ok T (snd (and_then a f w))" if "cv_ok T w" for w
  proof (cases "a w")
    case (Pair r w')
    with assms(1) that have "value_of a = r" "cv_ok T w'" by (force simp: steady_def)+
    with assms(2) Pair show ?thesis
      by (cases r) (auto simp: and_then_def steady_def)
  qed
  then show ?thesis by (simp add: steady_def value_of_def)
qed

lemma cv_ok_closing [simp]: "cv_ok T (closing n w) = cv_ok T w"
  by (simp add: cv_ok_def closing_def)

lemma finally_parts:
  "fst (finally_do a (\<lambda>r. closing (n r)) w) = fst (a w)"
  "cv_ok T (snd (finally_do a (\<lambda>r. closing (n r)) w)) = cv_ok T (snd (a w))"
  by (simp_all add: finally_do_def split: prod.split)

lemma steady_finally:
  "steady T a \<Longrightarrow> steady T (finally_do a (\<lambda>r. closing (n r))) \<and> value_of (finally_do a (\<lambda>r. closing (n r))) = value_of a"
  unfolding steady_def value_of_def finally_parts by blast

lemma steady_while_open: "steady T a \<Longrightarrow> steady T (while_open n a)"
  unfolding while_open_def using steady_and_then [of T "opened n" "\<lambda>_. finally_do a (\<lambda>_. closing n)"] steady_finally [of T a "\<lambda>_. n"]
  by simp

lemma steady_if: "steady T a \<Longrightarrow> steady T b \<Longrightarrow> steady T (if c then a else b)"
  by simp

lemma steady_option: "steady T a \<Longrightarrow> (\<And>x. steady T (f x)) \<Longrightarrow> steady T (case v of None \<Rightarrow> a | Some x \<Rightarrow> f x)"
  by (cases v) simp_all

lemma steady_prod: "(\<And>x y. steady T (f x y)) \<Longrightarrow> steady T (case p of (x, y) \<Rightarrow> f x y)"
  by (cases p) simp

lemmas steady_rules = steady_and_then [THEN conjunct1] steady_finally [THEN conjunct1] steady_while_open
  steady_if steady_option steady_prod steady_simple

lemmas value_and_then = steady_and_then [THEN conjunct2]

lemma value_simple [simp]:
  "value_of (give x) = Inr x" "value_of (throw_error e) = Inl e" "value_of (attempt r) = r"
  "value_of (post m) = Inr ()"
  by (simp_all add: value_of_def give_def throw_error_def attempt_def post_def)

lemma steady_photoPDF: "steady T (photoPDF T bytes edit)"
  unfolding photoPDF_def jpegPDF_def correctPhoto_def lightenPaper_def straighten_def Let_def
  by (intro steady_rules)

lemma steady_renderPDF: "steady T (renderPDF T bytes n)"
  unfolding renderPDF_def Let_def by (intro steady_rules)

lemma steady_checkInk: "steady T (checkInk T bytes n edges layout)"
  unfolding checkInk_def by (intro steady_rules steady_renderPDF)

lemma steady_drawn_page: "steady T (drawn_page T isPDF source n original edit)"
  unfolding drawn_page_def Let_def by (intro steady_rules steady_checkInk)

lemma steady_copied_page: "steady T (copied_page T doc n edit)"
  unfolding copied_page_def by (intro steady_rules)

text \<open>Source files answer every request for them in the same way.\<close>

definition stable_sources :: "('doc, 'page, 'emb, 'img, 'bm) tools \<Rightarrow> bool" where
  "stable_sources T \<longleftrightarrow> (\<forall>n d i. tl_fetch T n d i = tl_fetch T 0 d i)"

lemma steady_read_source: "stable_sources T \<Longrightarrow> steady T (read_source T d i)"
  by (auto simp: stable_sources_def steady_def value_of_def read_source_def cv_ok_def new_world_def) metis+

section \<open>A page on its own\<close>

definition source_alone ::
  "('doc, 'page, 'emb, 'img, 'bm) tools \<Rightarrow> build_job \<Rightarrow> ImportAsset \<Rightarrow> PageEdit \<Rightarrow> jstring + (nat list \<times> 'doc)" where
  "source_alone T j asset edit = value_of
     (and_then (read_source T (bj_draftId j) (a_id asset)) (\<lambda>bytes.
      and_then (if a_mime asset = PDF then attempt (tl_load T bytes) else photoPDF T bytes edit) (\<lambda>doc.
      give (bytes, doc))))"

definition made_page ::
  "('doc, 'page, 'emb, 'img, 'bm) tools \<Rightarrow> ImportAsset \<Rightarrow> PageEdit \<Rightarrow> nat list \<times> 'doc \<Rightarrow> jstring + ('page, 'emb) out_page" where
  "made_page T asset edit source =
     (let isPDF = a_mime asset = PDF; n = (if isPDF then e_page edit else 0)
      in value_of (and_then (attempt (tl_getPage T (snd source) n)) (\<lambda>original.
           if needsGeometry edit then drawn_page T isPDF source n original edit
           else copied_page T (snd source) n edit)))"

definition stored_page ::
  "('doc, 'page, 'emb, 'img, 'bm) tools \<Rightarrow> nat list \<Rightarrow> jstring + ('page, 'emb) out_page" where
  "stored_page T bytes = value_of
     (and_then (attempt (tl_load T bytes)) (\<lambda>doc.
      if tl_pageCount T doc \<noteq> 1 then throw_error bad_prepared
      else and_then (attempt (tl_copyPage T doc 0)) (\<lambda>copy. give (Copied copy None))))"

text \<open>The page at index \<open>i\<close>, with its source read for it alone.\<close>

definition page_alone ::
  "('doc, 'page, 'emb, 'img, 'bm) tools \<Rightarrow> build_job \<Rightarrow> nat \<Rightarrow> PageEdit \<Rightarrow> jstring + ('page, 'emb) out_page" where
  "page_alone T j i edit = (case jm_get (bj_sources j) (e_sourceId edit) of
     None \<Rightarrow> Inl unknown_source
   | Some asset \<Rightarrow>
       if cleanupStrength edit \<noteq> 0 \<and> a_mime asset = PDF then Inl photos_only
       else (case prepared_bytes j i of
          Some bytes \<Rightarrow> stored_page T bytes
        | None \<Rightarrow> (case source_alone T j asset edit of
            Inl e \<Rightarrow> Inl e
          | Inr source \<Rightarrow> made_page T asset edit source)))"

text \<open>The values of a list of results, or its first error.\<close>

fun all_results :: "('e + 'a) list \<Rightarrow> 'e + 'a list" where
  "all_results [] = Inr []"
| "all_results (r # rs) = (case r of
     Inl e \<Rightarrow> Inl e
   | Inr x \<Rightarrow> (case all_results rs of Inl e \<Rightarrow> Inl e | Inr xs \<Rightarrow> Inr (x # xs)))"

definition pages_alone ::
  "('doc, 'page, 'emb, 'img, 'bm) tools \<Rightarrow> build_job \<Rightarrow> nat \<Rightarrow> PageEdit list \<Rightarrow> (jstring + ('page, 'emb) out_page) list" where
  "pages_alone T j n pages = map (\<lambda>(i, edit). page_alone T j i edit) (enumerate n pages)"

section \<open>Building agrees with pages on their own\<close>

text \<open>Sources are found under their own identifiers.\<close>

definition keyed :: "build_job \<Rightarrow> bool" where
  "keyed j \<longleftrightarrow> (\<forall>i a. jm_get (bj_sources j) i = Some a \<longrightarrow> a_id a = i)"

text \<open>What is held of a PDF source is what reading it again would give.\<close>

definition held :: "('doc, 'page, 'emb, 'img, 'bm) tools \<Rightarrow> build_job \<Rightarrow> ('doc, 'page, 'emb) build_state \<Rightarrow> bool" where
  "held T j b \<longleftrightarrow> jm_ok (bs_pdfSources b) \<and>
     (\<forall>i source. jm_get (bs_pdfSources b) i = Some source \<longrightarrow>
       (\<exists>asset. jm_get (bj_sources j) i = Some asset \<and> a_mime asset = PDF \<and>
         (\<forall>edit. source_alone T j asset edit = Inr source)))"

lemma steady_load_source: "stable_sources T \<Longrightarrow> steady T (load_source T j asset edit b)"
  unfolding load_source_def by (intro steady_rules steady_read_source steady_photoPDF)

lemma steady_build_page: "stable_sources T \<Longrightarrow> steady T (build_page T j i edit b)"
  unfolding build_page_def add_prepared_def add_page_def Let_def
  by (intro steady_rules steady_load_source steady_drawn_page steady_copied_page)

lemma steady_build_pages: "stable_sources T \<Longrightarrow> steady T (build_pages T j i pages b)"
  by (induction pages arbitrary: i b) (auto intro: steady_rules(1) steady_build_page)

lemma load_source_value:
  assumes "stable_sources T" and "held T j b" and "jm_get (bj_sources j) (a_id asset) = Some asset"
  shows "\<exists>b'. bs_out b' = bs_out b \<and> (\<forall>s. source_alone T j asset edit = Inr s \<longrightarrow> held T j b') \<and>
    value_of (load_source T j asset edit b) =
      (case source_alone T j asset edit of Inl e \<Rightarrow> Inl e | Inr s \<Rightarrow> Inr (s, b'))"
proof (cases "jm_get (bs_pdfSources b) (a_id asset)")
  case (Some s)
  with assms(2,3) have "source_alone T j asset edit = Inr s"
    by (cases s) (fastforce simp: held_def)
  with Some assms(2) show ?thesis by (intro exI [of _ b]) (simp add: load_source_def)
next
  case None
  have st: "steady T (read_source T (bj_draftId j) (a_id asset))" using assms(1) by (rule steady_read_source)
  define load where "load bytes = (if a_mime asset = PDF then attempt (tl_load T bytes) else photoPDF T bytes edit)" for bytes
  have sl: "steady T (load bytes)" for bytes by (simp add: load_def steady_photoPDF)
  have alone: "source_alone T j asset edit = (case value_of (read_source T (bj_draftId j) (a_id asset)) of
      Inl e \<Rightarrow> Inl e | Inr bytes \<Rightarrow> (case value_of (load bytes) of Inl e \<Rightarrow> Inl e | Inr doc \<Rightarrow> Inr (bytes, doc)))"
    unfolding source_alone_def load_def [symmetric] by (simp add: value_and_then [where T = T] st sl steady_rules cong: sum.case_cong)
  define keep where "keep s = (if a_mime asset = PDF then b\<lparr>bs_pdfSources := jm_set (bs_pdfSources b) (a_id asset) s\<rparr> else b)" for s
  have val: "value_of (load_source T j asset edit b) = (case source_alone T j asset edit of Inl e \<Rightarrow> Inl e | Inr s \<Rightarrow> Inr (s, keep s))"
    unfolding load_source_def load_def [symmetric] alone
    by (auto simp: None value_and_then [where T = T] st sl steady_rules keep_def cong: sum.case_cong split: sum.splits)
  show ?thesis
  proof (cases "source_alone T j asset edit")
    case (Inl e)
    with val show ?thesis by (intro exI [of _ b]) simp
  next
    case (Inr s)
    have "held T j (keep s)"
    proof (cases "a_mime asset = PDF")
      case True
      have "source_alone T j asset e = Inr s" for e
        using Inr True by (simp add: source_alone_def)
      with True assms(2,3) show ?thesis
        by (auto simp: held_def keep_def jm_get_set jm.invar_update)
    qed (use assms(2) in \<open>simp add: keep_def\<close>)
    with val Inr show ?thesis by (intro exI [of _ "keep s"]) (simp add: keep_def)
  qed
qed

lemma held_one_less [simp]: "held T j (one_less i b) = held T j b" "held T j (add_out p b) = held T j b"
  by (simp_all add: held_def one_less_def add_out_def)

lemma held_release: "held T j b \<Longrightarrow> held T j (release_source i b)"
  by (auto simp: held_def release_source_def jm_get_delete jm.invar_remove split: if_splits)

lemma out_simps [simp]: "bs_out (one_less i b) = bs_out b" "bs_out (release_source i b) = bs_out b"
  "bs_out (add_out p b) = bs_out b @ [p]"
  by (simp_all add: one_less_def release_source_def add_out_def)

lemma add_page_value:
  assumes "stable_sources T" and "held T j b" and "jm_get (bj_sources j) (a_id asset) = Some asset"
  shows "\<exists>b'. held T j b' \<and> (\<forall>p. bs_out (add_out p b') = bs_out b @ [p]) \<and>
    value_of (add_page T j asset edit b) =
      (case (case source_alone T j asset edit of Inl e \<Rightarrow> Inl e | Inr s \<Rightarrow> made_page T asset edit s) of
         Inl e \<Rightarrow> Inl e | Inr p \<Rightarrow> Inr (add_out p b'))"
proof -
  from load_source_value [OF assms, of edit] obtain b1 where b1: "bs_out b1 = bs_out b"
    "\<And>s. source_alone T j asset edit = Inr s \<Longrightarrow> held T j b1"
    "value_of (load_source T j asset edit b) =
      (case source_alone T j asset edit of Inl e \<Rightarrow> Inl e | Inr s \<Rightarrow> Inr (s, b1))" by blast
  define b' where "b' = release_source (a_id asset) (one_less (a_id asset) b1)"
  define n where "n = (if a_mime asset = PDF then e_page edit else 0)"
  define rest where "rest s original = (if needsGeometry edit then drawn_page T (a_mime asset = PDF) s n original edit
      else copied_page T (snd s) n edit)" for s original
  have sr: "steady T (rest s original)" for s original
    by (simp add: rest_def steady_drawn_page steady_copied_page)
  have made: "made_page T asset edit s = (case tl_getPage T (snd s) n of Inl e \<Rightarrow> Inl e | Inr x \<Rightarrow> value_of (rest s x))" for s
    unfolding made_page_def Let_def n_def [symmetric] rest_def [symmetric]
    by (simp add: value_and_then [where T = T] sr)
  have st: "steady T (case x of (s, b) \<Rightarrow> and_then (attempt (tl_getPage T (snd s) n)) (\<lambda>original.
      and_then (rest s original) (\<lambda>p. give (add_out p (release_source (a_id asset) (one_less (a_id asset) b))))))" for x
    by (intro steady_rules sr)
  have "value_of (add_page T j asset edit b) =
      (case (case source_alone T j asset edit of Inl e \<Rightarrow> Inl e | Inr s \<Rightarrow> made_page T asset edit s) of
         Inl e \<Rightarrow> Inl e | Inr p \<Rightarrow> Inr (add_out p b'))"
    unfolding add_page_def Let_def n_def [symmetric] rest_def [symmetric] made
    by (simp add: value_and_then [where T = T] st steady_load_source assms(1) b1(3) sr steady_rules b'_def
        cong: sum.case_cong split: sum.split)
  note result = this
  show ?thesis
  proof (cases "source_alone T j asset edit")
    case (Inl e)
    with result assms(2) show ?thesis by (intro exI [of _ b]) simp
  next
    case (Inr s)
    with b1(2) have "held T j b'" by (simp add: b'_def held_release)
    with result b1(1) show ?thesis by (intro exI [of _ b']) (simp add: b'_def)
  qed
qed

lemma build_page_value:
  assumes "stable_sources T" and "keyed j" and "held T j b"
  shows "case page_alone T j i edit of
      Inl e \<Rightarrow> value_of (build_page T j i edit b) = Inl e
    | Inr p \<Rightarrow> \<exists>b'. value_of (build_page T j i edit b) = Inr b' \<and> held T j b' \<and> bs_out b' = bs_out b @ [p]"
proof (cases "jm_get (bj_sources j) (e_sourceId edit)")
  case None
  then show ?thesis by (simp add: page_alone_def build_page_def)
next
  case found: (Some asset)
  then have asset: "jm_get (bj_sources j) (a_id asset) = Some asset" using assms(2) by (simp add: keyed_def)
  show ?thesis
  proof (cases "cleanupStrength edit \<noteq> 0 \<and> a_mime asset = PDF")
    case True
    with found show ?thesis by (simp add: page_alone_def build_page_def)
  next
    case False
    note posted = value_and_then [where T = T, OF steady_simple(4)]
    have sp: "steady T (add_prepared T bytes k b)" for bytes k
      unfolding add_prepared_def by (intro steady_rules)
    have sa: "steady T (add_page T j asset edit b)"
      unfolding add_page_def Let_def
      by (intro steady_rules steady_load_source steady_drawn_page steady_copied_page assms(1))
    show ?thesis
    proof (cases "prepared_bytes j i")
      case (Some bytes)
      have "value_of (add_prepared T bytes (a_id asset) b) = (case stored_page T bytes of Inl e \<Rightarrow> Inl e
          | Inr p \<Rightarrow> Inr (add_out p (one_less (a_id asset) b)))"
        unfolding add_prepared_def stored_page_def
        by (simp add: value_and_then [where T = T] steady_rules split: sum.split)
      moreover have "page_alone T j i edit = stored_page T bytes"
        unfolding page_alone_def by (simp only: found Some option.case if_not_P [OF False])
      moreover have "value_of (build_page T j i edit b) = value_of (add_prepared T bytes (a_id asset) b)"
        unfolding build_page_def by (simp only: found Some option.case if_not_P [OF False] posted sp value_simple sum.case)
      ultimately show ?thesis using assms(3) by (simp split: sum.split)
    next
      case None
      have "page_alone T j i edit =
          (case source_alone T j asset edit of Inl e \<Rightarrow> Inl e | Inr s \<Rightarrow> made_page T asset edit s)"
        unfolding page_alone_def by (simp only: found None option.case if_not_P [OF False])
      moreover have "value_of (build_page T j i edit b) = value_of (add_page T j asset edit b)"
        unfolding build_page_def by (simp only: found None option.case if_not_P [OF False] posted sa value_simple sum.case)
      ultimately show ?thesis
        using add_page_value [OF assms(1,3) asset, of edit] by (auto split: sum.split)
    qed
  qed
qed

lemma build_pages_value:
  assumes "stable_sources T" and "keyed j" and "held T j b"
  shows "case all_results (pages_alone T j i pages) of
      Inl e \<Rightarrow> value_of (build_pages T j i pages b) = Inl e
    | Inr outs \<Rightarrow> \<exists>b'. value_of (build_pages T j i pages b) = Inr b' \<and> bs_out b' = bs_out b @ outs"
  using assms(3)
proof (induction pages arbitrary: i b)
  case (Cons edit pages)
  have step: "value_of (build_pages T j i (edit # pages) b) = (case value_of (build_page T j i edit b) of
      Inl e \<Rightarrow> Inl e | Inr b' \<Rightarrow> value_of (build_pages T j (i + 1) pages b'))"
    unfolding build_pages.simps
    by (intro value_and_then [where T = T] steady_build_page steady_build_pages assms(1))
  show ?case
  proof (cases "page_alone T j i edit")
    case (Inl e)
    with build_page_value [OF assms(1,2) Cons.prems, of i edit] step show ?thesis
      by (simp add: pages_alone_def)
  next
    case (Inr p)
    with build_page_value [OF assms(1,2) Cons.prems, of i edit] obtain b' where
      b': "value_of (build_page T j i edit b) = Inr b'" "held T j b'" "bs_out b' = bs_out b @ [p]" by auto
    from Cons.IH [OF b'(2), of "i + 1"] step b' Inr show ?thesis
      by (auto simp: pages_alone_def split: sum.splits)
  qed
qed (simp add: pages_alone_def)

lemma map_from_get: "jm_get (map_from kvs) k = map_of (rev kvs) k"
proof -
  have "jm_get (fold (\<lambda>(k, v) m. jm_set m k v) kvs m) k = (case map_of (rev kvs) k of None \<Rightarrow> jm_get m k | Some v \<Rightarrow> Some v)" for m
    by (induction kvs arbitrary: m) (auto simp: jm_get_set map_add_def split: option.splits prod.splits)
  from this [of "[]"] show ?thesis by (simp add: map_from_def split: option.split)
qed

definition build_job_of ::
  "jstring \<Rightarrow> ImportAsset list \<Rightarrow> PageEdit list \<Rightarrow> (Json \<times> nat list) list \<Rightarrow> Json list \<Rightarrow> jstring option \<Rightarrow> build_job" where
  "build_job_of draftId sources pages prepared keys requestId =
     \<lparr>bj_draftId = draftId, bj_sources = map_from (map (\<lambda>a. (a_id a, a)) sources), bj_prepared = map_from prepared,
      bj_keys = keys, bj_total = length pages, bj_request = requestId\<rparr>"

lemma keyed_job: "keyed (build_job_of draftId sources pages prepared keys requestId)"
  unfolding keyed_def build_job_of_def map_from_get build_job.simps
  by (auto dest!: map_of_SomeD)

text \<open>The first page's source exists and the document is not one source as it is.\<close>

definition assembled :: "build_job \<Rightarrow> PageEdit list \<Rightarrow> (Json \<times> nat list) list \<Rightarrow> bool" where
  "assembled j pages prepared \<longleftrightarrow> pages \<noteq> [] \<and>
     (prepared \<noteq> [] \<or> (case jm_get (bj_sources j) (e_sourceId (hd pages)) of
        None \<Rightarrow> False | Some first \<Rightarrow> \<not> whole_source first pages))"

lemma build_assembled:
  assumes "assembled (build_job_of draftId sources pages prepared keys requestId) pages prepared"
  shows "build T draftId sources pages prepared keys requestId =
    build_document T (build_job_of draftId sources pages prepared keys requestId) pages"
  using assms by (auto simp: assembled_def build_def build_job_of_def Let_def split: option.splits)

lemma build_value:
  assumes "stable_sources T" and "cv_ok T w"
    and "assembled (build_job_of draftId sources pages prepared keys requestId) pages prepared"
  shows "fst (build (T :: ('doc, 'page, 'emb, 'img, 'bm) tools) draftId sources pages prepared keys requestId w) =
    (case all_results (pages_alone T (build_job_of draftId sources pages prepared keys requestId) 0 pages) of
       Inl e \<Rightarrow> Inl e | Inr outs \<Rightarrow> tl_saveOut T outs)"
proof -
  define j where "j = build_job_of draftId sources pages prepared keys requestId"
  define b :: "('doc, 'page, 'emb) build_state" where "b = \<lparr>bs_out = [], bs_pdfSources = [], bs_remaining = count_pages pages\<rparr>"
  have "held T j b" by (simp add: held_def b_def)
  note pages_value = build_pages_value [OF assms(1) keyed_job this [unfolded j_def], of 0 pages, folded j_def]
  have "steady T (build_document T j pages)"
    unfolding build_document_def by (intro steady_rules steady_build_pages assms(1))
  then have "fst (build T draftId sources pages prepared keys requestId w) = value_of (build_document T j pages)"
    unfolding build_assembled [OF assms(3)] j_def using assms(2) by (rule steadyD)
  moreover have "value_of (build_document T j pages) = (case value_of (build_pages T j 0 pages b) of
      Inl e \<Rightarrow> Inl e | Inr b \<Rightarrow> tl_saveOut T (bs_out b))"
    unfolding build_document_def b_def [symmetric]
    by (simp add: value_and_then [where T = T] steady_build_pages assms(1) cong: sum.case_cong)
  ultimately show ?thesis
    using pages_value by (auto simp: b_def j_def [symmetric] split: sum.splits)
qed

end
