(* ===== verification/ProcessingCache.thy ===== *)
theory ProcessingCache
  imports ProcessingBuild
begin

text \<open>
  Properties of the processing worker's builds: each page is made as it would be on its own, a
  page prepared earlier looks like one made now, and a PDF source is read at most once.
\<close>

section \<open>Page by page\<close>

text \<open>C12: Keeping PDF sources open between pages and putting in prepared pages changes nothing of
  what is built: a document that is not one source as it is consists of its pages in order, each
  made as it would be on its own with its source read for it alone, and when a page fails, the
  first page that fails gives the error. Source files are taken to answer alike each time.\<close>

theorem build_is_page_by_page:
  assumes "stable_sources T" and "cv_ok T w"
    and "assembled (build_job_of draftId sources pages prepared keys requestId) pages prepared"
  shows "fst (build T draftId sources pages prepared keys requestId w) =
    (case all_results (pages_alone T (build_job_of draftId sources pages prepared keys requestId) 0 pages) of
       Inl e \<Rightarrow> Inl e | Inr outs \<Rightarrow> tl_saveOut T outs)"
  using assms by (rule build_value)

section \<open>Pages prepared earlier\<close>

definition on_value :: "('a \<Rightarrow> 'b) \<Rightarrow> 'e + 'a \<Rightarrow> 'e + 'b" where
  "on_value f r = (case r of Inl e \<Rightarrow> Inl e | Inr x \<Rightarrow> Inr (f x))"

lemma on_value_simps [simp]: "on_value f (Inl e) = Inl e" "on_value f (Inr x) = Inr (f x)"
  by (simp_all add: on_value_def)

text \<open>Angles in degrees that turn alike.\<close>

definition same_turn :: "real \<Rightarrow> real \<Rightarrow> bool" where
  "same_turn r r' \<longleftrightarrow> (\<exists>k :: int. r = r' + 360 * of_int k)"

text \<open>
  What a page of the output looks like: a single page that is saved, loaded and copied looks the
  same, and an angle counts modulo a full turn.
\<close>

definition looks_ok :: "('doc, 'page, 'emb, 'img, 'bm) tools \<Rightarrow> (('page, 'emb) out_page \<Rightarrow> 'look) \<Rightarrow> bool" where
  "looks_ok T shows_as \<longleftrightarrow>
     (\<forall>p bytes. tl_saveOut T [p] = Inr bytes \<longrightarrow> (\<exists>doc c. tl_load T bytes = Inr doc \<and> tl_pageCount T doc = 1 \<and>
        tl_copyPage T doc 0 = Inr c \<and> shows_as (Copied c None) = shows_as p)) \<and>
     (\<forall>page r r'. same_turn r r' \<longrightarrow> shows_as (Copied page (Some r)) = shows_as (Copied page (Some r'))) \<and>
     (\<forall>w h e x y s r r'. same_turn r r' \<longrightarrow> shows_as (Drawn w h e x y s r) = shows_as (Drawn w h e x y s r'))"

text \<open>Files with the same checksum are the same file.\<close>

definition same_files :: "('doc, 'page, 'emb, 'img, 'bm) tools \<Rightarrow> build_job \<Rightarrow> bool" where
  "same_files T j \<longleftrightarrow> (\<forall>i i' a a'. jm_get (bj_sources j) i = Some a \<and> jm_get (bj_sources j) i' = Some a' \<and>
     a_checksum a = a_checksum a' \<longrightarrow>
     tl_fetch T 0 (bj_draftId j) (a_id a) = tl_fetch T 0 (bj_draftId j) (a_id a'))"

text \<open>
  The bytes were built for an edit that has the key of this page and needs a new canvas like it:
  what the page keeps in its cache of prepared pages.
\<close>

definition prepared_for ::
  "('doc, 'page, 'emb, 'img, 'bm) tools \<Rightarrow> build_job \<Rightarrow> PageEdit \<Rightarrow> nat list \<Rightarrow> bool" where
  "prepared_for T j edit bytes \<longleftrightarrow>
     (\<exists>a a' edit' p'. jm_get (bj_sources j) (e_sourceId edit) = Some a \<and>
       jm_get (bj_sources j) (e_sourceId edit') = Some a' \<and> preparedPhotoKey a edit = preparedPhotoKey a' edit' \<and>
       grid_edit edit \<and> grid_edit edit' \<and> needsGeometry edit = needsGeometry edit' \<and>
       page_alone T (j\<lparr>bj_prepared := []\<rparr>) 0 edit' = Inr p' \<and> tl_saveOut T [p'] = Inr bytes)"

lemma has_items_nullish: "has_items v \<longleftrightarrow> nullish v [] \<noteq> []"
  by (cases v) (simp_all add: has_items_def)

lemma photoPDF_reads:
  assumes "cleanupStrength e = cleanupStrength e'" and "flag (e_fitEdges e) = flag (e_fitEdges e')"
    and "nullish (e_corners e) [] = nullish (e_corners e') []"
  shows "photoPDF T bytes e = photoPDF T bytes e'"
  unfolding photoPDF_def correctPhoto_def straighten_def has_items_nullish assms ..

lemma source_alone_reads:
  assumes "a_mime a = a_mime a'" and "tl_fetch T 0 (bj_draftId j) (a_id a) = tl_fetch T 0 (bj_draftId j) (a_id a')"
    and "\<And>bytes. photoPDF T bytes e = photoPDF T bytes e'" and "stable_sources T"
  shows "source_alone T j a e = source_alone T j a' e'"
proof -
  have "value_of (read_source T d i) = (case tl_fetch T 0 d i of
      Inl e \<Rightarrow> Inl e | Inr None \<Rightarrow> Inl not_loaded | Inr (Some bytes) \<Rightarrow> Inr bytes)" for d i
    by (simp add: value_of_def read_source_def new_world_def)
  then have same: "value_of (read_source T (bj_draftId j) (a_id a)) = value_of (read_source T (bj_draftId j) (a_id a'))"
    by (simp add: assms(2))
  have st: "steady T (and_then (if c then attempt (tl_load T bytes) else photoPDF T bytes x) (\<lambda>doc. give (bytes, doc)))"
    for c bytes x by (intro steady_rules steady_photoPDF)
  show ?thesis
    unfolding source_alone_def assms(1,3) value_and_then [where T = T, OF steady_read_source [OF assms(4)] st] same ..
qed

lemma same_turn_rem: "same_turn r r' \<Longrightarrow> same_turn (js_rem (c + r) 360) (js_rem (c + r') 360)"
proof -
  assume "same_turn r r'"
  then obtain k :: int where k: "r = r' + 360 * of_int k" by (auto simp: same_turn_def)
  obtain i j :: int where "js_rem (c + r) 360 = c + r + 360 * of_int i" "js_rem (c + r') 360 = c + r' + 360 * of_int j"
    using js_rem_whole by meson
  with k show ?thesis by (intro exI [of _ "k + i - j"] iffD2 [OF same_turn_def]) (simp add: algebra_simps)
qed

lemma copied_page_looks:
  assumes "looks_ok T shows_as" and "same_turn (or_else (e_rotation e) 0) (or_else (e_rotation e') 0)"
  shows "on_value shows_as (value_of (copied_page T doc n e)) = on_value shows_as (value_of (copied_page T doc n e'))"
  using assms same_turn_rem [OF assms(2)]
  by (auto simp: copied_page_def value_and_then [where T = T] looks_ok_def split: sum.split)

lemma layout_scale_angle:
  "lay_scale (pageLayout w h e) = (if flag (e_fitEdges e) then 1 else or_else (e_scale e) 1)"
  "lay_angle (pageLayout w h e) = or_else (e_angle e) 0 + or_else (e_rotation e) 0"
  by (simp_all add: pageLayout_def Let_def)

lemma drawn_page_looks:
  assumes key: "preparedPhotoKey s e = preparedPhotoKey s' e'" "grid_edit e" "grid_edit e'"
    and looks: "looks_ok T shows_as"
  shows "on_value shows_as (value_of (drawn_page T isPDF source n original e)) =
    on_value shows_as (value_of (drawn_page T isPDF source n original e'))"
proof -
  note same = prepared_key_reads [OF key]
  have layout: "lay_outputWidth (pageLayout w h e) = lay_outputWidth (pageLayout w h e')"
    "lay_outputHeight (pageLayout w h e) = lay_outputHeight (pageLayout w h e')"
    "lay_transform (pageLayout w h e) = lay_transform (pageLayout w h e')" for w h
    using prepared_key_layout [OF key, of w h] by blast+
  have scale: "lay_scale (pageLayout w h e) = lay_scale (pageLayout w h e')" for w h
    unfolding layout_scale_angle using same(5,11) by auto
  have angle: "same_turn (lay_angle (pageLayout w h e)) (lay_angle (pageLayout w h e'))" for w h
    unfolding layout_scale_angle same_turn_def using same(6,10) by auto
  have ink: "checkInk T bytes n edges (pageLayout w h e) = checkInk T bytes n edges (pageLayout w h e')" for bytes edges w h
    unfolding checkInk_def layout ..
  have turned: "shows_as (Drawn W H x u v k (lay_angle (pageLayout w h e))) =
      shows_as (Drawn W H x u v k (lay_angle (pageLayout w h e')))" for W H x u v k w h
    using looks angle by (simp add: looks_ok_def)
  note st = steady_rules steady_checkInk [of T]
  show ?thesis
    unfolding drawn_page_def Let_def layout scale ink same(5) same(8) [folded whole_page_def]
    by (simp add: value_and_then [where T = T] st turned cong: sum.case_cong split: sum.split)
qed

lemma made_page_looks:
  assumes key: "preparedPhotoKey s e = preparedPhotoKey s' e'" "grid_edit e" "grid_edit e'"
    and "needsGeometry e = needsGeometry e'" and looks: "looks_ok T shows_as"
  shows "on_value shows_as (made_page T s e source) = on_value shows_as (made_page T s' e' source)"
proof -
  note same = prepared_key_reads [OF key]
  have turn: "same_turn (or_else (e_rotation e) 0) (or_else (e_rotation e') 0)"
    using same(10) by (simp add: same_turn_def)
  have st: "steady T (if c then drawn_page T x source n original e else copied_page T (snd source) n e)" for c x n original e
    by (simp add: steady_drawn_page steady_copied_page)
  show ?thesis
    unfolding made_page_def Let_def same(2,3) assms(4)
    using drawn_page_looks [OF key looks] copied_page_looks [OF looks turn]
    by (simp add: value_and_then [where T = T] st split: sum.split)
qed

lemma prepared_page_looks:
  assumes "looks_ok T shows_as" and "stable_sources T" and "same_files T j"
    and "prepared_for T j edit bytes" and "prepared_bytes j i = Some bytes"
  shows "on_value shows_as (page_alone T j i edit) = on_value shows_as (page_alone T (j\<lparr>bj_prepared := []\<rparr>) i edit)"
proof -
  define j0 where "j0 = j\<lparr>bj_prepared := []\<rparr>"
  from assms(4) obtain a a' edit' p' where a: "jm_get (bj_sources j) (e_sourceId edit) = Some a"
    "jm_get (bj_sources j) (e_sourceId edit') = Some a'" and key: "preparedPhotoKey a edit = preparedPhotoKey a' edit'"
    "grid_edit edit" "grid_edit edit'" and geo: "needsGeometry edit = needsGeometry edit'"
    and p': "page_alone T j0 0 edit' = Inr p'" "tl_saveOut T [p'] = Inr bytes"
    unfolding prepared_for_def j0_def by blast
  note same = prepared_key_reads [OF key]
  have sources: "bj_sources j0 = bj_sources j" by (simp add: j0_def)
  have none: "prepared_bytes j0 k = None" for k by (simp add: j0_def prepared_bytes_def)
  have ok: "\<not> (cleanupStrength edit' \<noteq> 0 \<and> a_mime a' = PDF)"
  proof
    assume "cleanupStrength edit' \<noteq> 0 \<and> a_mime a' = PDF"
    then have "page_alone T j0 0 edit' = Inl photos_only" by (simp add: page_alone_def j0_def a(2))
    with p'(1) show False by simp
  qed
  then have ok_edit: "\<not> (cleanupStrength edit \<noteq> 0 \<and> a_mime a = PDF)" using same(2,4) by simp
  have src: "source_alone T j0 a edit = source_alone T j0 a' edit'"
  proof (rule source_alone_reads [OF same(2) _ photoPDF_reads [OF same(4,5,9)] assms(2)])
    have "tl_fetch T 0 (bj_draftId j) (a_id a) = tl_fetch T 0 (bj_draftId j) (a_id a')"
      using assms(3) same(1) a unfolding same_files_def by blast
    then show "tl_fetch T 0 (bj_draftId j0) (a_id a) = tl_fetch T 0 (bj_draftId j0) (a_id a')" by (simp add: j0_def)
  qed
  have alone: "page_alone T j0 k edit = (case source_alone T j0 a edit of Inl e \<Rightarrow> Inl e | Inr s \<Rightarrow> made_page T a edit s)"
    "page_alone T j0 k edit' = (case source_alone T j0 a' edit' of Inl e \<Rightarrow> Inl e | Inr s \<Rightarrow> made_page T a' edit' s)" for k
    unfolding page_alone_def none sources a option.case if_not_P [OF ok] if_not_P [OF ok_edit] by (rule refl)+
  from p'(1) alone(2) src obtain s where s: "source_alone T j0 a edit = Inr s" "made_page T a' edit' s = Inr p'"
    by (auto split: sum.splits)
  with alone(1) made_page_looks [OF key geo assms(1), of s]
  have "on_value shows_as (page_alone T j0 i edit) = Inr (shows_as p')" by simp
  moreover from assms(1) p'(2) obtain doc c where "tl_load T bytes = Inr doc" "tl_pageCount T doc = 1"
    "tl_copyPage T doc 0 = Inr c" "shows_as (Copied c None) = shows_as p'" unfolding looks_ok_def by blast
  then have "on_value shows_as (stored_page T bytes) = Inr (shows_as p')"
    by (simp add: stored_page_def value_and_then [where T = T] steady_rules)
  moreover have "page_alone T j i edit = stored_page T bytes"
    unfolding page_alone_def assms(5) a(1) option.case if_not_P [OF ok_edit] ..
  ultimately show ?thesis by (simp add: j0_def)
qed

lemma page_alone_unprepared:
  "prepared_bytes j i = None \<Longrightarrow> page_alone T j i edit = page_alone T (j\<lparr>bj_prepared := []\<rparr>) i edit"
  by (simp add: page_alone_def prepared_bytes_def source_alone_def split: option.splits if_splits)


lemma page_alone_depends:
  assumes "bj_sources j = bj_sources j'" and "bj_draftId j = bj_draftId j'" and "prepared_bytes j i = prepared_bytes j' i"
  shows "page_alone T j i edit = page_alone T j' i edit"
  unfolding page_alone_def source_alone_def assms ..

lemma all_results_map:
  "map (on_value f) rs = map (on_value f) rs' \<Longrightarrow>
    on_value (map f) (all_results rs) = on_value (map f) (all_results rs')"
proof (induction rs arbitrary: rs')
  case (Cons r rs)
  then obtain r' rs'' where r: "rs' = r' # rs''" "on_value f r = on_value f r'"
    "map (on_value f) rs = map (on_value f) rs''" by (cases rs') auto
  from Cons.IH [OF r(3)] r(1,2) show ?case
    by (cases r; cases r'; cases "all_results rs"; cases "all_results rs''") auto
qed simp

lemma all_results_length: "all_results rs = Inr xs \<Longrightarrow> length xs = length rs"
  by (induction rs arbitrary: xs) (auto split: sum.splits)

lemma pages_alone_look:
  assumes "looks_ok T shows_as" and "stable_sources T" and "same_files T j"
    and "\<And>i bytes. i < length pages \<Longrightarrow> prepared_bytes j i = Some bytes \<Longrightarrow> prepared_for T j (pages ! i) bytes"
    and "bj_sources j' = bj_sources j" and "bj_draftId j' = bj_draftId j" and "bj_prepared j' = []"
  shows "map (on_value shows_as) (pages_alone T j 0 pages) = map (on_value shows_as) (pages_alone T j' 0 pages)"
proof (rule nth_equalityI)
  fix i assume "i < length (map (on_value shows_as) (pages_alone T j 0 pages))"
  then have i: "i < length pages" by (simp add: pages_alone_def)
  have "on_value shows_as (page_alone T j i (pages ! i)) = on_value shows_as (page_alone T (j\<lparr>bj_prepared := []\<rparr>) i (pages ! i))"
  proof (cases "prepared_bytes j i")
    case None
    then show ?thesis by (simp add: page_alone_unprepared)
  next
    case (Some bytes)
    from prepared_page_looks [OF assms(1-3) assms(4) [OF i Some] Some] show ?thesis .
  qed
  also have "page_alone T (j\<lparr>bj_prepared := []\<rparr>) i (pages ! i) = page_alone T j' i (pages ! i)"
    by (rule page_alone_depends) (simp_all add: assms(5-7) prepared_bytes_def)
  finally show "map (on_value shows_as) (pages_alone T j 0 pages) ! i = map (on_value shows_as) (pages_alone T j' 0 pages) ! i"
    using i by (simp add: pages_alone_def nth_enumerate_eq)
qed (simp add: pages_alone_def)


section \<open>A small world of paper\<close>

text \<open>
  Libraries in which a document is the list of its pages, a page is a number, and a source file
  holds the numbers of its name; pages are rendered white, and ten level lines are found on them.
\<close>

definition white_canvas :: canvas where
  "white_canvas = \<lparr>ca_width = 2, ca_height = 2, ca_pixels = replicate 16 255\<rparr>"

definition black_canvas :: canvas where
  "black_canvas = \<lparr>ca_width = 2, ca_height = 2, ca_pixels = [0, 0, 0, 0]\<rparr>"

fun page_number :: "(nat, nat) out_page \<Rightarrow> nat" where
  "page_number (Copied p _) = p"
| "page_number (Drawn _ _ p _ _ _ _) = p"

definition paper_page :: "nat list \<Rightarrow> nat \<Rightarrow> jstring + nat" where
  "paper_page doc n = (if n < length doc then Inr (doc ! n) else Inl (js ''index''))"

definition sheet :: box where
  "sheet = \<lparr>bx_x = 0, bx_y = 0, bx_width = 600, bx_height = 800\<rparr>"

definition paper :: "(nat list, nat, nat, nat, nat) tools" where
  "paper = \<lparr>tl_fetch = (\<lambda>n d i. Inr (Some i)), tl_load = Inr, tl_pageCount = length, tl_getPage = paper_page,
     tl_copyPage = paper_page, tl_rotation = (\<lambda>p. 0), tl_media = (\<lambda>p. sheet), tl_crop = (\<lambda>p. sheet),
     tl_embed = (\<lambda>p l b r t. Inr p), tl_embWidth = (\<lambda>p. 600), tl_embHeight = (\<lambda>p. 800), tl_saveDoc = Inr,
     tl_saveOut = (\<lambda>outs. Inr (map page_number outs)), tl_embedJpg = (\<lambda>b. paper_page b 0), tl_embedPng = (\<lambda>b. paper_page b 0),
     tl_imgWidth = (\<lambda>i. 600), tl_imgHeight = (\<lambda>i. 800), tl_photoDoc = (\<lambda>p. Inr [ph_image p]),
     tl_decode = (\<lambda>b. paper_page b 0), tl_bmWidth = (\<lambda>b. 600), tl_bmHeight = (\<lambda>b. 800),
     tl_drawBitmap = (\<lambda>white b w h. Inr \<lparr>ca_width = w, ca_height = h, ca_pixels = [int b]\<rparr>),
     tl_drawCanvas = (\<lambda>c w h. c), tl_drawPlaced = (\<lambda>w h c d. c),
     tl_encode = (\<lambda>jpeg quality c. Inr (map nat (ca_pixels c))), tl_openCV = Inr (), tl_matrix = (\<lambda>c. Inr ()),
     tl_dilate = (\<lambda>n c. Inr c), tl_blur = (\<lambda>s c. Inr c), tl_resize = (\<lambda>w h c. Inr c),
     tl_warp = (\<lambda>a b w h c. Inr c), tl_gray = (\<lambda>c. Inr black_canvas), tl_canny = (\<lambda>l h c. Inr c),
     tl_hough = (\<lambda>r t n l g c. Inr (replicate 10 (0, 0, 1, 0))), tl_pdfjs = Inr (), tl_viewport = (\<lambda>b n. Inr (600, 800)),
     tl_render = (\<lambda>b n s w h. Inr white_canvas)\<rparr>"

lemmas act_simps = and_then_def attempt_def give_def throw_error_def opened_def closed_def closing_def
  finally_do_def post_def openCV_def read_source_def

lemma paper_stable: "stable_sources paper"
  by (simp add: stable_sources_def paper_def)

lemma paper_looks: "looks_ok paper page_number"
  by (simp add: looks_ok_def paper_def paper_page_def)

lemma paper_photo:
  "page_alone paper (build_job_of d [photo] pages [] [] r) i (blank_edit ''a'') = Inr (Copied 115 (Some 0))"
  by (simp add: page_alone_def build_job_of_def map_from_def photo_def blank_edit_def js_def prepared_bytes_def jm_get_def
      source_alone_def value_of_def act_simps paper_def PDF_def new_world_def photoPDF_def jpegOrientation_def
      has_items_def cleanupStrength_def correctPhoto_def made_page_def needsGeometry_def
      flag_def some_nonzero_def copied_page_def paper_page_def js_rem_def MAX_PHOTO_PIXELS_def Let_def
      split: prod.split)


text \<open>The prepared page: the photo, built for the same edit.\<close>

lemma paper_job:
  "jm_get (bj_sources (build_job_of d [photo] pages prepared keys r)) i = (if i = js ''s'' then Some photo else None)"
  by (simp add: build_job_of_def map_from_def jm_get_def photo_def)

lemma paper_prepared:
  "prepared_for paper (build_job_of d [photo] [blank_edit ''a''] prepared keys r) (blank_edit ''a'') [115]"
proof -
  have "page_alone paper (build_job_of d [photo] [blank_edit ''a''] prepared keys r\<lparr>bj_prepared := []\<rparr>) 0 (blank_edit ''a'') =
      page_alone paper (build_job_of d [photo] [] [] [] r) 0 (blank_edit ''a'')"
    by (rule page_alone_depends) (simp_all add: build_job_of_def prepared_bytes_def map_from_def)
  moreover have "grid_edit (blank_edit ''a'')" by (simp add: grid_edit_def blank_edit_def grid_number_def grid_list_def)
  moreover have "e_sourceId (blank_edit ''a'') = js ''s''" by (simp add: blank_edit_def)
  moreover have "tl_saveOut paper [Copied 115 (Some 0)] = Inr [115]" by (simp add: paper_def)
  ultimately show ?thesis
    unfolding prepared_for_def using paper_photo [of d "[]" r 0]
    by (intro exI [of _ photo] exI [of _ "blank_edit ''a''"] exI [of _ "Copied 115 (Some 0)"]) (simp add: paper_job)
qed

lemma blank_facts: "e_sourceId (blank_edit a) = js ''s''" "cleanupStrength (blank_edit a) = 0"
  by (simp_all add: blank_edit_def cleanupStrength_def flag_def)


theorem build_is_page_by_page_witness:
  "fst (build paper [] [photo] [blank_edit ''a''] [] [] None new_world) = Inr [115]"
proof -
  have "assembled (build_job_of [] [photo] [blank_edit ''a''] [] [] None) [blank_edit ''a''] []"
    unfolding assembled_def paper_job by (simp add: blank_edit_def whole_source_def photo_def PDF_def js_def)
  from build_is_page_by_page [OF paper_stable cv_ok_new this] paper_photo show ?thesis
    by (simp add: pages_alone_def) (simp add: paper_def)
qed

section \<open>Reading sources\<close>

definition times_read :: "jstring \<Rightarrow> message world \<Rightarrow> nat" where
  "times_read k w = count_list (wd_reads w) k"

definition pages_left :: "jstring \<Rightarrow> PageEdit list \<Rightarrow> nat" where
  "pages_left k pages = length (filter (\<lambda>p. e_sourceId p = k) pages)"

definition left_of :: "jstring \<Rightarrow> ('doc, 'page, 'emb) build_state \<Rightarrow> nat" where
  "left_of k b = nullish (jm_get (bs_remaining b) k) 0"

interpretation rd: world_relation "\<lambda>u v :: message world. wd_reads v = wd_reads u"
  by unfold_locales simp_all

lemma rd_simple: "rd.keeps (opened n)" "rd.keeps (closed n)" "rd.keeps (openCV T)" "rd.keeps (post m)"
  by (rule rd.keepsI, simp add: opened_def closed_def closing_def openCV_def post_def Let_def)+

lemma rd_finally: "rd.keeps a \<Longrightarrow> rd.keeps (finally_do a (\<lambda>r. closing (n r)))"
  by (rule rd.keeps_finally) (simp_all add: closing_def)

lemma rd_while_open: "rd.keeps a \<Longrightarrow> rd.keeps (while_open n a)"
  unfolding while_open_def by (intro rd.keeps_and_then rd_finally rd_simple)

lemma rd_prod: "(\<And>x y. rd.keeps (f x y)) \<Longrightarrow> rd.keeps (case p of (x, y) \<Rightarrow> f x y)"
  by (cases p) simp

lemmas rd_rules = rd.keeps_rules rd_finally rd_while_open rd_prod rd_simple

lemma rd_photoPDF: "rd.keeps (photoPDF T bytes edit)"
  unfolding photoPDF_def jpegPDF_def correctPhoto_def lightenPaper_def straighten_def Let_def by (intro rd_rules)

lemma rd_made: "rd.keeps (drawn_page T isPDF source n original edit)" "rd.keeps (copied_page T doc n edit)"
  unfolding drawn_page_def copied_page_def checkInk_def renderPDF_def Let_def by (intro rd_rules)+

lemma rd_prepared: "rd.keeps (add_prepared T bytes i b)"
  unfolding add_prepared_def by (intro rd_rules)

lemma and_then_reads:
  assumes "\<And>x. rd.keeps (f x)"
  shows "wd_reads (snd (and_then a f w)) = wd_reads (snd (a w))"
  using assms by (auto simp: and_then_def rd.keeps_def split: prod.split sum.split)

lemma and_then_Inr: "and_then a f w = (Inr y, v) \<Longrightarrow> \<exists>x u. a w = (Inr x, u) \<and> f x u = (Inr y, v)"
  by (auto simp: and_then_def split: prod.splits sum.splits)

lemma load_source_reads:
  assumes "load_source T j asset edit b w = (r, v)"
  shows "times_read k v = times_read k w + (if a_id asset = k \<and> jm_get (bs_pdfSources b) k = None then 1 else 0)"
    and "r = Inr (s, b') \<Longrightarrow> bs_remaining b' = bs_remaining b"
    and "r = Inr (s, b') \<Longrightarrow> jm_get (bs_pdfSources b') i =
      (if i = a_id asset \<and> (a_mime asset = PDF \<or> jm_get (bs_pdfSources b) i \<noteq> None) then Some s else jm_get (bs_pdfSources b) i)"
proof -
  have "wd_reads (snd (load_source T j asset edit b w)) =
      wd_reads w @ (if jm_get (bs_pdfSources b) (a_id asset) = None then [a_id asset] else [])"
  proof (cases "jm_get (bs_pdfSources b) (a_id asset)")
    case None
    have "wd_reads (snd (load_source T j asset edit b w)) = wd_reads (snd (read_source T (bj_draftId j) (a_id asset) w))"
      unfolding load_source_def None option.case by (rule and_then_reads) (intro rd_rules rd_photoPDF)
    then show ?thesis by (simp add: None read_source_def)
  qed (simp add: load_source_def give_def)
  then have "wd_reads v = wd_reads w @ (if jm_get (bs_pdfSources b) (a_id asset) = None then [a_id asset] else [])"
    using assms by simp
  then show "times_read k v = times_read k w + (if a_id asset = k \<and> jm_get (bs_pdfSources b) k = None then 1 else 0)"
    by (auto simp: times_read_def)
  assume r: "r = Inr (s, b')"
  show "bs_remaining b' = bs_remaining b"
    using assms r by (auto simp: load_source_def give_def split: option.splits if_splits dest!: and_then_Inr)
  show "jm_get (bs_pdfSources b') i =
      (if i = a_id asset \<and> (a_mime asset = PDF \<or> jm_get (bs_pdfSources b) i \<noteq> None) then Some s else jm_get (bs_pdfSources b) i)"
    using assms r by (auto simp: load_source_def give_def jm_get_set split: option.splits if_splits dest!: and_then_Inr)
qed

lemma release_get:
  "jm_get (bs_pdfSources (release_source i b)) k = (if k = i \<and> left_of i b = 0 then None else jm_get (bs_pdfSources b) k)"
  by (simp add: release_source_def left_of_def jm_get_delete)

lemma left_simps [simp]:
  "left_of k (release_source i b) = left_of k b" "left_of k (add_out p b) = left_of k b"
  "left_of k (one_less i b) = (if k = i then left_of k b - 1 else left_of k b)"
  "bs_pdfSources (one_less i b) = bs_pdfSources b" "bs_pdfSources (add_out p b) = bs_pdfSources b"
  by (simp_all add: left_of_def release_source_def add_out_def one_less_def jm_get_set)

text \<open>One turn of the loop reads the page's source once if it is not held.\<close>

lemma add_page_reads:
  assumes "add_page T j asset edit b w = (r, v)" and "a_id asset = e_sourceId edit"
  shows "times_read k v = times_read k w + (if e_sourceId edit = k \<and> jm_get (bs_pdfSources b) k = None then 1 else 0)"
    and "r = Inr b' \<Longrightarrow> left_of k b' = left_of k b - (if e_sourceId edit = k then 1 else 0)"
    and "r = Inr b' \<Longrightarrow> a_mime asset = PDF \<Longrightarrow> e_sourceId edit = k \<Longrightarrow> left_of k b' \<noteq> 0 \<Longrightarrow> jm_get (bs_pdfSources b') k \<noteq> None"
    and "r = Inr b' \<Longrightarrow> e_sourceId edit \<noteq> k \<Longrightarrow> jm_get (bs_pdfSources b') k = jm_get (bs_pdfSources b) k"
proof -
  let ?rest = "\<lambda>(source, b). let isPDF = a_mime asset = PDF; n = (if isPDF then e_page edit else 0)
     in and_then (attempt (tl_getPage T (snd source) n)) (\<lambda>original.
        let b = release_source (a_id asset) (one_less (a_id asset) b)
        in and_then (if needsGeometry edit then drawn_page T isPDF source n original edit
                     else copied_page T (snd source) n edit) (\<lambda>p. give (add_out p b)))"
  have keeps: "rd.keeps (?rest x)" for x
    unfolding Let_def by (intro rd_rules rd_made)
  have split: "add_page T j asset edit b = and_then (load_source T j asset edit b) ?rest"
    by (simp add: add_page_def)
  obtain l u where load: "load_source T j asset edit b w = (l, u)" by fastforce
  from and_then_reads [where f = ?rest and a = "load_source T j asset edit b" and w = w, OF keeps] assms(1) load split
  have "times_read k v = times_read k u" by (simp add: times_read_def)
  with load_source_reads(1) [OF load] assms(2)
  show "times_read k v = times_read k w + (if e_sourceId edit = k \<and> jm_get (bs_pdfSources b) k = None then 1 else 0)"
    by simp
  assume r: "r = Inr b'"
  from assms(1) r obtain s b1 where l: "l = Inr (s, b1)" and rest: "?rest (s, b1) u = (Inr b', v)"
    unfolding split using load by (auto dest!: and_then_Inr)
  from rest obtain p where b': "b' = add_out p (release_source (a_id asset) (one_less (a_id asset) b1))"
    unfolding Let_def by (auto simp: give_def dest!: and_then_Inr)
  note loaded = load_source_reads(2,3) [OF load l]
  show "left_of k b' = left_of k b - (if e_sourceId edit = k then 1 else 0)"
    using loaded(1) assms(2) by (simp add: b' left_of_def [of _ b1] left_of_def [of _ b])
  show "a_mime asset = PDF \<Longrightarrow> e_sourceId edit = k \<Longrightarrow> left_of k b' \<noteq> 0 \<Longrightarrow> jm_get (bs_pdfSources b') k \<noteq> None"
    using loaded(2) [of k] assms(2) by (simp add: b' release_get)
  show "e_sourceId edit \<noteq> k \<Longrightarrow> jm_get (bs_pdfSources b') k = jm_get (bs_pdfSources b) k"
    using loaded(2) [of k] assms(2) by (simp add: b' release_get)
qed

lemma add_prepared_left:
  assumes "add_prepared T bytes i b w = (r, v)"
  shows "times_read k v = times_read k w"
    and "r = Inr b' \<Longrightarrow> left_of k b' = left_of k b - (if i = k then 1 else 0) \<and> bs_pdfSources b' = bs_pdfSources b"
proof -
  from rd.keepsD [OF rd_prepared, of T bytes i b w] assms show "times_read k v = times_read k w"
    by (simp add: times_read_def)
  assume "r = Inr b'"
  with assms show "left_of k b' = left_of k b - (if i = k then 1 else 0) \<and> bs_pdfSources b' = bs_pdfSources b"
    by (auto simp: add_prepared_def give_def throw_error_def dest!: and_then_Inr split: if_splits)
qed

lemma build_page_reads:
  assumes "build_page T j i edit b w = (r, v)" and "keyed j" and "jm_get (bj_sources j) k = Some asset" and "a_mime asset = PDF"
  shows "times_read k v \<le> times_read k w + (if e_sourceId edit = k \<and> jm_get (bs_pdfSources b) k = None then 1 else 0)"
    and "r = Inr b' \<Longrightarrow> left_of k b' = left_of k b - (if e_sourceId edit = k then 1 else 0)"
    and "r = Inr b' \<Longrightarrow> left_of k b' \<noteq> 0 \<Longrightarrow> times_read k v \<noteq> times_read k w \<or> jm_get (bs_pdfSources b) k \<noteq> None \<Longrightarrow>
      jm_get (bs_pdfSources b') k \<noteq> None"
proof -
  have same: "times_read k (snd (post m w)) = times_read k w" for m by (simp add: post_def times_read_def)
  have "times_read k v \<le> times_read k w + (if e_sourceId edit = k \<and> jm_get (bs_pdfSources b) k = None then 1 else 0) \<and>
    (\<forall>b'. r = Inr b' \<longrightarrow> left_of k b' = left_of k b - (if e_sourceId edit = k then 1 else 0) \<and>
      (left_of k b' \<noteq> 0 \<longrightarrow> times_read k v \<noteq> times_read k w \<or> jm_get (bs_pdfSources b) k \<noteq> None \<longrightarrow>
        jm_get (bs_pdfSources b') k \<noteq> None))"
  proof (cases "jm_get (bj_sources j) (e_sourceId edit)")
    case None
    with assms(1) show ?thesis by (auto simp: build_page_def throw_error_def)
  next
    case (Some a)
    then have a: "a_id a = e_sourceId edit" using assms(2) by (simp add: keyed_def)
    have pdf: "a_mime a = PDF" if "e_sourceId edit = k" using that Some assms(3,4) by simp
    show ?thesis
    proof (cases "cleanupStrength edit \<noteq> 0 \<and> a_mime a = PDF")
      case True
      with Some assms(1) show ?thesis by (auto simp: build_page_def throw_error_def)
    next
      case False
      let ?m = "ProgressMessage (bj_request j) (progress_text i (bj_total j))"
      have step: "(case prepared_bytes j i of Some bytes \<Rightarrow> add_prepared T bytes (a_id a) b
          | None \<Rightarrow> add_page T j a edit b) (snd (post ?m w)) = (r, v)"
        using assms(1) unfolding build_page_def Some option.case if_not_P [OF False]
        by (simp add: and_then_def post_def)
      show ?thesis
      proof (cases "prepared_bytes j i")
        case None
        with step have "add_page T j a edit b (snd (post ?m w)) = (r, v)" by simp
        from add_page_reads [OF this a, where k = k] same [of ?m] pdf show ?thesis by (auto split: if_splits)
      next
        case (Some bytes)
        with step have "add_prepared T bytes (a_id a) b (snd (post ?m w)) = (r, v)" by simp
        from add_prepared_left [OF this, where k = k] same [of ?m] a show ?thesis by auto
      qed
    qed
  qed
  then show "times_read k v \<le> times_read k w + (if e_sourceId edit = k \<and> jm_get (bs_pdfSources b) k = None then 1 else 0)"
    and "r = Inr b' \<Longrightarrow> left_of k b' = left_of k b - (if e_sourceId edit = k then 1 else 0)"
    and "r = Inr b' \<Longrightarrow> left_of k b' \<noteq> 0 \<Longrightarrow> times_read k v \<noteq> times_read k w \<or> jm_get (bs_pdfSources b) k \<noteq> None \<Longrightarrow>
      jm_get (bs_pdfSources b') k \<noteq> None"
    by blast+
qed

lemma build_pages_reads:
  assumes "keyed j" and "jm_get (bj_sources j) k = Some asset" and "a_mime asset = PDF" and "pages_left k pages \<le> left_of k b"
  shows "times_read k (snd (build_pages T j i pages b w)) \<le>
    times_read k w + (if jm_get (bs_pdfSources b) k \<noteq> None \<or> pages_left k pages = 0 then 0 else 1)"
  using assms(4)
proof (induction pages arbitrary: i b w)
  case Nil
  then show ?case by (simp add: give_def)
next
  case (Cons edit pages)
  obtain r v where step: "build_page T j i edit b w = (r, v)" by fastforce
  note reads = build_page_reads [OF step assms(1-3)]
  have left: "pages_left k (edit # pages) = (if e_sourceId edit = k then 1 else 0) + pages_left k pages"
    by (simp add: pages_left_def)
  show ?case
  proof (cases r)
    case (Inl e)
    with step reads(1) left show ?thesis by (auto simp: and_then_def split: if_splits)
  next
    case (Inr b')
    have le: "pages_left k pages \<le> left_of k b'" using Cons.prems left reads(2) [OF Inr] by (auto split: if_splits)
    from Cons.IH [OF le, of "i + 1" v] step Inr
    have rest: "times_read k (snd (build_pages T j i (edit # pages) b w)) \<le>
        times_read k v + (if jm_get (bs_pdfSources b') k \<noteq> None \<or> pages_left k pages = 0 then 0 else 1)"
      by (simp add: and_then_def)
    show ?thesis
    proof (cases "times_read k v = times_read k w \<and> jm_get (bs_pdfSources b) k = None")
      case True
      with rest left show ?thesis by (auto split: if_splits)
    next
      case False
      then have "left_of k b' \<noteq> 0 \<longrightarrow> jm_get (bs_pdfSources b') k \<noteq> None" using reads(3) [OF Inr] by metis
      with rest le have "times_read k (snd (build_pages T j i (edit # pages) b w)) \<le> times_read k v"
        by (cases "left_of k b' = 0") auto
      with reads(1) left show ?thesis by (auto split: if_splits)
    qed
  qed
qed

lemma count_pages_left: "nullish (jm_get (count_pages pages) k) 0 = pages_left k pages"
proof -
  have "nullish (jm_get (fold (\<lambda>p m. jm_set m (e_sourceId p) (nullish (jm_get m (e_sourceId p)) 0 + 1)) pages m) k) 0 =
      nullish (jm_get m k) 0 + pages_left k pages" for m
    by (induction pages arbitrary: m) (auto simp: jm_get_set pages_left_def)
  from this [of "[]"] show ?thesis by (simp add: count_pages_def)
qed

text \<open>C30: Building reads each PDF source at most once, however its pages are spread over the
  document and whatever fails on the way.\<close>

theorem pdf_read_once:
  assumes "jm_get (map_from (map (\<lambda>a. (a_id a, a)) sources)) k = Some asset" and "a_mime asset = PDF"
  shows "times_read k (snd (build (T :: ('doc, 'page, 'emb, 'img, 'bm) tools) draftId sources pages prepared keys requestId w))
    \<le> times_read k w + 1"
proof -
  define j where "j = build_job_of draftId sources pages prepared keys requestId"
  define b :: "('doc, 'page, 'emb) build_state" where "b = \<lparr>bs_out = [], bs_pdfSources = [], bs_remaining = count_pages pages\<rparr>"
  have "pages_left k pages \<le> left_of k b" by (simp add: b_def left_of_def count_pages_left)
  from build_pages_reads [OF _ _ assms(2) this, of j T 0 w] assms(1) keyed_job
  have "times_read k (snd (build_pages T j 0 pages b w)) \<le> times_read k w + 1"
    by (auto simp: j_def build_job_of_def split: if_splits)
  then have doc: "times_read k (snd (build_document T j pages w)) \<le> times_read k w + 1"
    using and_then_reads [where f = "\<lambda>b. attempt (tl_saveOut T (bs_out b))" and a = "build_pages T j 0 pages b" and w = w,
        OF rd.keeps_attempt]
    by (simp add: build_document_def b_def times_read_def)
  have whole: "times_read k (snd (read_source T draftId i w)) \<le> times_read k w + 1" for i
    by (simp add: read_source_def times_read_def)
  show ?thesis
    using doc whole unfolding build_def Let_def j_def build_job_of_def
    by (auto simp: throw_error_def split: option.split)
qed

theorem pdf_read_once_witness:
  "times_read (js ''s'') (snd (build paper [] [photo\<lparr>a_mime := PDF\<rparr>] [blank_edit ''a'', blank_edit ''b''] [] [] None new_world))
    \<le> times_read (js ''s'') new_world + 1"
  by (rule pdf_read_once [where asset = "photo\<lparr>a_mime := PDF\<rparr>"]) (simp_all add: map_from_def jm_get_def photo_def)

end
