(* ===== verification/ProcessingRequests.thy ===== *)
theory ProcessingRequests
  imports Processing WorkerClient
begin

text \<open>
  What the processing worker does with a request whatever the libraries answer: it releases the
  bitmaps, matrices and PDF.js tasks it opened, posts progress and then one answer, and the
  client on the other side settles the promise of the request with it.
\<close>

section \<open>Open resources\<close>

text \<open>The action leaves \<open>n\<close> more open than it found, whether it returns or throws.\<close>

definition nets :: "int \<Rightarrow> 'a job \<Rightarrow> bool" where
  "nets n a \<longleftrightarrow> (\<forall>w. wd_open (snd (a w)) = wd_open w + n)"

lemma nets_simple [simp]:
  "nets 0 (give x)" "nets 0 (throw_error e)" "nets 0 (attempt r)" "nets 0 (post m)"
  "nets n (opened n)" "nets (- n) (closed n)" "nets 0 (openCV T)" "nets 0 (read_source T d i)"
  by (simp_all add: nets_def give_def throw_error_def attempt_def post_def opened_def closed_def
      closing_def openCV_def read_source_def Let_def)

lemma nets_and_then [intro]: "nets n a \<Longrightarrow> (\<And>x. nets 0 (f x)) \<Longrightarrow> nets n (and_then a f)"
  unfolding nets_def and_then_def by (auto split: prod.split sum.split) (metis snd_conv)+

lemma nets_attempt [intro]: "(\<And>x. nets n (f x)) \<Longrightarrow> n = 0 \<Longrightarrow> nets n (and_then (attempt r) f)"
  by auto

lemma nets_opened_then [intro]: "nets m (f ()) \<Longrightarrow> m + k = n \<Longrightarrow> nets n (and_then (opened k) f)"
  by (auto simp: nets_def and_then_def opened_def)

lemma nets_closed_then [intro]: "nets m (f ()) \<Longrightarrow> m - k = n \<Longrightarrow> nets n (and_then (closed k) f)"
  by (auto simp: nets_def and_then_def closed_def closing_def)

lemma nets_finally [intro]: "nets 0 a \<Longrightarrow> nets (- n) (finally_do a (\<lambda>_. closing n))"
  unfolding nets_def finally_do_def closing_def by (auto split: prod.split) (metis snd_conv)

lemma nets_while_open [intro]: "nets 0 a \<Longrightarrow> nets 0 (while_open n a)"
  unfolding while_open_def by (rule nets_opened_then [OF nets_finally]) simp_all

lemma nets_if [intro]: "nets n a \<Longrightarrow> nets n b \<Longrightarrow> nets n (if c then a else b)"
  by simp

lemma nets_option [intro]: "nets n a \<Longrightarrow> (\<And>x. nets n (f x)) \<Longrightarrow> nets n (case v of None \<Rightarrow> a | Some x \<Rightarrow> f x)"
  by (cases v) simp_all

lemma nets_prod [intro]: "(\<And>x y. nets n (f x y)) \<Longrightarrow> nets n (case p of (x, y) \<Rightarrow> f x y)"
  by (cases p) simp

lemma nets_straighten: "nets 0 (straighten T edit maxPixels maxEdge canvas)"
proof -
  have "nets (- 5) (finally_do (and_then (attempt r) (\<lambda>x. and_then (closed 1) (\<lambda>_. give x)))
      (\<lambda>r. closing (if isl r then 5 else 4)))" for r :: "jstring + canvas"
    by (cases r) (simp_all add: nets_def finally_do_def and_then_def attempt_def closed_def closing_def give_def)
  then show ?thesis
    unfolding straighten_def Let_def
    by (intro nets_and_then nets_prod nets_opened_then [where m = "- 5"]) simp_all
qed

lemma nets_lightenPaper: "nets 0 (lightenPaper T canvas strength)"
  unfolding lightenPaper_def Let_def by (intro nets_and_then nets_while_open) simp_all

lemma nets_analyze: "nets 0 (analyze T picture)"
  unfolding analyze_def by (intro nets_and_then nets_while_open) simp_all

lemma nets_correctPhoto: "nets (- 1) (correctPhoto T bitmap edit maxPixels maxEdge)"
  unfolding correctPhoto_def Let_def
  by (intro nets_prod nets_and_then nets_finally nets_if nets_lightenPaper nets_straighten) simp_all

lemma nets_photoPDF: "nets 0 (photoPDF T bytes edit)"
  unfolding photoPDF_def Let_def jpegPDF_def
  by (intro nets_option nets_if nets_and_then nets_prod nets_attempt refl
      nets_opened_then [where m = "- 1"] nets_closed_then [where m = 0] nets_correctPhoto) simp_all

lemma nets_previewRaster: "nets 0 (previewRaster T raster edit maxEdge)"
  unfolding previewRaster_def placed_preview_def Let_def
  by (intro nets_option nets_if nets_and_then nets_prod nets_attempt refl
      nets_opened_then [where m = "- 1"] nets_correctPhoto) simp_all

lemma nets_renderPDF: "nets 0 (renderPDF T bytes n)"
  unfolding renderPDF_def Let_def by (intro nets_and_then nets_while_open nets_prod) simp_all

lemma nets_checkInk: "nets 0 (checkInk T bytes n edges layout)"
  unfolding checkInk_def by (intro nets_and_then nets_prod nets_if nets_renderPDF) simp_all

lemma nets_drawn_page: "nets 0 (drawn_page T isPDF source n original edit)"
  unfolding drawn_page_def Let_def by (intro nets_and_then nets_if nets_checkInk) simp_all

lemma nets_build_page: "nets 0 (build_page T j i edit b)"
  unfolding build_page_def add_prepared_def add_page_def load_source_def Let_def copied_page_def
  by (intro nets_option nets_and_then nets_if nets_prod nets_photoPDF nets_drawn_page) simp_all

lemma nets_build_pages: "nets 0 (build_pages T j i pages b)"
  by (induction pages arbitrary: i b) (auto intro: nets_build_page)

lemma nets_build: "nets 0 (build T draftId sources pages prepared keys requestId)"
  unfolding build_def build_document_def Let_def
  by (intro nets_option nets_and_then nets_if nets_build_pages) simp_all

lemma nets_measure: "nets 0 (measure_page T draftId sources edit)"
  unfolding measure_page_def
  by (intro nets_and_then nets_if nets_prod nets_build nets_renderPDF nets_analyze) simp_all

lemma nets_match_targets: "nets 0 (match_targets T draftId sources reference targets)"
proof (induction targets)
  case (Cons target targets)
  then show ?case
    unfolding match_targets.simps match_page_def Let_def by (intro nets_and_then nets_measure nets_build) simp_all
qed simp

lemma nets_handle: "nets 0 (handle T r)"
  by (cases r)
    (auto simp: matchPages_def intro!: nets_and_then nets_measure nets_match_targets nets_analyze nets_previewRaster nets_build)


section \<open>Answers\<close>

definition message_id :: "message \<Rightarrow> jstring option" where
  "message_id m = (case m of ProgressMessage i _ \<Rightarrow> i | PagesMessage i _ \<Rightarrow> i | StaffMessage i _ \<Rightarrow> i
     | PreviewMessage i _ _ _ \<Rightarrow> i | BytesMessage i _ \<Rightarrow> i | ErrorMessage i _ \<Rightarrow> i)"

definition is_progress :: "message \<Rightarrow> bool" where
  "is_progress m \<longleftrightarrow> (case m of ProgressMessage _ _ \<Rightarrow> True | _ \<Rightarrow> False)"

text \<open>Only progress was posted, under the identifier given or under none.\<close>

definition progressed :: "jstring option \<Rightarrow> message world \<Rightarrow> message world \<Rightarrow> bool" where
  "progressed i u v \<longleftrightarrow> (\<exists>ps. wd_posts v = wd_posts u @ ps \<and>
     (\<forall>m \<in> set ps. is_progress m \<and> message_id m \<in> {None, i}))"

interpretation pg: world_relation "progressed i" for i
proof
  show "progressed i w w" for w by (simp add: progressed_def)
  show "progressed i u w" if "progressed i u v" "progressed i v w" for u v w
  proof -
    from that obtain ps qs where "wd_posts v = wd_posts u @ ps" "wd_posts w = wd_posts v @ qs"
      "\<forall>m \<in> set (ps @ qs). is_progress m \<and> message_id m \<in> {None, i}"
      unfolding progressed_def by (metis Un_iff set_append)
    then show ?thesis unfolding progressed_def by (intro exI [of _ "ps @ qs"]) auto
  qed
qed

lemma pg_same_posts: "(\<And>w. wd_posts (snd (a w)) = wd_posts w) \<Longrightarrow> pg.keeps i a"
  by (rule pg.keepsI) (simp add: progressed_def)

lemma pg_simple [simp]:
  "pg.keeps i (opened n)" "pg.keeps i (closed n)" "pg.keeps i (openCV T)" "pg.keeps i (read_source T d s)"
  by (rule pg_same_posts, simp add: opened_def closed_def closing_def openCV_def read_source_def Let_def)+

lemma pg_post: "j \<in> {None, i} \<Longrightarrow> pg.keeps i (post (ProgressMessage j t))"
  by (rule pg.keepsI) (simp add: progressed_def post_def is_progress_def message_id_def)

lemma pg_finally: "pg.keeps i a \<Longrightarrow> pg.keeps i (finally_do a (\<lambda>r. closing (n r)))"
  by (rule pg.keeps_finally) (simp_all add: progressed_def closing_def)

lemma pg_while_open: "pg.keeps i a \<Longrightarrow> pg.keeps i (while_open n a)"
  unfolding while_open_def by (intro pg.keeps_and_then pg_finally) simp_all

lemma pg_prod: "(\<And>x y. pg.keeps i (f x y)) \<Longrightarrow> pg.keeps i (case p of (x, y) \<Rightarrow> f x y)"
  by (cases p) simp

lemmas pg_rules = pg.keeps_rules pg_finally pg_while_open pg_prod pg_simple

lemma pg_lightenPaper: "pg.keeps i (lightenPaper T canvas strength)"
  unfolding lightenPaper_def Let_def by (intro pg_rules)

lemma pg_straighten: "pg.keeps i (straighten T edit maxPixels maxEdge canvas)"
  unfolding straighten_def Let_def by (intro pg_rules)

lemma pg_correctPhoto: "pg.keeps i (correctPhoto T bitmap edit maxPixels maxEdge)"
  unfolding correctPhoto_def Let_def by (intro pg_rules pg_lightenPaper pg_straighten)

lemma pg_photoPDF: "pg.keeps i (photoPDF T bytes edit)"
  unfolding photoPDF_def jpegPDF_def Let_def by (intro pg_rules pg_correctPhoto)

lemma pg_renderPDF: "pg.keeps i (renderPDF T bytes n)"
  unfolding renderPDF_def Let_def by (intro pg_rules)

lemma pg_build_page: "bj_request j \<in> {None, i} \<Longrightarrow> pg.keeps i (build_page T j n edit b)"
  unfolding build_page_def add_prepared_def add_page_def load_source_def Let_def copied_page_def drawn_page_def checkInk_def
  by (intro pg_rules pg_photoPDF pg_renderPDF pg_post)

lemma pg_build_pages: "bj_request j \<in> {None, i} \<Longrightarrow> pg.keeps i (build_pages T j n pages b)"
  by (induction pages arbitrary: n b) (auto intro!: pg.keeps_rules pg_build_page)

lemma pg_build: "requestId \<in> {None, i} \<Longrightarrow> pg.keeps i (build T draftId sources pages prepared keys requestId)"
  unfolding build_def build_document_def Let_def by (intro pg_rules pg_build_pages) simp_all

lemma pg_analyze: "pg.keeps i (analyze T picture)"
  unfolding analyze_def by (intro pg_rules)

lemma pg_measure: "pg.keeps i (measure_page T draftId sources edit)"
  unfolding measure_page_def by (intro pg_rules pg_build pg_renderPDF pg_analyze) simp

lemma pg_match_targets: "pg.keeps i (match_targets T draftId sources reference targets)"
proof (induction targets)
  case (Cons target targets)
  then show ?case
    unfolding match_targets.simps match_page_def Let_def by (intro pg_rules pg_measure pg_build) simp_all
qed (simp add: pg.keeps_give)

lemma pg_previewRaster: "pg.keeps i (previewRaster T raster edit maxEdge)"
  unfolding previewRaster_def placed_preview_def Let_def by (intro pg_rules pg_correctPhoto)

text \<open>A handler: the work, and the answer made of what it returns.\<close>

lemma work_then_answer:
  assumes "pg.keeps i a" and "and_then a (\<lambda>x. post (m x)) w = (r, w')"
  shows "\<exists>ps. (\<forall>m \<in> set ps. is_progress m \<and> message_id m \<in> {None, i}) \<and>
    (case r of Inl _ \<Rightarrow> wd_posts w' = wd_posts w @ ps | Inr _ \<Rightarrow> \<exists>x. wd_posts w' = wd_posts w @ ps @ [m x])"
proof -
  from pg.keepsD [OF assms(1), of w] obtain ps where ps: "wd_posts (snd (a w)) = wd_posts w @ ps"
    "\<forall>m \<in> set ps. is_progress m \<and> message_id m \<in> {None, i}"
    by (auto simp: progressed_def)
  with assms(2) show ?thesis
    by (intro exI [of _ ps]) (auto simp: and_then_def post_def split: prod.splits sum.splits)
qed


text \<open>The answers a request can get.\<close>

fun answers :: "request \<Rightarrow> message \<Rightarrow> bool" where
  "answers (MatchRequest i _ _ _ _) (PagesMessage k _) \<longleftrightarrow> k = i"
| "answers (AnalyzeRequest i _) (StaffMessage k _) \<longleftrightarrow> k = i"
| "answers (PreviewRequest i _ _ _) (PreviewMessage k _ _ _) \<longleftrightarrow> k = i"
| "answers (BuildRequest i _ _ _ _ _) (BytesMessage k _) \<longleftrightarrow> k = i"
| "answers r (ErrorMessage k _) \<longleftrightarrow> k = request_id r"
| "answers _ _ \<longleftrightarrow> False"

definition progress_for :: "jstring option \<Rightarrow> message \<Rightarrow> bool" where
  "progress_for i m \<longleftrightarrow> is_progress m \<and> message_id m \<in> {None, i}"

lemma handle_posts:
  assumes "handle T r w = (out, w')"
  shows "\<exists>ps. list_all (progress_for (request_id r)) ps \<and>
    (case out of Inl _ \<Rightarrow> wd_posts w' = wd_posts w @ ps
     | Inr _ \<Rightarrow> \<exists>m. answers r m \<and> wd_posts w' = wd_posts w @ ps @ [m])"
proof -
  have "\<exists>ps. (\<forall>m \<in> set ps. is_progress m \<and> message_id m \<in> {None, request_id r}) \<and>
    (case out of Inl _ \<Rightarrow> wd_posts w' = wd_posts w @ ps
     | Inr _ \<Rightarrow> \<exists>m. answers r m \<and> wd_posts w' = wd_posts w @ ps @ [m])"
  proof (cases r)
    case (MatchRequest i d s e ts)
    have "pg.keeps i (matchPages T d s e ts)"
      unfolding matchPages_def by (intro pg_rules pg_measure pg_match_targets)
    from work_then_answer [OF this, of "PagesMessage i" w out w'] assms MatchRequest show ?thesis
      by (auto split: sum.splits)
  next
    case (AnalyzeRequest i p)
    have k: "pg.keeps i (and_then (openCV T) (\<lambda>_. analyze T p))" by (intro pg_rules pg_analyze)
    have "handle T r = and_then (and_then (openCV T) (\<lambda>_. analyze T p)) (\<lambda>s. post (StaffMessage i s))"
      by (rule ext) (auto simp: AnalyzeRequest and_then_def split: prod.splits sum.splits)
    from work_then_answer [OF k, of "StaffMessage i" w out w'] assms this AnalyzeRequest show ?thesis
      by (auto split: sum.splits)
  next
    case (PreviewRequest i b e x)
    have "pg.keeps i (previewRaster T b e (nullish x 1050))" by (rule pg_previewRaster)
    from work_then_answer [OF this, of "\<lambda>(blob, width, height). PreviewMessage i blob width height" w out w']
      assms PreviewRequest show ?thesis
      by (auto simp: case_prod_unfold split: sum.splits)
  next
    case (BuildRequest i d s ps p ks)
    have "pg.keeps i (build T d s ps (nullish p []) (nullish ks []) i)" by (rule pg_build) simp
    from work_then_answer [OF this, of "BytesMessage i" w out w'] assms BuildRequest show ?thesis
      by (auto split: sum.splits)
  qed
  then show ?thesis by (auto simp: list_all_iff progress_for_def)
qed

lemma onmessage_posts:
  "\<exists>ps m. wd_posts (snd (onmessage T r w)) = wd_posts w @ ps @ [m] \<and>
    list_all (progress_for (request_id r)) ps \<and> answers r m"
proof (cases "handle T r w")
  case (Pair out w')
  from handle_posts [OF this] obtain ps where ps: "list_all (progress_for (request_id r)) ps"
    "case out of Inl _ \<Rightarrow> wd_posts w' = wd_posts w @ ps
     | Inr _ \<Rightarrow> \<exists>m. answers r m \<and> wd_posts w' = wd_posts w @ ps @ [m]" by blast
  have error: "answers r (ErrorMessage (request_id r) e)" for e by (cases r) simp_all
  show ?thesis
  proof (cases out)
    case (Inl e)
    with ps Pair error show ?thesis by (auto simp: onmessage_def post_def)
  next
    case (Inr x)
    with ps Pair show ?thesis by (auto simp: onmessage_def)
  qed
qed

text \<open>C24: Every request gets exactly one answer, the last message posted for it, under its own
  identifier and of the kind it asked for, or an error; before it come only progress messages,
  under that identifier or, while pages are matched, under none.\<close>

theorem request_answered_once:
  "\<exists>ps m. wd_posts (snd (onmessage T r w)) = wd_posts w @ ps @ [m] \<and>
    list_all (progress_for (request_id r)) ps \<and> answers r m"
  by (rule onmessage_posts)

section \<open>The client\<close>

text \<open>A message as the client reads it; \<open>enc\<close> is the text it keeps of a result.\<close>

definition response_of :: "(message \<Rightarrow> jstring) \<Rightarrow> message \<Rightarrow> ProcessingResponse" where
  "response_of enc m = \<lparr>pr_requestId = message_id m,
     pr_progress = (case m of ProgressMessage _ t \<Rightarrow> Some t | _ \<Rightarrow> None),
     pr_bytes = (case m of BytesMessage _ b \<Rightarrow> Some b | _ \<Rightarrow> None),
     pr_result = (case m of PagesMessage _ _ \<Rightarrow> Some (enc m) | StaffMessage _ _ \<Rightarrow> Some (enc m) | _ \<Rightarrow> None),
     pr_blob = (case m of PreviewMessage _ b _ _ \<Rightarrow> Some b | _ \<Rightarrow> None),
     pr_width = (case m of PreviewMessage _ _ x _ \<Rightarrow> Some (nat x) | _ \<Rightarrow> None),
     pr_height = (case m of PreviewMessage _ _ _ y \<Rightarrow> Some (nat y) | _ \<Rightarrow> None),
     pr_error = (case m of ErrorMessage _ e \<Rightarrow> Some e | _ \<Rightarrow> None)\<rparr>"

definition outcome_of :: "(message \<Rightarrow> jstring) \<Rightarrow> message \<Rightarrow> Settlement" where
  "outcome_of enc m = (case m of ErrorMessage _ e \<Rightarrow> if e = [] then Resolved (response_of enc m) else Failed e
     | _ \<Rightarrow> Resolved (response_of enc m))"

lemma receive_progress:
  assumes "progress_for (Some (ar_id a)) m" and "wc_active c = Some a" and "wc_worker c = Some k"
  shows "wc_active (receive k (response_of enc m) c) = Some a \<and> wc_worker (receive k (response_of enc m) c) = Some k \<and>
    wc_settled (receive k (response_of enc m) c) = wc_settled c"
  using assms
  by (cases m) (auto simp: progress_for_def is_progress_def message_id_def receive_def response_of_def has_text_def)

lemma receive_all_progress:
  assumes "list_all (progress_for (Some (ar_id a))) ms" and "wc_active c = Some a" and "wc_worker c = Some k"
  shows "wc_active (fold (\<lambda>m. receive k (response_of enc m)) ms c) = Some a \<and>
    wc_worker (fold (\<lambda>m. receive k (response_of enc m)) ms c) = Some k \<and>
    wc_settled (fold (\<lambda>m. receive k (response_of enc m)) ms c) = wc_settled c"
  using assms
proof (induction ms arbitrary: c)
  case (Cons m ms)
  with receive_progress [of a m c k enc] show ?case by simp
qed simp

lemma receive_answer:
  assumes "answers r m" and "request_id r = Some (ar_id a)" and "wc_active c = Some a" and "wc_worker c = Some k"
  shows "wc_active (receive k (response_of enc m) c) = None \<and>
    wc_settled (receive k (response_of enc m) c) = wc_settled c @ [(ar_promise a, outcome_of enc m)]"
  using assms
  by (cases m; cases r)
    (auto simp: message_id_def receive_def response_of_def has_text_def outcome_of_def settle_def releaseWorker_def Let_def)

text \<open>C18: The two sides together: when a worker takes the request its client waits for and the
  client receives what the worker posts, the promise of the request is settled exactly once, with
  the worker's answer, and the client is free for the next request.\<close>

theorem answered_request_settles:
  assumes "wc_active c = Some a" and "wc_worker c = Some k" and "request_id r = Some (ar_id a)"
    and "wd_posts w = []" and "c' = fold (\<lambda>m. receive k (response_of enc m)) (wd_posts (snd (onmessage T r w))) c"
  shows "\<not> activeRequest c' \<and>
    (\<exists>m. answers r m \<and> wc_settled c' = wc_settled c @ [(ar_promise a, outcome_of enc m)])"
proof -
  from onmessage_posts [of T r w] obtain ps m where posts: "wd_posts (snd (onmessage T r w)) = ps @ [m]"
    and ps: "list_all (progress_for (Some (ar_id a))) ps" and m: "answers r m"
    using assms(3,4) by auto
  define d where "d = fold (\<lambda>m. receive k (response_of enc m)) ps c"
  from receive_all_progress [OF ps assms(1,2), of enc]
  have d: "wc_active d = Some a" "wc_worker d = Some k" "wc_settled d = wc_settled c" by (simp_all add: d_def)
  from receive_answer [OF m assms(3) d(1,2), of enc] posts assms(5) d(3) m show ?thesis
    by (auto simp: d_def [symmetric] activeRequest_def)
qed

end
