(* ===== verification/ProcessingPages.thy ===== *)
theory ProcessingPages
  imports ProcessingCache ProcessingRequests
begin

text \<open>
  Properties of the pages the processing worker makes: the size of a preview, what matching
  returns, and the two directions of a quarter turn.
\<close>

section \<open>Previews\<close>

lemma some_value: "fst (and_then a f w) = Inr y \<Longrightarrow> \<exists>x u. a w = (Inr x, u) \<and> fst (f x u) = Inr y"
  by (auto simp: and_then_def split: prod.splits sum.splits)

lemma layout_size_positive:
  assumes "0 < w" and "0 < h" and "nullish (e_margins e) [0, 0, 0, 0] = [mt, mr, mb, ml]"
    and "0 \<le> mt" and "0 \<le> mr" and "0 \<le> mb" and "0 \<le> ml"
    and "0 \<le> or_else (e_outputWidth e) 0" and "0 \<le> or_else (e_outputHeight e) 0"
  shows "0 < lay_outputWidth (pageLayout w h e)" and "0 < lay_outputHeight (pageLayout w h e)"
proof -
  define r where "r = (or_else (e_angle e) 0 + or_else (e_rotation e) 0) * pi / 180"
  have or_pos: "0 < or_else v d" if "0 \<le> or_else v 0" "0 < d" for v d
    using that by (cases v) (auto split: if_splits)
  have turned: "0 < \<bar>w * cos r\<bar> + \<bar>h * sin r\<bar>" "0 < \<bar>w * sin r\<bar> + \<bar>h * cos r\<bar>"
  proof -
    have "cos r \<noteq> 0 \<or> sin r \<noteq> 0" by (metis sin_zero_abs_cos_one abs_zero zero_neq_one)
    then show "0 < \<bar>w * cos r\<bar> + \<bar>h * sin r\<bar>" "0 < \<bar>w * sin r\<bar> + \<bar>h * cos r\<bar>"
      using assms(1,2) by (auto simp: add_pos_nonneg add_nonneg_pos)
  qed
  show "0 < lay_outputWidth (pageLayout w h e)"
    using turned(1) or_pos [OF assms(8), of h] or_pos [OF assms(8), of w] assms(1-7)
    by (auto simp: pageLayout_def Let_def r_def [symmetric] numeral_2_eq_2 numeral_3_eq_3)
  show "0 < lay_outputHeight (pageLayout w h e)"
    using turned(2) or_pos [OF assms(9), of h] or_pos [OF assms(9), of w] assms(1-7)
    by (auto simp: pageLayout_def Let_def r_def [symmetric] numeral_2_eq_2 numeral_3_eq_3)
qed

lemma fitted_size:
  assumes "0 < W" and "0 < H" and "1 \<le> (m :: int)"
  shows "1 \<le> max 1 (js_round (W * (of_int m / max W H)))" and "max 1 (js_round (W * (of_int m / max W H))) \<le> m"
    and "max (max 1 (js_round (W * (of_int m / max W H)))) (max 1 (js_round (H * (of_int m / max W H)))) = m"
proof -
  have le: "js_round (x * (of_int m / max W H)) \<le> m" if "x \<le> max W H" "0 < x" for x
  proof -
    have "x * (of_int m / max W H) \<le> of_int m"
      using that assms by (simp add: divide_simps)
    from js_round_mono [OF this] show ?thesis by simp
  qed
  have eq: "js_round (max W H * (of_int m / max W H)) = m" using assms(1) by simp
  show "1 \<le> max 1 (js_round (W * (of_int m / max W H)))" by simp
  show "max 1 (js_round (W * (of_int m / max W H))) \<le> m" using le [of W] assms by simp
  show "max (max 1 (js_round (W * (of_int m / max W H)))) (max 1 (js_round (H * (of_int m / max W H)))) = m"
    using le [of W] le [of H] eq assms by (cases "W \<le> H") (auto simp: max_def)
qed

lemma placed_preview_size:
  assumes "fst (placed_preview T source edit maxEdge u) = Inr (blob, width, height)"
  obtains pw ph where "0 < pw" and "0 < ph"
    and "width = max 1 (js_round (lay_outputWidth (pageLayout pw ph edit) *
      (maxEdge / max (lay_outputWidth (pageLayout pw ph edit)) (lay_outputHeight (pageLayout pw ph edit)))))"
    and "height = max 1 (js_round (lay_outputHeight (pageLayout pw ph edit) *
      (maxEdge / max (lay_outputWidth (pageLayout pw ph edit)) (lay_outputHeight (pageLayout pw ph edit)))))"
proof -
  define edges where "edges = nullish (e_crop edit) whole_page"
  define pw where "pw = (edges ! 2 - edges ! 0) * 600"
  define ph where "ph = (edges ! 3 - edges ! 1) * (600 * of_int (ca_height source) / of_int (ca_width source))"
  define lay where "lay = pageLayout pw ph edit"
  define ratio where "ratio = maxEdge / max (lay_outputWidth lay) (lay_outputHeight lay)"
  note parts = assms [unfolded placed_preview_def Let_def edges_def [symmetric] pw_def [symmetric] ph_def [symmetric]
      lay_def [symmetric] ratio_def [symmetric]]
  show thesis
  proof (cases "pw \<le> 0 \<or> ph \<le> 0")
    case True
    with parts show thesis by (simp add: throw_error_def)
  next
    case False
    with parts have "width = max 1 (js_round (lay_outputWidth lay * ratio))" "height = max 1 (js_round (lay_outputHeight lay * ratio))"
      by (auto simp: give_def dest!: some_value)
    with False show thesis by (intro that [of pw ph]) (simp_all add: lay_def ratio_def)
  qed
qed

text \<open>The preview of a photo is at least one pixel wide and high, and its longer side is exactly
  the edge asked for, so it never exceeds what the page shows, for margins and an output size that
  are not negative.\<close>

theorem preview_fills_edge:
  assumes "fst (previewRaster T raster edit (of_int m) w) = Inr (blob, width, height)" and "1 \<le> m"
    and "nullish (e_margins edit) [0, 0, 0, 0] = [mt, mr, mb, ml]" and "0 \<le> mt" and "0 \<le> mr" and "0 \<le> mb" and "0 \<le> ml"
    and "0 \<le> or_else (e_outputWidth edit) 0" and "0 \<le> or_else (e_outputHeight edit) 0"
  shows "1 \<le> width \<and> 1 \<le> height \<and> max width height = m"
proof -
  obtain source u where "fst (placed_preview T source edit (of_int m) u) = Inr (blob, width, height)"
    using assms(1) unfolding previewRaster_def by (force dest!: some_value split: prod.splits)
  then obtain pw ph where pos: "0 < pw" "0 < ph" and size:
    "width = max 1 (js_round (lay_outputWidth (pageLayout pw ph edit) *
      (of_int m / max (lay_outputWidth (pageLayout pw ph edit)) (lay_outputHeight (pageLayout pw ph edit)))))"
    "height = max 1 (js_round (lay_outputHeight (pageLayout pw ph edit) *
      (of_int m / max (lay_outputWidth (pageLayout pw ph edit)) (lay_outputHeight (pageLayout pw ph edit)))))"
    by (rule placed_preview_size)
  note lay = layout_size_positive [OF pos assms(3-9)]
  show ?thesis unfolding size
    using fitted_size(1,3) [OF lay assms(2)] by (simp only: max.cobounded1 simp_thms)
qed

lemma work_size_positive: "photoWorkSize a b p q = (x, y) \<Longrightarrow> 1 \<le> x \<and> 1 \<le> y"
  unfolding photoWorkSize_def Let_def by (metis prod.inject max.cobounded1)

theorem preview_fills_edge_witness:
  "\<exists>b x y. fst (previewRaster paper [7] (blank_edit ''a'') (of_int 1050) new_world) = Inr (b, x, y) \<and>
    1 \<le> x \<and> 1 \<le> y \<and> max x y = 1050"
proof -
  obtain sx sy where size: "photoWorkSize 600 800 (of_int 1050 * of_int 1050) (of_int 1050) = (sx, sy)" by fastforce
  note pos = work_size_positive [OF size]
  have "\<exists>b x y. fst (previewRaster paper [7] (blank_edit ''a'') (of_int 1050) new_world) = Inr (b, x, y)"
    using pos size
    by (simp add: previewRaster_def placed_preview_def correctPhoto_def act_simps paper_def paper_page_def cleanupStrength_def
        blank_edit_def flag_def has_items_def whole_page_def Let_def new_world_def not_le)
  then obtain b x y where r: "fst (previewRaster paper [7] (blank_edit ''a'') (of_int 1050) new_world) = Inr (b, x, y)" by blast
  have "1 \<le> x \<and> 1 \<le> y \<and> max x y = 1050"
    by (rule preview_fills_edge [OF r, where mt = 0 and mr = 0 and mb = 0 and ml = 0]) (simp_all add: blank_edit_def)
  with r show ?thesis by blast
qed

section \<open>The direction of a quarter turn\<close>

text \<open>
  Where a viewer shows a point of a \<open>w\<close> by \<open>h\<close> page whose \<open>/Rotate\<close> is \<open>r\<close>: the PDF standard
  turns the page clockwise. And where pdf-lib draws a point of an embedded page: turned
  anticlockwise about its origin. Both from the bottom left.
\<close>

definition displayed :: "real \<Rightarrow> real \<Rightarrow> real \<Rightarrow> real \<times> real \<Rightarrow> real \<times> real" where
  "displayed r w h p = (case p of (x, y) \<Rightarrow>
     if r = 90 then (y, w - x) else if r = 180 then (w - x, h - y) else if r = 270 then (h - y, x) else (x, y))"

definition drawn_at :: "real \<Rightarrow> real \<Rightarrow> real \<Rightarrow> real \<Rightarrow> real \<times> real \<Rightarrow> real \<times> real" where
  "drawn_at x0 y0 s angle p = (case p of (x, y) \<Rightarrow> let r = angle * pi / 180
     in (x0 + s * (cos r * x - sin r * y), y0 + s * (sin r * x + cos r * y)))"

lemma drawn_value:
  assumes "value_of (drawn_page T isPDF source n original edit) = Inr p"
  shows "\<exists>emb layout. layout = pageLayout (tl_embWidth T emb) (tl_embHeight T emb) edit \<and>
    p = Drawn (lay_outputWidth layout) (lay_outputHeight layout) emb (fst (lay_transform layout 0 0))
      (snd (lay_transform layout 0 0)) (lay_scale layout) (lay_angle layout)"
  using assms unfolding drawn_page_def Let_def value_of_def
  by (auto simp: throw_error_def give_def split: if_splits dest!: some_value)

text \<open>C38: "Rotate 90" turns a page one way while nothing else is changed and the other way once
  the page needs a new canvas. A page with only this rotation is copied with 90 set as its
  rotation, which viewers turn clockwise. With the whole page as its crop, which removes nothing,
  the same page is drawn turned anticlockwise, as a page with 270 set is shown: every point is at
  the opposite place, half a turn away.\<close>

theorem quarter_turn_two_ways:
  assumes "e_rotation e = Some 90" and "\<not> needsGeometry e" and "e_margins e = None" and "e_outputHeight e = None"
    and "n = (if a_mime a = PDF then e_page e else 0)" and "tl_getPage T (snd source) n = Inr page"
    and "tl_copyPage T (snd source) n = Inr copy" and "tl_rotation T copy = 0"
    and "made_page T a (e\<lparr>e_crop := Some [0, 0, 1, 1]\<rparr>) source = Inr (Drawn W H emb x0 y0 s r)"
  shows "made_page T a e source = Inr (Copied copy (Some 90)) \<and>
    drawn_at x0 y0 s r p = displayed 270 (tl_embWidth T emb) (tl_embHeight T emb) p \<and>
    displayed 90 (tl_embWidth T emb) (tl_embHeight T emb) p =
      (W - fst (drawn_at x0 y0 s r p), H - snd (drawn_at x0 y0 s r p))"
proof -
  let ?e = "e\<lparr>e_crop := Some [0, 0, 1, 1]\<rparr>"
  have plain: "\<not> flag (e_fitEdges e)" "or_else (e_angle e) 0 = 0" "or_else (e_x e) 0 = 0" "or_else (e_y e) 0 = 0"
    "or_else (e_scale e) 1 = 1" "\<And>d. or_else (e_outputWidth e) d = d"
    using assms(2) by (auto simp: needsGeometry_def or_else_def)
  have "made_page T a e source = Inr (Copied copy (Some 90))"
    using assms(1,2,5-8)
    by (simp add: made_page_def copied_page_def value_of_def act_simps Let_def js_rem_def split: if_splits)
  moreover have "needsGeometry ?e" by (simp add: needsGeometry_def has_items_def)
  then have "value_of (drawn_page T (a_mime a = PDF) source n page ?e) = Inr (Drawn W H emb x0 y0 s r)"
    using assms(5,6,9) by (auto simp: made_page_def value_and_then [where T = T] steady_drawn_page Let_def split: if_splits)
  from drawn_value [OF this] have layout:
    "W = lay_outputWidth (pageLayout (tl_embWidth T emb) (tl_embHeight T emb) ?e)"
    "H = lay_outputHeight (pageLayout (tl_embWidth T emb) (tl_embHeight T emb) ?e)"
    "(x0, y0) = lay_transform (pageLayout (tl_embWidth T emb) (tl_embHeight T emb) ?e) 0 0"
    "s = lay_scale (pageLayout (tl_embWidth T emb) (tl_embHeight T emb) ?e)"
    "r = lay_angle (pageLayout (tl_embWidth T emb) (tl_embHeight T emb) ?e)"
    by auto
  have quarter: "quarter_turned 90" by (simp add: quarter_turned_def)
  have half: "90 * pi / 180 = pi / 2" by simp
  from layout have sizes: "W = tl_embHeight T emb" "H = tl_embWidth T emb" "x0 = tl_embHeight T emb" "y0 = 0" "s = 1" "r = 90"
    using plain quarter assms(1,3,4) by (simp_all add: pageLayout_def Let_def)
  ultimately show ?thesis
    by (cases p) (simp add: drawn_at_def displayed_def Let_def)
qed

section \<open>Matching\<close>

text \<open>What a matched page shares with its target, and that it can be built.\<close>

definition matched ::
  "('doc, 'page, 'emb, 'img, 'bm) tools \<Rightarrow> jstring \<Rightarrow> ImportAsset list \<Rightarrow> MeasuredPage \<Rightarrow> PageEdit \<Rightarrow> PageEdit \<Rightarrow> bool" where
  "matched T draftId sources reference target page \<longleftrightarrow>
     e_id page = e_id target \<and> e_sourceId page = e_sourceId target \<and> e_page page = e_page target \<and>
     e_crop page = e_crop target \<and> e_corners page = e_corners target \<and>
     e_outputWidth page = Some (mp_width reference) \<and> e_outputHeight page = Some (mp_height reference) \<and>
     (\<exists>bytes. value_of (build T draftId sources [page] [] [] None) = Inr bytes)"

lemma steady_build: "stable_sources T \<Longrightarrow> steady T (build T draftId sources pages prepared keys requestId)"
  unfolding build_def build_document_def Let_def
  by (intro steady_rules steady_build_pages steady_read_source)

lemma steady_measure: "stable_sources T \<Longrightarrow> steady T (measure_page T draftId sources edit)"
  unfolding measure_page_def analyze_def by (intro steady_rules steady_build steady_renderPDF)

lemma steady_match_page: "stable_sources T \<Longrightarrow> steady T (match_page T draftId sources reference target)"
  unfolding match_page_def Let_def by (intro steady_rules steady_measure steady_build)

lemma value_then_Inr:
  "steady T a \<Longrightarrow> (\<And>x. steady T (f x)) \<Longrightarrow> value_of (and_then a f) = Inr y \<Longrightarrow>
    \<exists>x. value_of a = Inr x \<and> value_of (f x) = Inr y"
  by (simp add: value_and_then [where T = T] split: sum.splits)

lemma match_page_matched:
  assumes "stable_sources T" and "value_of (match_page T draftId sources reference target) = Inr page"
  shows "matched T draftId sources reference target page"
proof -
  have st: "steady T (and_then (build T draftId sources [x] [] [] None) (\<lambda>_. give x))"
    "steady T (and_then (attempt (alignToReference x m reference)) (\<lambda>x. and_then (build T draftId sources [x] [] [] None) (\<lambda>_. give x)))"
    "steady T (and_then (measure_page T draftId sources x) (\<lambda>m. and_then (attempt (alignToReference x m reference))
      (\<lambda>x. and_then (build T draftId sources [x] [] [] None) (\<lambda>_. give x))))" for x m
    by (intro steady_rules steady_measure steady_build assms(1))+
  let ?turned = "\<lambda>m. target\<lparr>e_angle := Some (or_else (e_angle target) 0 + mp_angle m - mp_angle reference)\<rparr>"
  from value_then_Inr [OF steady_measure [OF assms(1)] st(3) assms(2) [unfolded match_page_def Let_def]]
  obtain m :: MeasuredPage where "value_of (and_then (measure_page T draftId sources (?turned m)) (\<lambda>m'. and_then
      (attempt (alignToReference (?turned m) m' reference))
      (\<lambda>x. and_then (build T draftId sources [x] [] [] None) (\<lambda>_. give x)))) = Inr page" by blast
  from value_then_Inr [OF steady_measure [OF assms(1)] st(2) this] obtain m' :: MeasuredPage where
    "value_of (and_then (attempt (alignToReference (?turned m) m' reference))
      (\<lambda>x. and_then (build T draftId sources [x] [] [] None) (\<lambda>_. give x))) = Inr page" by blast
  from value_then_Inr [OF steady_simple(3) st(1) this] obtain x where
    x: "alignToReference (?turned m) m' reference = Inr x"
    "value_of (and_then (build T draftId sources [x] [] [] None) (\<lambda>_. give x)) = Inr page" by auto
  from value_then_Inr [OF steady_build [OF assms(1)] steady_simple(1) x(2)]
  have align: "alignToReference (?turned m) m' reference = Inr page"
    and built: "\<exists>bytes. value_of (build T draftId sources [page] [] [] None) = Inr bytes"
    using x(1) by auto
  from align built show ?thesis
    unfolding matched_def alignToReference_def Let_def by (auto split: if_splits)
qed

lemma match_targets_matched:
  assumes "stable_sources T" and "value_of (match_targets T draftId sources reference targets) = Inr pages"
  shows "list_all2 (matched T draftId sources reference) targets pages"
  using assms(2)
proof (induction targets arbitrary: pages)
  case (Cons target targets)
  have st: "steady T (match_targets T draftId sources reference ts)" for ts
    by (induction ts) (auto intro!: steady_rules steady_match_page [OF assms(1)])
  from Cons.prems obtain p ps where "value_of (match_page T draftId sources reference target) = Inr p"
    "value_of (match_targets T draftId sources reference targets) = Inr ps" "pages = p # ps"
    by (auto simp: value_and_then [where T = T] st steady_rules steady_match_page [OF assms(1)] split: sum.splits)
  with Cons.IH match_page_matched [OF assms(1)] show ?case by simp
qed simp

text \<open>Matching returns an edit for every page asked for, in order: for the same page of the same
  source with the same crop and corners, with the output size of the reference, and each of them
  passes the build, so matching never returns an edit that would cut off ink.\<close>

theorem matched_pages_build:
  assumes "stable_sources T" and "value_of (matchPages T draftId sources reference targets) = Inr pages"
  shows "\<exists>m. value_of (measure_page T draftId sources reference) = Inr m \<and>
    list_all2 (matched T draftId sources m) targets pages"
proof -
  have st: "steady T (match_targets T draftId sources m targets)" for m
    by (induction targets) (auto intro!: steady_rules steady_match_page [OF assms(1)])
  from assms(2) obtain m where "value_of (measure_page T draftId sources reference) = Inr m"
    "value_of (match_targets T draftId sources m targets) = Inr pages"
    by (auto simp: matchPages_def value_and_then [where T = T] st steady_measure [OF assms(1)] split: sum.splits)
  with match_targets_matched [OF assms(1)] show ?thesis by blast
qed


text \<open>A page of paper with ten level lines.\<close>

lemma paper_analyzed:
  "value_of (analyze paper white_canvas) =
    Inr \<lparr>st_confident = True, st_angle = Some 0, st_bounds = Some [0, 0, 1 / 2, 1 / 2], st_reason = None\<rparr>"
proof -
  have ten: "replicate 10 (0::real) = [0, 0, 0, 0, 0, 0, 0, 0, 0, 0]" by (simp add: numeral_eq_Suc)
  have dark: "dark_pixels [0, 0, 0, 0] 2 2 = [(0, 0), (1, 0), (0, 1), (1, 1)]" by code_simp
  have round: "js_round 0 = 0" "js_round 1 = 1" using js_round_of_int [of 0] js_round_of_int [of 1] by simp_all
  have "staff_pixels 0 [0, 0, 0, 0] 2 2 = [(0, 0), (1, 0), (0, 1), (1, 1)]"
    by (simp add: staff_pixels_def dark row_count_def staff_row_def round Let_def)
  then have "analyzeStaff (replicate 10 0) [0, 0, 0, 0] 2 2 =
      \<lparr>st_confident = True, st_angle = Some 0, st_bounds = Some [0, 0, 1 / 2, 1 / 2], st_reason = None\<rparr>"
    by (simp add: analyzeStaff_def ten Let_def)
  moreover have "line_angle (0, 0, 1, 0) = 0" by (simp add: line_angle_def atan2_def)
  ultimately show ?thesis
    by (simp add: analyze_def value_of_def act_simps while_open_def paper_def white_canvas_def black_canvas_def new_world_def)
qed

lemma paper_straight:
  "page_alone paper (build_job_of d [photo] pages [] [] r) i (blank_edit ''a''\<lparr>e_angle := Some 0\<rparr>) = Inr (Copied 115 (Some 0))"
  by (simp add: page_alone_def build_job_of_def map_from_def photo_def blank_edit_def js_def prepared_bytes_def jm_get_def
      source_alone_def value_of_def act_simps paper_def PDF_def new_world_def photoPDF_def jpegOrientation_def
      has_items_def cleanupStrength_def correctPhoto_def made_page_def needsGeometry_def
      flag_def some_nonzero_def copied_page_def paper_page_def js_rem_def MAX_PHOTO_PIXELS_def Let_def
      split: prod.split)

lemma paper_built:
  assumes "e = blank_edit ''a'' \<or> e = blank_edit ''a''\<lparr>e_angle := Some 0\<rparr>"
  shows "value_of (build paper d [photo] [e] [] [] None) = Inr [115]"
proof -
  have alone: "page_alone paper (build_job_of d [photo] [e] [] [] None) 0 e = Inr (Copied 115 (Some 0))"
    using assms paper_photo paper_straight by blast
  have "e_sourceId e = js ''s''" using assms by (auto simp: blank_edit_def)
  then have "assembled (build_job_of d [photo] [e] [] [] None) [e] []"
    unfolding assembled_def paper_job by (simp add: whole_source_def photo_def PDF_def js_def)
  from build_value [OF paper_stable cv_ok_new this] alone show ?thesis
    by (simp add: pages_alone_def value_of_def) (simp add: paper_def)
qed

lemma paper_measured:
  assumes "e = blank_edit ''a'' \<or> e = blank_edit ''a''\<lparr>e_angle := Some 0\<rparr>"
  shows "value_of (measure_page paper d [photo] e) =
    Inr \<lparr>mp_angle = 0, mp_bounds = [0, 0, 1 / 2, 1 / 2], mp_width = 600, mp_height = 800\<rparr>"
proof -
  have "value_of (renderPDF paper b n) = Inr (white_canvas, 600, 800)" for b n
    by (simp add: renderPDF_def value_of_def act_simps while_open_def paper_def Let_def)
  moreover have "value_of (openCV paper) = Inr ()" by (simp add: value_of_def openCV_def new_world_def paper_def)
  moreover have "steady paper (analyze paper c)" for c unfolding analyze_def by (intro steady_rules)
  ultimately show ?thesis
    by (simp add: measure_page_def value_and_then [where T = paper] steady_build steady_renderPDF steady_rules paper_stable
        paper_built [OF assms] paper_analyzed)
qed

lemma paper_no_ink:
  "\<not> inkOutsidePage (ca_pixels white_canvas) (nat (ca_width white_canvas)) (nat (ca_height white_canvas)) w h edges f ow oh"
proof -
  have two: "[0..<2] = [0, 1 :: nat]" by (simp add: upt_rec)
  have "\<not> ink_at (replicate 16 255) n" if "n \<in> {0, 4, 8, 12}" for n
    using that by (auto simp: ink_at_def)
  then show ?thesis by (simp add: inkOutsidePage_def white_canvas_def two)
qed

lemma paper_drawn:
  assumes "needsGeometry e" and "a_mime a = PDF \<Longrightarrow> e_page e = 0" and "layout = pageLayout 600 800 e"
  shows "made_page paper a e (bytes, [p]) = Inr (Drawn (lay_outputWidth layout) (lay_outputHeight layout) p
    (fst (lay_transform layout 0 0)) (snd (lay_transform layout 0 0)) (lay_scale layout) (lay_angle layout))"
proof -
  have "value_of (renderPDF paper b n) = Inr (white_canvas, 600, 800)" for b n
    by (simp add: renderPDF_def value_of_def act_simps while_open_def paper_def Let_def)
  then have ink: "value_of (checkInk paper b n edges layout) = Inr ()" for b n edges layout
    by (simp add: checkInk_def value_and_then [where T = paper] steady_rules steady_renderPDF paper_no_ink)
  have norm: "normalized paper p" by (simp add: normalized_def paper_def sheet_def js_rem_def)
  have emb: "tl_embed paper p l b r t = Inr p" "tl_embWidth paper p = 600" "tl_embHeight paper p = 800"
    "tl_saveDoc paper d = Inr d" "tl_getPage paper [p] 0 = Inr p" for l b r t d
    by (simp_all add: paper_def paper_page_def)
  have n: "(if a_mime a = PDF then e_page e else 0) = 0" using assms(2) by simp
  show ?thesis
    unfolding made_page_def Let_def n using assms(1)
    by (simp add: value_and_then [where T = paper] steady_drawn_page emb)
      (simp add: drawn_page_def norm emb value_and_then [where T = paper] steady_rules steady_checkInk ink Let_def assms(3))
qed

lemma paper_matched:
  "\<exists>p. value_of (match_page paper d [photo] \<lparr>mp_angle = 0, mp_bounds = [0, 0, 1 / 2, 1 / 2], mp_width = 600, mp_height = 800\<rparr>
    (blank_edit ''a'')) = Inr p"
proof -
  let ?m = "\<lparr>mp_angle = 0, mp_bounds = [0, 0, 1 / 2, 1 / 2], mp_width = 600, mp_height = 800\<rparr>"
  let ?e = "blank_edit ''a''\<lparr>e_angle := Some 0\<rparr>"
  define e' where "e' = ?e\<lparr>e_scale := Some 1, e_outputWidth := Some 600, e_outputHeight := Some 800, e_x := Some 0, e_y := Some 0\<rparr>"
  have align: "alignToReference ?e ?m ?m = Inr e'"
    by (simp add: alignToReference_def Let_def e'_def blank_edit_def)
  have e': "e_sourceId e' = js ''s''" "cleanupStrength e' = 0" "needsGeometry e'"
    by (simp_all add: e'_def blank_edit_def cleanupStrength_def flag_def needsGeometry_def)
  have mime: "a_mime photo \<noteq> PDF" by (simp add: photo_def PDF_def js_def)
  have "photoPDF paper bytes e' = photoPDF paper bytes ?e" for bytes
    by (rule photoPDF_reads) (simp_all add: e'_def blank_edit_def cleanupStrength_def)
  then have "source_alone paper (build_job_of d [photo] [e'] [] [] None) photo e' =
      source_alone paper (build_job_of d [photo] [e'] [] [] None) photo ?e"
    by (intro source_alone_reads paper_stable refl) simp
  also have "\<dots> = Inr ([115], [115])"
    by (simp add: photo_def blank_edit_def js_def build_job_of_def
      source_alone_def value_of_def act_simps paper_def PDF_def new_world_def photoPDF_def jpegOrientation_def
      has_items_def cleanupStrength_def correctPhoto_def flag_def paper_page_def MAX_PHOTO_PIXELS_def Let_def
      split: prod.split)
  finally have "\<exists>p. page_alone paper (build_job_of d [photo] [e'] [] [] None) 0 e' = Inr p"
    unfolding page_alone_def paper_job e' using mime paper_drawn [OF e'(3), of photo _ "[115]" 115]
    by (simp add: prepared_bytes_def build_job_of_def)
  moreover have "assembled (build_job_of d [photo] [e'] [] [] None) [e'] []"
    unfolding assembled_def paper_job using e'(1) mime by (simp add: whole_source_def)
  ultimately have "\<exists>bytes. value_of (build paper d [photo] [e'] [] [] None) = Inr bytes"
    using build_value [OF paper_stable cv_ok_new, of d "[photo]" "[e']" "[]" "[]" None]
    by (auto simp: pages_alone_def value_of_def) (auto simp: paper_def)
  then obtain bytes where built: "value_of (build paper d [photo] [e'] [] [] None) = Inr bytes" by blast
  have angle: "or_else (e_angle (blank_edit ''a'')) 0 = 0" by (simp add: blank_edit_def)
  have "value_of (match_page paper d [photo] ?m (blank_edit ''a'')) = Inr e'"
    unfolding match_page_def Let_def
    by (simp add: value_and_then [where T = paper] steady_measure steady_build steady_rules paper_stable
        paper_measured [of "blank_edit ''a''"] paper_measured [of ?e] angle align built)
  then show ?thesis by blast
qed

theorem matched_pages_build_witness:
  "\<exists>pages m. value_of (matchPages paper [] [photo] (blank_edit ''a'') [blank_edit ''a'']) = Inr pages \<and>
    list_all2 (matched paper [] [photo] m) [blank_edit ''a''] pages"
proof -
  obtain p where p: "value_of (match_page paper [] [photo]
      \<lparr>mp_angle = 0, mp_bounds = [0, 0, 1 / 2, 1 / 2], mp_width = 600, mp_height = 800\<rparr> (blank_edit ''a'')) = Inr p"
    using paper_matched by blast
  have st: "steady paper (match_targets paper [] [photo] m ts)" for m ts
    by (induction ts) (auto intro!: steady_rules steady_match_page [OF paper_stable])
  have ok: "value_of (matchPages paper [] [photo] (blank_edit ''a'') [blank_edit ''a'']) = Inr [p]"
    unfolding matchPages_def
    by (simp add: value_and_then [where T = paper] st steady_measure steady_match_page steady_rules paper_stable paper_measured p)
  from matched_pages_build [OF paper_stable ok] ok show ?thesis by blast
qed

theorem quarter_turn_two_ways_witness:
  "made_page paper (photo\<lparr>a_mime := PDF\<rparr>) (blank_edit ''a''\<lparr>e_rotation := Some 90\<rparr>) ([7], [7]) = Inr (Copied 7 (Some 90)) \<and>
    (\<exists>W H x0 y0 s r. made_page paper (photo\<lparr>a_mime := PDF\<rparr>)
         (blank_edit ''a''\<lparr>e_rotation := Some 90, e_crop := Some [0, 0, 1, 1]\<rparr>) ([7], [7]) = Inr (Drawn W H 7 x0 y0 s r) \<and>
       drawn_at x0 y0 s r (0, 800) = (0, 0) \<and> (W - 0, H - 0) = (800, 600))"
proof -
  let ?e = "blank_edit ''a''\<lparr>e_rotation := Some 90\<rparr>"
  have crop: "needsGeometry (?e\<lparr>e_crop := Some [0, 0, 1, 1]\<rparr>)" by (simp add: needsGeometry_def has_items_def)
  have page: "e_page (?e\<lparr>e_crop := Some [0, 0, 1, 1]\<rparr>) = 0" by (simp add: blank_edit_def)
  have plain: "e_rotation ?e = Some 90" "\<not> needsGeometry ?e" "e_margins ?e = None" "e_outputHeight ?e = None" "e_page ?e = 0"
    by (simp_all add: blank_edit_def needsGeometry_def some_nonzero_def flag_def has_items_def)
  have tools: "tl_getPage paper (snd ([7], [7])) 0 = Inr 7" "tl_copyPage paper (snd ([7], [7])) 0 = Inr 7" "tl_rotation paper 7 = 0"
    "tl_embWidth paper 7 = 600" "tl_embHeight paper 7 = 800"
    by (simp_all add: paper_def paper_page_def)
  have pg: "0 = (if a_mime (photo\<lparr>a_mime := PDF\<rparr>) = PDF then e_page ?e else 0)" by (simp add: blank_edit_def)
  note made = paper_drawn [OF crop page refl, of "photo\<lparr>a_mime := PDF\<rparr>" "[7]" 7]
  from quarter_turn_two_ways [OF plain(1-4) pg tools(1-3) made, of "(0, 800)"] made tools(4,5)
  show ?thesis by (auto simp: displayed_def)
qed

section \<open>A request and its answer\<close>

theorem answered_request_settles_witness:
  "\<exists>m. answers (BuildRequest (Some (js ''r'')) [] [] [] None None) m \<and>
    wc_settled (fold (\<lambda>m. receive 0 (response_of (\<lambda>m. []) m))
        (wd_posts (snd (onmessage paper (BuildRequest (Some (js ''r'')) [] [] [] None None) new_world)))
        (new_client\<lparr>wc_worker := Some 0, wc_active := Some \<lparr>ar_id = js ''r'', ar_promise = 3\<rparr>\<rparr>)) =
      [(3, outcome_of (\<lambda>m. []) m)]"
proof -
  have start: "wc_active (new_client\<lparr>wc_worker := Some 0, wc_active := Some \<lparr>ar_id = js ''r'', ar_promise = 3\<rparr>\<rparr>) =
      Some \<lparr>ar_id = js ''r'', ar_promise = 3\<rparr>"
    "wc_worker (new_client\<lparr>wc_worker := Some 0, wc_active := Some \<lparr>ar_id = js ''r'', ar_promise = 3\<rparr>\<rparr>) = Some 0"
    "request_id (BuildRequest (Some (js ''r'')) [] [] [] None None) = Some (ar_id \<lparr>ar_id = js ''r'', ar_promise = 3\<rparr>)"
    "wd_posts new_world = []"
    by (simp_all add: new_world_def)
  from answered_request_settles [OF start refl, of "\<lambda>m. []" paper] show ?thesis
    by (auto simp: new_client_def)
qed

end
