(* ===== verification/Account.thy ===== *)
theory Account
  imports LibraryUtils Api Machines
begin

text \<open>
  The account dialog (\<open>web/src/app/features/library/library-account.component.ts\<close>): the token of
  Send to Noted, shown once after it is created, replaced and turned off. Reads of the token's
  status and the one write under way wait in the state for their answers.
\<close>

section \<open>State\<close>

datatype ShortcutState = ShortcutLoading | ShortcutNone | ShortcutCreated | ShortcutActive

datatype Confirming = ConfirmReplace | ConfirmOff

text \<open>A write: creating or turning off, with the visit it started in.\<close>

datatype ShortcutWrite = CreateWrite nat | OffWrite nat

record Account =
  ac_shortcut :: "ShortcutToken option"
  ac_createdToken :: "ShortcutTokenCreated option"
  ac_confirming :: "Confirming option"
  ac_shortcutBusy :: bool
  ac_shortcutError :: jstring
  ac_copyNote :: jstring
  ac_copyTimer :: bool
  ac_accountVisit :: nat
  ac_shortcutWrites :: nat
  \<comment> \<open>the dialog and what waits: status reads as visit and writes, the write, copies of a token\<close>
  ac_dialog :: bool
  ac_reads :: "(nat \<times> nat) list"
  ac_write :: "ShortcutWrite option"
  ac_copies :: nat

definition new_account :: Account where
  "new_account = \<lparr>ac_shortcut = None, ac_createdToken = None, ac_confirming = None, ac_shortcutBusy = False,
     ac_shortcutError = [], ac_copyNote = [], ac_copyTimer = False, ac_accountVisit = 0, ac_shortcutWrites = 0,
     ac_dialog = False, ac_reads = [], ac_write = None, ac_copies = 0\<rparr>"

definition shortcutState :: "Account \<Rightarrow> ShortcutState" where
  "shortcutState s =
     (if ac_createdToken s \<noteq> None then ShortcutCreated
      else case ac_shortcut s of
        None \<Rightarrow> ShortcutLoading
      | Some token \<Rightarrow> if sct_active token then ShortcutActive else ShortcutNone)"

definition shortcutStatus :: "browser \<Rightarrow> int \<Rightarrow> Account \<Rightarrow> jstring" where
  "shortcutStatus B now s = (case ac_shortcut s of
     None \<Rightarrow> []
   | Some token \<Rightarrow>
       if \<not> sct_active token then []
       else (case sct_createdAt token of
         None \<Rightarrow> []
       | Some t \<Rightarrow> if t = [] then []
           else js ''Set up on '' @ formatDay B t @ [32, 183, 32] @ js ''last used '' @ lastUsedText B (sct_lastUsedAt token) now))"

section \<open>Operations\<close>

definition open_account :: "Account \<Rightarrow> Account" where
  "open_account s = (let visit = ac_accountVisit s + 1
     in s\<lparr>ac_accountVisit := visit, ac_confirming := None, ac_shortcutError := [], ac_copyNote := [], ac_dialog := True,
          ac_reads := ac_reads s @ [(visit, ac_shortcutWrites s)]\<rparr>)"

text \<open>Runs on every close, from the button or Escape.\<close>

definition closed_account :: "Account \<Rightarrow> Account" where
  "closed_account s = s\<lparr>ac_accountVisit := ac_accountVisit s + 1, ac_createdToken := None, ac_confirming := None,
     ac_copyNote := [], ac_copyTimer := False, ac_dialog := False\<rparr>"

definition read_answered ::
  "(jstring \<Rightarrow> jstring) \<Rightarrow> nat \<times> nat \<Rightarrow> (js_error, ShortcutToken) result \<Rightarrow> Account \<Rightarrow> Account" where
  "read_answered upper r answer s =
     (let s = s\<lparr>ac_reads := remove1 r (ac_reads s)\<rparr>
      in if fst r = ac_accountVisit s \<and> snd r = ac_shortcutWrites s
         then (case answer of
                 Inr token \<Rightarrow> s\<lparr>ac_shortcut := Some token\<rparr>
               | Inl e \<Rightarrow> s\<lparr>ac_shortcutError := errorMessage upper e\<rparr>)
         else s)"

definition createShortcut :: "Account \<Rightarrow> Account" where
  "createShortcut s =
     (if ac_shortcutBusy s then s
      else s\<lparr>ac_shortcutBusy := True, ac_shortcutError := [], ac_accountVisit := ac_accountVisit s + 1,
             ac_write := Some (CreateWrite (ac_accountVisit s + 1))\<rparr>)"

definition create_answered ::
  "(jstring \<Rightarrow> jstring) \<Rightarrow> nat \<Rightarrow> (js_error, ShortcutTokenCreated) result \<Rightarrow> Account \<Rightarrow> Account" where
  "create_answered upper visit answer s =
     (let s = (case answer of
          Inr created \<Rightarrow>
            (let s = s\<lparr>ac_shortcut := Some \<lparr>sct_active = True, sct_createdAt = Some (scc_createdAt created), sct_lastUsedAt = None\<rparr>,
                       ac_shortcutWrites := ac_shortcutWrites s + 1\<rparr>
             in if visit \<noteq> ac_accountVisit s then s
                else s\<lparr>ac_createdToken := Some created, ac_confirming := None, ac_copyNote := []\<rparr>)
        | Inl e \<Rightarrow> s\<lparr>ac_shortcutError := errorMessage upper e\<rparr>)
      in s\<lparr>ac_shortcutBusy := False, ac_write := None\<rparr>)"

definition turnOffShortcut :: "Account \<Rightarrow> Account" where
  "turnOffShortcut s =
     (if ac_shortcutBusy s then s
      else s\<lparr>ac_shortcutBusy := True, ac_shortcutError := [], ac_accountVisit := ac_accountVisit s + 1,
             ac_write := Some (OffWrite (ac_accountVisit s + 1))\<rparr>)"

definition off_answered :: "(jstring \<Rightarrow> jstring) \<Rightarrow> nat \<Rightarrow> (js_error, unit) result \<Rightarrow> Account \<Rightarrow> Account" where
  "off_answered upper visit answer s =
     (let s = (case answer of
          Inr _ \<Rightarrow>
            (let s = s\<lparr>ac_shortcut := Some \<lparr>sct_active = False, sct_createdAt = None, sct_lastUsedAt = None\<rparr>,
                       ac_shortcutWrites := ac_shortcutWrites s + 1\<rparr>
             in if visit = ac_accountVisit s then s\<lparr>ac_confirming := None\<rparr> else s)
        | Inl e \<Rightarrow> s\<lparr>ac_shortcutError := errorMessage upper e\<rparr>)
      in s\<lparr>ac_shortcutBusy := False, ac_write := None\<rparr>)"

text \<open>The write under way is answered by a created token, by having turned off, or by an error.\<close>

definition write_answered ::
  "(jstring \<Rightarrow> jstring) \<Rightarrow> (js_error, ShortcutTokenCreated) result \<Rightarrow> Account \<Rightarrow> Account" where
  "write_answered upper answer s = (case ac_write s of
     None \<Rightarrow> s
   | Some (CreateWrite visit) \<Rightarrow> create_answered upper visit answer s
   | Some (OffWrite visit) \<Rightarrow> off_answered upper visit (case answer of Inl e \<Rightarrow> Inl e | Inr _ \<Rightarrow> Inr ()) s)"

definition copyToken :: "Account \<Rightarrow> Account" where
  "copyToken s = (case ac_createdToken s of
     None \<Rightarrow> s
   | Some created \<Rightarrow> if scc_token created = [] then s else s\<lparr>ac_copyTimer := False, ac_copies := ac_copies s + 1\<rparr>)"

definition copy_answered :: "bool \<Rightarrow> Account \<Rightarrow> Account" where
  "copy_answered copied s =
     (let s = s\<lparr>ac_copies := ac_copies s - 1\<rparr>
      in if copied then s\<lparr>ac_copyNote := js ''Copied'', ac_copyTimer := True\<rparr>
         else s\<lparr>ac_copyNote := js ''The token is selected. Copy it from the menu.''\<rparr>)"

definition copy_over :: "Account \<Rightarrow> Account" where
  "copy_over s = (if ac_copyTimer s then s\<lparr>ac_copyNote := [], ac_copyTimer := False\<rparr> else s)"

section \<open>The dialog as a state machine\<close>

datatype account_event =
    OpenAccount | CloseAccount | CreateShortcut | TurnOff | Confirm "Confirming option"
  | ReadAnswered "nat \<times> nat" "(js_error, ShortcutToken) result"
  | WriteAnswered "(js_error, ShortcutTokenCreated) result"
  | CopyToken | CopyAnswered bool | CopyOver

fun account_step :: "(jstring \<Rightarrow> jstring) \<Rightarrow> account_event \<Rightarrow> Account \<Rightarrow> Account" where
  "account_step upper OpenAccount s = open_account s"
| "account_step upper CloseAccount s = closed_account s"
| "account_step upper CreateShortcut s = createShortcut s"
| "account_step upper TurnOff s = turnOffShortcut s"
| "account_step upper (Confirm c) s = s\<lparr>ac_confirming := c\<rparr>"
| "account_step upper (ReadAnswered r answer) s = read_answered upper r answer s"
| "account_step upper (WriteAnswered answer) s = write_answered upper answer s"
| "account_step upper CopyToken s = copyToken s"
| "account_step upper (CopyAnswered copied) s = copy_answered copied s"
| "account_step upper CopyOver s = copy_over s"

lemmas account_defs = open_account_def closed_account_def createShortcut_def turnOffShortcut_def read_answered_def
  write_answered_def create_answered_def off_answered_def copyToken_def copy_answered_def copy_over_def Let_def

section \<open>The token is shown once\<close>

text \<open>A write starts in a visit the dialog has had.\<close>

definition visits_ok :: "Account \<Rightarrow> bool" where
  "visits_ok s \<longleftrightarrow> (case ac_write s of None \<Rightarrow> True | Some (CreateWrite v) \<Rightarrow> v \<le> ac_accountVisit s
     | Some (OffWrite v) \<Rightarrow> v \<le> ac_accountVisit s)"

lemma visits_step: "visits_ok s \<Longrightarrow> visits_ok (account_step upper e s)"
  by (cases e) (auto simp: visits_ok_def account_defs split: option.splits ShortcutWrite.splits sum.splits)

interpretation visits: machine "account_step upper" visits_ok for upper
  by unfold_locales (rule visits_step)

text \<open>No token is shown, and the one that may be on its way was asked for in an earlier visit.\<close>

definition token_gone :: "Account \<Rightarrow> bool" where
  "token_gone s \<longleftrightarrow> ac_createdToken s = None \<and>
     (case ac_write s of Some (CreateWrite v) \<Rightarrow> v < ac_accountVisit s | _ \<Rightarrow> True)"

definition no_create :: "Account \<Rightarrow> account_event \<Rightarrow> bool" where
  "no_create s e \<longleftrightarrow> e \<noteq> CreateShortcut"

lemma token_gone_step: "token_gone s \<Longrightarrow> no_create s e \<Longrightarrow> token_gone (account_step upper e s)"
  by (cases e)
    (auto simp: token_gone_def no_create_def account_defs split: option.splits ShortcutWrite.splits sum.splits)

interpretation gone: guarded_machine no_create "account_step upper" token_gone for upper
  by unfold_locales (rule token_gone_step)

lemma enabled_no_create: "CreateShortcut \<notin> set es \<Longrightarrow> enabled_run no_create (account_step upper) s es"
  by (induction es arbitrary: s) (auto simp: no_create_def)

lemma closed_gone: "visits_ok s \<Longrightarrow> token_gone (closed_account s)"
  by (auto simp: visits_ok_def token_gone_def closed_account_def split: option.splits ShortcutWrite.splits)

text \<open>C21: Once the dialog was closed, the secret token is never shown again. Whatever happened before
  and whatever happens then, a create answered late, the dialog opened again, turned off or
  answered by the server, no token is in the page until a new one is asked for.\<close>

theorem token_never_shown_again:
  assumes "CreateShortcut \<notin> set es"
    and "t = fold (account_step upper) es (closed_account (fold (account_step upper) before new_account))"
  shows "ac_createdToken t = None \<and> shortcutState t \<noteq> ShortcutCreated"
proof -
  have "visits_ok (fold (account_step upper) before new_account)"
    using visits.run_inv by (simp add: visits_ok_def new_account_def)
  from gone.run_inv [OF closed_gone [OF this] enabled_no_create [OF assms(1)]]
  have "token_gone t" by (simp add: assms(2))
  then show ?thesis by (auto simp: token_gone_def shortcutState_def split: option.splits)
qed

theorem token_never_shown_again_witness:
  "ac_createdToken (fold (account_step id) [WriteAnswered (Inr \<lparr>scc_token = js ''t'', scc_createdAt = []\<rparr>), OpenAccount]
      (closed_account (fold (account_step id) [OpenAccount, CreateShortcut] new_account))) = None"
  by (rule token_never_shown_again [THEN conjunct1, OF _ refl]) simp

section \<open>The status is the latest\<close>

text \<open>A read that started before a write was answered says nothing of the token after it.\<close>

definition read_before :: "nat \<Rightarrow> account_event \<Rightarrow> bool" where
  "read_before n e \<longleftrightarrow> (case e of ReadAnswered r _ \<Rightarrow> snd r < n | _ \<Rightarrow> False)"

lemma old_read_nothing: "read_before (ac_shortcutWrites s) e \<Longrightarrow>
    ac_shortcut (account_step upper e s) = ac_shortcut s \<and> ac_shortcutWrites (account_step upper e s) = ac_shortcutWrites s"
  by (cases e) (auto simp: read_before_def read_answered_def Let_def)

lemma old_reads_nothing: "list_all (read_before (ac_shortcutWrites s)) es \<Longrightarrow>
    ac_shortcut (fold (account_step upper) es s) = ac_shortcut s"
proof (induction es arbitrary: s)
  case (Cons e es)
  then have "read_before (ac_shortcutWrites s) e" "list_all (read_before (ac_shortcutWrites s)) es" by simp_all
  with Cons.IH [of "account_step upper e s"] old_read_nothing [of s e upper] show ?case by simp
qed simp

lemma created_stays:
  assumes "ac_write s = Some (CreateWrite v)" and "t = account_step upper (WriteAnswered (Inr created)) s"
    and "list_all (read_before (ac_shortcutWrites t)) es"
  shows "ac_shortcut (fold (account_step upper) es t) =
    Some \<lparr>sct_active = True, sct_createdAt = Some (scc_createdAt created), sct_lastUsedAt = None\<rparr>"
  using old_reads_nothing [OF assms(3)] assms(1,2)
  by (simp add: write_answered_def create_answered_def Let_def)

end
