(* ===== verification/Suggestions.thy ===== *)
theory Suggestions
  imports Search LibraryUtils Api Machines
begin

text \<open>
  Similar matches under a search (\<open>web/src/app/features/suggestions/suggestions.component.ts\<close>) and
  the list of composers (\<open>web/src/app/features/composers/\<close>): suggestions for what is typed now,
  merging spellings after a preview, the composer field's list of matches.
\<close>

section \<open>Which searches have suggestions\<close>

definition utf8_length :: "nat \<Rightarrow> nat" where
  "utf8_length c = (if c < 128 then 1 else if c < 2048 then 2 else if c < 65536 then 3 else 4)"

definition encoded_length :: "jstring \<Rightarrow> nat" where  \<comment> \<open>\<open>new TextEncoder().encode(text).length\<close>\<close>
  "encoded_length text = sum_list (map utf8_length (code_points text))"

definition word_term :: "unicode \<Rightarrow> jstring \<Rightarrow> bool" where  \<comment> \<open>\<open>/^\p{L}{4,}$/u\<close>\<close>
  "word_term U term \<longleftrightarrow> 4 \<le> length (code_points term) \<and> list_all (is_letter U) (code_points term)"

record SuggestionRequest =
  sq_query :: jstring
  sq_filter :: LibraryFilter
  sq_eligible :: bool
  sq_exact :: "jstring list"

datatype SuggestionStage = Idle | Waiting SuggestionRequest | Asking SuggestionRequest

record Suggestions =
  su_query :: jstring
  su_filter :: LibraryFilter
  su_owner :: jstring
  su_enabled :: bool
  su_exact :: "PieceSummary list"
  su_results :: "PieceSummary list"
  su_message :: jstring
  \<comment> \<open>the request switched to, and the searches sent\<close>
  su_stage :: SuggestionStage
  su_sent :: "(jstring \<times> LibraryFilter) list"

definition new_suggestions :: Suggestions where
  "new_suggestions = \<lparr>su_query = [], su_filter = Current, su_owner = [], su_enabled = False, su_exact = [],
     su_results = [], su_message = [], su_stage = Idle, su_sent = []\<rparr>"

definition eligible :: "unicode \<Rightarrow> Suggestions \<Rightarrow> bool" where
  "eligible U s \<longleftrightarrow>
     (let terms = searchTerms U (su_query s)
      in su_enabled s \<and> su_owner s \<noteq> [] \<and> encoded_length (su_query s) \<le> 200 \<and> length terms \<le> 8 \<and>
         list_ex (\<lambda>term. \<not> isKeyTerm term \<and> word_term U term) terms)"

text \<open>The inputs changed. A request that is not eligible is answered with nothing at once.\<close>

definition suggestions_changed :: "unicode \<Rightarrow> Suggestions \<Rightarrow> Suggestions" where
  "suggestions_changed U s =
     (let request = \<lparr>sq_query = su_query s, sq_filter = su_filter s, sq_eligible = eligible U s,
            sq_exact = map s_id (su_exact s)\<rparr>
      in s\<lparr>su_results := [], su_message := [], su_stage := (if sq_eligible request then Waiting request else Idle)\<rparr>)"

definition debounce_over :: "Suggestions \<Rightarrow> Suggestions" where
  "debounce_over s = (case su_stage s of
     Waiting r \<Rightarrow> s\<lparr>su_stage := Asking r, su_sent := su_sent s @ [(sq_query r, sq_filter r)]\<rparr>
   | _ \<Rightarrow> s)"

definition suggestions_answered :: "(js_error, PieceSummary list) result \<Rightarrow> Suggestions \<Rightarrow> Suggestions" where
  "suggestions_answered answer s = (case su_stage s of
     Asking r \<Rightarrow>
       (case answer of
          Inr pieces \<Rightarrow> s\<lparr>su_stage := Idle, su_results := filter (\<lambda>piece. s_id piece \<notin> set (sq_exact r)) pieces, su_message := []\<rparr>
        | Inl e \<Rightarrow> s\<lparr>su_stage := Idle, su_results := [], su_message :=
            (case e of
               HttpError status _ \<Rightarrow> if status = 429 then js ''Similar matches are busy. Try again shortly.''
                 else js ''Similar matches unavailable. Your library results are still available.''
             | _ \<Rightarrow> js ''Similar matches unavailable. Your library results are still available.'')\<rparr>)
   | _ \<Rightarrow> s)"

definition suggestions_destroy :: "Suggestions \<Rightarrow> Suggestions" where
  "suggestions_destroy s = s\<lparr>su_stage := Idle\<rparr>"

datatype suggestion_event =
    Inputs jstring LibraryFilter jstring bool "PieceSummary list" | DebounceOver
  | SuggestionsAnswered "(js_error, PieceSummary list) result" | SuggestionsDestroyed

fun suggestion_step :: "unicode \<Rightarrow> suggestion_event \<Rightarrow> Suggestions \<Rightarrow> Suggestions" where
  "suggestion_step U (Inputs q f owner on exact) s =
     suggestions_changed U (s\<lparr>su_query := q, su_filter := f, su_owner := owner, su_enabled := on, su_exact := exact\<rparr>)"
| "suggestion_step U DebounceOver s = debounce_over s"
| "suggestion_step U (SuggestionsAnswered answer) s = suggestions_answered answer s"
| "suggestion_step U SuggestionsDestroyed s = suggestions_destroy s"

text \<open>What is waited for is the present inputs, and what is shown answered them.\<close>

definition present_request :: "unicode \<Rightarrow> Suggestions \<Rightarrow> SuggestionRequest \<Rightarrow> bool" where
  "present_request U s r \<longleftrightarrow> eligible U s \<and> sq_query r = su_query s \<and> sq_filter r = su_filter s \<and>
     sq_exact r = map s_id (su_exact s)"

definition answers_present :: "unicode \<Rightarrow> Suggestions \<Rightarrow> bool" where
  "answers_present U s \<longleftrightarrow> (su_results s = [] \<and> su_message s = []) \<or>
     (eligible U s \<and> su_sent s \<noteq> [] \<and> last (su_sent s) = (su_query s, su_filter s) \<and>
      list_all (\<lambda>piece. s_id piece \<notin> s_id ` set (su_exact s)) (su_results s))"

definition suggestions_current :: "unicode \<Rightarrow> Suggestions \<Rightarrow> bool" where
  "suggestions_current U s \<longleftrightarrow> answers_present U s \<and>
     (case su_stage s of
        Idle \<Rightarrow> True
      | Waiting r \<Rightarrow> present_request U s r \<and> su_results s = [] \<and> su_message s = []
      | Asking r \<Rightarrow> present_request U s r \<and> su_sent s \<noteq> [] \<and> last (su_sent s) = (sq_query r, sq_filter r) \<and> su_results s = [] \<and> su_message s = [])"

lemma eligible_simps [simp]:
  "eligible U (s\<lparr>su_results := a\<rparr>) = eligible U s" "eligible U (s\<lparr>su_message := b\<rparr>) = eligible U s"
  "eligible U (s\<lparr>su_stage := c\<rparr>) = eligible U s" "eligible U (s\<lparr>su_sent := d\<rparr>) = eligible U s"
  by (simp_all add: eligible_def)

lemma suggestion_step_current: "suggestions_current U s \<Longrightarrow> suggestions_current U (suggestion_step U e s)"
proof (cases e)
  case (Inputs q f owner on exact)
  define t where "t = s\<lparr>su_query := q, su_filter := f, su_owner := owner, su_enabled := on, su_exact := exact\<rparr>"
  show ?thesis
    unfolding Inputs suggestion_step.simps t_def [symmetric]
    by (simp add: suggestions_changed_def suggestions_current_def answers_present_def present_request_def Let_def)
next
  case DebounceOver
  assume "suggestions_current U s"
  with DebounceOver show ?thesis
    by (auto simp: debounce_over_def suggestions_current_def answers_present_def present_request_def split: SuggestionStage.splits)
next
  case (SuggestionsAnswered answer)
  assume "suggestions_current U s"
  with SuggestionsAnswered show ?thesis
    by (auto simp: suggestions_answered_def suggestions_current_def answers_present_def present_request_def list_all_iff
        split: SuggestionStage.splits sum.splits)
next
  case SuggestionsDestroyed
  assume "suggestions_current U s"
  with SuggestionsDestroyed show ?thesis
    by (auto simp: suggestions_destroy_def suggestions_current_def answers_present_def)
qed

interpretation sug: machine "suggestion_step U" "suggestions_current U" for U
  by unfold_locales (rule suggestion_step_current)

text \<open>C37: Suggestions never belong to an older search. Whatever is typed and whenever answers come,
  when any suggestion or message is shown, the present search may have suggestions, it is the
  last one sent to the server, and no suggestion repeats a row the search itself found.\<close>

theorem suggestions_answer_present:
  "answers_present U (fold (suggestion_step U) es new_suggestions)"
  using sug.run_inv [of U new_suggestions es]
  by (simp add: suggestions_current_def new_suggestions_def answers_present_def)

section \<open>The list of composers\<close>

text \<open>The request under way: a preview of the selection, or a merge.\<close>

datatype ComposerRequest = PreviewComposers "jstring list" jstring | MergeComposers ComposerMerge nat

record Composers =
  co_entries :: "ComposerEntry list"
  co_loading :: bool
  co_error :: jstring
  co_message :: jstring
  co_busy :: bool
  co_mergeError :: jstring
  co_selected :: "jstring list"
  co_target :: jstring
  co_preview :: "ComposerPreview option"
  \<comment> \<open>the dialog, what waits for an answer, the merges sent, and what the preview shown was of\<close>
  co_dialog :: bool
  co_loads :: nat
  co_reload :: "nat option"
  co_request :: "ComposerRequest option"
  co_merges :: "ComposerMerge list"
  co_previewed :: "(jstring list \<times> jstring \<times> jstring) list"

definition new_composers :: Composers where
  "new_composers = \<lparr>co_entries = [], co_loading = True, co_error = [], co_message = [], co_busy = False,
     co_mergeError = [], co_selected = [], co_target = [], co_preview = None, co_dialog = False, co_loads = 1,
     co_reload = None, co_request = None, co_merges = [], co_previewed = []\<rparr>"

text \<open>Names selected that are entries no more are listed after them.\<close>

definition selectionEntries :: "Composers \<Rightarrow> (jstring \<times> nat) list" where
  "selectionEntries s = map (\<lambda>e. (ce_name e, ce_count e)) (co_entries s) @
     map (\<lambda>name. (name, 0)) (filter (\<lambda>name. \<not> list_ex (\<lambda>e. ce_name e = name) (co_entries s)) (co_selected s))"

definition capitalized :: "(jstring \<Rightarrow> jstring) \<Rightarrow> jstring \<Rightarrow> jstring" where
  "capitalized upper key = upper (take 1 key) @ drop 1 key"

definition composer_groups :: "(jstring \<Rightarrow> jstring) \<Rightarrow> Composers \<Rightarrow> (jstring \<times> jstring \<times> ComposerEntry list) list" where
  "composer_groups upper s =
     map (\<lambda>(key, entries). (key, if key \<noteq> [] then capitalized upper key else js ''Composer unknown'', entries))
       (fold (\<lambda>e m. jm_set m (ce_group e) (nullish (jm_get m (ce_group e)) [] @ [e])) (co_entries s) [])"

text \<open>Loads are numbered; the page is busy until the load that follows a merge was answered.\<close>

definition load_composers :: "Composers \<Rightarrow> Composers" where
  "load_composers s = s\<lparr>co_loading := True, co_error := [], co_loads := co_loads s + 1\<rparr>"

definition composers_loaded ::
  "(jstring \<Rightarrow> jstring) \<Rightarrow> nat \<Rightarrow> (js_error, ComposerEntry list) result \<Rightarrow> Composers \<Rightarrow> Composers" where
  "composers_loaded upper i answer s =
     (let s = (case answer of
            Inr entries \<Rightarrow> s\<lparr>co_entries := entries\<rparr>
          | Inl e \<Rightarrow> s\<lparr>co_error := errorMessage upper e\<rparr>)\<lparr>co_loading := False\<rparr>
      in if co_reload s = Some i then s\<lparr>co_busy := False, co_reload := None\<rparr> else s)"

definition load_after_merge :: "Composers \<Rightarrow> Composers" where
  "load_after_merge s = (load_composers s)\<lparr>co_reload := Some (co_loads s)\<rparr>"

definition beginMerge :: "Composers \<Rightarrow> Composers" where
  "beginMerge s = s\<lparr>co_selected := [], co_target := [], co_preview := None, co_mergeError := [], co_dialog := True\<rparr>"

definition cancel_merge :: "Composers \<Rightarrow> Composers" where
  "cancel_merge s = (if co_busy s then s else s\<lparr>co_dialog := False\<rparr>)"

definition select_composer :: "jstring \<Rightarrow> bool \<Rightarrow> Composers \<Rightarrow> Composers" where
  "select_composer name checked s =
     s\<lparr>co_selected := (if checked then co_selected s @ [name] else filter (\<lambda>v. v \<noteq> name) (co_selected s)),
       co_preview := None\<rparr>"

definition editSelection :: "Composers \<Rightarrow> Composers" where
  "editSelection s = s\<lparr>co_preview := None\<rparr>"

definition showPreview :: "Composers \<Rightarrow> Composers" where
  "showPreview s =
     (if co_busy s then s
      else s\<lparr>co_busy := True, co_mergeError := [], co_request := Some (PreviewComposers (co_selected s) (co_target s))\<rparr>)"

definition preview_answered ::
  "(jstring \<Rightarrow> jstring) \<Rightarrow> jstring list \<Rightarrow> jstring \<Rightarrow> (js_error, ComposerPreview) result \<Rightarrow> Composers \<Rightarrow> Composers" where
  "preview_answered upper spellings target answer s =
     (case answer of
        Inr p \<Rightarrow> s\<lparr>co_preview := Some p, co_previewed := co_previewed s @ [(spellings, target, cv_fingerprint p)]\<rparr>
      | Inl e \<Rightarrow> s\<lparr>co_mergeError := errorMessage upper e\<rparr>)\<lparr>co_busy := False, co_request := None\<rparr>"

definition merge_composers :: "Composers \<Rightarrow> Composers" where
  "merge_composers s = (case co_preview s of
     None \<Rightarrow> s
   | Some p \<Rightarrow>
       if co_busy s then s
       else (let m = \<lparr>cm_spellings = co_selected s, cm_target = co_target s, cm_fingerprint = Some (cv_fingerprint p)\<rparr>
             in s\<lparr>co_busy := True, co_mergeError := [], co_request := Some (MergeComposers m (cv_count p)), co_merges := co_merges s @ [m]\<rparr>))"

definition updated_text :: "nat \<Rightarrow> jstring" where
  "updated_text n = js ''Updated the composer on '' @ nat_digits n @ js '' '' @
     (if n = 1 then js ''piece'' else js ''pieces'') @ js ''.''"

text \<open>\<open>n\<close> is the count of the preview the merge was started from.\<close>

definition merge_answered ::
  "(jstring \<Rightarrow> jstring) \<Rightarrow> nat \<Rightarrow> (js_error, unit) result \<Rightarrow> Composers \<Rightarrow> Composers" where
  "merge_answered upper n answer s =
     (let s = s\<lparr>co_request := None\<rparr>
      in case answer of
           Inr _ \<Rightarrow> load_after_merge (s\<lparr>co_dialog := False, co_message := updated_text n\<rparr>)
         | Inl e \<Rightarrow>
             (let s = s\<lparr>co_mergeError := errorMessage upper e\<rparr>
              in case e of
                   HttpError status _ \<Rightarrow>
                     if status = 409 then load_after_merge (s\<lparr>co_preview := None\<rparr>) else s\<lparr>co_busy := False\<rparr>
                 | _ \<Rightarrow> s\<lparr>co_busy := False\<rparr>))"

datatype composers_event =
    ComposersLoaded nat "(js_error, ComposerEntry list) result" | BeginMerge | CancelMerge
  | SelectComposer jstring bool | TypeTarget jstring | EditSelection | ShowPreview | MergeNow
  | ComposersAnswered "(js_error, ComposerPreview) result"

text \<open>An answer is for the request under way; of a merge's answer only whether it succeeded counts.\<close>

fun composers_step :: "(jstring \<Rightarrow> jstring) \<Rightarrow> composers_event \<Rightarrow> Composers \<Rightarrow> Composers" where
  "composers_step upper (ComposersLoaded i answer) s = composers_loaded upper i answer s"
| "composers_step upper BeginMerge s = beginMerge s"
| "composers_step upper CancelMerge s = cancel_merge s"
| "composers_step upper (SelectComposer name checked) s = select_composer name checked s"
| "composers_step upper (TypeTarget name) s = s\<lparr>co_target := name\<rparr>"
| "composers_step upper EditSelection s = editSelection s"
| "composers_step upper ShowPreview s = showPreview s"
| "composers_step upper MergeNow s = merge_composers s"
| "composers_step upper (ComposersAnswered answer) s = (case co_request s of
     None \<Rightarrow> s
   | Some (PreviewComposers spellings target) \<Rightarrow> preview_answered upper spellings target answer s
   | Some (MergeComposers m n) \<Rightarrow> merge_answered upper n (case answer of Inl e \<Rightarrow> Inl e | Inr _ \<Rightarrow> Inr ()) s)"

text \<open>
  What the dialog offers: it is opened when it is closed and nothing runs, the selection is edited
  while no preview shows, and its fields and buttons are off while a request runs.
\<close>

definition composers_enabled :: "Composers \<Rightarrow> composers_event \<Rightarrow> bool" where
  "composers_enabled s e \<longleftrightarrow> (case e of
     BeginMerge \<Rightarrow> \<not> co_busy s
   | SelectComposer _ _ \<Rightarrow> \<not> co_busy s \<and> co_preview s = None
   | TypeTarget _ \<Rightarrow> \<not> co_busy s \<and> co_preview s = None
   | EditSelection \<Rightarrow> \<not> co_busy s
   | _ \<Rightarrow> True)"

definition merge_of :: "ComposerMerge \<Rightarrow> jstring list \<times> jstring \<times> jstring" where
  "merge_of m = (cm_spellings m, cm_target m, nullish (cm_fingerprint m) [])"

definition composers_ok :: "Composers \<Rightarrow> bool" where
  "composers_ok s \<longleftrightarrow>
     set (map merge_of (co_merges s)) \<subseteq> set (co_previewed s) \<and>
     (case co_preview s of None \<Rightarrow> True | Some p \<Rightarrow> (co_selected s, co_target s, cv_fingerprint p) \<in> set (co_previewed s)) \<and>
     (case co_request s of
        Some (PreviewComposers spellings target) \<Rightarrow> co_busy s \<and> co_reload s = None \<and> spellings = co_selected s \<and> target = co_target s
      | Some (MergeComposers _ _) \<Rightarrow> co_busy s \<and> co_reload s = None
      | None \<Rightarrow> True) \<and>
     (co_reload s \<noteq> None \<longrightarrow> co_busy s)"

lemma composers_step_ok:
  assumes "composers_ok s" and "composers_enabled s e"
  shows "composers_ok (composers_step upper e s)"
proof (cases e)
  case (ComposersLoaded i answer)
  with assms show ?thesis
    by (auto simp: composers_ok_def composers_loaded_def Let_def split: sum.splits option.splits ComposerRequest.splits)
next
  case (ComposersAnswered answer)
  with assms show ?thesis
    by (auto simp: composers_ok_def preview_answered_def merge_answered_def load_after_merge_def load_composers_def Let_def
        split: sum.splits option.splits ComposerRequest.splits js_error.splits)
next
  case MergeNow
  with assms show ?thesis
    by (auto simp: composers_ok_def merge_composers_def merge_of_def Let_def split: option.splits ComposerRequest.splits)
qed (use assms in \<open>auto simp: composers_ok_def composers_enabled_def beginMerge_def cancel_merge_def select_composer_def
    editSelection_def showPreview_def split: option.splits ComposerRequest.splits\<close>)

interpretation com: guarded_machine composers_enabled "composers_step upper" composers_ok for upper
  by unfold_locales (rule composers_step_ok)

text \<open>C35: Spellings are only merged as they were previewed. For whatever a user can do in the dialog,
  every merge sent names spellings and a target for which the server gave a preview, and carries
  the fingerprint of that preview.\<close>

theorem merges_were_previewed:
  assumes "enabled_run composers_enabled (composers_step upper) new_composers es"
    and "m \<in> set (co_merges (fold (composers_step upper) es new_composers))"
  shows "(cm_spellings m, cm_target m, nullish (cm_fingerprint m) []) \<in> set (co_previewed (fold (composers_step upper) es new_composers))"
proof -
  have "composers_ok new_composers" by (simp add: composers_ok_def new_composers_def)
  from com.run_inv [OF this assms(1)] assms(2) show ?thesis
    by (auto simp: composers_ok_def merge_of_def)
qed

definition bach_preview :: ComposerPreview where
  "bach_preview = \<lparr>cv_fingerprint = js ''f'', cv_count = 2, cv_pieces = []\<rparr>"

definition bach_events :: "composers_event list" where
  "bach_events = [BeginMerge, SelectComposer (js ''Bach'') True, TypeTarget (js ''J S Bach''), ShowPreview,
     ComposersAnswered (Inr bach_preview), MergeNow]"

theorem merges_were_previewed_witness:
  "(\<lambda>m. (cm_spellings m, cm_target m, nullish (cm_fingerprint m) []) \<in>
      set (co_previewed (fold (composers_step id) bach_events new_composers)))
    \<lparr>cm_spellings = [js ''Bach''], cm_target = js ''J S Bach'', cm_fingerprint = Some (js ''f'')\<rparr>"
  by (rule merges_were_previewed [where upper = id and es = bach_events]; code_simp)

section \<open>The composer field\<close>

record ComposerField =
  cf_value :: jstring
  cf_entries :: "ComposerEntry list"
  cf_open :: bool
  cf_active :: int
  cf_unavailable :: bool
  cf_changes :: "jstring list"

definition matches :: "unicode \<Rightarrow> ComposerField \<Rightarrow> ComposerEntry list" where
  "matches U s =
     (let query = fold_text U (js_trim (cf_value s))
      in take 8 (filter (\<lambda>e. ce_name e \<noteq> [] \<and> (query = [] \<or> text_includes (fold_text U (ce_name e)) query)) (cf_entries s)))"

definition focus_field :: "ComposerField \<Rightarrow> ComposerField" where
  "focus_field s = s\<lparr>cf_open := True, cf_active := -1\<rparr>"

definition field_loaded :: "(js_error, ComposerEntry list) result \<Rightarrow> ComposerField \<Rightarrow> ComposerField" where
  "field_loaded answer s = (case answer of
     Inr entries \<Rightarrow> s\<lparr>cf_entries := entries, cf_active := -1, cf_unavailable := False\<rparr>
   | Inl _ \<Rightarrow> s\<lparr>cf_unavailable := True\<rparr>)"

text \<open>The parent takes the emitted value over.\<close>

definition type_field :: "jstring \<Rightarrow> ComposerField \<Rightarrow> ComposerField" where
  "type_field v s = s\<lparr>cf_changes := cf_changes s @ [v], cf_value := v, cf_open := True, cf_active := -1\<rparr>"

definition choose_field :: "jstring \<Rightarrow> ComposerField \<Rightarrow> ComposerField" where
  "choose_field name s = s\<lparr>cf_changes := cf_changes s @ [name], cf_value := name, cf_open := False, cf_active := -1\<rparr>"

definition blur_field :: "ComposerField \<Rightarrow> ComposerField" where
  "blur_field s = s\<lparr>cf_open := False\<rparr>"

datatype field_key = EscapeKey | ArrowDownKey | ArrowUpKey | EnterKey | OtherKey

definition next_active :: "bool \<Rightarrow> int \<Rightarrow> int \<Rightarrow> int" where
  "next_active down active n =
     (if active < 0 then (if down then 0 else n - 1) else (active + (if down then 1 else n - 1)) mod n)"

definition key_field :: "unicode \<Rightarrow> field_key \<Rightarrow> ComposerField \<Rightarrow> ComposerField" where
  "key_field U k s =
     (let ms = matches U s; n = length ms
      in if k = EscapeKey \<and> cf_open s \<and> n > 0 then s\<lparr>cf_open := False\<rparr>
         else if (k = ArrowDownKey \<or> k = ArrowUpKey) \<and> n > 0
           then s\<lparr>cf_open := True, cf_active := next_active (k = ArrowDownKey) (cf_active s) (int n)\<rparr>
         else if k = EnterKey \<and> cf_open s \<and> cf_active s \<ge> 0
           then (if nat (cf_active s) < n then choose_field (ce_name (ms ! nat (cf_active s))) s else s)
         else s)"

datatype field_event = FocusField | FieldLoaded "(js_error, ComposerEntry list) result" | TypeField jstring
  | ChooseField nat | BlurField | KeyField field_key

fun field_step :: "unicode \<Rightarrow> field_event \<Rightarrow> ComposerField \<Rightarrow> ComposerField" where
  "field_step U FocusField s = focus_field s"
| "field_step U (FieldLoaded answer) s = field_loaded answer s"
| "field_step U (TypeField v) s = type_field v s"
| "field_step U (ChooseField i) s =
     (if i < length (matches U s) then choose_field (ce_name (matches U s ! i)) s else s)"
| "field_step U BlurField s = blur_field s"
| "field_step U (KeyField k) s = key_field U k s"

text \<open>The marked option is one of the list, or none is marked.\<close>

definition active_listed :: "unicode \<Rightarrow> ComposerField \<Rightarrow> bool" where
  "active_listed U s \<longleftrightarrow> - 1 \<le> cf_active s \<and> cf_active s < int (length (matches U s))"

lemma matches_simps [simp]:
  "matches U (s\<lparr>cf_open := a\<rparr>) = matches U s" "matches U (s\<lparr>cf_active := b\<rparr>) = matches U s"
  "matches U (s\<lparr>cf_unavailable := c\<rparr>) = matches U s" "matches U (s\<lparr>cf_changes := d\<rparr>) = matches U s"
  by (simp_all add: matches_def)

lemma next_active_range: "0 < n \<Longrightarrow> - 1 \<le> next_active down a n \<and> next_active down a n < n"
  by (auto simp: next_active_def intro: order_trans [OF _ pos_mod_sign])

lemma field_step_listed: "active_listed U s \<Longrightarrow> active_listed U (field_step U e s)"
proof (cases e)
  case (KeyField k)
  assume "active_listed U s"
  with KeyField show ?thesis
    by (auto simp: key_field_def active_listed_def Let_def choose_field_def next_active_range)
qed (auto simp: active_listed_def focus_field_def field_loaded_def type_field_def choose_field_def blur_field_def split: sum.split)

interpretation fld: machine "field_step U" "active_listed U" for U
  by unfold_locales (rule field_step_listed)

text \<open>The option marked in the composer field is always one of the options listed, at most eight of
  them, so Enter chooses what is marked, however arrows, typing and new lists follow each other.\<close>

theorem marked_option_listed:
  assumes "cf_active s = -1"
  shows "- 1 \<le> cf_active (fold (field_step U) es s) \<and>
    cf_active (fold (field_step U) es s) < int (length (matches U (fold (field_step U) es s))) \<and>
    length (matches U (fold (field_step U) es s)) \<le> 8"
proof -
  have "active_listed U s" using assms by (simp add: active_listed_def)
  from fld.run_inv [OF this] show ?thesis by (simp add: active_listed_def matches_def Let_def)
qed

end
