(* ===== verification/DetailsForm.thy ===== *)
theory DetailsForm
  imports LibraryStore
begin

text \<open>
  The library page around its store (\<open>web/src/app/features/library/library.component.ts\<close>): the
  details form that adds, edits and deletes a piece, opening Prepare, drafts, the session and
  signing out. Each request to the server waits in the state until its answer, which is an event.
\<close>

section \<open>State\<close>

definition emptyPiece :: PieceInput where
  "emptyPiece = \<lparr>in_opus = Some [], in_musicKey = Some [], in_title = [], in_composer = [], in_favorite = False,
     in_status = Some Playing, in_sourceUrl = [], in_listeningUrl = [], in_notes = [], in_aliases = Some []\<rparr>"

text \<open>What follows when a save was answered: closing the form, or opening the pages.\<close>

datatype after_save = ThenClose | ThenPages

record LibraryPage =
  lb_store :: LibraryStore
  lb_drafts :: "ImportDraft list"
  lb_saving :: bool
  lb_session :: "Session option"
  lb_signingOut :: bool
  lb_editing :: "Piece option"
  lb_form :: PieceInput
  lb_editRequest :: nat
  \<comment> \<open>the dialog, the requests waiting for an answer, what was sent and where the page went\<close>
  lb_dialog :: bool
  lb_reads :: "(nat \<times> jstring) list"
  lb_saves :: "after_save list"
  lb_deletes :: nat
  lb_reloads :: nat
  lb_imports :: "(jstring option \<times> jstring) list"
  lb_sent :: "(jstring option \<times> PieceInput) list"
  lb_routes :: "jstring list list"
  lb_left :: bool

definition new_page :: "LibraryStore \<Rightarrow> LibraryPage" where
  "new_page store = \<lparr>lb_store = store, lb_drafts = [], lb_saving = False, lb_session = None, lb_signingOut = False,
     lb_editing = None, lb_form = emptyPiece, lb_editRequest = 0, lb_dialog = False, lb_reads = [], lb_saves = [],
     lb_deletes = 0, lb_reloads = 0, lb_imports = [], lb_sent = [], lb_routes = [], lb_left = False\<rparr>"

definition set_error :: "jstring \<Rightarrow> LibraryPage \<Rightarrow> LibraryPage" where
  "set_error message s = s\<lparr>lb_store := (lb_store s)\<lparr>ls_error := message\<rparr>\<rparr>"

definition load_library :: "LibraryPage \<Rightarrow> LibraryPage" where
  "load_library s = s\<lparr>lb_store := load_pieces (lb_store s)\<rparr>"

section \<open>Session and drafts\<close>

definition session_answered :: "(js_error, Session) result \<Rightarrow> LibraryPage \<Rightarrow> LibraryPage" where
  "session_answered answer s = s\<lparr>lb_session := (case answer of Inl _ \<Rightarrow> None | Inr x \<Rightarrow> Some x)\<rparr>"

definition drafts_answered :: "(js_error, ImportDraft list) result \<Rightarrow> LibraryPage \<Rightarrow> LibraryPage" where
  "drafts_answered answer s = (case answer of Inl _ \<Rightarrow> s | Inr x \<Rightarrow> s\<lparr>lb_drafts := x\<rparr>)"

definition logout :: "LibraryPage \<Rightarrow> LibraryPage" where
  "logout s = (if lb_signingOut s then s else s\<lparr>lb_signingOut := True\<rparr>)"

definition logout_answered :: "(jstring \<Rightarrow> jstring) \<Rightarrow> (js_error, unit) result \<Rightarrow> LibraryPage \<Rightarrow> LibraryPage" where
  "logout_answered upper answer s = (case answer of
     Inr _ \<Rightarrow> s\<lparr>lb_store := (lb_store s)\<lparr>ls_storage := clearLibraryParams (ls_storage (lb_store s))\<rparr>, lb_left := True\<rparr>
   | Inl e \<Rightarrow> (set_error (errorMessage upper e) s)\<lparr>lb_signingOut := False\<rparr>)"

section \<open>The form\<close>

definition tooLongToPrepare :: "Piece option \<Rightarrow> bool" where
  "tooLongToPrepare piece \<longleftrightarrow>
     (case piece of None \<Rightarrow> 0 | Some p \<Rightarrow> (case p_pdf p of None \<Rightarrow> 0 | Some pdf \<Rightarrow> pdf_pageCount pdf)) > MAX_PREPARED_PAGES"

definition listeningUrlValidationError :: "browser \<Rightarrow> LibraryPage \<Rightarrow> jstring" where
  "listeningUrlValidationError B s = listeningUrlError B (in_listeningUrl (lb_form s))"

definition duplicateTitle :: "unicode \<Rightarrow> LibraryPage \<Rightarrow> PieceSummary option" where
  "duplicateTitle U s =
     (let title = fold_text U (js_trim (in_title (lb_form s)))
      in if title = [] then None
         else List.find (\<lambda>piece. Some (s_id piece) \<noteq> map_option p_id (lb_editing s) \<and>
                fold_text U (js_trim (s_title piece)) = title) (ls_allPieces (lb_store s)))"

definition editorDirty :: "LibraryPage \<Rightarrow> bool" where
  "editorDirty s = (case lb_editing s of
     None \<Rightarrow> False
   | Some piece \<Rightarrow>
       in_title (lb_form s) \<noteq> p_title piece \<or> in_composer (lb_form s) \<noteq> p_composer piece \<or>
       in_favorite (lb_form s) \<noteq> p_favorite piece \<or> in_status (lb_form s) \<noteq> Some (p_status piece) \<or>
       in_sourceUrl (lb_form s) \<noteq> p_sourceUrl piece \<or> js_trim (in_listeningUrl (lb_form s)) \<noteq> p_listeningUrl piece \<or>
       in_notes (lb_form s) \<noteq> p_notes piece \<or> in_aliases (lb_form s) \<noteq> Some (p_aliases piece) \<or>
       in_opus (lb_form s) \<noteq> Some (nullish (p_opus piece) []) \<or>
       in_musicKey (lb_form s) \<noteq> Some (nullish (p_musicKey piece) []))"

definition form_of :: "Piece \<Rightarrow> PieceInput" where
  "form_of piece = \<lparr>in_opus = Some (nullish (p_opus piece) []), in_musicKey = Some (nullish (p_musicKey piece) []),
     in_title = p_title piece, in_composer = p_composer piece, in_favorite = p_favorite piece,
     in_status = Some (p_status piece), in_sourceUrl = p_sourceUrl piece, in_listeningUrl = p_listeningUrl piece,
     in_notes = p_notes piece, in_aliases = Some (p_aliases piece)\<rparr>"

definition openCreate :: "LibraryPage \<Rightarrow> LibraryPage" where
  "openCreate s = (set_error [] s)\<lparr>lb_editRequest := lb_editRequest s + 1, lb_editing := None,
     lb_form := emptyPiece, lb_dialog := True\<rparr>"

definition openEdit :: "PieceSummary \<Rightarrow> LibraryPage \<Rightarrow> LibraryPage" where
  "openEdit row s = (let request = lb_editRequest s + 1
     in (set_error [] s)\<lparr>lb_editRequest := request, lb_reads := lb_reads s @ [(request, s_id row)]\<rparr>)"

text \<open>The answer to the read number \<open>request\<close>.\<close>

definition edit_answered ::
  "(jstring \<Rightarrow> jstring) \<Rightarrow> nat \<Rightarrow> (js_error, Piece) result \<Rightarrow> LibraryPage \<Rightarrow> LibraryPage" where
  "edit_answered upper request answer s =
     (let s = s\<lparr>lb_reads := filter (\<lambda>r. fst r \<noteq> request) (lb_reads s)\<rparr>
      in if request \<noteq> lb_editRequest s then s
         else (case answer of
                 Inl e \<Rightarrow> set_error (errorMessage upper e) s
               | Inr piece \<Rightarrow> s\<lparr>lb_editing := Some piece, lb_form := form_of piece, lb_dialog := True\<rparr>))"

definition closeEditor :: "LibraryPage \<Rightarrow> LibraryPage" where
  "closeEditor s = (if lb_saving s then s else s\<lparr>lb_dialog := False\<rparr>)"

text \<open>Escape: the handler runs, and the browser closes the dialog whatever it does.\<close>

definition escape_editor :: "LibraryPage \<Rightarrow> LibraryPage" where
  "escape_editor s = (closeEditor s)\<lparr>lb_dialog := False\<rparr>"

text \<open>Whether the form was sent, and the state: \<open>persistEditor\<close> up to its request.\<close>

definition persistEditor :: "(jstring \<Rightarrow> jstring) \<Rightarrow> browser \<Rightarrow> after_save \<Rightarrow> LibraryPage \<Rightarrow> LibraryPage" where
  "persistEditor upper B next s =
     (let s = s\<lparr>lb_form := (lb_form s)\<lparr>in_listeningUrl := js_trim (in_listeningUrl (lb_form s))\<rparr>\<rparr>;
          wrong = listeningUrlValidationError B s
      in if lb_saving s then s
         else if js_trim (in_title (lb_form s)) = [] \<or> wrong \<noteq> []
              then set_error (if wrong \<noteq> [] then wrong else js ''Add a title first.'') s
         else (set_error [] s)\<lparr>lb_saving := True, lb_saves := lb_saves s @ [next],
                lb_sent := lb_sent s @ [(map_option p_id (lb_editing s), lb_form s)]\<rparr>)"

definition save_piece :: "(jstring \<Rightarrow> jstring) \<Rightarrow> browser \<Rightarrow> LibraryPage \<Rightarrow> LibraryPage" where
  "save_piece upper B = persistEditor upper B ThenClose"

section \<open>Opening the pages\<close>

definition beginImport :: "jstring option \<Rightarrow> jstring \<Rightarrow> LibraryPage \<Rightarrow> LibraryPage" where
  "beginImport piece mode s = s\<lparr>lb_imports := lb_imports s @ [(piece, mode)]\<rparr>"

definition import_answered ::
  "(jstring \<Rightarrow> jstring) \<Rightarrow> jstring \<Rightarrow> (js_error, ImportDraft) result \<Rightarrow> LibraryPage \<Rightarrow> LibraryPage" where
  "import_answered upper mode answer s = (case answer of
     Inl e \<Rightarrow> set_error (errorMessage upper e) s
   | Inr draft \<Rightarrow> s\<lparr>lb_routes := lb_routes s @ [[js ''/prepare'', d_id draft, mode]]\<rparr>)"

definition resumeImport :: "jstring \<Rightarrow> LibraryPage \<Rightarrow> LibraryPage" where
  "resumeImport i s = s\<lparr>lb_routes := lb_routes s @ [[js ''/prepare'', i]]\<rparr>"

definition leave_for_pages :: "LibraryPage \<Rightarrow> LibraryPage" where
  "leave_for_pages s = (case lb_editing s of
     None \<Rightarrow> s
   | Some piece \<Rightarrow> beginImport (Some (p_id piece)) (js ''all'') (s\<lparr>lb_dialog := False\<rparr>))"

definition editPages :: "(jstring \<Rightarrow> jstring) \<Rightarrow> browser \<Rightarrow> LibraryPage \<Rightarrow> LibraryPage" where
  "editPages upper B s =
     (if lb_editing s = None \<or> lb_saving s \<or> tooLongToPrepare (lb_editing s) then s
      else if editorDirty s then persistEditor upper B ThenPages s
      else leave_for_pages s)"

text \<open>The answer to the save at place \<open>k\<close> of those waiting.\<close>

definition form_saved ::
  "(jstring \<Rightarrow> jstring) \<Rightarrow> nat \<Rightarrow> (js_error, Piece) result \<Rightarrow> LibraryPage \<Rightarrow> LibraryPage" where
  "form_saved upper k answer s =
     (if length (lb_saves s) \<le> k then s else
      let next = lb_saves s ! k;
          s = s\<lparr>lb_saves := take k (lb_saves s) @ drop (k + 1) (lb_saves s), lb_saving := False\<rparr>
      in case answer of
           Inl e \<Rightarrow> set_error (errorMessage upper e) s
         | Inr piece \<Rightarrow> (let s = s\<lparr>lb_editing := Some piece\<rparr>
             in case next of
                  ThenClose \<Rightarrow> load_library (s\<lparr>lb_dialog := False\<rparr>)
                | ThenPages \<Rightarrow> leave_for_pages s))"

definition openPiece :: "PieceSummary \<Rightarrow> LibraryPage \<Rightarrow> LibraryPage" where
  "openPiece piece s = (if s_pdf piece \<noteq> None then s\<lparr>lb_routes := lb_routes s @ [[js ''/reader'', s_id piece]]\<rparr>
     else openEdit piece s)"

section \<open>Deleting\<close>

definition delete_piece :: "bool \<Rightarrow> LibraryPage \<Rightarrow> LibraryPage" where
  "delete_piece confirmed s = (if confirmed then s\<lparr>lb_saving := True, lb_deletes := lb_deletes s + 1\<rparr> else s)"

definition piece_deleted :: "(jstring \<Rightarrow> jstring) \<Rightarrow> (js_error, unit) result \<Rightarrow> LibraryPage \<Rightarrow> LibraryPage" where
  "piece_deleted upper answer s =
     (let s = s\<lparr>lb_deletes := lb_deletes s - 1\<rparr>
      in case answer of
           Inr _ \<Rightarrow> load_library (s\<lparr>lb_dialog := False, lb_reloads := lb_reloads s + 1\<rparr>)
         | Inl e \<Rightarrow> (set_error (errorMessage upper e) s)\<lparr>lb_saving := False\<rparr>)"

text \<open>The library was read again after a delete.\<close>

definition delete_reloaded :: "LibraryPage \<Rightarrow> LibraryPage" where
  "delete_reloaded s = (if lb_reloads s = 0 then s else s\<lparr>lb_reloads := lb_reloads s - 1, lb_saving := False\<rparr>)"

section \<open>The page as a state machine\<close>

datatype library_event =
    OpenCreate | OpenEdit PieceSummary | EditAnswered nat "(js_error, Piece) result" | TypeForm PieceInput
  | SavePiece | SaveAnswered nat "(js_error, Piece) result" | EditPages | CloseEditor | EscapeEditor
  | OpenPiece PieceSummary | DeletePiece bool | DeleteAnswered "(js_error, unit) result" | DeleteReloaded
  | BeginImport jstring | ImportAnswered jstring "(js_error, ImportDraft) result"
  | ResumeImport jstring | SessionAnswered "(js_error, Session) result" | DraftsAnswered "(js_error, ImportDraft list) result"
  | Logout | LogoutAnswered "(js_error, unit) result"

fun library_step :: "(jstring \<Rightarrow> jstring) \<Rightarrow> browser \<Rightarrow> library_event \<Rightarrow> LibraryPage \<Rightarrow> LibraryPage" where
  "library_step upper B OpenCreate s = openCreate s"
| "library_step upper B (OpenEdit row) s = openEdit row s"
| "library_step upper B (EditAnswered n answer) s = edit_answered upper n answer s"
| "library_step upper B (TypeForm form) s = s\<lparr>lb_form := form\<rparr>"
| "library_step upper B SavePiece s = save_piece upper B s"
| "library_step upper B (SaveAnswered k answer) s = form_saved upper k answer s"
| "library_step upper B EditPages s = editPages upper B s"
| "library_step upper B CloseEditor s = closeEditor s"
| "library_step upper B EscapeEditor s = escape_editor s"
| "library_step upper B (OpenPiece row) s = openPiece row s"
| "library_step upper B (DeletePiece confirmed) s = delete_piece confirmed s"
| "library_step upper B (DeleteAnswered answer) s = piece_deleted upper answer s"
| "library_step upper B DeleteReloaded s = delete_reloaded s"
| "library_step upper B (ResumeImport i) s = resumeImport i s"
| "library_step upper B (SessionAnswered answer) s = session_answered answer s"
| "library_step upper B (DraftsAnswered answer) s = drafts_answered answer s"
| "library_step upper B (BeginImport mode) s = beginImport None mode s"
| "library_step upper B (ImportAnswered mode answer) s = import_answered upper mode answer s"
| "library_step upper B Logout s = logout s"
| "library_step upper B (LogoutAnswered answer) s = logout_answered upper answer s"

section \<open>Only acceptable pieces are sent\<close>

definition acceptable :: "browser \<Rightarrow> jstring option \<times> PieceInput \<Rightarrow> bool" where
  "acceptable B r \<longleftrightarrow> js_trim (in_title (snd r)) \<noteq> [] \<and> listeningUrlError B (in_listeningUrl (snd r)) = [] \<and>
     (\<exists>typed. in_listeningUrl (snd r) = js_trim typed)"

definition sends_acceptable :: "browser \<Rightarrow> LibraryPage \<Rightarrow> bool" where
  "sends_acceptable B s \<longleftrightarrow> list_all (acceptable B) (lb_sent s)"

lemma sent_unchanged [simp]:
  "lb_sent (set_error m s) = lb_sent s" "lb_sent (load_library s) = lb_sent s" "lb_sent (beginImport p m s) = lb_sent s"
  "lb_sent (leave_for_pages s) = lb_sent s" "lb_sent (openEdit row s) = lb_sent s"
  "lb_sent (closeEditor s) = lb_sent s"
  by (simp_all add: set_error_def load_library_def beginImport_def leave_for_pages_def openEdit_def closeEditor_def Let_def
      split: option.split)

lemma persist_acceptable: "sends_acceptable B s \<Longrightarrow> sends_acceptable B (persistEditor upper B next s)"
  by (auto simp: persistEditor_def Let_def sends_acceptable_def acceptable_def listeningUrlValidationError_def)

lemma step_acceptable: "sends_acceptable B s \<Longrightarrow> sends_acceptable B (library_step upper B e s)"
proof (cases e)
  case EditPages
  assume "sends_acceptable B s"
  with EditPages show ?thesis
    using persist_acceptable [of B s upper ThenPages] by (simp add: editPages_def) (simp add: sends_acceptable_def)
next
  case SavePiece
  assume "sends_acceptable B s"
  with SavePiece show ?thesis using persist_acceptable [of B s upper ThenClose] by (simp add: save_piece_def)
qed (simp_all add: sends_acceptable_def openCreate_def edit_answered_def form_saved_def escape_editor_def openPiece_def
    delete_piece_def piece_deleted_def delete_reloaded_def resumeImport_def session_answered_def drafts_answered_def import_answered_def logout_def logout_answered_def Let_def
    split: sum.split after_save.split)

interpretation lib: machine "library_step upper B" "sends_acceptable B" for upper B
  by unfold_locales (rule step_acceptable)

text \<open>Whatever is typed, opened, answered or closed, in whatever order, the page only ever sends
  pieces with a title that is not blank and a listening address that is empty or that the check
  accepts, already trimmed.\<close>

theorem only_acceptable_pieces_sent:
  "list_all (acceptable B) (lb_sent (fold (library_step upper B) es (new_page store)))"
  using lib.run_inv [of B "new_page store" upper es] by (simp add: sends_acceptable_def new_page_def)

section \<open>The details asked for last\<close>

definition answers_older :: "nat \<Rightarrow> (nat \<times> (js_error, Piece) result) list \<Rightarrow> bool" where
  "answers_older n answers \<longleftrightarrow> list_all (\<lambda>(k, _). k \<noteq> n) answers"

definition edits_answered ::
  "(jstring \<Rightarrow> jstring) \<Rightarrow> (nat \<times> (js_error, Piece) result) list \<Rightarrow> LibraryPage \<Rightarrow> LibraryPage" where
  "edits_answered upper answers s = fold (\<lambda>(k, answer). edit_answered upper k answer) answers s"

text \<open>An older answer only stops waiting.\<close>

lemma older_answers_nothing:
  assumes "answers_older (lb_editRequest s) answers"
  shows "\<exists>reads. edits_answered upper answers s = s\<lparr>lb_reads := reads\<rparr>"
  using assms
proof (induction answers arbitrary: s)
  case Nil
  show ?case by (rule exI [of _ "lb_reads s"]) (simp add: edits_answered_def)
next
  case (Cons a answers)
  obtain k answer where a: "a = (k, answer)" by fastforce
  with Cons.prems have older: "k \<noteq> lb_editRequest s" "answers_older (lb_editRequest s) answers"
    by (simp_all add: answers_older_def)
  then have step: "edit_answered upper k answer s = s\<lparr>lb_reads := filter (\<lambda>r. fst r \<noteq> k) (lb_reads s)\<rparr>"
    by (simp add: edit_answered_def Let_def)
  from Cons.IH [of "s\<lparr>lb_reads := filter (\<lambda>r. fst r \<noteq> k) (lb_reads s)\<rparr>"] older(2) obtain reads where
    "edits_answered upper answers (s\<lparr>lb_reads := filter (\<lambda>r. fst r \<noteq> k) (lb_reads s)\<rparr>) = s\<lparr>lb_reads := reads\<rparr>"
    by auto
  then show ?case by (intro exI [of _ reads]) (simp add: edits_answered_def a step)
qed

lemma form_of_clean:
  assumes "lb_editing s = Some piece" and "lb_form s = form_of piece" and "js_trim (p_listeningUrl piece) = p_listeningUrl piece"
  shows "\<not> editorDirty s"
  using assms by (simp add: editorDirty_def form_of_def)

text \<open>The details form shows the row asked for last, whatever answers to earlier rows arrive before
  or after its own: the answer fills the form with that piece and opens it, and nothing in it
  counts as changed. Saving it without a change sends the piece's own values under its own
  identifier.\<close>

theorem latest_details_shown:
  assumes "n = lb_editRequest s" and "answers_older n before" and "answers_older n after"
    and "t = edits_answered upper after (edit_answered upper n (Inr piece) (edits_answered upper before s))"
    and "js_trim (p_listeningUrl piece) = p_listeningUrl piece" and "js_trim (p_title piece) \<noteq> []"
    and "listeningUrlError B (p_listeningUrl piece) = []" and "\<not> lb_saving s"
  shows "lb_editing t = Some piece \<and> lb_form t = form_of piece \<and> lb_dialog t \<and> \<not> editorDirty t \<and>
    lb_sent (save_piece upper B t) = lb_sent s @ [(Some (p_id piece), form_of piece)]"
proof -
  from older_answers_nothing assms(1,2) obtain r1 where r1: "edits_answered upper before s = s\<lparr>lb_reads := r1\<rparr>" by blast
  define u where "u = edit_answered upper n (Inr piece) (s\<lparr>lb_reads := r1\<rparr>)"
  have u: "lb_editRequest u = n" "lb_editing u = Some piece" "lb_form u = form_of piece" "lb_dialog u"
    "lb_sent u = lb_sent s" "\<not> lb_saving u"
    using assms(1,8) by (simp_all add: u_def edit_answered_def Let_def)
  from older_answers_nothing [of u after upper] u(1) assms(3) obtain r2 where "t = u\<lparr>lb_reads := r2\<rparr>"
    using assms(4) r1 by (auto simp: u_def)
  with u have t: "lb_editing t = Some piece" "lb_form t = form_of piece" "lb_dialog t" "lb_sent t = lb_sent s" "\<not> lb_saving t"
    by simp_all
  have trimmed: "(form_of piece)\<lparr>in_listeningUrl := js_trim (in_listeningUrl (form_of piece))\<rparr> = form_of piece"
    using assms(5) by (simp add: form_of_def)
  have "lb_sent (save_piece upper B t) = lb_sent s @ [(Some (p_id piece), form_of piece)]"
    using t assms(6,7)
    by (simp add: save_piece_def persistEditor_def Let_def trimmed listeningUrlValidationError_def)
      (simp add: form_of_def)
  with t form_of_clean [OF t(1,2) assms(5)] show ?thesis by simp
qed

definition sonata :: Piece where
  "sonata = \<lparr>p_opus = None, p_musicKey = None, p_id = js ''p'', p_title = js ''Sonata'', p_composer = [], p_favorite = False,
     p_status = Playing, p_sourceUrl = [], p_listeningUrl = [], p_notes = [], p_aliases = [], p_createdAt = [],
     p_updatedAt = [], p_pdf = None, p_lastPlayedAt = None\<rparr>"

theorem latest_details_shown_witness:
  "lb_form (edits_answered id [(1, Inl OtherThrown)] (edit_answered id 2 (Inr sonata)
      (edits_answered id [] ((new_page (new_store \<lparr>par_q = None, par_show = None, par_sort = None\<rparr> False StorageUnavailable))\<lparr>lb_editRequest := 2\<rparr>)))) =
    form_of sonata"
proof -
  let ?s = "(new_page (new_store \<lparr>par_q = None, par_show = None, par_sort = None\<rparr> False StorageUnavailable))\<lparr>lb_editRequest := 2\<rparr>"
  have start: "2 = lb_editRequest ?s" "\<not> lb_saving ?s" by (simp_all add: new_page_def)
  have older: "answers_older 2 []" "answers_older 2 [(1, Inl OtherThrown)]" by (simp_all add: answers_older_def)
  have texts: "js_trim (p_listeningUrl sonata) = p_listeningUrl sonata" "js_trim (p_title sonata) \<noteq> []"
    "p_listeningUrl sonata = []" "js_trim [] = []"
    by code_simp+
  have url: "listeningUrlError B (p_listeningUrl sonata) = []" for B
    unfolding texts(3) listeningUrlError_def texts(4) by simp
  from latest_details_shown [OF start(1) older refl texts(1,2) url start(2), of id] show ?thesis by blast
qed

end
