(* ===== verification/LibraryKeys.thy ===== *)
theory LibraryKeys
  imports LibraryStore
begin

text \<open>
  The keyboard of the library page: the search field
  (\<open>web/src/app/features/library/library-toolbar.component.ts\<close>), the rows
  (\<open>library-list-item.component.ts\<close>) and what both find on the page (\<open>library-dom.ts\<close>). The page
  is the list of its rows, Continue first, its similar matches, and where the focus is.
\<close>

section \<open>The page\<close>

datatype PageFocus = OnSearch | OnRow nat | OnSuggestion nat | OnNothing

record KeyPage =
  kp_store :: LibraryStore
  kp_suggestions :: "PieceSummary list"
  kp_dialogOpen :: bool
  kp_focus :: PageFocus
  \<comment> \<open>pieces opened, and whether the browser's own handling was prevented\<close>
  kp_opened :: "PieceSummary list"
  kp_prevented :: bool

definition libraryPieceRows :: "browser \<Rightarrow> unicode \<Rightarrow> KeyPage \<Rightarrow> PieceSummary list" where
  "libraryPieceRows B U k =
     (if store_loading (kp_store k) then []
      else (case continued U (kp_store k) of None \<Rightarrow> [] | Some c \<Rightarrow> [c]) @ listed B U (kp_store k))"

definition move_to :: "PageFocus \<Rightarrow> KeyPage \<Rightarrow> KeyPage" where
  "move_to f k = k\<lparr>kp_focus := f, kp_prevented := True\<rparr>"

definition clearSearch :: "KeyPage \<Rightarrow> KeyPage" where
  "clearSearch k = k\<lparr>kp_store := (kp_store k)\<lparr>ls_query := []\<rparr>\<rparr>"

definition open_piece :: "PieceSummary \<Rightarrow> KeyPage \<Rightarrow> KeyPage" where
  "open_piece piece k = k\<lparr>kp_opened := kp_opened k @ [piece], kp_prevented := True\<rparr>"

datatype library_key = KeyEnter | KeyDown | KeyUp | KeyEscape | KeySlash | KeyOther

section \<open>The search field\<close>

text \<open>Where a slash was typed: in a field or a dialog, or elsewhere; modifiers leave it to the browser.\<close>

definition focusSearch :: "library_key \<Rightarrow> bool \<Rightarrow> bool \<Rightarrow> KeyPage \<Rightarrow> KeyPage" where
  "focusSearch key modified inField k =
     (if key \<noteq> KeySlash \<or> modified \<or> inField \<or> kp_dialogOpen k then k else move_to OnSearch k)"

definition searchKey :: "browser \<Rightarrow> unicode \<Rightarrow> library_key \<Rightarrow> bool \<Rightarrow> KeyPage \<Rightarrow> KeyPage" where
  "searchKey B U key isComposing k =
     (if isComposing then k
      else case key of
        KeyEnter \<Rightarrow>
          (if searching U (kp_store k) \<and> listed B U (kp_store k) \<noteq> [] then open_piece (hd (listed B U (kp_store k))) k
           else case kp_suggestions k of [] \<Rightarrow> k | piece # _ \<Rightarrow> open_piece piece k)
      | KeyDown \<Rightarrow>
          (if libraryPieceRows B U k \<noteq> [] then move_to (OnRow 0) k
           else if kp_suggestions k \<noteq> [] then move_to (OnSuggestion 0) k else k)
      | KeyEscape \<Rightarrow>
          (if ls_query (kp_store k) \<noteq> [] then (clearSearch k)\<lparr>kp_prevented := True\<rparr> else move_to OnNothing k)
      | _ \<Rightarrow> k)"

section \<open>The rows\<close>

text \<open>A key on row \<open>at\<close>. Escape clears the search also where the focus has nowhere to go.\<close>

definition rowKey :: "browser \<Rightarrow> unicode \<Rightarrow> library_key \<Rightarrow> nat \<Rightarrow> KeyPage \<Rightarrow> KeyPage" where
  "rowKey B U key here k = (case key of
     KeyDown \<Rightarrow> if here + 1 < length (libraryPieceRows B U k) then move_to (OnRow (here + 1)) k else k
   | KeyUp \<Rightarrow> move_to (if 0 < here then OnRow (here - 1) else OnSearch) k
   | KeyEscape \<Rightarrow> move_to OnSearch (clearSearch k)
   | _ \<Rightarrow> k)"

definition openFromKeyboard :: "bool \<Rightarrow> PieceSummary \<Rightarrow> KeyPage \<Rightarrow> KeyPage" where
  "openFromKeyboard onRow piece k = (if onRow then k\<lparr>kp_opened := kp_opened k @ [piece]\<rparr> else k)"

text \<open>While a search is typed and the list is there, Enter opens the row that Down moves to.\<close>

lemma enter_opens_first_row:
  assumes "searching U (kp_store k)" and "\<not> store_loading (kp_store k)" and "libraryPieceRows B U k \<noteq> []"
  shows "kp_opened (searchKey B U KeyEnter False k) = kp_opened k @ [libraryPieceRows B U k ! 0]"
    and "kp_focus (searchKey B U KeyDown False k) = OnRow 0"
proof -
  have rows: "libraryPieceRows B U k = listed B U (kp_store k)"
    using assms(1,2) by (simp add: libraryPieceRows_def continued_def)
  show "kp_opened (searchKey B U KeyEnter False k) = kp_opened k @ [libraryPieceRows B U k ! 0]"
    using assms(1,3) by (simp add: searchKey_def rows open_piece_def hd_conv_nth)
  show "kp_focus (searchKey B U KeyDown False k) = OnRow 0"
    using assms(3) by (simp add: searchKey_def move_to_def)
qed

lemma rows_unmoved [simp]: "libraryPieceRows B U (move_to f k) = libraryPieceRows B U k"
  by (simp add: libraryPieceRows_def move_to_def)

text \<open>Down and Up undo each other, and Up from the first row comes back to the search.\<close>

lemma down_and_up:
  assumes "here + 1 < length (libraryPieceRows B U k)"
  shows "kp_focus (rowKey B U KeyUp (here + 1) (rowKey B U KeyDown here k)) = OnRow here"
    and "kp_focus (rowKey B U KeyUp 0 (searchKey B U KeyDown False k)) = OnSearch"
  using assms by (auto simp: rowKey_def searchKey_def move_to_def)

end
