(* ===== verification/Shell.thy ===== *)
theory Shell
  imports Api Machines
begin

text \<open>
  The application's frame (\<open>web/src/app/app.ts\<close>): the session it starts with, the sign-in gate
  and what it forgets of the library; and the quiet menu of one choice among a few
  (\<open>web/src/app/features/library/choice-menu.component.ts\<close>). Angular's parser and printer of
  addresses are parameters.
\<close>

section \<open>The sign-in gate\<close>

record UrlTree =
  ut_path :: jstring
  ut_queryParams :: "(jstring, jstring) js_map"

record router =
  rt_parse :: "jstring \<Rightarrow> UrlTree"
  rt_print :: "UrlTree \<Rightarrow> jstring"

record App =
  ap_session :: "Session option"
  ap_loadingSession :: bool
  ap_apiOffline :: bool
  \<comment> \<open>the tab's storage, the router's address and where it was told to go\<close>
  ap_storage :: Storage
  ap_url :: jstring
  ap_navigations :: "UrlTree list"

definition new_app :: "Storage \<Rightarrow> jstring \<Rightarrow> App" where
  "new_app storage url = \<lparr>ap_session = None, ap_loadingSession = True, ap_apiOffline = False,
     ap_storage = storage, ap_url = url, ap_navigations = []\<rparr>"

definition LIBRARY_KEYS :: "jstring list" where
  "LIBRARY_KEYS = [js ''q'', js ''show'', js ''sort'']"

definition current_tree :: "router \<Rightarrow> App \<Rightarrow> UrlTree" where
  "current_tree R s = rt_parse R (if ap_url s = [] then js ''/'' else ap_url s)"

definition without_library :: "UrlTree \<Rightarrow> UrlTree" where
  "without_library t = t\<lparr>ut_queryParams := fold (\<lambda>k m. jm_delete m k) LIBRARY_KEYS (ut_queryParams t)\<rparr>"

text \<open>\<open>encodeURIComponent\<close>: UTF-8, with all but the unreserved characters escaped. It throws on half a
  surrogate pair, which an address the router printed does not hold: the router escaped it.\<close>

definition utf8_bytes :: "nat \<Rightarrow> nat list" where
  "utf8_bytes c =
     (if c < 128 then [c]
      else if c < 2048 then [192 + c div 64, 128 + c mod 64]
      else if c < 65536 then [224 + c div 4096, 128 + c div 64 mod 64, 128 + c mod 64]
      else [240 + c div 262144, 128 + c div 4096 mod 64, 128 + c div 64 mod 64, 128 + c mod 64])"

definition upper_hex :: "nat \<Rightarrow> nat" where
  "upper_hex n = (if n < 10 then 48 + n else 55 + n)"

definition unreserved :: "nat \<Rightarrow> bool" where
  "unreserved c \<longleftrightarrow> is_digit c \<or> is_az c \<or> is_upper_az c \<or> c \<in> set (js ''-_.!~*()'') \<or> c = 39"

definition encodeURIComponent :: "jstring \<Rightarrow> jstring" where
  "encodeURIComponent text = concat (map (\<lambda>c.
     if unreserved c then [c]
     else concat (map (\<lambda>b. [37, upper_hex (b div 16), upper_hex (b mod 16)]) (utf8_bytes c))) (code_points text))"

definition return_address :: "router \<Rightarrow> App \<Rightarrow> jstring" where
  "return_address R s = (let a = rt_print R (without_library (current_tree R s)) in if a = [] then js ''/'' else a)"

definition googleSignInURL :: "router \<Rightarrow> App \<Rightarrow> jstring" where
  "googleSignInURL R s = js ''/api/auth/google?returnTo='' @ encodeURIComponent (return_address R s)"

definition forgetLibrarySearch :: "router \<Rightarrow> App \<Rightarrow> App" where
  "forgetLibrarySearch R s =
     (let s = s\<lparr>ap_storage := clearLibraryParams (ap_storage s)\<rparr>;
          tree = current_tree R s
      in if list_all (\<lambda>k. jm_get (ut_queryParams tree) k = None) LIBRARY_KEYS then s
         else s\<lparr>ap_navigations := ap_navigations s @ [without_library tree]\<rparr>)"

definition signed_out :: Session where
  "signed_out = \<lparr>ses_authenticated = False, ses_authMode = Google, ses_development = False, ses_user = None\<rparr>"

definition showSignInGate :: "router \<Rightarrow> App \<Rightarrow> App" where
  "showSignInGate R s = (forgetLibrarySearch R s)\<lparr>ap_session := Some signed_out, ap_loadingSession := False, ap_apiOffline := False\<rparr>"

text \<open>The answer to the session the page starts with.\<close>

definition app_started :: "router \<Rightarrow> (js_error, Session) result \<Rightarrow> App \<Rightarrow> App" where
  "app_started R answer s =
     (case answer of
        Inr session \<Rightarrow> (let s = s\<lparr>ap_session := Some session\<rparr>
          in if ses_authenticated session then s else forgetLibrarySearch R s)
      | Inl e \<Rightarrow> (case e of
          HttpError status _ \<Rightarrow> if status = 401 then showSignInGate R s else s\<lparr>ap_apiOffline := True\<rparr>
        | _ \<Rightarrow> s\<lparr>ap_apiOffline := True\<rparr>))\<lparr>ap_loadingSession := False\<rparr>"

text \<open>What the page shows: waiting, no server, the gate or the application.\<close>

datatype app_view = Opening | NoServer | SignInGate | Inside

definition app_shows :: "App \<Rightarrow> app_view" where
  "app_shows s =
     (if ap_loadingSession s then Opening else if ap_apiOffline s then NoServer
      else case ap_session s of None \<Rightarrow> SignInGate | Some x \<Rightarrow> if ses_authenticated x then Inside else SignInGate)"

datatype app_event = AppStarted "(js_error, Session) result" | SessionExpired | Navigated jstring | StorageWritten Storage

fun app_step :: "router \<Rightarrow> app_event \<Rightarrow> App \<Rightarrow> App" where
  "app_step R (AppStarted answer) s = app_started R answer s"
| "app_step R SessionExpired s = showSignInGate R s"
| "app_step R (Navigated url) s = s\<lparr>ap_url := url\<rparr>"
| "app_step R (StorageWritten storage) s = s\<lparr>ap_storage := storage\<rparr>"

lemma without_library_get:
  "jm_get (ut_queryParams (without_library t)) k = (if k \<in> set LIBRARY_KEYS then None else jm_get (ut_queryParams t) k)"
  by (simp add: without_library_def LIBRARY_KEYS_def jm_get_delete)

lemma without_library_path: "ut_path (without_library t) = ut_path t"
  by (simp add: without_library_def)

lemma forget_facts:
  "ap_storage (forgetLibrarySearch R s) = clearLibraryParams (ap_storage s)"
  "ap_url (forgetLibrarySearch R s) = ap_url s"
  "ap_navigations (forgetLibrarySearch R s) = ap_navigations s \<or>
     ap_navigations (forgetLibrarySearch R s) = ap_navigations s @ [without_library (current_tree R s)]"
  by (auto simp: forgetLibrarySearch_def Let_def current_tree_def)

lemma forget_leaves:
  assumes "jm_get (ut_queryParams (current_tree R s)) k \<noteq> None" and "k \<in> set LIBRARY_KEYS"
  shows "ap_navigations (forgetLibrarySearch R s) = ap_navigations s @ [without_library (current_tree R s)]"
proof -
  have "\<not> list_all (\<lambda>k. jm_get (ut_queryParams (current_tree R s)) k = None) LIBRARY_KEYS"
    using assms by (force simp: list_all_iff)
  moreover have "current_tree R (s\<lparr>ap_storage := x\<rparr>) = current_tree R s" for x by (simp add: current_tree_def)
  ultimately show ?thesis by (simp only: forgetLibrarySearch_def Let_def if_False) simp
qed

text \<open>The gate came up because the session expired or the start found nobody signed in.\<close>

definition gate_event :: "app_event \<Rightarrow> bool" where
  "gate_event e \<longleftrightarrow> (case e of
     SessionExpired \<Rightarrow> True
   | AppStarted (Inr x) \<Rightarrow> \<not> ses_authenticated x
   | AppStarted (Inl (HttpError status _)) \<Rightarrow> status = 401
   | _ \<Rightarrow> False)"

lemma gate_forgets:
  assumes "gate_event e"
  shows "ap_storage (app_step R e s) = clearLibraryParams (ap_storage s)" and "ap_url (app_step R e s) = ap_url s"
    and "ap_navigations (app_step R e s) = ap_navigations (forgetLibrarySearch R s)"
    and "\<not> ap_apiOffline s \<Longrightarrow> app_shows (app_step R e s) = SignInGate"
proof -
  have same: "forgetLibrarySearch R (s\<lparr>ap_session := x\<rparr>) = (forgetLibrarySearch R s)\<lparr>ap_session := x\<rparr>" for x
    by (simp add: forgetLibrarySearch_def Let_def current_tree_def)
  have offline: "ap_apiOffline (forgetLibrarySearch R s) = ap_apiOffline s"
    by (simp add: forgetLibrarySearch_def Let_def)
  show "ap_storage (app_step R e s) = clearLibraryParams (ap_storage s)" "ap_url (app_step R e s) = ap_url s"
    "ap_navigations (app_step R e s) = ap_navigations (forgetLibrarySearch R s)"
    "\<not> ap_apiOffline s \<Longrightarrow> app_shows (app_step R e s) = SignInGate"
    using assms
    by (auto simp: gate_event_def app_started_def showSignInGate_def same forget_facts(1,2) app_shows_def signed_out_def Let_def offline
        split: app_event.splits sum.splits js_error.splits)
qed

text \<open>The next account does not inherit a search. When the session expires, or the page starts with
  nobody signed in, the sign-in gate shows, the tab's remembered search, filter and sort are
  cleared, and the page goes to its own address without them if it had any. The address the
  sign-in link returns to has the same path and other parameters and never these three, also when
  that navigation does not run.\<close>

theorem gate_forgets_search:
  assumes "gate_event e" and "\<not> ap_apiOffline s" and "t = app_step R e s"
    and "u = without_library (current_tree R s)" and "rt_parse R (rt_print R u) = u" and "rt_print R u \<noteq> []"
  shows "app_shows t = SignInGate \<and> ap_storage t = clearLibraryParams (ap_storage s) \<and>
    (k \<in> set LIBRARY_KEYS \<and> jm_get (ut_queryParams (current_tree R s)) k \<noteq> None \<longrightarrow>
       ap_navigations t = ap_navigations s @ [u]) \<and>
    ut_path (rt_parse R (return_address R t)) = ut_path (current_tree R s) \<and>
    jm_get (ut_queryParams (rt_parse R (return_address R t))) i =
      (if i \<in> set LIBRARY_KEYS then None else jm_get (ut_queryParams (current_tree R s)) i)"
proof -
  note gate = gate_forgets [OF assms(1), where R = R and s = s, folded assms(3)]
  have tree: "current_tree R t = current_tree R s" using gate(2) by (simp add: current_tree_def)
  have "rt_parse R (return_address R t) = u"
    using assms(5,6) by (simp add: return_address_def tree Let_def assms(4) [symmetric])
  then have address: "rt_parse R (return_address R t) = without_library (current_tree R s)" by (simp only: assms(4))
  have "ap_navigations t = ap_navigations s @ [u]"
    if "k \<in> set LIBRARY_KEYS \<and> jm_get (ut_queryParams (current_tree R s)) k \<noteq> None"
    using that forget_leaves [of R s k] gate(3) assms(4) by simp
  then show ?thesis
    unfolding address without_library_get without_library_path using gate(1) gate(4) [OF assms(2)] by blast
qed

text \<open>An address with a search and one without.\<close>

definition two_addresses :: router where
  "two_addresses = \<lparr>rt_parse = (\<lambda>url. \<lparr>ut_path = js ''/'', ut_queryParams = (if url = js ''/'' then [] else [(js ''q'', js ''bach'')])\<rparr>),
     rt_print = (\<lambda>t. js ''/'')\<rparr>"

theorem gate_forgets_search_witness:
  "ap_navigations (app_step two_addresses SessionExpired (new_app StorageUnavailable (js ''/?q=bach''))) =
     [\<lparr>ut_path = js ''/'', ut_queryParams = []\<rparr>] \<and>
   app_shows (app_step two_addresses SessionExpired (new_app StorageUnavailable (js ''/?q=bach''))) = SignInGate"
proof -
  let ?s = "new_app StorageUnavailable (js ''/?q=bach'')"
  have tree: "current_tree two_addresses ?s = \<lparr>ut_path = js ''/'', ut_queryParams = [(js ''q'', js ''bach'')]\<rparr>"
    by (simp add: current_tree_def new_app_def two_addresses_def js_def)
  have u: "without_library (current_tree two_addresses ?s) = \<lparr>ut_path = js ''/'', ut_queryParams = []\<rparr>"
    unfolding tree by (simp add: without_library_def LIBRARY_KEYS_def jm_delete_def)
  have start: "gate_event SessionExpired" "\<not> ap_apiOffline ?s" by (simp_all add: gate_event_def new_app_def)
  have law: "rt_parse two_addresses (rt_print two_addresses \<lparr>ut_path = js ''/'', ut_queryParams = []\<rparr>) =
      \<lparr>ut_path = js ''/'', ut_queryParams = []\<rparr>" "rt_print two_addresses \<lparr>ut_path = js ''/'', ut_queryParams = []\<rparr> \<noteq> []"
    by (simp_all add: two_addresses_def js_def)
  have key: "js ''q'' \<in> set LIBRARY_KEYS \<and> jm_get (ut_queryParams (current_tree two_addresses ?s)) (js ''q'') \<noteq> None"
    unfolding tree by (simp add: LIBRARY_KEYS_def jm_get_def)
  have "ap_navigations ?s = []" by (simp add: new_app_def)
  with gate_forgets_search [OF start refl u [symmetric] law, of "js ''q''"] key show ?thesis by simp
qed

section \<open>The menu\<close>

record 'v Choice =
  ch_value :: 'v
  ch_label :: jstring
  ch_hint :: "jstring option"

text \<open>Where the keyboard is: on the menu's button, on a choice of the open menu, or elsewhere.\<close>

datatype menu_focus = OnButton | OnItem nat | Elsewhere

record 'v ChoiceMenu =
  cu_options :: "'v Choice list"
  cu_value :: 'v
  cu_open :: bool
  cu_focus :: menu_focus
  cu_chosen :: "'v list"

definition menu_current :: "'v ChoiceMenu \<Rightarrow> jstring" where
  "menu_current s = (case List.find (\<lambda>c. ch_value c = cu_value s) (cu_options s) of None \<Rightarrow> [] | Some c \<Rightarrow> ch_label c)"

definition menu_items :: "'v ChoiceMenu \<Rightarrow> nat" where
  "menu_items s = (if cu_open s then length (cu_options s) else 0)"

definition show_menu :: "'v ChoiceMenu \<Rightarrow> 'v ChoiceMenu" where
  "show_menu s = s\<lparr>cu_open := True, cu_focus :=
     (case find_index (\<lambda>c. ch_value c = cu_value s) (cu_options s) of None \<Rightarrow> cu_focus s | Some i \<Rightarrow> OnItem i)\<rparr>"

text \<open>The focused choice goes with the menu; it stays on nothing unless the button takes it.\<close>

definition close_menu :: "bool \<Rightarrow> 'v ChoiceMenu \<Rightarrow> 'v ChoiceMenu" where
  "close_menu refocus s =
     (if \<not> cu_open s then s
      else s\<lparr>cu_open := False, cu_focus := (if refocus then OnButton
        else case cu_focus s of OnItem _ \<Rightarrow> Elsewhere | f \<Rightarrow> f)\<rparr>)"

definition toggle_menu :: "'v ChoiceMenu \<Rightarrow> 'v ChoiceMenu" where
  "toggle_menu s = (if cu_open s then close_menu False s else show_menu s)"

definition choose_item :: "'v \<Rightarrow> 'v ChoiceMenu \<Rightarrow> 'v ChoiceMenu" where
  "choose_item v s = (close_menu True s)\<lparr>cu_chosen := cu_chosen s @ [v]\<rparr>"

definition close_outside :: "bool \<Rightarrow> 'v ChoiceMenu \<Rightarrow> 'v ChoiceMenu" where
  "close_outside inside s = (if inside then s else close_menu False s)"

datatype menu_press = DownKey | UpKey | HomeKey | EndKey | MenuEscape | TabKey | OtherMenuKey

definition button_key :: "menu_press \<Rightarrow> 'v ChoiceMenu \<Rightarrow> 'v ChoiceMenu" where
  "button_key k s = (if k \<noteq> DownKey \<and> k \<noteq> UpKey then s else show_menu s)"

definition focus_index :: "'v ChoiceMenu \<Rightarrow> int" where
  "focus_index s = (case cu_focus s of OnItem i \<Rightarrow> if i < menu_items s then int i else - 1 | _ \<Rightarrow> - 1)"

text \<open>JavaScript's remainder is negative for a negative sum; no item has such an index.\<close>

definition move_focus :: "int \<Rightarrow> 'v ChoiceMenu \<Rightarrow> 'v ChoiceMenu" where
  "move_focus to s =
     (let n = int (menu_items s); i = to + n
      in if n = 0 \<or> i < 0 \<and> i mod n \<noteq> 0 then s else s\<lparr>cu_focus := OnItem (nat (i mod n))\<rparr>)"

definition menu_key :: "menu_press \<Rightarrow> 'v ChoiceMenu \<Rightarrow> 'v ChoiceMenu" where
  "menu_key k s = (case k of
     DownKey \<Rightarrow> move_focus (focus_index s + 1) s
   | UpKey \<Rightarrow> move_focus (focus_index s - 1) s
   | HomeKey \<Rightarrow> move_focus 0 s
   | EndKey \<Rightarrow> move_focus (int (menu_items s) - 1) s
   | MenuEscape \<Rightarrow> close_menu True s
   | TabKey \<Rightarrow> close_menu False s
   | OtherMenuKey \<Rightarrow> s)"

text \<open>From a focused choice the arrows go round: the next and the one before, and back.\<close>

lemma arrows_go_round:
  assumes "cu_open s" and "cu_focus s = OnItem i" and "i < length (cu_options s)"
  shows "cu_focus (menu_key DownKey s) = OnItem ((i + 1) mod length (cu_options s))"
    and "cu_focus (menu_key UpKey (menu_key DownKey s)) = OnItem i"
    and "cu_focus (menu_key HomeKey s) = OnItem 0"
    and "cu_focus (menu_key EndKey s) = OnItem (length (cu_options s) - 1)"
proof -
  define n where "n = length (cu_options s)"
  have n: "0 < n" "i < n" "menu_items s = n" using assms by (auto simp: n_def menu_items_def)
  have idx: "focus_index s = int i" using assms n by (simp add: focus_index_def)
  have down: "menu_key DownKey s = s\<lparr>cu_focus := OnItem ((i + 1) mod n)\<rparr>"
  proof -
    have "nat ((int i + 1 + int n) mod int n) = (i + 1) mod n"
      by (metis (no_types, lifting) Suc_eq_plus1 mod_add_self2 nat_int of_nat_Suc add.commute zmod_int)
    then show ?thesis using n idx by (simp add: menu_key_def move_focus_def Let_def)
  qed
  show "cu_focus (menu_key DownKey s) = OnItem ((i + 1) mod length (cu_options s))"
    by (simp add: down n_def)
  have wrap: "(2 * int n - 1) mod int n = int n - 1"
  proof -
    have "(2 * int n - 1) mod int n = (int n - 1 + int n) mod int n" by (rule arg_cong [of _ _ "\<lambda>x. x mod int n"]) simp
    also have "\<dots> = (int n - 1) mod int n" by (rule mod_add_self2)
    also have "\<dots> = int n - 1" using n(1) by (intro mod_pos_pos_trivial) simp_all
    finally show ?thesis .
  qed
  show "cu_focus (menu_key HomeKey s) = OnItem 0" "cu_focus (menu_key EndKey s) = OnItem (length (cu_options s) - 1)"
    using n wrap by (auto simp: menu_key_def move_focus_def Let_def n_def [symmetric] nat_eq_iff of_nat_diff)
  have idx': "focus_index (menu_key DownKey s) = int ((i + 1) mod n)" "menu_items (menu_key DownKey s) = n"
    using n by (simp_all add: down focus_index_def menu_items_def assms(1))
  have "nat ((int ((i + 1) mod n) - 1 + int n) mod int n) = i"
  proof (cases "i + 1 = n")
    case True
    then have "int ((i + 1) mod n) - 1 + int n = int i" by simp
    then show ?thesis using n by simp
  next
    case False
    then have "int ((i + 1) mod n) - 1 + int n = int i + int n" using n by simp
    then show ?thesis using n by simp
  qed
  moreover have "0 \<le> int ((i + 1) mod n) - 1 + int n" using n by simp
  ultimately show "cu_focus (menu_key UpKey (menu_key DownKey s)) = OnItem i"
    using n idx' by (simp add: menu_key_def [of UpKey] move_focus_def Let_def not_less)
qed

end
