(* ===== verification/Rendering.thy ===== *)
theory Rendering
  imports Prepare
begin

text \<open>
  The images of the Prepare page (\<open>web/src/app/features/prepare/prepare-rendering.ts\<close>): PDF.js
  documents kept for drawing, the selected photo at display size, the rail of thumbnails. Object
  URLs and documents are numbered as they are made; the lists of those not yet revoked or closed
  are part of the state, so that the properties can speak of them. Images themselves are not
  modelled. What an \<open>async\<close> method still has to do waits in the state.
\<close>

section \<open>State\<close>

text \<open>What the renderer reads of the page. The sources are objects: \<open>rv_sources\<close> is their identity.\<close>

record PageRendererView =
  rv_draft :: "ImportDraft option"
  rv_sources :: nat
  rv_step :: PrepareStep
  rv_selected :: int
  rv_error :: jstring

record DisplayRaster =
  dp_key :: jstring
  dp_url :: nat
  dp_width :: nat
  dp_height :: nat

text \<open>
  A display raster being loaded: its promise, what it is of, whether it was aborted, and its
  result once it is there and its first caller has not gone on yet.
\<close>

record RasterLoad =
  ld_promise :: nat
  ld_key :: jstring
  ld_source :: "nat \<times> ImportAsset"
  ld_page :: nat
  ld_aborted :: bool
  ld_made :: "DisplayRaster option"

record ThumbnailRequest =
  tr_revision :: nat
  tr_key :: jstring
  tr_ids :: "jstring list"
  tr_pages :: "PageEdit list"

text \<open>
  The pump waits for the canvas or for the blob of a page, asked for by the request of a revision,
  or has returned and its promise's last callback is still to come.
\<close>

datatype PumpStage = AwaitCanvas PageEdit nat | AwaitBlob PageEdit nat | PumpReturned

record ThumbnailPump =
  pu_attemptedRevision :: "nat option"
  pu_attempted :: "jstring list"
  pu_stage :: PumpStage

text \<open>A canvas being drawn from a document: its number, the source and the document.\<close>

record PdfCanvas =
  rc_id :: nat
  rc_asset :: jstring
  rc_task :: nat

record PageRenderer =
  rn_view :: PageRendererView
  rn_thumbs :: "(jstring, nat) js_map"
  rn_destroyed :: bool
  rn_previewTask :: "nat option"
  rn_thumbnailRevision :: nat
  rn_thumbnailRequest :: "ThumbnailRequest option"
  rn_thumbnailPump :: "ThumbnailPump option"
  rn_pdfTasks :: "(jstring, nat) js_map"
  rn_users :: "nat \<Rightarrow> nat"
  rn_displayRaster :: "DisplayRaster option"
  rn_displayRasterLoad :: "(jstring \<times> nat) option"
  \<comment> \<open>what waits: loads of display rasters, canvases, previews of prepared pages\<close>
  rn_loads :: "RasterLoad list"
  rn_canvases :: "PdfCanvas list"
  rn_previews :: "nat list"
  \<comment> \<open>numbers given out so far, object URLs not revoked, documents not closed\<close>
  rn_made :: nat
  rn_live :: "nat list"
  rn_open :: "nat list"

definition new_renderer :: "PageRendererView \<Rightarrow> PageRenderer" where
  "new_renderer view = \<lparr>rn_view = view, rn_thumbs = [], rn_destroyed = False, rn_previewTask = None,
     rn_thumbnailRevision = 0, rn_thumbnailRequest = None, rn_thumbnailPump = None, rn_pdfTasks = [],
     rn_users = (\<lambda>_. 0), rn_displayRaster = None, rn_displayRasterLoad = None, rn_loads = [], rn_canvases = [],
     rn_previews = [], rn_made = 0, rn_live = [], rn_open = []\<rparr>"

definition view_pages :: "PageRenderer \<Rightarrow> PageEdit list" where
  "view_pages s = (case rv_draft (rn_view s) of None \<Rightarrow> [] | Some d \<Rightarrow> m_pages (d_manifest d))"

definition view_page :: "PageRenderer \<Rightarrow> PageEdit option" where
  "view_page s = page_at (rv_selected (rn_view s)) (view_pages s)"

definition source_of :: "jstring option \<Rightarrow> PageRenderer \<Rightarrow> ImportAsset option" where
  "source_of i s = (case rv_draft (rn_view s) of None \<Rightarrow> None | Some d \<Rightarrow> find_source i d)"

definition view_source :: "PageRenderer \<Rightarrow> (nat \<times> ImportAsset) option" where
  "view_source s = map_option (Pair (rv_sources (rn_view s))) (source_of (map_option e_sourceId (view_page s)) s)"

section \<open>Object URLs and documents\<close>

definition revoke :: "nat list \<Rightarrow> PageRenderer \<Rightarrow> PageRenderer" where
  "revoke us s = s\<lparr>rn_live := fold remove1 us (rn_live s)\<rparr>"

definition close_documents :: "nat list \<Rightarrow> PageRenderer \<Rightarrow> PageRenderer" where
  "close_documents ts s = s\<lparr>rn_open := filter (\<lambda>t. t \<notin> set ts) (rn_open s)\<rparr>"

definition open_document :: "PageRenderer \<Rightarrow> PageRenderer" where
  "open_document s = s\<lparr>rn_made := rn_made s + 1, rn_open := rn_open s @ [rn_made s]\<rparr>"

section \<open>Sizes of canvases\<close>

definition pdf_canvas_size :: "real \<Rightarrow> real \<Rightarrow> real \<Rightarrow> int \<times> int" where
  "pdf_canvas_size width w h = (let scale = min (width / w) 2 in (\<lceil>w * scale\<rceil>, \<lceil>h * scale\<rceil>))"

definition photo_canvas_size :: "real \<Rightarrow> nat \<Rightarrow> nat \<Rightarrow> int \<times> int" where
  "photo_canvas_size width w h =
     (let scale = min 1 (width / real w) in (js_round (real w * scale), js_round (real h * scale)))"

definition display_size :: "nat \<Rightarrow> nat \<Rightarrow> nat \<times> nat" where
  "display_size w h =
     (let scale = min 1 (1050 / real (max w h))
      in (nat (max 1 (js_round (real w * scale))), nat (max 1 (js_round (real h * scale)))))"

definition thumbnail_size :: "nat \<Rightarrow> nat \<Rightarrow> nat \<times> nat" where
  "thumbnail_size w h =
     (let scale = min 1 (140 / real w)
      in (nat (max 1 (js_round (real w * scale))), nat (max 1 (js_round (real h * scale)))))"

section \<open>Canvases of source pages\<close>

text \<open>
  Unused documents beyond three are closed, the longest unused first. The list is the entries of
  the map in order.
\<close>

fun close_unused :: "(jstring \<times> nat) list \<Rightarrow> PageRenderer \<Rightarrow> PageRenderer" where
  "close_unused [] s = s"
| "close_unused ((i, t) # rest) s =
     (if length (rn_pdfTasks s) \<le> 3 then s
      else if rn_users s t \<noteq> 0 then close_unused rest s
      else close_unused rest (close_documents [t] (s\<lparr>rn_pdfTasks := jm_delete (rn_pdfTasks s) i\<rparr>)))"

text \<open>
  \<open>sourceCanvas\<close> up to its first wait. A photo only fetches and draws; without a draft or a
  source the promise is rejected.
\<close>

definition sourceCanvas :: "PageEdit \<Rightarrow> PageRenderer \<Rightarrow> PageRenderer" where
  "sourceCanvas page s = (case source_of (Some (e_sourceId page)) s of
     None \<Rightarrow> s
   | Some asset \<Rightarrow>
       if a_mime asset \<noteq> js ''application/pdf'' then s
       else
         (let (t, s) = (case jm_get (rn_pdfTasks s) (a_id asset) of
                          Some t \<Rightarrow> (t, s)
                        | None \<Rightarrow> (rn_made s, (open_document s)\<lparr>rn_users := (rn_users s)(rn_made s := 0)\<rparr>))
          in s\<lparr>rn_pdfTasks := jm_set (jm_delete (rn_pdfTasks s) (a_id asset)) (a_id asset) t,
               rn_users := (rn_users s)(t := rn_users s t + 1), rn_made := rn_made s + 1,
               rn_canvases := rn_canvases s @ [\<lparr>rc_id = rn_made s, rc_asset = a_id asset, rc_task = t\<rparr>]\<rparr>))"

text \<open>The canvas was drawn, or loading or drawing threw.\<close>

definition canvas_settled :: "nat \<Rightarrow> bool \<Rightarrow> PageRenderer \<Rightarrow> PageRenderer" where
  "canvas_settled i drawn s = (case List.find (\<lambda>c. rc_id c = i) (rn_canvases s) of
     None \<Rightarrow> s
   | Some c \<Rightarrow>
       (let s = (if drawn then s
                 else close_documents [rc_task c] (s\<lparr>rn_pdfTasks := jm_delete (rn_pdfTasks s) (rc_asset c)\<rparr>));
            s = s\<lparr>rn_users := (rn_users s)(rc_task c := rn_users s (rc_task c) - 1),
                  rn_canvases := filter (\<lambda>c. rc_id c \<noteq> i) (rn_canvases s)\<rparr>
        in close_unused (rn_pdfTasks s) s))"

section \<open>Previews of prepared pages\<close>

definition renderPdfPreview :: "PageRenderer \<Rightarrow> PageRenderer" where
  "renderPdfPreview s =
     (open_document s)\<lparr>rn_previewTask := Some (rn_made s), rn_previews := rn_previews s @ [rn_made s]\<rparr>"

definition preview_settled :: "nat \<Rightarrow> PageRenderer \<Rightarrow> PageRenderer" where
  "preview_settled t s =
     (if t \<notin> set (rn_previews s) then s
      else close_documents [t]
        (s\<lparr>rn_previewTask := (if rn_previewTask s = Some t then None else rn_previewTask s),
           rn_previews := filter (\<lambda>u. u \<noteq> t) (rn_previews s)\<rparr>))"

definition cancelPdfPreview :: "PageRenderer \<Rightarrow> PageRenderer" where
  "cancelPdfPreview s = (case rn_previewTask s of
     None \<Rightarrow> s
   | Some t \<Rightarrow> (close_documents [t] s)\<lparr>rn_previewTask := None\<rparr>)"

section \<open>The selected photo\<close>

definition releaseDisplayRaster :: "PageRenderer \<Rightarrow> PageRenderer" where
  "releaseDisplayRaster s =
     (let s = s\<lparr>rn_loads := map (\<lambda>l. l\<lparr>ld_aborted := ld_aborted l \<or>
                  map_option snd (rn_displayRasterLoad s) = Some (ld_promise l)\<rparr>) (rn_loads s),
                rn_displayRasterLoad := None\<rparr>
      in case rn_displayRaster s of
           None \<Rightarrow> s
         | Some r \<Rightarrow> (revoke [dp_url r] s)\<lparr>rn_displayRaster := None\<rparr>)"

definition raster_key :: "PageEdit \<Rightarrow> ImportAsset \<Rightarrow> jstring" where
  "raster_key page source = a_checksum source @ js '':'' @ nat_digits (e_page page)"

text \<open>What a caller gets: the raster held, the load under way, or a load of its own.\<close>

datatype RasterWait = HeldRaster DisplayRaster | SharedLoad nat | OwnLoad nat

definition selectedDisplayRaster :: "PageEdit \<Rightarrow> ImportAsset \<Rightarrow> PageRenderer \<Rightarrow> RasterWait \<times> PageRenderer" where
  "selectedDisplayRaster page source s =
     (let key = raster_key page source;
          fresh =
            (let s = releaseDisplayRaster s; p = rn_made s
             in (OwnLoad p, s\<lparr>rn_made := p + 1, rn_displayRasterLoad := Some (key, p),
                  rn_loads := rn_loads s @ [\<lparr>ld_promise = p, ld_key = key, ld_source = (rv_sources (rn_view s), source),
                    ld_page = e_page page, ld_aborted = False, ld_made = None\<rparr>]\<rparr>));
          load = (case rn_displayRasterLoad s of
            Some (k, p) \<Rightarrow> if k = key then (SharedLoad p, s) else fresh
          | None \<Rightarrow> fresh)
      in case rn_displayRaster s of
           Some r \<Rightarrow> if dp_key r = key then (HeldRaster r, s) else load
         | None \<Rightarrow> load)"

text \<open>The photo was fetched, decoded and drawn, with the bitmap's size, or something threw.\<close>

definition forget_load :: "nat \<Rightarrow> PageRenderer \<Rightarrow> PageRenderer" where
  "forget_load p s = s\<lparr>rn_loads := filter (\<lambda>l. ld_promise l \<noteq> p) (rn_loads s),
     rn_displayRasterLoad := (if map_option snd (rn_displayRasterLoad s) = Some p then None else rn_displayRasterLoad s)\<rparr>"

definition find_load :: "nat \<Rightarrow> PageRenderer \<Rightarrow> RasterLoad option" where
  "find_load p s = List.find (\<lambda>l. ld_promise l = p) (rn_loads s)"

definition raster_answered :: "nat \<Rightarrow> (nat \<times> nat) option \<Rightarrow> PageRenderer \<Rightarrow> PageRenderer" where
  "raster_answered p answer s = (case find_load p s of
     None \<Rightarrow> s
   | Some l \<Rightarrow>
       if ld_made l \<noteq> None then s
       else (case answer of
         None \<Rightarrow> forget_load p s
       | Some (w, h) \<Rightarrow>
           (let raster = \<lparr>dp_key = ld_key l, dp_url = rn_made s, dp_width = fst (display_size w h),
                  dp_height = snd (display_size w h)\<rparr>
            in s\<lparr>rn_made := rn_made s + 1, rn_live := rn_live s @ [rn_made s],
                 rn_loads := map (\<lambda>l. if ld_promise l = p then l\<lparr>ld_made := Some raster\<rparr> else l) (rn_loads s)\<rparr>)))"

text \<open>The first caller goes on: the raster is kept only while its page still shows.\<close>

definition still_shown :: "RasterLoad \<Rightarrow> PageRenderer \<Rightarrow> bool" where
  "still_shown l s \<longleftrightarrow> \<not> rn_destroyed s \<and> view_source s = Some (ld_source l) \<and>
     map_option e_page (view_page s) = Some (ld_page l)"

definition raster_taken :: "nat \<Rightarrow> PageRenderer \<Rightarrow> PageRenderer" where
  "raster_taken p s = (case find_load p s of
     None \<Rightarrow> s
   | Some l \<Rightarrow>
       (case ld_made l of
          None \<Rightarrow> s
        | Some r \<Rightarrow>
            forget_load p (if still_shown l s then s\<lparr>rn_displayRaster := Some r\<rparr> else revoke [dp_url r] s)))"

definition keepDisplayRasterFor :: "jstring \<Rightarrow> PageRenderer \<Rightarrow> PageRenderer" where
  "keepDisplayRasterFor key s = (case rn_displayRaster s of
     None \<Rightarrow> s
   | Some r \<Rightarrow> if key \<noteq> dp_key r then releaseDisplayRaster s else s)"

section \<open>Thumbnails\<close>

definition dropThumbnail :: "jstring \<Rightarrow> PageRenderer \<Rightarrow> PageRenderer" where
  "dropThumbnail i s =
     (let s' = (case jm_get (rn_thumbs s) i of None \<Rightarrow> s | Some u \<Rightarrow> revoke [u] s)
      in s'\<lparr>rn_thumbs := jm_delete (rn_thumbs s) i\<rparr>)"

text \<open>
  The rail: its rectangle and its elements with theirs, each as left, top, right and bottom.
\<close>

type_synonym rect = "real \<times> real \<times> real \<times> real"

definition near_rail :: "rect \<Rightarrow> rect \<Rightarrow> bool" where
  "near_rail rail bounds \<longleftrightarrow> (case (rail, bounds) of ((rl, rt, rr, rb), (l, t, r, b)) \<Rightarrow>
     r \<ge> rl - 140 \<and> l \<le> rr + 140 \<and> b \<ge> rt - 140 \<and> t \<le> rb + 140)"

definition rail_shown :: "rect \<Rightarrow> bool" where
  "rail_shown rail \<longleftrightarrow> (case rail of (l, t, r, b) \<Rightarrow> r - l > 0 \<and> b - t > 0)"

definition thumbnailIDs :: "(rect \<times> (jstring \<times> rect) list) option \<Rightarrow> PageRenderer \<Rightarrow> jstring list" where
  "thumbnailIDs container s =
     (if rv_step (rn_view s) = SourceStep then []
      else
        let chosen = (case view_page s of None \<Rightarrow> [] | Some page \<Rightarrow> [e_id page]);
            around = chosen @ map e_id (take 7 (drop (nat (rv_selected (rn_view s) - 3)) (view_pages s)))
        in if rv_step (rn_view s) = DetailsStep then chosen @ map e_id (take 3 (view_pages s))
           else case container of
                  None \<Rightarrow> around
                | Some (rail, elements) \<Rightarrow>
                    if rail_shown rail then chosen @ map fst (filter (\<lambda>x. near_rail rail (snd x)) elements) else around)"

definition wanted_pages :: "jstring list \<Rightarrow> PageRenderer \<Rightarrow> PageEdit list" where
  "wanted_pages ids s =
     (let visible = filter (\<lambda>page. e_id page \<in> set ids) (view_pages s)
      in case view_page s of
           None \<Rightarrow> visible
         | Some chosen \<Rightarrow> chosen # filter (\<lambda>page. e_id page \<noteq> e_id chosen) visible)"

definition page_text :: "PageRenderer \<Rightarrow> PageEdit \<Rightarrow> jstring" where
  "page_text s page = e_id page @ js '':'' @
     (case source_of (Some (e_sourceId page)) s of None \<Rightarrow> e_sourceId page | Some a \<Rightarrow> a_checksum a) @ js '':'' @
     nat_digits (e_page page)"

definition thumbnail_key :: "PageEdit list \<Rightarrow> PageRenderer \<Rightarrow> jstring" where
  "thumbnail_key pages s = join (js ''|'') (map (page_text s) pages)"

text \<open>A canvas for a thumbnail: of the selected photo from its display raster, else of the source.\<close>

definition thumbnailCanvas :: "PageEdit \<Rightarrow> PageRenderer \<Rightarrow> PageRenderer" where
  "thumbnailCanvas page s = (case source_of (Some (e_sourceId page)) s of
     None \<Rightarrow> sourceCanvas page s
   | Some source \<Rightarrow>
       if \<not> is_image source \<or> map_option e_id (view_page s) \<noteq> Some (e_id page) then sourceCanvas page s
       else snd (selectedDisplayRaster page source s))"

text \<open>The pump goes on until it waits for the next page's canvas, or returns.\<close>

definition next_page :: "jstring list \<Rightarrow> PageRenderer \<Rightarrow> PageEdit list \<Rightarrow> PageEdit option" where
  "next_page attempted s pages = List.find (\<lambda>page. jm_get (rn_thumbs s) (e_id page) = None \<and> e_id page \<notin> set attempted) pages"

definition pump_returned :: "ThumbnailPump \<Rightarrow> PageRenderer \<Rightarrow> PageRenderer" where
  "pump_returned p s = s\<lparr>rn_thumbnailPump := Some (p\<lparr>pu_stage := PumpReturned\<rparr>)\<rparr>"

definition pumpThumbnails :: "ThumbnailPump \<Rightarrow> PageRenderer \<Rightarrow> PageRenderer" where
  "pumpThumbnails p s =
     (if rn_destroyed s then pump_returned p s
      else case rn_thumbnailRequest s of
        None \<Rightarrow> pump_returned p s
      | Some request \<Rightarrow>
          (let attempted = (if pu_attemptedRevision p = Some (tr_revision request) then pu_attempted p else []);
               p = p\<lparr>pu_attemptedRevision := Some (tr_revision request), pu_attempted := attempted\<rparr>
           in case next_page attempted s (tr_pages request) of
                None \<Rightarrow> pump_returned p s
              | Some page \<Rightarrow>
                  (thumbnailCanvas page s)\<lparr>rn_thumbnailPump :=
                     Some (p\<lparr>pu_attempted := attempted @ [e_id page], pu_stage := AwaitCanvas page (tr_revision request)\<rparr>)\<rparr>))"

definition new_pump :: ThumbnailPump where
  "new_pump = \<lparr>pu_attemptedRevision = None, pu_attempted = [], pu_stage = PumpReturned\<rparr>"

definition renderThumbnails :: "(rect \<times> (jstring \<times> rect) list) option \<Rightarrow> PageRenderer \<Rightarrow> PageRenderer" where
  "renderThumbnails container s =
     (if rn_destroyed s \<or> rv_draft (rn_view s) = None then s
      else
        let ids = thumbnailIDs container s;
            pages = wanted_pages ids s;
            s = (revoke (map snd (filter (\<lambda>x. fst x \<notin> set ids) (rn_thumbs s))) s)
                  \<lparr>rn_thumbs := filter (\<lambda>x. fst x \<in> set ids) (rn_thumbs s)\<rparr>;
            key = thumbnail_key pages s;
            s = (if map_option tr_key (rn_thumbnailRequest s) = Some key then s
                 else s\<lparr>rn_thumbnailRevision := rn_thumbnailRevision s + 1,
                        rn_thumbnailRequest := Some \<lparr>tr_revision = rn_thumbnailRevision s + 1, tr_key = key,
                          tr_ids = ids, tr_pages = pages\<rparr>\<rparr>)
        in if rn_thumbnailPump s = None then pumpThumbnails new_pump s else s)"

text \<open>Whether the page drawn is still asked for by the request it was drawn for.\<close>

definition still_asked :: "PageEdit \<Rightarrow> nat \<Rightarrow> PageRenderer \<Rightarrow> bool" where
  "still_asked page revision s \<longleftrightarrow> \<not> rn_destroyed s \<and> (case rn_thumbnailRequest s of
     None \<Rightarrow> False
   | Some latest \<Rightarrow> tr_revision latest = revision \<and> e_id page \<in> set (tr_ids latest))"

datatype CanvasError = DrawingStopped | DrawingAborted | DrawingFailed js_error

definition pump_threw :: "(jstring \<Rightarrow> jstring) \<Rightarrow> CanvasError \<Rightarrow> nat \<Rightarrow> PageRenderer \<Rightarrow> PageRenderer" where
  "pump_threw upper e revision s = (case e of
     DrawingFailed x \<Rightarrow>
       if \<not> rn_destroyed s \<and> map_option tr_revision (rn_thumbnailRequest s) = Some revision
       then s\<lparr>rn_view := (rn_view s)\<lparr>rv_error := errorMessage upper x\<rparr>\<rparr> else s
   | _ \<Rightarrow> s)"

text \<open>The canvas or the blob the pump waits for came, or threw.\<close>

definition pump_answered :: "(jstring \<Rightarrow> jstring) \<Rightarrow> (CanvasError, unit) result \<Rightarrow> PageRenderer \<Rightarrow> PageRenderer" where
  "pump_answered upper answer s = (case rn_thumbnailPump s of
     None \<Rightarrow> s
   | Some p \<Rightarrow>
       (case pu_stage p of
          AwaitCanvas page revision \<Rightarrow>
            (case answer of
               Inl e \<Rightarrow> pumpThumbnails p (pump_threw upper e revision s)
             | Inr _ \<Rightarrow>
                 if \<not> still_asked page revision s then pumpThumbnails p s
                 else s\<lparr>rn_thumbnailPump := Some (p\<lparr>pu_stage := AwaitBlob page revision\<rparr>)\<rparr>)
        | AwaitBlob page revision \<Rightarrow>
            (case answer of
               Inl e \<Rightarrow> pumpThumbnails p (pump_threw upper e revision s)
             | Inr _ \<Rightarrow>
                 if \<not> still_asked page revision s then pumpThumbnails p s
                 else pumpThumbnails p (s\<lparr>rn_made := rn_made s + 1, rn_live := rn_live s @ [rn_made s],
                        rn_thumbs := jm_set (rn_thumbs s) (e_id page) (rn_made s)\<rparr>))
        | PumpReturned \<Rightarrow> s))"

definition pump_finished :: "PageRenderer \<Rightarrow> PageRenderer" where
  "pump_finished s = (case rn_thumbnailPump s of
     Some p \<Rightarrow> if pu_stage p = PumpReturned then s\<lparr>rn_thumbnailPump := None\<rparr> else s
   | None \<Rightarrow> s)"

definition revokeThumbnails :: "PageRenderer \<Rightarrow> PageRenderer" where
  "revokeThumbnails s = (revoke (map snd (rn_thumbs s)) s)\<lparr>rn_thumbs := []\<rparr>"

definition destroy_renderer :: "PageRenderer \<Rightarrow> PageRenderer" where
  "destroy_renderer s =
     (let s = cancelPdfPreview (s\<lparr>rn_destroyed := True\<rparr>);
          s = s\<lparr>rn_thumbnailRevision := rn_thumbnailRevision s + 1, rn_thumbnailRequest := None\<rparr>;
          s = (close_documents (map snd (rn_pdfTasks s)) s)\<lparr>rn_pdfTasks := []\<rparr>
      in revokeThumbnails (releaseDisplayRaster s))"

section \<open>The renderer as a state machine\<close>

datatype render_event =
    ViewChanged PageRendererView | SourceCanvas PageEdit | CanvasSettled nat bool
  | RenderPdfPreview | PreviewSettled nat | CancelPdfPreview
  | SelectedRaster PageEdit ImportAsset | RasterAnswered nat "(nat \<times> nat) option" | RasterTaken nat
  | KeepRasterFor jstring | ReleaseRaster | DropThumbnail jstring
  | RenderThumbnails "(rect \<times> (jstring \<times> rect) list) option" | PumpAnswered "(CanvasError, unit) result"
  | PumpFinished | DestroyRenderer

fun render_step :: "(jstring \<Rightarrow> jstring) \<Rightarrow> render_event \<Rightarrow> PageRenderer \<Rightarrow> PageRenderer" where
  "render_step upper (ViewChanged v) s = s\<lparr>rn_view := v\<rparr>"
| "render_step upper (SourceCanvas page) s = sourceCanvas page s"
| "render_step upper (CanvasSettled i drawn) s = canvas_settled i drawn s"
| "render_step upper RenderPdfPreview s = renderPdfPreview s"
| "render_step upper (PreviewSettled t) s = preview_settled t s"
| "render_step upper CancelPdfPreview s = cancelPdfPreview s"
| "render_step upper (SelectedRaster page source) s = snd (selectedDisplayRaster page source s)"
| "render_step upper (RasterAnswered p answer) s = raster_answered p answer s"
| "render_step upper (RasterTaken p) s = raster_taken p s"
| "render_step upper (KeepRasterFor key) s = keepDisplayRasterFor key s"
| "render_step upper ReleaseRaster s = releaseDisplayRaster s"
| "render_step upper (DropThumbnail i) s = dropThumbnail i s"
| "render_step upper (RenderThumbnails container) s = renderThumbnails container s"
| "render_step upper (PumpAnswered answer) s = pump_answered upper answer s"
| "render_step upper PumpFinished s = pump_finished s"
| "render_step upper DestroyRenderer s = destroy_renderer s"

end
