(* ===== verification/RenderingProps.thy ===== *)
theory RenderingProps
  imports Rendering Machines
begin

text \<open>
  Properties of the Prepare page's renderer: each object URL is held by something that will revoke
  it, documents are closed but not while a canvas is drawn from them, thumbnails are of pages asked
  for, and the thumbnail pump ends.
\<close>

section \<open>Object URLs\<close>

definition made_urls :: "PageRenderer \<Rightarrow> nat list" where
  "made_urls s = concat (map (\<lambda>l. case ld_made l of None \<Rightarrow> [] | Some r \<Rightarrow> [dp_url r]) (rn_loads s))"

definition raster_urls :: "PageRenderer \<Rightarrow> nat list" where
  "raster_urls s = (case rn_displayRaster s of None \<Rightarrow> [] | Some r \<Rightarrow> [dp_url r])"

definition held_urls :: "PageRenderer \<Rightarrow> nat list" where
  "held_urls s = map snd (rn_thumbs s) @ raster_urls s @ made_urls s"

definition loads_ok :: "PageRenderer \<Rightarrow> bool" where
  "loads_ok s \<longleftrightarrow> distinct (map ld_promise (rn_loads s)) \<and> list_all (\<lambda>l. ld_promise l < rn_made s) (rn_loads s) \<and>
     (rn_displayRasterLoad s \<noteq> None \<longrightarrow> rn_displayRaster s = None) \<and>
     list_all (\<lambda>l. ld_aborted l \<or> map_option snd (rn_displayRasterLoad s) = Some (ld_promise l)) (rn_loads s)"

definition urls_ok :: "PageRenderer \<Rightarrow> bool" where
  "urls_ok s \<longleftrightarrow> distinct (rn_live s) \<and> list_all (\<lambda>u. u < rn_made s) (rn_live s) \<and>
     mset (rn_live s) = mset (held_urls s) \<and> jm_ok (rn_thumbs s) \<and> loads_ok s \<and>
     (rn_destroyed s \<longrightarrow> rn_thumbs s = [] \<and> rn_displayRaster s = None)"

lemma mset_remove_all: "mset (fold remove1 us xs) = mset xs - mset us"
  by (induction us arbitrary: xs) (simp_all add: diff_union_swap2 flip: add_mset_add_single)

lemma remove_all_distinct: "distinct xs \<Longrightarrow> distinct (fold remove1 us xs)"
  by (induction us arbitrary: xs) simp_all

lemma remove_all_subset: "set (fold remove1 us xs) \<subseteq> set xs"
  by (induction us arbitrary: xs) (auto dest: in_set_remove1 [THEN iffD1] set_remove1_subset [THEN subsetD])

text \<open>What the other parts leave alone: they only give out numbers.\<close>

definition url_part :: "PageRenderer \<Rightarrow> _" where
  "url_part s = (rn_live s, rn_thumbs s, rn_displayRaster s, rn_displayRasterLoad s, rn_loads s, rn_destroyed s)"

lemma urls_frame:
  assumes "urls_ok s" and "url_part t = url_part s" and "rn_made s \<le> rn_made t"
  shows "urls_ok t"
proof -
  have "made_urls t = made_urls s" "raster_urls t = raster_urls s"
    using assms(2) by (simp_all add: url_part_def made_urls_def raster_urls_def)
  then show ?thesis
    using assms by (auto simp: urls_ok_def loads_ok_def held_urls_def url_part_def list_all_iff)
qed

text \<open>Revoking what is no longer held.\<close>

lemma urls_revoked:
  assumes "urls_ok s" and "mset (held_urls s) = mset us + mset (held_urls t)"
    and "rn_live t = fold remove1 us (rn_live s)" and "rn_made t = rn_made s" and "jm_ok (rn_thumbs t)" and "loads_ok t"
    and "rn_destroyed t \<longrightarrow> rn_thumbs t = [] \<and> rn_displayRaster t = None"
  shows "urls_ok t"
proof -
  have "mset (rn_live t) = mset (held_urls t)" using assms(1,2,3) by (simp add: urls_ok_def mset_remove_all)
  moreover have "distinct (rn_live t)" using assms(1,3) by (simp add: urls_ok_def remove_all_distinct)
  moreover have "list_all (\<lambda>u. u < rn_made t) (rn_live t)"
    using assms(1,3,4) remove_all_subset [of us "rn_live s"] by (auto simp: urls_ok_def list_all_iff)
  ultimately show ?thesis using assms(5,6,7) by (simp add: urls_ok_def)
qed

lemma close_frame [simp]:
  "url_part (close_documents ts s) = url_part s" "rn_made (close_documents ts s) = rn_made s"
  "rn_pdfTasks (close_documents ts s) = rn_pdfTasks s" "rn_users (close_documents ts s) = rn_users s"
  "rn_canvases (close_documents ts s) = rn_canvases s" "rn_previews (close_documents ts s) = rn_previews s"
  "rn_open (close_documents ts s) = filter (\<lambda>t. t \<notin> set ts) (rn_open s)"
  "rn_thumbs (close_documents ts s) = rn_thumbs s" "rn_thumbnailRequest (close_documents ts s) = rn_thumbnailRequest s"
  "rn_destroyed (close_documents ts s) = rn_destroyed s" "rn_thumbnailPump (close_documents ts s) = rn_thumbnailPump s"
  "rn_view (close_documents ts s) = rn_view s" "rn_previewTask (close_documents ts s) = rn_previewTask s"
  "rn_thumbnailRevision (close_documents ts s) = rn_thumbnailRevision s"
  by (simp_all add: close_documents_def url_part_def)

lemma part_updates [simp]:
  "url_part (s\<lparr>rn_pdfTasks := a\<rparr>) = url_part s" "url_part (s\<lparr>rn_users := b\<rparr>) = url_part s"
  "url_part (s\<lparr>rn_canvases := c\<rparr>) = url_part s" "url_part (s\<lparr>rn_made := d\<rparr>) = url_part s"
  "url_part (s\<lparr>rn_open := e\<rparr>) = url_part s" "url_part (s\<lparr>rn_previewTask := f\<rparr>) = url_part s"
  "url_part (s\<lparr>rn_previews := g\<rparr>) = url_part s" "url_part (s\<lparr>rn_view := h\<rparr>) = url_part s"
  "url_part (s\<lparr>rn_thumbnailPump := i\<rparr>) = url_part s" "url_part (s\<lparr>rn_thumbnailRequest := j\<rparr>) = url_part s"
  "url_part (s\<lparr>rn_thumbnailRevision := k\<rparr>) = url_part s"
  by (simp_all add: url_part_def)

lemma close_unused_frame [simp]:
  "url_part (close_unused es s) = url_part s" "rn_made (close_unused es s) = rn_made s"
  "rn_thumbs (close_unused es s) = rn_thumbs s" "rn_thumbnailRequest (close_unused es s) = rn_thumbnailRequest s"
  "rn_destroyed (close_unused es s) = rn_destroyed s" "rn_users (close_unused es s) = rn_users s"
  "rn_canvases (close_unused es s) = rn_canvases s" "rn_previews (close_unused es s) = rn_previews s"
  by (induction es s rule: close_unused.induct) simp_all

lemma source_canvas_part: "url_part (sourceCanvas page s) = url_part s \<and> rn_made s \<le> rn_made (sourceCanvas page s)"
  by (simp add: sourceCanvas_def open_document_def Let_def split: option.split)

lemma document_steps_part:
  "url_part (canvas_settled i drawn s) = url_part s \<and> rn_made (canvas_settled i drawn s) = rn_made s"
  "url_part (renderPdfPreview s) = url_part s \<and> rn_made s \<le> rn_made (renderPdfPreview s)"
  "url_part (preview_settled t s) = url_part s \<and> rn_made (preview_settled t s) = rn_made s"
  "url_part (cancelPdfPreview s) = url_part s \<and> rn_made (cancelPdfPreview s) = rn_made s"
  by (simp_all add: canvas_settled_def renderPdfPreview_def open_document_def preview_settled_def cancelPdfPreview_def Let_def
      split: option.split)

section \<open>Loads of the selected photo\<close>

lemma made_urls_simps:
  "made_urls (s\<lparr>rn_loads := ls\<rparr>) = concat (map (\<lambda>l. case ld_made l of None \<Rightarrow> [] | Some r \<Rightarrow> [dp_url r]) ls)"
  by (simp add: made_urls_def)

lemma release_urls:
  assumes "urls_ok s"
  shows "urls_ok (releaseDisplayRaster s)" and "rn_displayRaster (releaseDisplayRaster s) = None"
    and "rn_displayRasterLoad (releaseDisplayRaster s) = None" and "rn_thumbs (releaseDisplayRaster s) = rn_thumbs s"
    and "rn_destroyed (releaseDisplayRaster s) = rn_destroyed s" and "rn_made (releaseDisplayRaster s) = rn_made s"
proof -
  show fields: "rn_displayRaster (releaseDisplayRaster s) = None" "rn_displayRasterLoad (releaseDisplayRaster s) = None"
    "rn_thumbs (releaseDisplayRaster s) = rn_thumbs s" "rn_destroyed (releaseDisplayRaster s) = rn_destroyed s"
    "rn_made (releaseDisplayRaster s) = rn_made s"
    by (simp_all add: releaseDisplayRaster_def revoke_def Let_def split: option.split)
  let ?t = "releaseDisplayRaster s"
  have made: "made_urls ?t = made_urls s"
    by (simp add: releaseDisplayRaster_def revoke_def Let_def made_urls_def comp_def split: option.split)
  have all: "rn_loads ?t = map (\<lambda>l. l\<lparr>ld_aborted := ld_aborted l \<or>
      map_option snd (rn_displayRasterLoad s) = Some (ld_promise l)\<rparr>) (rn_loads s)"
    by (simp add: releaseDisplayRaster_def revoke_def Let_def split: option.split)
  have parts: "distinct (map ld_promise (rn_loads s))" "list_all (\<lambda>l. ld_promise l < rn_made s) (rn_loads s)"
    "list_all (\<lambda>l. ld_aborted l \<or> map_option snd (rn_displayRasterLoad s) = Some (ld_promise l)) (rn_loads s)"
    using assms by (simp_all add: urls_ok_def loads_ok_def)
  have loads: "loads_ok ?t"
    unfolding loads_ok_def all fields using parts by (simp add: comp_def list_all_length)
  show "urls_ok ?t"
  proof (rule urls_revoked [OF assms, where us = "raster_urls s"])
    show "mset (held_urls s) = mset (raster_urls s) + mset (held_urls ?t)"
      using made \<open>rn_displayRaster ?t = None\<close> \<open>rn_thumbs ?t = rn_thumbs s\<close> by (simp add: held_urls_def raster_urls_def)
    show "rn_live ?t = fold remove1 (raster_urls s) (rn_live s)"
      by (simp add: releaseDisplayRaster_def revoke_def raster_urls_def Let_def split: option.split)
  qed (use assms loads in \<open>simp_all add: urls_ok_def fields\<close>)
qed

lemma selected_urls: "urls_ok s \<Longrightarrow> urls_ok (snd (selectedDisplayRaster page source s))"
proof -
  assume ok: "urls_ok s"
  define t where "t = releaseDisplayRaster s"
  note r = release_urls [OF ok, folded t_def]
  let ?l = "\<lparr>ld_promise = rn_made t, ld_key = raster_key page source, ld_source = (rv_sources (rn_view t), source),
     ld_page = e_page page, ld_aborted = False, ld_made = None\<rparr>"
  let ?u = "t\<lparr>rn_made := rn_made t + 1, rn_displayRasterLoad := Some (raster_key page source, rn_made t), rn_loads := rn_loads t @ [?l]\<rparr>"
  have "held_urls ?u = held_urls t" by (simp add: held_urls_def raster_urls_def made_urls_def)
  moreover have "loads_ok ?u"
    using r(1,2,3) by (auto simp: urls_ok_def loads_ok_def list_all_iff less_Suc_eq)
  ultimately have "urls_ok ?u" using r(1) by (simp add: urls_ok_def list_all_iff less_Suc_eq)
  moreover have "snd (selectedDisplayRaster page source s) = ?u \<or> snd (selectedDisplayRaster page source s) = s"
    unfolding selectedDisplayRaster_def Let_def t_def [symmetric] by (auto split: option.split)
  ultimately show ?thesis using ok by metis
qed

lemma find_load_Some: "find_load p s = Some l \<Longrightarrow> l \<in> set (rn_loads s) \<and> ld_promise l = p"
  unfolding find_load_def by (rule find_Some_in)

lemma loads_split:
  assumes "find_load p s = Some l" and "distinct (map ld_promise (rn_loads s))"
  shows "\<exists>before after. rn_loads s = before @ l # after \<and> (\<forall>k \<in> set before \<union> set after. ld_promise k \<noteq> p)"
proof -
  from find_load_Some [OF assms(1)] obtain before after where split: "rn_loads s = before @ l # after" and p: "ld_promise l = p"
    by (meson split_list)
  from assms(2) have "ld_promise l \<notin> ld_promise ` (set before \<union> set after)"
    unfolding image_Un Un_iff by (simp add: split)
  then have "\<forall>k \<in> set before \<union> set after. ld_promise k \<noteq> p" unfolding p by (metis image_eqI)
  with split show ?thesis by blast
qed

lemma forget_loads_ok: "loads_ok s \<Longrightarrow> loads_ok (forget_load p s)"
  unfolding loads_ok_def forget_load_def by (simp add: distinct_map_filter list_all_iff) fastforce

text \<open>A load that is over holds at most the URL it made.\<close>

lemma forget_urls:
  assumes "find_load p s = Some l" and "distinct (map ld_promise (rn_loads s))"
  shows "mset (made_urls s) = mset (case ld_made l of None \<Rightarrow> [] | Some r \<Rightarrow> [dp_url r]) + mset (made_urls (forget_load p s))"
proof -
  from loads_split [OF assms] obtain before after where
    split: "rn_loads s = before @ l # after" and others: "\<forall>k \<in> set before \<union> set after. ld_promise k \<noteq> p" by blast
  have "filter (\<lambda>k. ld_promise k \<noteq> p) (rn_loads s) = before @ after"
    unfolding split using others find_load_Some [OF assms(1)] by (simp add: filter_id_conv)
  then have "rn_loads (forget_load p s) = before @ after" by (simp add: forget_load_def)
  then show ?thesis by (simp add: made_urls_def split)
qed

lemma answered_urls:
  assumes "urls_ok s"
  shows "urls_ok (raster_answered p answer s)"
proof (cases "find_load p s")
  case None
  with assms show ?thesis by (simp add: raster_answered_def)
next
  case (Some l)
  have promises: "distinct (map ld_promise (rn_loads s))" using assms by (simp add: urls_ok_def loads_ok_def)
  from loads_split [OF Some this] obtain before after where
    split: "rn_loads s = before @ l # after" and others: "\<forall>k \<in> set before \<union> set after. ld_promise k \<noteq> p" by blast
  have p: "ld_promise l = p" using find_load_Some [OF Some] by simp
  show ?thesis
  proof (cases "ld_made l = None")
    case False
    with assms Some show ?thesis by (simp add: raster_answered_def)
  next
    case made: True
    show ?thesis
    proof (cases answer)
      case None
      have "mset (held_urls (forget_load p s)) = mset (held_urls s)"
        using forget_urls [OF Some promises] made
        by (simp add: held_urls_def raster_urls_def forget_load_def)
      moreover have "loads_ok (forget_load p s)" using assms by (simp add: urls_ok_def forget_loads_ok)
      ultimately have "urls_ok (forget_load p s)" using assms by (simp add: urls_ok_def) (simp add: forget_load_def)
      with Some made None show ?thesis by (simp add: raster_answered_def)
    next
      case (Some size)
      obtain w h where size: "size = (w, h)" by fastforce
      define r where "r = \<lparr>dp_key = ld_key l, dp_url = rn_made s, dp_width = fst (display_size w h), dp_height = snd (display_size w h)\<rparr>"
      have others': "map (\<lambda>k. if ld_promise k = p then k\<lparr>ld_made := Some r\<rparr> else k) (rn_loads s) =
          before @ l\<lparr>ld_made := Some r\<rparr> # after"
        unfolding split using others by (simp add: p map_idI)
      define t where "t = s\<lparr>rn_made := rn_made s + 1, rn_live := rn_live s @ [rn_made s], rn_loads := before @ l\<lparr>ld_made := Some r\<rparr> # after\<rparr>"
      have t: "raster_answered p answer s = t"
        using \<open>find_load p s = Some l\<close> made Some
        by (simp add: raster_answered_def size Let_def t_def others' [unfolded r_def]) (simp add: r_def)
      have "mset (held_urls t) = add_mset (rn_made s) (mset (held_urls s))"
        using made by (simp add: t_def held_urls_def raster_urls_def made_urls_def split r_def)
      moreover have "loads_ok t" using assms by (auto simp: urls_ok_def loads_ok_def t_def split list_all_iff less_Suc_eq)
      ultimately have "urls_ok t" using assms by (auto simp: urls_ok_def t_def list_all_iff less_Suc_eq)
      then show ?thesis by (simp add: t)
    qed
  qed
qed

text \<open>The guard on a run: a load given up is not taken for a page that was selected again.\<close>

definition raster_in_time :: "PageRenderer \<Rightarrow> render_event \<Rightarrow> bool" where
  "raster_in_time s e \<longleftrightarrow> (case e of
     RasterTaken p \<Rightarrow> (case find_load p s of None \<Rightarrow> True | Some l \<Rightarrow> \<not> (ld_aborted l \<and> still_shown l s))
   | _ \<Rightarrow> True)"

lemma taken_urls:
  assumes "urls_ok s" and "raster_in_time s (RasterTaken p)"
  shows "urls_ok (raster_taken p s)"
proof (cases "find_load p s")
  case None
  with assms show ?thesis by (simp add: raster_taken_def)
next
  case (Some l)
  show ?thesis
  proof (cases "ld_made l")
    case None
    with assms Some show ?thesis by (simp add: raster_taken_def)
  next
    case made: (Some r)
    have loads: "loads_ok s" "distinct (map ld_promise (rn_loads s))" using assms(1) by (simp_all add: urls_ok_def loads_ok_def)
    have gone: "mset (made_urls s) = add_mset (dp_url r) (mset (made_urls (forget_load p s)))"
      using forget_urls [OF Some loads(2)] made by simp
    show ?thesis
    proof (cases "still_shown l s")
      case False
      have t: "raster_taken p s = forget_load p (revoke [dp_url r] s)" using Some made False by (simp add: raster_taken_def)
      have parts: "rn_thumbs (forget_load p (revoke [dp_url r] s)) = rn_thumbs s"
        "raster_urls (forget_load p (revoke [dp_url r] s)) = raster_urls s"
        "made_urls (forget_load p (revoke [dp_url r] s)) = made_urls (forget_load p s)"
        "loads_ok (forget_load p (revoke [dp_url r] s)) = loads_ok (forget_load p s)"
        by (simp_all add: forget_load_def revoke_def raster_urls_def made_urls_def loads_ok_def)
      show ?thesis
        unfolding t
      proof (rule urls_revoked [OF assms(1), where us = "[dp_url r]"])
        show "mset (held_urls s) = mset [dp_url r] + mset (held_urls (forget_load p (revoke [dp_url r] s)))"
          using gone by (simp add: held_urls_def parts)
      qed (use assms(1) forget_loads_ok [OF loads(1)] in \<open>simp_all add: parts urls_ok_def\<close>,
          simp_all add: forget_load_def revoke_def)
    next
      case True
      have current: "map_option snd (rn_displayRasterLoad s) = Some p"
        using loads(1) assms(2) True Some find_load_Some [OF Some]
        by (auto simp: loads_ok_def raster_in_time_def list_all_iff)
      then have free: "rn_displayRaster s = None" using loads(1) by (auto simp: loads_ok_def)
      define t where "t = forget_load p (s\<lparr>rn_displayRaster := Some r\<rparr>)"
      have t: "raster_taken p s = t" using Some made True by (simp add: raster_taken_def t_def)
      have "mset (held_urls t) = mset (held_urls s)"
        using gone free by (simp add: held_urls_def t_def forget_load_def raster_urls_def made_urls_def)
      moreover have "loads_ok t"
        using forget_loads_ok [OF loads(1), of p] current by (simp add: t_def loads_ok_def forget_load_def)
      ultimately show ?thesis
        using assms(1) True unfolding t urls_ok_def by (simp add: t_def forget_load_def still_shown_def)
    qed
  qed
qed

section \<open>URLs of thumbnails\<close>

lemma drop_urls:
  assumes "urls_ok s"
  shows "urls_ok (dropThumbnail i s)"
proof -
  have ok: "jm_ok (rn_thumbs s)" using assms by (simp add: urls_ok_def)
  define us where "us = (case jm_get (rn_thumbs s) i of None \<Rightarrow> [] | Some u \<Rightarrow> [u])"
  have t: "dropThumbnail i s = s\<lparr>rn_live := fold remove1 us (rn_live s), rn_thumbs := jm_delete (rn_thumbs s) i\<rparr>"
    by (simp add: dropThumbnail_def revoke_def us_def split: option.split)
  have removed: "mset (map snd m) = mset (case jm_get m i of None \<Rightarrow> [] | Some u \<Rightarrow> [u]) + mset (map snd (jm_delete m i))"
    if "jm_ok m" for m :: "(jstring, nat) js_map"
    using that
  proof (induction m)
    case (Cons e m)
    then show ?case
      by (cases e) (auto simp: jm_ok_def jm_get_def jm_delete_def filter_id_conv rev_image_eqI split: option.split)
  qed simp
  show ?thesis
    unfolding t
  proof (rule urls_revoked [OF assms, where us = us])
    show "mset (held_urls s) = mset us + mset (held_urls (s\<lparr>rn_live := fold remove1 us (rn_live s), rn_thumbs := jm_delete (rn_thumbs s) i\<rparr>))"
      using removed [OF ok] by (simp add: held_urls_def us_def raster_urls_def made_urls_def)
  qed (use assms ok in \<open>simp_all add: urls_ok_def loads_ok_def jm.invar_remove\<close>)
qed

lemma filter_urls:
  assumes "urls_ok s"
  shows "urls_ok ((revoke (map snd (filter (\<lambda>x. \<not> P x) (rn_thumbs s))) s)\<lparr>rn_thumbs := filter P (rn_thumbs s)\<rparr>)"
proof (rule urls_revoked [OF assms, where us = "map snd (filter (\<lambda>x. \<not> P x) (rn_thumbs s))"])
  have "mset (map snd m) = mset (map snd (filter (\<lambda>x. \<not> P x) m)) + mset (map snd (filter P m))" for m :: "(jstring, nat) js_map"
    by (induction m) simp_all
  from this [of "rn_thumbs s"]
  show "mset (held_urls s) = mset (map snd (filter (\<lambda>x. \<not> P x) (rn_thumbs s))) +
      mset (held_urls ((revoke (map snd (filter (\<lambda>x. \<not> P x) (rn_thumbs s))) s)\<lparr>rn_thumbs := filter P (rn_thumbs s)\<rparr>))"
    by (simp add: held_urls_def raster_urls_def made_urls_def revoke_def)
qed (use assms in \<open>simp_all add: urls_ok_def loads_ok_def revoke_def jm_ok_def distinct_map_filter\<close>)

lemma revoke_thumbnails_urls: "urls_ok s \<Longrightarrow> urls_ok (revokeThumbnails s)"
  using filter_urls [of s "\<lambda>_. False"] by (simp add: revokeThumbnails_def)

lemma thumbnail_canvas_urls: "urls_ok s \<Longrightarrow> urls_ok (thumbnailCanvas page s)"
  using urls_frame [of s "sourceCanvas page s"] source_canvas_part [of page s] selected_urls [of s page]
  by (auto simp: thumbnailCanvas_def split: option.split)

lemma pump_urls: "urls_ok s \<Longrightarrow> urls_ok (pumpThumbnails p s)"
proof -
  assume ok: "urls_ok s"
  have same: "urls_ok (t\<lparr>rn_thumbnailPump := x\<rparr>)" if "urls_ok t" for t x
    by (rule urls_frame [OF that]) simp_all
  from ok show ?thesis
    by (auto simp: pumpThumbnails_def pump_returned_def Let_def intro: same thumbnail_canvas_urls split: option.split)
qed

text \<open>The pump waits for a page that has no thumbnail; thumbnails are of pages asked for.\<close>

definition pump_free :: "PageRenderer \<Rightarrow> bool" where
  "pump_free s \<longleftrightarrow> (case rn_thumbnailPump s of None \<Rightarrow> True | Some p \<Rightarrow> (case pu_stage p of
     AwaitCanvas page _ \<Rightarrow> jm_get (rn_thumbs s) (e_id page) = None
   | AwaitBlob page _ \<Rightarrow> jm_get (rn_thumbs s) (e_id page) = None
   | PumpReturned \<Rightarrow> True))"

lemma answer_pump_urls:
  assumes "urls_ok s" and "pump_free s"
  shows "urls_ok (pump_answered upper answer s)"
proof -
  have threw: "urls_ok (pump_threw upper e revision s)" for e revision
    by (rule urls_frame [OF assms(1)]) (simp_all add: pump_threw_def split: CanvasError.split)
  have added: "urls_ok (s\<lparr>rn_made := rn_made s + 1, rn_live := rn_live s @ [rn_made s], rn_thumbs := jm_set (rn_thumbs s) i (rn_made s)\<rparr>)"
    if "jm_get (rn_thumbs s) i = None" "\<not> rn_destroyed s" for i
    using that assms jm.invar_update [of "rn_thumbs s" i "rn_made s"]
    by (auto simp: urls_ok_def held_urls_def raster_urls_def made_urls_def loads_ok_def jm_set_absent list_all_iff less_Suc_eq)
  have "urls_ok (s\<lparr>rn_thumbnailPump := x\<rparr>)" for x by (rule urls_frame [OF assms(1)]) simp_all
  then show ?thesis
    using assms
    by (auto simp: pump_answered_def pump_free_def still_asked_def simp flip: Suc_eq_plus1
        intro: pump_urls threw added [unfolded Suc_eq_plus1 [symmetric]] split: option.splits PumpStage.splits sum.split)
qed

section \<open>Thumbnails of pages asked for\<close>

definition thumbs_listed :: "PageRenderer \<Rightarrow> bool" where
  "thumbs_listed s \<longleftrightarrow> (case rn_thumbnailRequest s of
     None \<Rightarrow> rn_thumbs s = [] | Some r \<Rightarrow> fst ` set (rn_thumbs s) \<subseteq> set (tr_ids r))"

definition thumbs_ok :: "PageRenderer \<Rightarrow> bool" where
  "thumbs_ok s \<longleftrightarrow> jm_ok (rn_thumbs s) \<and> pump_free s \<and> thumbs_listed s"

definition thumb_part :: "PageRenderer \<Rightarrow> _" where
  "thumb_part s = (rn_thumbs s, rn_thumbnailPump s, rn_thumbnailRequest s)"

lemma thumbs_frame:
  assumes "thumbs_ok s" and "thumb_part t = thumb_part s"
  shows "thumbs_ok t"
proof -
  have "rn_thumbs t = rn_thumbs s" "rn_thumbnailPump t = rn_thumbnailPump s" "rn_thumbnailRequest t = rn_thumbnailRequest s"
    using assms(2) by (simp_all add: thumb_part_def)
  note same = this
  show ?thesis using assms(1) unfolding thumbs_ok_def thumbs_listed_def pump_free_def same .
qed

lemma thumb_updates [simp]:
  "thumb_part (s\<lparr>rn_pdfTasks := a\<rparr>) = thumb_part s" "thumb_part (s\<lparr>rn_users := b\<rparr>) = thumb_part s"
  "thumb_part (s\<lparr>rn_canvases := c\<rparr>) = thumb_part s" "thumb_part (s\<lparr>rn_made := d\<rparr>) = thumb_part s"
  "thumb_part (s\<lparr>rn_open := e\<rparr>) = thumb_part s" "thumb_part (s\<lparr>rn_previewTask := f\<rparr>) = thumb_part s"
  "thumb_part (s\<lparr>rn_previews := g\<rparr>) = thumb_part s" "thumb_part (s\<lparr>rn_view := h\<rparr>) = thumb_part s"
  "thumb_part (s\<lparr>rn_live := i\<rparr>) = thumb_part s" "thumb_part (s\<lparr>rn_loads := j\<rparr>) = thumb_part s"
  "thumb_part (s\<lparr>rn_displayRaster := k\<rparr>) = thumb_part s" "thumb_part (s\<lparr>rn_displayRasterLoad := l\<rparr>) = thumb_part s"
  "thumb_part (close_documents ts s) = thumb_part s" "thumb_part (revoke us s) = thumb_part s"
  by (simp_all add: thumb_part_def close_documents_def revoke_def)

lemma close_unused_thumb_part [simp]: "thumb_part (close_unused es s) = thumb_part s"
  by (induction es s rule: close_unused.induct) simp_all

lemma steps_thumb_part:
  "thumb_part (sourceCanvas page s) = thumb_part s" "thumb_part (canvas_settled i drawn s) = thumb_part s"
  "thumb_part (renderPdfPreview s) = thumb_part s" "thumb_part (preview_settled t s) = thumb_part s"
  "thumb_part (cancelPdfPreview s) = thumb_part s" "thumb_part (releaseDisplayRaster s) = thumb_part s"
  "thumb_part (raster_answered q answer s) = thumb_part s" "thumb_part (raster_taken q s) = thumb_part s"
  by (simp_all add: sourceCanvas_def canvas_settled_def renderPdfPreview_def preview_settled_def cancelPdfPreview_def
      releaseDisplayRaster_def raster_answered_def raster_taken_def forget_load_def open_document_def Let_def split: option.split)

lemma selected_thumb_part: "thumb_part (snd (selectedDisplayRaster page source s)) = thumb_part s"
  by (simp add: selectedDisplayRaster_def Let_def steps_thumb_part split: option.split)

lemma canvas_thumb_part: "thumb_part (thumbnailCanvas page s) = thumb_part s"
  by (simp add: thumbnailCanvas_def steps_thumb_part selected_thumb_part split: option.split)

lemma canvas_thumbs [simp]:
  "rn_thumbs (thumbnailCanvas page s) = rn_thumbs s" "rn_thumbnailRequest (thumbnailCanvas page s) = rn_thumbnailRequest s"
  using canvas_thumb_part [of page s] by (simp_all add: thumb_part_def)

lemma pump_keeps [simp]:
  "rn_thumbs (pumpThumbnails p s) = rn_thumbs s" "rn_thumbnailRequest (pumpThumbnails p s) = rn_thumbnailRequest s"
  by (simp_all add: pumpThumbnails_def pump_returned_def Let_def split: option.split)

lemma pump_free_pump [simp]: "pump_free (pumpThumbnails p s)"
proof -
  have free: "jm_get (rn_thumbs s) (e_id page) = None" if "next_page attempted s pages = Some page" for attempted pages page
    using find_Some_in [OF that [unfolded next_page_def]] by simp
  have returned: "pump_free (pump_returned q s)" for q by (simp add: pump_free_def pump_returned_def)
  show ?thesis
  proof (cases "rn_destroyed s \<or> rn_thumbnailRequest s = None")
    case True
    then show ?thesis by (auto simp: pumpThumbnails_def returned)
  next
    case False
    then obtain request where request: "\<not> rn_destroyed s" "rn_thumbnailRequest s = Some request" by auto
    define attempted where "attempted = (if pu_attemptedRevision p = Some (tr_revision request) then pu_attempted p else [])"
    show ?thesis
    proof (cases "next_page attempted s (tr_pages request)")
      case None
      with request show ?thesis by (simp add: pumpThumbnails_def Let_def attempted_def [symmetric] returned)
    next
      case (Some page)
      with request free [OF Some] show ?thesis
        by (simp add: pumpThumbnails_def Let_def attempted_def [symmetric]) (simp add: pump_free_def)
    qed
  qed
qed

lemma pump_thumbs: "jm_ok (rn_thumbs s) \<Longrightarrow> thumbs_listed s \<Longrightarrow> thumbs_ok (pumpThumbnails p s)"
  unfolding thumbs_ok_def thumbs_listed_def pump_keeps by simp

lemma listed_pump [simp]: "thumbs_listed (s\<lparr>rn_thumbnailPump := x\<rparr>) = thumbs_listed s"
  by (cases "rn_thumbnailRequest s") (simp_all add: thumbs_listed_def)

lemma free_fewer:
  assumes "pump_free s" and "rn_thumbnailPump t = rn_thumbnailPump s"
    and "\<And>i. jm_get (rn_thumbs s) i = None \<Longrightarrow> jm_get (rn_thumbs t) i = None"
  shows "pump_free t"
proof (cases "rn_thumbnailPump s")
  case (Some p)
  with assms show ?thesis by (cases "pu_stage p") (simp_all add: pump_free_def)
qed (simp add: pump_free_def assms(2))

lemma listed_filter:
  assumes "thumbs_listed s" and "rn_thumbs t = filter P (rn_thumbs s)" and "rn_thumbnailRequest t = rn_thumbnailRequest s"
  shows "thumbs_listed t"
proof -
  have "fst ` set (rn_thumbs t) \<subseteq> fst ` set (rn_thumbs s)" unfolding assms(2) by auto
  moreover have "rn_thumbs s = [] \<Longrightarrow> rn_thumbs t = []" by (simp add: assms(2))
  ultimately show ?thesis
    using assms(1) unfolding thumbs_listed_def assms(3) by (cases "rn_thumbnailRequest s") simp_all
qed

lemma drop_thumbs: "thumbs_ok s \<Longrightarrow> thumbs_ok (dropThumbnail i s)"
proof -
  assume ok: "thumbs_ok s"
  have t: "rn_thumbs (dropThumbnail i s) = jm_delete (rn_thumbs s) i" "rn_thumbnailPump (dropThumbnail i s) = rn_thumbnailPump s"
    "rn_thumbnailRequest (dropThumbnail i s) = rn_thumbnailRequest s"
    by (simp_all add: dropThumbnail_def revoke_def Let_def split: option.split)
  have "pump_free (dropThumbnail i s)"
    using ok free_fewer [OF _ t(2)] by (simp add: thumbs_ok_def t(1) jm_get_delete)
  moreover have "thumbs_listed (dropThumbnail i s)"
    using listed_filter [OF _ _ t(3), of "\<lambda>e. fst e \<noteq> i"] ok by (simp add: thumbs_ok_def t(1) jm_delete_def)
  ultimately show ?thesis using ok jm.invar_remove [of "rn_thumbs s" i] by (simp add: thumbs_ok_def t)
qed

lemma render_thumbs: "thumbs_ok s \<Longrightarrow> thumbs_ok (renderThumbnails container s)"
proof -
  assume ok: "thumbs_ok s"
  define ids where "ids = thumbnailIDs container s"
  define pages where "pages = wanted_pages ids s"
  define u where "u = (revoke (map snd (filter (\<lambda>x. fst x \<notin> set ids) (rn_thumbs s))) s)\<lparr>rn_thumbs := filter (\<lambda>x. fst x \<in> set ids) (rn_thumbs s)\<rparr>"
  define k where "k = thumbnail_key pages u"
  define v where "v = (if map_option tr_key (rn_thumbnailRequest u) = Some k then u
     else u\<lparr>rn_thumbnailRevision := rn_thumbnailRevision u + 1,
            rn_thumbnailRequest := Some \<lparr>tr_revision = rn_thumbnailRevision u + 1, tr_key = k, tr_ids = ids, tr_pages = pages\<rparr>\<rparr>)"
  have eq: "renderThumbnails container s = (if rn_destroyed s \<or> rv_draft (rn_view s) = None then s
      else if rn_thumbnailPump v = None then pumpThumbnails new_pump v else v)"
    unfolding renderThumbnails_def Let_def ids_def pages_def u_def k_def v_def ..
  have u: "rn_thumbs u = filter (\<lambda>x. fst x \<in> set ids) (rn_thumbs s)" "rn_thumbnailRequest u = rn_thumbnailRequest s"
    "rn_thumbnailPump u = rn_thumbnailPump s"
    by (simp_all add: u_def revoke_def)
  have v: "rn_thumbs v = rn_thumbs u" "rn_thumbnailPump v = rn_thumbnailPump s" by (simp_all add: v_def u)
  have get: "jm_get (rn_thumbs u) i = None" if "jm_get (rn_thumbs s) i = None" for i
    using that by (auto simp: jm_get_None jm_keys_def u)
  have ok_u: "jm_ok (rn_thumbs v)" using ok by (simp add: v u thumbs_ok_def jm_ok_def distinct_map_filter)
  have "thumbs_listed v"
  proof (cases "map_option tr_key (rn_thumbnailRequest u) = Some k")
    case True
    then have "v = u" by (simp add: v_def)
    then show ?thesis using listed_filter [OF _ u(1,2)] ok by (simp add: thumbs_ok_def)
  next
    case False
    then show ?thesis by (auto simp: v_def thumbs_listed_def u)
  qed
  moreover have "pump_free v"
    using ok get free_fewer [OF _ v(2)] by (simp add: thumbs_ok_def v(1))
  ultimately show ?thesis using ok ok_u pump_thumbs [of v] by (simp add: eq thumbs_ok_def)
qed

lemma answer_thumbs:
  assumes "thumbs_ok s"
  shows "thumbs_ok (pump_answered upper answer s)"
proof -
  have ok: "jm_ok (rn_thumbs s)" "thumbs_listed s" using assms by (simp_all add: thumbs_ok_def)
  have threw: "thumbs_ok (pumpThumbnails p (pump_threw upper e n s))" for p e n
  proof (rule pump_thumbs)
    have "rn_thumbs (pump_threw upper e n s) = rn_thumbs s" "rn_thumbnailRequest (pump_threw upper e n s) = rn_thumbnailRequest s"
      by (simp_all add: pump_threw_def split: CanvasError.split)
    note same = this
    show "jm_ok (rn_thumbs (pump_threw upper e n s))" "thumbs_listed (pump_threw upper e n s)"
      using ok unfolding thumbs_listed_def same .
  qed
  have added: "thumbs_ok (pumpThumbnails p (s\<lparr>rn_made := m, rn_live := us, rn_thumbs := jm_set (rn_thumbs s) (e_id page) u\<rparr>))"
    if asked: "still_asked page n s" for p page n m us u
  proof (rule pump_thumbs)
    obtain r where r: "rn_thumbnailRequest s = Some r" "e_id page \<in> set (tr_ids r)"
      using asked by (auto simp: still_asked_def split: option.splits)
    have "set (jm_keys (jm_set (rn_thumbs s) (e_id page) u)) \<subseteq> insert (e_id page) (set (jm_keys (rn_thumbs s)))"
      by (simp add: jm_keys_set) blast
    moreover have "set (jm_keys (rn_thumbs s)) \<subseteq> set (tr_ids r)"
      using ok(2) r(1) by (simp add: thumbs_listed_def jm_keys_def)
    ultimately have "fst ` set (jm_set (rn_thumbs s) (e_id page) u) \<subseteq> set (tr_ids r)"
      using r(2) unfolding jm_keys_def image_set by blast
    then show "thumbs_listed (s\<lparr>rn_made := m, rn_live := us, rn_thumbs := jm_set (rn_thumbs s) (e_id page) u\<rparr>)"
      using r(1) by (simp add: thumbs_listed_def)
  qed (use ok in \<open>simp add: jm.invar_update\<close>)
  have waits: "thumbs_ok (s\<lparr>rn_thumbnailPump := Some (p\<lparr>pu_stage := AwaitBlob page n\<rparr>)\<rparr>)"
    if "rn_thumbnailPump s = Some p" "pu_stage p = AwaitCanvas page n" for p page n
    using assms that by (simp add: thumbs_ok_def) (simp add: pump_free_def)
  have pumped: "thumbs_ok (pumpThumbnails p s)" for p by (rule pump_thumbs [OF ok])
  show ?thesis
  proof (cases "rn_thumbnailPump s")
    case None
    then show ?thesis using assms by (simp add: pump_answered_def)
  next
    case (Some p)
    show ?thesis
    proof (cases "pu_stage p")
      case (AwaitCanvas page n)
      show ?thesis using waits [OF Some AwaitCanvas] threw pumped by (simp add: pump_answered_def Some AwaitCanvas split: sum.split)
    next
      case (AwaitBlob page n)
      show ?thesis using added [of page n p] threw pumped by (simp add: pump_answered_def Some AwaitBlob split: sum.split)
    next
      case PumpReturned
      then show ?thesis using assms by (simp add: pump_answered_def Some)
    qed
  qed
qed

lemma destroy_thumbs: "thumbs_ok s \<Longrightarrow> thumbs_ok (destroy_renderer s)"
proof -
  assume ok: "thumbs_ok s"
  define t where "t = destroy_renderer s"
  have t: "rn_thumbs t = []" "rn_thumbnailRequest t = None" "rn_thumbnailPump t = rn_thumbnailPump s"
    by (simp_all add: t_def destroy_renderer_def revokeThumbnails_def revoke_def releaseDisplayRaster_def cancelPdfPreview_def
        close_documents_def Let_def split: option.split)
  then have "pump_free t" using ok free_fewer [of s t] by (simp add: thumbs_ok_def)
  then have "thumbs_ok t" using t by (simp add: thumbs_ok_def thumbs_listed_def)
  then show ?thesis by (simp only: t_def)
qed

lemma finished_thumbs: "thumbs_ok s \<Longrightarrow> thumbs_ok (pump_finished s)"
proof -
  assume "thumbs_ok s"
  then have "thumbs_ok (s\<lparr>rn_thumbnailPump := None\<rparr>)" by (simp add: thumbs_ok_def) (simp add: pump_free_def)
  with \<open>thumbs_ok s\<close> show ?thesis by (simp add: pump_finished_def split: option.split)
qed

lemma render_step_thumbs: "thumbs_ok s \<Longrightarrow> thumbs_ok (render_step upper e s)"
proof (cases e)
  case (KeepRasterFor key)
  assume ok: "thumbs_ok s"
  then have "thumbs_ok (releaseDisplayRaster s)" by (rule thumbs_frame) (simp add: steps_thumb_part)
  with ok KeepRasterFor show ?thesis by (simp add: keepDisplayRasterFor_def split: option.split)
next
  case (SelectedRaster page source)
  assume "thumbs_ok s"
  then have "thumbs_ok (snd (selectedDisplayRaster page source s))" by (rule thumbs_frame) (rule selected_thumb_part)
  with SelectedRaster show ?thesis by simp
qed (auto intro: thumbs_frame drop_thumbs render_thumbs answer_thumbs destroy_thumbs finished_thumbs simp: steps_thumb_part)

interpretation thumbs: machine "render_step upper" thumbs_ok for upper
  by unfold_locales (rule render_step_thumbs)

section \<open>URLs after every step\<close>

lemma render_urls: "urls_ok s \<Longrightarrow> urls_ok (renderThumbnails container s)"
proof -
  assume ok: "urls_ok s"
  define ids where "ids = thumbnailIDs container s"
  define u where "u = (revoke (map snd (filter (\<lambda>x. fst x \<notin> set ids) (rn_thumbs s))) s)\<lparr>rn_thumbs := filter (\<lambda>x. fst x \<in> set ids) (rn_thumbs s)\<rparr>"
  define v where "v = (if map_option tr_key (rn_thumbnailRequest u) = Some (thumbnail_key (wanted_pages ids s) u) then u
     else u\<lparr>rn_thumbnailRevision := rn_thumbnailRevision u + 1,
            rn_thumbnailRequest := Some \<lparr>tr_revision = rn_thumbnailRevision u + 1, tr_key = thumbnail_key (wanted_pages ids s) u,
              tr_ids = ids, tr_pages = wanted_pages ids s\<rparr>\<rparr>)"
  have eq: "renderThumbnails container s = (if rn_destroyed s \<or> rv_draft (rn_view s) = None then s
      else if rn_thumbnailPump v = None then pumpThumbnails new_pump v else v)"
    unfolding renderThumbnails_def Let_def ids_def u_def v_def ..
  have "urls_ok u" using filter_urls [OF ok, of "\<lambda>x. fst x \<in> set ids"] by (simp add: u_def)
  then have "urls_ok v" by (rule urls_frame) (simp_all add: v_def)
  with ok pump_urls [of v new_pump] show ?thesis by (simp add: eq)
qed

lemma destroy_urls: "urls_ok s \<Longrightarrow> urls_ok (destroy_renderer s)"
proof -
  assume ok: "urls_ok s"
  define t where "t = (cancelPdfPreview (s\<lparr>rn_destroyed := True\<rparr>))\<lparr>rn_thumbnailRevision := rn_thumbnailRevision s + 1, rn_thumbnailRequest := None\<rparr>"
  define u where "u = (close_documents (map snd (rn_pdfTasks t)) t)\<lparr>rn_pdfTasks := []\<rparr>"
  have rev: "rn_thumbnailRevision (cancelPdfPreview (s\<lparr>rn_destroyed := True\<rparr>)) = rn_thumbnailRevision s"
    by (simp add: cancelPdfPreview_def split: option.split)
  have eq: "destroy_renderer s = revokeThumbnails (releaseDisplayRaster u)"
    by (simp add: destroy_renderer_def Let_def t_def u_def rev)
  define w where "w = u\<lparr>rn_destroyed := rn_destroyed s\<rparr>"
  have part: "rn_live u = rn_live s" "rn_thumbs u = rn_thumbs s" "rn_displayRaster u = rn_displayRaster s"
    "rn_displayRasterLoad u = rn_displayRasterLoad s" "rn_loads u = rn_loads s" "rn_made u = rn_made s"
    by (simp_all add: u_def t_def cancelPdfPreview_def close_documents_def split: option.split)
  have "urls_ok w" by (rule urls_frame [OF ok]) (simp_all add: w_def url_part_def part)
  from revoke_thumbnails_urls [OF release_urls(1) [OF this]] have "urls_ok (revokeThumbnails (releaseDisplayRaster w))" .
  moreover have "revokeThumbnails (releaseDisplayRaster u) = (revokeThumbnails (releaseDisplayRaster w))\<lparr>rn_destroyed := rn_destroyed u\<rparr>"
    by (simp add: w_def revokeThumbnails_def releaseDisplayRaster_def revoke_def Let_def split: option.split)
  moreover have "rn_displayRaster (revokeThumbnails (releaseDisplayRaster w)) = None" "rn_thumbs (revokeThumbnails (releaseDisplayRaster w)) = []"
    by (simp_all add: revokeThumbnails_def releaseDisplayRaster_def revoke_def Let_def split: option.split)
  ultimately show ?thesis
    unfolding eq by (simp add: urls_ok_def loads_ok_def held_urls_def raster_urls_def made_urls_def)
qed

lemma render_step_urls:
  assumes "urls_ok s \<and> thumbs_ok s" and "raster_in_time s e"
  shows "urls_ok (render_step upper e s) \<and> thumbs_ok (render_step upper e s)"
proof -
  have ok: "urls_ok s" "pump_free s" using assms(1) by (simp_all add: thumbs_ok_def)
  have "urls_ok (render_step upper e s)"
  proof (cases e)
    case (SourceCanvas page)
    then show ?thesis using urls_frame [OF ok(1)] source_canvas_part by simp
  next
    case (KeepRasterFor key)
    then show ?thesis using ok release_urls(1) by (simp add: keepDisplayRasterFor_def split: option.split)
  next
    case PumpFinished
    have "urls_ok (s\<lparr>rn_thumbnailPump := x\<rparr>)" for x by (rule urls_frame [OF ok(1)]) simp_all
    with PumpFinished ok(1) show ?thesis by (simp add: pump_finished_def split: option.split)
  next
    case (RasterTaken p)
    then show ?thesis using taken_urls [OF ok(1)] assms(2) by simp
  qed (use ok in \<open>auto intro: selected_urls answered_urls release_urls drop_urls render_urls answer_pump_urls destroy_urls
      urls_frame [OF ok(1)] simp: document_steps_part\<close>)
  with assms(1) render_step_thumbs show ?thesis by blast
qed

interpretation urls: guarded_machine raster_in_time "render_step upper" "\<lambda>s. urls_ok s \<and> thumbs_ok s" for upper
  by unfold_locales (rule render_step_urls)


text \<open>A draft of two photos.\<close>

definition second_photo :: ImportAsset where
  "second_photo = photo\<lparr>a_id := js ''t'', a_checksum := js ''k''\<rparr>"

definition photo_pages :: "PageEdit list" where
  "photo_pages = [source_page (js ''1'') (js ''s'') 0, source_page (js ''2'') (js ''t'') 0]"

definition photo_view :: "int \<Rightarrow> PageRendererView" where
  "photo_view i = \<lparr>rv_draft = Some (demo_draft\<lparr>d_manifest := \<lparr>m_version = 1, m_pages = photo_pages\<rparr>, d_sources := [photo, second_photo]\<rparr>),
     rv_sources = 0, rv_step = PagesStep, rv_selected = i, rv_error = []\<rparr>"

lemma photo_pages_simps: "photo_pages ! 0 = source_page (js ''1'') (js ''s'') 0" "photo_pages ! 1 = source_page (js ''2'') (js ''t'') 0"
  by (simp_all add: photo_pages_def)

lemmas photo_run = selectedDisplayRaster_def releaseDisplayRaster_def revoke_def raster_answered_def raster_taken_def find_load_def
  forget_load_def still_shown_def view_source_def view_page_def view_pages_def source_of_def page_at_def find_source_def
  photo_view_def photo_pages_def source_page_def photo_def second_photo_def new_renderer_def raster_key_def Let_def js_def
  raster_in_time_def destroy_renderer_def cancelPdfPreview_def close_documents_def revokeThumbnails_def

definition photo_once :: "render_event list" where
  "photo_once = [SelectedRaster (photo_pages ! 0) photo, RasterAnswered 0 (Some (1, 1)), RasterTaken 0]"


text \<open>
  The exception happens: from the first photo to the second and back, with both loads of the first
  going on, the raster taken first is overwritten and its URL is never revoked.
\<close>

definition there_and_back :: "render_event list" where
  "there_and_back =
     [SelectedRaster (photo_pages ! 0) photo, ViewChanged (photo_view 1), SelectedRaster (photo_pages ! 1) second_photo,
      ViewChanged (photo_view 0), SelectedRaster (photo_pages ! 0) photo,
      RasterAnswered 0 (Some (1, 1)), RasterTaken 0, RasterAnswered 1 None, RasterAnswered 2 (Some (1, 1)), RasterTaken 2,
      DestroyRenderer]"

lemma overtaken_raster_leaks:
  "rn_destroyed (fold (render_step id) there_and_back (new_renderer (photo_view 0))) \<and>
   rn_loads (fold (render_step id) there_and_back (new_renderer (photo_view 0))) = [] \<and>
   rn_live (fold (render_step id) there_and_back (new_renderer (photo_view 0))) = [3]"
  by (simp add: there_and_back_def photo_run)

text \<open>Thumbnails are only of pages the latest request asks for, each page at most one.\<close>

lemma thumbnails_asked_for:
  "thumbs_listed (fold (render_step upper) es (new_renderer view)) \<and>
   distinct (map fst (rn_thumbs (fold (render_step upper) es (new_renderer view))))"
proof -
  have "thumbs_ok (new_renderer view)" by (simp add: thumbs_ok_def pump_free_def thumbs_listed_def new_renderer_def)
  from thumbs.run_inv [OF this] show ?thesis by (simp add: thumbs_ok_def jm_ok_def)
qed

section \<open>The pump ends\<close>

text \<open>The pages of a request the pump has not tried, and what it still has to wait for.\<close>

definition tried :: "ThumbnailPump \<Rightarrow> ThumbnailRequest \<Rightarrow> jstring list" where
  "tried p r = (if pu_attemptedRevision p = Some (tr_revision r) then pu_attempted p else [])"

definition waits_left :: "ThumbnailRequest \<Rightarrow> ThumbnailPump \<Rightarrow> nat" where
  "waits_left r p = (case pu_stage p of
     PumpReturned \<Rightarrow> 0
   | AwaitCanvas _ _ \<Rightarrow> 2 * card (e_id ` set (tr_pages r) - set (tried p r)) + 2
   | AwaitBlob _ _ \<Rightarrow> 2 * card (e_id ` set (tr_pages r) - set (tried p r)) + 1)"

text \<open>Returned because every page of the request has a thumbnail or was tried, or after the page was left.\<close>

definition pump_over :: "ThumbnailRequest \<Rightarrow> PageRenderer \<Rightarrow> ThumbnailPump \<Rightarrow> bool" where
  "pump_over r s p \<longleftrightarrow> pu_stage p = PumpReturned \<longrightarrow>
     rn_destroyed s \<or> list_all (\<lambda>page. jm_get (rn_thumbs s) (e_id page) \<noteq> None \<or> e_id page \<in> set (tried p r)) (tr_pages r)"

lemma find_None_all: "List.find P xs = None \<Longrightarrow> list_all (\<lambda>x. \<not> P x) xs"
  by (simp add: find_None_iff list_all_iff)

lemma canvas_destroyed [simp]: "rn_destroyed (thumbnailCanvas page s) = rn_destroyed s"
  by (simp add: thumbnailCanvas_def sourceCanvas_def open_document_def selectedDisplayRaster_def releaseDisplayRaster_def revoke_def
      Let_def split: option.split)

lemma pump_waits:
  assumes "rn_thumbnailRequest s = Some r"
  obtains q where "rn_thumbnailPump (pumpThumbnails p s) = Some q"
    and "pu_stage q = PumpReturned \<or> waits_left r q + 2 \<le> 2 * card (e_id ` set (tr_pages r) - set (tried p r)) + 2"
    and "pump_over r (pumpThumbnails p s) q"
proof (cases "rn_destroyed s")
  case True
  then show thesis
    by (intro that [of "p\<lparr>pu_stage := PumpReturned\<rparr>"]) (simp_all add: pumpThumbnails_def pump_returned_def pump_over_def)
next
  case alive: False
  define p' where "p' = p\<lparr>pu_attemptedRevision := Some (tr_revision r), pu_attempted := tried p r\<rparr>"
  show thesis
  proof (cases "next_page (tried p r) s (tr_pages r)")
    case None
    have eq: "pumpThumbnails p s = pump_returned p' s"
      using assms alive None by (simp add: pumpThumbnails_def Let_def tried_def [symmetric] p'_def)
    show thesis
    proof (rule that [of "p'\<lparr>pu_stage := PumpReturned\<rparr>"])
      show "pump_over r (pumpThumbnails p s) (p'\<lparr>pu_stage := PumpReturned\<rparr>)"
        using find_None_all [OF None [unfolded next_page_def]]
        by (simp add: eq pump_returned_def pump_over_def tried_def p'_def list_all_iff)
    qed (simp_all add: eq pump_returned_def)
  next
    case (Some page)
    define q where "q = p'\<lparr>pu_attempted := tried p r @ [e_id page], pu_stage := AwaitCanvas page (tr_revision r)\<rparr>"
    have eq: "rn_thumbnailPump (pumpThumbnails p s) = Some q"
      using assms alive Some by (simp add: pumpThumbnails_def Let_def tried_def [symmetric] p'_def q_def)
    have new: "e_id page \<in> e_id ` set (tr_pages r) - set (tried p r)"
      using find_Some_in [OF Some [unfolded next_page_def]] by simp
    have "set (tried q r) = insert (e_id page) (set (tried p r))" by (simp add: tried_def q_def p'_def)
    then have "e_id ` set (tr_pages r) - set (tried q r) = (e_id ` set (tr_pages r) - set (tried p r)) - {e_id page}" by auto
    then have "card (e_id ` set (tr_pages r) - set (tried q r)) + 1 = card (e_id ` set (tr_pages r) - set (tried p r))"
      using card_Suc_Diff1 [OF _ new] by simp
    then have "waits_left r q + 2 \<le> 2 * card (e_id ` set (tr_pages r) - set (tried p r)) + 2"
      by (simp add: waits_left_def q_def)
    then show thesis by (intro that [OF eq]) (simp_all add: pump_over_def q_def)
  qed
qed

lemma pumped_waits:
  assumes "rn_thumbnailRequest t = Some r" and "pu_stage p \<noteq> PumpReturned"
  shows "\<exists>q. rn_thumbnailPump (pumpThumbnails p t) = Some q \<and> rn_thumbnailRequest (pumpThumbnails p t) = Some r \<and>
    pump_over r (pumpThumbnails p t) q \<and> waits_left r q \<le> waits_left r p - 1"
proof -
  obtain q where q: "rn_thumbnailPump (pumpThumbnails p t) = Some q"
    "pu_stage q = PumpReturned \<or> waits_left r q + 2 \<le> 2 * card (e_id ` set (tr_pages r) - set (tried p r)) + 2"
    "pump_over r (pumpThumbnails p t) q"
    using pump_waits [OF assms(1)] by blast
  have "waits_left r q \<le> waits_left r p - 1"
    using q(2) assms(2) by (cases "pu_stage p") (auto simp: waits_left_def)
  with q assms(1) show ?thesis by simp
qed

lemma answer_waits:
  assumes "rn_thumbnailRequest s = Some r" and "rn_thumbnailPump s = Some p" and "pump_over r s p"
  shows "\<exists>q. rn_thumbnailPump (pump_answered upper answer s) = Some q \<and>
    rn_thumbnailRequest (pump_answered upper answer s) = Some r \<and> pump_over r (pump_answered upper answer s) q \<and>
    waits_left r q \<le> waits_left r p - 1"
proof -
  have threw: "rn_thumbnailRequest (pump_threw upper e m s) = Some r" for e m
    using assms(1) by (simp add: pump_threw_def split: CanvasError.split)
  show ?thesis
  proof (cases "pu_stage p")
    case PumpReturned
    with assms show ?thesis by (simp add: pump_answered_def waits_left_def)
  next
    case (AwaitCanvas page n)
    have "waits_left r (p\<lparr>pu_stage := AwaitBlob page n\<rparr>) \<le> waits_left r p - 1"
      by (simp add: waits_left_def AwaitCanvas tried_def)
    moreover have "pump_over r (s\<lparr>rn_thumbnailPump := x\<rparr>) (p\<lparr>pu_stage := AwaitBlob page n\<rparr>)" for x
      by (simp add: pump_over_def)
    ultimately show ?thesis
      using assms(1,2) threw pumped_waits [of _ r p] AwaitCanvas by (simp add: pump_answered_def split: sum.split)
  next
    case (AwaitBlob page n)
    then show ?thesis using assms(1,2) threw pumped_waits [of _ r p] by (simp add: pump_answered_def split: sum.split)
  qed
qed

lemma answers_wait:
  assumes "rn_thumbnailRequest s = Some r" and "rn_thumbnailPump s = Some p" and "pump_over r s p"
  shows "\<exists>q. rn_thumbnailPump (fold (pump_answered upper) answers s) = Some q \<and>
    pump_over r (fold (pump_answered upper) answers s) q \<and> waits_left r q \<le> waits_left r p - length answers"
  using assms
proof (induction answers arbitrary: s p)
  case (Cons a answers)
  from answer_waits [OF Cons.prems] obtain q where q: "rn_thumbnailRequest (pump_answered upper a s) = Some r"
    "rn_thumbnailPump (pump_answered upper a s) = Some q" "pump_over r (pump_answered upper a s) q"
    "waits_left r q \<le> waits_left r p - 1" by blast
  from Cons.IH [OF q(1,2,3)] q(4) show ?case by (auto intro: order_trans)
qed simp

text \<open>C39: The thumbnail pump ends. While a request for thumbnails stays the latest, at most two waits
  for each of its pages and two more, whatever each is answered, a picture or any error, bring
  the pump to its end; and then, unless the page was left, every page of the request has a
  thumbnail or was tried.\<close>

theorem thumbnail_pump_ends:
  assumes "rn_thumbnailRequest s = Some r" and "rn_thumbnailPump s = Some p" and "pu_stage p \<noteq> PumpReturned"
    and "2 * length (tr_pages r) + 2 \<le> length answers" and "t = fold (pump_answered upper) answers s"
  shows "\<exists>q. rn_thumbnailPump t = Some q \<and> pu_stage q = PumpReturned \<and>
    (rn_destroyed t \<or> list_all (\<lambda>page. jm_get (rn_thumbs t) (e_id page) \<noteq> None \<or> e_id page \<in> set (tried q r)) (tr_pages r))"
proof -
  have "pump_over r s p" using assms(3) by (simp add: pump_over_def)
  from answers_wait [OF assms(1,2) this] obtain q where q: "rn_thumbnailPump t = Some q" "pump_over r t q"
    "waits_left r q \<le> waits_left r p - length answers"
    unfolding assms(5) by blast
  have "card (e_id ` set (tr_pages r) - set (tried p r)) \<le> length (tr_pages r)"
    by (meson card_Diff1_le card_image_le card_length card_mono Diff_subset finite_imageI finite_set order_trans)
  then have "waits_left r p \<le> length answers" using assms(4) by (auto simp: waits_left_def split: PumpStage.split)
  with q(3) have "waits_left r q = 0" by simp
  then have "pu_stage q = PumpReturned" by (simp add: waits_left_def split: PumpStage.splits)
  with q(1,2) show ?thesis by (simp add: pump_over_def)
qed

definition two_thumbnails :: PageRenderer where
  "two_thumbnails = renderThumbnails None (new_renderer (photo_view 0))"

theorem thumbnail_pump_ends_witness:
  "map_option pu_stage (rn_thumbnailPump (fold (pump_answered id) (replicate 6 (Inl DrawingStopped)) two_thumbnails)) = Some PumpReturned"
proof -
  have start: "\<exists>r p. rn_thumbnailRequest two_thumbnails = Some r \<and> rn_thumbnailPump two_thumbnails = Some p \<and>
      pu_stage p \<noteq> PumpReturned \<and> length (tr_pages r) = 2"
    by (simp add: two_thumbnails_def renderThumbnails_def thumbnailIDs_def wanted_pages_def pumpThumbnails_def next_page_def
        new_pump_def thumbnailCanvas_def sourceCanvas_def is_image_def starts_with_def photo_run)
  then obtain r p where "rn_thumbnailRequest two_thumbnails = Some r" "rn_thumbnailPump two_thumbnails = Some p"
    "pu_stage p \<noteq> PumpReturned" "2 * length (tr_pages r) + 2 \<le> length (replicate 6 (Inl DrawingStopped :: (CanvasError, unit) result))"
    by auto
  from thumbnail_pump_ends [OF this refl, of id] show ?thesis by auto
qed

section \<open>Documents\<close>

definition cached :: "PageRenderer \<Rightarrow> nat list" where
  "cached s = map snd (rn_pdfTasks s)"

text \<open>
  Documents not closed are cached or of a running preview; a canvas is drawn from the document
  cached for its source, and each document counts its canvases.
\<close>

definition docs_ok :: "PageRenderer \<Rightarrow> bool" where
  "docs_ok s \<longleftrightarrow> jm_ok (rn_pdfTasks s) \<and> distinct (cached s) \<and> set (cached s) \<inter> set (rn_previews s) = {} \<and>
     set (cached s) \<subseteq> set (rn_open s) \<and> set (rn_open s) \<subseteq> set (cached s) \<union> set (rn_previews s) \<and>
     (\<forall>t \<in> set (cached s) \<union> set (rn_previews s). t < rn_made s) \<and>
     (\<forall>t. rn_previewTask s = Some t \<longrightarrow> t \<in> set (rn_previews s)) \<and>
     (\<forall>c \<in> set (rn_canvases s). jm_get (rn_pdfTasks s) (rc_asset c) = Some (rc_task c) \<and> rc_id c < rn_made s) \<and>
     distinct (map rc_id (rn_canvases s)) \<and>
     (\<forall>t \<in> set (cached s). rn_users s t = length (filter (\<lambda>c. rc_task c = t) (rn_canvases s)))"

definition few_unused :: "PageRenderer \<Rightarrow> bool" where
  "few_unused s \<longleftrightarrow> length (filter (\<lambda>e. rn_users s (snd e) = 0) (rn_pdfTasks s)) \<le> 3"

definition doc_part :: "PageRenderer \<Rightarrow> _" where
  "doc_part s = (rn_pdfTasks s, rn_users s, rn_canvases s, rn_previews s, rn_previewTask s, rn_open s)"

lemma docs_frame:
  assumes "docs_ok s \<and> few_unused s" and "doc_part t = doc_part s" and "rn_made s \<le> rn_made t"
  shows "docs_ok t \<and> few_unused t"
proof -
  have same: "rn_pdfTasks t = rn_pdfTasks s" "rn_users t = rn_users s" "rn_canvases t = rn_canvases s" "rn_previews t = rn_previews s"
    "rn_previewTask t = rn_previewTask s" "rn_open t = rn_open s"
    using assms(2) by (simp_all add: doc_part_def)
  show ?thesis
    using assms(1,3) unfolding docs_ok_def few_unused_def cached_def same by (meson order_less_le_trans)
qed

lemma doc_updates [simp]:
  "doc_part (s\<lparr>rn_view := a\<rparr>) = doc_part s" "doc_part (s\<lparr>rn_thumbs := b\<rparr>) = doc_part s" "doc_part (s\<lparr>rn_made := c\<rparr>) = doc_part s"
  "doc_part (s\<lparr>rn_live := d\<rparr>) = doc_part s" "doc_part (s\<lparr>rn_loads := e\<rparr>) = doc_part s"
  "doc_part (s\<lparr>rn_displayRaster := f\<rparr>) = doc_part s" "doc_part (s\<lparr>rn_displayRasterLoad := g\<rparr>) = doc_part s"
  "doc_part (s\<lparr>rn_thumbnailPump := h\<rparr>) = doc_part s" "doc_part (s\<lparr>rn_thumbnailRequest := i\<rparr>) = doc_part s"
  "doc_part (s\<lparr>rn_thumbnailRevision := j\<rparr>) = doc_part s" "doc_part (revoke us s) = doc_part s"
  "rn_made (revoke us s) = rn_made s"
  by (simp_all add: doc_part_def revoke_def)

lemma raster_doc_part:
  "doc_part (releaseDisplayRaster s) = doc_part s \<and> rn_made s \<le> rn_made (releaseDisplayRaster s)"
  "doc_part (raster_answered p answer s) = doc_part s \<and> rn_made s \<le> rn_made (raster_answered p answer s)"
  "doc_part (raster_taken p s) = doc_part s \<and> rn_made s \<le> rn_made (raster_taken p s)"
  "doc_part (dropThumbnail i s) = doc_part s \<and> rn_made s \<le> rn_made (dropThumbnail i s)"
  "doc_part (pump_threw upper e n s) = doc_part s \<and> rn_made s \<le> rn_made (pump_threw upper e n s)"
  "doc_part (pump_finished s) = doc_part s \<and> rn_made s \<le> rn_made (pump_finished s)"
  by (simp_all add: releaseDisplayRaster_def raster_answered_def raster_taken_def forget_load_def dropThumbnail_def pump_threw_def
      pump_finished_def Let_def split: option.split CanvasError.split)

lemma selected_doc_part:
  "doc_part (snd (selectedDisplayRaster page source s)) = doc_part s \<and> rn_made s \<le> rn_made (snd (selectedDisplayRaster page source s))"
  using raster_doc_part(1) [of s] by (simp add: selectedDisplayRaster_def Let_def split: option.split)

lemma jm_get_in: "jm_ok m \<Longrightarrow> jm_get m k = Some v \<longleftrightarrow> (k, v) \<in> set m"
  by (auto simp: jm_ok_def jm_get_def)

text \<open>Closing one unused document of the cache.\<close>

lemma close_one_docs:
  assumes "docs_ok s" and "(i, t) \<in> set (rn_pdfTasks s)" and "rn_users s t = 0"
  shows "docs_ok (close_documents [t] (s\<lparr>rn_pdfTasks := jm_delete (rn_pdfTasks s) i\<rparr>))"
proof -
  let ?m = "rn_pdfTasks s" and ?s' = "close_documents [t] (s\<lparr>rn_pdfTasks := jm_delete (rn_pdfTasks s) i\<rparr>)"
  have ok: "jm_ok ?m" "distinct (map snd ?m)" using assms(1) by (simp_all add: docs_ok_def cached_def)
  have inj: "inj_on fst (set ?m)" "inj_on snd (set ?m)" using ok unfolding jm_ok_def distinct_map by blast+
  have only: "e = (i, t)" if "e \<in> set ?m" "fst e = i \<or> snd e = t" for e
    using that(2)
  proof
    assume "fst e = i"
    then show ?thesis using inj_onD [OF inj(1) _ that(1) assms(2)] by simp
  next
    assume "snd e = t"
    then show ?thesis using inj_onD [OF inj(2) _ that(1) assms(2)] by simp
  qed
  have own: "fst e = i \<longleftrightarrow> e = (i, t)" if "e \<in> set ?m" for e using only [OF that] by auto
  have set: "set (jm_delete ?m i) = set ?m - {(i, t)}" unfolding jm_delete_def set_filter using own by blast
  have cached: "set (cached ?s') = set (cached s) - {t}"
    using inj_on_image_set_diff [OF inj(2), of "set ?m" "{(i, t)}"] assms(2) by (simp add: cached_def set)
  have free: "rc_task c \<noteq> t" if "c \<in> set (rn_canvases s)" for c
  proof
    assume "rc_task c = t"
    moreover have "t \<in> set (cached s)" using assms(2) by (force simp: cached_def)
    ultimately have "length (filter (\<lambda>c. rc_task c = t) (rn_canvases s)) = 0" using assms(1,3) by (simp add: docs_ok_def)
    with that \<open>rc_task c = t\<close> show False by (auto simp: filter_empty_conv)
  qed
  have canvas: "jm_get (jm_delete ?m i) (rc_asset c) = Some (rc_task c)" if "c \<in> set (rn_canvases s)" for c
  proof -
    have "jm_get ?m (rc_asset c) = Some (rc_task c)" using assms(1) that by (simp add: docs_ok_def)
    moreover from this have "rc_asset c \<noteq> i"
      using only [of "(rc_asset c, rc_task c)"] free [OF that] by (auto simp: jm_get_in [OF ok(1)])
    ultimately show ?thesis by (simp add: jm_get_delete)
  qed
  have "distinct (cached ?s')" using ok(2) by (simp add: cached_def jm_delete_def distinct_map_filter)
  moreover have "t \<notin> set (rn_previews s)" using assms(1,2) by (force simp: docs_ok_def cached_def)
  ultimately show ?thesis
    using assms(1) canvas jm.invar_remove [OF ok(1)] unfolding docs_ok_def cached by auto
qed

lemma close_unused_docs:
  assumes "docs_ok s" and "set es \<subseteq> set (rn_pdfTasks s)" and "distinct (map fst es)"
  shows "docs_ok (close_unused es s)"
  using assms
proof (induction es s rule: close_unused.induct)
  case (2 i t rest s)
  have "set rest \<subseteq> set (jm_delete (rn_pdfTasks s) i)"
    using "2.prems"(2,3) by (force simp: jm_delete_def)
  then show ?case
    using 2 close_one_docs [of s i t] by simp
qed simp

lemma close_unused_few:
  assumes "jm_ok (rn_pdfTasks s)" and "rn_pdfTasks s = before @ es" and "list_all (\<lambda>e. rn_users s (snd e) \<noteq> 0) before"
  shows "few_unused (close_unused es s)"
  using assms
proof (induction es s arbitrary: before rule: close_unused.induct)
  case (1 s)
  then have "filter (\<lambda>e. rn_users s (snd e) = 0) (rn_pdfTasks s) = []" by (simp add: filter_empty_conv list_all_iff)
  then show ?case by (simp add: few_unused_def)
next
  case (2 i t rest s)
  consider "length (rn_pdfTasks s) \<le> 3" | "3 < length (rn_pdfTasks s)" "rn_users s t \<noteq> 0"
    | "3 < length (rn_pdfTasks s)" "rn_users s t = 0" by linarith
  then show ?case
  proof cases
    case 1
    then show ?thesis by (auto simp: few_unused_def intro: order_trans [OF length_filter_le])
  next
    case used: 2
    then show ?thesis using "2.IH"(1) [of "before @ [(i, t)]"] "2.prems" by simp
  next
    case 3
    have "jm_delete (rn_pdfTasks s) i = before @ rest"
    proof -
      have "i \<notin> fst ` set before" "i \<notin> fst ` set rest" using "2.prems"(1,2) by (simp_all add: jm_ok_def)
      then have "filter (\<lambda>e. fst e \<noteq> i) before = before" "filter (\<lambda>e. fst e \<noteq> i) rest = rest"
        unfolding filter_id_conv by (metis image_eqI)+
      then show ?thesis using "2.prems"(2) by (simp add: jm_delete_def)
    qed
    then show ?thesis
      using "2.IH"(2) [of before] 3 "2.prems" jm.invar_remove [of "rn_pdfTasks s" i] by simp
  qed
qed

lemma docs_use: "docs_ok s \<Longrightarrow> jm_ok (rn_pdfTasks s)"
  by (simp add: docs_ok_def)

text \<open>One more or one canvas less on a document keeps the counts.\<close>

lemma settled_docs:
  assumes "docs_ok s \<and> few_unused s"
  shows "docs_ok (canvas_settled i True s) \<and> few_unused (canvas_settled i True s)"
proof (cases "List.find (\<lambda>c. rc_id c = i) (rn_canvases s)")
  case None
  with assms show ?thesis by (simp add: canvas_settled_def)
next
  case (Some c)
  then have c: "c \<in> set (rn_canvases s)" "rc_id c = i" using find_Some_in by fast+
  from assms have ids: "distinct (map rc_id (rn_canvases s))" by (simp add: docs_ok_def)
  define t where "t = s\<lparr>rn_users := (rn_users s)(rc_task c := rn_users s (rc_task c) - 1),
    rn_canvases := filter (\<lambda>c. rc_id c \<noteq> i) (rn_canvases s)\<rparr>"
  have eq: "canvas_settled i True s = close_unused (rn_pdfTasks t) t" using Some by (simp add: canvas_settled_def t_def)
  obtain before after where split: "rn_canvases s = before @ c # after" by (meson c(1) split_list)
  have "i \<notin> rc_id ` set before" "i \<notin> rc_id ` set after" using ids c(2) by (auto simp: split)
  then have "filter (\<lambda>c. rc_id c \<noteq> i) before = before" "filter (\<lambda>c. rc_id c \<noteq> i) after = after"
    unfolding filter_id_conv by (metis image_eqI)+
  then have rest: "rn_canvases t = before @ after" by (simp add: t_def split c(2))
  have count: "rn_users t d = length (filter (\<lambda>c. rc_task c = d) (rn_canvases t))" if "d \<in> set (cached s)" for d
  proof -
    have "rn_users s d = length (filter (\<lambda>c. rc_task c = d) (rn_canvases s))" using assms that by (simp add: docs_ok_def)
    then show ?thesis unfolding rest by (cases "rc_task c = d") (auto simp: t_def split)
  qed
  have ids': "distinct (map rc_id (rn_canvases t))" using ids by (simp add: rest split)
  have sub: "set (rn_canvases t) \<subseteq> set (rn_canvases s)" by (auto simp: rest split)
  have same: "rn_pdfTasks t = rn_pdfTasks s" "cached t = cached s" "rn_previews t = rn_previews s" "rn_open t = rn_open s"
    "rn_made t = rn_made s" "rn_previewTask t = rn_previewTask s"
    by (simp_all add: t_def cached_def)
  have ok: "docs_ok t"
    using assms count ids' sub unfolding docs_ok_def same by blast
  then show ?thesis
    using close_unused_docs [OF ok order_refl] close_unused_few [of t "[]", OF docs_use [OF ok]] by (simp add: eq docs_use jm_ok_def [symmetric])
qed

text \<open>A canvas on a document that is new or at the end of the cache again.\<close>

lemma canvas_added_docs:
  assumes "docs_ok s" and "jm_get (rn_pdfTasks s) i = Some d"
    and "t = s\<lparr>rn_pdfTasks := jm_delete (rn_pdfTasks s) i @ [(i, d)], rn_users := (rn_users s)(d := rn_users s d + 1),
      rn_made := rn_made s + 1, rn_canvases := rn_canvases s @ [\<lparr>rc_id = rn_made s, rc_asset = i, rc_task = d\<rparr>]\<rparr>"
  shows "docs_ok t" and "length (filter (\<lambda>e. rn_users t (snd e) = 0) (rn_pdfTasks t)) \<le>
    length (filter (\<lambda>e. rn_users s (snd e) = 0 \<and> snd e \<noteq> d) (rn_pdfTasks s))"
proof -
  let ?m = "rn_pdfTasks s"
  have ok: "jm_ok ?m" "distinct (map snd ?m)" using assms(1) by (simp_all add: docs_ok_def cached_def)
  have mem: "(i, d) \<in> set ?m" using assms(2) by (simp add: jm_get_in [OF ok(1)])
  have m: "rn_pdfTasks t = jm_set (jm_delete ?m i) i d" by (simp add: assms(3) jm_touch)
  have ok': "jm_ok (rn_pdfTasks t)" unfolding m using ok(1) by (simp add: jm.invar_update jm.invar_remove)
  have get: "jm_get (rn_pdfTasks t) k = jm_get ?m k" for k unfolding m by (simp add: jm_get_set jm_get_delete assms(2))
  have set: "set (rn_pdfTasks t) = set ?m"
    using jm_get_in [OF ok'] jm_get_in [OF ok(1)] get by (metis subrelI subset_antisym)
  have len: "length (rn_pdfTasks t) = length ?m"
    using ok' ok(1) set by (metis distinct_card jm_ok_def length_map set_map)
  have cached: "set (cached t) = set (cached s)" by (simp add: cached_def set)
  have "distinct (cached t)"
    using ok(2) set len by (metis cached_def card_distinct distinct_card length_map set_map)
  moreover have "rn_users t u = length (filter (\<lambda>c. rc_task c = u) (rn_canvases t))" if "u \<in> set (cached s)" for u
  proof -
    have "rn_users s u = length (filter (\<lambda>c. rc_task c = u) (rn_canvases s))"
      using assms(1) that unfolding docs_ok_def by blast
    then show ?thesis by (cases "u = d") (simp_all add: assms(3))
  qed
  moreover have "distinct (map rc_id (rn_canvases t))"
    using assms(1) by (auto simp: assms(3) docs_ok_def)
  moreover have "jm_get ?m (rc_asset c) = Some (rc_task c) \<and> rc_id c < rn_made t" if "c \<in> set (rn_canvases t)" for c
    using assms(1,2) that by (auto simp: assms(3) docs_ok_def less_Suc_eq)
  moreover have "u < rn_made t" if "u \<in> set (cached s) \<union> set (rn_previews s)" for u
    using assms(1) that by (auto simp: assms(3) docs_ok_def less_Suc_eq)
  moreover have "rn_open t = rn_open s" "rn_previews t = rn_previews s" "rn_previewTask t = rn_previewTask s" by (simp_all add: assms(3))
  ultimately show "docs_ok t" using assms(1) ok' unfolding docs_ok_def cached get by auto
  have "filter (\<lambda>e. rn_users t (snd e) = 0) (rn_pdfTasks t) = filter (\<lambda>e. rn_users s (snd e) = 0 \<and> snd e \<noteq> d) (jm_delete ?m i)"
    by (simp add: assms(3)) (rule filter_cong; auto)
  also have "\<dots> = filter (\<lambda>e. fst e \<noteq> i) (filter (\<lambda>e. rn_users s (snd e) = 0 \<and> snd e \<noteq> d) ?m)"
    by (simp add: jm_delete_def conj_commute)
  finally have eq: "filter (\<lambda>e. rn_users t (snd e) = 0) (rn_pdfTasks t) =
    filter (\<lambda>e. fst e \<noteq> i) (filter (\<lambda>e. rn_users s (snd e) = 0 \<and> snd e \<noteq> d) ?m)" .
  show "length (filter (\<lambda>e. rn_users t (snd e) = 0) (rn_pdfTasks t)) \<le>
    length (filter (\<lambda>e. rn_users s (snd e) = 0 \<and> snd e \<noteq> d) (rn_pdfTasks s))"
    unfolding eq by (rule length_filter_le)
qed

lemma document_opened:
  assumes "docs_ok s" and "jm_get (rn_pdfTasks s) i = None"
    and "t = (open_document s)\<lparr>rn_users := (rn_users s)(rn_made s := 0), rn_pdfTasks := rn_pdfTasks s @ [(i, rn_made s)]\<rparr>"
  shows "docs_ok t" and "filter (\<lambda>e. rn_users t (snd e) = 0 \<and> snd e \<noteq> rn_made s) (rn_pdfTasks t) =
    filter (\<lambda>e. rn_users s (snd e) = 0) (rn_pdfTasks s)"
proof -
  let ?d = "rn_made s" and ?m = "rn_pdfTasks s"
  have ok: "jm_ok ?m" using assms(1) docs_use by blast
  have new: "?d \<notin> set (cached s)" "?d \<notin> set (rn_previews s)" using assms(1) by (auto simp: docs_ok_def)
  have fresh: "rc_task c \<noteq> ?d" if "c \<in> set (rn_canvases s)" for c
  proof -
    have "(rc_asset c, rc_task c) \<in> set ?m" using assms(1) that by (simp add: docs_ok_def jm_get_in [OF ok, symmetric])
    then show ?thesis using new(1) by (force simp: cached_def)
  qed
  have m: "rn_pdfTasks t = jm_set ?m i ?d" by (simp add: assms(3) jm_set_absent [OF assms(2)])
  have ok': "jm_ok (rn_pdfTasks t)" unfolding m using ok by (simp add: jm.invar_update)
  have cached: "cached t = cached s @ [?d]" by (simp add: cached_def assms(3))
  have get: "jm_get (rn_pdfTasks t) (rc_asset c) = Some (rc_task c)" if "c \<in> set (rn_canvases s)" for c
    using assms(1,2) that by (auto simp: m jm_get_set docs_ok_def)
  have "filter (\<lambda>c. rc_task c = ?d) (rn_canvases s) = []" using fresh by (simp add: filter_empty_conv)
  then have count: "rn_users t u = length (filter (\<lambda>c. rc_task c = u) (rn_canvases t))" if "u \<in> set (cached s @ [?d])" for u
    using assms(1) that by (auto simp: assms(3) open_document_def docs_ok_def)
  have same: "rn_open t = rn_open s @ [?d]" "rn_previews t = rn_previews s" "rn_previewTask t = rn_previewTask s"
    "rn_canvases t = rn_canvases s" "rn_made t = rn_made s + 1"
    by (simp_all add: assms(3) open_document_def)
  show "docs_ok t"
    using assms(1) ok' get count new unfolding docs_ok_def cached same by (auto simp: less_Suc_eq)
  have "snd e \<noteq> ?d" if "e \<in> set ?m" for e using new(1) that by (force simp: cached_def)
  then show "filter (\<lambda>e. rn_users t (snd e) = 0 \<and> snd e \<noteq> rn_made s) (rn_pdfTasks t) = filter (\<lambda>e. rn_users s (snd e) = 0) (rn_pdfTasks s)"
    by (simp add: assms(3)) (rule filter_cong; auto)
qed

lemma source_canvas_docs:
  assumes "docs_ok s \<and> few_unused s"
  shows "docs_ok (sourceCanvas page s) \<and> few_unused (sourceCanvas page s)"
proof (cases "source_of (Some (e_sourceId page)) s")
  case None
  with assms show ?thesis by (simp add: sourceCanvas_def)
next
  case (Some asset)
  let ?i = "a_id asset" and ?m = "rn_pdfTasks s"
  show ?thesis
  proof (cases "a_mime asset = js ''application/pdf''")
    case False
    with Some assms show ?thesis by (simp add: sourceCanvas_def)
  next
    case pdf: True
    show ?thesis
    proof (cases "jm_get ?m ?i")
      case None
      define u where "u = (open_document s)\<lparr>rn_users := (rn_users s)(rn_made s := 0), rn_pdfTasks := ?m @ [(?i, rn_made s)]\<rparr>"
      have "jm_get (rn_pdfTasks u) ?i = Some (rn_made s)"
        using None by (simp add: u_def jm_get_set flip: jm_set_absent [OF None])
      note added = canvas_added_docs [OF document_opened(1) [OF _ None u_def] this refl]
      have "sourceCanvas page s = u\<lparr>rn_pdfTasks := jm_delete (rn_pdfTasks u) ?i @ [(?i, rn_made s)],
          rn_users := (rn_users u)(rn_made s := rn_users u (rn_made s) + 1), rn_made := rn_made u + 1,
          rn_canvases := rn_canvases u @ [\<lparr>rc_id = rn_made u, rc_asset = ?i, rc_task = rn_made s\<rparr>]\<rparr>"
        using Some pdf None jm_delete_absent [OF None]
        by (simp add: sourceCanvas_def Let_def u_def open_document_def jm_touch) (simp add: jm_delete_def)
      with added document_opened(2) [OF _ None u_def] assms show ?thesis by (simp add: few_unused_def)
    next
      case cached: (Some d)
      have "sourceCanvas page s = s\<lparr>rn_pdfTasks := jm_delete (rn_pdfTasks s) ?i @ [(?i, d)],
          rn_users := (rn_users s)(d := rn_users s d + 1), rn_made := rn_made s + 1,
          rn_canvases := rn_canvases s @ [\<lparr>rc_id = rn_made s, rc_asset = ?i, rc_task = d\<rparr>]\<rparr>"
        using Some pdf cached by (simp add: sourceCanvas_def Let_def jm_touch)
      note eq = this
      have fewer: "length (filter (\<lambda>e. rn_users s (snd e) = 0 \<and> snd e \<noteq> d) ?m) \<le> length (filter (\<lambda>e. rn_users s (snd e) = 0) ?m)"
        using length_filter_le [of "\<lambda>e. snd e \<noteq> d" "filter (\<lambda>e. rn_users s (snd e) = 0) ?m"] by (simp add: conj_commute)
      note added = canvas_added_docs [OF conjunct1 [OF assms] cached refl]
      have "few_unused (sourceCanvas page s)"
        unfolding eq few_unused_def
        by (rule order_trans [OF added(2) order_trans [OF fewer]]) (use assms in \<open>simp add: few_unused_def\<close>)
      with added(1) show ?thesis unfolding eq by blast
    qed
  qed
qed

definition docs_inv :: "PageRenderer \<Rightarrow> bool" where
  "docs_inv s \<longleftrightarrow> docs_ok s \<and> few_unused s"

lemma docs_inv_frame: "docs_inv s \<Longrightarrow> doc_part t = doc_part s \<and> rn_made s \<le> rn_made t \<Longrightarrow> docs_inv t"
  unfolding docs_inv_def using docs_frame by blast

lemma docs_inv_canvas: "docs_inv s \<Longrightarrow> docs_inv (thumbnailCanvas page s)"
  using source_canvas_docs [of s page] docs_inv_frame [OF _ selected_doc_part, of s page]
  by (auto simp: docs_inv_def thumbnailCanvas_def split: option.split)

lemma docs_inv_pump: "docs_inv s \<Longrightarrow> docs_inv (pumpThumbnails p s)"
proof -
  assume ok: "docs_inv s"
  have same: "docs_inv (t\<lparr>rn_thumbnailPump := x\<rparr>)" if "docs_inv t" for t x
    by (rule docs_inv_frame [OF that]) simp
  from ok show ?thesis
    by (auto simp: pumpThumbnails_def pump_returned_def Let_def intro: same docs_inv_canvas split: option.split)
qed

lemma docs_inv_answer: "docs_inv s \<Longrightarrow> docs_inv (pump_answered upper answer s)"
proof -
  assume ok: "docs_inv s"
  have threw: "docs_inv (pump_threw upper e n s)" for e n by (rule docs_inv_frame [OF ok raster_doc_part(5)])
  have blob: "docs_inv (s\<lparr>rn_made := rn_made s + 1, rn_live := rn_live s @ [rn_made s], rn_thumbs := x\<rparr>)" for x
    by (rule docs_inv_frame [OF ok]) simp
  have waits: "docs_inv (s\<lparr>rn_thumbnailPump := x\<rparr>)" for x by (rule docs_inv_frame [OF ok]) simp
  note pumped = docs_inv_pump [OF ok] docs_inv_pump [OF threw] docs_inv_pump [OF blob]
  show ?thesis
  proof (cases "rn_thumbnailPump s")
    case None
    then show ?thesis using ok by (simp add: pump_answered_def)
  next
    case (Some p)
    show ?thesis
      by (cases "pu_stage p") (simp_all add: pump_answered_def Some ok waits pumped pumped(3) [simplified] split: sum.split)
  qed
qed

lemma docs_inv_render: "docs_inv s \<Longrightarrow> docs_inv (renderThumbnails container s)"
proof -
  assume ok: "docs_inv s"
  define ids where "ids = thumbnailIDs container s"
  define u where "u = (revoke (map snd (filter (\<lambda>x. fst x \<notin> set ids) (rn_thumbs s))) s)\<lparr>rn_thumbs := filter (\<lambda>x. fst x \<in> set ids) (rn_thumbs s)\<rparr>"
  define v where "v = (if map_option tr_key (rn_thumbnailRequest u) = Some (thumbnail_key (wanted_pages ids s) u) then u
     else u\<lparr>rn_thumbnailRevision := rn_thumbnailRevision u + 1,
            rn_thumbnailRequest := Some \<lparr>tr_revision = rn_thumbnailRevision u + 1, tr_key = thumbnail_key (wanted_pages ids s) u,
              tr_ids = ids, tr_pages = wanted_pages ids s\<rparr>\<rparr>)"
  have eq: "renderThumbnails container s = (if rn_destroyed s \<or> rv_draft (rn_view s) = None then s
      else if rn_thumbnailPump v = None then pumpThumbnails new_pump v else v)"
    unfolding renderThumbnails_def Let_def ids_def u_def v_def ..
  have "docs_inv v" by (rule docs_inv_frame [OF ok]) (simp add: v_def u_def)
  with ok docs_inv_pump [of v new_pump] show ?thesis by (simp add: eq)
qed

lemma docs_inv_previews:
  assumes "docs_inv s"
  shows "docs_inv (renderPdfPreview s)" and "docs_inv (preview_settled t s)" and "docs_inv (cancelPdfPreview s)"
proof -
  have few: "few_unused (renderPdfPreview s)" "few_unused (preview_settled t s)" "few_unused (cancelPdfPreview s)"
    using assms by (simp_all add: docs_inv_def few_unused_def renderPdfPreview_def open_document_def preview_settled_def
        cancelPdfPreview_def split: option.split)
  have ok: "docs_ok s" using assms by (simp add: docs_inv_def)
  have fields: "cached (renderPdfPreview s) = cached s" "rn_previews (renderPdfPreview s) = rn_previews s @ [rn_made s]"
    "rn_open (renderPdfPreview s) = rn_open s @ [rn_made s]" "rn_canvases (renderPdfPreview s) = rn_canvases s"
    "rn_previewTask (renderPdfPreview s) = Some (rn_made s)" "rn_made (renderPdfPreview s) = rn_made s + 1"
    "rn_users (renderPdfPreview s) = rn_users s" "rn_pdfTasks (renderPdfPreview s) = rn_pdfTasks s"
    by (simp_all add: renderPdfPreview_def open_document_def cached_def)
  have "docs_ok (renderPdfPreview s)"
    using ok unfolding docs_ok_def fields by (auto simp: less_Suc_eq)
  with few show "docs_inv (renderPdfPreview s)" by (simp add: docs_inv_def)
  show "docs_inv (preview_settled t s)"
  proof (cases "t \<in> set (rn_previews s)")
    case False
    then show ?thesis using assms by (simp add: preview_settled_def)
  next
    case True
    have fields: "cached (preview_settled t s) = cached s" "rn_previews (preview_settled t s) = filter (\<lambda>u. u \<noteq> t) (rn_previews s)"
      "rn_open (preview_settled t s) = filter (\<lambda>u. u \<noteq> t) (rn_open s)" "rn_canvases (preview_settled t s) = rn_canvases s"
      "rn_previewTask (preview_settled t s) = (if rn_previewTask s = Some t then None else rn_previewTask s)"
      "rn_made (preview_settled t s) = rn_made s"
      "rn_users (preview_settled t s) = rn_users s" "rn_pdfTasks (preview_settled t s) = rn_pdfTasks s"
      using True by (simp_all add: preview_settled_def cached_def)
    have "t \<notin> set (cached s)" using ok True by (auto simp: docs_ok_def)
    then have "docs_ok (preview_settled t s)" using ok unfolding docs_ok_def fields by auto
    with few show ?thesis by (simp add: docs_inv_def)
  qed
  show "docs_inv (cancelPdfPreview s)"
  proof (cases "rn_previewTask s")
    case None
    then show ?thesis using assms by (simp add: cancelPdfPreview_def)
  next
    case (Some u)
    have fields: "cached (cancelPdfPreview s) = cached s" "rn_previews (cancelPdfPreview s) = rn_previews s"
      "rn_open (cancelPdfPreview s) = filter (\<lambda>v. v \<noteq> u) (rn_open s)" "rn_canvases (cancelPdfPreview s) = rn_canvases s"
      "rn_previewTask (cancelPdfPreview s) = None" "rn_made (cancelPdfPreview s) = rn_made s"
      "rn_users (cancelPdfPreview s) = rn_users s" "rn_pdfTasks (cancelPdfPreview s) = rn_pdfTasks s"
      using Some by (simp_all add: cancelPdfPreview_def cached_def)
    have "u \<notin> set (cached s)" using ok Some by (auto simp: docs_ok_def)
    then have "docs_ok (cancelPdfPreview s)" using ok unfolding docs_ok_def fields by auto
    with few show ?thesis by (simp add: docs_inv_def)
  qed
qed

text \<open>The guard: no drawing fails, and the page is not left.\<close>

definition documents_draw :: "PageRenderer \<Rightarrow> render_event \<Rightarrow> bool" where
  "documents_draw s e \<longleftrightarrow> (case e of CanvasSettled _ drawn \<Rightarrow> drawn | DestroyRenderer \<Rightarrow> False | _ \<Rightarrow> True)"

lemma render_step_docs: "docs_inv s \<Longrightarrow> documents_draw s e \<Longrightarrow> docs_inv (render_step upper e s)"
proof (cases e)
  case (KeepRasterFor key)
  assume "docs_inv s"
  then show ?thesis using KeepRasterFor docs_inv_frame [OF _ raster_doc_part(1)] by (simp add: keepDisplayRasterFor_def split: option.split)
next
  case (SourceCanvas page)
  assume "docs_inv s"
  then show ?thesis using SourceCanvas source_canvas_docs by (simp add: docs_inv_def)
next
  case (CanvasSettled i drawn)
  assume "docs_inv s" "documents_draw s e"
  then show ?thesis using CanvasSettled settled_docs by (simp add: docs_inv_def documents_draw_def)
next
  case (ViewChanged v)
  assume ok: "docs_inv s"
  show ?thesis unfolding ViewChanged render_step.simps by (rule docs_inv_frame [OF ok]) simp
qed (auto intro: docs_inv_previews docs_inv_render docs_inv_answer docs_inv_frame [OF _ raster_doc_part(1)]
    docs_inv_frame [OF _ raster_doc_part(2)] docs_inv_frame [OF _ raster_doc_part(3)] docs_inv_frame [OF _ raster_doc_part(4)]
    docs_inv_frame [OF _ raster_doc_part(6)] docs_inv_frame [OF _ selected_doc_part] simp: documents_draw_def)

interpretation docs: guarded_machine documents_draw "render_step upper" docs_inv for upper
  by unfold_locales (rule render_step_docs)

text \<open>While drawing works, a document is not closed under a canvas drawn from it, no document is left
  open outside the cache and the previews, and at most three unused ones stay in the cache.\<close>

lemma drawn_documents_open:
  assumes "enabled_run documents_draw (render_step upper) (new_renderer view) es"
    and "s = fold (render_step upper) es (new_renderer view)"
  shows "(\<forall>c \<in> set (rn_canvases s). rc_task c \<in> set (rn_open s)) \<and> set (rn_open s) \<subseteq> set (cached s) \<union> set (rn_previews s) \<and>
    length (filter (\<lambda>e. rn_users s (snd e) = 0) (rn_pdfTasks s)) \<le> 3"
proof -
  have "docs_inv (new_renderer view)"
    by (simp add: docs_inv_def docs_ok_def few_unused_def new_renderer_def cached_def)
  from docs.run_inv [OF this assms(1)] have ok: "docs_ok s" "few_unused s" by (simp_all add: docs_inv_def assms(2))
  have "rc_task c \<in> set (rn_open s)" if "c \<in> set (rn_canvases s)" for c
  proof -
    have "(rc_asset c, rc_task c) \<in> set (rn_pdfTasks s)"
      using ok(1) that jm_get_in [OF docs_use [OF ok(1)]] by (auto simp: docs_ok_def)
    then have "rc_task c \<in> set (cached s)" by (force simp: cached_def)
    then show ?thesis using ok(1) by (auto simp: docs_ok_def)
  qed
  then show ?thesis using ok by (simp add: docs_ok_def few_unused_def)
qed

end
