(* ===== verification/PdfPages.thy ===== *)
theory PdfPages
  imports JsNumber JsMap Machines
begin

text \<open>
  The PDF document behind the reader (\<open>web/src/app/features/reader/pdf-document.service.ts\<close>): loading
  and disposing of a document, and drawing its pages, where one canvas is drawn by one request at
  a time. Documents, requests and render tasks are numbered as they are made; what PDF.js does is
  told by events.
\<close>

section \<open>State\<close>

text \<open>What is drawn: the document's generation, the page, its width and its height at most.\<close>

type_synonym render_key = "nat \<times> nat \<times> real \<times> real option"

text \<open>A request: it waits for the page, or its render task runs, cancelled or not.\<close>

datatype RenderStage = AwaitPage | RenderTask nat bool

record ActiveRender =
  rq_id :: nat
  rq_canvas :: nat
  rq_key :: render_key
  rq_stage :: RenderStage

text \<open>A disposal that waits for the document to be destroyed, with what follows it.\<close>

datatype AfterDispose = LoadDocument | StayDisposed

record PdfDocument =
  pd_document :: "nat option"
  pd_loadingTask :: "nat option"
  pd_documentGeneration :: nat
  pd_renders :: "(nat, nat) js_map"  \<comment> \<open>the request of a canvas\<close>
  pd_draws :: "ActiveRender list"
  pd_disposals :: "AfterDispose list"
  pd_made :: nat
  pd_open :: "nat list"  \<comment> \<open>documents not destroyed\<close>

definition new_document :: PdfDocument where
  "new_document = \<lparr>pd_document = None, pd_loadingTask = None, pd_documentGeneration = 0, pd_renders = [], pd_draws = [],
     pd_disposals = [], pd_made = 0, pd_open = []\<rparr>"

section \<open>Loading and disposing\<close>

definition stop_stage :: "RenderStage \<Rightarrow> RenderStage" where
  "stop_stage stage = (case stage of RenderTask t _ \<Rightarrow> RenderTask t True | AwaitPage \<Rightarrow> AwaitPage)"

definition cancel_render :: "nat \<Rightarrow> PdfDocument \<Rightarrow> PdfDocument" where
  "cancel_render i s = s\<lparr>pd_draws := map (\<lambda>r. if rq_id r \<noteq> i then r
     else r\<lparr>rq_stage := stop_stage (rq_stage r)\<rparr>) (pd_draws s)\<rparr>"

definition disposed :: "AfterDispose \<Rightarrow> PdfDocument \<Rightarrow> PdfDocument" where
  "disposed follow s =
     (let s = s\<lparr>pd_loadingTask := None, pd_document := None\<rparr>
      in case follow of
           StayDisposed \<Rightarrow> s
         | LoadDocument \<Rightarrow> s\<lparr>pd_loadingTask := Some (pd_made s), pd_made := pd_made s + 1, pd_open := pd_open s @ [pd_made s]\<rparr>)"

definition dispose :: "AfterDispose \<Rightarrow> PdfDocument \<Rightarrow> PdfDocument" where
  "dispose follow s =
     (let s = (fold cancel_render (map snd (pd_renders s)) s)\<lparr>pd_documentGeneration := pd_documentGeneration s + 1, pd_renders := []\<rparr>
      in case pd_loadingTask s of
           None \<Rightarrow> disposed follow s
         | Some t \<Rightarrow> s\<lparr>pd_open := filter (\<lambda>u. u \<noteq> t) (pd_open s), pd_disposals := pd_disposals s @ [follow]\<rparr>)"

text \<open>The oldest destroying is over. The document was loaded, or loading it failed.\<close>

definition destroyed_document :: "PdfDocument \<Rightarrow> PdfDocument" where
  "destroyed_document s = (case pd_disposals s of
     [] \<Rightarrow> s | follow # rest \<Rightarrow> disposed follow (s\<lparr>pd_disposals := rest\<rparr>))"

definition document_loaded :: "nat \<Rightarrow> PdfDocument \<Rightarrow> PdfDocument" where
  "document_loaded t s = s\<lparr>pd_document := Some t\<rparr>"

text \<open>The metrics of the pages, of their widths and heights at scale 1.\<close>

definition page_metrics :: "(real \<times> real) list \<Rightarrow> (nat \<times> real) list" where
  "page_metrics sizes = map (\<lambda>(n, (w, h)). (n + 1, w / h)) (List.enumerate 0 sizes)"

section \<open>Drawing\<close>

definition renderPage :: "nat \<Rightarrow> nat \<Rightarrow> real \<Rightarrow> real option \<Rightarrow> PdfDocument \<Rightarrow> PdfDocument" where
  "renderPage canvas page width height s =
     (if pd_document s = None \<or> width \<le> 0 then s
      else
        let key = (pd_documentGeneration s, page, width, height);
            active = jm_get (pd_renders s) canvas;
            same = (case active of None \<Rightarrow> False | Some i \<Rightarrow> list_ex (\<lambda>r. rq_id r = i \<and> rq_key r = key) (pd_draws s))
        in if same then s
           else
             let s = (case active of None \<Rightarrow> s | Some i \<Rightarrow> cancel_render i s)
             in s\<lparr>pd_made := pd_made s + 1, pd_renders := jm_set (pd_renders s) canvas (pd_made s),
                  pd_draws := pd_draws s @ [\<lparr>rq_id = pd_made s, rq_canvas = canvas, rq_key = key, rq_stage = AwaitPage\<rparr>]\<rparr>)"

text \<open>The size of the canvas, in its own pixels and on the page.\<close>

definition page_scale :: "real \<Rightarrow> real option \<Rightarrow> real \<Rightarrow> real \<Rightarrow> real" where
  "page_scale width height w h =
     (let scale = width / w
      in case height of None \<Rightarrow> scale | Some m \<Rightarrow> if m = 0 then scale else min scale (m / h))"

definition output_scale :: "real option \<Rightarrow> real" where
  "output_scale ratio = min (if nullish ratio 0 = 0 then 1 else nullish ratio 0) 2"

definition canvas_size :: "real \<Rightarrow> real option \<Rightarrow> real option \<Rightarrow> real \<Rightarrow> real \<Rightarrow> (int \<times> int) \<times> (int \<times> int)" where
  "canvas_size width height ratio w h =
     (let scale = page_scale width height w h; out = output_scale ratio
      in ((\<lfloor>w * scale * out\<rfloor>, \<lfloor>h * scale * out\<rfloor>), (\<lfloor>w * scale\<rfloor>, \<lfloor>h * scale\<rfloor>)))"

text \<open>A request is over: it goes, and its canvas is free if no other request has it.\<close>

definition render_over :: "ActiveRender \<Rightarrow> PdfDocument \<Rightarrow> PdfDocument" where
  "render_over r s = s\<lparr>pd_draws := filter (\<lambda>q. rq_id q \<noteq> rq_id r) (pd_draws s),
     pd_renders := (if jm_get (pd_renders s) (rq_canvas r) = Some (rq_id r) then jm_delete (pd_renders s) (rq_canvas r) else pd_renders s)\<rparr>"

text \<open>The page was got, or that failed; then the page was drawn, cancelled or failed.\<close>

definition page_got :: "nat \<Rightarrow> bool \<Rightarrow> PdfDocument \<Rightarrow> PdfDocument" where
  "page_got i got s = (case List.find (\<lambda>r. rq_id r = i) (pd_draws s) of
     None \<Rightarrow> s
   | Some r \<Rightarrow>
       if rq_stage r \<noteq> AwaitPage then s
       else if \<not> got \<or> jm_get (pd_renders s) (rq_canvas r) \<noteq> Some i then render_over r s
       else s\<lparr>pd_made := pd_made s + 1,
              pd_draws := map (\<lambda>q. if rq_id q = i then q\<lparr>rq_stage := RenderTask (pd_made s) False\<rparr> else q) (pd_draws s)\<rparr>)"

definition page_drawn :: "nat \<Rightarrow> PdfDocument \<Rightarrow> PdfDocument" where
  "page_drawn i s = (case List.find (\<lambda>r. rq_id r = i) (pd_draws s) of
     None \<Rightarrow> s
   | Some r \<Rightarrow> if rq_stage r = AwaitPage then s else render_over r s)"

datatype pdf_event =
    LoadPdf | DisposePdf | PdfDestroyed | PdfLoaded nat | RenderPage nat nat real "real option" | PageGot nat bool | PageDrawn nat

fun pdf_step :: "pdf_event \<Rightarrow> PdfDocument \<Rightarrow> PdfDocument" where
  "pdf_step LoadPdf s = dispose LoadDocument s"
| "pdf_step DisposePdf s = dispose StayDisposed s"
| "pdf_step PdfDestroyed s = destroyed_document s"
| "pdf_step (PdfLoaded t) s = document_loaded t s"
| "pdf_step (RenderPage canvas page width height) s = renderPage canvas page width height s"
| "pdf_step (PageGot i got) s = page_got i got s"
| "pdf_step (PageDrawn i) s = page_drawn i s"

section \<open>One drawing on a canvas\<close>

text \<open>A render task runs uncancelled only for the request its canvas has.\<close>

definition draws_ok :: "PdfDocument \<Rightarrow> bool" where
  "draws_ok s \<longleftrightarrow> distinct (map rq_id (pd_draws s)) \<and> list_all (\<lambda>r. rq_id r < pd_made s) (pd_draws s) \<and>
     (\<forall>r \<in> set (pd_draws s). \<forall>t. rq_stage r = RenderTask t False \<longrightarrow> jm_get (pd_renders s) (rq_canvas r) = Some (rq_id r)) \<and>
     (\<forall>canvas i. jm_get (pd_renders s) canvas = Some i \<longrightarrow> (\<exists>r \<in> set (pd_draws s). rq_id r = i \<and> rq_canvas r = canvas))"

definition live_draws :: "nat \<Rightarrow> PdfDocument \<Rightarrow> ActiveRender list" where
  "live_draws canvas s = filter (\<lambda>r. rq_canvas r = canvas \<and> (case rq_stage r of RenderTask _ cancelled \<Rightarrow> \<not> cancelled | AwaitPage \<Rightarrow> False)) (pd_draws s)"

lemma stop_stage_simps [simp]: "stop_stage stage \<noteq> RenderTask t False" "stop_stage (stop_stage stage) = stop_stage stage"
  "stop_stage stage = AwaitPage \<longleftrightarrow> stage = AwaitPage"
  by (simp_all add: stop_stage_def split: RenderStage.split)

lemma cancel_fields [simp]:
  "pd_renders (cancel_render i s) = pd_renders s" "pd_made (cancel_render i s) = pd_made s"
  "pd_document (cancel_render i s) = pd_document s" "pd_loadingTask (cancel_render i s) = pd_loadingTask s"
  "pd_documentGeneration (cancel_render i s) = pd_documentGeneration s"
  by (simp_all add: cancel_render_def)

lemma cancels_fields [simp]:
  "pd_renders (fold cancel_render is s) = pd_renders s" "pd_made (fold cancel_render is s) = pd_made s"
  by (induction "is" arbitrary: s) simp_all

lemma cancels_draws:
  "pd_draws (fold cancel_render is s) =
    map (\<lambda>r. if rq_id r \<in> set is then r\<lparr>rq_stage := stop_stage (rq_stage r)\<rparr> else r) (pd_draws s)"
proof (induction "is" arbitrary: s)
  case (Cons i "is")
  show ?case
    unfolding fold_Cons comp_def Cons.IH by (simp add: cancel_render_def)
qed simp

lemma draws_there: "draws_ok s \<Longrightarrow> jm_get (pd_renders s) c = Some i \<Longrightarrow> \<exists>r. r \<in> set (pd_draws s) \<and> rq_id r = i \<and> rq_canvas r = c"
  unfolding draws_ok_def by blast

lemma draws_fields:
  assumes "draws_ok s" and "pd_draws t = pd_draws s" and "pd_renders t = pd_renders s" and "pd_made s \<le> pd_made t"
  shows "draws_ok t"
  using assms unfolding draws_ok_def by (simp add: list_all_iff) (meson order_less_le_trans)

text \<open>Cancelling requests, and setting one of them free.\<close>

lemma stopped_draws:
  assumes "draws_ok s"
    and "pd_draws t = map (\<lambda>r. if P r then r\<lparr>rq_stage := stop_stage (rq_stage r)\<rparr> else r) (pd_draws s)"
    and "pd_made t = pd_made s" and "\<And>c i. jm_get (pd_renders t) c = Some i \<Longrightarrow> jm_get (pd_renders s) c = Some i"
    and "\<And>r. r \<in> set (pd_draws s) \<Longrightarrow> jm_get (pd_renders s) (rq_canvas r) = Some (rq_id r) \<Longrightarrow>
      P r \<or> jm_get (pd_renders t) (rq_canvas r) = Some (rq_id r)"
  shows "draws_ok t"
proof -
  let ?f = "\<lambda>r. if P r then r\<lparr>rq_stage := stop_stage (rq_stage r)\<rparr> else r"
  have same: "rq_id (?f r) = rq_id r" "rq_canvas (?f r) = rq_canvas r" for r by simp_all
  have "map rq_id (pd_draws t) = map rq_id (pd_draws s)" by (simp add: assms(2) comp_def)
  moreover have "list_all (\<lambda>r. rq_id r < pd_made t) (pd_draws t)" using assms(1) by (auto simp: draws_ok_def assms(2,3) list_all_iff)
  moreover have "jm_get (pd_renders t) (rq_canvas r) = Some (rq_id r)"
    if "r \<in> set (pd_draws t)" "rq_stage r = RenderTask n False" for r n
  proof -
    from that obtain q where q: "q \<in> set (pd_draws s)" "r = q" "\<not> P q" by (auto simp: assms(2) split: if_splits)
    with that assms(1) have "jm_get (pd_renders s) (rq_canvas r) = Some (rq_id r)" by (auto simp: draws_ok_def)
    then show ?thesis using assms(5) [OF q(1)] q by auto
  qed
  moreover have "\<exists>r \<in> set (pd_draws t). rq_id r = i \<and> rq_canvas r = c" if "jm_get (pd_renders t) c = Some i" for c i
  proof -
    from draws_there [OF assms(1) assms(4) [OF that]]
    obtain q where "q \<in> set (pd_draws s)" "rq_id q = i" "rq_canvas q = c" by blast
    then show ?thesis by (intro bexI [of _ "?f q"]) (simp_all add: assms(2))
  qed
  ultimately show ?thesis using assms(1) by (simp add: draws_ok_def)
qed

lemma disposed_draws: "draws_ok s \<Longrightarrow> draws_ok (disposed follow s)"
  by (cases follow; rule draws_fields [of s]; simp add: disposed_def Let_def)

lemma dispose_draws: "draws_ok s \<Longrightarrow> draws_ok (dispose follow s)"
proof -
  assume ok: "draws_ok s"
  define t where "t = (fold cancel_render (map snd (pd_renders s)) s)\<lparr>pd_documentGeneration := pd_documentGeneration s + 1,
    pd_renders := []\<rparr>"
  have "draws_ok t"
  proof (rule stopped_draws [OF ok, where P = "\<lambda>r. rq_id r \<in> set (map snd (pd_renders s))"])
    show "rq_id r \<in> set (map snd (pd_renders s)) \<or> jm_get (pd_renders t) (rq_canvas r) = Some (rq_id r)"
      if "jm_get (pd_renders s) (rq_canvas r) = Some (rq_id r)" for r
      using map_of_SomeD that by (force simp: jm_get_def)
  qed (simp_all add: t_def cancels_draws)
  then have "draws_ok (disposed follow t)" "draws_ok (t\<lparr>pd_open := a, pd_disposals := b\<rparr>)" for a b
    using disposed_draws draws_fields [of t "t\<lparr>pd_open := a, pd_disposals := b\<rparr>"] by simp_all
  then show ?thesis unfolding dispose_def Let_def t_def [symmetric] by (simp split: option.split)
qed

lemma draws_only: "draws_ok s \<Longrightarrow> r \<in> set (pd_draws s) \<Longrightarrow> q \<in> set (pd_draws s) \<Longrightarrow> rq_id q = rq_id r \<Longrightarrow> q = r"
  unfolding draws_ok_def distinct_map by (meson inj_onD)

lemma render_over_draws:
  assumes ok: "draws_ok s" and r: "r \<in> set (pd_draws s)"
  shows "draws_ok (render_over r s)"
proof -
  define t where "t = render_over r s"
  have t: "pd_made t = pd_made s" "pd_draws t = filter (\<lambda>q. rq_id q \<noteq> rq_id r) (pd_draws s)"
    by (simp_all add: t_def render_over_def)
  have get: "jm_get (pd_renders t) c = Some i \<longleftrightarrow>
      jm_get (pd_renders s) c = Some i \<and> \<not> (c = rq_canvas r \<and> i = rq_id r)" for c i
    by (auto simp: t_def render_over_def jm_get_delete)
  have "distinct (map rq_id (pd_draws t)) \<and> list_all (\<lambda>q. rq_id q < pd_made t) (pd_draws t)"
    using ok by (simp add: draws_ok_def t distinct_map_filter list_all_iff)
  moreover have "jm_get (pd_renders t) (rq_canvas q) = Some (rq_id q)"
    if "q \<in> set (pd_draws t)" "rq_stage q = RenderTask n False" for q n
    using that ok by (auto simp: get t draws_ok_def)
  moreover have "\<exists>q \<in> set (pd_draws t). rq_id q = i \<and> rq_canvas q = c" if got: "jm_get (pd_renders t) c = Some i" for c i
  proof -
    obtain q where q: "q \<in> set (pd_draws s)" "rq_id q = i" "rq_canvas q = c" using draws_there [OF ok] got get by blast
    show ?thesis
    proof (cases "i = rq_id r")
      case True
      then have "q = r" using draws_only [OF ok r q(1)] q(2) by simp
      with q got True show ?thesis by (simp add: get)
    next
      case False
      with q show ?thesis by (auto simp: t)
    qed
  qed
  ultimately show "draws_ok (render_over r s)" by (simp add: draws_ok_def t_def)
qed

lemma page_got_draws:
  assumes "draws_ok s"
  shows "draws_ok (page_got i got s)"
proof (cases "List.find (\<lambda>r. rq_id r = i) (pd_draws s)")
  case None
  with assms show ?thesis by (simp add: page_got_def)
next
  case (Some r)
  then have r: "r \<in> set (pd_draws s)" "rq_id r = i" using find_Some_in by fast+
  let ?f = "\<lambda>q. if rq_id q = i then q\<lparr>rq_stage := RenderTask (pd_made s) False\<rparr> else q"
  define t where "t = s\<lparr>pd_made := pd_made s + 1, pd_draws := map ?f (pd_draws s)\<rparr>"
  have started: "draws_ok t" if current: "jm_get (pd_renders s) (rq_canvas r) = Some i"
  proof -
    have only: "q = r" if "q \<in> set (pd_draws s)" "rq_id q = i" for q
      using draws_only [OF assms r(1)] r(2) that by simp
    have "map rq_id (pd_draws t) = map rq_id (pd_draws s)" by (simp add: t_def comp_def)
    moreover have "list_all (\<lambda>q. rq_id q < pd_made t) (pd_draws t)"
      using assms by (auto simp: draws_ok_def t_def list_all_iff less_Suc_eq)
    moreover have "jm_get (pd_renders t) (rq_canvas q) = Some (rq_id q)"
      if q: "q \<in> set (pd_draws t)" "rq_stage q = RenderTask n False" for q n
    proof -
      from q obtain q' where q': "q' \<in> set (pd_draws s)" "q = ?f q'" by (auto simp: t_def)
      show ?thesis
      proof (cases "rq_id q' = i")
        case True
        with only [OF q'(1)] current q'(2) r(2) show ?thesis by (simp add: t_def)
      next
        case False
        with q q' assms show ?thesis by (auto simp: t_def draws_ok_def)
      qed
    qed
    moreover have "\<exists>q \<in> set (pd_draws t). rq_id q = j \<and> rq_canvas q = c" if "jm_get (pd_renders t) c = Some j" for c j
    proof -
      have "jm_get (pd_renders s) c = Some j" using that by (simp add: t_def)
      from draws_there [OF assms this] obtain q where "q \<in> set (pd_draws s)" "rq_id q = j" "rq_canvas q = c" by blast
      then show ?thesis by (intro bexI [of _ "?f q"]) (simp_all add: t_def)
    qed
    ultimately show ?thesis using assms by (simp add: draws_ok_def)
  qed
  then show ?thesis
    using Some assms render_over_draws [OF assms r(1)] by (simp add: page_got_def t_def)
qed

lemma render_page_draws:
  assumes "draws_ok s"
  shows "draws_ok (renderPage canvas page width height s)"
proof -
  define u where "u = (case jm_get (pd_renders s) canvas of None \<Rightarrow> s | Some i \<Rightarrow> cancel_render i s)"
  define v where "v = u\<lparr>pd_renders := jm_delete (pd_renders s) canvas\<rparr>"
  have u: "pd_made u = pd_made s" "pd_renders u = pd_renders s" by (simp_all add: u_def split: option.split)
  have "draws_ok v"
  proof (rule stopped_draws [OF assms, where P = "\<lambda>r. jm_get (pd_renders s) canvas = Some (rq_id r)"])
    show "pd_draws v = map (\<lambda>r. if jm_get (pd_renders s) canvas = Some (rq_id r) then r\<lparr>rq_stage := stop_stage (rq_stage r)\<rparr> else r) (pd_draws s)"
      by (auto simp: v_def u_def cancel_render_def split: option.split)
    show "jm_get (pd_renders s) canvas = Some (rq_id r) \<or> jm_get (pd_renders v) (rq_canvas r) = Some (rq_id r)"
      if "jm_get (pd_renders s) (rq_canvas r) = Some (rq_id r)" for r
      using that by (auto simp: v_def jm_get_delete)
  qed (simp_all add: v_def u jm_get_delete split: if_splits)
  moreover have "draws_ok (u\<lparr>pd_made := pd_made u + 1, pd_renders := jm_set (pd_renders u) canvas (pd_made u),
      pd_draws := pd_draws u @ [\<lparr>rq_id = pd_made u, rq_canvas = canvas, rq_key = key, rq_stage = AwaitPage\<rparr>]\<rparr>)" (is "draws_ok ?w") for key
  proof -
    have get: "jm_get (pd_renders ?w) c = (if c = canvas then Some (pd_made u) else jm_get (pd_renders v) c)" for c
      by (simp add: v_def u jm_get_set jm_get_delete)
    have parts: "pd_draws u = pd_draws v" "pd_made u = pd_made v" by (simp_all add: v_def)
    have old: "jm_get (pd_renders ?w) (rq_canvas r) = Some (rq_id r)"
      if "r \<in> set (pd_draws v)" "rq_stage r = RenderTask n False" for r n
    proof -
      have "jm_get (pd_renders v) (rq_canvas r) = Some (rq_id r)" using \<open>draws_ok v\<close> that by (auto simp: draws_ok_def)
      moreover from this have "rq_canvas r \<noteq> canvas" by (auto simp: v_def jm_get_delete)
      ultimately show ?thesis unfolding get by simp
    qed
    have there: "\<exists>r \<in> set (pd_draws v). rq_id r = i \<and> rq_canvas r = c" if "c \<noteq> canvas" "jm_get (pd_renders ?w) c = Some i" for c i
      using draws_there [OF \<open>draws_ok v\<close>, of c i] that unfolding get by auto
    have "pd_made v \<notin> rq_id ` set (pd_draws v)" using \<open>draws_ok v\<close> by (auto simp: draws_ok_def list_all_iff)
    moreover have "list_all (\<lambda>r. rq_id r < pd_made v + 1) (pd_draws v)"
      using \<open>draws_ok v\<close> by (auto simp: draws_ok_def list_all_iff less_Suc_eq)
    moreover have "\<exists>r \<in> set (pd_draws ?w). rq_id r = i \<and> rq_canvas r = c" if "jm_get (pd_renders ?w) c = Some i" for c i
    proof (cases "c = canvas")
      case True
      with that show ?thesis unfolding get by simp
    next
      case False
      from there [OF False that] show ?thesis by (auto simp: parts)
    qed
    moreover have "jm_get (pd_renders ?w) (rq_canvas r) = Some (rq_id r)"
      if "r \<in> set (pd_draws ?w)" "rq_stage r = RenderTask n False" for r n
      using that old [of r n] by (auto simp: parts)
    moreover have "distinct (map rq_id (pd_draws v))" using \<open>draws_ok v\<close> by (simp add: draws_ok_def)
    ultimately show ?thesis unfolding draws_ok_def by (simp add: parts)
  qed
  ultimately show ?thesis
    using assms by (simp add: renderPage_def Let_def u_def [symmetric] u)
qed

lemma pdf_step_draws: "draws_ok s \<Longrightarrow> draws_ok (pdf_step e s)"
proof (cases e)
  case (PageDrawn i)
  assume ok: "draws_ok s"
  have "r \<in> set (pd_draws s)" if "List.find (\<lambda>r. rq_id r = i) (pd_draws s) = Some r" for r
    using find_Some_in [OF that] by simp
  with ok show ?thesis using PageDrawn render_over_draws by (auto simp: page_drawn_def split: option.split)
next
  case PdfDestroyed
  assume ok: "draws_ok s"
  have "draws_ok (disposed follow (s\<lparr>pd_disposals := rest\<rparr>))" for follow rest
    by (rule disposed_draws, rule draws_fields [OF ok]) simp_all
  with ok PdfDestroyed show ?thesis by (simp add: destroyed_document_def split: list.split)
next
  case (PdfLoaded t)
  assume ok: "draws_ok s"
  show ?thesis unfolding PdfLoaded pdf_step.simps document_loaded_def by (rule draws_fields [OF ok]) simp_all
qed (simp_all add: dispose_draws render_page_draws page_got_draws)

interpretation pdf: machine pdf_step draws_ok
  by unfold_locales (rule pdf_step_draws)

text \<open>C32: Two drawings never meet on one canvas. Whatever is loaded, disposed, asked for and answered in
  whatever order, at most one render task that was not cancelled runs on a canvas, and it is the
  one of the request made last for that canvas since the document was disposed.\<close>

theorem one_drawing_per_canvas:
  "length (live_draws canvas (fold pdf_step es new_document)) \<le> 1 \<and>
   list_all (\<lambda>r. jm_get (pd_renders (fold pdf_step es new_document)) canvas = Some (rq_id r))
     (live_draws canvas (fold pdf_step es new_document))"
proof -
  define s where "s = fold pdf_step es new_document"
  have ok: "draws_ok s"
    using pdf.run_inv [of new_document es] by (simp add: s_def draws_ok_def new_document_def)
  have current: "jm_get (pd_renders s) canvas = Some (rq_id r)" if "r \<in> set (live_draws canvas s)" for r
    using that ok by (auto simp: live_draws_def draws_ok_def split: RenderStage.splits)
  have "set (map rq_id (live_draws canvas s)) \<subseteq> set_option (jm_get (pd_renders s) canvas)"
    using current by auto
  then have "card (set (map rq_id (live_draws canvas s))) \<le> card (set_option (jm_get (pd_renders s) canvas))"
    by (rule card_mono [rotated]) simp
  moreover have "distinct (map rq_id (live_draws canvas s))"
    using ok by (simp add: live_draws_def draws_ok_def distinct_map_filter)
  then have "card (set (map rq_id (live_draws canvas s))) = length (live_draws canvas s)"
    using distinct_card by fastforce
  moreover have "card (set_option (jm_get (pd_renders s) canvas)) \<le> 1" by (cases "jm_get (pd_renders s) canvas") simp_all
  ultimately have "length (live_draws canvas s) \<le> 1" by linarith
  with current show ?thesis by (simp add: s_def [symmetric] list_all_iff)
qed

text \<open>
  Loading begins by disposing, but nothing stops a load that begins after the last disposal: the
  document it opens stays open. The reader does so when it is left before the piece was read.
\<close>

lemma load_after_dispose_stays_open:
  "pd_open (fold pdf_step [DisposePdf, LoadPdf, PdfLoaded 0] new_document) = [0]"
  by (simp add: new_document_def dispose_def disposed_def document_loaded_def)

end
