(* ===== verification/Spec2Isabelle.thy ===== *)
theory Spec2Isabelle
  imports MatchParts Exif PreparedPages WorkerClient ReaderProps LibraryStoreProps PreparePages ProcessingPages
    Account Suggestions DetailsForm LibraryKeys Shell RenderingProps PdfPages
begin

text \<open>
  The verification library of noted, a private library of sheet music: an Angular application
  (\<open>web/src/app/\<close>) in front of a Go server. What is modelled is the application: the search and the
  library page, the reader, and the Prepare page that turns photos and PDFs into a score with a
  worker that processes images. The server is seen through requests and answers.

  \<^bold>\<open>The parts and their theories.\<close>
  \<^item> Language. \<open>Prelude\<close> holds what all theories share; \<open>JsText\<close> strings as lists of UTF-16 code units,
    \<open>JsNumber\<close> rounding and decimal texts, \<open>JsMap\<close> the insertion-ordered \<open>Map\<close> (locale
    \<open>ordered_map\<close>), \<open>JsSort\<close> the stable sort with a comparison (locale \<open>comparator\<close>), \<open>Machines\<close> state
    machines (locales \<open>machine\<close>, \<open>guarded_machine\<close>, \<open>latest_wins\<close>), on which the properties of all
    handlers rest.
  \<^item> \<open>core/\<close>. \<open>Models\<close> is \<open>models.ts\<close>; \<open>Api\<close> is \<open>api.service.ts\<close>, \<open>session-expiry.interceptor.ts\<close> and
    \<open>library-address.ts\<close>; \<open>Search\<close> and \<open>SearchSpans\<close> are \<open>search.ts\<close>: fold, terms, catalogue numbers and
    keys, stored search text, the spans to mark.
  \<^item> \<open>app.ts\<close> and \<open>choice-menu.component.ts\<close>: \<open>Shell\<close>, the session and the sign-in gate, the menu.
  \<^item> The library page. \<open>LibraryUtils\<close> is \<open>library.utils.ts\<close> (which pieces, in which order, addresses, row
    texts), \<open>MatchParts\<close> its highlighting, \<open>LibraryStore\<close> and \<open>LibraryStoreProps\<close> \<open>library.store.ts\<close> with the
    queues that save choices and statuses, \<open>DetailsForm\<close> \<open>library.component.ts\<close>, \<open>LibraryKeys\<close> the
    keyboard of \<open>library-toolbar.component.ts\<close> and \<open>library-list-item.component.ts\<close>, \<open>Account\<close>
    \<open>library-account.component.ts\<close>, \<open>Suggestions\<close> the suggestions under a search, the merging of
    composers and the composer field.
  \<^item> The reader. \<open>WakeLock\<close> is \<open>screen-wake-lock.ts\<close>; \<open>PdfPages\<close> is \<open>pdf-document.service.ts\<close>; \<open>ReaderView\<close> (drawing) and \<open>Reader\<close> (handlers)
    are \<open>reader.component.ts\<close> and \<open>reader.utils.ts\<close>; \<open>ReaderInvariants\<close> and \<open>ReaderProps\<close> prove its properties.
  \<^item> The Prepare page. \<open>Prepare\<close> (state and edits), \<open>PrepareFlow\<close> (what waits) and \<open>PrepareEvents\<close>
    (handlers and answers) are \<open>prepare.component.ts\<close> and \<open>prepare-imslp.component.ts\<close>;
    \<open>PrepareEdges\<close> is \<open>prepare-edges.component.ts\<close>; \<open>PrepareImslp\<close> and \<open>ImslpSearch\<close> are \<open>prepare-imslp.ts\<close>.
    \<open>PrepareFrames\<close> and \<open>PrepareQuiet\<close> (locale \<open>quiet_steps\<close>) say what helpers leave alone; \<open>PrepareOps\<close>,
    \<open>PrepareEdits\<close> and \<open>PreparePages\<close> prove the invariants of operations, of edits and of pages.
    \<open>Rendering\<close> and \<open>RenderingProps\<close> are \<open>prepare-rendering.ts\<close>: object URLs, PDF.js documents and the
    thumbnail pump.
  \<^item> Processing. \<open>PageGeometry\<close> and \<open>Exif\<close> are \<open>processing-algorithms.ts\<close>; \<open>PreparedPages\<close> (keys and
    cache) and \<open>WorkerClient\<close> are \<open>prepare-processing.ts\<close>; \<open>WorkerActs\<close> (actions that may throw, in a
    world of open resources; locale \<open>world_relation\<close>) and \<open>Processing\<close> are \<open>processing.worker.ts\<close>;
    \<open>ProcessingRequests\<close>, \<open>ProcessingBuild\<close>, \<open>ProcessingCache\<close> and \<open>ProcessingPages\<close> prove its properties.

  \<^bold>\<open>How they interact.\<close> The library page reads pieces into its store, shows what \<open>filterAndSort\<close> and
  \<open>matchParts\<close> make of them, and writes the view to the address. The Prepare page keeps a draft, saves
  it, and asks \<open>ProcessingWorkerClient\<close> for previews and documents; the client posts requests to the
  worker, whose \<open>onmessage\<close> builds pages with the geometry and the prepared pages.
  \<open>answered_request_settles\<close> joins the two sides: the answer the worker's model gives to a request
  settles the promise of the client's model.

  \<^bold>\<open>How the code is modelled.\<close>
  \<^item> A class is a record, an operation a function on it. An \<open>async\<close> function runs up to its \<open>await\<close>; what
    it still has to do waits in the state as a value, and the answer is an event that runs the rest.
    So every order of answers, clicks and timers is a sequence of events, and an invariant holds
    after all of them. Where the page offers an event only in some states, or the browser promises
    something of it, the property carries a named condition on the run (\<open>store_enabled\<close>,
    \<open>reader_enabled\<close>, \<open>drawing_works\<close>, \<open>keeps_edits\<close>, \<open>saving_works\<close>, \<open>sound_pages\<close>, \<open>composers_enabled\<close>,
    \<open>wake_enabled\<close>, \<open>stays_open\<close>, \<open>edge_enabled\<close>, \<open>raster_in_time\<close>, \<open>documents_draw\<close>) and its witness a run that has it.
  \<^item> Exceptions are the left side of a sum. A loop that may not end is a partial function
    (\<open>occurrences\<close>), everything else is total and its definition says so.
  \<^item> What the browser or a library provides is an argument: Unicode data, the collator, dates, the URL
    parser, the router, PDF.js, pdf-lib, OpenCV, bitmaps and canvases. In the worker each may throw.
    What a property needs of one is a hypothesis by name (\<open>ascii_ok\<close>, \<open>unicode_stable\<close>,
    \<open>stable_sources\<close>, \<open>looks_ok\<close>), with a witness that gives a concrete function.
  \<^item> Measures of pages are exact real numbers where the code has floating point, so no property is
    about rounding errors. Counts are natural numbers, bytes and code units numbers in range.
    JSON texts used as cache keys are kept as the values they print.

  \<^bold>\<open>What the lemmas show.\<close> Search: terms of a piece's own texts find it, spellings of a
  catalogue number agree, the list is the matching pieces in the chosen order, marks keep
  the text. Store, reader, Prepare: what was chosen last is what the server hears last, positions
  and pages stay in range, no edit is lost on leaving, one long operation at a time, undo walks
  back. Client and worker: each promise settles once, with its own reply; the worker answers each
  request once, releases what it opens, builds page by page what a page alone would give, with or
  without prepared pages, and reads a PDF once. Geometry: a fitted page keeps its ink, matching a
  page puts its staff where the reference has it. Drawing: an object URL is always held by what
  revokes it, one drawing at a time runs on a canvas, the thumbnail pump ends. Account, composers, details form, gate: a token
  is shown once, merges were previewed, the form shows the row asked for last, the next account
  does not inherit a search.

  \<^bold>\<open>Bounds.\<close> The caches, the history and the pages have the code's own limits (prepared pages,
  answers of IMSLP, thirty versions, ten pages, eight matches); there is no fuel. Loops over
  bytes of a file or over pages recurse on a list or a decreasing measure.

  \<^bold>\<open>Not modelled.\<close> Templates and styles, of which only conditions that enable a handler appear;
  scrolling and measuring of elements, pixels and encodings drawn for the screen; the lengths of
  timers; routes, configuration and timing marks; test helpers and scripts; the server.
\<close>

end
